(* ===== verification/Prelude.thy ===== *)
theory Prelude
  imports Main "HOL-Library.Word" "HOL-Library.Monad_Syntax"
begin

text \<open>
  The prelude of the development.  It fixes how Rust code is written down in HOL:

  \<^item> a byte is an \<open>8 word\<close>, a byte slice a list of bytes;
  \<^item> \<open>u16\<close>, \<open>u32\<close>, \<open>u64\<close> and \<open>usize\<close> (64 bits on every target of the program) are natural
    numbers below their bound, and every arithmetic operator of the source is written with its
    overflow: the plain operators (\<open>add64\<close>, \<open>sub64\<close>, \<open>mul64\<close>) panic, as a build with overflow
    checks does, the \<open>checked_\<close> ones return an option, the \<open>saturating_\<close> and \<open>wrapping_\<close> ones
    are total;
  \<^item> \<open>Result<T, E>\<close> is the type \<open>('e, 'a) res\<close>, with a third outcome \<open>Panic\<close> for a failed
    assertion or an arithmetic overflow.  A proof that a function never yields \<open>Panic\<close> shows that
    builds with and without overflow checks and debug assertions behave the same;
  \<^item> code that reads a disk through \<open>&mut D\<close> is a state-passing computation \<open>('s, 'e, 'a) io\<close> over
    the disk's state, so that a disk may answer the same read differently the next time.

  The weakest preconditions \<open>wp\<close> and \<open>wpi\<close> of the two kinds of computation are set up as
  simplification rules; component proofs run them over a definition and are left with the
  arithmetic.  The last part has the little- and big-endian codecs of \<open>from_le_bytes\<close>,
  \<open>to_le_bytes\<close> and their big-endian twins.
\<close>

unbundle bit_operations_syntax

section \<open>Results\<close>

type_synonym byte = "8 word"
type_synonym bytes = "byte list"

datatype ('e, 'a) res = Ok 'a | Err 'e | Panic

primrec rbind :: "('e, 'a) res \<Rightarrow> ('a \<Rightarrow> ('e, 'b) res) \<Rightarrow> ('e, 'b) res" where
  "rbind (Ok x) k = k x"
| "rbind (Err e) k = Err e"
| "rbind Panic k = Panic"

primrec map_err :: "('d \<Rightarrow> 'e) \<Rightarrow> ('d, 'a) res \<Rightarrow> ('e, 'a) res" where
  "map_err f (Ok x) = Ok x"
| "map_err f (Err e) = Err (f e)"
| "map_err f Panic = Panic"

definition ok_or :: "'a option \<Rightarrow> 'e \<Rightarrow> ('e, 'a) res" where
  "ok_or x e = (case x of Some y \<Rightarrow> Ok y | None \<Rightarrow> Err e)"

definition ensure :: "bool \<Rightarrow> 'e \<Rightarrow> ('e, unit) res" where
  "ensure c e = (if c then Ok () else Err e)"

text \<open>\<open>Iterator::try_fold\<close>: a loop that carries a state and stops at the first error.\<close>

fun try_fold :: "('g \<Rightarrow> 'a \<Rightarrow> ('e, 'g) res) \<Rightarrow> 'g \<Rightarrow> 'a list \<Rightarrow> ('e, 'g) res" where
  "try_fold f g [] = Ok g"
| "try_fold f g (x # xs) = rbind (f g x) (\<lambda>g. try_fold f g xs)"

fun opt_fold :: "('g \<Rightarrow> 'a \<Rightarrow> 'g option) \<Rightarrow> 'g \<Rightarrow> 'a list \<Rightarrow> 'g option" where
  "opt_fold f g [] = Some g"
| "opt_fold f g (x # xs) = (case f g x of None \<Rightarrow> None | Some g \<Rightarrow> opt_fold f g xs)"

lemma rbind_cong [fundef_cong]:
  "m = m' \<Longrightarrow> (\<And>x. m' = Ok x \<Longrightarrow> k x = k' x) \<Longrightarrow> rbind m k = rbind m' k'"
  by (cases m') auto

lemma rbind_assoc: "rbind (rbind m f) g = rbind m (\<lambda>x. rbind (f x) g)"
  by (cases m) auto

lemma rbind_eq_Ok: "rbind m k = Ok y \<longleftrightarrow> (\<exists>x. m = Ok x \<and> k x = Ok y)"
  by (cases m) auto

lemma map_err_eq_Ok [simp]: "map_err f m = Ok y \<longleftrightarrow> m = Ok y"
  by (cases m) auto

lemma map_err_eq_Panic [simp]: "map_err f m = Panic \<longleftrightarrow> m = Panic"
  by (cases m) auto

lemma ok_or_simps [simp]: "ok_or (Some y) e = Ok y" "ok_or None e = Err e"
  by (simp_all add: ok_or_def)

lemma ok_or_eq_Ok [simp]: "ok_or x e = Ok y \<longleftrightarrow> x = Some y"
  by (cases x) auto

lemma ok_or_not_Panic [simp]: "ok_or x e \<noteq> Panic"
  by (cases x) auto

lemma ensure_eq_Ok [simp]: "ensure c e = Ok u \<longleftrightarrow> c"
  by (simp add: ensure_def)

subsection \<open>Weakest preconditions of results\<close>

text \<open>
  \<open>wp m Q\<close>: \<open>m\<close> does not panic, and if it succeeds its value satisfies \<open>Q\<close>.
\<close>

definition wp :: "('e, 'a) res \<Rightarrow> ('a \<Rightarrow> bool) \<Rightarrow> bool" where
  "wp m Q = (case m of Ok x \<Rightarrow> Q x | Err e \<Rightarrow> True | Panic \<Rightarrow> False)"

lemma wp_simps [simp]:
  "wp (Ok x) Q = Q x" "wp (Err e) Q = True" "wp Panic Q = False"
  by (simp_all add: wp_def)

lemma wp_rbind [simp]: "wp (rbind m k) Q = wp m (\<lambda>x. wp (k x) Q)"
  by (cases m) auto

lemma wp_map_err [simp]: "wp (map_err f m) Q = wp m Q"
  by (cases m) auto

lemma wp_ok_or [simp]: "wp (ok_or x e) Q = (\<forall>y. x = Some y \<longrightarrow> Q y)"
  by (cases x) auto

lemma wp_ensure [simp]: "wp (ensure c e) Q = (c \<longrightarrow> Q ())"
  by (simp add: ensure_def)

lemma wp_if [simp]:
  "wp (if c then a else b) Q = ((c \<longrightarrow> wp a Q) \<and> (\<not> c \<longrightarrow> wp b Q))"
  by simp

lemma wp_case_option [simp]:
  "wp (case x of None \<Rightarrow> a | Some y \<Rightarrow> b y) Q
     = ((x = None \<longrightarrow> wp a Q) \<and> (\<forall>y. x = Some y \<longrightarrow> wp (b y) Q))"
  by (cases x) auto

lemma wp_case_prod [simp]:
  "wp (case p of (x, y) \<Rightarrow> f x y) Q = (\<forall>x y. p = (x, y) \<longrightarrow> wp (f x y) Q)"
  by (cases p) auto

lemma wp_let [simp]: "wp (Let x f) Q = wp (f x) Q"
  by (simp add: Let_def)

lemma wp_conseq: "wp m P \<Longrightarrow> (\<And>x. m = Ok x \<Longrightarrow> P x \<Longrightarrow> Q x) \<Longrightarrow> wp m Q"
  by (cases m) auto

lemma wpI: "m \<noteq> Panic \<Longrightarrow> (\<And>x. m = Ok x \<Longrightarrow> Q x) \<Longrightarrow> wp m Q"
  by (cases m) auto

lemma wp_ok_orI: "(\<And>y. x = Some y \<Longrightarrow> Q y) \<Longrightarrow> wp (ok_or x e) Q"
  by simp

lemma wp_OkD: "wp m Q \<Longrightarrow> m = Ok x \<Longrightarrow> Q x"
  by simp

lemma wp_not_Panic: "wp m Q \<Longrightarrow> m \<noteq> Panic"
  by auto

lemma wp_True: "wp m (\<lambda>_. True) \<longleftrightarrow> m \<noteq> Panic"
  by (cases m) auto

subsection \<open>Partial correctness\<close>

text \<open>
  \<open>wlp m Q\<close> is silent about panics.  It is what a termination proof needs, where the arguments of
  the recursive call are known only to come from a successful step.
\<close>

definition wlp :: "('e, 'a) res \<Rightarrow> ('a \<Rightarrow> bool) \<Rightarrow> bool" where
  "wlp m Q \<longleftrightarrow> (\<forall>x. m = Ok x \<longrightarrow> Q x)"

lemma wlp_simps [simp]:
  "wlp (Ok x) Q = Q x" "wlp (Err e) Q" "wlp Panic Q"
  "wlp (rbind m k) Q = wlp m (\<lambda>x. wlp (k x) Q)"
  "wlp (ok_or y e) Q = (\<forall>z. y = Some z \<longrightarrow> Q z)"
  by (auto simp: wlp_def rbind_eq_Ok)

lemma wlp_if [simp]:
  "wlp (if c then a else b) Q = ((c \<longrightarrow> wlp a Q) \<and> (\<not> c \<longrightarrow> wlp b Q))"
  by simp

lemma wlp_let [simp]: "wlp (Let x f) Q = wlp (f x) Q"
  by (simp add: Let_def)

lemma wlp_OkD: "wlp m Q \<Longrightarrow> m = Ok x \<Longrightarrow> Q x"
  by (simp add: wlp_def)

section \<open>Disk computations\<close>

type_synonym ('s, 'e, 'a) io = "'s \<Rightarrow> ('e, 'a) res \<times> 's"

definition lift :: "('e, 'a) res \<Rightarrow> ('s, 'e, 'a) io" where
  "lift r = (\<lambda>s. (r, s))"

definition ibind :: "('s, 'e, 'a) io \<Rightarrow> ('a \<Rightarrow> ('s, 'e, 'b) io) \<Rightarrow> ('s, 'e, 'b) io" where
  "ibind m k = (\<lambda>s. case m s of (r, s') \<Rightarrow>
     (case r of Ok x \<Rightarrow> k x s' | Err e \<Rightarrow> (Err e, s') | Panic \<Rightarrow> (Panic, s')))"

lemma ibind_cong [fundef_cong]:
  assumes "m s = m' s'" and "\<And>x t. m' s' = (Ok x, t) \<Longrightarrow> k x t = k' x t"
  shows "ibind m k s = ibind m' k' s'"
  using assms by (auto simp: ibind_def split: prod.splits res.splits)

definition wpi :: "('s, 'e, 'a) io \<Rightarrow> 's \<Rightarrow> ('a \<Rightarrow> 's \<Rightarrow> bool) \<Rightarrow> bool" where
  "wpi m s Q = wp (fst (m s)) (\<lambda>x. Q x (snd (m s)))"

lemma wpi_lift [simp]: "wpi (lift r) s Q = wp r (\<lambda>x. Q x s)"
  by (simp add: wpi_def lift_def)

lemma wpi_ibind [simp]: "wpi (ibind m k) s Q = wpi m s (\<lambda>x s'. wpi (k x) s' Q)"
  by (cases "m s"; cases "fst (m s)") (auto simp: wpi_def ibind_def)

lemma wpi_if [simp]:
  "wpi (if c then a else b) s Q = ((c \<longrightarrow> wpi a s Q) \<and> (\<not> c \<longrightarrow> wpi b s Q))"
  by simp

lemma wpi_case_option [simp]:
  "wpi (case x of None \<Rightarrow> a | Some y \<Rightarrow> b y) s Q
     = ((x = None \<longrightarrow> wpi a s Q) \<and> (\<forall>y. x = Some y \<longrightarrow> wpi (b y) s Q))"
  by (cases x) auto

lemma wpi_case_prod [simp]:
  "wpi (case p of (x, y) \<Rightarrow> f x y) s Q = (\<forall>x y. p = (x, y) \<longrightarrow> wpi (f x y) s Q)"
  by (cases p) auto

lemma wpi_let [simp]: "wpi (Let x f) s Q = wpi (f x) s Q"
  by (simp add: Let_def)

lemma wpi_conseq:
  "wpi m s P \<Longrightarrow> (\<And>x s'. P x s' \<Longrightarrow> Q x s') \<Longrightarrow> wpi m s Q"
  by (auto simp: wpi_def elim: wp_conseq)

lemma wpi_OkD: "wpi m s Q \<Longrightarrow> m s = (Ok x, s') \<Longrightarrow> Q x s'"
  by (simp add: wpi_def)

lemma wpi_not_Panic: "wpi m s Q \<Longrightarrow> fst (m s) \<noteq> Panic"
  by (auto simp: wpi_def)

text \<open>
  \<open>wpx P m s Q\<close> is \<open>wpi m s Q\<close> with an invariant \<open>P\<close> of the disk's state that is to hold after an
  error, too: what a computation does to the disk before it gives up.
\<close>

definition wpx :: "('s \<Rightarrow> bool) \<Rightarrow> ('s, 'e, 'a) io \<Rightarrow> 's \<Rightarrow> ('a \<Rightarrow> 's \<Rightarrow> bool) \<Rightarrow> bool" where
  "wpx P m s Q = (case fst (m s) of Ok x \<Rightarrow> Q x (snd (m s)) | Err e \<Rightarrow> P (snd (m s)) | Panic \<Rightarrow> False)"

lemma wpx_lift [simp]: "P s \<Longrightarrow> wpx P (lift r) s Q = wp r (\<lambda>x. Q x s)"
  by (cases r) (simp_all add: wpx_def lift_def)

lemma wpx_ibind [simp]: "wpx P (ibind m k) s Q = wpx P m s (\<lambda>x s'. wpx P (k x) s' Q)"
  by (auto simp: wpx_def ibind_def split: prod.split res.split)

lemma wpx_if [simp]:
  "wpx P (if c then a else b) s Q = ((c \<longrightarrow> wpx P a s Q) \<and> (\<not> c \<longrightarrow> wpx P b s Q))"
  by simp

lemma wpx_case_option [simp]:
  "wpx P (case x of None \<Rightarrow> a | Some y \<Rightarrow> b y) s Q
     = ((x = None \<longrightarrow> wpx P a s Q) \<and> (\<forall>y. x = Some y \<longrightarrow> wpx P (b y) s Q))"
  by (cases x) auto

lemma wpx_case_prod [simp]:
  "wpx P (case p of (x, y) \<Rightarrow> f x y) s Q = (\<forall>x y. p = (x, y) \<longrightarrow> wpx P (f x y) s Q)"
  by (cases p) auto

lemma wpx_let [simp]: "wpx P (Let x f) s Q = wpx P (f x) s Q"
  by (simp add: Let_def)

lemma wpx_step: "m s = m' s \<Longrightarrow> wpx P m s Q = wpx P m' s Q"
  by (simp only: wpx_def)

lemma wpx_conseq:
  "wpx P m s R \<Longrightarrow> (\<And>x s'. R x s' \<Longrightarrow> Q x s') \<Longrightarrow> wpx P m s Q"
  by (auto simp: wpx_def split: res.splits)

lemma wpx_lift_conseq:
  "P s \<Longrightarrow> wp r R \<Longrightarrow> (\<And>x. R x \<Longrightarrow> Q x s) \<Longrightarrow> wpx P (lift r) s Q"
  by (auto elim: wp_conseq)

lemma wpx_wpi: "wpx P m s Q \<Longrightarrow> wpi m s Q"
  by (auto simp: wpx_def wpi_def wp_def split: res.splits)

section \<open>Machine arithmetic\<close>

text \<open>Bounds of the unsigned types, and the operators of \<open>u64\<close> and \<open>usize\<close>.\<close>

abbreviation u8_lim :: nat where "u8_lim \<equiv> 256"
abbreviation u16_lim :: nat where "u16_lim \<equiv> 65536"
abbreviation u32_lim :: nat where "u32_lim \<equiv> 4294967296"
abbreviation u64_lim :: nat where "u64_lim \<equiv> 18446744073709551616"

definition add64 :: "nat \<Rightarrow> nat \<Rightarrow> ('e, nat) res" where
  "add64 a b = (if a + b < u64_lim then Ok (a + b) else Panic)"

definition sub64 :: "nat \<Rightarrow> nat \<Rightarrow> ('e, nat) res" where
  "sub64 a b = (if b \<le> a then Ok (a - b) else Panic)"

definition mul64 :: "nat \<Rightarrow> nat \<Rightarrow> ('e, nat) res" where
  "mul64 a b = (if a * b < u64_lim then Ok (a * b) else Panic)"

text \<open>\<open>u32\<close> multiplication.\<close>

definition mul32 :: "nat \<Rightarrow> nat \<Rightarrow> ('e, nat) res" where
  "mul32 a b = (if a * b < u32_lim then Ok (a * b) else Panic)"

text \<open>\<open>u16\<close> and \<open>u32\<close> addition.\<close>

definition add16 :: "nat \<Rightarrow> nat \<Rightarrow> ('e, nat) res" where
  "add16 a b = (if a + b < u16_lim then Ok (a + b) else Panic)"

definition add32 :: "nat \<Rightarrow> nat \<Rightarrow> ('e, nat) res" where
  "add32 a b = (if a + b < u32_lim then Ok (a + b) else Panic)"

definition checked_add :: "nat \<Rightarrow> nat \<Rightarrow> nat option" where
  "checked_add a b = (if a + b < u64_lim then Some (a + b) else None)"

definition checked_sub :: "nat \<Rightarrow> nat \<Rightarrow> nat option" where
  "checked_sub a b = (if b \<le> a then Some (a - b) else None)"

definition checked_mul :: "nat \<Rightarrow> nat \<Rightarrow> nat option" where
  "checked_mul a b = (if a * b < u64_lim then Some (a * b) else None)"

definition saturating_add :: "nat \<Rightarrow> nat \<Rightarrow> nat" where
  "saturating_add a b = min (a + b) (u64_lim - 1)"

definition saturating_sub :: "nat \<Rightarrow> nat \<Rightarrow> nat" where
  "saturating_sub a b = a - b"

definition saturating_mul :: "nat \<Rightarrow> nat \<Rightarrow> nat" where
  "saturating_mul a b = min (a * b) (u64_lim - 1)"

definition wrapping_add :: "nat \<Rightarrow> nat \<Rightarrow> nat" where
  "wrapping_add a b = (a + b) mod u64_lim"

definition wrapping_sub :: "nat \<Rightarrow> nat \<Rightarrow> nat" where
  "wrapping_sub a b = (a + (u64_lim - b mod u64_lim)) mod u64_lim"

definition div_ceil :: "nat \<Rightarrow> nat \<Rightarrow> nat" where
  "div_ceil a b = (if a mod b = 0 then a div b else a div b + 1)"

definition is_power_of_two :: "nat \<Rightarrow> bool" where
  "is_power_of_two n \<longleftrightarrow> n \<noteq> 0 \<and> n AND (n - 1) = 0"

lemma wp_add64 [simp]: "wp (add64 a b) Q = (a + b < u64_lim \<and> Q (a + b))"
  by (auto simp: add64_def)

lemma wp_sub64 [simp]: "wp (sub64 a b) Q = (b \<le> a \<and> Q (a - b))"
  by (auto simp: sub64_def)

lemma wp_mul64 [simp]: "wp (mul64 a b) Q = (a * b < u64_lim \<and> Q (a * b))"
  by (auto simp: mul64_def)

lemma wp_mul32 [simp]: "wp (mul32 a b) Q = (a * b < u32_lim \<and> Q (a * b))"
  by (auto simp: mul32_def)

lemma wp_add16 [simp]: "wp (add16 a b) Q = (a + b < u16_lim \<and> Q (a + b))"
  by (auto simp: add16_def)

lemma wp_add32 [simp]: "wp (add32 a b) Q = (a + b < u32_lim \<and> Q (a + b))"
  by (auto simp: add32_def)

text \<open>Products of narrow integers do not overflow the next wider type.\<close>

lemma mul_bound: "a < m \<Longrightarrow> b < n \<Longrightarrow> a * b < m * (n :: nat)"
  by (metis bot_nat_0.not_eq_extremum less_zeroE mult_strict_mono' le0)

lemma u32_mul: "a < u32_lim \<Longrightarrow> b < u32_lim \<Longrightarrow> a * b < u64_lim"
  using mul_bound [of a u32_lim b u32_lim] by simp

lemma u32_u16_mul: "a < u32_lim \<Longrightarrow> b < u16_lim \<Longrightarrow> a * b < u64_lim"
  using mul_bound [of a u32_lim b u16_lim] by simp

lemma u8_u16_mul: "a < u8_lim \<Longrightarrow> b < u16_lim \<Longrightarrow> a * b < u32_lim"
  using mul_bound [of a u8_lim b u16_lim] by simp

lemma add64_eq_Ok [simp]: "add64 a b = Ok c \<longleftrightarrow> a + b < u64_lim \<and> c = a + b"
  by (auto simp: add64_def)

lemma add32_eq_Ok [simp]: "add32 a b = Ok c \<longleftrightarrow> a + b < u32_lim \<and> c = a + b"
  by (auto simp: add32_def)

lemma sub64_eq_Ok [simp]: "sub64 a b = Ok c \<longleftrightarrow> b \<le> a \<and> c = a - b"
  by (auto simp: sub64_def)

lemma mul64_eq_Ok [simp]: "mul64 a b = Ok c \<longleftrightarrow> a * b < u64_lim \<and> c = a * b"
  by (auto simp: mul64_def)

lemma wlp_arith [simp]:
  "wlp (add64 a b) Q = (a + b < u64_lim \<longrightarrow> Q (a + b))"
  "wlp (sub64 a b) Q = (b \<le> a \<longrightarrow> Q (a - b))"
  "wlp (mul64 a b) Q = (a * b < u64_lim \<longrightarrow> Q (a * b))"
  by (auto simp: wlp_def)

lemma checked_add_Some [simp]: "checked_add a b = Some c \<longleftrightarrow> a + b < u64_lim \<and> c = a + b"
  by (auto simp: checked_add_def)

lemma checked_add_None [simp]: "checked_add a b = None \<longleftrightarrow> u64_lim \<le> a + b"
  by (auto simp: checked_add_def)

lemma checked_sub_Some [simp]: "checked_sub a b = Some c \<longleftrightarrow> b \<le> a \<and> c = a - b"
  by (auto simp: checked_sub_def)

lemma checked_sub_None [simp]: "checked_sub a b = None \<longleftrightarrow> a < b"
  by (auto simp: checked_sub_def)

lemma checked_mul_Some [simp]: "checked_mul a b = Some c \<longleftrightarrow> a * b < u64_lim \<and> c = a * b"
  by (auto simp: checked_mul_def)

lemma checked_mul_None [simp]: "checked_mul a b = None \<longleftrightarrow> u64_lim \<le> a * b"
  by (auto simp: checked_mul_def)

lemma wrapping_add_small [simp]: "a + b < u64_lim \<Longrightarrow> wrapping_add a b = a + b"
  by (simp add: wrapping_add_def)

lemma wrapping_sub_small [simp]: "b \<le> a \<Longrightarrow> a < u64_lim \<Longrightarrow> wrapping_sub a b = a - b"
proof -
  assume a: "b \<le> a" "a < u64_lim"
  then have "a + (u64_lim - b mod u64_lim) = (a - b) + u64_lim" by simp
  then have "wrapping_sub a b = ((a - b) + u64_lim) mod u64_lim"
    unfolding wrapping_sub_def by (rule arg_cong)
  with a show ?thesis by (simp only: mod_add_self2) simp
qed

lemma div_ceil_le: "0 < b \<Longrightarrow> a \<le> n * b \<Longrightarrow> div_ceil a b \<le> n"
proof -
  assume b: "0 < b" and a: "a \<le> n * b"
  have eq: "b * (a div b) + a mod b = a" by simp
  show ?thesis
  proof (cases "a mod b = 0")
    case True
    with a b show ?thesis by (auto simp: div_ceil_def less_mult_imp_div_less dest: div_le_mono [of _ _ b])
  next
    case False
    with eq a have "b * (a div b) < b * n" by (simp only: mult.commute [of n b])
    with b False show ?thesis by (simp add: div_ceil_def)
  qed
qed

lemma div_ceil_ge: "0 < b \<Longrightarrow> a \<le> div_ceil a b * b"
proof -
  assume b: "0 < b"
  have eq: "b * (a div b) + a mod b = a" by simp
  have "a mod b < b" using b by simp
  with eq have "a \<le> b * (a div b) + b" by linarith
  with eq show ?thesis by (auto simp: div_ceil_def algebra_simps)
qed

section \<open>Slices\<close>

text \<open>
  \<open>get_range b i j\<close> is \<open>b.get(i..j)\<close>: the bytes from \<open>i\<close> to \<open>j\<close>, or nothing when the range is
  not inside \<open>b\<close>.
\<close>

definition get_range :: "'a list \<Rightarrow> nat \<Rightarrow> nat \<Rightarrow> 'a list option" where
  "get_range b i j = (if i \<le> j \<and> j \<le> length b then Some (take (j - i) (drop i b)) else None)"

definition nth_opt :: "'a list \<Rightarrow> nat \<Rightarrow> 'a option" where
  "nth_opt b i = (if i < length b then Some (b ! i) else None)"

lemma get_range_Some_length: "get_range b i j = Some c \<Longrightarrow> length c = j - i"
  by (auto simp: get_range_def split: if_splits)

lemma get_range_Some_iff:
  "get_range b i j = Some c \<longleftrightarrow> i \<le> j \<and> j \<le> length b \<and> c = take (j - i) (drop i b)"
  by (auto simp: get_range_def)

lemma get_range_None_iff: "get_range b i j = None \<longleftrightarrow> \<not> (i \<le> j \<and> j \<le> length b)"
  by (auto simp: get_range_def)

lemma nth_opt_Some [simp]: "nth_opt b i = Some x \<longleftrightarrow> i < length b \<and> x = b ! i"
  by (auto simp: nth_opt_def)

lemma nth_opt_None [simp]: "nth_opt b i = None \<longleftrightarrow> length b \<le> i"
  by (auto simp: nth_opt_def)

text \<open>Fixed-size records laid end to end: their total size, and the record at an index.\<close>

lemma length_concat_chunks: "\<forall>x\<in>set xs. length x = k \<Longrightarrow> length (concat xs) = length xs * k"
  by (induction xs) auto

lemma concat_chunk:
  "\<forall>x\<in>set xs. length x = k \<Longrightarrow> i < length xs \<Longrightarrow> take k (drop (i * k) (concat xs)) = xs ! i"
proof (induction xs arbitrary: i)
  case (Cons x xs)
  then show ?case by (cases i) auto
qed simp

section \<open>Integers as bytes\<close>

text \<open>\<open>from_le_bytes\<close> and \<open>to_le_bytes\<close> (\<open>n\<close> bytes), and the big-endian versions.\<close>

fun le_val :: "bytes \<Rightarrow> nat" where
  "le_val [] = 0"
| "le_val (b # bs) = unat b + 256 * le_val bs"

definition be_val :: "bytes \<Rightarrow> nat" where
  "be_val bs = le_val (rev bs)"

fun le_bytes :: "nat \<Rightarrow> nat \<Rightarrow> bytes" where
  "le_bytes 0 v = []"
| "le_bytes (Suc n) v = word_of_nat (v mod 256) # le_bytes n (v div 256)"

definition be_bytes :: "nat \<Rightarrow> nat \<Rightarrow> bytes" where
  "be_bytes n v = rev (le_bytes n v)"

lemma length_le_bytes [simp]: "length (le_bytes n v) = n"
  by (induction n arbitrary: v) auto

lemma le_bytes_zero: "le_bytes n 0 = replicate n 0"
  by (induction n) simp_all

lemma le_val_zeros: "le_val (replicate n 0) = 0"
  by (induction n) simp_all

lemma length_be_bytes [simp]: "length (be_bytes n v) = n"
  by (simp add: be_bytes_def)

lemma unat_byte_bound: "unat (b :: byte) < 256"
  using unsigned_less [of b] by simp

lemma unat_u32_bound: "unat (w :: 32 word) < u32_lim"
  using unsigned_less [of w] by simp

lemma unat_byte_mod [simp]: "unat (word_of_nat (v mod 256) :: byte) = v mod 256"
  by (simp add: unat_of_nat)

lemma le_val_bound: "le_val bs < 256 ^ length bs"
proof (induction bs)
  case Nil
  then show ?case by simp
next
  case (Cons b bs)
  have "unat b < 256" by (rule unat_byte_bound)
  with Cons show ?case by simp
qed

lemma be_val_bound: "be_val bs < 256 ^ length bs"
  unfolding be_val_def using le_val_bound [of "rev bs"] by simp

lemma le_val_le_bytes [simp]: "v < 256 ^ n \<Longrightarrow> le_val (le_bytes n v) = v"
  by (induction n arbitrary: v) (auto simp: less_mult_imp_div_less mult.commute)

lemma be_val_be_bytes [simp]: "v < 256 ^ n \<Longrightarrow> be_val (be_bytes n v) = v"
  by (simp add: be_val_def be_bytes_def)

lemma le_bytes_le_val [simp]: "le_bytes (length bs) (le_val bs) = bs"
proof (induction bs)
  case Nil
  then show ?case by simp
next
  case (Cons b bs)
  have "unat b < 256" by (rule unat_byte_bound)
  then have "(unat b + 256 * le_val bs) mod 256 = unat b"
    and "(unat b + 256 * le_val bs) div 256 = le_val bs" by auto
  with Cons show ?case by simp
qed

text \<open>Assembling bytes with shifts and \<open>|\<close>, as the source's getters do.\<close>

lemma byte_or_shift: "unat (b :: byte) OR push_bit 8 v = unat b + 256 * v"
proof -
  have "unat b AND push_bit 8 v = 0"
  proof (rule bit_eqI)
    fix n
    show "bit (unat b AND push_bit 8 v) n = bit (0 :: nat) n"
      using bit_imp_le_length [of b n]
      by (auto simp: bit_and_iff bit_push_bit_iff bit_unsigned_iff)
  qed
  then have "unat b + push_bit 8 v = unat b OR push_bit 8 v"
    by (rule disjunctive_add_eq_or)
  then show ?thesis by (simp add: push_bit_eq_mult)
qed

end
