(* ===== verification/Bytes.thy ===== *)
theory Bytes
  imports Prelude
begin

text \<open>
  The bounded cursors of \<open>crates/paguro-core/src/bytes.rs\<close>.  A \<open>Reader\<close> is the slice not yet
  consumed; every read returns the value and the reader after it, or nothing (\<open>Short\<close>), in which
  case the caller still holds the old reader: a failed read consumes nothing.  A \<open>Writer\<close> is a
  caller-owned buffer and a position; \<open>None\<close> is \<open>Full\<close>.

  The facts at the end are the two halves of every round trip of the development: what a read
  returns at the front of an encoded field, and what a write leaves in the buffer.
\<close>

section \<open>Reader\<close>

type_synonym reader = bytes

definition reader_new :: "bytes \<Rightarrow> reader" where
  "reader_new b = b"

definition remaining :: "reader \<Rightarrow> nat" where
  "remaining r = length r"

definition reader_is_empty :: "reader \<Rightarrow> bool" where
  "reader_is_empty r \<longleftrightarrow> r = []"

definition rest :: "reader \<Rightarrow> bytes" where
  "rest r = r"

definition rtake :: "nat \<Rightarrow> reader \<Rightarrow> (bytes \<times> reader) option" where
  "rtake n r = (if n \<le> length r then Some (take n r, drop n r) else None)"

definition rarray :: "nat \<Rightarrow> reader \<Rightarrow> (bytes \<times> reader) option" where
  "rarray n r = rtake n r"

definition r_u8 :: "reader \<Rightarrow> (nat \<times> reader) option" where
  "r_u8 r = map_option (\<lambda>(b, r'). (le_val b, r')) (rarray 1 r)"

definition r_u16_le :: "reader \<Rightarrow> (nat \<times> reader) option" where
  "r_u16_le r = map_option (\<lambda>(b, r'). (le_val b, r')) (rarray 2 r)"

definition r_u32_le :: "reader \<Rightarrow> (nat \<times> reader) option" where
  "r_u32_le r = map_option (\<lambda>(b, r'). (le_val b, r')) (rarray 4 r)"

definition r_u64_le :: "reader \<Rightarrow> (nat \<times> reader) option" where
  "r_u64_le r = map_option (\<lambda>(b, r'). (le_val b, r')) (rarray 8 r)"

definition r_u16_be :: "reader \<Rightarrow> (nat \<times> reader) option" where
  "r_u16_be r = map_option (\<lambda>(b, r'). (be_val b, r')) (rarray 2 r)"

definition r_u32_be :: "reader \<Rightarrow> (nat \<times> reader) option" where
  "r_u32_be r = map_option (\<lambda>(b, r'). (be_val b, r')) (rarray 4 r)"

definition r_u64_be :: "reader \<Rightarrow> (nat \<times> reader) option" where
  "r_u64_be r = map_option (\<lambda>(b, r'). (be_val b, r')) (rarray 8 r)"

text \<open>
  \<open>rdo m e k\<close> is \<open>let x = m.map_err(|_| e)?; k\<close>: the pattern in which every parser reads.
\<close>

definition rdo :: "('a \<times> reader) option \<Rightarrow> 'e \<Rightarrow> ('a \<Rightarrow> reader \<Rightarrow> ('e, 'b) res) \<Rightarrow> ('e, 'b) res"
  where "rdo m e k = (case m of None \<Rightarrow> Err e | Some (x, r) \<Rightarrow> k x r)"

lemma rdo_cong [fundef_cong]:
  "m = m' \<Longrightarrow> e = e' \<Longrightarrow> (\<And>x r. m' = Some (x, r) \<Longrightarrow> k x r = k' x r)
    \<Longrightarrow> rdo m e k = rdo m' e' k'"
  by (auto simp: rdo_def split: option.splits)

section \<open>Writer\<close>

record writer =
  wbuf :: bytes
  wpos :: nat

definition writer_new :: "bytes \<Rightarrow> writer" where
  "writer_new b = \<lparr>wbuf = b, wpos = 0\<rparr>"

definition wlen :: "writer \<Rightarrow> nat" where
  "wlen w = wpos w"

definition writer_is_empty :: "writer \<Rightarrow> bool" where
  "writer_is_empty w \<longleftrightarrow> wpos w = 0"

definition written :: "writer \<Rightarrow> bytes" where
  "written w = (case get_range (wbuf w) 0 (wpos w) of Some s \<Rightarrow> s | None \<Rightarrow> [])"

definition overwrite :: "'a list \<Rightarrow> nat \<Rightarrow> 'a list \<Rightarrow> 'a list" where
  \<comment> \<open>\<open>buf[at..at + b.len()].copy_from_slice(b)\<close>, for a range inside \<open>buf\<close>\<close>
  "overwrite buf at b = take at buf @ b @ drop (at + length b) buf"

definition wput :: "writer \<Rightarrow> bytes \<Rightarrow> writer option" where
  "wput w b = (case checked_add (wpos w) (length b) of
      None \<Rightarrow> None
    | Some e \<Rightarrow>
        if e \<le> length (wbuf w)
        then Some (w\<lparr>wbuf := overwrite (wbuf w) (wpos w) b, wpos := e\<rparr>)
        else None)"

definition w_u8 :: "writer \<Rightarrow> nat \<Rightarrow> writer option" where "w_u8 w v = wput w (le_bytes 1 v)"
definition w_u16_le :: "writer \<Rightarrow> nat \<Rightarrow> writer option" where "w_u16_le w v = wput w (le_bytes 2 v)"
definition w_u32_le :: "writer \<Rightarrow> nat \<Rightarrow> writer option" where "w_u32_le w v = wput w (le_bytes 4 v)"
definition w_u64_le :: "writer \<Rightarrow> nat \<Rightarrow> writer option" where "w_u64_le w v = wput w (le_bytes 8 v)"
definition w_u16_be :: "writer \<Rightarrow> nat \<Rightarrow> writer option" where "w_u16_be w v = wput w (be_bytes 2 v)"
definition w_u32_be :: "writer \<Rightarrow> nat \<Rightarrow> writer option" where "w_u32_be w v = wput w (be_bytes 4 v)"
definition w_u64_be :: "writer \<Rightarrow> nat \<Rightarrow> writer option" where "w_u64_be w v = wput w (be_bytes 8 v)"

definition patch :: "writer \<Rightarrow> nat \<Rightarrow> bytes \<Rightarrow> writer option" where
  "patch w at b = (case checked_add at (length b) of
      None \<Rightarrow> None
    | Some e \<Rightarrow>
        if e > wpos w then None
        else if e \<le> length (wbuf w) then Some (w\<lparr>wbuf := overwrite (wbuf w) at b\<rparr>)
        else None)"

text \<open>
  A writer is well formed when its position is inside its buffer, and the buffer is one Rust can
  allocate (at most \<open>isize::MAX\<close> bytes).
\<close>

definition writer_ok :: "writer \<Rightarrow> bool" where
  "writer_ok w \<longleftrightarrow> wpos w \<le> length (wbuf w) \<and> length (wbuf w) < u64_lim div 2"

lemmas w_ints = w_u8_def w_u16_le_def w_u32_le_def w_u64_le_def w_u16_be_def w_u32_be_def w_u64_be_def

section \<open>Reading at the front of a field\<close>

lemma rdo_Some [simp]: "rdo (Some (x, r)) e k = k x r"
  by (simp add: rdo_def)

lemma rdo_None [simp]: "rdo None e k = Err e"
  by (simp add: rdo_def)

lemma wp_rdo [simp]: "wp (rdo m e k) Q = (\<forall>x r. m = Some (x, r) \<longrightarrow> wp (k x r) Q)"
  by (auto simp: rdo_def split: option.splits)

lemma rdo_eq_Ok: "rdo m e k = Ok y \<longleftrightarrow> (\<exists>x r. m = Some (x, r) \<and> k x r = Ok y)"
  by (auto simp: rdo_def split: option.splits)

lemma rtake_append [simp]: "length b = n \<Longrightarrow> rtake n (b @ r) = Some (b, r)"
  by (simp add: rtake_def)

lemma rarray_append [simp]: "length b = n \<Longrightarrow> rarray n (b @ r) = Some (b, r)"
  by (simp add: rarray_def)

lemma r_u8_append [simp]: "v < u8_lim \<Longrightarrow> r_u8 (le_bytes 1 v @ r) = Some (v, r)"
  by (simp add: r_u8_def del: le_bytes.simps One_nat_def)

lemma r_u16_le_append [simp]: "v < u16_lim \<Longrightarrow> r_u16_le (le_bytes 2 v @ r) = Some (v, r)"
  by (simp add: r_u16_le_def)

lemma r_u32_le_append [simp]: "v < u32_lim \<Longrightarrow> r_u32_le (le_bytes 4 v @ r) = Some (v, r)"
  by (simp add: r_u32_le_def)

lemma r_u64_le_append [simp]: "v < u64_lim \<Longrightarrow> r_u64_le (le_bytes 8 v @ r) = Some (v, r)"
  by (simp add: r_u64_le_def)

lemma r_u16_be_append [simp]: "v < u16_lim \<Longrightarrow> r_u16_be (be_bytes 2 v @ r) = Some (v, r)"
  by (simp add: r_u16_be_def)

lemma rtake_SomeD: "rtake n r = Some (b, r') \<Longrightarrow> r = b @ r' \<and> length b = n"
  by (auto simp: rtake_def split: if_splits)

lemma rarray_SomeD: "rarray n r = Some (b, r') \<Longrightarrow> r = b @ r' \<and> length b = n"
  by (simp add: rarray_def rtake_SomeD)

text \<open>What a successful integer read says: the value fits its width, and its bytes were there.\<close>

lemma le_val_read:
  assumes "map_option (\<lambda>(b, r'). (le_val b, r')) (rarray n r) = Some (v, r')"
  shows "v < 256 ^ n \<and> r = le_bytes n v @ r'"
proof -
  from assms obtain b where b: "rarray n r = Some (b, r')" and v: "v = le_val b"
    by auto
  from b have r: "r = b @ r'" and n: "length b = n" by (auto dest: rarray_SomeD)
  from n have "le_bytes n (le_val b) = b" using le_bytes_le_val [of b] by simp
  with r n v le_val_bound [of b] show ?thesis by simp
qed

lemma r_u8_SomeD: "r_u8 r = Some (v, r') \<Longrightarrow> v < u8_lim \<and> r = le_bytes 1 v @ r'"
  using le_val_read [of 1 r v r'] by (simp add: r_u8_def)

lemma r_u16_le_SomeD: "r_u16_le r = Some (v, r') \<Longrightarrow> v < u16_lim \<and> r = le_bytes 2 v @ r'"
  using le_val_read [of 2 r v r'] by (simp add: r_u16_le_def)

lemma r_u32_le_SomeD: "r_u32_le r = Some (v, r') \<Longrightarrow> v < u32_lim \<and> r = le_bytes 4 v @ r'"
  using le_val_read [of 4 r v r'] by (simp add: r_u32_le_def)

lemma r_u64_le_SomeD: "r_u64_le r = Some (v, r') \<Longrightarrow> v < u64_lim \<and> r = le_bytes 8 v @ r'"
  using le_val_read [of 8 r v r'] by (simp add: r_u64_le_def)

lemma r_u16_be_SomeD: "r_u16_be r = Some (v, r') \<Longrightarrow> v < u16_lim \<and> length r = 2 + length r'"
proof -
  assume "r_u16_be r = Some (v, r')"
  then obtain b where b: "rarray 2 r = Some (b, r')" and v: "v = be_val b"
    by (auto simp: r_u16_be_def)
  from b have "r = b @ r'" "length b = 2" by (auto dest: rarray_SomeD)
  with v be_val_bound [of b] show ?thesis by simp
qed

lemma be_bytes_be_val: "length b = n \<Longrightarrow> be_bytes n (be_val b) = b"
  using le_bytes_le_val [of "rev b"] by (simp add: be_bytes_def be_val_def)

lemma r_u16_be_front: "r_u16_be r = Some (v, r') \<Longrightarrow> v < u16_lim \<and> r = be_bytes 2 v @ r'"
proof -
  assume "r_u16_be r = Some (v, r')"
  then obtain b where "rarray 2 r = Some (b, r')" "v = be_val b" by (auto simp: r_u16_be_def)
  then show ?thesis using be_val_bound [of b] by (auto simp: be_bytes_be_val dest: rarray_SomeD)
qed

section \<open>Writing\<close>

lemma length_overwrite [simp]:
  "at + length b \<le> length buf \<Longrightarrow> length (overwrite buf at b) = length buf"
  by (simp add: overwrite_def)

lemma written_eq: "writer_ok w \<Longrightarrow> written w = take (wpos w) (wbuf w)"
  by (simp add: written_def get_range_def writer_ok_def)

lemma length_written: "writer_ok w \<Longrightarrow> length (written w) = wlen w"
  by (simp add: written_eq wlen_def writer_ok_def)

lemma writer_new_ok [simp]: "length b < u64_lim div 2 \<Longrightarrow> writer_ok (writer_new b)"
  by (simp add: writer_new_def writer_ok_def)

lemma written_new [simp]: "written (writer_new b) = []"
  by (simp add: written_def writer_new_def get_range_def)

lemma wput_Some:
  assumes "writer_ok w" and "wput w b = Some w'"
  shows "writer_ok w' \<and> written w' = written w @ b \<and> length (wbuf w') = length (wbuf w)
    \<and> wlen w' = wlen w + length b"
proof -
  from assms(2) have le: "wpos w + length b \<le> length (wbuf w)"
    and w': "w' = w\<lparr>wbuf := overwrite (wbuf w) (wpos w) b, wpos := wpos w + length b\<rparr>"
    by (auto simp: wput_def split: option.splits if_splits)
  from le have ok': "writer_ok w'" using assms(1) by (simp add: w' writer_ok_def)
  from assms(1) have pos: "wpos w \<le> length (wbuf w)" by (simp add: writer_ok_def)
  have "written w' = take (wpos w') (wbuf w')" by (rule written_eq [OF ok'])
  also have "\<dots> = written w @ b"
    using le pos by (simp add: written_eq [OF assms(1)] w' overwrite_def)
  finally show ?thesis using ok' le by (simp add: w' wlen_def)
qed

lemma wput_None:
  assumes "writer_ok w"
  shows "wput w b = None \<longleftrightarrow> length (wbuf w) < wlen w + length b"
  using assms by (auto simp: wput_def writer_ok_def wlen_def split: option.splits if_splits)

lemma patch_Some:
  assumes "writer_ok w" and "patch w at b = Some w'"
  shows "writer_ok w' \<and> written w' = overwrite (written w) at b
    \<and> length (wbuf w') = length (wbuf w) \<and> wlen w' = wlen w \<and> at + length b \<le> wlen w"
proof -
  from assms(2) have le: "at + length b \<le> wpos w"
    and w': "w' = w\<lparr>wbuf := overwrite (wbuf w) at b\<rparr>"
    by (auto simp: patch_def split: option.splits if_splits)
  from assms(1) have pos: "wpos w \<le> length (wbuf w)" by (simp add: writer_ok_def)
  have ok': "writer_ok w'" using assms(1) le pos by (simp add: w' writer_ok_def)
  from le have at: "at \<le> wpos w" "length b \<le> wpos w - at" by linarith+
  then have "take (wpos w) (overwrite (wbuf w) at b) = overwrite (take (wpos w) (wbuf w)) at b"
    using le pos by (simp add: overwrite_def min_absorb1 min_absorb2 drop_take)
  moreover have "written w' = take (wpos w') (wbuf w')" by (rule written_eq [OF ok'])
  ultimately show ?thesis
    using ok' le pos by (simp add: written_eq [OF assms(1)] w' wlen_def)
qed

lemma patch_None:
  assumes "writer_ok w"
  shows "patch w at b = None \<longleftrightarrow> wlen w < at + length b"
  using assms by (auto simp: patch_def writer_ok_def wlen_def split: option.splits if_splits)

subsection \<open>A writer as the bytes written and the room left\<close>

text \<open>
  \<open>wr pre room\<close> is a writer that has written \<open>pre\<close> and has the bytes \<open>room\<close> left in its buffer.
  On writers in this form every put that fits is one rewrite step, so an encoder made of many puts
  is evaluated by the simplifier.
\<close>

definition wr :: "bytes \<Rightarrow> bytes \<Rightarrow> writer" where
  "wr pre room = \<lparr>wbuf = pre @ room, wpos = length pre\<rparr>"

lemma writer_new_wr: "writer_new b = wr [] b"
  by (simp add: writer_new_def wr_def)

lemma written_wr [simp]: "written (wr pre room) = pre"
  by (simp add: written_def wr_def get_range_def)

lemma wlen_wr [simp]: "wlen (wr pre room) = length pre"
  by (simp add: wlen_def wr_def)

lemma wbuf_wr [simp]: "wbuf (wr pre room) = pre @ room"
  by (simp add: wr_def)

lemma wput_wr [simp]:
  "length b \<le> length room \<Longrightarrow> length pre + length room < u64_lim
    \<Longrightarrow> wput (wr pre room) b = Some (wr (pre @ b) (drop (length b) room))"
  by (simp add: wput_def wr_def checked_add_def overwrite_def)

lemma wput_wr_None:
  "length room < length b \<Longrightarrow> wput (wr pre room) b = None"
  by (simp add: wput_def wr_def checked_add_def)

lemma patch_wr [simp]:
  "at + length b \<le> length pre \<Longrightarrow> length pre < u64_lim
    \<Longrightarrow> patch (wr pre room) at b = Some (wr (overwrite pre at b) room)"
  by (simp add: patch_def wr_def checked_add_def overwrite_def)

lemma opt_fold_wput:
  assumes "length (concat (map f xs)) \<le> length room" "length pre + length room < u64_lim"
  shows "opt_fold (\<lambda>w x. wput w (f x)) (wr pre room) xs
    = Some (wr (pre @ concat (map f xs)) (drop (length (concat (map f xs))) room))"
  using assms
proof (induction xs arbitrary: pre room)
  case (Cons x xs)
  have "length (concat (map f xs)) \<le> length (drop (length (f x)) room)"
    and "length (pre @ f x) + length (drop (length (f x)) room) < u64_lim"
    using Cons.prems by simp_all
  from Cons.IH [OF this] show ?case using Cons.prems by (simp add: add.commute)
qed simp

text \<open>
  \<open>emits f b\<close>: the encoder \<open>f\<close> appends exactly \<open>b\<close> to any writer with the room for it.
\<close>

definition emits :: "(writer \<Rightarrow> writer option) \<Rightarrow> bytes \<Rightarrow> bool" where
  "emits f b \<longleftrightarrow> (\<forall>pre room. length b \<le> length room \<longrightarrow> length pre + length room < u64_lim
     \<longrightarrow> f (wr pre room) = Some (wr (pre @ b) (drop (length b) room)))"

lemma emitsD:
  "emits f b \<Longrightarrow> length b \<le> length room \<Longrightarrow> length pre + length room < u64_lim
    \<Longrightarrow> f (wr pre room) = Some (wr (pre @ b) (drop (length b) room))"
  by (simp add: emits_def)

lemma emits_wput [simp, intro]: "emits (\<lambda>w. wput w b) b"
  by (simp add: emits_def)

lemma emits_ints [simp, intro]:
  "emits (\<lambda>w. w_u8 w v) (le_bytes 1 v)" "emits (\<lambda>w. w_u16_le w v) (le_bytes 2 v)"
  "emits (\<lambda>w. w_u32_le w v) (le_bytes 4 v)" "emits (\<lambda>w. w_u64_le w v) (le_bytes 8 v)"
  by (simp_all add: w_ints emits_wput del: le_bytes.simps One_nat_def)

lemma emits_bind [intro]: "emits f a \<Longrightarrow> emits g b \<Longrightarrow> emits (\<lambda>w. Option.bind (f w) g) (a @ b)"
  by (auto simp: emits_def add.commute)

lemma emits_fold:
  "list_all2 (\<lambda>x b. emits (f x) b) xs bs \<Longrightarrow> emits (\<lambda>w. opt_fold (\<lambda>w x. f x w) w xs) (concat bs)"
proof (induction rule: list_all2_induct)
  case Nil
  then show ?case by (simp add: emits_def)
next
  case (Cons x xs b bs)
  then have "emits (\<lambda>w. Option.bind (f x w) (\<lambda>w. opt_fold (\<lambda>w x. f x w) w xs)) (b @ concat bs)"
    by (intro emits_bind)
  moreover have "(\<lambda>w. Option.bind (f x w) (\<lambda>w. opt_fold (\<lambda>w x. f x w) w xs))
      = (\<lambda>w. opt_fold (\<lambda>w x. f x w) w (x # xs))"
    by (auto simp: fun_eq_iff split: option.split bind_split)
  ultimately show ?case by simp
qed

section \<open>Encoders and decoders\<close>

text \<open>
  What the formats promise.  A \<open>round_trip\<close> decodes every valid value back from its encoding; a
  \<open>codec\<close> moreover accepts nothing else, so an accepted input is the one encoding of its value.
\<close>

locale round_trip =
  fixes enc :: "'a \<Rightarrow> bytes" and dec :: "bytes \<Rightarrow> ('e, 'a) res" and valid :: "'a \<Rightarrow> bool"
  assumes dec_enc: "valid x \<Longrightarrow> dec (enc x) = Ok x"
begin

lemma enc_inj: "valid x \<Longrightarrow> valid y \<Longrightarrow> enc x = enc y \<longleftrightarrow> x = y"
  using dec_enc by (metis res.inject(1))

end

locale codec = round_trip +
  assumes dec_only: "dec b = Ok x \<Longrightarrow> valid x \<and> b = enc x"
begin

lemma dec_iff: "dec b = Ok x \<longleftrightarrow> valid x \<and> b = enc x"
  using dec_enc dec_only by auto

lemma one_encoding: "dec b = Ok x \<Longrightarrow> dec b' = Ok x \<Longrightarrow> b = b'"
  by (auto dest: dec_only)

end

end
