(* ===== verification/Layout.thy ===== *)
theory Layout
  imports Prelude
begin

text \<open>
  Layout-only structs, \<open>crates/paguro-core/src/layout.rs\<close>.  The program declares every on-disk
  structure as a packed struct and derives the offsets and widths its parsers use from it with
  \<open>offset_of!\<close>, \<open>size_of\<close> and \<open>field_size\<close>.  A packed struct is here the list of its fields with
  their sizes, and the three operators are computed from that list, so that the offsets of the
  model come from the same declarations as those of the code.
\<close>

type_synonym layout = "(string \<times> nat) list"

fun offset_of :: "layout \<Rightarrow> string \<Rightarrow> nat" where
  "offset_of [] f = 0"
| "offset_of ((n, w) # l) f = (if n = f then 0 else w + offset_of l f)"

fun field_size :: "layout \<Rightarrow> string \<Rightarrow> nat" where
  "field_size [] f = 0"
| "field_size ((n, w) # l) f = (if n = f then w else field_size l f)"

definition size_of :: "layout \<Rightarrow> nat" where
  "size_of l = sum_list (map snd l)"

fun has_field :: "layout \<Rightarrow> string \<Rightarrow> bool" where
  "has_field [] f \<longleftrightarrow> False"
| "has_field ((n, w) # l) f \<longleftrightarrow> n = f \<or> has_field l f"

lemma size_of_simps [simp]: "size_of [] = 0" "size_of ((n, w) # l) = w + size_of l"
  by (simp_all add: size_of_def)

lemma field_in_struct: "has_field l f \<Longrightarrow> offset_of l f + field_size l f \<le> size_of l"
  by (induction l) auto

text \<open>The offsets of all fields, in order.\<close>

fun offsets :: "nat \<Rightarrow> layout \<Rightarrow> nat list" where
  "offsets n [] = []"
| "offsets n ((f, w) # l) = n # offsets (n + w) l"

lemma offset_of_offsets:
  "distinct (map fst l) \<Longrightarrow> map (\<lambda>(f, w). n + offset_of l f) l = offsets n l"
proof (induction l arbitrary: n)
  case (Cons x l)
  obtain f w where x: "x = (f, w)" by (cases x)
  have "map (\<lambda>(g, v). n + offset_of (x # l) g) l = map (\<lambda>(g, v). (n + w) + offset_of l g) l"
    using Cons.prems by (force simp: x)
  with Cons show ?case by (simp add: x)
qed simp

text \<open>Distinct fields do not overlap.\<close>

lemma fields_disjoint:
  assumes "has_field l f" "has_field l g" "f \<noteq> g"
  shows "offset_of l f + field_size l f \<le> offset_of l g
    \<or> offset_of l g + field_size l g \<le> offset_of l f"
  using assms
proof (induction l)
  case Nil
  then show ?case by simp
next
  case (Cons x l)
  then show ?case by (cases x) auto
qed

end
