(* ===== verification/Guid.thy ===== *)
theory Guid
  imports Prelude
begin

text \<open>
  GUIDs, \<open>crates/paguro-core/src/guid.rs\<close>: the 16 stored bytes (first three fields
  little-endian) and the 36-character text.  A \<open>Guid\<close> is its byte array, a list of 16 bytes
  (\<open>guid_ok\<close>); text is a list of bytes, as \<open>str::as_bytes\<close> gives it.

  The main lemmas: the text form and the stored form determine each other, and \<open>parse\<close> accepts
  exactly the canonical text in either case of its hexadecimal letters.
\<close>

section \<open>Constants and types\<close>

definition GUID_LEN :: nat where "GUID_LEN = 16"
definition TEXT_LEN :: nat where "TEXT_LEN = 36"
definition TEXT_HYPHENS :: "nat list" where "TEXT_HYPHENS = [8, 13, 18, 23]"
definition HYPHEN_BEFORE_BYTE :: "nat list" where "HYPHEN_BEFORE_BYTE = [4, 6, 8, 10]"
definition NIBBLE_BITS :: nat where "NIBBLE_BITS = 4"
definition NIBBLE_MASK :: byte where "NIBBLE_MASK = 0xf"
definition HEX_ALPHA_BASE :: byte where "HEX_ALPHA_BASE = 10"
definition ORDER :: "nat list" where
  "ORDER = [3, 2, 1, 0, 5, 4, 7, 6, 8, 9, 10, 11, 12, 13, 14, 15]"

type_synonym guid = bytes

definition guid_ok :: "guid \<Rightarrow> bool" where "guid_ok g \<longleftrightarrow> length g = GUID_LEN"

definition GUID_ZERO :: guid where "GUID_ZERO = replicate GUID_LEN 0"

datatype guid_error = BadLength | BadSeparator | BadDigit

definition PAGURO_VENDOR :: guid where
  "PAGURO_VENDOR = [0x0d, 0x88, 0x48, 0xc6, 0xbe, 0x36, 0xaf, 0x4e,
                    0x8a, 0x1b, 0x6f, 0x3a, 0x9c, 0x29, 0x26, 0xc9]"
definition HANDOFF_TABLE :: guid where
  "HANDOFF_TABLE = [0xf6, 0x97, 0x0e, 0x29, 0x35, 0x38, 0xa1, 0x4e,
                    0xa6, 0xf5, 0x84, 0x7c, 0xcb, 0xc3, 0x3a, 0x0a]"
definition PCR12_EVENT_TAG :: guid where
  "PCR12_EVENT_TAG = [0x4e, 0x42, 0xfc, 0x23, 0xab, 0x17, 0x60, 0x4b,
                      0xbf, 0x91, 0x2b, 0xd3, 0x92, 0x85, 0x20, 0x91]"
definition EFI_GLOBAL_VARIABLE :: guid where
  "EFI_GLOBAL_VARIABLE = [0x61, 0xdf, 0xe4, 0x8b, 0xca, 0x93, 0xd2, 0x11,
                          0xaa, 0x0d, 0x00, 0xe0, 0x98, 0x03, 0x2b, 0x8c]"
definition GPT_BASIC_DATA :: guid where
  "GPT_BASIC_DATA = [0xa2, 0xa0, 0xd0, 0xeb, 0xe5, 0xb9, 0x33, 0x44,
                     0x87, 0xc0, 0x68, 0xb6, 0xb7, 0x26, 0x99, 0xc7]"
definition GPT_ESP :: guid where
  "GPT_ESP = [0x28, 0x73, 0x2a, 0xc1, 0x1f, 0xf8, 0xd2, 0x11,
              0xba, 0x4b, 0x00, 0xa0, 0xc9, 0x3e, 0xc9, 0x3b]"

section \<open>Text\<close>

definition hex_val :: "byte \<Rightarrow> byte option" where
  "hex_val c =
    (if 0x30 \<le> c \<and> c \<le> 0x39 then Some (c - 0x30)
     else if 0x61 \<le> c \<and> c \<le> 0x66 then Some (c - 0x61 + HEX_ALPHA_BASE)
     else if 0x41 \<le> c \<and> c \<le> 0x46 then Some (c - 0x41 + HEX_ALPHA_BASE)
     else None)"

text \<open>\<open>from_text_order\<close> stores the text's byte \<open>i\<close> at \<open>ORDER[i]\<close>.\<close>

definition from_text_order :: "bytes \<Rightarrow> guid" where
  "from_text_order t =
    fold (\<lambda>(b, pos) out. if pos < length out then out[pos := b] else out)
      (zip t ORDER) (replicate GUID_LEN 0)"

definition text_order :: "guid \<Rightarrow> bytes" where
  "text_order g = map (\<lambda>pos. case nth_opt g pos of Some b \<Rightarrow> b | None \<Rightarrow> 0) ORDER"

text \<open>The \<open>while let\<close> loop of \<open>parse\<close>, over the position \<open>i\<close> and the byte count \<open>n\<close>.\<close>

function parse_loop :: "bytes \<Rightarrow> nat \<Rightarrow> nat \<Rightarrow> bytes \<Rightarrow> (guid_error, bytes) res" where
  "parse_loop b i n t =
    (case nth_opt b i of
      None \<Rightarrow> Ok t
    | Some c \<Rightarrow>
        if i \<in> set TEXT_HYPHENS then
          (if c \<noteq> 0x2d then Err BadSeparator else parse_loop b (i + 1) n t)
        else
          rbind (ok_or (hex_val c) BadDigit) (\<lambda>hi.
          rbind (ok_or (nth_opt b (i + 1)) BadLength) (\<lambda>c'.
          rbind (ok_or (hex_val c')
                   (if nth_opt b (i + 1) = Some 0x2d then BadSeparator else BadDigit)) (\<lambda>lo.
          if n < length t
          then parse_loop b (i + 2) (n + 1) (t[n := push_bit NIBBLE_BITS hi OR lo])
          else Err BadLength))))"
  by pat_completeness auto
termination
  by (relation "measure (\<lambda>(b, i, n, t). length b - i)") auto

definition guid_parse :: "bytes \<Rightarrow> (guid_error, guid) res" where
  "guid_parse s =
    (if length s \<noteq> TEXT_LEN then Err BadLength
     else rbind (parse_loop s 0 0 (replicate GUID_LEN 0)) (\<lambda>t. Ok (from_text_order t)))"

definition HEX :: bytes where
  "HEX = [0x30, 0x31, 0x32, 0x33, 0x34, 0x35, 0x36, 0x37, 0x38, 0x39,
          0x61, 0x62, 0x63, 0x64, 0x65, 0x66]"

definition hex_digit :: "byte \<Rightarrow> byte" where
  "hex_digit v = (case nth_opt HEX (unat v) of Some c \<Rightarrow> c | None \<Rightarrow> 0x30)"

fun to_text_loop :: "bytes \<Rightarrow> nat \<Rightarrow> nat \<Rightarrow> bytes \<Rightarrow> bytes" where
  "to_text_loop [] i off out = out"
| "to_text_loop (b # bs) i off out =
    (let o1 = (if i \<in> set HYPHEN_BEFORE_BYTE then off + 1 else off);
         hi = hex_digit (drop_bit NIBBLE_BITS b);
         lo = hex_digit (b AND NIBBLE_MASK);
         out' = (if o1 + 2 \<le> length out then out[o1 := hi, o1 + 1 := lo] else out)
     in to_text_loop bs (i + 1) (o1 + 2) out')"

definition to_text :: "guid \<Rightarrow> bytes" where
  "to_text g = to_text_loop (text_order g) 0 0 (replicate TEXT_LEN 0x2d)"

text \<open>ASCII lower case, to state what \<open>parse\<close> accepts.\<close>

definition ascii_lower :: "byte \<Rightarrow> byte" where
  "ascii_lower c = (if 0x41 \<le> c \<and> c \<le> 0x5a then c + 0x20 else c)"

section \<open>Digits\<close>

lemma byte_cases_below:
  assumes "list_all P (map word_of_nat [0..<n])" and "unat (b :: byte) < n"
  shows "P b"
proof -
  have "unat b \<in> set [0..<n]" using assms(2) by simp
  moreover have "word_of_nat (unat b) = b" by simp
  ultimately show ?thesis using assms(1) by (metis imageI list.set_map list_all_iff)
qed

lemma hex_digit_table:
  "list_all (\<lambda>v. hex_val (hex_digit v) = Some v
       \<and> (let c = hex_digit v - 0x20 in 0x41 \<le> c \<longrightarrow> hex_val c = Some v)
       \<and> (v < 10 \<longrightarrow> ascii_lower (v + 0x30) = hex_digit v)
       \<and> (10 \<le> v \<longrightarrow> ascii_lower (v + 0x57) = hex_digit v \<and> ascii_lower (v + 0x37) = hex_digit v))
     (map word_of_nat [0..<16])"
  by code_simp

lemma hex_digit_facts:
  assumes "v < 16"
  shows "hex_val (hex_digit v) = Some v"
    and "0x41 \<le> hex_digit v - 0x20 \<Longrightarrow> hex_val (hex_digit v - 0x20) = Some v"
    and "v < 10 \<Longrightarrow> ascii_lower (v + 0x30) = hex_digit v"
    and "10 \<le> v \<Longrightarrow> ascii_lower (v + 0x57) = hex_digit v"
    and "10 \<le> v \<Longrightarrow> ascii_lower (v + 0x37) = hex_digit v"
  using byte_cases_below [OF hex_digit_table, of v] assms
  by (simp_all add: word_less_nat_alt Let_def)

text \<open>A byte in an interval, as its offset from the lower end.\<close>

lemma byte_offset:
  fixes c k l :: byte
  assumes "k \<le> c" and "c \<le> l"
  shows "\<exists>v. c = v + k \<and> v \<le> l - k"
  using assms by (intro exI [of _ "c - k"]) (auto simp: word_le_nat_alt unat_sub)

lemma hex_val_SomeD:
  assumes "hex_val c = Some v"
  shows "v < 16 \<and> ascii_lower c = hex_digit v"
proof -
  consider (digit) w where "c = w + 0x30" "w \<le> 9" "v = w"
    | (lower) w where "c = w + 0x61" "w \<le> 5" "v = w + 10"
    | (upper) w where "c = w + 0x41" "w \<le> 5" "v = w + 10"
    using assms byte_offset [of "0x30" c "0x39"] byte_offset [of "0x61" c "0x66"]
      byte_offset [of "0x41" c "0x46"]
    by (auto simp: hex_val_def HEX_ALPHA_BASE_def split: if_splits)
  then show ?thesis
  proof cases
    case digit
    then have "v < 10" "v < 16" by (auto simp: word_less_nat_alt word_le_nat_alt)
    with digit hex_digit_facts(3) [of v] show ?thesis by simp
  next
    case lower
    then have v: "10 \<le> v" "v < 16" by (auto simp: word_less_nat_alt word_le_nat_alt unat_word_ariths)
    have "c = v + 0x57" using lower by simp
    with v hex_digit_facts(4) [of v] show ?thesis by simp
  next
    case upper
    then have v: "10 \<le> v" "v < 16" by (auto simp: word_less_nat_alt word_le_nat_alt unat_word_ariths)
    have "c = v + 0x37" using upper by simp
    with v hex_digit_facts(5) [of v] show ?thesis by simp
  qed
qed

lemma hex_val_iff: "hex_val c = Some v \<longleftrightarrow> v < 16 \<and> ascii_lower c = hex_digit v"
proof
  assume v: "v < 16 \<and> ascii_lower c = hex_digit v"
  show "hex_val c = Some v"
  proof (cases "0x41 \<le> c \<and> c \<le> 0x5a")
    case True
    with v have "c + 0x20 = hex_digit v" by (simp add: ascii_lower_def)
    then have "c = hex_digit v - 0x20" by (metis add_diff_cancel_right')
    with True v hex_digit_facts(2) [of v] show ?thesis by simp
  next
    case False
    with v have "c = hex_digit v" by (auto simp: ascii_lower_def split: if_splits)
    with v show ?thesis by (simp add: hex_digit_facts(1))
  qed
qed (rule hex_val_SomeD)

lemma ascii_lower_hyphen [simp]: "ascii_lower c = 0x2d \<longleftrightarrow> c = 0x2d"
proof -
  have "c = 0x2d - 0x20" if "c + 0x20 = (0x2d :: byte)"
    using that by (metis add_diff_cancel_right')
  then show ?thesis by (auto simp: ascii_lower_def)
qed

lemma nibbles_join: "push_bit 4 (drop_bit 4 b) OR (b AND 0xf) = (b :: byte)"
proof -
  have m: "(0xf :: byte) = mask 4" by (simp add: mask_eq_exp_minus_1)
  show ?thesis unfolding m by (auto simp: bit_simps intro!: bit_word_eqI)
qed

lemma nibble_hi: "drop_bit 4 (b :: byte) < 16"
proof -
  have "unat b div 16 < 16" using unat_byte_bound [of b] by auto
  then show ?thesis by (simp add: word_less_nat_alt drop_bit_eq_div unat_div)
qed

lemma nibble_lo: "(b :: byte) AND 0xf < 16"
proof -
  have "b AND 0xf \<le> 0xf" by (rule word_and_le1)
  then show ?thesis by (simp add: word_le_nat_alt word_less_nat_alt)
qed

lemma nibbles_split:
  assumes "hi < 16" "lo < (16 :: byte)"
  shows "drop_bit 4 (push_bit 4 hi OR lo) = hi" "(push_bit 4 hi OR lo) AND 0xf = lo"
proof -
  have m: "v = take_bit 4 v" if "v < 16" for v :: byte
    using that by (simp add: take_bit_eq_mod word_unat_eq_iff unat_mod word_less_nat_alt)
  have mask: "(0xf :: byte) = mask 4" by (simp add: mask_eq_exp_minus_1)
  show "(push_bit 4 hi OR lo) AND 0xf = lo"
    by (subst (2) m [OF assms(2)])
      (auto simp: mask bit_simps intro!: bit_word_eqI)
  show "drop_bit 4 (push_bit 4 hi OR lo) = hi"
    by (subst (1 2) m [OF assms(1)], subst m [OF assms(2)])
      (auto simp: bit_simps intro!: bit_word_eqI)
qed

section \<open>Round trips\<close>

lemma list_16:
  assumes "length g = 16"
  obtains a0 a1 a2 a3 a4 a5 a6 a7 a8 a9 a10 a11 a12 a13 a14 a15
  where "g = [a0, a1, a2, a3, a4, a5, a6, a7, a8, a9, a10, a11, a12, a13, a14, a15]"
proof -
  have "map ((!) g) [0..<16] = g" using assms map_nth [of g] by simp
  then show thesis using that by (simp add: upt_rec) metis
qed

lemma from_text_order_eq:
  "from_text_order [t0, t1, t2, t3, t4, t5, t6, t7, t8, t9, t10, t11, t12, t13, t14, t15]
     = [t3, t2, t1, t0, t5, t4, t7, t6, t8, t9, t10, t11, t12, t13, t14, t15]"
  by (simp add: from_text_order_def ORDER_def GUID_LEN_def numeral_eq_Suc)

lemma text_order_eq:
  "text_order [g0, g1, g2, g3, g4, g5, g6, g7, g8, g9, g10, g11, g12, g13, g14, g15]
     = [g3, g2, g1, g0, g5, g4, g7, g6, g8, g9, g10, g11, g12, g13, g14, g15]"
  by (simp add: text_order_def ORDER_def nth_opt_def)

lemma from_text_order_text_order: "guid_ok g \<Longrightarrow> from_text_order (text_order g) = g"
  unfolding guid_ok_def GUID_LEN_def
  by (elim list_16) (simp add: text_order_eq from_text_order_eq)

lemma text_order_from_text_order: "length t = GUID_LEN \<Longrightarrow> text_order (from_text_order t) = t"
  unfolding GUID_LEN_def
  by (elim list_16) (simp add: text_order_eq from_text_order_eq)

text \<open>What \<open>to_text\<close> writes: two digits per byte in reading order, with the hyphens.\<close>

fun hyphenated :: "nat \<Rightarrow> bytes \<Rightarrow> bytes" where
  "hyphenated i [] = []"
| "hyphenated i (b # bs) = (if i \<in> set HYPHEN_BEFORE_BYTE then [0x2d] else [])
    @ hex_digit (drop_bit NIBBLE_BITS b) # hex_digit (b AND NIBBLE_MASK) # hyphenated (i + 1) bs"

lemma to_text_loop_eq:
  "length (hyphenated i bs) = k \<Longrightarrow> off = length pre
    \<Longrightarrow> to_text_loop bs i off (pre @ replicate k 0x2d) = pre @ hyphenated i bs"
proof (induction bs arbitrary: i off pre k)
  case Nil
  then show ?case by simp
next
  case (Cons b bs)
  define hy :: bytes where "hy = (if i \<in> set HYPHEN_BEFORE_BYTE then [0x2d] else [])"
  define hi where "hi = hex_digit (drop_bit NIBBLE_BITS b)"
  define lo where "lo = hex_digit (b AND NIBBLE_MASK)"
  define k' where "k' = length (hyphenated (i + 1) bs)"
  have k: "k = length hy + 2 + k'" using Cons.prems by (simp add: hy_def k'_def)
  have rep: "replicate k (0x2d :: byte) = hy @ 0x2d # 0x2d # replicate k' 0x2d"
    by (simp add: k hy_def)
  have "to_text_loop (b # bs) i off (pre @ replicate k 0x2d)
      = to_text_loop bs (i + 1) (length (pre @ hy @ [hi, lo])) ((pre @ hy @ [hi, lo]) @ replicate k' 0x2d)"
    using Cons.prems(2)
    by (simp add: Let_def rep hy_def hi_def lo_def list_update_append)
  also have "\<dots> = (pre @ hy @ [hi, lo]) @ hyphenated (i + 1) bs"
    by (rule Cons.IH) (simp_all add: k'_def)
  finally show ?case by (simp add: hy_def hi_def lo_def)
qed

lemma to_text_eq:
  assumes "guid_ok g"
  shows "to_text g = hyphenated 0 (text_order g)"
proof -
  from assms have "length (text_order g) = 16" by (simp add: guid_ok_def text_order_def ORDER_def)
  then have "length (hyphenated 0 (text_order g)) = TEXT_LEN"
    by (elim list_16) (simp add: HYPHEN_BEFORE_BYTE_def TEXT_LEN_def)
  from to_text_loop_eq [OF this, of 0 "[]"] show ?thesis by (simp add: to_text_def)
qed

lemma length_to_text: "guid_ok g \<Longrightarrow> length (to_text g) = TEXT_LEN"
  unfolding guid_ok_def GUID_LEN_def
  by (simp add: to_text_eq guid_ok_def GUID_LEN_def, elim list_16)
    (simp add: text_order_eq HYPHEN_BEFORE_BYTE_def TEXT_LEN_def)

text \<open>One iteration of the parser's loop.\<close>

declare parse_loop.simps [simp del]

lemma parse_hyphen:
  "i \<in> set TEXT_HYPHENS \<Longrightarrow> i < length s \<Longrightarrow>
    parse_loop s i n t = Ok u \<longleftrightarrow> ascii_lower (s ! i) = 0x2d \<and> parse_loop s (i + 1) n t = Ok u"
  by (subst parse_loop.simps) (simp add: nth_opt_def)

lemma parse_pair:
  assumes "i \<notin> set TEXT_HYPHENS" "i + 1 < length s" "n < length t"
  shows "parse_loop s i n t = Ok u \<longleftrightarrow>
    (\<exists>b. ascii_lower (s ! i) = hex_digit (drop_bit NIBBLE_BITS b)
       \<and> ascii_lower (s ! (i + 1)) = hex_digit (b AND NIBBLE_MASK)
       \<and> parse_loop s (i + 2) (n + 1) (t[n := b]) = Ok u)" (is "?l \<longleftrightarrow> ?r")
proof
  assume ?l
  then obtain hi lo where v: "hex_val (s ! i) = Some hi" "hex_val (s ! (i + 1)) = Some lo"
    and k: "parse_loop s (i + 2) (n + 1) (t[n := push_bit NIBBLE_BITS hi OR lo]) = Ok u"
    using assms by (subst (asm) parse_loop.simps) (auto simp: nth_opt_def rbind_eq_Ok)
  define b where "b = push_bit NIBBLE_BITS hi OR lo"
  from v have "drop_bit NIBBLE_BITS b = hi" "b AND NIBBLE_MASK = lo"
    unfolding b_def NIBBLE_BITS_def NIBBLE_MASK_def
    by (simp_all only: hex_val_iff nibbles_split)
  with v k show ?r
    by (intro exI [of _ b]) (simp add: hex_val_iff b_def [symmetric])
next
  assume ?r
  then obtain b where b: "hex_val (s ! i) = Some (drop_bit NIBBLE_BITS b)"
      "hex_val (s ! (i + 1)) = Some (b AND NIBBLE_MASK)"
    and k: "parse_loop s (i + 2) (n + 1) (t[n := b]) = Ok u"
    by (auto simp: hex_val_iff NIBBLE_BITS_def NIBBLE_MASK_def nibble_hi nibble_lo)
  then show ?l
    using assms by (subst parse_loop.simps)
      (simp add: nth_opt_def nibbles_join NIBBLE_BITS_def NIBBLE_MASK_def)
qed

lemma parse_end: "length s \<le> i \<Longrightarrow> parse_loop s i n t = Ok u \<longleftrightarrow> t = u"
  by (subst parse_loop.simps) (simp add: nth_opt_def)

lemma hex_digit_inj: "hex_digit v = hex_digit w \<Longrightarrow> v < 16 \<Longrightarrow> w < 16 \<Longrightarrow> v = w"
  by (metis hex_digit_facts(1) option.inject)

lemma digits_inj:
  assumes "hex_digit (drop_bit NIBBLE_BITS b) = hex_digit (drop_bit NIBBLE_BITS c)"
    and "hex_digit (b AND NIBBLE_MASK) = hex_digit (c AND NIBBLE_MASK)"
  shows "b = c"
proof -
  have "drop_bit 4 b = drop_bit 4 c"
    by (rule hex_digit_inj [OF assms(1) [unfolded NIBBLE_BITS_def] nibble_hi nibble_hi])
  moreover have "b AND 0xf = c AND 0xf"
    by (rule hex_digit_inj [OF assms(2) [unfolded NIBBLE_MASK_def] nibble_lo nibble_lo])
  ultimately show ?thesis by (metis nibbles_join)
qed

lemma digits_eq:
  "hex_digit (drop_bit NIBBLE_BITS b) = hex_digit (drop_bit NIBBLE_BITS c)
     \<and> hex_digit (b AND NIBBLE_MASK) = hex_digit (c AND NIBBLE_MASK) \<and> R \<longleftrightarrow> b = c \<and> R"
  by (auto dest: digits_inj)

lemma replicate_16: "replicate 16 x = [x, x, x, x, x, x, x, x, x, x, x, x, x, x, x, x]"
  by (simp add: numeral_eq_Suc)

lemma parse_loop_iff:
  assumes "length s = 36"
  shows "parse_loop s 0 0 (replicate GUID_LEN 0) = Ok u \<longleftrightarrow>
    length u = 16 \<and> map ascii_lower s = hyphenated 0 u"
proof -
  have "map ascii_lower s = map (\<lambda>i. ascii_lower (s ! i)) [0..<36]"
    using assms by (metis (no_types, lifting) map_nth map_map comp_apply map_eq_conv)
  then have s: "map ascii_lower s = hyphenated 0 u \<longleftrightarrow>
      map (\<lambda>i. ascii_lower (s ! i)) [0..<36] = hyphenated 0 u" for u by simp
  show ?thesis
    unfolding s using assms
    by (auto simp: parse_hyphen parse_pair parse_end TEXT_HYPHENS_def GUID_LEN_def upt_rec
        HYPHEN_BEFORE_BYTE_def replicate_16 digits_eq elim!: list_16)
qed

lemma guid_parse_not_Panic: "guid_parse s \<noteq> Panic"
proof -
  have "wp (parse_loop s i n t) (\<lambda>_. True)" for i n t
    by (induction s i n t rule: parse_loop.induct) (subst parse_loop.simps, simp)
  then show ?thesis by (cases "parse_loop s 0 0 (replicate GUID_LEN 0)") (auto simp: guid_parse_def wp_True)
qed

text \<open>
  C16.  \<open>Guid::parse\<close> accepts exactly the canonical 36-character text of a GUID, in either case of
  its letters, and returns that GUID; in particular it inverts \<open>to_text\<close>.  It never panics.
\<close>

theorem guid_parse_iff_text:
  "guid_parse s \<noteq> Panic
    \<and> (guid_parse s = Ok g \<longleftrightarrow> guid_ok g \<and> map ascii_lower s = to_text g)"
proof (intro conjI guid_parse_not_Panic iffI)
  assume "guid_parse s = Ok g"
  then obtain t where s: "length s = 36" and t: "parse_loop s 0 0 (replicate GUID_LEN 0) = Ok t"
    and g: "g = from_text_order t"
    by (auto simp: guid_parse_def TEXT_LEN_def rbind_eq_Ok split: if_splits)
  from t s have t': "length t = GUID_LEN" "map ascii_lower s = hyphenated 0 t"
    by (simp_all add: parse_loop_iff) (simp add: GUID_LEN_def)
  from t' have ok: "guid_ok g"
    unfolding g GUID_LEN_def by (elim list_16) (simp add: from_text_order_eq guid_ok_def GUID_LEN_def)
  then show "guid_ok g" .
  from ok t' g show "map ascii_lower s = to_text g"
    by (simp add: to_text_eq text_order_from_text_order)
next
  assume g: "guid_ok g \<and> map ascii_lower s = to_text g"
  then have "length s = TEXT_LEN" using length_to_text length_map by metis
  moreover from g have "map ascii_lower s = hyphenated 0 (text_order g)" by (simp add: to_text_eq)
  ultimately show "guid_parse s = Ok g"
    using g by (simp add: guid_parse_def rbind_eq_Ok)
      (rule exI [of _ "text_order g"],
        simp add: parse_loop_iff TEXT_LEN_def from_text_order_text_order,
        simp add: text_order_def ORDER_def)
qed

end
