(* ===== verification/Gpt.thy ===== *)
theory Gpt
  imports Bytes Layout Guid
begin

text \<open>
  The GUID Partition Table parser and builder, \<open>crates/paguro-core/src/gpt.rs\<close>.

  CRC-32 works on 32-bit words; the other integers are naturals below the bound of their width.
  \<open>Header::parse\<close>, \<open>Header::entries\<close>, \<open>Entries::get\<close> and \<open>Entries::find\<close> are translated check
  by check, in the order of the source, each check with its error.  \<open>build::write\<close> returns the two
  buffers it fills.

  What is shown: the table-driven CRC is the bit-serial one, and may be computed in pieces; no
  input makes the parser panic; what it accepts satisfies the containment facts later code relies
  on; and it reads back what the builder writes.
\<close>

section \<open>Layouts and constants\<close>

definition GptHeader :: layout where
  "GptHeader = [(''signature'', 8), (''revision'', 4), (''header_size'', 4), (''header_crc32'', 4),
     (''reserved'', 4), (''my_lba'', 8), (''alternate_lba'', 8), (''first_usable_lba'', 8),
     (''last_usable_lba'', 8), (''disk_guid'', 16), (''partition_entry_lba'', 8),
     (''number_of_partition_entries'', 4), (''size_of_partition_entry'', 4),
     (''partition_entry_array_crc32'', 4)]"

definition GptEntry :: layout where
  "GptEntry = [(''partition_type_guid'', 16), (''unique_partition_guid'', 16),
     (''starting_lba'', 8), (''ending_lba'', 8), (''attributes'', 8),
     (''partition_name'', 2 * 36)]"

text \<open>The constant assertions of the source.\<close>

lemma GptHeader_layout:
  "offset_of GptHeader ''header_crc32'' = 16" "offset_of GptHeader ''my_lba'' = 24"
  "offset_of GptHeader ''partition_entry_lba'' = 72" "size_of GptHeader = 92"
  by (simp_all add: GptHeader_def)

lemma GptEntry_layout:
  "offset_of GptEntry ''attributes'' = 48" "offset_of GptEntry ''partition_name'' = 56"
  "size_of GptEntry = 128"
  by (simp_all add: GptEntry_def)

definition SIGNATURE :: bytes where
  "SIGNATURE = [0x45, 0x46, 0x49, 0x20, 0x50, 0x41, 0x52, 0x54]"
definition REVISION_1_0 :: nat where "REVISION_1_0 = 0x00010000"
definition HEADER_MIN :: nat where "HEADER_MIN = size_of GptHeader"
definition MAX_ENTRY_ARRAY :: nat where "MAX_ENTRY_ARRAY = 16 * 1024"
definition MIN_ENTRY_SIZE :: nat where "MIN_ENTRY_SIZE = 128"
definition MAX_ENTRY_SIZE :: nat where "MAX_ENTRY_SIZE = 1024"
definition ENTRY_SIZE_ALIGN :: nat where "ENTRY_SIZE_ALIGN = 8"
definition DEFAULT_ENTRY_SIZE :: nat where "DEFAULT_ENTRY_SIZE = size_of GptEntry"
definition BLOCK_SIZE_512 :: nat where "BLOCK_SIZE_512 = 512"
definition BLOCK_SIZE_4K :: nat where "BLOCK_SIZE_4K = 4096"
definition HEADER_CRC_OFFSET :: nat where
  "HEADER_CRC_OFFSET = offset_of GptHeader ''header_crc32''"
definition HEADER_CRC_END :: nat where
  "HEADER_CRC_END = HEADER_CRC_OFFSET + field_size GptHeader ''header_crc32''"
definition PRIMARY_HEADER_LBA :: nat where "PRIMARY_HEADER_LBA = 1"
definition PRIMARY_ENTRIES_LBA :: nat where "PRIMARY_ENTRIES_LBA = 2"
definition ENTRY_NAME_UNITS :: nat where
  "ENTRY_NAME_UNITS = field_size GptEntry ''partition_name'' div 2"
definition CRC32_POLY_REFLECTED :: "32 word" where "CRC32_POLY_REFLECTED = 0xEDB88320"

lemma gpt_consts:
  "HEADER_MIN = 92" "DEFAULT_ENTRY_SIZE = 128" "HEADER_CRC_OFFSET = 16" "HEADER_CRC_END = 20"
  "ENTRY_NAME_UNITS = 36" "PRIMARY_HEADER_LBA = 1" "PRIMARY_ENTRIES_LBA = 2"
  "MAX_ENTRY_ARRAY = 16384" "MIN_ENTRY_SIZE = 128" "MAX_ENTRY_SIZE = 1024"
  "ENTRY_SIZE_ALIGN = 8" "BLOCK_SIZE_512 = 512" "BLOCK_SIZE_4K = 4096"
  by (simp_all add: HEADER_MIN_def DEFAULT_ENTRY_SIZE_def HEADER_CRC_OFFSET_def HEADER_CRC_END_def
      ENTRY_NAME_UNITS_def GptHeader_def GptEntry_def PRIMARY_HEADER_LBA_def
      PRIMARY_ENTRIES_LBA_def MAX_ENTRY_ARRAY_def MIN_ENTRY_SIZE_def MAX_ENTRY_SIZE_def
      ENTRY_SIZE_ALIGN_def BLOCK_SIZE_512_def BLOCK_SIZE_4K_def)

datatype gpt_error = BadBlockSize | BadSignature | BadRevision | BadHeaderSize | HeaderCrc
  | NotPrimary | BadUsableRange | BadEntryLocation | BadEntrySize | EntryArrayTooLarge
  | EntryArrayCrc | EntryArrayLength | BadEntryRange | NoSuchEntry

section \<open>CRC-32\<close>

definition crc_shift :: "32 word \<Rightarrow> 32 word" where
  "crc_shift c = (if c AND 1 \<noteq> 0 then CRC32_POLY_REFLECTED XOR drop_bit 1 c else drop_bit 1 c)"

definition CRC_TABLE :: "32 word list" where
  "CRC_TABLE = map (\<lambda>i. (crc_shift ^^ 8) (word_of_nat i)) [0..<256]"

definition crc_byte :: "byte \<Rightarrow> 32 word \<Rightarrow> 32 word" where
  "crc_byte b c =
    (let idx = unat ((ucast c :: byte) XOR b)
     in (case nth_opt CRC_TABLE idx of Some t \<Rightarrow> t | None \<Rightarrow> 0) XOR drop_bit 8 c)"

definition crc32_update :: "32 word \<Rightarrow> bytes \<Rightarrow> 32 word" where
  "crc32_update crc d = NOT (fold crc_byte d (NOT crc))"

definition crc32 :: "bytes \<Rightarrow> 32 word" where
  "crc32 d = crc32_update 0 d"

section \<open>Header and entries\<close>

record gpt_header =
  block_size :: nat
  disk_guid :: guid
  first_usable :: nat
  last_usable :: nat
  alternate_lba :: nat
  entries_lba :: nat
  entry_count :: nat
  entry_size :: nat
  entries_crc :: nat

record gpt_entry =
  type_guid :: guid
  unique_guid :: guid
  first_lba :: nat
  last_lba :: nat
  attributes :: nat
  ename :: "nat list"

definition is_unused :: "gpt_entry \<Rightarrow> bool" where
  "is_unused e \<longleftrightarrow> type_guid e = GUID_ZERO"

definition entry_sectors :: "gpt_entry \<Rightarrow> nat" where
  "entry_sectors e = saturating_add (saturating_sub (last_lba e) (first_lba e)) 1"

definition header_crc_of :: "bytes \<Rightarrow> 32 word" where
  \<comment> \<open>the CRC of a header, its own CRC field read as zero\<close>
  "header_crc_of hdr =
    (let part = (\<lambda>i j. case get_range hdr i j of Some s \<Rightarrow> s | None \<Rightarrow> []);
         crc = crc32_update 0 (part 0 HEADER_CRC_OFFSET);
         crc = crc32_update crc (replicate (HEADER_CRC_END - HEADER_CRC_OFFSET) 0)
     in crc32_update crc (part HEADER_CRC_END (length hdr)))"

definition header_parse :: "bytes \<Rightarrow> nat \<Rightarrow> (gpt_error, gpt_header) res" where
  "header_parse block disk_blocks =
    rbind (ensure (length block < u32_lim) BadBlockSize) (\<lambda>_.
    let bs = length block in
    if bs \<noteq> BLOCK_SIZE_512 \<and> bs \<noteq> BLOCK_SIZE_4K then Err BadBlockSize else
    rdo (rarray 8 (reader_new block)) BadHeaderSize (\<lambda>sig r.
    if sig \<noteq> SIGNATURE then Err BadSignature else
    rdo (r_u32_le r) BadHeaderSize (\<lambda>rev r.
    if rev \<noteq> REVISION_1_0 then Err BadRevision else
    rdo (r_u32_le r) BadHeaderSize (\<lambda>header_size r.
    if header_size < HEADER_MIN \<or> header_size > bs then Err BadHeaderSize else
    rdo (r_u32_le r) BadHeaderSize (\<lambda>stored_crc r.
    rdo (r_u32_le r) BadHeaderSize (\<lambda>_ r.
    rbind (ok_or (get_range block 0 header_size) BadHeaderSize) (\<lambda>hdr.
    if unat (header_crc_of hdr) \<noteq> stored_crc then Err HeaderCrc else
    rdo (r_u64_le r) BadHeaderSize (\<lambda>my_lba r.
    rdo (r_u64_le r) BadHeaderSize (\<lambda>alternate r.
    rdo (r_u64_le r) BadHeaderSize (\<lambda>first r.
    rdo (r_u64_le r) BadHeaderSize (\<lambda>lst r.
    rdo (rarray 16 r) BadHeaderSize (\<lambda>dg r.
    rdo (r_u64_le r) BadHeaderSize (\<lambda>elba r.
    rdo (r_u32_le r) BadHeaderSize (\<lambda>ecount r.
    rdo (r_u32_le r) BadHeaderSize (\<lambda>esize r.
    rdo (r_u32_le r) BadHeaderSize (\<lambda>ecrc _.
    if my_lba \<noteq> PRIMARY_HEADER_LBA then Err NotPrimary else
    if first < PRIMARY_ENTRIES_LBA \<or> first > lst \<or> lst \<ge> disk_blocks then Err BadUsableRange else
    if \<not> (MIN_ENTRY_SIZE \<le> esize \<and> esize \<le> MAX_ENTRY_SIZE) \<or> esize mod ENTRY_SIZE_ALIGN \<noteq> 0
      then Err BadEntrySize else
    rbind (mul64 ecount esize) (\<lambda>array_len.
    if array_len = 0 \<or> array_len > MAX_ENTRY_ARRAY then Err EntryArrayTooLarge else
    let array_blocks = div_ceil array_len bs in
    rbind (ok_or (checked_add elba array_blocks) BadEntryLocation) (\<lambda>array_end.
    if elba < PRIMARY_ENTRIES_LBA \<or> array_end > first \<or> array_end > disk_blocks
      then Err BadEntryLocation else
    Ok \<lparr>block_size = bs, disk_guid = dg, first_usable = first, last_usable = lst,
        alternate_lba = alternate, entries_lba = elba, entry_count = ecount,
        entry_size = esize, entries_crc = ecrc\<rparr>))))))))))))))))))"

definition entries_len :: "gpt_header \<Rightarrow> (gpt_error, nat) res" where
  "entries_len h = mul64 (entry_count h) (entry_size h)"

definition entries_blocks :: "gpt_header \<Rightarrow> (gpt_error, nat) res" where
  "entries_blocks h =
    (if block_size h = 0 then Panic
     else rbind (entries_len h) (\<lambda>n. Ok (div_ceil n (block_size h))))"

record gpt_entries =
  gheader :: gpt_header
  garray :: bytes

definition gpt_entries_of :: "gpt_header \<Rightarrow> bytes \<Rightarrow> (gpt_error, gpt_entries) res" where
  "gpt_entries_of h a =
    rbind (entries_len h) (\<lambda>n.
    if length a \<noteq> n then Err EntryArrayLength else
    if unat (crc32 a) \<noteq> entries_crc h then Err EntryArrayCrc else
    Ok \<lparr>gheader = h, garray = a\<rparr>)"

definition gpt_count :: "gpt_entries \<Rightarrow> nat" where
  "gpt_count es = entry_count (gheader es)"

fun read_units :: "nat \<Rightarrow> reader \<Rightarrow> (gpt_error, nat list) res" where
  "read_units 0 r = Ok []"
| "read_units (Suc k) r =
    rdo (r_u16_le r) EntryArrayLength (\<lambda>u r. rbind (read_units k r) (\<lambda>us. Ok (u # us)))"

definition gpt_get :: "gpt_entries \<Rightarrow> nat \<Rightarrow> (gpt_error, gpt_entry) res" where
  "gpt_get es i =
    (let h = gheader es in
     if i \<ge> entry_count h then Err NoSuchEntry else
     rbind (mul64 i (entry_size h)) (\<lambda>at.
     rbind (add64 at (entry_size h)) (\<lambda>e.
     rbind (ok_or (get_range (garray es) at e) EntryArrayLength) (\<lambda>raw.
     rdo (rarray 16 (reader_new raw)) EntryArrayLength (\<lambda>tg r.
     rdo (rarray 16 r) EntryArrayLength (\<lambda>ug r.
     rdo (r_u64_le r) EntryArrayLength (\<lambda>first r.
     rdo (r_u64_le r) EntryArrayLength (\<lambda>lst r.
     rdo (r_u64_le r) EntryArrayLength (\<lambda>attrs r.
     rbind (read_units ENTRY_NAME_UNITS r) (\<lambda>nm.
     let e = \<lparr>type_guid = tg, unique_guid = ug, first_lba = first, last_lba = lst,
              attributes = attrs, ename = nm\<rparr> in
     if \<not> is_unused e
        \<and> (first > lst \<or> first < first_usable h \<or> lst > last_usable h)
     then Err BadEntryRange else Ok e))))))))))"

fun find_from :: "gpt_entries \<Rightarrow> guid \<Rightarrow> nat list \<Rightarrow> (gpt_error, gpt_entry option) res" where
  "find_from es gid [] = Ok None"
| "find_from es gid (i # is) =
    rbind (gpt_get es i) (\<lambda>e.
    if \<not> is_unused e \<and> unique_guid e = gid then Ok (Some e) else find_from es gid is)"

definition gpt_find :: "gpt_entries \<Rightarrow> guid \<Rightarrow> (gpt_error, gpt_entry option) res" where
  "gpt_find es gid = find_from es gid [0..<gpt_count es]"

section \<open>The builder\<close>

definition blank_entry :: gpt_entry where
  "blank_entry = \<lparr>type_guid = GUID_ZERO, unique_guid = GUID_ZERO, first_lba = 0, last_lba = 0,
     attributes = 0, ename = replicate ENTRY_NAME_UNITS 0\<rparr>"

definition write_entry :: "writer \<Rightarrow> gpt_entry \<Rightarrow> writer option" where
  "write_entry w e = do {
     w \<leftarrow> wput w (type_guid e);
     w \<leftarrow> wput w (unique_guid e);
     w \<leftarrow> w_u64_le w (first_lba e);
     w \<leftarrow> w_u64_le w (last_lba e);
     w \<leftarrow> w_u64_le w (attributes e);
     opt_fold w_u16_le w (ename e) }"

definition write_header :: "writer \<Rightarrow> guid \<Rightarrow> nat \<Rightarrow> nat \<Rightarrow> nat \<Rightarrow> nat \<Rightarrow> 32 word \<Rightarrow> writer option" where
  "write_header w dg disk_blocks first_use count esz array_crc = do {
     w \<leftarrow> wput w SIGNATURE;
     w \<leftarrow> w_u32_le w REVISION_1_0;
     w \<leftarrow> w_u32_le w HEADER_MIN;
     w \<leftarrow> w_u32_le w 0;
     w \<leftarrow> w_u32_le w 0;
     w \<leftarrow> w_u64_le w PRIMARY_HEADER_LBA;
     w \<leftarrow> w_u64_le w (saturating_sub disk_blocks 1);
     w \<leftarrow> w_u64_le w first_use;
     w \<leftarrow> w_u64_le w (saturating_sub disk_blocks first_use);
     w \<leftarrow> wput w dg;
     w \<leftarrow> w_u64_le w PRIMARY_ENTRIES_LBA;
     w \<leftarrow> w_u32_le w count;
     w \<leftarrow> w_u32_le w esz;
     w \<leftarrow> w_u32_le w (unat array_crc);
     patch w HEADER_CRC_OFFSET (le_bytes 4 (unat (crc32 (written w)))) }"

text \<open>
  \<open>build::write\<close>.  The error is \<open>Full\<close>; the result is the header buffer and the array buffer.  A
  block size of zero is a division by zero.
\<close>

definition gpt_write ::
  "guid \<Rightarrow> nat \<Rightarrow> nat \<Rightarrow> gpt_entry list \<Rightarrow> nat \<Rightarrow> bytes \<Rightarrow> bytes \<Rightarrow> (unit, bytes \<times> bytes) res" where
  "gpt_write dg disk_blocks bs entries count header_out array_out =
    (let esz = DEFAULT_ENTRY_SIZE in
     rbind (mul64 count esz) (\<lambda>array_len.
     if bs = 0 then Panic else
     let array_blocks = div_ceil array_len bs in
     rbind (ok_or (get_range array_out 0 array_len) ()) (\<lambda>arr.
     rbind (ok_or (opt_fold (\<lambda>w i. write_entry w
               (case nth_opt entries i of Some e \<Rightarrow> e | None \<Rightarrow> blank_entry))
             (writer_new (replicate (length arr) 0)) [0..<count]) ()) (\<lambda>wa.
     let array' = wbuf wa @ drop array_len array_out in
     rbind (ok_or (get_range array' 0 array_len) ()) (\<lambda>arr'.
     let array_crc = crc32 arr' in
     rbind (ok_or (get_range header_out 0 bs) ()) (\<lambda>hdr.
     rbind (add64 PRIMARY_ENTRIES_LBA array_blocks) (\<lambda>first_use.
     rbind (ok_or (write_header (writer_new (replicate (length hdr) 0)) dg disk_blocks first_use
              count esz array_crc) ()) (\<lambda>wh.
     Ok (wbuf wh @ drop bs header_out, array')))))))))"

section \<open>CRC-32 is the bit-serial CRC\<close>

text \<open>The reference: a shift register fed one byte at a time, eight shifts per byte.\<close>

definition crc_serial :: "byte \<Rightarrow> 32 word \<Rightarrow> 32 word" where
  "crc_serial b c = (crc_shift ^^ 8) (c XOR ucast b)"

definition crc32_serial :: "bytes \<Rightarrow> 32 word" where
  "crc32_serial d = NOT (fold crc_serial d (NOT 0))"

lemma crc_shift_bit: "crc_shift c = (if bit c 0 then CRC32_POLY_REFLECTED else 0) XOR drop_bit 1 c"
  by (simp add: crc_shift_def and_one_eq bit_0 odd_iff_mod_2_eq_one)

lemma crc_shift_xor: "crc_shift (x XOR y) = crc_shift x XOR crc_shift y"
  by (simp add: crc_shift_bit bit_xor_iff drop_bit_xor xor.assoc xor.left_commute)

lemma crc_shifts_xor: "(crc_shift ^^ n) (x XOR y) = (crc_shift ^^ n) x XOR (crc_shift ^^ n) y"
  by (induction n) (simp_all add: crc_shift_xor)

lemma crc_shifts_zeros: "(\<forall>i<n. \<not> bit x i) \<Longrightarrow> (crc_shift ^^ n) x = drop_bit n x"
  by (induction n) (simp_all add: crc_shift_bit bit_drop_bit_eq drop_bit_drop_bit)

lemma crc_byte_serial: "crc_byte b c = crc_serial b c"
proof -
  define i :: byte where "i = ucast c XOR b"
  have hb: "n < 24" if "bit c (8 + n)" for n
    using bit_imp_le_length [OF that] by simp
  have "c XOR ucast b = ucast i XOR push_bit 8 (drop_bit 8 c)"
    by (auto simp: i_def bit_simps intro!: bit_word_eqI)
  then have "crc_serial b c = (crc_shift ^^ 8) (ucast i) XOR (crc_shift ^^ 8) (push_bit 8 (drop_bit 8 c))"
    by (simp only: crc_serial_def crc_shifts_xor)
  also have "(crc_shift ^^ 8) (push_bit 8 (drop_bit 8 c)) = drop_bit 8 c"
    using hb by (subst crc_shifts_zeros) (auto simp: bit_simps intro!: bit_word_eqI)
  also have "(crc_shift ^^ 8) (ucast i) = CRC_TABLE ! unat i"
    using unat_byte_bound [of i] by (simp add: CRC_TABLE_def del: funpow.simps)
  finally show ?thesis
    using unat_byte_bound [of i]
    by (simp add: crc_byte_def Let_def i_def [symmetric] nth_opt_def CRC_TABLE_def)
qed

lemma crc32_update_append: "crc32_update c (a @ b) = crc32_update (crc32_update c a) b"
  by (simp add: crc32_update_def)

lemma crc32_serial_eq: "crc32 d = crc32_serial d"
proof -
  have "crc_byte = crc_serial" by (intro ext) (rule crc_byte_serial)
  then show ?thesis by (simp add: crc32_def crc32_update_def crc32_serial_def)
qed

text \<open>
  C13.  The table-driven CRC-32 equals the bit-serial CRC-32 with the reflected polynomial
  \<open>0xEDB88320\<close>, whatever pieces the data is fed in.
\<close>

theorem crc32_pieces: "fold (\<lambda>d c. crc32_update c d) ds (crc32 d) = crc32_serial (d @ concat ds)"
proof -
  have "fold (\<lambda>d c. crc32_update c d) ds c = crc32_update c (concat ds)" for c
    by (induction ds arbitrary: c) (simp_all add: crc32_update_append, simp add: crc32_update_def)
  then show ?thesis by (simp add: crc32_serial_eq [symmetric] crc32_def crc32_update_append)
qed

section \<open>What the parser accepts\<close>

text \<open>
  The facts about an accepted header that bound every later read: the entry array is non-empty, at
  most 16 KiB, lies between the header block and the usable range, and the usable range lies on
  the disk.
\<close>

definition header_ok :: "nat \<Rightarrow> gpt_header \<Rightarrow> bool" where
  "header_ok disk_blocks h \<longleftrightarrow>
     (block_size h = 512 \<or> block_size h = 4096) \<and> guid_ok (disk_guid h)
   \<and> 128 \<le> entry_size h \<and> entry_size h \<le> 1024 \<and> entry_size h mod 8 = 0
   \<and> 0 < entry_count h \<and> entry_count h * entry_size h \<le> MAX_ENTRY_ARRAY
   \<and> 2 \<le> entries_lba h
   \<and> entries_lba h + div_ceil (entry_count h * entry_size h) (block_size h) \<le> first_usable h
   \<and> first_usable h \<le> last_usable h \<and> last_usable h < disk_blocks
   \<and> entries_crc h < u32_lim \<and> alternate_lba h < u64_lim \<and> last_usable h < u64_lim"

lemma header_parse_wp: "wp (header_parse block disk_blocks) (header_ok disk_blocks)"
  unfolding header_parse_def
  by (auto simp: gpt_consts header_ok_def guid_ok_def GUID_LEN_def u32_mul
      dest!: r_u32_le_SomeD r_u64_le_SomeD rarray_SomeD)

lemma entries_wp:
  assumes "header_ok n h"
  shows "wp (gpt_entries_of h a) (\<lambda>es. gheader es = h \<and> garray es = a
    \<and> length a = entry_count h * entry_size h \<and> unat (crc32_serial a) = entries_crc h)"
  using assms
  by (auto simp: gpt_entries_of_def entries_len_def header_ok_def gpt_consts crc32_serial_eq)

lemma read_units_wp: "wp (read_units k r) (\<lambda>us. length us = k \<and> (\<forall>u\<in>set us. u < u16_lim))"
proof (induction k arbitrary: r)
  case (Suc k)
  show ?case
    using Suc.IH by (auto elim!: wp_conseq dest: r_u16_le_SomeD)
qed simp

text \<open>An entry \<open>Entries::get\<close> may return under header \<open>h\<close>.\<close>

definition entry_typed :: "gpt_entry \<Rightarrow> bool" where
  "entry_typed e \<longleftrightarrow> guid_ok (type_guid e) \<and> guid_ok (unique_guid e)
     \<and> first_lba e < u64_lim \<and> last_lba e < u64_lim \<and> attributes e < u64_lim
     \<and> length (ename e) = ENTRY_NAME_UNITS \<and> (\<forall>u\<in>set (ename e). u < u16_lim)"

definition in_usable :: "gpt_header \<Rightarrow> gpt_entry \<Rightarrow> bool" where
  "in_usable h e \<longleftrightarrow> first_usable h \<le> first_lba e \<and> first_lba e \<le> last_lba e
     \<and> last_lba e \<le> last_usable h"

definition entry_ok :: "gpt_header \<Rightarrow> gpt_entry \<Rightarrow> bool" where
  "entry_ok h e \<longleftrightarrow> entry_typed e \<and> (is_unused e \<or> in_usable h e)"

lemma entry_span:
  assumes "i < c" and "c * s \<le> MAX_ENTRY_ARRAY"
  shows "i * s + s \<le> c * s" "i * s < u64_lim" "i * s + s < u64_lim"
proof -
  from assms(1) have "(i + 1) * s \<le> c * s" by (intro mult_le_mono1) simp
  then show "i * s + s \<le> c * s" by simp
  with assms(2) show "i * s < u64_lim" "i * s + s < u64_lim" by (simp_all add: gpt_consts)
qed

lemma gpt_get_wp:
  assumes "header_ok n (gheader es)"
  shows "wp (gpt_get es i) (\<lambda>e. i < gpt_count es \<and> entry_ok (gheader es) e)"
proof -
  let ?h = "gheader es"
  from assms have s: "entry_count ?h * entry_size ?h \<le> MAX_ENTRY_ARRAY" by (simp add: header_ok_def)
  show ?thesis
  proof (cases "i < entry_count ?h")
    case True
    note sp = entry_span [OF True s]
    show ?thesis unfolding gpt_get_def
      using True sp
      by (auto simp: Let_def gpt_count_def guid_ok_def GUID_LEN_def entry_ok_def entry_typed_def
          in_usable_def is_unused_def
          dest!: r_u64_le_SomeD rarray_SomeD intro!: wp_conseq [OF read_units_wp])
  qed (simp add: gpt_get_def Let_def)
qed

lemma gpt_find_wp:
  assumes "header_ok n (gheader es)"
  shows "wp (gpt_find es gid) (\<lambda>r. \<forall>e. r = Some e \<longrightarrow>
    entry_typed e \<and> in_usable (gheader es) e \<and> \<not> is_unused e \<and> unique_guid e = gid)"
proof -
  have "wp (find_from es gid is) (\<lambda>r. \<forall>e. r = Some e \<longrightarrow>
      entry_typed e \<and> in_usable (gheader es) e \<and> \<not> is_unused e \<and> unique_guid e = gid)" for "is"
    by (induction "is")
      (auto simp: entry_ok_def intro!: wp_conseq [OF gpt_get_wp [OF assms]])
  then show ?thesis by (simp add: gpt_find_def)
qed

text \<open>\<open>find\<close> reads the entries in order and stops at the first match or the first bad entry.\<close>

definition is_hit :: "gpt_entries \<Rightarrow> guid \<Rightarrow> nat \<Rightarrow> gpt_entry \<Rightarrow> bool" where
  "is_hit es gid i e \<longleftrightarrow> gpt_get es i = Ok e \<and> \<not> is_unused e \<and> unique_guid e = gid"

definition is_miss :: "gpt_entries \<Rightarrow> guid \<Rightarrow> nat \<Rightarrow> bool" where
  "is_miss es gid i \<longleftrightarrow> (\<exists>e. gpt_get es i = Ok e \<and> (is_unused e \<or> unique_guid e \<noteq> gid))"

lemma find_from_Some:
  "find_from es gid [a..<b] = Ok (Some e) \<longleftrightarrow>
    (\<exists>i. a \<le> i \<and> i < b \<and> is_hit es gid i e \<and> (\<forall>j. a \<le> j \<and> j < i \<longrightarrow> is_miss es gid j))"
proof (induction "b - a" arbitrary: a)
  case 0
  then show ?case by auto
next
  case (Suc k)
  let ?first = "\<lambda>a i. a \<le> i \<and> i < b \<and> is_hit es gid i e \<and> (\<forall>j. a \<le> j \<and> j < i \<longrightarrow> is_miss es gid j)"
  from Suc have ab: "a < b"
    and IH: "find_from es gid [Suc a..<b] = Ok (Some e) \<longleftrightarrow> (\<exists>i. ?first (Suc a) i)" by auto
  show ?case
  proof (cases "is_miss es gid a")
    case True
    then have "\<not> is_hit es gid a e" by (auto simp: is_hit_def is_miss_def)
    then have "a \<le> i \<and> is_hit es gid i e \<longleftrightarrow> Suc a \<le> i \<and> is_hit es gid i e" for i
      by (metis Suc_leD Suc_leI le_neq_implies_less)
    moreover have "(\<forall>j. a \<le> j \<and> j < i \<longrightarrow> is_miss es gid j)
        \<longleftrightarrow> (\<forall>j. Suc a \<le> j \<and> j < i \<longrightarrow> is_miss es gid j)" for i
      using True by (metis Suc_leD Suc_leI le_neq_implies_less)
    ultimately have "?first a i \<longleftrightarrow> ?first (Suc a) i" for i by metis
    moreover from True have "find_from es gid [a..<b] = find_from es gid [Suc a..<b]"
      using ab by (auto simp: upt_conv_Cons is_miss_def)
    ultimately show ?thesis using IH by simp
  next
    case False
    then have "find_from es gid [a..<b] = Ok (Some e) \<longleftrightarrow> is_hit es gid a e"
      using ab by (auto simp: upt_conv_Cons rbind_eq_Ok is_hit_def is_miss_def)
    moreover from False have "?first a i \<longleftrightarrow> i = a \<and> is_hit es gid a e" for i
      using ab by (cases "i = a") auto
    ultimately show ?thesis by auto
  qed
qed

text \<open>
  \<open>Entries::find\<close> returns the first used entry with the GUID: every entry before it was read
  without error and did not match.
\<close>

theorem gpt_find_first:
  "gpt_find es gid = Ok (Some e) \<longleftrightarrow>
    (\<exists>i. i < gpt_count es \<and> is_hit es gid i e \<and> list_all (is_miss es gid) [0..<i])"
  by (simp add: gpt_find_def find_from_Some list_all_iff Ball_def)

text \<open>The claim of the next theorem for a header \<open>h\<close> and a result \<open>r\<close> of the search.\<close>

definition found_inside :: "nat \<Rightarrow> nat \<Rightarrow> bytes \<Rightarrow> guid \<Rightarrow> gpt_header \<Rightarrow> gpt_entry option \<Rightarrow> bool" where
  "found_inside bs disk_blocks a gid h r \<longleftrightarrow>
     length a \<le> MAX_ENTRY_ARRAY \<and> unat (crc32_serial a) = entries_crc h
   \<and> (case r of None \<Rightarrow> True | Some e \<Rightarrow>
        unique_guid e = gid \<and> \<not> is_unused e \<and> PRIMARY_HEADER_LBA < entries_lba h
      \<and> entries_lba h + div_ceil (length a) bs \<le> first_lba e
      \<and> first_lba e \<le> last_lba e \<and> last_lba e < disk_blocks
      \<and> entry_sectors e = last_lba e - first_lba e + 1)"

lemma header_parse_block_size: "wp (header_parse block n) (\<lambda>h. block_size h = length block)"
  unfolding header_parse_def by (auto simp: gpt_consts u32_mul dest!: r_u32_le_SomeD)

lemma gpt_find_inside:
  assumes h: "header_ok n (gheader es)" and a: "length (garray es) = entry_count (gheader es) * entry_size (gheader es)"
    and c: "unat (crc32_serial (garray es)) = entries_crc (gheader es)"
  shows "wp (gpt_find es gid) (found_inside (block_size (gheader es)) n (garray es) gid (gheader es))"
  using h
  by (intro wp_conseq [OF gpt_find_wp [OF h]])
    (auto simp: found_inside_def header_ok_def a c in_usable_def entry_sectors_def
      saturating_add_def saturating_sub_def gpt_consts split: option.split)

text \<open>
  C11.  Whatever bytes a disk returns for its header block and entry array, the parser does not
  panic, and a partition found by its GUID lies inside the usable range, which lies on the disk
  and behind the header and the entry array; the array it came from has the CRC of the header and
  at most 16 KiB.
\<close>

theorem gpt_find_safe:
  "wp (rbind (header_parse block n) (\<lambda>h. rbind (gpt_entries_of h a) (\<lambda>es.
       rbind (gpt_find es gid) (\<lambda>r. Ok (h, r)))))
     (\<lambda>(h, r). found_inside (length block) n a gid h r)"
proof (simp, rule wp_conseq [OF header_parse_wp])
  fix h
  assume h: "header_parse block n = Ok h" "header_ok n h"
  from wp_OkD [OF header_parse_block_size h(1)] have bs: "block_size h = length block" .
  show "wp (gpt_entries_of h a) (\<lambda>es. wp (gpt_find es gid) (found_inside (length block) n a gid h))"
  proof (rule wp_conseq [OF entries_wp [OF h(2)]])
    fix es :: gpt_entries
    assume "gheader es = h \<and> garray es = a \<and> length a = entry_count h * entry_size h
      \<and> unat (crc32_serial a) = entries_crc h"
    with gpt_find_inside [of n es gid] h(2) bs
    show "wp (gpt_find es gid) (found_inside (length block) n a gid h)" by auto
  qed
qed

section \<open>The parser reads what the builder writes\<close>

definition entry_bytes :: "gpt_entry \<Rightarrow> bytes" where
  "entry_bytes e = type_guid e @ unique_guid e @ le_bytes 8 (first_lba e) @ le_bytes 8 (last_lba e)
     @ le_bytes 8 (attributes e) @ concat (map (le_bytes 2) (ename e))"

lemma length_units [simp]: "length (concat (map (le_bytes 2) us)) = 2 * length us"
  by (induction us) simp_all

lemma length_entry_bytes: "entry_typed e \<Longrightarrow> length (entry_bytes e) = 128"
  by (simp add: entry_bytes_def entry_typed_def guid_ok_def GUID_LEN_def gpt_consts)

lemma write_entry_wr:
  assumes "entry_typed e" "128 \<le> length room" "length pre + length room < u64_lim"
  shows "write_entry (wr pre room) e = Some (wr (pre @ entry_bytes e) (drop 128 room))"
proof -
  have u: "w_u16_le = (\<lambda>w v. wput w (le_bytes 2 v))" by (simp add: fun_eq_iff w_u16_le_def)
  show ?thesis
    using assms
    by (simp add: write_entry_def w_u64_le_def u opt_fold_wput entry_bytes_def entry_typed_def
        guid_ok_def GUID_LEN_def gpt_consts)
qed

lemma write_entries_wr:
  assumes "\<And>i. entry_typed (f i)" "128 * length is \<le> length room" "length pre + length room < u64_lim"
  shows "opt_fold (\<lambda>w i. write_entry w (f i)) (wr pre room) is
    = Some (wr (pre @ concat (map (\<lambda>i. entry_bytes (f i)) is)) (drop (128 * length is) room))"
  using assms(2,3)
proof (induction "is" arbitrary: pre room)
  case (Cons i "is")
  let ?pre = "pre @ entry_bytes (f i)" and ?room = "drop 128 room"
  have "128 * length is \<le> length ?room" "length ?pre + length ?room < u64_lim"
    using Cons.prems by (simp_all add: length_entry_bytes [OF assms(1)])
  from Cons.IH [OF this] show ?case
    using Cons.prems by (simp add: write_entry_wr [OF assms(1)] add.commute)
qed simp

lemma read_units_append:
  "\<forall>u\<in>set us. u < u16_lim \<Longrightarrow> length us = k \<Longrightarrow>
    read_units k (concat (map (le_bytes 2) us) @ r) = Ok us"
  by (induction us arbitrary: k) (auto simp: r_u16_le_append)

text \<open>
  A request \<open>build::write\<close> is made for: a disk with room for the header, the array and their
  backups, at most 128 entries, and entries that fit the usable range.
\<close>

definition entry_at :: "gpt_entry list \<Rightarrow> nat \<Rightarrow> gpt_entry" where
  "entry_at entries i = (case nth_opt entries i of Some e \<Rightarrow> e | None \<Rightarrow> blank_entry)"

definition build_request :: "guid \<Rightarrow> nat \<Rightarrow> nat \<Rightarrow> gpt_entry list \<Rightarrow> nat \<Rightarrow> bool" where
  "build_request dg disk_blocks bs entries count \<longleftrightarrow>
     guid_ok dg \<and> disk_blocks < u64_lim \<and> (bs = 512 \<or> bs = 4096) \<and> 0 < count \<and> count \<le> 128
   \<and> 2 * (2 + div_ceil (count * 128) bs) \<le> disk_blocks
   \<and> (\<forall>e\<in>set entries. entry_typed e \<and> (is_unused e \<or>
        2 + div_ceil (count * 128) bs \<le> first_lba e \<and> first_lba e \<le> last_lba e
        \<and> last_lba e + 2 + div_ceil (count * 128) bs \<le> disk_blocks))"

definition array_bytes :: "gpt_entry list \<Rightarrow> nat \<Rightarrow> bytes" where
  "array_bytes entries count = concat (map (\<lambda>i. entry_bytes (entry_at entries i)) [0..<count])"

definition built_header :: "guid \<Rightarrow> nat \<Rightarrow> nat \<Rightarrow> gpt_entry list \<Rightarrow> nat \<Rightarrow> gpt_header" where
  "built_header dg disk_blocks bs entries count =
     \<lparr>block_size = bs, disk_guid = dg, first_usable = 2 + div_ceil (count * 128) bs,
      last_usable = disk_blocks - (2 + div_ceil (count * 128) bs),
      alternate_lba = disk_blocks - 1, entries_lba = 2, entry_count = count, entry_size = 128,
      entries_crc = unat (crc32 (array_bytes entries count))\<rparr>"

definition header_bytes :: "gpt_header \<Rightarrow> bytes \<Rightarrow> bytes" where
  \<comment> \<open>the 92 bytes of a header, with the given CRC field\<close>
  "header_bytes h crc = (SIGNATURE @ le_bytes 4 REVISION_1_0 @ le_bytes 4 HEADER_MIN) @ crc
     @ (le_bytes 4 0 @ le_bytes 8 PRIMARY_HEADER_LBA @ le_bytes 8 (alternate_lba h)
     @ le_bytes 8 (first_usable h) @ le_bytes 8 (last_usable h) @ disk_guid h
     @ le_bytes 8 (entries_lba h) @ le_bytes 4 (entry_count h) @ le_bytes 4 (entry_size h)
     @ le_bytes 4 (entries_crc h))"

definition header_encoded :: "gpt_header \<Rightarrow> bytes" where
  "header_encoded h = header_bytes h (le_bytes 4 (unat (crc32 (header_bytes h (le_bytes 4 0)))))"

lemma length_SIGNATURE [simp]: "length SIGNATURE = 8"
  by (simp add: SIGNATURE_def)

lemma length_header_bytes [simp]:
  "guid_ok (disk_guid h) \<Longrightarrow> length c = 4 \<Longrightarrow> length (header_bytes h c) = 92"
  by (simp add: header_bytes_def guid_ok_def GUID_LEN_def)

lemma overwrite_middle: "length p = at \<Longrightarrow> length b = length c \<Longrightarrow> overwrite (p @ b @ q) at c = p @ c @ q"
  by (simp add: overwrite_def)

lemma header_bytes_patch:
  "length b = 4 \<Longrightarrow> length c = 4 \<Longrightarrow> overwrite (header_bytes h b) 16 c = header_bytes h c"
  unfolding header_bytes_def by (rule overwrite_middle) simp_all

lemma write_header_wr:
  assumes "guid_ok (disk_guid h)" "92 \<le> length room" "length room < u64_lim"
    and "alternate_lba h = disk_blocks - 1" "last_usable h = disk_blocks - first_usable h"
    and "entries_lba h = 2" "entries_crc h = unat c"
  shows "write_header (wr [] room) (disk_guid h) disk_blocks (first_usable h) (entry_count h)
    (entry_size h) c = Some (wr (header_encoded h) (drop 92 room))"
  using assms
  by (simp add: write_header_def w_ints gpt_consts guid_ok_def GUID_LEN_def saturating_sub_def)
    (simp add: header_encoded_def header_bytes_def gpt_consts overwrite_def)

lemma header_crc_encoded:
  assumes "guid_ok (disk_guid h)" "length c = 4"
  shows "header_crc_of (header_bytes h c) = crc32 (header_bytes h (le_bytes 4 0))"
proof -
  have z: "replicate 4 (0 :: byte) = le_bytes 4 0" by (simp add: le_bytes_zero)
  show ?thesis
    using assms
    by (simp add: header_crc_of_def Let_def gpt_consts crc32_def crc32_update_append [symmetric]
        get_range_def z guid_ok_def GUID_LEN_def header_bytes_def)
qed

lemma header_parse_encoded:
  assumes h: "header_ok disk_blocks h" and d: "disk_blocks < u64_lim"
    and b: "block_size h = 92 + length pad"
  shows "header_parse (header_encoded h @ pad) disk_blocks = Ok h"
proof -
  define c where "c = unat (crc32 (header_bytes h (le_bytes 4 0)))"
  from h have g: "guid_ok (disk_guid h)" by (simp add: header_ok_def)
  then have l: "length (disk_guid h) = 16" by (simp add: guid_ok_def GUID_LEN_def)
  have hb: "header_encoded h = header_bytes h (le_bytes 4 c)" by (simp add: header_encoded_def c_def)
  have c32: "c < u32_lim" unfolding c_def by (rule unat_u32_bound)
  have crc: "unat (header_crc_of (header_bytes h (le_bytes 4 c))) = c"
    by (simp add: header_crc_encoded [OF g] c_def)
  have len: "length (header_encoded h @ pad) = block_size h"
    using g b by (simp add: hb)
  have bs: "block_size h = 512 \<or> block_size h = 4096" using h by (simp add: header_ok_def)
  have hdr: "get_range (header_encoded h @ pad) 0 92 = Some (header_bytes h (le_bytes 4 c))"
    using g by (simp add: get_range_def hb)
  have bounds: "entry_count h < u32_lim" "entry_size h < u32_lim" "first_usable h < u64_lim"
      "last_usable h < u64_lim" "entries_lba h < u64_lim" "alternate_lba h < u64_lim"
      "entries_crc h < u32_lim"
  proof -
    from h have "entry_count h * 128 \<le> entry_count h * entry_size h"
      by (intro mult_le_mono2) (simp add: header_ok_def)
    moreover from h have "entry_count h * entry_size h \<le> 16384" by (simp add: header_ok_def gpt_consts)
    ultimately show "entry_count h < u32_lim" by linarith
  qed (use h d in \<open>auto simp: header_ok_def\<close>)
  define B where "B = header_encoded h @ pad"
  have front: "rarray 8 B = Some (SIGNATURE, le_bytes 4 REVISION_1_0 @ le_bytes 4 92 @ le_bytes 4 c
     @ le_bytes 4 0 @ le_bytes 8 1 @ le_bytes 8 (alternate_lba h)
     @ le_bytes 8 (first_usable h) @ le_bytes 8 (last_usable h) @ disk_guid h
     @ le_bytes 8 (entries_lba h) @ le_bytes 4 (entry_count h) @ le_bytes 4 (entry_size h)
     @ le_bytes 4 (entries_crc h) @ pad)"
    by (simp add: B_def hb header_bytes_def gpt_consts)
  have rev: "REVISION_1_0 < u32_lim" by (simp add: REVISION_1_0_def)
  have "header_parse B disk_blocks = Ok h"
    unfolding header_parse_def reader_new_def
    using front rev len hdr bs bounds h c32 crc l u32_mul [OF bounds(1,2)] d
    by (auto simp: header_ok_def gpt_consts B_def [symmetric] ensure_def mul64_def checked_add_def Let_def)
  then show ?thesis by (simp only: B_def)
qed

lemma gpt_get_encoded:
  assumes e: "entry_ok h e" and i: "i < entry_count h" and s: "entry_size h = 128"
    and c: "entry_count h \<le> 128"
    and raw: "take 128 (drop (i * 128) a) = entry_bytes e" and l: "length a = entry_count h * 128"
  shows "gpt_get \<lparr>gheader = h, garray = a\<rparr> i = Ok e"
proof -
  from i have "(i + 1) * 128 \<le> entry_count h * 128" by (intro mult_le_mono1) simp
  then have i': "i * 128 + 128 \<le> length a" by (simp add: l)
  with c l have "get_range a (i * 128) (i * 128 + 128) = Some (entry_bytes e)" "i * 128 + 128 < u64_lim"
    by (simp_all add: get_range_def raw)
  moreover from e have "entry_typed e" "is_unused e \<or> in_usable h e" by (simp_all add: entry_ok_def)
  moreover have "read_units ENTRY_NAME_UNITS (concat (map (le_bytes 2) (ename e))) = Ok (ename e)"
    using \<open>entry_typed e\<close> read_units_append [of "ename e" ENTRY_NAME_UNITS "[]"]
    by (simp add: entry_typed_def)
  ultimately show ?thesis
    using i s
    by (auto simp: gpt_get_def Let_def mul64_def add64_def entry_bytes_def entry_typed_def reader_new_def
        guid_ok_def GUID_LEN_def is_unused_def in_usable_def)
qed

lemma blank_entry_ok: "entry_typed blank_entry" "is_unused blank_entry"
  by (simp_all add: blank_entry_def entry_typed_def is_unused_def guid_ok_def GUID_LEN_def GUID_ZERO_def)

lemma built_ok:
  assumes "build_request dg n bs entries count"
  defines "h \<equiv> built_header dg n bs entries count"
  shows "header_ok n h" and "entry_ok h (entry_at entries i)"
proof -
  show "header_ok n h"
    using assms(1) unat_u32_bound [of "crc32 (array_bytes entries count)"]
    by (auto simp: h_def built_header_def build_request_def header_ok_def gpt_consts)
  show "entry_ok h (entry_at entries i)"
  proof (cases "i < length entries")
    case True
    then have "entries ! i \<in> set entries" by simp
    with assms(1) True show ?thesis
      by (auto simp: entry_at_def nth_opt_def entry_ok_def h_def built_header_def in_usable_def
          build_request_def)
  qed (simp add: entry_at_def nth_opt_def entry_ok_def blank_entry_ok)
qed

lemma array_chunks:
  assumes "build_request dg n bs entries count"
  shows "length (array_bytes entries count) = count * 128"
    and "i < count \<Longrightarrow> take 128 (drop (i * 128) (array_bytes entries count)) = entry_bytes (entry_at entries i)"
proof -
  have "\<forall>x\<in>set (map (\<lambda>i. entry_bytes (entry_at entries i)) [0..<count]). length x = 128"
    using built_ok(2) [OF assms] by (auto simp: entry_ok_def length_entry_bytes)
  from length_concat_chunks [OF this] concat_chunk [OF this, of i]
  show "length (array_bytes entries count) = count * 128"
    and "i < count \<Longrightarrow> take 128 (drop (i * 128) (array_bytes entries count)) = entry_bytes (entry_at entries i)"
    by (simp_all add: array_bytes_def)
qed

lemma gpt_write_eq:
  assumes r: "build_request dg n bs entries count"
    and b: "bs \<le> length header_out" "count * 128 \<le> length array_out"
  shows "gpt_write dg n bs entries count header_out array_out
    = Ok (header_encoded (built_header dg n bs entries count) @ replicate (bs - 92) 0 @ drop bs header_out,
          array_bytes entries count @ drop (count * 128) array_out)"
proof -
  let ?h = "built_header dg n bs entries count"
  from r have c: "count \<le> 128" "bs = 512 \<or> bs = 4096" "guid_ok dg" by (auto simp: build_request_def)
  have t: "entry_typed (entry_at entries i)" for i using built_ok(2) [OF r] by (simp add: entry_ok_def)
  have f: "(\<lambda>w i. write_entry w (case nth_opt entries i of Some e \<Rightarrow> e | None \<Rightarrow> blank_entry))
      = (\<lambda>w i. write_entry w (entry_at entries i))"
    by (simp add: entry_at_def)
  have wa: "opt_fold (\<lambda>w i. write_entry w (entry_at entries i)) (wr [] (replicate (count * 128) 0)) [0..<count]
      = Some (wr (array_bytes entries count) [])"
    using write_entries_wr [OF t, of "[0..<count]" "replicate (count * 128) 0" "[]"] c
    by (simp add: array_bytes_def)
  have room: "92 \<le> bs" "bs < u64_lim" using c by auto
  have wh: "write_header (wr [] (replicate bs 0)) dg n (2 + div_ceil (count * 128) bs) count 128
      (crc32 (array_bytes entries count)) = Some (wr (header_encoded ?h) (replicate (bs - 92) 0))"
    using write_header_wr [of ?h "replicate bs 0" n "crc32 (array_bytes entries count)"] c room
    by (simp add: built_header_def)
  have d: "2 + div_ceil (count * 128) bs < u64_lim" "count * 128 < u64_lim"
    using r c by (auto simp: build_request_def)
  show ?thesis
    using b c d wh
    by (auto simp: gpt_write_def Let_def gpt_consts mul64_def add64_def get_range_def writer_new_wr f wa
        array_chunks(1) [OF r])
qed

text \<open>
  C12.  What \<open>build::write\<close> writes, the parser reads back, for every request that describes a table:
  blocks of 512 or 4096 bytes, 1 to 128 slots, room on the disk for both copies of header and array, and
  used entries inside the usable range (the builder itself does not check this, and writes tables
  the parser refuses when it is not so).  The builder then succeeds and leaves the rest of both buffers alone;
  the header parses to exactly the parameters of the table, the backup in the last block and the usable range between
  the two arrays included; the array passes its CRC; and every slot yields the entry that was put there, or a
  blank one past the last.
\<close>

theorem gpt_build_roundtrip:
  assumes "build_request dg n bs entries count"
    and "bs \<le> length header_out" "count * 128 \<le> length array_out"
  shows "\<exists>hb ab h es. gpt_write dg n bs entries count header_out array_out = Ok (hb, ab)
    \<and> drop bs hb = drop bs header_out \<and> drop (count * 128) ab = drop (count * 128) array_out
    \<and> header_parse (take bs hb) n = Ok h
    \<and> h = \<lparr>block_size = bs, disk_guid = dg, first_usable = 2 + div_ceil (count * 128) bs,
        last_usable = n - 2 - div_ceil (count * 128) bs, alternate_lba = n - 1, entries_lba = 2,
        entry_count = count, entry_size = 128, entries_crc = unat (crc32 (take (count * 128) ab))\<rparr>
    \<and> gpt_entries_of h (take (count * 128) ab) = Ok es \<and> gpt_count es = count
    \<and> list_all (\<lambda>i. gpt_get es i = Ok (entry_at entries i)) [0..<count]"
proof -
  define h where "h = built_header dg n bs entries count"
  define es where "es = \<lparr>gheader = h, garray = array_bytes entries count\<rparr>"
  note ok = built_ok [OF assms(1), folded h_def]
  from assms(1) have c: "count \<le> 128" "bs = 512 \<or> bs = 4096" "n < u64_lim" "guid_ok dg"
    by (auto simp: build_request_def)
  have hf: "disk_guid h = dg" "entry_count h = count" "entry_size h = 128" "block_size h = bs"
      "entries_crc h = unat (crc32 (array_bytes entries count))"
    by (simp_all add: h_def built_header_def)
  define hb where "hb = (header_encoded h @ replicate (bs - 92) 0) @ drop bs header_out"
  define ab where "ab = array_bytes entries count @ drop (count * 128) array_out"
  have l: "length (header_encoded h @ replicate (bs - 92) 0) = bs" using c hf by (auto simp: header_encoded_def)
  have la: "length (array_bytes entries count) = count * 128" using array_chunks(1) [OF assms(1)] by simp
  have t: "take bs hb = header_encoded h @ replicate (bs - 92) 0" "drop bs hb = drop bs header_out"
    "take (count * 128) ab = array_bytes entries count" "drop (count * 128) ab = drop (count * 128) array_out"
    using l la by (simp_all add: hb_def ab_def)
  have g: "gpt_get es i = Ok (entry_at entries i)" if "i < count" for i
    unfolding es_def using c(1) hf(2,3) that array_chunks [OF assms(1)]
    by (intro gpt_get_encoded [OF ok(2)]) simp_all
  show ?thesis
  proof (intro exI conjI)
    show "gpt_write dg n bs entries count header_out array_out = Ok (hb, ab)"
      using gpt_write_eq [OF assms] by (simp add: hb_def ab_def h_def)
    show "header_parse (take bs hb) n = Ok h"
      unfolding t using c hf by (intro header_parse_encoded [OF ok(1)]) auto
    show "h = \<lparr>block_size = bs, disk_guid = dg, first_usable = 2 + div_ceil (count * 128) bs,
        last_usable = n - 2 - div_ceil (count * 128) bs, alternate_lba = n - 1, entries_lba = 2,
        entry_count = count, entry_size = 128, entries_crc = unat (crc32 (take (count * 128) ab))\<rparr>"
      unfolding t by (simp add: h_def built_header_def)
    show "gpt_entries_of h (take (count * 128) ab) = Ok es"
      unfolding t using c hf la by (simp add: gpt_entries_of_def entries_len_def mul64_def es_def)
    show "gpt_count es = count" using hf by (simp add: gpt_count_def es_def)
    show "list_all (\<lambda>i. gpt_get es i = Ok (entry_at entries i)) [0..<count]" using g by (simp add: list_all_iff)
  qed (rule t)+
qed

text \<open>The theorem applied to a disk of 64 blocks with one EFI system partition.\<close>

theorem gpt_build_roundtrip_witness:
  "\<exists>hb ab h es. gpt_write PAGURO_VENDOR 64 512
       [\<lparr>type_guid = GPT_ESP, unique_guid = HANDOFF_TABLE, first_lba = 3, last_lba = 60,
         attributes = 0, ename = replicate 36 0x41\<rparr>] 4 (replicate 512 0) (replicate 512 0) = Ok (hb, ab)
    \<and> drop 512 hb = drop 512 (replicate 512 0) \<and> drop (4 * 128) ab = drop (4 * 128) (replicate 512 0)
    \<and> header_parse (take 512 hb) 64 = Ok h
    \<and> h = \<lparr>block_size = 512, disk_guid = PAGURO_VENDOR, first_usable = 2 + div_ceil (4 * 128) 512,
        last_usable = 64 - 2 - div_ceil (4 * 128) 512, alternate_lba = 64 - 1, entries_lba = 2,
        entry_count = 4, entry_size = 128, entries_crc = unat (crc32 (take (4 * 128) ab))\<rparr>
    \<and> gpt_entries_of h (take (4 * 128) ab) = Ok es \<and> gpt_count es = 4
    \<and> list_all (\<lambda>i. gpt_get es i = Ok (entry_at
       [\<lparr>type_guid = GPT_ESP, unique_guid = HANDOFF_TABLE, first_lba = 3, last_lba = 60,
         attributes = 0, ename = replicate 36 0x41\<rparr>] i)) [0..<4]"
  by (rule gpt_build_roundtrip)
    (simp_all add: build_request_def entry_typed_def guid_ok_def GUID_LEN_def PAGURO_VENDOR_def
      GPT_ESP_def HANDOFF_TABLE_def div_ceil_def gpt_consts)

end
