(* ===== verification/Vhd.thy ===== *)
theory Vhd
  imports Prelude Layout
begin

text \<open>
  The fixed-VHD footer, \<open>crates/paguro-core/src/vhd.rs\<close>.  A footer is a list of 512 bytes; the
  checksum is computed in 32-bit words.  The main lemma is that the footer's checks detect every
  change of a single byte.
\<close>

definition Footer :: layout where
  "Footer = [(''cookie'', 8), (''features'', 4), (''file_format_version'', 4), (''data_offset'', 8),
     (''time_stamp'', 4), (''creator_application'', 4), (''creator_version'', 4),
     (''creator_host_os'', 4), (''original_size'', 8), (''current_size'', 8),
     (''disk_geometry'', 4), (''disk_type'', 4), (''checksum'', 4), (''unique_id'', 16),
     (''saved_state'', 1), (''reserved'', 427)]"

lemma Footer_layout:
  "offset_of Footer ''current_size'' = 48" "offset_of Footer ''disk_type'' = 60"
  "offset_of Footer ''checksum'' = 64" "size_of Footer = 512"
  by (simp_all add: Footer_def)

definition FOOTER_LEN :: nat where "FOOTER_LEN = size_of Footer"
definition COOKIE :: bytes where "COOKIE = [0x63, 0x6f, 0x6e, 0x65, 0x63, 0x74, 0x69, 0x78]"
definition DISK_TYPE_FIXED :: nat where "DISK_TYPE_FIXED = 2"
definition FOOTER_COOKIE :: nat where "FOOTER_COOKIE = offset_of Footer ''cookie''"
definition FOOTER_CURRENT_SIZE :: nat where "FOOTER_CURRENT_SIZE = offset_of Footer ''current_size''"
definition FOOTER_DISK_TYPE :: nat where "FOOTER_DISK_TYPE = offset_of Footer ''disk_type''"
definition FOOTER_CHECKSUM :: nat where "FOOTER_CHECKSUM = offset_of Footer ''checksum''"
definition FOOTER_CHECKSUM_END :: nat where
  "FOOTER_CHECKSUM_END = FOOTER_CHECKSUM + field_size Footer ''checksum''"

lemma vhd_consts:
  "FOOTER_LEN = 512" "FOOTER_COOKIE = 0" "FOOTER_CURRENT_SIZE = 48" "FOOTER_DISK_TYPE = 60"
  "FOOTER_CHECKSUM = 64" "FOOTER_CHECKSUM_END = 68" "length COOKIE = 8" "DISK_TYPE_FIXED = 2"
  by (simp_all add: FOOTER_LEN_def FOOTER_COOKIE_def FOOTER_CURRENT_SIZE_def FOOTER_DISK_TYPE_def
      FOOTER_CHECKSUM_def FOOTER_CHECKSUM_END_def Footer_def COOKIE_def DISK_TYPE_FIXED_def)

datatype vhd_error = BadCookie | NotFixed nat | BadChecksum | SizeMismatch

definition be32 :: "bytes \<Rightarrow> nat \<Rightarrow> nat" where
  "be32 b at = be_val (case get_range b at (at + 4) of Some s \<Rightarrow> s | None \<Rightarrow> replicate 4 0)"

definition be64 :: "bytes \<Rightarrow> nat \<Rightarrow> nat" where
  "be64 b at = be_val (case get_range b at (at + 8) of Some s \<Rightarrow> s | None \<Rightarrow> replicate 8 0)"

definition footer_sum :: "bytes \<Rightarrow> 32 word" where
  "footer_sum f =
    fold (\<lambda>(i, b) sum. if \<not> (FOOTER_CHECKSUM \<le> i \<and> i < FOOTER_CHECKSUM_END) then sum + ucast b else sum)
      (enumerate 0 f) 0"

definition fixed_payload_len :: "bytes \<Rightarrow> nat \<Rightarrow> (vhd_error, nat) res" where
  "fixed_payload_len footer file_len =
    (if get_range footer FOOTER_COOKIE (FOOTER_COOKIE + length COOKIE) \<noteq> Some COOKIE
     then Err BadCookie else
     let disk_type = be32 footer FOOTER_DISK_TYPE in
     if disk_type \<noteq> DISK_TYPE_FIXED then Err (NotFixed disk_type) else
     let stored = be32 footer FOOTER_CHECKSUM in
     if unat (NOT (footer_sum footer)) \<noteq> stored then Err BadChecksum else
     let current_size = be64 footer FOOTER_CURRENT_SIZE in
     rbind (ok_or (checked_sub file_len FOOTER_LEN) SizeMismatch) (\<lambda>payload.
     if current_size \<noteq> payload then Err SizeMismatch else Ok payload))"

section \<open>Facts\<close>

lemma fixed_payload_len_Ok:
  "fixed_payload_len f n = Ok p \<Longrightarrow> n = p + 512"
  by (auto simp: fixed_payload_len_def Let_def rbind_eq_Ok vhd_consts split: if_splits)

lemma fixed_payload_len_not_Panic: "fixed_payload_len f n \<noteq> Panic"
proof -
  have "wp (fixed_payload_len f n) (\<lambda>_. True)" by (simp add: fixed_payload_len_def)
  then show ?thesis by (simp add: wp_True)
qed

text \<open>The sum as a sum over positions.\<close>

definition sum_weight :: "bytes \<Rightarrow> nat \<Rightarrow> 32 word" where
  "sum_weight f i = (if 64 \<le> i \<and> i < 68 then 0 else ucast (f ! i))"

lemma footer_sum_eq: "footer_sum f = (\<Sum>i<length f. sum_weight f i)"
proof -
  have "fold (\<lambda>(i, b) sum. if \<not> (64 \<le> i \<and> i < 68) then sum + ucast b else sum) (enumerate 0 f) 0
      = (\<Sum>i<length f. sum_weight f i)"
  proof (induction f rule: rev_induct)
    case (snoc b f)
    have "(\<Sum>i<length f. sum_weight (f @ [b]) i) = (\<Sum>i<length f. sum_weight f i)"
      by (intro sum.cong) (auto simp: sum_weight_def nth_append)
    with snoc show ?case by (auto simp: enumerate_append_eq sum_weight_def)
  qed simp
  then show ?thesis by (simp add: footer_sum_def vhd_consts)
qed

lemma footer_sum_update:
  assumes "i < length f" and "\<not> (64 \<le> i \<and> i < 68)"
  shows "footer_sum (f[i := b]) = footer_sum f - ucast (f ! i) + ucast b"
proof -
  have eq: "footer_sum g = sum_weight g i + (\<Sum>j\<in>{..<length f} - {i}. sum_weight g j)"
    if "length g = length f" for g
    using assms(1) that by (simp add: footer_sum_eq sum.remove)
  have "(\<Sum>j\<in>{..<length f} - {i}. sum_weight (f[i := b]) j) = (\<Sum>j\<in>{..<length f} - {i}. sum_weight f j)"
    by (intro sum.cong) (auto simp: sum_weight_def)
  with eq [of f] eq [of "f[i := b]"] assms show ?thesis
    by (simp add: sum_weight_def)
qed

lemma be_val_inj: "length a = length b \<Longrightarrow> be_val a = be_val b \<Longrightarrow> a = b"
  by (metis be_val_def le_bytes_le_val length_rev rev_rev_ident)

lemma checksum_bytes_change:
  assumes l: "length f = 512" and i: "64 \<le> i" "i < 68" and b: "b \<noteq> f ! i"
  shows "be32 (f[i := b]) 64 \<noteq> be32 f 64"
proof
  let ?g = "f[i := b]"
  assume "be32 ?g 64 = be32 f 64"
  then have "be_val (take 4 (drop 64 ?g)) = be_val (take 4 (drop 64 f))"
    using l by (simp add: be32_def get_range_def)
  then have "take 4 (drop 64 ?g) = take 4 (drop 64 f)" using l by (intro be_val_inj) simp_all
  then have "take 4 (drop 64 ?g) ! (i - 64) = take 4 (drop 64 f) ! (i - 64)" by simp
  then show False using i l b by simp
qed

lemma ucast_byte_inj: "(ucast (a :: byte) :: 32 word) = ucast b \<Longrightarrow> a = b"
proof (rule bit_word_eqI)
  fix n
  assume eq: "(ucast a :: 32 word) = ucast b" and n: "n < LENGTH(8)"
  then have "bit (ucast a :: 32 word) n = bit (ucast b :: 32 word) n" by simp
  with n show "bit a n = bit b n" by (simp add: bit_unsigned_iff)
qed

text \<open>
  C15.  The footer check detects every one-byte change: if a footer is accepted, the same footer
  with any single byte replaced by a different one is refused, for the same file length.
\<close>

theorem vhd_single_byte_detected:
  assumes "length f = 512" and "fixed_payload_len f n = Ok p" and "i < 512" and "b \<noteq> f ! i"
  shows "\<exists>e. fixed_payload_len (f[i := b]) n = Err e"
proof -
  have "fixed_payload_len (f[i := b]) n \<noteq> Ok q" for q
  proof
    assume g: "fixed_payload_len (f[i := b]) n = Ok q"
    from assms(2) have f1: "unat (NOT (footer_sum f)) = be32 f 64"
      by (auto simp: fixed_payload_len_def Let_def vhd_consts split: if_splits)
    from g have g1: "unat (NOT (footer_sum (f[i := b]))) = be32 (f[i := b]) 64"
      by (auto simp: fixed_payload_len_def Let_def vhd_consts split: if_splits)
    show False
    proof (cases "64 \<le> i \<and> i < 68")
      case True
      have "footer_sum (f[i := b]) = footer_sum f"
        unfolding footer_sum_eq using True
        by (auto intro!: sum.cong simp: sum_weight_def nth_list_update)
      with f1 g1 checksum_bytes_change [of f i b] assms True show False by simp
    next
      case False
      have "be32 (f[i := b]) 64 = be32 f 64"
        using False by (cases "i < 64") (simp_all add: be32_def get_range_def drop_update_swap)
      with f1 g1 have "NOT (footer_sum (f[i := b])) = NOT (footer_sum f)"
        by (simp add: word_unat_eq_iff)
      then have "footer_sum (f[i := b]) = footer_sum f" by (metis bit.double_compl)
      with footer_sum_update [of i f b] assms False have "(ucast b :: 32 word) = ucast (f ! i)"
        by (simp add: algebra_simps)
      with assms(4) show False using ucast_byte_inj by blast
    qed
  qed
  then show ?thesis using fixed_payload_len_not_Panic by (metis res.exhaust)
qed

text \<open>A minimal footer of an empty disk (512-byte file), and a change of one reserved byte.\<close>

definition sample_footer :: bytes where
  "sample_footer = COOKIE @ replicate 52 0 @ [0, 0, 0, 2] @ [0xff, 0xff, 0xfc, 0xa0] @ replicate 444 0"

lemma footer_sum_parts:
  assumes "length p = 64" "length c = 4"
  shows "footer_sum (p @ c @ q) = sum_list (map ucast p) + sum_list (map ucast q)"
proof -
  define f where "f = (\<lambda>(i :: nat, b :: byte) sum. if \<not> (64 \<le> i \<and> i < 68) then sum + ucast b else (sum :: 32 word))"
  have f: "f (i, b) a = (if 64 \<le> i \<and> i < 68 then a else a + ucast b)" for i b a by (auto simp: f_def)
  have below: "fold f (enumerate n xs) a = a + sum_list (map ucast xs)" if "n + length xs \<le> 64" for xs a n
    using that by (induction xs arbitrary: n a) (simp_all add: f add.assoc)
  have inside: "fold f (enumerate n xs) a = a" if "64 \<le> n" "n + length xs \<le> 68" for xs a n
    using that by (induction xs arbitrary: n) (simp_all add: f)
  have above: "fold f (enumerate n xs) a = a + sum_list (map ucast xs)" if "68 \<le> n" for xs a n
    using that by (induction xs arbitrary: n a) (simp_all add: f add.assoc)
  have "footer_sum (p @ c @ q) = fold f (enumerate 0 (p @ c @ q)) 0"
    by (simp only: footer_sum_def vhd_consts f_def)
  then show ?thesis
    using assms by (simp add: enumerate_append_eq below inside above)
qed

lemma sample_footer_accepted: "fixed_payload_len sample_footer 512 = Ok 0"
proof -
  have "footer_sum sample_footer = 863"
    using footer_sum_parts [of "COOKIE @ replicate 52 0 @ [0, 0, 0, 2]" "[0xff, 0xff, 0xfc, 0xa0]" "replicate 444 0"]
    by (simp add: sample_footer_def vhd_consts sum_list_replicate) (simp add: COOKIE_def)
  then show ?thesis
    by (simp add: fixed_payload_len_def Let_def vhd_consts get_range_def be32_def be64_def be_val_def
        sample_footer_def checked_sub_def le_val_zeros)
qed

theorem vhd_single_byte_detected_witness:
  "\<exists>e. fixed_payload_len (sample_footer[100 := 1]) 512 = Err e"
proof (rule vhd_single_byte_detected [OF _ sample_footer_accepted])
  show "length sample_footer = 512" by (simp add: sample_footer_def vhd_consts)
  show "1 \<noteq> sample_footer ! 100" by (simp add: sample_footer_def nth_append vhd_consts)
qed simp

end
