(* ===== verification/Disk.thy ===== *)
theory Disk
  imports Gpt Vhd
begin

text \<open>
  Disk images, \<open>crates/paguro-core/src/disk.rs\<close>: the format of an image file (\<open>detect\<close>), the
  strict FAT32 boot-sector parser (\<open>parse_fat32\<close>), and where inside a payload the FAT32 with the
  next UEFI image lies (\<open>classify\<close>).

  The lemmas: a FAT32 that is accepted is geometrically consistent (its metadata and all its
  clusters lie inside the space it was given, and every cluster has a FAT entry); the range that
  \<open>classify\<close> selects lies inside the payload; the ESP it selects is the only one; and nothing
  panics on any bytes.
\<close>

section \<open>Layout and constants\<close>

definition SECTOR :: nat where "SECTOR = 512"
definition HEAD_LEN :: nat where "HEAD_LEN = 2 * SECTOR + MAX_ENTRY_ARRAY"

definition Fat32BootSector :: layout where
  "Fat32BootSector = [(''bs_jmp_boot'', 3), (''bs_oem_name'', 8), (''bpb_byts_per_sec'', 2),
     (''bpb_sec_per_clus'', 1), (''bpb_rsvd_sec_cnt'', 2), (''bpb_num_fats'', 1),
     (''bpb_root_ent_cnt'', 2), (''bpb_tot_sec16'', 2), (''bpb_media'', 1), (''bpb_fat_sz16'', 2),
     (''bpb_sec_per_trk'', 2), (''bpb_num_heads'', 2), (''bpb_hidd_sec'', 4),
     (''bpb_tot_sec32'', 4), (''bpb_fat_sz32'', 4), (''bpb_ext_flags'', 2), (''bpb_fs_ver'', 2),
     (''bpb_root_clus'', 4), (''bpb_fs_info'', 2), (''bpb_bk_boot_sec'', 2),
     (''bpb_reserved'', 12), (''bs_drv_num'', 1), (''bs_reserved1'', 1), (''bs_boot_sig'', 1),
     (''bs_vol_id'', 4), (''bs_vol_lab'', 11), (''bs_fil_sys_type'', 8), (''boot_code'', 420),
     (''signature_word'', 2)]"

lemma Fat32BootSector_layout:
  "offset_of Fat32BootSector ''bpb_byts_per_sec'' = 11"
  "offset_of Fat32BootSector ''bpb_tot_sec32'' = 32"
  "offset_of Fat32BootSector ''bpb_root_clus'' = 44"
  "offset_of Fat32BootSector ''bs_boot_sig'' = 66"
  "offset_of Fat32BootSector ''bs_fil_sys_type'' = 82"
  "offset_of Fat32BootSector ''signature_word'' = 510"
  "size_of Fat32BootSector = 512"
  by (simp_all add: Fat32BootSector_def)

definition BOOT_SIGNATURE_OFFSET :: nat where
  "BOOT_SIGNATURE_OFFSET = offset_of Fat32BootSector ''signature_word''"
definition BOOT_SIGNATURE :: bytes where "BOOT_SIGNATURE = [0x55, 0xAA]"
definition JMP_SHORT :: byte where "JMP_SHORT = 0xEB"
definition JMP_NOP :: byte where "JMP_NOP = 0x90"
definition JMP_NEAR :: byte where "JMP_NEAR = 0xE9"
definition JMP_NOP_OFFSET :: nat where
  "JMP_NOP_OFFSET = offset_of Fat32BootSector ''bs_jmp_boot'' + 2"
definition BYTES_PER_SECTOR :: nat where
  "BYTES_PER_SECTOR = offset_of Fat32BootSector ''bpb_byts_per_sec''"
definition GEOMETRY_LEN :: nat where
  "GEOMETRY_LEN = offset_of Fat32BootSector ''bpb_tot_sec32''
     - offset_of Fat32BootSector ''bpb_sec_per_trk''"
definition BOOT_SIG :: nat where "BOOT_SIG = offset_of Fat32BootSector ''bs_boot_sig''"
definition EXTENDED_BOOT_SIG :: byte where "EXTENDED_BOOT_SIG = 0x29"
definition FS_TYPE :: nat where "FS_TYPE = offset_of Fat32BootSector ''bs_fil_sys_type''"
definition FS_TYPE_FAT32 :: bytes where
  "FS_TYPE_FAT32 = [0x46, 0x41, 0x54, 0x33, 0x32, 0x20, 0x20, 0x20]"
definition MEDIA_REMOVABLE :: nat where "MEDIA_REMOVABLE = 0xF0"
definition MEDIA_MIN_FIXED :: nat where "MEDIA_MIN_FIXED = 0xF8"
definition MAX_CLUSTER_BYTES :: nat where "MAX_CLUSTER_BYTES = 64 * 1024"
definition FIRST_CLUSTER :: nat where "FIRST_CLUSTER = 2"
definition FAT_ENTRY_LEN :: nat where "FAT_ENTRY_LEN = 4"

section \<open>Image format\<close>

datatype disk_format = Vhd | Raw

record payload =
  pformat :: disk_format
  plen :: nat

definition detect :: "nat \<Rightarrow> bytes \<Rightarrow> payload" where
  "detect file_len tail =
    (case fixed_payload_len tail file_len of
      Ok n \<Rightarrow> \<lparr>pformat = Vhd, plen = n\<rparr>
    | _ \<Rightarrow> \<lparr>pformat = Raw, plen = file_len\<rparr>)"

section \<open>FAT32 boot sectors\<close>

record fat32 =
  bytes_per_sector :: nat
  sectors_per_cluster :: nat
  reserved_sectors :: nat
  fats :: nat
  fat_sectors :: nat
  total_sectors :: nat
  root_cluster :: nat
  clusters :: nat

datatype fat32_error = Truncated | BadJump | BadSignature | BytesPerSector | SectorsPerCluster
  | ReservedSectors | FatCount | Media | NotFat32 | Version | ExtendedSignature | FsType
  | TotalSectors | NoData | FatSize | RootCluster

text \<open>The last checks and the result, over the fields read from the sector.\<close>

definition fat32_geometry ::
  "nat \<Rightarrow> nat \<Rightarrow> nat \<Rightarrow> nat \<Rightarrow> nat \<Rightarrow> nat \<Rightarrow> nat \<Rightarrow> nat \<Rightarrow> (fat32_error, fat32) res" where
  "fat32_geometry space bps spc reserved nfats tot fsec root =
    rbind (mul64 tot bps) (\<lambda>sz.
    if tot = 0 \<or> sz > space then Err TotalSectors else
    rbind (mul64 nfats fsec) (\<lambda>ff.
    rbind (add64 reserved ff) (\<lambda>meta.
    rbind (ok_or (case checked_sub tot meta of
             None \<Rightarrow> None
           | Some d \<Rightarrow> if d \<ge> spc then Some d else None) NoData) (\<lambda>data.
    if spc = 0 then Panic else
    let q = data div spc; ncl = (if q < u32_lim then q else u32_lim - 1) in
    rbind (mul64 fsec bps) (\<lambda>fb.
    let fat_entries = fb div FAT_ENTRY_LEN in
    rbind (add64 ncl FIRST_CLUSTER) (\<lambda>cluster_end.
    if fsec = 0 \<or> fat_entries < cluster_end then Err FatSize else
    if root < FIRST_CLUSTER \<or> root \<ge> cluster_end then Err RootCluster else
    Ok \<lparr>bytes_per_sector = bps, sectors_per_cluster = spc, reserved_sectors = reserved,
        fats = nfats, fat_sectors = fsec, total_sectors = tot, root_cluster = root,
        clusters = ncl\<rparr>))))))"

definition parse_fat32 :: "bytes \<Rightarrow> nat \<Rightarrow> (fat32_error, fat32) res" where
  "parse_fat32 sec space =
    rbind (ok_or (get_range sec 0 SECTOR) Truncated) (\<lambda>s.
    let at = (\<lambda>i. case nth_opt s i of Some b \<Rightarrow> b | None \<Rightarrow> 0);
        jump_ok = ((at 0 = JMP_SHORT \<and> at JMP_NOP_OFFSET = JMP_NOP) \<or> at 0 = JMP_NEAR) in
    if \<not> jump_ok then Err BadJump else
    if get_range s BOOT_SIGNATURE_OFFSET (BOOT_SIGNATURE_OFFSET + length BOOT_SIGNATURE)
         \<noteq> Some BOOT_SIGNATURE then Err fat32_error.BadSignature else
    let r = reader_new (case get_range s BYTES_PER_SECTOR (length s) of Some t \<Rightarrow> t | None \<Rightarrow> []) in
    rdo (r_u16_le r) Truncated (\<lambda>bps r.
    rdo (r_u8 r) Truncated (\<lambda>spc r.
    rdo (r_u16_le r) Truncated (\<lambda>reserved r.
    rdo (r_u8 r) Truncated (\<lambda>nfats r.
    rdo (r_u16_le r) Truncated (\<lambda>root_entries r.
    rdo (r_u16_le r) Truncated (\<lambda>total16 r.
    rdo (r_u8 r) Truncated (\<lambda>media r.
    rdo (r_u16_le r) Truncated (\<lambda>fat16_size r.
    rdo (rtake GEOMETRY_LEN r) Truncated (\<lambda>_ r.
    rdo (r_u32_le r) Truncated (\<lambda>tot r.
    rdo (r_u32_le r) Truncated (\<lambda>fsec r.
    rdo (r_u16_le r) Truncated (\<lambda>_ r.
    rdo (r_u16_le r) Truncated (\<lambda>version r.
    rdo (r_u32_le r) Truncated (\<lambda>root _.
    if \<not> (bps = 512 \<or> bps = 1024 \<or> bps = 2048 \<or> bps = 4096) then Err BytesPerSector else
    rbind (mul32 spc bps) (\<lambda>cluster_bytes.
    if \<not> is_power_of_two spc \<or> cluster_bytes > MAX_CLUSTER_BYTES then Err SectorsPerCluster else
    if reserved = 0 then Err ReservedSectors else
    if nfats \<noteq> 1 \<and> nfats \<noteq> 2 then Err FatCount else
    if media \<noteq> MEDIA_REMOVABLE \<and> media < MEDIA_MIN_FIXED then Err Media else
    if root_entries \<noteq> 0 \<or> total16 \<noteq> 0 \<or> fat16_size \<noteq> 0 then Err NotFat32 else
    if version \<noteq> 0 then Err Version else
    if at BOOT_SIG \<noteq> EXTENDED_BOOT_SIG then Err ExtendedSignature else
    if get_range s FS_TYPE (FS_TYPE + length FS_TYPE_FAT32) \<noteq> Some FS_TYPE_FAT32 then Err FsType else
    fat32_geometry space bps spc reserved nfats tot fsec root))))))))))))))))"

section \<open>Where the EFI file system is\<close>

datatype efi_fs = Esp nat nat | Superfloppy fat32

definition efi_fs_range :: "efi_fs \<Rightarrow> (fat32_error, nat \<times> nat) res" where
  "efi_fs_range f = (case f of
      Esp first sectors \<Rightarrow> Ok (saturating_mul first SECTOR, saturating_mul sectors SECTOR)
    | Superfloppy f \<Rightarrow> rbind (mul64 (total_sectors f) (bytes_per_sector f)) (\<lambda>n. Ok (0, n)))"

datatype disk_error = TooSmall | DGpt gpt_error | EntryArrayOutsideHead | NoEsp | SeveralEsps
  | DFat32 fat32_error | Unrecognised

fun find_esp :: "gpt_entries \<Rightarrow> nat list \<Rightarrow> efi_fs option \<Rightarrow> (disk_error, efi_fs option) res" where
  "find_esp es [] esp = Ok esp"
| "find_esp es (i # is) esp =
    rbind (map_err DGpt (gpt_get es i)) (\<lambda>e.
    if is_unused e \<or> type_guid e \<noteq> GPT_ESP then find_esp es is esp
    else if esp \<noteq> None then Err SeveralEsps
    else find_esp es is (Some (Esp (first_lba e) (entry_sectors e))))"

definition classify_gpt :: "bytes \<Rightarrow> bytes \<Rightarrow> nat \<Rightarrow> (disk_error, efi_fs) res" where
  "classify_gpt head block nblocks =
    rbind (map_err DGpt (header_parse block nblocks)) (\<lambda>hdr.
    rbind (ok_or (checked_mul (entries_lba hdr) SECTOR) EntryArrayOutsideHead) (\<lambda>start.
    rbind (map_err DGpt (entries_len hdr)) (\<lambda>n.
    rbind (ok_or (case checked_add start n of None \<Rightarrow> None | Some e \<Rightarrow> get_range head start e)
             EntryArrayOutsideHead) (\<lambda>a.
    rbind (map_err DGpt (gpt_entries_of hdr a)) (\<lambda>es.
    rbind (find_esp es [0..<gpt_count es] None) (\<lambda>esp. ok_or esp NoEsp))))))"

definition classify :: "nat \<Rightarrow> bytes \<Rightarrow> (disk_error, efi_fs) res" where
  "classify payload_len head0 =
    (let head = (case get_range head0 0 (min (length head0) payload_len) of Some h \<Rightarrow> h | None \<Rightarrow> []);
         nblocks = payload_len div SECTOR in
     rbind (ok_or (get_range head 0 SECTOR) TooSmall) (\<lambda>lba0.
     let superfloppy = (case parse_fat32 lba0 payload_len of
             Ok f \<Rightarrow> Ok (Superfloppy f)
           | Err e \<Rightarrow> (if e = BadJump then Err Unrecognised else Err (DFat32 e))
           | Panic \<Rightarrow> Panic) in
     case get_range head SECTOR (2 * SECTOR) of
       None \<Rightarrow> superfloppy
     | Some block \<Rightarrow>
         if get_range block 0 (length SIGNATURE) = Some SIGNATURE
         then classify_gpt head block nblocks else superfloppy))"

section \<open>Facts\<close>

lemma disk_consts:
  "SECTOR = 512" "HEAD_LEN = 17408" "FIRST_CLUSTER = 2" "FAT_ENTRY_LEN = 4"
  "MAX_CLUSTER_BYTES = 65536"
  by (simp_all add: SECTOR_def HEAD_LEN_def gpt_consts FIRST_CLUSTER_def FAT_ENTRY_LEN_def
      MAX_CLUSTER_BYTES_def)

text \<open>
  A consistent FAT32: the reserved area, the FATs and all clusters lie in the volume, the volume
  lies in its space, every cluster has its FAT entry and the root directory starts in one of them.
\<close>

definition fat32_ok :: "nat \<Rightarrow> fat32 \<Rightarrow> bool" where
  "fat32_ok space f \<longleftrightarrow>
     bytes_per_sector f \<in> {512, 1024, 2048, 4096}
   \<and> is_power_of_two (sectors_per_cluster f)
   \<and> sectors_per_cluster f * bytes_per_sector f \<le> MAX_CLUSTER_BYTES
   \<and> 0 < reserved_sectors f \<and> fats f \<in> {1, 2}
   \<and> 0 < clusters f
   \<and> reserved_sectors f + fats f * fat_sectors f + clusters f * sectors_per_cluster f \<le> total_sectors f
   \<and> total_sectors f * bytes_per_sector f \<le> space
   \<and> FAT_ENTRY_LEN * (clusters f + FIRST_CLUSTER) \<le> fat_sectors f * bytes_per_sector f
   \<and> FIRST_CLUSTER \<le> root_cluster f \<and> root_cluster f < clusters f + FIRST_CLUSTER
   \<and> total_sectors f < u32_lim"

lemma fat32_result_ok:
  assumes "bps \<in> {512, 1024, 2048, 4096}" "is_power_of_two spc" "spc * bps \<le> MAX_CLUSTER_BYTES"
    and "0 < reserved" "nfats \<in> {1, 2}" "tot < u32_lim" "tot * bps \<le> space"
    and "reserved + nfats * fsec + k * spc \<le> tot" "0 < k"
    and "k + 2 \<le> fsec * bps div 4" "2 \<le> root" "root < k + 2"
  shows "fat32_ok space \<lparr>bytes_per_sector = bps, sectors_per_cluster = spc,
    reserved_sectors = reserved, fats = nfats, fat_sectors = fsec, total_sectors = tot,
    root_cluster = root, clusters = k\<rparr>"
  using assms by (simp add: fat32_ok_def disk_consts less_eq_div_iff_mult_less_eq)

lemma data_sectors:
  "(case checked_sub tot meta of None \<Rightarrow> None | Some d \<Rightarrow> if spc \<le> d then Some d else None) = Some d
    \<longleftrightarrow> meta \<le> tot \<and> d = tot - meta \<and> spc \<le> d"
  by (auto simp: checked_sub_def)

lemma cluster_count:
  assumes "meta \<le> tot" "spc \<le> tot - meta" "0 < spc" "tot < u32_lim"
  shows "0 < (tot - meta) div spc" "(tot - meta) div spc < u32_lim"
    and "meta + (tot - meta) div spc * spc \<le> tot"
proof -
  have "(tot - meta) div spc \<le> tot - meta" "(tot - meta) div spc * spc \<le> tot - meta" by simp_all
  with assms show "(tot - meta) div spc < u32_lim" "meta + (tot - meta) div spc * spc \<le> tot"
    by linarith+
qed (use assms in \<open>simp add: div_greater_zero_iff\<close>)

lemma fat32_geometry_wp:
  assumes "bps \<in> {512, 1024, 2048, 4096}" "is_power_of_two spc" "spc * bps \<le> MAX_CLUSTER_BYTES"
    and "0 < reserved" "reserved < u16_lim" "nfats \<in> {1, 2}" "tot < u32_lim" "fsec < u32_lim"
  shows "wp (fat32_geometry space bps spc reserved nfats tot fsec root) (fat32_ok space)"
proof -
  from assms(1) have "bps < u16_lim" by auto
  then have m: "tot * bps < u64_lim" "fsec * bps < u64_lim" using u32_u16_mul assms(7,8) by blast+
  have spc: "0 < spc" using assms(2) by (auto simp: is_power_of_two_def intro: Nat.gr0I)
  have meta: "nfats * fsec < u64_lim" "reserved + nfats * fsec < u64_lim" using assms(5,6,8) by auto
  show ?thesis
    unfolding fat32_geometry_def using m meta spc
    by (auto simp: disk_consts data_sectors cluster_count [OF _ _ spc assms(7)] Suc_le_eq
        intro!: fat32_result_ok [OF assms(1-4,6,7)] less_trans [OF cluster_count(2) [OF _ _ spc assms(7)]])
qed

lemma parse_fat32_wp: "wp (parse_fat32 sec space) (fat32_ok space)"
  unfolding parse_fat32_def
  by (auto simp: u8_u16_mul MEDIA_MIN_FIXED_def intro!: fat32_geometry_wp
      dest!: r_u8_SomeD r_u16_le_SomeD r_u32_le_SomeD rtake_SomeD)

text \<open>
  The ESPs of a table, in order: the used entries of the ESP type among those that can be read.
\<close>

definition is_esp :: "gpt_entries \<Rightarrow> nat \<Rightarrow> bool" where
  "is_esp es i \<longleftrightarrow> (case gpt_get es i of Ok e \<Rightarrow> \<not> is_unused e \<and> type_guid e = GPT_ESP | _ \<Rightarrow> False)"

lemma find_esp_already:
  "find_esp es is (Some x) = Ok r \<Longrightarrow> r = Some x \<and> filter (is_esp es) is = []"
  by (induction "is") (auto simp: rbind_eq_Ok is_esp_def split: if_splits)

lemma find_esp_unique:
  "find_esp es is None = Ok (Some (Esp f n)) \<Longrightarrow>
    \<exists>i e. filter (is_esp es) is = [i] \<and> gpt_get es i = Ok e \<and> f = first_lba e \<and> n = entry_sectors e"
  by (induction "is")
    (auto simp: rbind_eq_Ok is_esp_def split: if_splits dest!: find_esp_already)

lemma find_esp_shape: "find_esp es is x = Ok (Some y) \<Longrightarrow> x = Some y \<or> (\<exists>f n. y = Esp f n)"
  by (induction "is" arbitrary: x) (auto simp: rbind_eq_Ok split: if_splits)

lemma find_esp_not_Panic: "header_ok n (gheader es) \<Longrightarrow> find_esp es is x \<noteq> Panic"
proof (induction "is" arbitrary: x)
  case (Cons i "is")
  have "gpt_get es i \<noteq> Panic" by (rule wp_not_Panic [OF gpt_get_wp [OF Cons.prems]])
  with Cons show ?case by (cases "gpt_get es i") auto
qed simp

text \<open>What \<open>classify\<close> promises of the file system it selects.\<close>

definition esp_of :: "gpt_entries \<Rightarrow> nat \<Rightarrow> nat \<Rightarrow> bool" where
  "esp_of es f n \<longleftrightarrow> (\<exists>i e. filter (is_esp es) [0..<gpt_count es] = [i] \<and> gpt_get es i = Ok e
     \<and> f = first_lba e \<and> n = entry_sectors e)"

lemma esp_bounds:
  assumes h: "header_ok n (gheader es)" and e: "esp_of es f k"
  shows "f + k \<le> n \<and> 0 < k \<and> k \<le> n"
proof -
  from e obtain i x where x: "filter (is_esp es) [0..<gpt_count es] = [i]" "gpt_get es i = Ok x"
    "f = first_lba x" "k = entry_sectors x" by (auto simp: esp_of_def)
  from x(1) have "i \<in> set (filter (is_esp es) [0..<gpt_count es])" by simp
  then have "is_esp es i" by simp
  with x(2) have u: "\<not> is_unused x" by (simp add: is_esp_def)
  have "entry_ok (gheader es) x" using wp_OkD [OF gpt_get_wp [OF h] x(2)] by simp
  with u h x show ?thesis
    by (auto simp: entry_ok_def in_usable_def header_ok_def entry_sectors_def saturating_add_def
        saturating_sub_def)
qed

text \<open>
  The table in the front of a payload: the header in block 1, and the array where the header says,
  both verified.
\<close>

definition head_table :: "bytes \<Rightarrow> nat \<Rightarrow> gpt_entries \<Rightarrow> bool" where
  "head_table head n es \<longleftrightarrow> (\<exists>h. header_parse (take SECTOR (drop SECTOR head)) n = Ok h
     \<and> gpt_entries_of h (take (entry_count h * entry_size h) (drop (entries_lba h * SECTOR) head)) = Ok es)"

definition esp_found :: "bytes \<Rightarrow> nat \<Rightarrow> efi_fs \<Rightarrow> bool" where
  "esp_found head n r \<longleftrightarrow> (\<exists>f k es. r = Esp f k \<and> f + k \<le> n \<and> 0 < k \<and> head_table head n es \<and> esp_of es f k)"

lemma find_esp_wp:
  assumes "header_ok n (gheader es)"
  shows "wp (find_esp es [0..<gpt_count es] None) (\<lambda>x. \<forall>r. x = Some r \<longrightarrow>
    (\<exists>f k. r = Esp f k \<and> f + k \<le> n \<and> 0 < k \<and> esp_of es f k))"
proof (rule wpI [OF find_esp_not_Panic [OF assms]], intro allI impI)
  fix x r
  assume x: "find_esp es [0..<gpt_count es] None = Ok x" "x = Some r"
  then obtain f k where r: "r = Esp f k" using find_esp_shape by blast
  with x have "esp_of es f k" unfolding esp_of_def by (intro find_esp_unique) simp
  with esp_bounds [OF assms this] r
  show "\<exists>f k. r = Esp f k \<and> f + k \<le> n \<and> 0 < k \<and> esp_of es f k" by blast
qed

lemma entries_len_wp: "header_ok n h \<Longrightarrow> wp (entries_len h) Q \<longleftrightarrow> Q (entry_count h * entry_size h)"
  by (auto simp: entries_len_def header_ok_def gpt_consts)

lemma classify_gpt_wp:
  assumes block: "get_range head SECTOR (2 * SECTOR) = Some block"
  shows "wp (classify_gpt head block n) (esp_found head n)"
  unfolding classify_gpt_def wp_rbind wp_map_err
proof (rule wp_conseq [OF header_parse_wp], rule wp_ok_orI)
  fix h start
  assume h: "header_parse block n = Ok h" "header_ok n h"
    and start: "checked_mul (entries_lba h) SECTOR = Some start"
  have b: "block = take SECTOR (drop SECTOR head)" using block by (auto simp: get_range_Some_iff)
  have "wp (gpt_entries_of h a) (\<lambda>es. wp (find_esp es [0..<gpt_count es] None)
      (\<lambda>esp. wp (ok_or esp NoEsp) (esp_found head n)))"
    if a: "a = take (entry_count h * entry_size h) (drop start head)" for a
  proof (rule wp_conseq [OF entries_wp [OF h(2)]])
    fix es :: gpt_entries
    assume es: "gpt_entries_of h a = Ok es" "gheader es = h \<and> garray es = a
      \<and> length a = entry_count h * entry_size h \<and> unat (crc32_serial a) = entries_crc h"
    then have ok: "header_ok n (gheader es)" using h(2) by simp
    have "head_table head n es" using h(1) es(1) a start by (auto simp: head_table_def b)
    then show "wp (find_esp es [0..<gpt_count es] None) (\<lambda>esp. wp (ok_or esp NoEsp) (esp_found head n))"
      by (intro wp_conseq [OF find_esp_wp [OF ok]] wp_ok_orI) (auto simp: esp_found_def)
  qed
  then show "wp (entries_len h) (\<lambda>m. wp (ok_or (case checked_add start m of None \<Rightarrow> None
      | Some e \<Rightarrow> get_range head start e) EntryArrayOutsideHead) (\<lambda>a. wp (gpt_entries_of h a)
      (\<lambda>es. wp (find_esp es [0..<gpt_count es] None) (\<lambda>esp. wp (ok_or esp NoEsp) (esp_found head n)))))"
    unfolding entries_len_wp [OF h(2)] by (intro wp_ok_orI) (auto simp: get_range_Some_iff split: option.splits)
qed

text \<open>
  What \<open>classify\<close> promises of the file system it selects in a payload with the given front: an
  ESP is the only one of the table there, a FAT32 is what the first sector describes.
\<close>

definition efi_fs_ok :: "nat \<Rightarrow> bytes \<Rightarrow> efi_fs \<Rightarrow> bool" where
  "efi_fs_ok payload_len head r \<longleftrightarrow>
     (\<exists>off n. efi_fs_range r = Ok (off, n) \<and> 0 < n \<and> off + n \<le> payload_len)
   \<and> (case r of
        Esp f k \<Rightarrow> esp_found head (payload_len div SECTOR) r
      | Superfloppy f \<Rightarrow> fat32_ok payload_len f \<and> parse_fat32 (take SECTOR head) payload_len = Ok f)"

text \<open>
  C14.  On any bytes, and for any payload length, \<open>classify\<close> does not panic, and the byte range of
  the file system it selects is not empty and lies inside the payload.  When it selects an ESP, the front of
  the payload has a verified GPT, header in block 1 and array where the header says, and the ESP is
  the only one among that table's entries; when it selects the whole payload, it is the FAT32 that the first
  sector describes, and that is consistent.  Bytes of the front past the payload's end play no part.
\<close>

theorem classify_inside: "wp (classify payload_len head) (efi_fs_ok payload_len (take payload_len head))"
proof -
  let ?h = "take payload_len head"
  have esp: "efi_fs_ok payload_len ?h r" if e: "esp_found ?h (payload_len div 512) r" for r
  proof -
    from e obtain f k where r: "r = Esp f k" and b: "f + k \<le> payload_len div 512" "0 < k"
      by (auto simp: esp_found_def)
    from b(1) have "(f + k) * 512 \<le> payload_len" by (simp add: less_eq_div_iff_mult_less_eq)
    then have "saturating_mul f 512 + saturating_mul k 512 \<le> payload_len" "0 < saturating_mul k 512"
      using b(2) by (auto simp: saturating_mul_def)
    with e r show ?thesis by (auto simp: efi_fs_ok_def efi_fs_range_def disk_consts)
  qed
  have floppy: "efi_fs_ok payload_len ?h (Superfloppy f)"
    if f: "fat32_ok payload_len f" "parse_fat32 (take SECTOR ?h) payload_len = Ok f" for f
  proof -
    from f have "total_sectors f * bytes_per_sector f < u64_lim"
      by (intro u32_u16_mul) (auto simp: fat32_ok_def)
    moreover from f have "0 < total_sectors f * bytes_per_sector f" by (auto simp: fat32_ok_def)
    ultimately show ?thesis using f by (simp add: efi_fs_ok_def efi_fs_range_def mul64_def fat32_ok_def)
  qed
  have sf: "wp (case parse_fat32 (take SECTOR ?h) payload_len of Ok f \<Rightarrow> Ok (Superfloppy f)
      | Err e \<Rightarrow> (if e = BadJump then Err Unrecognised else Err (DFat32 e)) | Panic \<Rightarrow> Panic)
      (efi_fs_ok payload_len ?h)"
    using parse_fat32_wp [of "take SECTOR ?h" payload_len] floppy
    by (cases "parse_fat32 (take SECTOR ?h) payload_len") auto
  have head: "(case get_range head 0 (min (length head) payload_len) of Some h \<Rightarrow> h | None \<Rightarrow> []) = ?h"
    by (simp add: get_range_def min_def)
  have gpt: "wp (classify_gpt ?h block (payload_len div SECTOR)) (efi_fs_ok payload_len ?h)"
    if "get_range ?h SECTOR (2 * SECTOR) = Some block" for block
    using esp by (intro wp_conseq [OF classify_gpt_wp [OF that]]) (simp add: disk_consts)
  have lba0: "x = take SECTOR ?h" if "get_range ?h 0 SECTOR = Some x" for x
    using that by (auto simp: get_range_Some_iff)
  show ?thesis
    unfolding classify_def Let_def wp_rbind head
    by (intro wp_ok_orI) (use sf gpt in \<open>auto dest!: lba0 simp del: wp_case_option split: option.split\<close>)
qed

text \<open>The payload \<open>detect\<close> reports is the file, or all of it but a 512-byte footer that was accepted.\<close>

lemma detect_payload:
  "plen (detect n f) = (if pformat (detect n f) = Vhd then n - 512 else n)"
  "pformat (detect n f) = Vhd \<longleftrightarrow> fixed_payload_len f n = Ok (n - 512)"
  using fixed_payload_len_Ok [of f n] fixed_payload_len_not_Panic [of f n]
  by (auto simp: detect_def split: res.splits)

end
