(* ===== verification/Utf8.thy ===== *)
theory Utf8
  imports Prelude
begin

text \<open>
  Rust's \<open>str\<close>: a list of Unicode scalar values, as \<open>chars()\<close> yields them, with its UTF-8 bytes.
  \<open>from_utf8\<close> is the standard library's validation (the well-formed byte sequences of the Unicode
  standard, table 3-7); it is proved to accept exactly the encodings of lists of scalar values.
  The string operations the parsers use (\<open>trim\<close>, \<open>strip_prefix\<close>, \<open>split\<close>, \<open>split_once\<close>) follow.
\<close>

type_synonym str = "nat list"

definition is_scalar :: "nat \<Rightarrow> bool" where
  "is_scalar c \<longleftrightarrow> c < 0xD800 \<or> 0xE000 \<le> c \<and> c < 0x110000"

definition utf8_char :: "nat \<Rightarrow> bytes" where
  "utf8_char c = map word_of_nat
    (if c < 0x80 then [c]
     else if c < 0x800 then [0xC0 + c div 64, 0x80 + c mod 64]
     else if c < 0x10000 then [0xE0 + c div 4096, 0x80 + c div 64 mod 64, 0x80 + c mod 64]
     else [0xF0 + c div 262144, 0x80 + c div 4096 mod 64, 0x80 + c div 64 mod 64, 0x80 + c mod 64])"

definition as_bytes :: "str \<Rightarrow> bytes" where
  "as_bytes s = concat (map utf8_char s)"

definition str_len :: "str \<Rightarrow> nat" where
  "str_len s = length (as_bytes s)"

definition cont :: "nat \<Rightarrow> bool" where
  "cont y \<longleftrightarrow> 0x80 \<le> y \<and> y < 0xC0"

text \<open>The first character and the rest, over the numeric values of the bytes.\<close>

fun next_char :: "nat list \<Rightarrow> (nat \<times> nat) option" where
  \<comment> \<open>the character and how many bytes it takes\<close>
  "next_char (x # y # z # w # r) =
    (if x < 0x80 then Some (x, 1)
     else if 0xC2 \<le> x \<and> x \<le> 0xDF then
       (if cont y then Some ((x - 0xC0) * 64 + (y - 0x80), 2) else None)
     else if 0xE0 \<le> x \<and> x \<le> 0xEF then
       (if cont y \<and> cont z \<and> (x = 0xE0 \<longrightarrow> 0xA0 \<le> y) \<and> (x = 0xED \<longrightarrow> y \<le> 0x9F)
        then Some ((x - 0xE0) * 4096 + (y - 0x80) * 64 + (z - 0x80), 3) else None)
     else if 0xF0 \<le> x \<and> x \<le> 0xF4 then
       (if cont y \<and> cont z \<and> cont w \<and> (x = 0xF0 \<longrightarrow> 0x90 \<le> y) \<and> (x = 0xF4 \<longrightarrow> y \<le> 0x8F)
        then Some ((x - 0xF0) * 262144 + (y - 0x80) * 4096 + (z - 0x80) * 64 + (w - 0x80), 4) else None)
     else None)"
| "next_char _ = None"

lemma next_char_len: "next_char xs = Some (c, n) \<Longrightarrow> 0 < n \<and> n \<le> 4"
  by (induction xs rule: next_char.induct) (auto split: if_splits)

text \<open>
  A byte beyond the end is not a continuation byte, so a truncated character is refused like one
  followed by a zero byte: three zeros stand for the end.
\<close>

definition utf8_next :: "bytes \<Rightarrow> (nat \<times> nat) option" where
  "utf8_next b = (if b = [] then None else next_char (map unat b @ [0, 0, 0]))"

function from_utf8 :: "bytes \<Rightarrow> str option" where
  "from_utf8 b = (if b = [] then Some [] else
     (case utf8_next b of None \<Rightarrow> None
      | Some (c, n) \<Rightarrow> map_option ((#) c) (from_utf8 (drop n b))))"
  by pat_completeness auto
termination
  by (relation "measure length") (auto simp: utf8_next_def dest!: next_char_len split: if_splits)

declare from_utf8.simps [simp del]

lemma list4_cases:
  fixes b :: "'a list"
  assumes "b \<noteq> []"
  obtains x where "b = [x]" | x y where "b = [x, y]" | x y w where "b = [x, y, w]"
    | x y w v r where "b = x # y # w # v # r"
  using assms by (metis neq_Nil_conv)

lemma utf8_char_len: "0 < length (utf8_char c) \<and> length (utf8_char c) \<le> 4"
  by (simp add: utf8_char_def)

text \<open>The digits of a character in base 64, for each length.\<close>

lemma digit64: "e < 64 \<Longrightarrow> (q * 64 + e) mod 64 = e" "e < 64 \<Longrightarrow> (q * 64 + e) div 64 = (q :: nat)"
  by simp_all

lemma div64: "c div 4096 = c div 64 div (64 :: nat)" "c div 262144 = c div 64 div 64 div (64 :: nat)"
  by (simp_all add: div_mult2_eq [symmetric])

lemma recompose:
  "c = c div 4096 * 4096 + c div 64 mod 64 * 64 + c mod (64 :: nat)"
  "c = c div 262144 * 262144 + c div 4096 mod 64 * 4096 + c div 64 mod 64 * 64 + c mod (64 :: nat)"
proof -
  let ?q = "c div 64"
  have 1: "c = ?q * 64 + c mod 64" "?q = ?q div 64 * 64 + ?q mod 64"
    "?q div 64 = ?q div 64 div 64 * 64 + ?q div 64 mod 64" by simp_all
  then show "c = c div 4096 * 4096 + c div 64 mod 64 * 64 + c mod (64 :: nat)"
    "c = c div 262144 * 262144 + c div 4096 mod 64 * 4096 + c div 64 mod 64 * 64 + c mod (64 :: nat)"
    unfolding div64 by linarith+
qed

lemma enc2:
  assumes "0xC2 \<le> x" "x \<le> 0xDF" "cont y" "c = (x - 0xC0) * 64 + (y - 0x80)"
  shows "is_scalar c \<and> utf8_char c = map word_of_nat [x, y]"
proof -
  obtain a d where a: "x = 0xC0 + a" "y = 0x80 + d" "2 \<le> a" "a < 32" "d < 64"
    using assms by (intro that [of "x - 0xC0" "y - 0x80"]) (auto simp: cont_def)
  with assms(4) have c: "c = a * 64 + d" by simp
  then have "\<not> c < 0x80" "c < 0x800" using a by simp_all
  moreover have "c div 64 = a" "c mod 64 = d" unfolding c using a by (simp_all only: digit64)
  ultimately show ?thesis using a by (simp add: is_scalar_def utf8_char_def)
qed

lemma enc3:
  assumes "0xE0 \<le> x" "x \<le> 0xEF" "cont y" "cont z" "x = 0xE0 \<longrightarrow> 0xA0 \<le> y" "x = 0xED \<longrightarrow> y \<le> 0x9F"
    "c = (x - 0xE0) * 4096 + (y - 0x80) * 64 + (z - 0x80)"
  shows "is_scalar c \<and> utf8_char c = map word_of_nat [x, y, z]"
proof -
  obtain a d e where a: "x = 0xE0 + a" "y = 0x80 + d" "z = 0x80 + e" "a < 16" "d < 64" "e < 64"
    using assms by (intro that [of "x - 0xE0" "y - 0x80" "z - 0x80"]) (auto simp: cont_def)
  with assms(7) have c: "c = a * 4096 + d * 64 + e" by simp
  then have "\<not> c < 0x80" "\<not> c < 0x800" "c < 0x10000"
    using a assms(5) by auto
  moreover have "is_scalar c"
  proof -
    consider "a \<le> 12" | "a = 13" "d \<le> 31" | "14 \<le> a" using a assms(6) by linarith
    then show ?thesis using a c by cases (auto simp: is_scalar_def)
  qed
  moreover have c': "c = (a * 64 + d) * 64 + e" using c by simp
  have "c mod 64 = e" "c div 64 = a * 64 + d" unfolding c' using a by (simp_all only: digit64)
  ultimately show ?thesis using a by (simp add: utf8_char_def div64 digit64)
qed

lemma enc4:
  assumes "0xF0 \<le> x" "x \<le> 0xF4" "cont y" "cont z" "cont w" "x = 0xF0 \<longrightarrow> 0x90 \<le> y" "x = 0xF4 \<longrightarrow> y \<le> 0x8F"
    "c = (x - 0xF0) * 262144 + (y - 0x80) * 4096 + (z - 0x80) * 64 + (w - 0x80)"
  shows "is_scalar c \<and> utf8_char c = map word_of_nat [x, y, z, w]"
proof -
  obtain a d e f where a: "x = 0xF0 + a" "y = 0x80 + d" "z = 0x80 + e" "w = 0x80 + f"
      "a < 5" "d < 64" "e < 64" "f < 64"
    using assms by (intro that [of "x - 0xF0" "y - 0x80" "z - 0x80" "w - 0x80"]) (auto simp: cont_def)
  with assms(8) have c: "c = a * 262144 + d * 4096 + e * 64 + f" by simp
  then have "\<not> c < 0x80" "\<not> c < 0x800" "\<not> c < 0x10000" "is_scalar c"
    using a assms(6,7) by (auto simp: is_scalar_def)
  moreover have c': "c = ((a * 64 + d) * 64 + e) * 64 + f" using c by simp
  have "c mod 64 = f" "c div 64 = (a * 64 + d) * 64 + e" unfolding c' using a by (simp_all only: digit64)
  moreover have "((a * 64 + d) * 64 + e) div 64 = a * 64 + d" "((a * 64 + d) * 64 + e) mod 64 = e"
    using a by (simp_all only: digit64)
  ultimately show ?thesis using a by (simp add: utf8_char_def div64 digit64)
qed

lemma not_cont_0 [simp]: "\<not> cont 0"
  by (simp add: cont_def)

lemma next_char_spec:
  assumes "next_char (x # y # z # w # r) = Some (c, n)"
  shows "is_scalar c \<and> utf8_char c = map word_of_nat (take n [x, y, z, w]) \<and> 1 \<le> n \<and> n \<le> 4
    \<and> (2 \<le> n \<longrightarrow> cont y) \<and> (3 \<le> n \<longrightarrow> cont z) \<and> (4 \<le> n \<longrightarrow> cont w)"
proof -
  consider (1) "x < 0x80" "c = x" "n = 1"
    | (2) "0xC2 \<le> x" "x \<le> 0xDF" "cont y" "c = (x - 0xC0) * 64 + (y - 0x80)" "n = 2"
    | (3) "0xE0 \<le> x" "x \<le> 0xEF" "cont y" "cont z" "x = 0xE0 \<longrightarrow> 0xA0 \<le> y" "x = 0xED \<longrightarrow> y \<le> 0x9F"
       "c = (x - 0xE0) * 4096 + (y - 0x80) * 64 + (z - 0x80)" "n = 3"
    | (4) "0xF0 \<le> x" "x \<le> 0xF4" "cont y" "cont z" "cont w" "x = 0xF0 \<longrightarrow> 0x90 \<le> y"
       "x = 0xF4 \<longrightarrow> y \<le> 0x8F"
       "c = (x - 0xF0) * 262144 + (y - 0x80) * 4096 + (z - 0x80) * 64 + (w - 0x80)" "n = 4"
    using assms by (auto split: if_splits)
  then show ?thesis
  proof cases
    case 1
    then show ?thesis by (simp add: is_scalar_def utf8_char_def)
  next
    case 2
    with enc2 [OF 2(1-4)] show ?thesis by simp
  next
    case 3
    with enc3 [OF 3(1-7)] show ?thesis by simp
  next
    case 4
    with enc4 [OF 4(1-8)] show ?thesis by simp
  qed
qed

lemma utf8_next_Some:
  assumes "utf8_next b = Some (c, n)"
  shows "is_scalar c \<and> b = utf8_char c @ drop n b"
proof -
  from assms have ne: "b \<noteq> []" by (auto simp: utf8_next_def)
  then obtain x y z w r where xs: "map unat b @ [0, 0, 0] = x # y # z # w # r"
    and tk: "[x, y, z, w] = take 4 (map unat b @ [0, 0, 0])"
    by (cases rule: list4_cases) auto
  with assms ne have nx: "next_char (x # y # z # w # r) = Some (c, n)" by (simp add: utf8_next_def)
  note sp = next_char_spec [OF nx]
  have le: "n \<le> length b"
  proof (rule ccontr)
    assume *: "\<not> n \<le> length b"
    have "(map unat b @ [0, 0, 0]) ! length b = 0" by (simp add: nth_append)
    then have "[x, y, z, w] ! length b = 0" using * sp unfolding tk by (simp add: nth_append)
    moreover have "1 \<le> length b" using ne by (simp add: Suc_le_eq)
    then have "length b = 1 \<or> length b = 2 \<or> length b = 3" using * sp by linarith
    ultimately show False using * sp by (auto simp: numeral_2_eq_2 numeral_3_eq_3)
  qed
  have "take n [x, y, z, w] = map unat (take n b)"
    unfolding tk using le sp by (simp add: take_map min_def)
  then have "utf8_char c = take n b" using sp by (simp add: map_idI)
  then show ?thesis using sp append_take_drop_id [of n b] by simp
qed

lemma next2: "2 \<le> a \<Longrightarrow> a < 32 \<Longrightarrow> d < 64 \<Longrightarrow>
    next_char ((0xC0 + a) # (0x80 + d) # z # w # r) = Some (a * 64 + d, 2)"
  by (simp add: cont_def)

lemma next3: "a < 16 \<Longrightarrow> d < 64 \<Longrightarrow> e < 64 \<Longrightarrow> (a = 0 \<Longrightarrow> 32 \<le> d) \<Longrightarrow> (a = 13 \<Longrightarrow> d < 32) \<Longrightarrow>
    next_char ((0xE0 + a) # (0x80 + d) # (0x80 + e) # w # r) = Some (a * 4096 + d * 64 + e, 3)"
  by (auto simp: cont_def)

lemma next4: "a < 5 \<Longrightarrow> d < 64 \<Longrightarrow> e < 64 \<Longrightarrow> f < 64 \<Longrightarrow> (a = 0 \<Longrightarrow> 16 \<le> d) \<Longrightarrow> (a = 4 \<Longrightarrow> d < 16) \<Longrightarrow>
    next_char ((0xF0 + a) # (0x80 + d) # (0x80 + e) # (0x80 + f) # r)
      = Some (a * 262144 + d * 4096 + e * 64 + f, 4)"
  by (auto simp: cont_def)

lemma unat_byte: "n < 256 \<Longrightarrow> unat (word_of_nat n :: byte) = n"
  by (simp add: unat_of_nat)

lemma utf8_next_char:
  assumes c: "is_scalar c"
  shows "utf8_next (utf8_char c @ r) = Some (c, length (utf8_char c))"
proof -
  obtain p q s t where r: "map unat r @ [0, 0, 0] = p # q # s # t"
    by (cases r; cases "tl r"; cases "tl (tl r)") auto
  have ne: "utf8_char c @ r \<noteq> []" using utf8_char_len [of c] by auto
  have nx: "utf8_next (utf8_char c @ r) = next_char (map unat (utf8_char c) @ p # q # s # t)"
    unfolding utf8_next_def if_not_P [OF ne] map_append append_assoc r ..
  consider "c < 0x80" | "\<not> c < 0x80" "c < 0x800" | "\<not> c < 0x800" "c < 0x10000" | "\<not> c < 0x10000" by linarith
  then show ?thesis
  proof cases
    case 1
    then show ?thesis unfolding nx by (simp add: utf8_char_def unat_byte)
  next
    case 2
    define a d where ad: "a = c div 64" "d = c mod 64"
    then have b: "c = a * 64 + d" "d < 64" "2 \<le> a" "a < 32" using 2 by auto
    have "utf8_char c = map word_of_nat [0xC0 + a, 0x80 + d]"
      using 2 by (simp add: utf8_char_def ad)
    then show ?thesis using next2 [of a d p "q" "s # t"] b unfolding nx by (simp add: unat_byte del: of_nat_add)
  next
    case 3
    define a d e where ad: "a = c div 4096" "d = c div 64 mod 64" "e = c mod 64"
    have b: "c = a * 4096 + d * 64 + e" "a < 16" "d < 64" "e < 64"
      using 3 recompose(1) [of c] unfolding ad by auto
    have u: "utf8_char c = map word_of_nat [0xE0 + a, 0x80 + d, 0x80 + e]"
      using 3 by (simp add: utf8_char_def ad)
    have "a = 0 \<Longrightarrow> 32 \<le> d" "a = 13 \<Longrightarrow> d < 32"
      using 3 c b unfolding is_scalar_def by auto
    from next3 [OF b(2-4) this] u b show ?thesis unfolding nx by (simp add: unat_byte del: of_nat_add)
  next
    case 4
    define a d e f where ad: "a = c div 262144" "d = c div 4096 mod 64" "e = c div 64 mod 64" "f = c mod 64"
    have "c < 0x110000" using c 4 by (auto simp: is_scalar_def)
    then have b: "c = a * 262144 + d * 4096 + e * 64 + f" "a < 5" "d < 64" "e < 64" "f < 64"
      using recompose(2) [of c] unfolding ad by auto
    have u: "utf8_char c = map word_of_nat [0xF0 + a, 0x80 + d, 0x80 + e, 0x80 + f]"
      using 4 by (simp add: utf8_char_def ad)
    have "a = 0 \<Longrightarrow> 16 \<le> d" "a = 4 \<Longrightarrow> d < 16"
      using 4 \<open>c < 0x110000\<close> b by auto
    from next4 [OF b(2-5) this] u b show ?thesis unfolding nx by (simp add: unat_byte del: of_nat_add)
  qed
qed

lemma as_bytes_simps [simp]: "as_bytes [] = []" "as_bytes (c # s) = utf8_char c @ as_bytes s"
  "as_bytes (s @ t) = as_bytes s @ as_bytes t"
  by (simp_all add: as_bytes_def)

text \<open>Validation accepts exactly the encodings of lists of scalar values.\<close>

lemma from_utf8_as_bytes: "list_all is_scalar s \<Longrightarrow> from_utf8 (as_bytes s) = Some s"
proof (induction s)
  case (Cons c s)
  then have n: "utf8_next (utf8_char c @ as_bytes s) = Some (c, length (utf8_char c))"
    by (intro utf8_next_char) simp
  have "utf8_char c @ as_bytes s \<noteq> []" using utf8_char_len [of c] by auto
  with n Cons show ?case by (subst from_utf8.simps) simp
qed (simp add: from_utf8.simps)

lemma from_utf8_Some: "from_utf8 b = Some s \<longleftrightarrow> list_all is_scalar s \<and> b = as_bytes s"
proof
  show "from_utf8 b = Some s \<Longrightarrow> list_all is_scalar s \<and> b = as_bytes s"
  proof (induction b arbitrary: s rule: from_utf8.induct)
    case (1 b)
    show ?case
    proof (cases "b = []")
      case True
      with "1.prems" show ?thesis by (simp add: from_utf8.simps)
    next
      case False
      with "1.prems" obtain c n s' where n: "utf8_next b = Some (c, n)" and s: "s = c # s'"
        "from_utf8 (drop n b) = Some s'"
        by (subst (asm) from_utf8.simps) (auto split: option.splits)
      from "1.IH" [OF False n _ s(2)] utf8_next_Some [OF n] s show ?thesis by auto
    qed
  qed
qed (use from_utf8_as_bytes in auto)

section \<open>Strings\<close>

text \<open>\<open>char::is_whitespace\<close>: the Unicode property \<open>White_Space\<close>.\<close>

definition is_whitespace :: "nat \<Rightarrow> bool" where
  "is_whitespace c \<longleftrightarrow> 9 \<le> c \<and> c \<le> 13 \<or> c = 32 \<or> c = 0x85 \<or> c = 0xA0 \<or> c = 0x1680
     \<or> 0x2000 \<le> c \<and> c \<le> 0x200A \<or> c = 0x2028 \<or> c = 0x2029 \<or> c = 0x202F \<or> c = 0x205F \<or> c = 0x3000"

definition trim :: "str \<Rightarrow> str" where
  "trim s = rev (dropWhile is_whitespace (rev (dropWhile is_whitespace s)))"

fun strip_prefix :: "nat \<Rightarrow> str \<Rightarrow> str option" where
  "strip_prefix c (x # s) = (if x = c then Some s else None)"
| "strip_prefix c [] = None"

definition strip_suffix :: "nat \<Rightarrow> str \<Rightarrow> str option" where
  "strip_suffix c s = (if s \<noteq> [] \<and> last s = c then Some (butlast s) else None)"

fun split_once :: "nat \<Rightarrow> str \<Rightarrow> (str \<times> str) option" where
  "split_once c [] = None"
| "split_once c (x # s) = (if x = c then Some ([], s)
     else map_option (\<lambda>(a, b). (x # a, b)) (split_once c s))"

text \<open>\<open>split\<close>: the pieces between separators, one more than there are separators.\<close>

fun split_on :: "'a \<Rightarrow> 'a list \<Rightarrow> 'a list list" where
  "split_on c [] = [[]]"
| "split_on c (x # s) = (if x = c then [] # split_on c s
     else (case split_on c s of p # ps \<Rightarrow> (x # p) # ps | [] \<Rightarrow> [[x]]))"

definition ascii :: "string \<Rightarrow> str" where
  "ascii s = map of_char s"

end
