(* ===== verification/Ini.thy ===== *)
theory Ini
  imports Utf8
begin

text \<open>
  The frozen grammar of \<open>paguro.ini\<close>, \<open>crates/paguro-core/src/ini.rs\<close>.  The parser is an
  iterator over the lines of the file; \<open>ini_next\<close> is its \<open>next\<close>, with the lines not yet consumed
  and the current section as its state.
\<close>

definition INI_MAX_LEN :: nat where "INI_MAX_LEN = 64 * 1024"

datatype ini_error = IniTooLarge | NotUtf8 nat | BadSection nat | MissingEquals nat | EmptyKey nat

record ini_entry =
  ie_section :: str
  ie_key :: str
  ie_value :: str
  ie_line :: nat

record ini_parser =
  ip_lines :: "(nat \<times> bytes) list"
  ip_section :: str

definition NL :: byte where "NL = 10"

abbreviation (input) CH_HASH :: nat where "CH_HASH \<equiv> 35"
abbreviation (input) CH_EQ :: nat where "CH_EQ \<equiv> 61"
abbreviation (input) CH_OPEN :: nat where "CH_OPEN \<equiv> 91"
abbreviation (input) CH_CLOSE :: nat where "CH_CLOSE \<equiv> 93"

definition ini_parse :: "bytes \<Rightarrow> (ini_error, ini_parser) res" where
  "ini_parse input =
    (if length input > INI_MAX_LEN then Err IniTooLarge
     else Ok \<lparr>ip_lines = enumerate 0 (split_on NL input), ip_section = []\<rparr>)"

text \<open>What one line of text says.\<close>

datatype ini_line = Blank | Header str | Pair str str | Bad "nat \<Rightarrow> ini_error"

definition ini_text :: "str \<Rightarrow> ini_line" where
  "ini_text text =
    (let t = trim text in
     if t = [] \<or> hd t = CH_HASH then Blank else
     case strip_prefix CH_OPEN t of
       Some rest \<Rightarrow>
         (case strip_suffix CH_CLOSE rest of
            None \<Rightarrow> Bad BadSection
          | Some name \<Rightarrow>
              (let name = trim name in
               if name = [] \<or> CH_OPEN \<in> set name \<or> CH_CLOSE \<in> set name then Bad BadSection
               else Header name))
     | None \<Rightarrow>
         (case split_once CH_EQ t of
            None \<Rightarrow> Bad MissingEquals
          | Some (k, v) \<Rightarrow>
              (let key = trim k in
               if key = [] then Bad EmptyKey else Pair key (trim v))))"

fun ini_lines :: "(nat \<times> bytes) list \<Rightarrow> str \<Rightarrow> (ini_error, ini_entry) res option \<times> ini_parser" where
  "ini_lines [] sec = (None, \<lparr>ip_lines = [], ip_section = sec\<rparr>)"
| "ini_lines ((idx, raw) # ls) sec =
    (case from_utf8 raw of
       None \<Rightarrow> (Some (Err (NotUtf8 (idx + 1))), \<lparr>ip_lines = ls, ip_section = sec\<rparr>)
     | Some text \<Rightarrow>
         (case ini_text text of
            Blank \<Rightarrow> ini_lines ls sec
          | Header name \<Rightarrow> ini_lines ls name
          | Bad e \<Rightarrow> (Some (Err (e (idx + 1))), \<lparr>ip_lines = ls, ip_section = sec\<rparr>)
          | Pair k v \<Rightarrow>
              (Some (Ok \<lparr>ie_section = sec, ie_key = k, ie_value = v, ie_line = idx + 1\<rparr>),
               \<lparr>ip_lines = ls, ip_section = sec\<rparr>)))"

definition ini_next :: "ini_parser \<Rightarrow> (ini_error, ini_entry) res option \<times> ini_parser" where
  "ini_next p = ini_lines (ip_lines p) (ip_section p)"

text \<open>Every item consumes at least one line.\<close>

lemma ini_lines_progress:
  "ini_lines ls sec = (Some r, p) \<Longrightarrow> length (ip_lines p) < length ls"
  by (induction ls sec rule: ini_lines.induct) (fastforce split: option.splits ini_line.splits)+

lemma ini_next_progress: "ini_next p = (Some r, p') \<Longrightarrow> length (ip_lines p') < length (ip_lines p)"
  by (auto simp: ini_next_def dest: ini_lines_progress)

text \<open>The entries a well-formed text has, line by line: what the iterator yields.\<close>

fun ini_entries :: "str list \<Rightarrow> nat \<Rightarrow> str \<Rightarrow> ini_entry list option" where
  "ini_entries [] n sec = Some []"
| "ini_entries (l # ls) n sec =
    (case ini_text l of
       Blank \<Rightarrow> ini_entries ls (Suc n) sec
     | Header name \<Rightarrow> ini_entries ls (Suc n) name
     | Pair k v \<Rightarrow> map_option ((#) \<lparr>ie_section = sec, ie_key = k, ie_value = v, ie_line = Suc n\<rparr>)
         (ini_entries ls (Suc n) sec)
     | Bad e \<Rightarrow> None)"

end
