(* ===== verification/Config.thy ===== *)
theory Config
  imports Ini Guid Bytes
begin

text \<open>
  The schema of \<open>paguro.ini\<close>, \<open>crates/paguro-core/src/config.rs\<close>: names, paths, the parser over
  the entries of the grammar, and the serialiser.  The arrays of capacity \<open>MAX_ENTRIES\<close> with an
  \<open>entry_count\<close> are lists of that length; the values collected per entry before they are assembled
  (\<open>entry_seen\<close>, \<open>efi_disk\<close>, \<open>efi_path\<close>, \<open>efi_file\<close>) are kept with the entry.  \<open>DEFAULT_EFI\<close> is the
  one of \<open>x86_64\<close>.
\<close>

section \<open>Names and paths\<close>

definition MAX_ENTRIES :: nat where "MAX_ENTRIES = 16"
definition MAX_NAME :: nat where "MAX_NAME = 32"
definition MAX_PATH_BYTES :: nat where "MAX_PATH_BYTES = 1024"
definition MAX_COMPONENTS :: nat where "MAX_COMPONENTS = 32"
definition MAX_COMPONENT_UTF16 :: nat where "MAX_COMPONENT_UTF16 = 255"

abbreviation (input) CH_BACKSLASH :: nat where "CH_BACKSLASH \<equiv> 92"

definition DEFAULT_EFI :: str where
  "DEFAULT_EFI = CH_BACKSLASH # ascii ''EFI'' @ CH_BACKSLASH # ascii ''BOOT'' @ CH_BACKSLASH # ascii ''BOOTX64.EFI''"
definition HEADER_COMMENT :: str where
  "HEADER_COMMENT = ascii ''# paguro configuration. Not hand-editable: use `paguro config`.''"
definition ENTRY_PREFIX :: str where "ENTRY_PREFIX = ascii ''Boot.''"
definition CFG_VERSION :: str where "CFG_VERSION = ascii ''1''"
definition FORBIDDEN_PATH_CHARS :: "nat list" where
  "FORBIDDEN_PATH_CHARS = [47, 58, 42, 63, 34, 60, 62, 124]"
definition DEL :: nat where "DEL = 0x7f"

definition S_PAGURO :: str where "S_PAGURO = ascii ''Paguro''"
definition S_TPM :: str where "S_TPM = ascii ''TPM''"
definition S_SETUP_TPM :: str where "S_SETUP_TPM = ascii ''SetupTPM''"
definition S_PASSPHRASE :: str where "S_PASSPHRASE = ascii ''Passphrase''"
definition S_UI :: str where "S_UI = ascii ''UI''"

definition KEY_VERSION :: str where "KEY_VERSION = ascii ''version''"
definition KEY_DEFAULT :: str where "KEY_DEFAULT = ascii ''default''"
definition KEY_VOLUME :: str where "KEY_VOLUME = ascii ''volume''"
definition KEY_ROOT :: str where "KEY_ROOT = ascii ''root''"
definition KEY_EFI_DISK :: str where "KEY_EFI_DISK = ascii ''efi_disk''"
definition KEY_EFI :: str where "KEY_EFI = ascii ''efi''"
definition KEY_EFI_FILE :: str where "KEY_EFI_FILE = ascii ''efi_file''"
definition KEY_ENABLED :: str where "KEY_ENABLED = ascii ''enabled''"
definition KEY_THEME :: str where "KEY_THEME = ascii ''theme''"
definition KEY_MODE :: str where "KEY_MODE = ascii ''mode''"
definition KEY_KEYBOARD :: str where "KEY_KEYBOARD = ascii ''keyboard''"

definition V_FALSE :: str where "V_FALSE = ascii ''0''"
definition V_TRUE :: str where "V_TRUE = ascii ''1''"

definition is_ascii_alphanumeric :: "byte \<Rightarrow> bool" where
  "is_ascii_alphanumeric c \<longleftrightarrow> (0x30 \<le> c \<and> c \<le> 0x39) \<or> (0x41 \<le> c \<and> c \<le> 0x5a) \<or> (0x61 \<le> c \<and> c \<le> 0x7a)"

definition is_ascii_digit :: "byte \<Rightarrow> bool" where
  "is_ascii_digit c \<longleftrightarrow> 0x30 \<le> c \<and> c \<le> 0x39"

definition check_name :: "str \<Rightarrow> bool" where
  "check_name s \<longleftrightarrow> s \<noteq> [] \<and> str_len s \<le> MAX_NAME
     \<and> list_all (\<lambda>c. is_ascii_alphanumeric c \<or> c = 0x5f \<or> c = 0x2d) (as_bytes s)"

datatype path_error = Empty | NotAbsolute | TooLong | TooManyComponents | EmptyComponent
  | DotComponent | ComponentTooLong | BadChar

definition len_utf16 :: "nat \<Rightarrow> nat" where
  "len_utf16 c = (if c < 0x10000 then 1 else 2)"

definition check_component :: "str \<Rightarrow> (path_error, unit) res" where
  "check_component piece =
    (if piece = [] then Err EmptyComponent
     else if piece = ascii ''.'' \<or> piece = ascii ''..'' then Err DotComponent
     else if sum_list (map len_utf16 piece) > MAX_COMPONENT_UTF16 then Err ComponentTooLong
     else if list_ex (\<lambda>c. c < 32 \<or> c = DEL \<or> c \<in> set FORBIDDEN_PATH_CHARS) piece then Err BadChar
     else Ok ())"

fun check_components :: "nat \<Rightarrow> str list \<Rightarrow> (path_error, unit) res" where
  "check_components n [] = Ok ()"
| "check_components n (piece # cs) =
    rbind (add64 n 1) (\<lambda>n.
    if n > MAX_COMPONENTS then Err TooManyComponents
    else rbind (check_component piece) (\<lambda>_. check_components n cs))"

definition check_path :: "str \<Rightarrow> (path_error, unit) res" where
  "check_path s =
    (if s = [] then Err Empty
     else if str_len s > MAX_PATH_BYTES then Err TooLong
     else case strip_prefix CH_BACKSLASH s of
        None \<Rightarrow> Err NotAbsolute
      | Some r \<Rightarrow> check_components 0 (split_on CH_BACKSLASH r))"

section \<open>The configuration\<close>

datatype efi = EfiDisk str str | EfiFile str

record cfg_entry =
  ce_name :: str
  ce_volume :: guid
  ce_root :: "str option"
  ce_efi :: efi

definition path_ok :: "str \<Rightarrow> bool" where "path_ok p \<longleftrightarrow> check_path p = Ok ()"

definition entry_is_valid :: "cfg_entry \<Rightarrow> bool" where
  "entry_is_valid e \<longleftrightarrow> check_name (ce_name e)
     \<and> (case ce_root e of None \<Rightarrow> True | Some r \<Rightarrow> path_ok r)
     \<and> (case ce_efi e of
          EfiDisk disk p \<Rightarrow> ce_root e \<noteq> None \<and> path_ok disk \<and> path_ok p
        | EfiFile f \<Rightarrow> path_ok f)"

definition efi_disk_of :: "cfg_entry \<Rightarrow> str option" where
  "efi_disk_of e = (case ce_efi e of EfiDisk disk _ \<Rightarrow> Some disk | EfiFile _ \<Rightarrow> None)"

definition separate_efi :: "cfg_entry \<Rightarrow> str option" where
  "separate_efi e =
    (let f = (case ce_efi e of EfiDisk disk _ \<Rightarrow> disk | EfiFile f \<Rightarrow> f) in
     if Some f \<noteq> ce_root e then Some f else None)"

datatype ui_theme = Dark | Light | DarkContrast | LightContrast
datatype ui_mode = Auto | Graphics | Text
datatype keyboard = Us | Uk | De | Fr | Es | Be | ChDe | NlIntl

definition THEME_ALL :: "ui_theme list" where "THEME_ALL = [Dark, Light, DarkContrast, LightContrast]"
definition MODE_ALL :: "ui_mode list" where "MODE_ALL = [Auto, Graphics, Text]"
definition KEYBOARD_ALL :: "keyboard list" where "KEYBOARD_ALL = [Us, Uk, De, Fr, Es, Be, ChDe, NlIntl]"

fun theme_name :: "ui_theme \<Rightarrow> str" where
  "theme_name Dark = ascii ''dark''"
| "theme_name Light = ascii ''light''"
| "theme_name DarkContrast = ascii ''dark-contrast''"
| "theme_name LightContrast = ascii ''light-contrast''"

fun mode_name :: "ui_mode \<Rightarrow> str" where
  "mode_name Auto = ascii ''auto''"
| "mode_name Graphics = ascii ''graphics''"
| "mode_name Text = ascii ''text''"

fun keyboard_name :: "keyboard \<Rightarrow> str" where
  "keyboard_name Us = ascii ''us''"
| "keyboard_name Uk = ascii ''uk''"
| "keyboard_name De = ascii ''de''"
| "keyboard_name Fr = ascii ''fr''"
| "keyboard_name Es = ascii ''es''"
| "keyboard_name Be = ascii ''be''"
| "keyboard_name ChDe = ascii ''ch-de''"
| "keyboard_name NlIntl = ascii ''nl-intl''"

definition theme_from_name :: "str \<Rightarrow> ui_theme option" where
  "theme_from_name s = List.find (\<lambda>t. theme_name t = s) THEME_ALL"
definition mode_from_name :: "str \<Rightarrow> ui_mode option" where
  "mode_from_name s = List.find (\<lambda>t. mode_name t = s) MODE_ALL"
definition keyboard_from_name :: "str \<Rightarrow> keyboard option" where
  "keyboard_from_name s = List.find (\<lambda>t. keyboard_name t = s) KEYBOARD_ALL"

fun position_of :: "('a \<Rightarrow> bool) \<Rightarrow> 'a list \<Rightarrow> nat option" where
  "position_of p [] = None"
| "position_of p (x # xs) = (if p x then Some 0 else map_option Suc (position_of p xs))"

definition keyboard_next :: "keyboard \<Rightarrow> keyboard" where
  "keyboard_next k =
    (let i = (case position_of (\<lambda>x. x = k) KEYBOARD_ALL of Some i \<Rightarrow> i | None \<Rightarrow> 0) in
     case nth_opt KEYBOARD_ALL ((i + 1) mod length KEYBOARD_ALL) of Some x \<Rightarrow> x | None \<Rightarrow> Us)"

record ui =
  ui_theme_of :: ui_theme
  ui_mode_of :: ui_mode
  ui_keyboard :: keyboard

definition UI_DEFAULT :: ui where
  "UI_DEFAULT = \<lparr>ui_theme_of = Dark, ui_mode_of = Auto, ui_keyboard = Us\<rparr>"

record config =
  cfg_default :: nat
  cfg_entries :: "cfg_entry list"
  cfg_tpm :: bool
  cfg_setup_tpm :: bool
  cfg_passphrase :: bool
  cfg_ui :: ui

definition default_entry :: "config \<Rightarrow> cfg_entry option" where
  "default_entry c = nth_opt (cfg_entries c) (cfg_default c)"

datatype missing = MPaguroSection | MVersion | MDefault | MEntryVolume nat | MEntryRoot nat

datatype config_error = CIni ini_error | KeyOutsideSection nat | DuplicateKey nat | UnknownKey nat
  | CMissing missing | UnsupportedVersion nat | BadInteger nat | BadBool nat | BadChoice nat
  | BadGuid nat guid_error | BadEntryName nat | TooManyEntries nat | BadPath nat path_error
  | EfiFileConflict nat | DefaultNotFound

type_synonym 'a cres = "(config_error, 'a) res"

section \<open>Parsing\<close>

definition parse_bool :: "str \<Rightarrow> nat \<Rightarrow> bool cres" where
  "parse_bool v line = (if v = V_FALSE then Ok False else if v = V_TRUE then Ok True else Err (BadBool line))"

datatype cfg_section = SNone | SPaguro | SEntry nat | STpm | SSetupTpm | SPassphrase | SUi | SIgnored str

definition K_VERSION :: "8 word" where "K_VERSION = 1"
definition K_DEFAULT :: "8 word" where "K_DEFAULT = 2"
definition K_VOLUME :: "8 word" where "K_VOLUME = 1"
definition K_ROOT :: "8 word" where "K_ROOT = 2"
definition K_EFI_DISK :: "8 word" where "K_EFI_DISK = 4"
definition K_EFI :: "8 word" where "K_EFI = 8"
definition K_EFI_FILE :: "8 word" where "K_EFI_FILE = 16"
definition K_ENABLED :: "8 word" where "K_ENABLED = 1"
definition K_THEME :: "8 word" where "K_THEME = 1"
definition K_MODE :: "8 word" where "K_MODE = 2"
definition K_KEYBOARD :: "8 word" where "K_KEYBOARD = 4"

definition mark :: "8 word \<Rightarrow> 8 word \<Rightarrow> nat \<Rightarrow> (8 word) cres" where
  "mark seen bt line = (if seen AND bt \<noteq> 0 then Err (DuplicateKey line) else Ok (seen OR bt))"

definition path_value :: "str \<Rightarrow> nat \<Rightarrow> str cres" where
  "path_value v line = rbind (map_err (BadPath line) (check_path v)) (\<lambda>_. Ok v)"

record raw_entry =
  re_name :: str
  re_volume :: guid
  re_root :: "str option"
  re_seen :: "8 word"
  re_disk :: "str option"
  re_path :: "str option"
  re_file :: "str option"

definition raw_new :: "str \<Rightarrow> raw_entry" where
  "raw_new name = \<lparr>re_name = name, re_volume = GUID_ZERO, re_root = None, re_seen = 0,
     re_disk = None, re_path = None, re_file = None\<rparr>"

record cfg_state =
  st_entries :: "raw_entry list"
  st_tpm :: bool
  st_setup :: bool
  st_pass :: bool
  st_ui :: ui
  st_paguro_section :: bool
  st_paguro_seen :: "8 word"
  st_tpm_seen :: "8 word"
  st_setup_seen :: "8 word"
  st_pass_seen :: "8 word"
  st_ui_seen :: "8 word"
  st_default_name :: "str option"
  st_cur_name :: str
  st_sect :: cfg_section

definition cfg_start :: cfg_state where
  "cfg_start = \<lparr>st_entries = [], st_tpm = True, st_setup = True, st_pass = False, st_ui = UI_DEFAULT,
     st_paguro_section = False, st_paguro_seen = 0, st_tpm_seen = 0, st_setup_seen = 0,
     st_pass_seen = 0, st_ui_seen = 0, st_default_name = None, st_cur_name = [], st_sect = SNone\<rparr>"

fun strip_prefix_str :: "str \<Rightarrow> str \<Rightarrow> str option" where
  "strip_prefix_str [] s = Some s"
| "strip_prefix_str (c # p) (x # s) = (if x = c then strip_prefix_str p s else None)"
| "strip_prefix_str (c # p) [] = None"

text \<open>Entering the section an entry belongs to.\<close>

definition enter_section :: "str \<Rightarrow> nat \<Rightarrow> cfg_state \<Rightarrow> cfg_state cres" where
  "enter_section s line st =
    (let st = st\<lparr>st_cur_name := s\<rparr> in
     if s = [] then Ok (st\<lparr>st_sect := SNone\<rparr>)
     else if s = S_PAGURO then Ok (st\<lparr>st_paguro_section := True, st_sect := SPaguro\<rparr>)
     else if s = S_TPM then Ok (st\<lparr>st_sect := STpm\<rparr>)
     else if s = S_SETUP_TPM then Ok (st\<lparr>st_sect := SSetupTpm\<rparr>)
     else if s = S_PASSPHRASE then Ok (st\<lparr>st_sect := SPassphrase\<rparr>)
     else if s = S_UI then Ok (st\<lparr>st_sect := SUi\<rparr>)
     else case strip_prefix_str ENTRY_PREFIX s of
       None \<Rightarrow> Ok (st\<lparr>st_sect := SIgnored s\<rparr>)
     | Some name \<Rightarrow>
         if \<not> check_name name then Err (BadEntryName line) else
         (case position_of (\<lambda>i. re_name i = name) (st_entries st) of
            Some i \<Rightarrow> Ok (st\<lparr>st_sect := SEntry i\<rparr>)
          | None \<Rightarrow>
              if length (st_entries st) < MAX_ENTRIES
              then Ok (st\<lparr>st_entries := st_entries st @ [raw_new name],
                         st_sect := SEntry (length (st_entries st))\<rparr>)
              else Err (TooManyEntries line)))"

definition paguro_key :: "str \<Rightarrow> str \<Rightarrow> nat \<Rightarrow> cfg_state \<Rightarrow> cfg_state cres" where
  "paguro_key k v line st =
    (if k = KEY_VERSION then
       rbind (mark (st_paguro_seen st) K_VERSION line) (\<lambda>seen.
       if v \<noteq> CFG_VERSION then
         Err (if v \<noteq> [] \<and> list_all is_ascii_digit (as_bytes v) then UnsupportedVersion line
              else BadInteger line)
       else Ok (st\<lparr>st_paguro_seen := seen\<rparr>))
     else if k = KEY_DEFAULT then
       rbind (mark (st_paguro_seen st) K_DEFAULT line) (\<lambda>seen.
       if \<not> check_name v then Err (BadEntryName line)
       else Ok (st\<lparr>st_paguro_seen := seen, st_default_name := Some v\<rparr>))
     else Err (UnknownKey line))"

definition entry_key :: "str \<Rightarrow> str \<Rightarrow> nat \<Rightarrow> raw_entry \<Rightarrow> raw_entry cres" where
  "entry_key k v line e =
    (if k = KEY_VOLUME then
       rbind (mark (re_seen e) K_VOLUME line) (\<lambda>seen.
       rbind (map_err (BadGuid line) (guid_parse (as_bytes v))) (\<lambda>g.
       Ok (e\<lparr>re_seen := seen, re_volume := g\<rparr>)))
     else if k = KEY_ROOT then
       rbind (mark (re_seen e) K_ROOT line) (\<lambda>seen.
       rbind (path_value v line) (\<lambda>p. Ok (e\<lparr>re_seen := seen, re_root := Some p\<rparr>)))
     else if k = KEY_EFI_DISK \<or> k = KEY_EFI \<or> k = KEY_EFI_FILE then
       (let bt = (if k = KEY_EFI_DISK then K_EFI_DISK else if k = KEY_EFI then K_EFI else K_EFI_FILE) in
        rbind (mark (re_seen e) bt line) (\<lambda>seen.
        let others = (if bt = K_EFI_FILE then K_EFI_DISK OR K_EFI else K_EFI_FILE) in
        if seen AND others \<noteq> 0 then Err (EfiFileConflict line) else
        rbind (path_value v line) (\<lambda>p.
        let e = e\<lparr>re_seen := seen\<rparr> in
        Ok (if k = KEY_EFI_DISK then e\<lparr>re_disk := Some p\<rparr>
            else if k = KEY_EFI then e\<lparr>re_path := Some p\<rparr>
            else e\<lparr>re_file := Some p\<rparr>))))
     else Err (UnknownKey line))"

definition ui_key :: "str \<Rightarrow> str \<Rightarrow> nat \<Rightarrow> cfg_state \<Rightarrow> cfg_state cres" where
  "ui_key k v line st =
    (if k = KEY_THEME then
       rbind (mark (st_ui_seen st) K_THEME line) (\<lambda>seen.
       rbind (ok_or (theme_from_name v) (BadChoice line)) (\<lambda>t.
       Ok (st\<lparr>st_ui_seen := seen, st_ui := (st_ui st)\<lparr>ui_theme_of := t\<rparr>\<rparr>)))
     else if k = KEY_MODE then
       rbind (mark (st_ui_seen st) K_MODE line) (\<lambda>seen.
       rbind (ok_or (mode_from_name v) (BadChoice line)) (\<lambda>m.
       Ok (st\<lparr>st_ui_seen := seen, st_ui := (st_ui st)\<lparr>ui_mode_of := m\<rparr>\<rparr>)))
     else if k = KEY_KEYBOARD then
       rbind (mark (st_ui_seen st) K_KEYBOARD line) (\<lambda>seen.
       rbind (ok_or (keyboard_from_name v) (BadChoice line)) (\<lambda>b.
       Ok (st\<lparr>st_ui_seen := seen, st_ui := (st_ui st)\<lparr>ui_keyboard := b\<rparr>\<rparr>)))
     else Err (UnknownKey line))"

definition enabled_key :: "str \<Rightarrow> str \<Rightarrow> nat \<Rightarrow> cfg_state \<Rightarrow> cfg_state cres" where
  "enabled_key k v line st =
    (if k \<noteq> KEY_ENABLED then Err (UnknownKey line)
     else case st_sect st of
       STpm \<Rightarrow> rbind (mark (st_tpm_seen st) K_ENABLED line) (\<lambda>seen.
                rbind (parse_bool v line) (\<lambda>b. Ok (st\<lparr>st_tpm_seen := seen, st_tpm := b\<rparr>)))
     | SSetupTpm \<Rightarrow> rbind (mark (st_setup_seen st) K_ENABLED line) (\<lambda>seen.
                rbind (parse_bool v line) (\<lambda>b. Ok (st\<lparr>st_setup_seen := seen, st_setup := b\<rparr>)))
     | _ \<Rightarrow> rbind (mark (st_pass_seen st) K_ENABLED line) (\<lambda>seen.
                rbind (parse_bool v line) (\<lambda>b. Ok (st\<lparr>st_pass_seen := seen, st_pass := b\<rparr>))))"

definition cfg_key :: "str \<Rightarrow> str \<Rightarrow> nat \<Rightarrow> cfg_state \<Rightarrow> cfg_state cres" where
  "cfg_key k v line st =
    (case st_sect st of
       SNone \<Rightarrow> Err (KeyOutsideSection line)
     | SIgnored _ \<Rightarrow> Ok st
     | SPaguro \<Rightarrow> paguro_key k v line st
     | SEntry idx \<Rightarrow>
         rbind (ok_or (nth_opt (st_entries st) idx) (TooManyEntries line)) (\<lambda>e.
         rbind (entry_key k v line e) (\<lambda>e. Ok (st\<lparr>st_entries := (st_entries st)[idx := e]\<rparr>)))
     | SUi \<Rightarrow> ui_key k v line st
     | _ \<Rightarrow> enabled_key k v line st)"

definition cfg_step :: "cfg_state \<Rightarrow> ini_entry \<Rightarrow> cfg_state cres" where
  "cfg_step st e =
    rbind (if ie_section e \<noteq> st_cur_name st \<or> st_sect st = SNone
           then enter_section (ie_section e) (ie_line e) st else Ok st)
      (cfg_key (ie_key e) (ie_value e) (ie_line e))"

function cfg_loop :: "cfg_state \<Rightarrow> ini_parser \<Rightarrow> cfg_state cres" where
  "cfg_loop st p =
    (case ini_next p of
       (None, _) \<Rightarrow> Ok st
     | (Some r, p') \<Rightarrow> rbind (map_err CIni r) (\<lambda>e. rbind (cfg_step st e) (\<lambda>st. cfg_loop st p')))"
  by pat_completeness auto
termination
  by (relation "measure (\<lambda>(st, p). length (ip_lines p))") (auto dest!: ini_next_progress [OF sym])

declare cfg_loop.simps [simp del]

definition entry_efi :: "nat \<Rightarrow> raw_entry \<Rightarrow> cfg_entry cres" where
  "entry_efi i e =
    (if re_seen e AND K_VOLUME = 0 then Err (CMissing (MEntryVolume i)) else
     rbind (case (re_file e, re_root e) of
        (Some f, _) \<Rightarrow> Ok (EfiFile f)
      | (None, Some r) \<Rightarrow>
          Ok (EfiDisk (case re_disk e of Some d \<Rightarrow> d | None \<Rightarrow> r)
                      (case re_path e of Some p \<Rightarrow> p | None \<Rightarrow> DEFAULT_EFI))
      | (None, None) \<Rightarrow> Err (CMissing (MEntryRoot i))) (\<lambda>efi.
     Ok \<lparr>ce_name = re_name e, ce_volume = re_volume e, ce_root = re_root e, ce_efi = efi\<rparr>))"

fun assemble :: "nat \<Rightarrow> raw_entry list \<Rightarrow> cfg_entry list cres" where
  "assemble i [] = Ok []"
| "assemble i (e # es) = rbind (entry_efi i e) (\<lambda>x. rbind (assemble (Suc i) es) (\<lambda>xs. Ok (x # xs)))"

definition cfg_finish :: "cfg_state \<Rightarrow> config cres" where
  "cfg_finish st =
    (if \<not> st_paguro_section st then Err (CMissing MPaguroSection)
     else if st_paguro_seen st AND K_VERSION = 0 then Err (CMissing MVersion)
     else if st_paguro_seen st AND K_DEFAULT = 0 then Err (CMissing MDefault)
     else rbind (assemble 0 (st_entries st)) (\<lambda>es.
     rbind (ok_or (st_default_name st) (CMissing MDefault)) (\<lambda>d.
     rbind (ok_or (position_of (\<lambda>i. ce_name i = d) es) DefaultNotFound) (\<lambda>i.
     Ok \<lparr>cfg_default = i, cfg_entries = es, cfg_tpm = st_tpm st, cfg_setup_tpm = st_setup st,
         cfg_passphrase = st_pass st, cfg_ui = st_ui st\<rparr>))))"

definition config_parse :: "bytes \<Rightarrow> config cres" where
  "config_parse input =
    rbind (map_err CIni (ini_parse input)) (\<lambda>p. rbind (cfg_loop cfg_start p) cfg_finish)"

section \<open>Writing\<close>

datatype write_error = WFull | WInvalid

text \<open>\<open>header\<close> and \<open>kv\<close>: the slices they put, in order.\<close>

definition header_puts :: "str \<Rightarrow> bytes \<Rightarrow> bytes list" where
  "header_puts pre name = [[10, 91], as_bytes pre, name, [93]]"

definition kv_puts :: "str \<Rightarrow> bytes \<Rightarrow> bytes list" where
  "kv_puts k v = [[10], as_bytes k, [32, 61, 32], v]"

definition entry_puts :: "cfg_entry \<Rightarrow> bytes list" where
  "entry_puts e =
     header_puts ENTRY_PREFIX (as_bytes (ce_name e))
   @ kv_puts KEY_VOLUME (to_text (ce_volume e))
   @ (case ce_root e of Some r \<Rightarrow> kv_puts KEY_ROOT (as_bytes r) | None \<Rightarrow> [])
   @ (case ce_efi e of
        EfiDisk disk p \<Rightarrow>
          (if Some disk \<noteq> ce_root e then kv_puts KEY_EFI_DISK (as_bytes disk) else [])
          @ kv_puts KEY_EFI (as_bytes p)
      | EfiFile f \<Rightarrow> kv_puts KEY_EFI_FILE (as_bytes f))
   @ [[10]]"

definition bool_text :: "bool \<Rightarrow> str" where
  "bool_text b = (if b then V_TRUE else V_FALSE)"

definition enabled_puts :: "str \<times> bool \<Rightarrow> bytes list" where
  "enabled_puts = (\<lambda>(name, v).
     header_puts name [] @ kv_puts KEY_ENABLED (as_bytes (bool_text v)) @ [[10]])"

definition ui_puts :: "ui \<Rightarrow> bytes list" where
  "ui_puts u =
    (if u \<noteq> UI_DEFAULT then
       header_puts S_UI []
       @ kv_puts KEY_THEME (as_bytes (theme_name (ui_theme_of u)))
       @ kv_puts KEY_MODE (as_bytes (mode_name (ui_mode_of u)))
       @ kv_puts KEY_KEYBOARD (as_bytes (keyboard_name (ui_keyboard u)))
       @ [[10]]
     else [])"

definition config_puts :: "config \<Rightarrow> cfg_entry \<Rightarrow> bytes list" where
  "config_puts c d =
     [as_bytes HEADER_COMMENT] @ header_puts S_PAGURO []
   @ kv_puts KEY_VERSION (as_bytes CFG_VERSION) @ kv_puts KEY_DEFAULT (as_bytes (ce_name d)) @ [[10]]
   @ concat (map entry_puts (cfg_entries c))
   @ concat (map enabled_puts
       [(S_TPM, cfg_tpm c), (S_SETUP_TPM, cfg_setup_tpm c), (S_PASSPHRASE, cfg_passphrase c)])
   @ ui_puts (cfg_ui c)"

text \<open>Every entry valid, and none named as an earlier one.\<close>

fun entries_valid :: "str list \<Rightarrow> cfg_entry list \<Rightarrow> bool" where
  "entries_valid seen [] = True"
| "entries_valid seen (e # es) \<longleftrightarrow>
     entry_is_valid e \<and> ce_name e \<notin> set seen \<and> entries_valid (ce_name e # seen) es"

definition config_write :: "config \<Rightarrow> bytes \<Rightarrow> (write_error, nat \<times> bytes) res" where
  "config_write c out =
    (if cfg_entries c = [] \<or> length (cfg_entries c) > MAX_ENTRIES then Err WInvalid else
     rbind (ok_or (default_entry c) WInvalid) (\<lambda>d.
     if \<not> entries_valid [] (cfg_entries c) then Err WInvalid else
     rbind (ok_or (opt_fold wput (writer_new out) (config_puts c d)) WFull) (\<lambda>w.
     if wlen w > INI_MAX_LEN then Err WInvalid else Ok (wlen w, wbuf w))))"

section \<open>What parses is valid\<close>

definition config_valid :: "config \<Rightarrow> bool" where
  "config_valid c \<longleftrightarrow> cfg_default c < length (cfg_entries c) \<and> length (cfg_entries c) \<le> 16
     \<and> list_all entry_is_valid (cfg_entries c) \<and> distinct (map ce_name (cfg_entries c))"

lemma config_consts: "MAX_ENTRIES = 16" "MAX_COMPONENTS = 32" "INI_MAX_LEN = 65536"
  by (simp_all add: MAX_ENTRIES_def MAX_COMPONENTS_def INI_MAX_LEN_def)

lemma entries_valid_iff:
  "entries_valid seen es \<longleftrightarrow> list_all entry_is_valid es \<and> distinct (map ce_name es)
     \<and> set seen \<inter> set (map ce_name es) = {}"
  by (induction seen es rule: entries_valid.induct) auto

lemma check_components_not_Panic: "n \<le> 32 \<Longrightarrow> check_components n cs \<noteq> Panic"
proof (induction n cs rule: check_components.induct)
  case (2 n p cs)
  have "check_component p \<noteq> Panic" by (simp add: check_component_def)
  with 2 show ?case by (cases "check_component p") (auto simp: add64_def config_consts)
qed simp

lemma check_path_not_Panic: "check_path p \<noteq> Panic"
  using check_components_not_Panic [of 0] by (auto simp: check_path_def split: option.split)

lemma path_value_wp: "wp (path_value v line) (\<lambda>p. path_ok p)"
  using check_path_not_Panic [of v] by (cases "check_path v") (auto simp: path_value_def path_ok_def)

lemma default_efi_ok: "path_ok DEFAULT_EFI"
  by (simp add: path_ok_def check_path_def DEFAULT_EFI_def ascii_def str_len_def utf8_char_def
      MAX_PATH_BYTES_def check_component_def add64_def config_consts len_utf16_def
      MAX_COMPONENT_UTF16_def DEL_def FORBIDDEN_PATH_CHARS_def)

lemma mark_wp: "wp (mark seen bt line) (\<lambda>_. True)"
  by (simp add: mark_def)

text \<open>The invariant of the loop: what is collected for each entry is valid.\<close>

definition raw_ok :: "raw_entry \<Rightarrow> bool" where
  "raw_ok e \<longleftrightarrow> check_name (re_name e) \<and> pred_option path_ok (re_root e)
     \<and> pred_option path_ok (re_disk e) \<and> pred_option path_ok (re_path e) \<and> pred_option path_ok (re_file e)"

definition st_ok :: "cfg_state \<Rightarrow> bool" where
  "st_ok st \<longleftrightarrow> length (st_entries st) \<le> 16 \<and> list_all raw_ok (st_entries st)
     \<and> distinct (map re_name (st_entries st))"

lemma position_of_None: "position_of p xs = None \<longleftrightarrow> \<not> list_ex p xs"
  by (induction xs) auto

lemma position_of_Some: "position_of p xs = Some i \<Longrightarrow> i < length xs \<and> p (xs ! i)"
  by (induction xs arbitrary: i) (auto split: if_splits)

lemma enter_section_wp:
  assumes "st_ok st"
  shows "wp (enter_section s line st) st_ok"
  using assms
  by (auto simp: enter_section_def Let_def st_ok_def config_consts raw_ok_def raw_new_def
      position_of_None list_ex_iff list_all_iff)

lemma guid_parse_wp: "wp (guid_parse t) (\<lambda>_. True)"
  by (simp add: wp_True guid_parse_not_Panic)

lemma entry_key_wp:
  assumes "raw_ok e"
  shows "wp (entry_key k v line e) (\<lambda>e'. raw_ok e' \<and> re_name e' = re_name e)"
  using assms
  by (auto simp: entry_key_def Let_def raw_ok_def intro!: wp_conseq [OF mark_wp] wp_conseq [OF guid_parse_wp]
      wp_conseq [OF path_value_wp])

lemma enabled_key_wp: "st_ok st \<Longrightarrow> wp (enabled_key k v line st) st_ok"
  by (auto simp: enabled_key_def parse_bool_def st_ok_def intro!: wp_conseq [OF mark_wp]
      split: cfg_section.split)

lemma paguro_ui_key_wp:
  "st_ok st \<Longrightarrow> wp (paguro_key k v line st) st_ok" "st_ok st \<Longrightarrow> wp (ui_key k v line st) st_ok"
  by (auto simp: paguro_key_def ui_key_def st_ok_def intro!: wp_conseq [OF mark_wp])

lemma cfg_key_wp:
  assumes st: "st_ok st"
  shows "wp (cfg_key k v line st) st_ok"
proof (cases "st_sect st")
  case (SEntry idx)
  have upd: "st_ok (st\<lparr>st_entries := (st_entries st)[idx := e']\<rparr>)"
    if "raw_ok e'" "re_name e' = re_name (st_entries st ! idx)" "idx < length (st_entries st)" for e'
  proof -
    have "map re_name ((st_entries st)[idx := e']) = map re_name (st_entries st)"
      using that by (simp add: map_update list_update_same_conv)
    with st that show ?thesis
      by (auto simp: st_ok_def list_all_iff dest!: set_update_subset_insert [THEN subsetD])
  qed
  have "raw_ok (st_entries st ! idx)" if "idx < length (st_entries st)"
    using st that by (simp add: st_ok_def list_all_length)
  with SEntry upd show ?thesis
    by (auto simp: cfg_key_def intro!: wp_conseq [OF entry_key_wp])
qed (use st paguro_ui_key_wp enabled_key_wp in \<open>auto simp: cfg_key_def\<close>)

lemma cfg_step_wp: "st_ok st \<Longrightarrow> wp (cfg_step st e) st_ok"
  by (auto simp: cfg_step_def intro!: wp_conseq [OF enter_section_wp] cfg_key_wp)

lemma ini_next_not_Panic: "ini_next p \<noteq> (Some Panic, p')"
proof -
  have "ini_lines ls sec \<noteq> (Some Panic, p')" for ls sec
    by (induction ls sec rule: ini_lines.induct) (auto split: option.splits ini_line.splits)
  then show ?thesis by (simp add: ini_next_def)
qed

lemma cfg_loop_wp: "st_ok st \<Longrightarrow> wp (cfg_loop st p) st_ok"
proof (induction st p rule: cfg_loop.induct)
  case (1 st p)
  obtain r p' where n: "ini_next p = (r, p')" by (cases "ini_next p") auto
  show ?case
  proof (cases r)
    case None
    with n "1.prems" show ?thesis by (subst cfg_loop.simps) simp
  next
    case (Some x)
    show ?thesis
    proof (cases x)
      case (Ok e)
      have "wp (cfg_loop st' p') st_ok" if "cfg_step st e = Ok st'" "st_ok st'" for st'
        using "1.IH" [of r p' x e st'] n Some Ok that by simp
      then have "wp (cfg_step st e) (\<lambda>st'. wp (cfg_loop st' p') st_ok)"
        by (rule wp_conseq [OF cfg_step_wp [OF "1.prems"]])
      with n Some Ok show ?thesis by (subst cfg_loop.simps) simp
    next
      case (Err e)
      with n Some show ?thesis by (subst cfg_loop.simps) simp
    next
      case Panic
      with n Some ini_next_not_Panic show ?thesis by simp
    qed
  qed
qed

lemma entry_efi_wp:
  "raw_ok e \<Longrightarrow> wp (entry_efi i e) (\<lambda>x. entry_is_valid x \<and> ce_name x = re_name e)"
  using default_efi_ok
  by (auto simp: entry_efi_def raw_ok_def entry_is_valid_def split: option.splits)

lemma assemble_wp:
  "list_all raw_ok es \<Longrightarrow> wp (assemble i es) (\<lambda>xs. list_all entry_is_valid xs \<and> map ce_name xs = map re_name es)"
proof (induction es arbitrary: i)
  case (Cons e es)
  then show ?case by (auto intro!: wp_conseq [OF entry_efi_wp] wp_conseq [OF Cons.IH])
qed simp

lemma cfg_finish_wp:
  assumes "st_ok st"
  shows "wp (cfg_finish st) config_valid"
proof -
  have len: "length xs = length (st_entries st)" if "map ce_name xs = map re_name (st_entries st)" for xs
    using arg_cong [OF that, of length] by simp
  from assms show ?thesis
    by (auto simp: cfg_finish_def config_valid_def st_ok_def len intro!: wp_conseq [OF assemble_wp]
        dest: position_of_Some)
qed

lemma config_parse_wp: "wp (config_parse input) config_valid"
proof -
  have "st_ok cfg_start" by (simp add: st_ok_def cfg_start_def)
  then show ?thesis
    by (auto simp: config_parse_def ini_parse_def intro!: wp_conseq [OF cfg_loop_wp] cfg_finish_wp)
qed

text \<open>
  C24.  A configuration that parses is well formed.  The parser never panics, and what it returns
  has between one and sixteen entries with distinct, valid names and valid paths, a root wherever
  the UEFI image is on a disk, and a default that is one of them: everything the serialiser
  requires and nothing downstream has to check again.
\<close>

theorem config_parse_valid: "wp (config_parse input) config_valid"
  by (rule config_parse_wp)

end
