(* ===== verification/Seal.thy ===== *)
theory Seal
  imports Bytes
begin

text \<open>
  The protector files \<open>*_seal.bin\<close> of \<open>crates/paguro-core/src/seal.rs\<close>: parser, serialiser, and
  the format itself as a function from seals to bytes.  The parser is an exact decoder of the
  format: it accepts a file if and only if it is the one encoding of a well-formed seal.
\<close>

section \<open>Data\<close>

definition VMK_LEN :: nat where "VMK_LEN = 32"
definition SALT_LEN :: nat where "SALT_LEN = 16"
definition MAGIC_LEN :: nat where "MAGIC_LEN = 8"
definition MAX_FILE :: nat where "MAX_FILE = 4096"
definition MAX_SEALED :: nat where "MAX_SEALED = 1024"
definition PCR_BANK_SHA256 :: nat where "PCR_BANK_SHA256 = 0x000B"
definition PCR_MASK_V1 :: nat where
  "PCR_MASK_V1 = push_bit 0 1 OR push_bit 2 1 OR push_bit 4 1 OR push_bit 7 1 OR push_bit 12 1"
definition TPM2B_SIZE_LEN :: nat where "TPM2B_SIZE_LEN = 2"

datatype seal_kind = Tpm | SetupTpm | Passphrase | PinBypass

definition KIND_ALL :: "seal_kind list" where "KIND_ALL = [Tpm, SetupTpm, Passphrase, PinBypass]"

fun kind_magic :: "seal_kind \<Rightarrow> bytes" where
  "kind_magic Tpm = [0x50, 0x47, 0x52, 0x54, 0x50, 0x4d, 0x00, 0x01]"
| "kind_magic SetupTpm = [0x50, 0x47, 0x52, 0x53, 0x54, 0x50, 0x00, 0x01]"
| "kind_magic Passphrase = [0x50, 0x47, 0x52, 0x50, 0x41, 0x53, 0x00, 0x01]"
| "kind_magic PinBypass = [0x50, 0x47, 0x52, 0x42, 0x59, 0x50, 0x00, 0x01]"

fun kind_file_name :: "seal_kind \<Rightarrow> string" where
  "kind_file_name Tpm = ''tpm_seal.bin''"
| "kind_file_name SetupTpm = ''setuptpm_seal.bin''"
| "kind_file_name Passphrase = ''passphrase_seal.bin''"
| "kind_file_name PinBypass = ''tpm_pin_bypass_seal.bin''"

definition has_tpm_object :: "seal_kind \<Rightarrow> bool" where
  "has_tpm_object k \<longleftrightarrow> k = Tpm \<or> k = PinBypass"

record sealed =
  s_public :: bytes
  s_private :: bytes

definition public_area :: "sealed \<Rightarrow> bytes" where
  "public_area s = (case get_range (s_public s) TPM2B_SIZE_LEN (length (s_public s)) of
     Some b \<Rightarrow> b | None \<Rightarrow> [])"

definition sealed_len :: "sealed \<Rightarrow> ('e, nat) res" where
  "sealed_len s = add64 (length (s_public s)) (length (s_private s))"

record seal_pcrs =
  pcr_bank :: nat
  pcr_mask :: nat

definition PCRS_V1 :: seal_pcrs where
  "PCRS_V1 = \<lparr>pcr_bank = PCR_BANK_SHA256, pcr_mask = PCR_MASK_V1\<rparr>"

record seal =
  skind :: seal_kind
  sdeadline :: "nat option"
  spcrs :: "seal_pcrs option"
  wrapped_vmk :: bytes
  ssalt :: bytes
  sealed_obj :: "sealed option"

datatype seal_error = TooLarge | BadMagic | Truncated | BadPcrBank | BadPcrMask | SealedTooLarge
  | SealedMalformed | TrailingBytes

type_synonym 'a sres = "(seal_error, 'a) res"

section \<open>Reading\<close>

text \<open>The closure of \<open>read_sealed\<close>: one TPM2B value, its size prefix included.\<close>

definition tpm2b :: "reader \<Rightarrow> (bytes \<times> reader) sres" where
  "tpm2b f =
    (let whole = rest f in
     rdo (r_u16_be f) SealedMalformed (\<lambda>size' f.
     if size' = 0 then Err SealedMalformed else
     rdo (rtake size' f) SealedMalformed (\<lambda>_ f.
     rbind (add64 size' TPM2B_SIZE_LEN) (\<lambda>n.
     rbind (ok_or (get_range whole 0 n) SealedMalformed) (\<lambda>v. Ok (v, f))))))"

definition read_sealed :: "reader \<Rightarrow> (sealed \<times> reader) sres" where
  "read_sealed r =
    rdo (r_u16_le r) Truncated (\<lambda>len r.
    if len > MAX_SEALED then Err SealedTooLarge else
    rdo (rtake len r) Truncated (\<lambda>field r.
    rbind (tpm2b (reader_new field)) (\<lambda>(pub, f).
    rbind (tpm2b f) (\<lambda>(priv, f).
    if \<not> reader_is_empty f then Err SealedMalformed
    else Ok (\<lparr>s_public = pub, s_private = priv\<rparr>, r)))))"

definition read_deadline :: "seal_kind \<Rightarrow> reader \<Rightarrow> (nat option \<times> reader) sres" where
  "read_deadline k r =
    (if k = PinBypass then rdo (r_u64_le r) Truncated (\<lambda>d r. Ok (Some d, r)) else Ok (None, r))"

definition read_pcrs :: "seal_kind \<Rightarrow> reader \<Rightarrow> (seal_pcrs option \<times> reader) sres" where
  "read_pcrs k r =
    (if has_tpm_object k then
       rdo (r_u16_le r) Truncated (\<lambda>b r.
       rdo (r_u32_le r) Truncated (\<lambda>m r.
       if b \<noteq> PCR_BANK_SHA256 then Err BadPcrBank
       else if m \<noteq> PCR_MASK_V1 then Err BadPcrMask
       else Ok (Some \<lparr>pcr_bank = b, pcr_mask = m\<rparr>, r)))
     else Ok (None, r))"

definition read_body :: "seal_kind \<Rightarrow> bytes \<Rightarrow> seal sres" where
  "read_body k body =
    (if length body > MAX_FILE then Err TooLarge else
     rbind (read_deadline k (reader_new body)) (\<lambda>(d, r).
     rbind (read_pcrs k r) (\<lambda>(p, r).
     rdo (rarray VMK_LEN r) Truncated (\<lambda>vmk r.
     rdo (rarray SALT_LEN r) Truncated (\<lambda>slt r.
     rbind (if has_tpm_object k
            then rbind (read_sealed r) (\<lambda>(s, r). Ok (Some s, r))
            else Ok (None, r)) (\<lambda>(s, r).
     if \<not> reader_is_empty r then Err TrailingBytes
     else Ok \<lparr>skind = k, sdeadline = d, spcrs = p, wrapped_vmk = vmk, ssalt = slt,
              sealed_obj = s\<rparr>))))))"

definition seal_read :: "seal_kind \<Rightarrow> bytes \<Rightarrow> seal sres" where
  "seal_read k file =
    (if length file > MAX_FILE then Err TooLarge else
     if length file < MAGIC_LEN then Err Truncated else
     if take MAGIC_LEN file \<noteq> kind_magic k then Err BadMagic else
     read_body k (drop MAGIC_LEN file))"

section \<open>Writing\<close>

definition write_body :: "seal \<Rightarrow> writer \<Rightarrow> writer option" where
  "write_body s w =
    Option.bind (if skind s = PinBypass
      then w_u64_le w (case sdeadline s of Some d \<Rightarrow> d | None \<Rightarrow> 0) else Some w) (\<lambda>w.
    Option.bind (if has_tpm_object (skind s) then
        (let p = (case spcrs s of Some p \<Rightarrow> p | None \<Rightarrow> \<lparr>pcr_bank = 0, pcr_mask = 0\<rparr>) in
         Option.bind (w_u16_le w (pcr_bank p)) (\<lambda>w. w_u32_le w (pcr_mask p)))
      else Some w) (\<lambda>w.
    Option.bind (wput w (wrapped_vmk s)) (\<lambda>w.
    Option.bind (wput w (ssalt s)) (\<lambda>w.
    if has_tpm_object (skind s) then
      (let o' = (case sealed_obj s of Some x \<Rightarrow> x | None \<Rightarrow> \<lparr>s_public = [], s_private = []\<rparr>);
           n = length (s_public o') + length (s_private o') in
       if n < u16_lim then
         Option.bind (w_u16_le w n) (\<lambda>w.
         Option.bind (wput w (s_public o')) (\<lambda>w. wput w (s_private o')))
       else None)
    else Some w))))"

definition seal_write :: "seal \<Rightarrow> bytes \<Rightarrow> (nat \<times> bytes) option" where
  \<comment> \<open>the length, and the buffer as it is left\<close>
  "seal_write s out =
    Option.bind (wput (writer_new out) (kind_magic (skind s))) (\<lambda>w.
    Option.bind (write_body s w) (\<lambda>w. Some (wlen w, wbuf w)))"

section \<open>The format\<close>

definition tpm2b_ok :: "bytes \<Rightarrow> bool" where
  "tpm2b_ok b \<longleftrightarrow> 3 \<le> length b \<and> be_val (take 2 b) = length b - 2"

definition sealed_ok :: "sealed \<Rightarrow> bool" where
  "sealed_ok s \<longleftrightarrow> tpm2b_ok (s_public s) \<and> tpm2b_ok (s_private s)
     \<and> length (s_public s) + length (s_private s) \<le> 1024"

text \<open>The fields a kind has, exactly those.\<close>

definition seal_ok :: "seal \<Rightarrow> bool" where
  "seal_ok s \<longleftrightarrow>
     (case sdeadline s of None \<Rightarrow> skind s \<noteq> PinBypass | Some d \<Rightarrow> skind s = PinBypass \<and> d < u64_lim)
   \<and> spcrs s = (if has_tpm_object (skind s) then Some PCRS_V1 else None)
   \<and> length (wrapped_vmk s) = 32 \<and> length (ssalt s) = 16
   \<and> (case sealed_obj s of None \<Rightarrow> \<not> has_tpm_object (skind s)
      | Some x \<Rightarrow> has_tpm_object (skind s) \<and> sealed_ok x)"

definition sealed_bytes :: "sealed \<Rightarrow> bytes" where
  "sealed_bytes s = le_bytes 2 (length (s_public s) + length (s_private s)) @ s_public s @ s_private s"

definition seal_body :: "seal \<Rightarrow> bytes" where
  "seal_body s =
     (case sdeadline s of Some d \<Rightarrow> le_bytes 8 d | None \<Rightarrow> [])
   @ (case spcrs s of Some p \<Rightarrow> le_bytes 2 (pcr_bank p) @ le_bytes 4 (pcr_mask p) | None \<Rightarrow> [])
   @ wrapped_vmk s @ ssalt s
   @ (case sealed_obj s of Some x \<Rightarrow> sealed_bytes x | None \<Rightarrow> [])"

definition seal_file :: "seal \<Rightarrow> bytes" where
  "seal_file s = kind_magic (skind s) @ seal_body s"

section \<open>The parser decodes the format\<close>

lemma seal_consts:
  "VMK_LEN = 32" "SALT_LEN = 16" "MAGIC_LEN = 8" "MAX_FILE = 4096" "MAX_SEALED = 1024"
  "TPM2B_SIZE_LEN = 2" "PCR_BANK_SHA256 = 11" "PCR_MASK_V1 = 4245"
  by (simp_all add: VMK_LEN_def SALT_LEN_def MAGIC_LEN_def MAX_FILE_def MAX_SEALED_def
      TPM2B_SIZE_LEN_def PCR_BANK_SHA256_def PCR_MASK_V1_def)

lemma length_kind_magic [simp]: "length (kind_magic k) = 8"
  by (cases k) simp_all

lemma tpm2b_Ok: "tpm2b f = Ok (v, f') \<longleftrightarrow> tpm2b_ok v \<and> f = v @ f' \<and> length v < 2 + u16_lim"
proof
  assume "tpm2b f = Ok (v, f')"
  then obtain n r x where n: "r_u16_be f = Some (n, r)" "n \<noteq> 0" and x: "rtake n r = Some (x, f')"
    and v: "get_range f 0 (n + 2) = Some v"
    by (auto simp: tpm2b_def Let_def rdo_eq_Ok rbind_eq_Ok rest_def seal_consts split: if_splits)
  from n have f: "n < u16_lim" "f = be_bytes 2 n @ r" by (auto dest: r_u16_be_front)
  from x have r: "r = x @ f'" "length x = n" by (auto dest: rtake_SomeD)
  from v f r have "v = be_bytes 2 n @ x" by (auto simp: get_range_Some_iff)
  then show "tpm2b_ok v \<and> f = v @ f' \<and> length v < 2 + u16_lim" using f r n by (simp add: tpm2b_ok_def)
next
  assume v: "tpm2b_ok v \<and> f = v @ f' \<and> length v < 2 + u16_lim"
  then have t: "take 2 v = be_bytes 2 (length v - 2)"
    using be_bytes_be_val [of "take 2 v" 2] by (simp add: tpm2b_ok_def)
  have "f = be_bytes 2 (length v - 2) @ (drop 2 v @ f')"
    using v append_take_drop_id [of 2 v] by (metis append_assoc t)
  moreover have "length v - 2 < u16_lim" using v by linarith
  ultimately have "r_u16_be f = Some (length v - 2, drop 2 v @ f')" by (metis r_u16_be_append)
  with v show "tpm2b f = Ok (v, f')"
    by (auto simp: tpm2b_def Let_def rest_def seal_consts add64_def get_range_def tpm2b_ok_def)
qed

lemma read_sealed_Ok: "read_sealed r = Ok (x, r') \<longleftrightarrow> sealed_ok x \<and> r = sealed_bytes x @ r'"
proof
  assume "read_sealed r = Ok (x, r')"
  then obtain n q fld pub f priv where n: "r_u16_le r = Some (n, q)" "n \<le> 1024"
    and fl: "rtake n q = Some (fld, r')" and p: "tpm2b fld = Ok (pub, f)" "tpm2b f = Ok (priv, [])"
    and x: "x = \<lparr>s_public = pub, s_private = priv\<rparr>"
    by (auto simp: read_sealed_def rdo_eq_Ok rbind_eq_Ok seal_consts reader_new_def reader_is_empty_def
        split: if_splits prod.splits)
  then show "sealed_ok x \<and> r = sealed_bytes x @ r'"
    by (auto simp: tpm2b_Ok sealed_ok_def sealed_bytes_def dest!: r_u16_le_SomeD rtake_SomeD)
next
  assume x: "sealed_ok x \<and> r = sealed_bytes x @ r'"
  then have t: "tpm2b (s_public x @ s_private x) = Ok (s_public x, s_private x)"
    "tpm2b (s_private x) = Ok (s_private x, [])"
    unfolding tpm2b_Ok by (auto simp: sealed_ok_def)
  have "rtake (length (s_public x) + length (s_private x)) (s_public x @ s_private x @ r')
      = Some (s_public x @ s_private x, r')"
    using rtake_append [of "s_public x @ s_private x" _ r'] by simp
  with x t show "read_sealed r = Ok (x, r')"
    by (simp add: read_sealed_def sealed_bytes_def sealed_ok_def seal_consts reader_new_def
        reader_is_empty_def)
qed

lemma read_deadline_Ok:
  "read_deadline k r = Ok (d, r') \<longleftrightarrow>
    (if k = PinBypass then \<exists>v. d = Some v \<and> v < u64_lim \<and> r = le_bytes 8 v @ r' else d = None \<and> r' = r)"
  by (auto simp: read_deadline_def rdo_eq_Ok dest: r_u64_le_SomeD)

lemma read_pcrs_Ok:
  "read_pcrs k r = Ok (p, r') \<longleftrightarrow>
    (if has_tpm_object k then p = Some PCRS_V1 \<and> r = le_bytes 2 11 @ le_bytes 4 4245 @ r'
     else p = None \<and> r' = r)"
  by (auto simp: read_pcrs_def rdo_eq_Ok PCRS_V1_def seal_consts split: if_splits
      dest: r_u16_le_SomeD r_u32_le_SomeD)

lemma rarray_Ok: "rarray n r = Some (b, r') \<longleftrightarrow> length b = n \<and> r = b @ r'"
  by (auto dest: rarray_SomeD)

lemma length_seal_body: "seal_ok s \<Longrightarrow> length (seal_body s) \<le> 1088"
  by (auto simp: seal_ok_def seal_body_def sealed_bytes_def sealed_ok_def split: option.splits if_splits)

lemma read_body_Ok: "read_body k b = Ok s \<longleftrightarrow> seal_ok s \<and> skind s = k \<and> b = seal_body s"
proof
  assume "read_body k b = Ok s"
  then show "seal_ok s \<and> skind s = k \<and> b = seal_body s"
    by (auto simp: read_body_def rbind_eq_Ok rdo_eq_Ok read_deadline_Ok read_pcrs_Ok rarray_Ok
        read_sealed_Ok reader_new_def reader_is_empty_def seal_consts seal_ok_def seal_body_def PCRS_V1_def
        has_tpm_object_def split: if_splits)
next
  assume s: "seal_ok s \<and> skind s = k \<and> b = seal_body s"
  have l: "length b \<le> 4096" using s length_seal_body by fastforce
  let ?p = "case spcrs s of Some p \<Rightarrow> le_bytes 2 (pcr_bank p) @ le_bytes 4 (pcr_mask p) | None \<Rightarrow> []"
  define x where "x = (case sealed_obj s of Some x \<Rightarrow> sealed_bytes x | None \<Rightarrow> [])"
  have 1: "read_deadline k b = Ok (sdeadline s, ?p @ wrapped_vmk s @ ssalt s @ x)"
    using s by (auto simp: read_deadline_Ok seal_ok_def seal_body_def x_def split: option.splits)
  have 2: "read_pcrs k (?p @ wrapped_vmk s @ ssalt s @ x) = Ok (spcrs s, wrapped_vmk s @ ssalt s @ x)"
    using s by (auto simp: read_pcrs_Ok seal_ok_def PCRS_V1_def seal_consts split: if_splits)
  have 3: "rbind (read_sealed x) (\<lambda>(s, r). Ok (Some s, r)) = Ok (sealed_obj s, [])" if "has_tpm_object k"
    using s that by (auto simp: rbind_eq_Ok read_sealed_Ok seal_ok_def x_def split: option.splits)
  have 4: "x = [] \<and> sealed_obj s = None" if "\<not> has_tpm_object k"
    using s that by (auto simp: seal_ok_def x_def split: option.splits)
  have "length (wrapped_vmk s) = 32" "length (ssalt s) = 16" using s by (simp_all add: seal_ok_def)
  moreover have "skind s = k" using s by simp
  ultimately show "read_body k b = Ok s"
    unfolding read_body_def reader_new_def seal_consts 1 rbind.simps prod.case 2
    using l 3 4 by (cases "has_tpm_object k") (simp_all add: reader_is_empty_def rarray_def rtake_def)
qed

lemma seal_read_Ok: "seal_read k f = Ok s \<longleftrightarrow> seal_ok s \<and> skind s = k \<and> f = seal_file s"
proof
  assume "seal_read k f = Ok s"
  then show "seal_ok s \<and> skind s = k \<and> f = seal_file s"
    by (auto simp: seal_read_def read_body_Ok seal_consts seal_file_def split: if_splits)
      (metis append_take_drop_id)
next
  assume s: "seal_ok s \<and> skind s = k \<and> f = seal_file s"
  with length_seal_body [of s] show "seal_read k f = Ok s"
    by (auto simp: seal_read_def read_body_Ok seal_consts seal_file_def)
qed

interpretation sf: codec seal_file "seal_read k" "\<lambda>s. seal_ok s \<and> skind s = k" for k
  by unfold_locales (auto simp: seal_read_Ok)

lemma tpm2b_wp: "wp (tpm2b f) (\<lambda>_. True)"
  by (auto simp: tpm2b_def Let_def seal_consts dest: r_u16_be_front)

lemma read_body_wp: "wp (read_body k b) (\<lambda>_. True)"
  by (auto simp: read_body_def read_deadline_def read_pcrs_def read_sealed_def intro!: wp_conseq [OF tpm2b_wp])

lemma seal_read_not_Panic: "seal_read k f \<noteq> Panic"
  using read_body_wp by (auto simp: seal_read_def wp_True)

text \<open>The serialiser writes the format.\<close>

lemma write_body_wr:
  assumes "seal_ok s" "length (seal_body s) \<le> length room" "length pre + length room < u64_lim"
  shows "write_body s (wr pre room) = Some (wr (pre @ seal_body s) (drop (length (seal_body s)) room))"
proof -
  have [simp]: "has_tpm_object Tpm" "has_tpm_object PinBypass" "\<not> has_tpm_object SetupTpm"
    "\<not> has_tpm_object Passphrase" by (simp_all add: has_tpm_object_def)
  have n: "length (s_public x) + length (s_private x) < u16_lim" if "sealed_ok x" for x
    using that by (simp add: sealed_ok_def)
  show ?thesis
    using assms n
    by (cases "skind s"; cases "sdeadline s"; cases "sealed_obj s")
      (auto simp: write_body_def seal_ok_def seal_body_def sealed_bytes_def w_ints Let_def add.commute
        add.left_commute)
qed

text \<open>
  C23.  The seal parser decodes the documented format exactly.  It never panics; a file is accepted
  as a kind if and only if it is the encoding of a well-formed seal of that kind (so no file has
  two readings and no seal two files), and \<open>write\<close> produces that encoding in any buffer that is
  large enough.
\<close>

theorem seal_format_exact:
  "seal_read k f \<noteq> Panic
   \<and> (seal_read k f = Ok s \<longleftrightarrow> seal_ok s \<and> skind s = k \<and> f = seal_file s)
   \<and> (seal_ok s \<and> length (seal_file s) \<le> length out \<and> length out < u64_lim
        \<longrightarrow> seal_write s out = Some (length (seal_file s), seal_file s @ drop (length (seal_file s)) out))"
proof (intro conjI impI)
  show "seal_read k f \<noteq> Panic"
    by (rule seal_read_not_Panic)
  show "seal_read k f = Ok s \<longleftrightarrow> seal_ok s \<and> skind s = k \<and> f = seal_file s"
    by (simp add: sf.dec_iff)
  assume a: "seal_ok s \<and> length (seal_file s) \<le> length out \<and> length out < u64_lim"
  then have "wput (wr [] out) (kind_magic (skind s)) = Some (wr (kind_magic (skind s)) (drop 8 out))"
    by (simp add: seal_file_def)
  moreover have "write_body s (wr (kind_magic (skind s)) (drop 8 out))
      = Some (wr (seal_file s) (drop (length (seal_file s)) out))"
    using a write_body_wr [of s "drop 8 out" "kind_magic (skind s)"]
    by (auto simp: seal_file_def add.commute le_diff_conv2)
  ultimately show "seal_write s out = Some (length (seal_file s), seal_file s @ drop (length (seal_file s)) out)"
    by (simp add: seal_write_def writer_new_wr)
qed

theorem seal_format_exact_witness:
  "seal_read Passphrase (seal_file \<lparr>skind = Passphrase, sdeadline = None, spcrs = None,
      wrapped_vmk = replicate 32 7, ssalt = replicate 16 9, sealed_obj = None\<rparr>)
    = Ok \<lparr>skind = Passphrase, sdeadline = None, spcrs = None,
      wrapped_vmk = replicate 32 7, ssalt = replicate 16 9, sealed_obj = None\<rparr>
   \<and> fst (the (seal_write \<lparr>skind = Passphrase, sdeadline = None, spcrs = None,
      wrapped_vmk = replicate 32 7, ssalt = replicate 16 9, sealed_obj = None\<rparr> (replicate 64 0))) = 56"
proof -
  let ?s = "\<lparr>skind = Passphrase, sdeadline = None, spcrs = None,
      wrapped_vmk = replicate 32 7, ssalt = replicate 16 9, sealed_obj = None\<rparr>"
  have ok: "seal_ok ?s" "length (seal_file ?s) = 56"
    by (simp_all add: seal_ok_def has_tpm_object_def seal_file_def seal_body_def)
  show ?thesis
    using seal_format_exact [of Passphrase "seal_file ?s" ?s "replicate 64 0"] ok
    by (simp add: ok(2))
qed

end
