(* ===== verification/Handoff.thy ===== *)
theory Handoff
  imports Seal Config Layout
begin

text \<open>
  The handoff from the loader to the initrd, \<open>crates/paguro-core/src/handoff.rs\<close>: a header and
  type-length-value records, decoded in any order and encoded in canonical order.
\<close>

section \<open>Data\<close>

definition HANDOFF_MAGIC :: bytes where
  "HANDOFF_MAGIC = [0x50, 0x47, 0x52, 0x48, 0x4f, 0x46, 0x00, 0x01]"

text \<open>The layout-only structs.\<close>

definition header_struct :: layout where
  "header_struct = [(''magic'', 8), (''total_len'', 4), (''record_count'', 2), (''reserved'', 2)]"
definition volume_value :: layout where
  "volume_value = [(''partition'', 16), (''first_lba'', 8), (''sectors'', 8)]"
definition fve_layout_value :: layout where
  "fve_layout_value = [(''metadata_offsets'', 24), (''region_size'', 8), (''boot_sector_reloc_offset'', 8),
     (''boot_sector_reloc_sectors'', 4), (''encrypted_size'', 8), (''sector_size'', 4),
     (''extra_region_offset'', 8)]"
definition image_head :: layout where "image_head = [(''role'', 1), (''name_len'', 1)]"
definition image_tail :: layout where "image_tail = [(''mft_record'', 8), (''mft_seq'', 2)]"

definition HEADER_LEN :: nat where "HEADER_LEN = size_of header_struct"
definition IMAGE_FIXED_LEN :: nat where "IMAGE_FIXED_LEN = size_of image_head + size_of image_tail"
definition KEY_LEN :: nat where "KEY_LEN = 32"
definition PCR_VALUE_LEN :: nat where "PCR_VALUE_LEN = 32"
definition STATE_LEN :: nat where "STATE_LEN = 4"
definition RUNG_LEN :: nat where "RUNG_LEN = 1"
definition SECTOR_SIZE_512 :: nat where "SECTOR_SIZE_512 = 512"
definition SECTOR_SIZE_4096 :: nat where "SECTOR_SIZE_4096 = 4096"
definition HANDOFF_MAX_LEN :: nat where "HANDOFF_MAX_LEN = 96 * 1024"
definition MAX_FVEK_KEY :: nat where "MAX_FVEK_KEY = 64"
definition PCR_COUNT :: nat where "PCR_COUNT = 24"

definition RT_VOLUME :: nat where "RT_VOLUME = 1"
definition RT_VMK :: nat where "RT_VMK = 2"
definition RT_FVEK :: nat where "RT_FVEK = 3"
definition RT_FVE_LAYOUT :: nat where "RT_FVE_LAYOUT = 4"
definition RT_B :: nat where "RT_B = 5"
definition RT_PCRS :: nat where "RT_PCRS = 6"
definition RT_CONFIG :: nat where "RT_CONFIG = 7"
definition RT_IMAGE :: nat where "RT_IMAGE = 8"
definition RT_STATE :: nat where "RT_STATE = 9"
definition RT_RUNG :: nat where "RT_RUNG = 10"
definition RT_PROVISION :: nat where "RT_PROVISION = 11"

definition HIBERNATED :: nat where "HIBERNATED = 1"
definition DIRTY :: nat where "DIRTY = 2"
definition CONFIG_UNVERIFIED :: nat where "CONFIG_UNVERIFIED = 4"
definition RECOVERY_PATH :: nat where "RECOVERY_PATH = 8"
definition STATE_ALL :: nat where "STATE_ALL = HIBERNATED OR DIRTY OR CONFIG_UNVERIFIED OR RECOVERY_PATH"

datatype rung = RTpm | RSetupTpm | RPassphrase | RRecoveryKey | RPinBypass | RBootstrap | RClearKey
  | RUnencrypted | RBitLockerPassword

fun rung_num :: "rung \<Rightarrow> nat" where
  "rung_num RTpm = 1" | "rung_num RSetupTpm = 2" | "rung_num RPassphrase = 3"
| "rung_num RRecoveryKey = 4" | "rung_num RPinBypass = 5" | "rung_num RBootstrap = 6"
| "rung_num RClearKey = 7" | "rung_num RUnencrypted = 8" | "rung_num RBitLockerPassword = 9"

definition rung_from_u8 :: "nat \<Rightarrow> rung option" where
  "rung_from_u8 v =
    (if v = 1 then Some RTpm else if v = 2 then Some RSetupTpm else if v = 3 then Some RPassphrase
     else if v = 4 then Some RRecoveryKey else if v = 5 then Some RPinBypass
     else if v = 6 then Some RBootstrap else if v = 7 then Some RClearKey
     else if v = 8 then Some RUnencrypted else if v = 9 then Some RBitLockerPassword else None)"

record h_volume =
  hv_partition :: guid
  hv_first_lba :: nat
  hv_sectors :: nat

record fvek =
  fk_cipher :: nat
  fk_key :: bytes

record fve_layout =
  fl_metadata_offsets :: "nat \<times> nat \<times> nat"
  fl_region_size :: nat
  fl_reloc_offset :: nat
  fl_reloc_sectors :: nat
  fl_encrypted_size :: nat
  fl_sector_size :: nat
  fl_extra_region_offset :: nat

record h_pcrs =
  hp_mask :: nat
  hp_values :: bytes

datatype role = Root | EfiDiskRole | EfiFileRole

fun role_num :: "role \<Rightarrow> nat" where
  "role_num Root = 1" | "role_num EfiDiskRole = 2" | "role_num EfiFileRole = 3"

definition role_from_u8 :: "nat \<Rightarrow> role option" where
  "role_from_u8 v = (if v = 1 then Some Root else if v = 2 then Some EfiDiskRole
     else if v = 3 then Some EfiFileRole else None)"

record image_id =
  im_name :: str
  im_record :: nat
  im_seq :: nat

record handoff =
  h_vol :: h_volume
  h_vmk :: "bytes option"
  h_fvek :: "fvek option"
  h_fve_layout :: "fve_layout option"
  h_b :: bytes
  h_pcr :: h_pcrs
  h_config :: "bytes option"
  h_root :: "image_id option"
  h_efi_disk :: "image_id option"
  h_efi_file :: "image_id option"
  h_state :: nat
  h_rung :: rung
  h_provision :: "seal option"

datatype handoff_error = HTooLarge | HTruncated | HBadMagic | LengthMismatch | ReservedNonZero
  | CountMismatch | UnknownType nat | Duplicate nat | HMissing nat | HBadLength nat | BadValue nat
  | UnknownStateFlags | DuplicateRole role | HProvision seal_error

type_synonym 'a hres = "(handoff_error, 'a) res"

definition count_ones :: "nat \<Rightarrow> nat" where
  "count_ones m = length (filter (\<lambda>i. bit m i) [0..<32])"

definition pcr_value_len :: "nat \<Rightarrow> nat option" where
  "pcr_value_len m =
    (if m = 0 \<or> drop_bit PCR_COUNT m \<noteq> 0 then None else Some (count_ones m * PCR_VALUE_LEN))"

definition images_consistent :: "image_id option \<Rightarrow> image_id option \<Rightarrow> image_id option \<Rightarrow> bool" where
  "images_consistent root disk file =
    (if disk \<noteq> None \<and> (root = None \<or> file \<noteq> None) then False
     else case (case disk of Some d \<Rightarrow> Some d | None \<Rightarrow> file) of
       None \<Rightarrow> True
     | Some e \<Rightarrow> (case root of None \<Rightarrow> True
         | Some r \<Rightarrow> im_name e = im_name r \<and> im_record e \<noteq> im_record r))"

section \<open>Decoding\<close>

record hd_state =
  ds_seen :: nat
  ds_vol :: "h_volume option"
  ds_vmk :: "bytes option"
  ds_fvek :: "fvek option"
  ds_layout :: "fve_layout option"
  ds_b :: "bytes option"
  ds_pcrs :: "h_pcrs option"
  ds_config :: "bytes option"
  ds_root :: "image_id option"
  ds_efi_disk :: "image_id option"
  ds_efi_file :: "image_id option"
  ds_st :: "nat option"
  ds_rung :: "rung option"
  ds_provision :: "seal option"

definition hd_start :: hd_state where
  "hd_start = \<lparr>ds_seen = 0, ds_vol = None, ds_vmk = None, ds_fvek = None, ds_layout = None,
     ds_b = None, ds_pcrs = None, ds_config = None, ds_root = None, ds_efi_disk = None,
     ds_efi_file = None, ds_st = None, ds_rung = None, ds_provision = None\<rparr>"

definition dec_volume :: "bytes \<Rightarrow> h_volume hres" where
  "dec_volume v =
    rdo (rarray 16 (reader_new v)) HTruncated (\<lambda>g r.
    rdo (r_u64_le r) HTruncated (\<lambda>f r.
    rdo (r_u64_le r) HTruncated (\<lambda>s r.
    Ok \<lparr>hv_partition = g, hv_first_lba = f, hv_sectors = s\<rparr>)))"

definition dec_fvek :: "nat \<Rightarrow> bytes \<Rightarrow> fvek hres" where
  "dec_fvek t v =
    rdo (r_u16_le (reader_new v)) (HBadLength t) (\<lambda>c r.
    rdo (r_u16_le r) (HBadLength t) (\<lambda>klen r.
    if klen = 0 \<or> klen > MAX_FVEK_KEY then Err (BadValue t)
    else if remaining r \<noteq> klen then Err (HBadLength t)
    else Ok \<lparr>fk_cipher = c, fk_key = rest r\<rparr>))"

definition dec_layout :: "nat \<Rightarrow> bytes \<Rightarrow> fve_layout hres" where
  "dec_layout t v =
    rdo (r_u64_le (reader_new v)) HTruncated (\<lambda>m0 r.
    rdo (r_u64_le r) HTruncated (\<lambda>m1 r.
    rdo (r_u64_le r) HTruncated (\<lambda>m2 r.
    rdo (r_u64_le r) HTruncated (\<lambda>rs r.
    rdo (r_u64_le r) HTruncated (\<lambda>ro r.
    rdo (r_u32_le r) HTruncated (\<lambda>rn r.
    rdo (r_u64_le r) HTruncated (\<lambda>es r.
    rdo (r_u32_le r) HTruncated (\<lambda>ss r.
    rdo (r_u64_le r) HTruncated (\<lambda>xo r.
    if ss \<noteq> SECTOR_SIZE_512 \<and> ss \<noteq> SECTOR_SIZE_4096 then Err (BadValue t)
    else Ok \<lparr>fl_metadata_offsets = (m0, m1, m2), fl_region_size = rs, fl_reloc_offset = ro,
             fl_reloc_sectors = rn, fl_encrypted_size = es, fl_sector_size = ss,
             fl_extra_region_offset = xo\<rparr>)))))))))"

definition dec_pcrs :: "nat \<Rightarrow> bytes \<Rightarrow> h_pcrs hres" where
  "dec_pcrs t v =
    rdo (r_u32_le (reader_new v)) (HBadLength t) (\<lambda>m r.
    rbind (ok_or (pcr_value_len m) (BadValue t)) (\<lambda>want.
    if remaining r \<noteq> want then Err (HBadLength t)
    else Ok \<lparr>hp_mask = m, hp_values = rest r\<rparr>))"

definition slot_of :: "role \<Rightarrow> hd_state \<Rightarrow> image_id option" where
  "slot_of ro st = (case ro of Root \<Rightarrow> ds_root st | EfiDiskRole \<Rightarrow> ds_efi_disk st | EfiFileRole \<Rightarrow> ds_efi_file st)"

definition set_slot :: "role \<Rightarrow> image_id \<Rightarrow> hd_state \<Rightarrow> hd_state" where
  "set_slot ro i st = (case ro of Root \<Rightarrow> st\<lparr>ds_root := Some i\<rparr>
     | EfiDiskRole \<Rightarrow> st\<lparr>ds_efi_disk := Some i\<rparr> | EfiFileRole \<Rightarrow> st\<lparr>ds_efi_file := Some i\<rparr>)"

definition dec_image :: "nat \<Rightarrow> bytes \<Rightarrow> hd_state \<Rightarrow> hd_state hres" where
  "dec_image t v st =
    rdo (r_u8 (reader_new v)) (HBadLength t) (\<lambda>ro r.
    rdo (r_u8 r) (HBadLength t) (\<lambda>nl r.
    rbind (add64 IMAGE_FIXED_LEN nl) (\<lambda>want.
    if length v \<noteq> want then Err (HBadLength t) else
    rbind (ok_or (role_from_u8 ro) (BadValue t)) (\<lambda>ro.
    rdo (rtake nl r) HTruncated (\<lambda>nb r.
    rbind (ok_or (from_utf8 nb) (BadValue t)) (\<lambda>name.
    if \<not> check_name name then Err (BadValue t) else
    if slot_of ro st \<noteq> None then Err (DuplicateRole ro) else
    rdo (r_u64_le r) HTruncated (\<lambda>rec r.
    rdo (r_u16_le r) HTruncated (\<lambda>sq r.
    Ok (set_slot ro \<lparr>im_name = name, im_record = rec, im_seq = sq\<rparr> st)))))))))"

definition fixed :: "nat \<Rightarrow> bytes \<Rightarrow> nat \<Rightarrow> unit hres" where
  "fixed t v want = ensure (length v = want) (HBadLength t)"

text \<open>One record: its type checked, marked as seen, its value decoded.\<close>

definition dec_value :: "nat \<Rightarrow> bytes \<Rightarrow> hd_state \<Rightarrow> hd_state hres" where
  "dec_value t v st =
    (if t = RT_VOLUME then
       rbind (fixed t v (size_of volume_value)) (\<lambda>_. rbind (dec_volume v) (\<lambda>x. Ok (st\<lparr>ds_vol := Some x\<rparr>)))
     else if t = RT_VMK then
       rbind (fixed t v KEY_LEN) (\<lambda>_.
       rdo (rarray KEY_LEN (reader_new v)) HTruncated (\<lambda>k r. Ok (st\<lparr>ds_vmk := Some k\<rparr>)))
     else if t = RT_FVEK then rbind (dec_fvek t v) (\<lambda>x. Ok (st\<lparr>ds_fvek := Some x\<rparr>))
     else if t = RT_FVE_LAYOUT then
       rbind (fixed t v (size_of fve_layout_value)) (\<lambda>_.
       rbind (dec_layout t v) (\<lambda>x. Ok (st\<lparr>ds_layout := Some x\<rparr>)))
     else if t = RT_B then
       rbind (fixed t v KEY_LEN) (\<lambda>_.
       rdo (rarray KEY_LEN (reader_new v)) HTruncated (\<lambda>k r. Ok (st\<lparr>ds_b := Some k\<rparr>)))
     else if t = RT_PCRS then rbind (dec_pcrs t v) (\<lambda>x. Ok (st\<lparr>ds_pcrs := Some x\<rparr>))
     else if t = RT_CONFIG then Ok (st\<lparr>ds_config := Some v\<rparr>)
     else if t = RT_IMAGE then dec_image t v st
     else if t = RT_STATE then
       rbind (fixed t v STATE_LEN) (\<lambda>_.
       rdo (r_u32_le (reader_new v)) HTruncated (\<lambda>s r.
       if s AND (STATE_ALL XOR 0xffffffff) \<noteq> 0 then Err UnknownStateFlags
       else Ok (st\<lparr>ds_st := Some s\<rparr>)))
     else if t = RT_RUNG then
       rbind (fixed t v RUNG_LEN) (\<lambda>_.
       rdo (r_u8 (reader_new v)) HTruncated (\<lambda>x r.
       rbind (ok_or (rung_from_u8 x) (BadValue t)) (\<lambda>x. Ok (st\<lparr>ds_rung := Some x\<rparr>))))
     else
       rbind (map_err HProvision (read_body Tpm v)) (\<lambda>x. Ok (st\<lparr>ds_provision := Some x\<rparr>)))"

definition dec_record :: "nat \<Rightarrow> bytes \<Rightarrow> hd_state \<Rightarrow> hd_state hres" where
  "dec_record t v st =
    (if \<not> (RT_VOLUME \<le> t \<and> t \<le> RT_PROVISION) then Err (UnknownType t) else
     let bt = push_bit t 1 in
     rbind (if t \<noteq> RT_IMAGE then
              (if ds_seen st AND bt \<noteq> 0 then Err (Duplicate t)
               else Ok (st\<lparr>ds_seen := ds_seen st OR bt\<rparr>))
            else Ok st) (dec_value t v))"

function dec_loop :: "nat \<Rightarrow> nat \<Rightarrow> reader \<Rightarrow> hd_state \<Rightarrow> (nat \<times> hd_state) hres" where
  "dec_loop cnt n r st =
    (if reader_is_empty r then Ok (n, st)
     else if n = cnt then Err CountMismatch
     else
       rbind (add16 n 1) (\<lambda>n.
       rdo (r_u16_le r) HTruncated (\<lambda>t r1.
       rdo (r_u32_le r1) HTruncated (\<lambda>len r2.
       rdo (rtake len r2) HTruncated (\<lambda>v r3.
       rbind (dec_record t v st) (\<lambda>st.
       dec_loop cnt n r3 st))))))"
  by pat_completeness auto
termination
  by (relation "measure (\<lambda>(cnt, n, r, st). length r)")
    (auto dest!: r_u16_le_SomeD r_u32_le_SomeD rtake_SomeD)

declare dec_loop.simps [simp del]

definition dec_finish :: "hd_state \<Rightarrow> handoff hres" where
  "dec_finish st =
    (if \<not> images_consistent (ds_root st) (ds_efi_disk st) (ds_efi_file st) then Err (BadValue RT_IMAGE) else
     rbind (ok_or (ds_vol st) (HMissing RT_VOLUME)) (\<lambda>vol.
     rbind (ok_or (ds_b st) (HMissing RT_B)) (\<lambda>b.
     rbind (ok_or (ds_pcrs st) (HMissing RT_PCRS)) (\<lambda>p.
     rbind (ok_or (ds_st st) (HMissing RT_STATE)) (\<lambda>s.
     rbind (ok_or (ds_rung st) (HMissing RT_RUNG)) (\<lambda>ru.
     Ok \<lparr>h_vol = vol, h_vmk = ds_vmk st, h_fvek = ds_fvek st, h_fve_layout = ds_layout st,
         h_b = b, h_pcr = p, h_config = ds_config st, h_root = ds_root st,
         h_efi_disk = ds_efi_disk st, h_efi_file = ds_efi_file st, h_state = s, h_rung = ru,
         h_provision = ds_provision st\<rparr>))))))"

definition handoff_decode :: "bytes \<Rightarrow> handoff hres" where
  "handoff_decode blob =
    (if length blob > HANDOFF_MAX_LEN then Err HTooLarge else
     rdo (rarray (length HANDOFF_MAGIC) (reader_new blob)) HTruncated (\<lambda>m r.
     if m \<noteq> HANDOFF_MAGIC then Err HBadMagic else
     rdo (r_u32_le r) HTruncated (\<lambda>tot r.
     rdo (r_u16_le r) HTruncated (\<lambda>cnt r.
     rdo (r_u16_le r) HTruncated (\<lambda>rsv r.
     if rsv \<noteq> 0 then Err ReservedNonZero else
     if tot \<noteq> length blob then Err LengthMismatch else
     rbind (dec_loop cnt 0 r hd_start) (\<lambda>(n, st).
     if n \<noteq> cnt then Err CountMismatch else dec_finish st))))))"

section \<open>Encoding\<close>

datatype encode_error = EFull | EInvalid

definition enc_record :: "nat \<Rightarrow> (writer \<Rightarrow> writer option) \<Rightarrow> writer \<Rightarrow> writer option" where
  "enc_record t body w =
    Option.bind (w_u16_le w t) (\<lambda>w.
    let len_at = wlen w in
    Option.bind (w_u32_le w 0) (\<lambda>w.
    let start = wlen w in
    Option.bind (body w) (\<lambda>w.
    let len = wlen w - start in
    if len < u32_lim then patch w len_at (le_bytes 4 len) else None)))"

definition enc_volume :: "h_volume \<Rightarrow> writer \<Rightarrow> writer option" where
  "enc_volume v w =
    Option.bind (wput w (hv_partition v)) (\<lambda>w.
    Option.bind (w_u64_le w (hv_first_lba v)) (\<lambda>w. w_u64_le w (hv_sectors v)))"

definition enc_fvek :: "fvek \<Rightarrow> writer \<Rightarrow> writer option" where
  "enc_fvek f w =
    Option.bind (w_u16_le w (fk_cipher f)) (\<lambda>w.
    Option.bind (if length (fk_key f) < u16_lim then w_u16_le w (length (fk_key f)) else None) (\<lambda>w.
    wput w (fk_key f)))"

definition enc_layout :: "fve_layout \<Rightarrow> writer \<Rightarrow> writer option" where
  "enc_layout l w =
    (case fl_metadata_offsets l of (m0, m1, m2) \<Rightarrow>
    Option.bind (w_u64_le w m0) (\<lambda>w.
    Option.bind (w_u64_le w m1) (\<lambda>w.
    Option.bind (w_u64_le w m2) (\<lambda>w.
    Option.bind (w_u64_le w (fl_region_size l)) (\<lambda>w.
    Option.bind (w_u64_le w (fl_reloc_offset l)) (\<lambda>w.
    Option.bind (w_u32_le w (fl_reloc_sectors l)) (\<lambda>w.
    Option.bind (w_u64_le w (fl_encrypted_size l)) (\<lambda>w.
    Option.bind (w_u32_le w (fl_sector_size l)) (\<lambda>w.
    w_u64_le w (fl_extra_region_offset l))))))))))"

definition enc_pcrs :: "h_pcrs \<Rightarrow> writer \<Rightarrow> writer option" where
  "enc_pcrs p w = Option.bind (w_u32_le w (hp_mask p)) (\<lambda>w. wput w (hp_values p))"

definition enc_image :: "role \<Rightarrow> image_id \<Rightarrow> writer \<Rightarrow> writer option" where
  "enc_image ro i w =
    Option.bind (w_u8 w (role_num ro)) (\<lambda>w.
    Option.bind (if str_len (im_name i) < u8_lim then w_u8 w (str_len (im_name i)) else None) (\<lambda>w.
    Option.bind (wput w (as_bytes (im_name i))) (\<lambda>w.
    Option.bind (w_u64_le w (im_record i)) (\<lambda>w. w_u16_le w (im_seq i)))))"

text \<open>The records in canonical order, each its type and its body.\<close>

definition enc_records :: "handoff \<Rightarrow> (nat \<times> (writer \<Rightarrow> writer option)) list" where
  "enc_records h =
     [(RT_VOLUME, enc_volume (h_vol h))]
   @ (case h_vmk h of Some k \<Rightarrow> [(RT_VMK, \<lambda>w. wput w k)] | None \<Rightarrow> [])
   @ (case h_fvek h of Some f \<Rightarrow> [(RT_FVEK, enc_fvek f)] | None \<Rightarrow> [])
   @ (case h_fve_layout h of Some l \<Rightarrow> [(RT_FVE_LAYOUT, enc_layout l)] | None \<Rightarrow> [])
   @ [(RT_B, \<lambda>w. wput w (h_b h)), (RT_PCRS, enc_pcrs (h_pcr h))]
   @ (case h_config h of Some c \<Rightarrow> [(RT_CONFIG, \<lambda>w. wput w c)] | None \<Rightarrow> [])
   @ (case h_root h of Some i \<Rightarrow> [(RT_IMAGE, enc_image Root i)] | None \<Rightarrow> [])
   @ (case h_efi_disk h of Some i \<Rightarrow> [(RT_IMAGE, enc_image EfiDiskRole i)] | None \<Rightarrow> [])
   @ (case h_efi_file h of Some i \<Rightarrow> [(RT_IMAGE, enc_image EfiFileRole i)] | None \<Rightarrow> [])
   @ [(RT_STATE, \<lambda>w. w_u32_le w (h_state h)), (RT_RUNG, \<lambda>w. w_u8 w (rung_num (h_rung h)))]
   @ (case h_provision h of Some p \<Rightarrow> [(RT_PROVISION, write_body p)] | None \<Rightarrow> [])"

definition enc_invalid :: "handoff \<Rightarrow> bool" where
  "enc_invalid h \<longleftrightarrow>
     list_ex (\<lambda>i. \<not> check_name (im_name i)) (List.map_filter id [h_root h, h_efi_disk h, h_efi_file h])
   \<or> \<not> images_consistent (h_root h) (h_efi_disk h) (h_efi_file h)
   \<or> pcr_value_len (hp_mask (h_pcr h)) \<noteq> Some (length (hp_values (h_pcr h)))
   \<or> h_state h AND (STATE_ALL XOR 0xffffffff) \<noteq> 0
   \<or> (case h_fvek h of Some f \<Rightarrow> fk_key f = [] \<or> length (fk_key f) > MAX_FVEK_KEY | None \<Rightarrow> False)
   \<or> (case h_provision h of Some p \<Rightarrow> skind p \<noteq> Tpm | None \<Rightarrow> False)"

definition handoff_encode :: "handoff \<Rightarrow> bytes \<Rightarrow> (encode_error, nat \<times> bytes) res" where
  \<comment> \<open>the length of the blob, and the buffer as it is left\<close>
  "handoff_encode h out =
    (if enc_invalid h then Err EInvalid else
     let cap = min (length out) HANDOFF_MAX_LEN in
     rbind (ok_or (
       Option.bind (wput (writer_new (take cap out)) HANDOFF_MAGIC) (\<lambda>w.
       Option.bind (w_u32_le w 0) (\<lambda>w.
       Option.bind (w_u16_le w 0) (\<lambda>w.
       Option.bind (w_u16_le w 0) (\<lambda>w.
       Option.bind (opt_fold (\<lambda>w (t, body). enc_record t body w) w (enc_records h)) (\<lambda>w.
       if wlen w < u32_lim then
         Option.bind (patch w (offset_of header_struct ''total_len'') (le_bytes 4 (wlen w))) (\<lambda>w.
         patch w (offset_of header_struct ''record_count'') (le_bytes 2 (length (enc_records h))))
       else None)))))) EFull) (\<lambda>w.
     Ok (wlen w, wbuf w @ drop cap out)))"

section \<open>The format\<close>

definition hvol_ok :: "h_volume \<Rightarrow> bool" where
  "hvol_ok v \<longleftrightarrow> length (hv_partition v) = 16 \<and> hv_first_lba v < u64_lim \<and> hv_sectors v < u64_lim"

definition fvek_ok :: "fvek \<Rightarrow> bool" where
  "fvek_ok f \<longleftrightarrow> fk_cipher f < u16_lim \<and> fk_key f \<noteq> [] \<and> length (fk_key f) \<le> 64"

definition layout_ok :: "fve_layout \<Rightarrow> bool" where
  "layout_ok l \<longleftrightarrow> (case fl_metadata_offsets l of (a, b, c) \<Rightarrow> a < u64_lim \<and> b < u64_lim \<and> c < u64_lim)
     \<and> fl_region_size l < u64_lim \<and> fl_reloc_offset l < u64_lim \<and> fl_reloc_sectors l < u32_lim
     \<and> fl_encrypted_size l < u64_lim \<and> (fl_sector_size l = 512 \<or> fl_sector_size l = 4096)
     \<and> fl_extra_region_offset l < u64_lim"

definition hpcrs_ok :: "h_pcrs \<Rightarrow> bool" where
  "hpcrs_ok p \<longleftrightarrow> hp_mask p < u32_lim \<and> pcr_value_len (hp_mask p) = Some (length (hp_values p))"

definition image_ok :: "image_id \<Rightarrow> bool" where
  "image_ok i \<longleftrightarrow> list_all is_scalar (im_name i) \<and> check_name (im_name i)
     \<and> im_record i < u64_lim \<and> im_seq i < u16_lim"

definition state_ok :: "nat \<Rightarrow> bool" where
  "state_ok s \<longleftrightarrow> s < u32_lim \<and> s AND (STATE_ALL XOR 0xffffffff) = 0"

definition handoff_ok :: "handoff \<Rightarrow> bool" where
  "handoff_ok h \<longleftrightarrow> hvol_ok (h_vol h) \<and> pred_option (\<lambda>k. length k = 32) (h_vmk h)
     \<and> pred_option fvek_ok (h_fvek h) \<and> pred_option layout_ok (h_fve_layout h)
     \<and> length (h_b h) = 32 \<and> hpcrs_ok (h_pcr h)
     \<and> pred_option image_ok (h_root h) \<and> pred_option image_ok (h_efi_disk h)
     \<and> pred_option image_ok (h_efi_file h)
     \<and> images_consistent (h_root h) (h_efi_disk h) (h_efi_file h)
     \<and> state_ok (h_state h) \<and> pred_option (\<lambda>s. seal_ok s \<and> skind s = Tpm) (h_provision h)"

definition volume_bytes :: "h_volume \<Rightarrow> bytes" where
  "volume_bytes v = hv_partition v @ le_bytes 8 (hv_first_lba v) @ le_bytes 8 (hv_sectors v)"

definition fvek_bytes :: "fvek \<Rightarrow> bytes" where
  "fvek_bytes f = le_bytes 2 (fk_cipher f) @ le_bytes 2 (length (fk_key f)) @ fk_key f"

definition layout_bytes :: "fve_layout \<Rightarrow> bytes" where
  "layout_bytes l = (case fl_metadata_offsets l of (a, b, c) \<Rightarrow>
     le_bytes 8 a @ le_bytes 8 b @ le_bytes 8 c @ le_bytes 8 (fl_region_size l)
     @ le_bytes 8 (fl_reloc_offset l) @ le_bytes 4 (fl_reloc_sectors l) @ le_bytes 8 (fl_encrypted_size l)
     @ le_bytes 4 (fl_sector_size l) @ le_bytes 8 (fl_extra_region_offset l))"

definition pcrs_bytes :: "h_pcrs \<Rightarrow> bytes" where
  "pcrs_bytes p = le_bytes 4 (hp_mask p) @ hp_values p"

definition image_bytes :: "role \<Rightarrow> image_id \<Rightarrow> bytes" where
  "image_bytes ro i = le_bytes 1 (role_num ro) @ le_bytes 1 (str_len (im_name i)) @ as_bytes (im_name i)
     @ le_bytes 8 (im_record i) @ le_bytes 2 (im_seq i)"

definition handoff_records :: "handoff \<Rightarrow> (nat \<times> bytes) list" where
  "handoff_records h =
     [(1, volume_bytes (h_vol h))]
   @ (case h_vmk h of Some k \<Rightarrow> [(2, k)] | None \<Rightarrow> [])
   @ (case h_fvek h of Some f \<Rightarrow> [(3, fvek_bytes f)] | None \<Rightarrow> [])
   @ (case h_fve_layout h of Some l \<Rightarrow> [(4, layout_bytes l)] | None \<Rightarrow> [])
   @ [(5, h_b h), (6, pcrs_bytes (h_pcr h))]
   @ (case h_config h of Some c \<Rightarrow> [(7, c)] | None \<Rightarrow> [])
   @ (case h_root h of Some i \<Rightarrow> [(8, image_bytes Root i)] | None \<Rightarrow> [])
   @ (case h_efi_disk h of Some i \<Rightarrow> [(8, image_bytes EfiDiskRole i)] | None \<Rightarrow> [])
   @ (case h_efi_file h of Some i \<Rightarrow> [(8, image_bytes EfiFileRole i)] | None \<Rightarrow> [])
   @ [(9, le_bytes 4 (h_state h)), (10, le_bytes 1 (rung_num (h_rung h)))]
   @ (case h_provision h of Some p \<Rightarrow> [(11, seal_body p)] | None \<Rightarrow> [])"

definition record_bytes :: "nat \<times> bytes \<Rightarrow> bytes" where
  "record_bytes = (\<lambda>(t, v). le_bytes 2 t @ le_bytes 4 (length v) @ v)"

definition handoff_body :: "handoff \<Rightarrow> bytes" where
  "handoff_body h = concat (map record_bytes (handoff_records h))"

definition handoff_blob :: "handoff \<Rightarrow> bytes" where
  "handoff_blob h = HANDOFF_MAGIC @ le_bytes 4 (16 + length (handoff_body h))
     @ le_bytes 2 (length (handoff_records h)) @ le_bytes 2 0 @ handoff_body h"

section \<open>Values\<close>

lemma handoff_consts:
  "RT_VOLUME = 1" "RT_VMK = 2" "RT_FVEK = 3" "RT_FVE_LAYOUT = 4" "RT_B = 5" "RT_PCRS = 6"
  "RT_CONFIG = 7" "RT_IMAGE = 8" "RT_STATE = 9" "RT_RUNG = 10" "RT_PROVISION = 11"
  "KEY_LEN = 32" "IMAGE_FIXED_LEN = 12" "STATE_LEN = 4" "RUNG_LEN = 1" "MAX_FVEK_KEY = 64"
  "HANDOFF_MAX_LEN = 98304" "length HANDOFF_MAGIC = 8" "size_of volume_value = 32"
  "size_of fve_layout_value = 64" "SECTOR_SIZE_512 = 512" "SECTOR_SIZE_4096 = 4096"
  "offset_of header_struct ''total_len'' = 8" "offset_of header_struct ''record_count'' = 12"
  by (simp_all add: RT_VOLUME_def RT_VMK_def RT_FVEK_def RT_FVE_LAYOUT_def RT_B_def RT_PCRS_def
      RT_CONFIG_def RT_IMAGE_def RT_STATE_def RT_RUNG_def RT_PROVISION_def KEY_LEN_def
      IMAGE_FIXED_LEN_def STATE_LEN_def RUNG_LEN_def MAX_FVEK_KEY_def HANDOFF_MAX_LEN_def
      HANDOFF_MAGIC_def volume_value_def fve_layout_value_def image_head_def image_tail_def
      header_struct_def SECTOR_SIZE_512_def SECTOR_SIZE_4096_def)

lemma dec_volume_bytes: "hvol_ok v \<Longrightarrow> dec_volume (volume_bytes v) = Ok v \<and> length (volume_bytes v) = 32"
  using r_u64_le_append [of "hv_sectors v" "[]"]
  by (simp add: dec_volume_def volume_bytes_def hvol_ok_def reader_new_def)

lemma dec_volume_ok: "wp (dec_volume b) hvol_ok"
  by (auto simp: dec_volume_def hvol_ok_def dest!: rarray_SomeD r_u64_le_SomeD)

lemma dec_fvek_bytes: "fvek_ok f \<Longrightarrow> dec_fvek t (fvek_bytes f) = Ok f"
  by (simp add: dec_fvek_def fvek_bytes_def fvek_ok_def reader_new_def remaining_def rest_def handoff_consts)

lemma dec_fvek_ok: "wp (dec_fvek t b) fvek_ok"
  by (auto simp: dec_fvek_def fvek_ok_def remaining_def rest_def handoff_consts dest!: r_u16_le_SomeD)

lemma dec_layout_bytes: "layout_ok l \<Longrightarrow> dec_layout t (layout_bytes l) = Ok l \<and> length (layout_bytes l) = 64"
  using r_u64_le_append [of "fl_extra_region_offset l" "[]"]
  by (auto simp: dec_layout_def layout_bytes_def layout_ok_def reader_new_def handoff_consts split: prod.splits)

lemma dec_layout_ok: "wp (dec_layout t b) layout_ok"
  by (auto simp: dec_layout_def layout_ok_def handoff_consts dest!: r_u64_le_SomeD r_u32_le_SomeD)

lemma dec_pcrs_bytes: "hpcrs_ok p \<Longrightarrow> dec_pcrs t (pcrs_bytes p) = Ok p"
  by (simp add: dec_pcrs_def pcrs_bytes_def hpcrs_ok_def reader_new_def remaining_def rest_def)

lemma dec_pcrs_ok: "wp (dec_pcrs t b) hpcrs_ok"
  by (auto simp: dec_pcrs_def hpcrs_ok_def remaining_def rest_def dest!: r_u32_le_SomeD)

lemma role_from_num [simp]: "role_from_u8 (role_num r) = Some r" "role_num r < u8_lim"
  by (cases r; simp add: role_from_u8_def)+

lemma rung_from_num [simp]: "rung_from_u8 (rung_num r) = Some r" "rung_num r < u8_lim"
  by (cases r; simp add: rung_from_u8_def)+

lemma name_len: "check_name n \<Longrightarrow> str_len n \<le> 32"
  by (simp add: check_name_def MAX_NAME_def)

lemma dec_image_bytes:
  assumes "image_ok i" "slot_of ro st = None"
  shows "dec_image t (image_bytes ro i) st = Ok (set_slot ro i st)"
proof -
  have n: "str_len (im_name i) \<le> 32" using assms by (simp add: image_ok_def name_len)
  have q: "r_u16_le (le_bytes 2 (im_seq i)) = Some (im_seq i, [])"
    using assms r_u16_le_append [of "im_seq i" "[]"] by (simp add: image_ok_def)
  have l: "length (image_bytes ro i) = 12 + str_len (im_name i)"
    by (simp add: image_bytes_def str_len_def)
  have f: "from_utf8 (as_bytes (im_name i)) = Some (im_name i)"
    using assms by (simp add: image_ok_def from_utf8_as_bytes)
  have e: "\<lparr>im_name = im_name i, im_record = im_record i, im_seq = im_seq i\<rparr> = i" by simp
  show ?thesis
    unfolding dec_image_def l
    using assms n q f
    by (simp add: e image_bytes_def reader_new_def handoff_consts add64_def image_ok_def str_len_def
        del: le_bytes.simps One_nat_def)
qed

definition hd_ok :: "hd_state \<Rightarrow> bool" where
  "hd_ok st \<longleftrightarrow> pred_option hvol_ok (ds_vol st) \<and> pred_option (\<lambda>k. length k = 32) (ds_vmk st)
     \<and> pred_option fvek_ok (ds_fvek st) \<and> pred_option layout_ok (ds_layout st)
     \<and> pred_option (\<lambda>k. length k = 32) (ds_b st) \<and> pred_option hpcrs_ok (ds_pcrs st)
     \<and> pred_option image_ok (ds_root st) \<and> pred_option image_ok (ds_efi_disk st)
     \<and> pred_option image_ok (ds_efi_file st) \<and> pred_option state_ok (ds_st st)
     \<and> pred_option (\<lambda>s. seal_ok s \<and> skind s = Tpm) (ds_provision st)"

lemma dec_image_wp: "hd_ok st \<Longrightarrow> wp (dec_image t b st) hd_ok"
  by (auto simp: dec_image_def hd_ok_def set_slot_def image_ok_def handoff_consts from_utf8_Some
      dest!: r_u8_SomeD r_u64_le_SomeD r_u16_le_SomeD split: role.splits)

lemma read_body_ok: "wp (read_body k b) (\<lambda>s. seal_ok s \<and> skind s = k)"
  using read_body_wp [of k b] by (auto simp: read_body_Ok elim!: wp_conseq)

lemmas value_oks = dec_volume_ok dec_fvek_ok dec_layout_ok dec_pcrs_ok read_body_ok

lemma wp_fixed [simp]: "wp (fixed t b n) Q = (length b = n \<longrightarrow> Q ())"
  by (simp add: fixed_def)

text \<open>The invariant after each assignment to one variable.\<close>

lemma hd_ok_upd:
  assumes "hd_ok st"
  shows "hd_ok (st\<lparr>ds_vol := Some v\<rparr>) = hvol_ok v" "hd_ok (st\<lparr>ds_vmk := Some k\<rparr>) = (length k = 32)"
    "hd_ok (st\<lparr>ds_fvek := Some f\<rparr>) = fvek_ok f" "hd_ok (st\<lparr>ds_layout := Some l\<rparr>) = layout_ok l"
    "hd_ok (st\<lparr>ds_b := Some k\<rparr>) = (length k = 32)" "hd_ok (st\<lparr>ds_pcrs := Some p\<rparr>) = hpcrs_ok p"
    "hd_ok (st\<lparr>ds_config := Some c\<rparr>)" "hd_ok (st\<lparr>ds_st := Some s\<rparr>) = state_ok s"
    "hd_ok (st\<lparr>ds_rung := Some r\<rparr>)" "hd_ok (st\<lparr>ds_seen := n\<rparr>)"
    "hd_ok (st\<lparr>ds_provision := Some x\<rparr>) = (seal_ok x \<and> skind x = Tpm)"
  using assms by (simp_all add: hd_ok_def)

lemma dec_value_wp:
  assumes "hd_ok st"
  shows "wp (dec_value t b st) hd_ok"
  unfolding dec_value_def handoff_consts
  by (auto simp: hd_ok_upd [OF assms] assms state_ok_def dec_image_wp value_oks dest!: rarray_SomeD r_u32_le_SomeD)

lemma dec_record_wp: "hd_ok st \<Longrightarrow> wp (dec_record t b st) hd_ok"
  by (auto simp: dec_record_def hd_ok_upd Let_def intro!: dec_value_wp)

lemma dec_loop_wp:
  "hd_ok st \<Longrightarrow> n \<le> cnt \<Longrightarrow> cnt < u16_lim \<Longrightarrow> wp (dec_loop cnt n r st) (\<lambda>(m, s). hd_ok s)"
proof (induction cnt n r st rule: dec_loop.induct)
  case (1 cnt n r st)
  show ?case
    apply (subst dec_loop.simps)
    using 1(2-4)
    by (auto simp: add16_def intro!: wp_conseq [OF dec_record_wp [OF 1(2)]] 1(1))
qed

lemma hd_start_ok [simp]: "hd_ok hd_start"
  by (simp add: hd_ok_def hd_start_def)

lemma dec_finish_wp: "hd_ok st \<Longrightarrow> wp (dec_finish st) handoff_ok"
  by (auto simp: dec_finish_def handoff_ok_def hd_ok_def)

lemma handoff_decode_wp: "wp (handoff_decode b) handoff_ok"
proof -
  have "wp (dec_loop cnt 0 r hd_start) (\<lambda>x. wp (case x of (n, st) \<Rightarrow>
      if n \<noteq> cnt then Err CountMismatch else dec_finish st) handoff_ok)" if "cnt < u16_lim" for cnt r
    using that by (intro wp_conseq [OF dec_loop_wp [of hd_start 0 cnt r]]) (auto intro: dec_finish_wp)
  then show ?thesis
    by (auto simp: handoff_decode_def dest!: r_u16_le_SomeD)
qed

section \<open>Decoding the canonical encoding\<close>

abbreviation dec_step :: "hd_state \<Rightarrow> nat \<times> bytes \<Rightarrow> hd_state hres" where
  "dec_step st x \<equiv> dec_record (fst x) (snd x) st"

lemma dec_loop_records:
  assumes "n + length recs = cnt" "cnt < u16_lim"
    and "\<forall>(t, v) \<in> set recs. t < u16_lim \<and> length v < u32_lim"
  shows "dec_loop cnt n (concat (map record_bytes recs)) st
    = rbind (try_fold dec_step st recs) (\<lambda>st. Ok (cnt, st))"
  using assms
proof (induction recs arbitrary: n st)
  case Nil
  then show ?case by (simp add: dec_loop.simps reader_is_empty_def)
next
  case (Cons x recs)
  obtain t v where x: "x = (t, v)" by (cases x)
  have ne: "\<not> reader_is_empty (concat (map record_bytes (x # recs)))"
    by (simp add: x record_bytes_def reader_is_empty_def numeral_2_eq_2)
  have len: "Suc n + length recs = cnt" using Cons.prems by simp
  have b: "t < u16_lim" "length v < u32_lim" using Cons.prems x by auto
  have IH: "dec_loop cnt (Suc n) (concat (map record_bytes recs))
      = (\<lambda>st. rbind (try_fold dec_step st recs) (\<lambda>st. Ok (cnt, st)))"
    using Cons.IH [OF len] Cons.prems by auto
  have "concat (map record_bytes (x # recs))
      = le_bytes 2 t @ le_bytes 4 (length v) @ v @ concat (map record_bytes recs)"
    by (simp add: x record_bytes_def)
  with ne len b IH Cons.prems(2) show ?case
    by (subst dec_loop.simps) (simp add: x add16_def rbind_assoc)
qed

lemma try_fold_append: "try_fold f g (xs @ ys) = rbind (try_fold f g xs) (\<lambda>g. try_fold f g ys)"
  by (induction xs arbitrary: g) (simp_all add: rbind_assoc)

text \<open>\<open>runs recs st Q\<close>: the records are accepted from \<open>st\<close>, and \<open>Q\<close> holds of the state after them.\<close>

definition runs :: "(nat \<times> bytes) list \<Rightarrow> hd_state \<Rightarrow> (hd_state \<Rightarrow> bool) \<Rightarrow> bool" where
  "runs recs st Q \<longleftrightarrow> (\<exists>s. try_fold dec_step st recs = Ok s \<and> Q s)"

lemma runs_append: "runs xs st (\<lambda>s. runs ys s Q) \<Longrightarrow> runs (xs @ ys) st Q"
  by (auto simp: runs_def try_fold_append)

lemma runs_Cons: "runs [x] st (\<lambda>s. runs xs s Q) \<Longrightarrow> runs (x # xs) st Q"
  using runs_append [of "[x]"] by simp

text \<open>No record of a type from \<open>t\<close> on has been seen.\<close>

definition unseen :: "nat \<Rightarrow> nat \<Rightarrow> bool" where
  "unseen t s \<longleftrightarrow> (\<forall>k\<ge>t. \<not> bit s k)"

lemma dec_record_unseen:
  assumes "unseen t (ds_seen st)" "1 \<le> t" "t \<le> 11" "t \<noteq> 8"
  obtains s where "unseen (t + 1) s" "dec_record t v st = dec_value t v (st\<lparr>ds_seen := s\<rparr>)"
proof
  have "ds_seen st AND push_bit t 1 = 0"
    using assms(1) by (intro bit_eqI) (auto simp: bit_and_iff bit_exp_iff push_bit_of_1 unseen_def)
  then show "dec_record t v st = dec_value t v (st\<lparr>ds_seen := ds_seen st OR push_bit t 1\<rparr>)"
    using assms by (simp add: dec_record_def handoff_consts Let_def)
  show "unseen (t + 1) (ds_seen st OR push_bit t 1)"
    using assms(1) by (auto simp: unseen_def bit_or_iff bit_exp_iff push_bit_of_1)
qed

lemma runs_one:
  assumes "unseen t (ds_seen st)" "1 \<le> t" "t \<le> 11" "t \<noteq> 8"
    and "\<And>s. dec_value t v s = Ok (u s)"
    and "\<And>s. unseen (t + 1) s \<Longrightarrow> Q (u (st\<lparr>ds_seen := s\<rparr>))"
  shows "runs [(t, v)] st Q"
proof -
  obtain s where "unseen (t + 1) s" "dec_record t v st = dec_value t v (st\<lparr>ds_seen := s\<rparr>)"
    by (rule dec_record_unseen [OF assms(1-4)])
  then show ?thesis using assms(5,6) by (simp add: runs_def)
qed

text \<open>An optional record sets its variable to the optional value.\<close>

lemma runs_opt:
  assumes "unseen t (ds_seen st)" "1 \<le> t" "t \<le> 11" "t \<noteq> 8"
    and "\<And>x s. y = Some x \<Longrightarrow> dec_value t (f x) s = Ok (u (Some x) s)"
    and "u None st = st"
    and "\<And>s. unseen (t + 1) s \<Longrightarrow> Q (u y (st\<lparr>ds_seen := s\<rparr>))"
  shows "runs (case y of Some x \<Rightarrow> [(t, f x)] | None \<Rightarrow> []) st Q"
proof (cases y)
  case None
  have "unseen (t + 1) (ds_seen st)" using assms(1) by (simp add: unseen_def)
  from assms(7) [OF this] None assms(6) show ?thesis by (simp add: runs_def)
next
  case (Some x)
  then show ?thesis using assms by (auto intro!: runs_one [where u = "u (Some x)"])
qed

lemma runs_image:
  assumes "slot_of ro st = None" "\<And>i. y = Some i \<Longrightarrow> image_ok i"
    and "Q (case y of Some i \<Rightarrow> set_slot ro i st | None \<Rightarrow> st)"
  shows "runs (case y of Some i \<Rightarrow> [(8, image_bytes ro i)] | None \<Rightarrow> []) st Q"
  using assms dec_image_bytes [of _ ro st 8]
  by (auto simp: runs_def dec_record_def dec_value_def handoff_consts split: option.splits)

lemma slot_simps [simp]:
  "ds_root st = None \<Longrightarrow> (case y of Some i \<Rightarrow> set_slot Root i st | None \<Rightarrow> st) = st\<lparr>ds_root := y\<rparr>"
  "ds_efi_disk st = None \<Longrightarrow> (case y of Some i \<Rightarrow> set_slot EfiDiskRole i st | None \<Rightarrow> st) = st\<lparr>ds_efi_disk := y\<rparr>"
  "ds_efi_file st = None \<Longrightarrow> (case y of Some i \<Rightarrow> set_slot EfiFileRole i st | None \<Rightarrow> st) = st\<lparr>ds_efi_file := y\<rparr>"
  by (cases st; simp add: set_slot_def split: option.split)+

lemma unseen_mono: "unseen t s \<Longrightarrow> t \<le> t' \<Longrightarrow> unseen t' s"
  by (auto simp: unseen_def)

lemma dec_values:
  "hvol_ok v \<Longrightarrow> dec_value 1 (volume_bytes v) s = Ok (s\<lparr>ds_vol := Some v\<rparr>)"
  "length k = 32 \<Longrightarrow> dec_value 2 k s = Ok (s\<lparr>ds_vmk := Some k\<rparr>)"
  "fvek_ok f \<Longrightarrow> dec_value 3 (fvek_bytes f) s = Ok (s\<lparr>ds_fvek := Some f\<rparr>)"
  "layout_ok l \<Longrightarrow> dec_value 4 (layout_bytes l) s = Ok (s\<lparr>ds_layout := Some l\<rparr>)"
  "length k = 32 \<Longrightarrow> dec_value 5 k s = Ok (s\<lparr>ds_b := Some k\<rparr>)"
  "hpcrs_ok p \<Longrightarrow> dec_value 6 (pcrs_bytes p) s = Ok (s\<lparr>ds_pcrs := Some p\<rparr>)"
  "dec_value 7 c s = Ok (s\<lparr>ds_config := Some c\<rparr>)"
  "state_ok n \<Longrightarrow> dec_value 9 (le_bytes 4 n) s = Ok (s\<lparr>ds_st := Some n\<rparr>)"
  "dec_value 10 (le_bytes 1 (rung_num r)) s = Ok (s\<lparr>ds_rung := Some r\<rparr>)"
  "seal_ok x \<and> skind x = Tpm \<Longrightarrow> dec_value 11 (seal_body x) s = Ok (s\<lparr>ds_provision := Some x\<rparr>)"
proof -
  have k: "rarray 32 (reader_new k) = Some (k, [])" if "length k = 32" for k :: bytes
    using that rarray_append [of k 32 "[]"] by (simp add: reader_new_def)
  have b: "read_body Tpm (seal_body x) = Ok x" if "seal_ok x \<and> skind x = Tpm"
    using that by (simp add: read_body_Ok)
  have n: "r_u32_le (reader_new (le_bytes 4 n)) = Some (n, [])" if "state_ok n"
    using that r_u32_le_append [of n "[]"] by (simp add: state_ok_def reader_new_def)
  have r: "r_u8 (reader_new (le_bytes 1 (rung_num r))) = Some (rung_num r, [])"
    using r_u8_append [of "rung_num r" "[]"] by (simp add: reader_new_def)
  note d = dec_value_def handoff_consts fixed_def ensure_def
  show "hvol_ok v \<Longrightarrow> dec_value 1 (volume_bytes v) s = Ok (s\<lparr>ds_vol := Some v\<rparr>)"
    by (simp add: d dec_volume_bytes)
  show "length k = 32 \<Longrightarrow> dec_value 2 k s = Ok (s\<lparr>ds_vmk := Some k\<rparr>)" by (simp add: d k)
  show "fvek_ok f \<Longrightarrow> dec_value 3 (fvek_bytes f) s = Ok (s\<lparr>ds_fvek := Some f\<rparr>)"
    by (simp add: d dec_fvek_bytes)
  show "layout_ok l \<Longrightarrow> dec_value 4 (layout_bytes l) s = Ok (s\<lparr>ds_layout := Some l\<rparr>)"
    by (simp add: d dec_layout_bytes)
  show "length k = 32 \<Longrightarrow> dec_value 5 k s = Ok (s\<lparr>ds_b := Some k\<rparr>)" by (simp add: d k)
  show "hpcrs_ok p \<Longrightarrow> dec_value 6 (pcrs_bytes p) s = Ok (s\<lparr>ds_pcrs := Some p\<rparr>)"
    by (simp add: d dec_pcrs_bytes)
  show "dec_value 7 c s = Ok (s\<lparr>ds_config := Some c\<rparr>)" by (simp add: d)
  show "state_ok n \<Longrightarrow> dec_value 9 (le_bytes 4 n) s = Ok (s\<lparr>ds_st := Some n\<rparr>)"
    using n by (simp add: d state_ok_def)
  show "dec_value 10 (le_bytes 1 (rung_num r)) s = Ok (s\<lparr>ds_rung := Some r\<rparr>)"
    using r by (simp add: d del: le_bytes.simps One_nat_def)
  show "seal_ok x \<and> skind x = Tpm \<Longrightarrow> dec_value 11 (seal_body x) s = Ok (s\<lparr>ds_provision := Some x\<rparr>)"
    using b by (simp add: d)
qed

definition hd_of :: "handoff \<Rightarrow> nat \<Rightarrow> hd_state" where
  "hd_of h s = \<lparr>ds_seen = s, ds_vol = Some (h_vol h), ds_vmk = h_vmk h, ds_fvek = h_fvek h,
     ds_layout = h_fve_layout h, ds_b = Some (h_b h), ds_pcrs = Some (h_pcr h), ds_config = h_config h,
     ds_root = h_root h, ds_efi_disk = h_efi_disk h, ds_efi_file = h_efi_file h, ds_st = Some (h_state h),
     ds_rung = Some (h_rung h), ds_provision = h_provision h\<rparr>"

lemma dec_finish_hd_of: "handoff_ok h \<Longrightarrow> dec_finish (hd_of h s) = Ok h"
  by (simp add: dec_finish_def hd_of_def handoff_ok_def)

lemma runs_slots:
  assumes "ds_root st = None" "ds_efi_disk st = None" "ds_efi_file st = None"
    and "pred_option image_ok a" "pred_option image_ok b" "pred_option image_ok c"
    and "runs xs (st\<lparr>ds_root := a, ds_efi_disk := b, ds_efi_file := c\<rparr>) Q"
  shows "runs ((case a of Some i \<Rightarrow> [(8, image_bytes Root i)] | None \<Rightarrow> [])
     @ (case b of Some i \<Rightarrow> [(8, image_bytes EfiDiskRole i)] | None \<Rightarrow> [])
     @ (case c of Some i \<Rightarrow> [(8, image_bytes EfiFileRole i)] | None \<Rightarrow> []) @ xs) st Q"
  using assms by (intro runs_append runs_image) (auto simp: slot_of_def)

lemma handoff_records_run:
  assumes "handoff_ok h"
  shows "runs (handoff_records h) hd_start (\<lambda>s. \<exists>n. s = hd_of h n)"
proof -
  note a = assms [unfolded handoff_ok_def]
  have v: "hvol_ok (h_vol h)" "length (h_b h) = 32" "hpcrs_ok (h_pcr h)" "state_ok (h_state h)"
    "\<And>k. h_vmk h = Some k \<Longrightarrow> length k = 32" "\<And>k. h_fvek h = Some k \<Longrightarrow> fvek_ok k"
    "\<And>k. h_fve_layout h = Some k \<Longrightarrow> layout_ok k"
    "\<And>k. h_provision h = Some k \<Longrightarrow> seal_ok k \<and> skind k = Tpm"
    "pred_option image_ok (h_root h)" "pred_option image_ok (h_efi_disk h)" "pred_option image_ok (h_efi_file h)"
    using a by (simp_all add: pred_option_def)
  note r = dec_values v
  show ?thesis
    unfolding handoff_records_def append_Cons append_Nil hd_start_def
    apply (rule runs_Cons, rule runs_one [where u = "ds_vol_update (\<lambda>_. Some (h_vol h))"],
      simp_all add: unseen_def [of _ 0] r del: One_nat_def le_bytes.simps)
    apply (rule runs_append, rule runs_opt [where u = "\<lambda>x. ds_vmk_update (\<lambda>_. x)"],
      simp_all add: r del: One_nat_def le_bytes.simps)
    apply (rule runs_append, rule runs_opt [where u = "\<lambda>x. ds_fvek_update (\<lambda>_. x)"],
      simp_all add: r del: One_nat_def le_bytes.simps)
    apply (rule runs_append, rule runs_opt [where u = "\<lambda>x. ds_layout_update (\<lambda>_. x)"],
      simp_all add: r del: One_nat_def le_bytes.simps)
    apply (rule runs_Cons, rule runs_one [where u = "ds_b_update (\<lambda>_. Some (h_b h))"],
      simp_all add: r del: One_nat_def le_bytes.simps)
    apply (rule runs_Cons, rule runs_one [where u = "ds_pcrs_update (\<lambda>_. Some (h_pcr h))"],
      simp_all add: r del: One_nat_def le_bytes.simps)
    apply (rule runs_append, rule runs_opt [where u = "\<lambda>x. ds_config_update (\<lambda>_. x)"],
      simp_all add: r del: One_nat_def le_bytes.simps)
    apply (rule runs_slots, simp_all add: r del: One_nat_def le_bytes.simps)
    apply (rule runs_Cons, rule runs_one [where u = "ds_st_update (\<lambda>_. Some (h_state h))"],
      simp_all add: r unseen_mono del: One_nat_def le_bytes.simps)
    apply (rule runs_Cons, rule runs_one [where u = "ds_rung_update (\<lambda>_. Some (h_rung h))"],
      simp_all add: r del: One_nat_def le_bytes.simps)
    apply (rule runs_opt [where u = "\<lambda>x. ds_provision_update (\<lambda>_. x)"],
      simp_all add: r hd_of_def del: One_nat_def le_bytes.simps)
    done
qed

lemma handoff_record_types: "(t, v) \<in> set (handoff_records h) \<Longrightarrow> t \<le> 11"
  by (auto simp: handoff_records_def split: option.splits)

lemma length_opt: "length (case y of Some x \<Rightarrow> [f x] | None \<Rightarrow> []) \<le> 1"
  by (cases y) simp_all

lemma handoff_record_count: "length (handoff_records h) \<le> 13"
proof -
  have "length (handoff_records h) \<le> 1 + (1 + (1 + (1 + (2 + (1 + (1 + (1 + (1 + (2 + 1)))))))))"
    unfolding handoff_records_def length_append by (intro add_mono length_opt) simp_all
  then show ?thesis by simp
qed

lemma length_handoff_blob: "length (handoff_blob h) = 16 + length (handoff_body h)"
  by (simp add: handoff_blob_def handoff_consts)

lemma record_lengths:
  assumes "(t, v) \<in> set recs"
  shows "length v \<le> length (concat (map record_bytes recs))"
  using assms by (induction recs) (auto simp: record_bytes_def)

lemma handoff_decode_records:
  assumes "length (handoff_blob h) \<le> 98304"
  shows "handoff_decode (handoff_blob h) = rbind (try_fold dec_step hd_start (handoff_records h)) dec_finish"
proof -
  let ?r = "handoff_records h"
  have n: "length ?r < u16_lim" using handoff_record_count [of h] by simp
  have b: "16 + length (handoff_body h) < u32_lim" using assms by (simp add: length_handoff_blob)
  have "length v < u32_lim" if "(t, v) \<in> set ?r" for t v
    using record_lengths [OF that] b by (simp add: handoff_body_def)
  moreover have "t < u16_lim" if "(t, v) \<in> set ?r" for t v
    using handoff_record_types [OF that] by simp
  ultimately have w: "\<forall>(t, v) \<in> set ?r. t < u16_lim \<and> length v < u32_lim" by fast
  have l: "dec_loop (length ?r) 0 (handoff_body h) hd_start
      = rbind (try_fold dec_step hd_start ?r) (\<lambda>st. Ok (length ?r, st))"
    using dec_loop_records [of 0 ?r "length ?r" hd_start] n w by (simp add: handoff_body_def)
  have m: "rarray 8 (HANDOFF_MAGIC @ x) = Some (HANDOFF_MAGIC, x)" for x
    by (simp add: handoff_consts)
  have z: "r_u16_le (le_bytes 2 0 @ x) = Some (0, x)" for x by simp
  define q where "q = handoff_blob h"
  define lq where "lq = length q"
  have "lq \<le> 98304" "lq < u32_lim" using assms b by (simp_all add: lq_def q_def length_handoff_blob)
  moreover have "q = HANDOFF_MAGIC @ le_bytes 4 lq @ le_bytes 2 (length ?r) @ le_bytes 2 0 @ handoff_body h"
    unfolding lq_def q_def length_handoff_blob by (simp only: handoff_blob_def)
  ultimately have "handoff_decode q = rbind (try_fold dec_step hd_start ?r) dec_finish"
    unfolding handoff_decode_def handoff_consts lq_def [symmetric]
    by (simp add: reader_new_def m z n l rbind_assoc)
  then show ?thesis by (simp add: q_def)
qed

lemma handoff_decode_blob:
  assumes "handoff_ok h" "length (handoff_blob h) \<le> 98304"
  shows "handoff_decode (handoff_blob h) = Ok h"
  using handoff_records_run [OF assms(1)] dec_finish_hd_of [OF assms(1)]
  by (auto simp: handoff_decode_records [OF assms(2)] runs_def)

interpretation hf: round_trip handoff_blob handoff_decode "\<lambda>h. handoff_ok h \<and> length (handoff_blob h) \<le> 98304"
  by unfold_locales (simp add: handoff_decode_blob)

section \<open>The encoder writes the canonical encoding\<close>

lemma overwrite_mid: "length b = length b' \<Longrightarrow> overwrite (a @ b @ c) (length a) b' = a @ b' @ c"
  by (simp add: overwrite_def)

lemma emits_record:
  assumes "emits body v" "length v < u32_lim"
  shows "emits (enc_record t body) (record_bytes (t, v))"
  unfolding emits_def
proof (intro allI impI)
  fix pre room :: bytes
  assume a: "length (record_bytes (t, v)) \<le> length room" "length pre + length room < u64_lim"
  have l: "length (record_bytes (t, v)) = 6 + length v" by (simp add: record_bytes_def)
  let ?p = "pre @ le_bytes 2 t"
  have "w_u16_le (wr pre room) t = Some (wr ?p (drop 2 room))" using a l by (simp add: w_ints)
  moreover have "w_u32_le (wr ?p (drop 2 room)) 0 = Some (wr (?p @ le_bytes 4 0) (drop 6 room))"
    using a l by (simp add: w_ints)
  moreover have "body (wr (?p @ le_bytes 4 0) (drop 6 room))
      = Some (wr (?p @ le_bytes 4 0 @ v) (drop (6 + length v) room))"
    using assms(1) a l by (simp add: emits_def add.commute)
  moreover have "patch (wr (?p @ le_bytes 4 0 @ v) x) (length ?p) (le_bytes 4 (length v))
      = Some (wr (?p @ le_bytes 4 (length v) @ v) x)" for x
    using a l overwrite_mid [of "le_bytes 4 0" "le_bytes 4 (length v)" ?p v] by (subst patch_wr) simp_all
  ultimately show "enc_record t body (wr pre room)
      = Some (wr (pre @ record_bytes (t, v)) (drop (length (record_bytes (t, v))) room))"
    using assms(2) unfolding enc_record_def l by (simp add: record_bytes_def Let_def)
qed

lemma emits_volume: "emits (enc_volume v) (volume_bytes v)"
  unfolding enc_volume_def [abs_def] volume_bytes_def by (intro emits_bind emits_wput emits_ints)

lemma emits_fvek: "fvek_ok f \<Longrightarrow> emits (enc_fvek f) (fvek_bytes f)"
  unfolding enc_fvek_def [abs_def] fvek_bytes_def
  by (intro emits_bind emits_wput emits_ints) (simp_all add: fvek_ok_def)

lemma emits_layout: "emits (enc_layout l) (layout_bytes l)"
  unfolding enc_layout_def [abs_def] layout_bytes_def
  by (cases "fl_metadata_offsets l") (simp add: emits_bind)

lemma emits_pcrs: "emits (enc_pcrs p) (pcrs_bytes p)"
  unfolding enc_pcrs_def [abs_def] pcrs_bytes_def by (intro emits_bind emits_wput emits_ints)

lemma emits_image: "image_ok i \<Longrightarrow> emits (enc_image ro i) (image_bytes ro i)"
  using name_len [of "im_name i"] unfolding enc_image_def [abs_def] image_bytes_def
  by (intro emits_bind emits_wput emits_ints) (simp_all add: image_ok_def del: le_bytes.simps One_nat_def)

lemma emits_seal: "seal_ok s \<Longrightarrow> emits (write_body s) (seal_body s)"
  by (simp add: emits_def write_body_wr)

lemma list_all2_opt:
  "(\<And>x. y = Some x \<Longrightarrow> P (f x) (g x)) \<Longrightarrow>
    list_all2 P (case y of Some x \<Rightarrow> [f x] | None \<Rightarrow> []) (case y of Some x \<Rightarrow> [g x] | None \<Rightarrow> [])"
  by (cases y) simp_all

text \<open>The encoder does not look at the layout, so neither do its lemmas.\<close>

lemma enc_records_bodies:
  assumes "handoff_ok (h\<lparr>h_fve_layout := None\<rparr>)"
  shows "list_all2 (\<lambda>(t, f) (t', v). t = t' \<and> emits f v) (enc_records h) (handoff_records h)"
proof -
  note a = assms [unfolded handoff_ok_def]
  show ?thesis
    unfolding enc_records_def handoff_records_def handoff_consts
    using a
    by (intro list_all2_appendI list_all2_opt)
      (auto simp: pred_option_def emits_volume emits_fvek emits_layout emits_pcrs emits_image emits_seal
        simp del: le_bytes.simps One_nat_def)
qed

lemma enc_records_emit:
  assumes "handoff_ok (h\<lparr>h_fve_layout := None\<rparr>)" "length (handoff_body h) < u32_lim"
  shows "emits (\<lambda>w. opt_fold (\<lambda>w (t, body). enc_record t body w) w (enc_records h)) (handoff_body h)"
proof -
  have "list_all2 (\<lambda>x b. emits (enc_record (fst x) (snd x)) b) (enc_records h) (map record_bytes (handoff_records h))"
    unfolding list_all2_map2
    using enc_records_bodies [OF assms(1)]
  proof (rule list.rel_mono_strong)
    fix x y
    assume "y \<in> set (handoff_records h)" and r: "(case x of (t, f) \<Rightarrow> \<lambda>(t', v). t = t' \<and> emits f v) y"
    then have "length (snd y) < u32_lim"
      using record_lengths [of "fst y" "snd y" "handoff_records h"] assms(2) by (simp add: handoff_body_def)
    with r show "emits (enc_record (fst x) (snd x)) (record_bytes y)"
      by (auto intro: emits_record split: prod.splits)
  qed
  from emits_fold [OF this] show ?thesis by (simp add: handoff_body_def case_prod_unfold)
qed

lemma handoff_ok_encodes: "handoff_ok (h\<lparr>h_fve_layout := None\<rparr>) \<Longrightarrow> \<not> enc_invalid h"
  by (auto simp: handoff_ok_def enc_invalid_def hpcrs_ok_def state_ok_def fvek_ok_def image_ok_def handoff_consts
      map_filter_simps list_ex_iff pred_option_def split: option.splits)

lemma patch_header:
  assumes "length body < u32_lim" "16 + length body < u64_lim"
  shows "Option.bind (patch (wr (HANDOFF_MAGIC @ le_bytes 4 0 @ le_bytes 2 0 @ le_bytes 2 0 @ body) x) 8 (le_bytes 4 n))
      (\<lambda>w. patch w 12 (le_bytes 2 k))
    = Some (wr (HANDOFF_MAGIC @ le_bytes 4 n @ le_bytes 2 k @ le_bytes 2 0 @ body) x)"
proof -
  let ?m = "HANDOFF_MAGIC"
  have "patch (wr (?m @ le_bytes 4 0 @ le_bytes 2 0 @ le_bytes 2 0 @ body) x) 8 (le_bytes 4 n)
      = Some (wr (?m @ le_bytes 4 n @ le_bytes 2 0 @ le_bytes 2 0 @ body) x)"
    using assms overwrite_mid [of "le_bytes 4 0" "le_bytes 4 n" ?m "le_bytes 2 0 @ le_bytes 2 0 @ body"]
    by (subst patch_wr) (simp_all add: handoff_consts)
  moreover have "patch (wr (?m @ le_bytes 4 n @ le_bytes 2 0 @ le_bytes 2 0 @ body) x) 12 (le_bytes 2 k)
      = Some (wr (?m @ le_bytes 4 n @ le_bytes 2 k @ le_bytes 2 0 @ body) x)"
    using assms overwrite_mid [of "le_bytes 2 0" "le_bytes 2 k" "?m @ le_bytes 4 n" "le_bytes 2 0 @ body"]
    by (subst patch_wr) (simp_all add: handoff_consts)
  ultimately show ?thesis by simp
qed

lemma handoff_encode_blob:
  assumes "handoff_ok (h\<lparr>h_fve_layout := None\<rparr>)" "length (handoff_blob h) \<le> min (length out) 98304"
    "length out < u64_lim"
  shows "handoff_encode h out
    = Ok (length (handoff_blob h), handoff_blob h @ drop (length (handoff_blob h)) out)"
proof -
  let ?c = "min (length out) 98304" and ?b = "handoff_body h"
  let ?z = "HANDOFF_MAGIC @ le_bytes 4 0 @ le_bytes 2 0 @ le_bytes 2 0"
  have l: "length (handoff_blob h) = 16 + length ?b" by (rule length_handoff_blob)
  have room: "16 + length ?b \<le> ?c" "?c < u64_lim" using assms(2,3) l by simp_all
  have b: "length ?b < u32_lim" using room by simp
  define F where "F = (\<lambda>w. Option.bind (wput w HANDOFF_MAGIC) (\<lambda>w. Option.bind (w_u32_le w 0) (\<lambda>w.
      Option.bind (w_u16_le w 0) (\<lambda>w. Option.bind (w_u16_le w 0)
        (\<lambda>w. opt_fold (\<lambda>w (t, body). enc_record t body w) w (enc_records h))))))"
  define w where "w = wr (?z @ ?b) (drop (16 + length ?b) (take ?c out))"
  have "emits F (HANDOFF_MAGIC @ le_bytes 4 0 @ le_bytes 2 0 @ le_bytes 2 0 @ ?b)"
    unfolding F_def by (intro emits_bind emits_wput emits_ints enc_records_emit assms(1) b)
  from emitsD [OF this, of "take ?c out" "[]"] have F: "F (wr [] (take ?c out)) = Some w"
    using room by (simp add: handoff_consts w_def)
  have len: "wlen w = 16 + length ?b" by (simp add: w_def handoff_consts)
  have n: "length (enc_records h) = length (handoff_records h)"
    using enc_records_bodies [OF assms(1)] by (rule list_all2_lengthD)
  have p: "Option.bind (patch w 8 (le_bytes 4 (wlen w))) (\<lambda>w. patch w 12 (le_bytes 2 (length (enc_records h))))
      = Some (wr (handoff_blob h) (drop (16 + length ?b) (take ?c out)))"
    using patch_header [of ?b "drop (16 + length ?b) (take ?c out)" "16 + length ?b" "length (handoff_records h)"]
      b room unfolding n len handoff_blob_def w_def by (simp add: handoff_consts)
  have "handoff_encode h out = rbind (ok_or (Option.bind (F (wr [] (take ?c out))) (\<lambda>w.
      if wlen w < u32_lim then
        Option.bind (patch w 8 (le_bytes 4 (wlen w))) (\<lambda>w. patch w 12 (le_bytes 2 (length (enc_records h))))
      else None)) EFull) (\<lambda>w. Ok (wlen w, wbuf w @ drop ?c out))"
    using handoff_ok_encodes [OF assms(1)]
    unfolding handoff_encode_def Let_def handoff_consts F_def by (simp add: writer_new_wr)
  also have "\<dots> = Ok (length (handoff_blob h), handoff_blob h @ drop (16 + length ?b) (take ?c out) @ drop ?c out)"
    unfolding F using len p room by simp
  also have "drop (16 + length ?b) (take ?c out) @ drop ?c out = drop (16 + length ?b) (take ?c out @ drop ?c out)"
    unfolding drop_append using room by simp
  finally show ?thesis by (simp only: l append_take_drop_id)
qed

section \<open>Properties\<close>

text \<open>
  C25.  Decoding is safe on any bytes: it never panics, and a handoff it accepts is well formed
  (key and digest lengths, sector size, known rung and state bits, valid names, an EFI image
  distinct from the root, a provision seal that is a TPM seal), so that \<open>encode\<close> does not refuse it.
\<close>

theorem handoff_decode_valid:
  "handoff_decode blob \<noteq> Panic \<and> (handoff_decode blob = Ok h \<longrightarrow> handoff_ok h \<and> (\<forall>out. handoff_encode h out \<noteq> Err EInvalid))"
proof (intro conjI impI allI)
  show "handoff_decode blob \<noteq> Panic" using handoff_decode_wp by (rule wp_not_Panic)
  assume "handoff_decode blob = Ok h"
  with handoff_decode_wp show h: "handoff_ok h" by (rule wp_OkD)
  then have "handoff_ok (h\<lparr>h_fve_layout := None\<rparr>)" by (simp add: handoff_ok_def)
  then show "handoff_encode h out \<noteq> Err EInvalid" for out
    using handoff_ok_encodes by (auto simp: handoff_encode_def Let_def ok_or_def split: option.split)
qed

definition sample_handoff :: "fve_layout option \<Rightarrow> handoff" where
  "sample_handoff l = \<lparr>h_vol = \<lparr>hv_partition = replicate 16 1, hv_first_lba = 2048, hv_sectors = 4096\<rparr>,
     h_vmk = None, h_fvek = None, h_fve_layout = l, h_b = replicate 32 7,
     h_pcr = \<lparr>hp_mask = 1, hp_values = replicate 32 3\<rparr>, h_config = None, h_root = None,
     h_efi_disk = None, h_efi_file = None, h_state = 0, h_rung = RPassphrase, h_provision = None\<rparr>"

lemma sample_ok: "handoff_ok (sample_handoff None)" "length (handoff_blob (sample_handoff None)) = 151"
proof -
  have "count_ones 1 = 1" by (simp add: count_ones_def upt_rec bit_1_iff del: One_nat_def)
  then have "pcr_value_len 1 = Some 32" by (simp add: pcr_value_len_def PCR_COUNT_def PCR_VALUE_LEN_def)
  then show "handoff_ok (sample_handoff None)"
    by (simp add: sample_handoff_def handoff_ok_def hvol_ok_def hpcrs_ok_def state_ok_def images_consistent_def)
  show "length (handoff_blob (sample_handoff None)) = 151"
    by (simp add: length_handoff_blob handoff_body_def handoff_records_def record_bytes_def
        sample_handoff_def volume_bytes_def pcrs_bytes_def)
qed

theorem handoff_decode_valid_witness:
  "handoff_decode (handoff_blob (sample_handoff None)) = Ok (sample_handoff None) \<and> handoff_ok (sample_handoff None)"
  using handoff_decode_valid [of "handoff_blob (sample_handoff None)" "sample_handoff None"] sample_ok
  by (simp add: handoff_decode_blob)

text \<open>
  C26.  The round trip: a well-formed handoff whose encoding fits the buffer and the 96 KiB limit is
  written without touching the bytes after it, and the initrd decodes what the loader encoded.
\<close>

theorem handoff_round_trip:
  assumes "handoff_ok h" "length (handoff_blob h) \<le> min (length out) 98304" "length out < u64_lim"
  shows "\<exists>n out'. handoff_encode h out = Ok (n, out') \<and> handoff_decode (take n out') = Ok h
    \<and> length out' = length out \<and> drop n out' = drop n out"
proof -
  have "handoff_ok (h\<lparr>h_fve_layout := None\<rparr>)" using assms(1) by (simp add: handoff_ok_def)
  from handoff_encode_blob [OF this assms(2,3)] show ?thesis
    using assms(1,2) hf.dec_enc [of h] by simp
qed

theorem handoff_round_trip_witness:
  "\<exists>n out'. handoff_encode (sample_handoff None) (replicate 200 0) = Ok (n, out')
    \<and> handoff_decode (take n out') = Ok (sample_handoff None) \<and> length out' = 200 \<and> drop n out' = drop n (replicate 200 0)"
  using handoff_round_trip [of "sample_handoff None" "replicate 200 0"] sample_ok by simp

text \<open>
  The encoder does not check the layout's sector size, which the decoder does: a handoff with any
  other sector size is encoded, and the blob is refused.
\<close>

lemma dec_layout_refused:
  assumes "layout_ok (l\<lparr>fl_sector_size := 512\<rparr>)" "fl_sector_size l < u32_lim"
    "fl_sector_size l \<notin> {512, 4096}"
  shows "dec_value 4 (layout_bytes l) s = Err (BadValue 4)"
  using assms r_u64_le_append [of "fl_extra_region_offset l" "[]"]
  by (auto simp: dec_value_def fixed_def ensure_def dec_layout_def layout_bytes_def layout_ok_def reader_new_def
      handoff_consts split: prod.splits)

lemma records_refused:
  assumes "handoff_ok (h\<lparr>h_fve_layout := None\<rparr>)" "h_fve_layout h = Some l"
    and "\<And>s. dec_value 4 (layout_bytes l) s = Err e"
  shows "try_fold dec_step hd_start (handoff_records h) = Err e"
proof -
  note a = assms(1) [unfolded handoff_ok_def, simplified]
  have v: "hvol_ok (h_vol h)" "\<And>k. h_vmk h = Some k \<Longrightarrow> length k = 32" "\<And>k. h_fvek h = Some k \<Longrightarrow> fvek_ok k"
    using a by (simp_all add: pred_option_def)
  let ?pre = "(1, volume_bytes (h_vol h)) # (case h_vmk h of Some k \<Rightarrow> [(2, k)] | None \<Rightarrow> [])
    @ (case h_fvek h of Some f \<Rightarrow> [(3, fvek_bytes f)] | None \<Rightarrow> [])"
  have "runs ?pre hd_start (\<lambda>s. unseen 4 (ds_seen s))"
    unfolding hd_start_def
    apply (rule runs_Cons, rule runs_one [where u = "ds_vol_update (\<lambda>_. Some (h_vol h))"],
      simp_all add: unseen_def [of _ 0] dec_values v del: One_nat_def)
    apply (rule runs_append, rule runs_opt [where u = "\<lambda>x. ds_vmk_update (\<lambda>_. x)"],
      simp_all add: dec_values v del: One_nat_def)
    apply (rule runs_opt [where u = "\<lambda>x. ds_fvek_update (\<lambda>_. x)"], simp_all add: dec_values v)
    done
  then obtain s where s: "try_fold dec_step hd_start ?pre = Ok s" "unseen 4 (ds_seen s)"
    by (auto simp: runs_def)
  obtain n where "dec_record 4 (layout_bytes l) s = dec_value 4 (layout_bytes l) (s\<lparr>ds_seen := n\<rparr>)"
    using s(2) by (rule dec_record_unseen) simp_all
  then have "try_fold dec_step hd_start (?pre @ (4, layout_bytes l) # xs) = Err e" for xs
    using s(1) assms(3) by (simp only: try_fold_append rbind.simps try_fold.simps fst_conv snd_conv)
  then show ?thesis unfolding handoff_records_def assms(2) by simp
qed

text \<open>
  C27.  \<open>encode\<close> documents \<open>Invalid\<close> as "the handoff would not decode", but it does not look at the
  sector size of the layout: a handoff that is well formed but for a sector size other than 512
  and 4096 is encoded, and the decoder refuses the blob.
\<close>

theorem encode_misses_sector_size:
  assumes "handoff_ok (h\<lparr>h_fve_layout := Some (l\<lparr>fl_sector_size := 512\<rparr>)\<rparr>)" "h_fve_layout h = Some l"
    and "fl_sector_size l < u32_lim" "fl_sector_size l \<notin> {512, 4096}"
    and "length (handoff_blob h) \<le> min (length out) 98304" "length out < u64_lim"
  shows "\<exists>n out'. handoff_encode h out = Ok (n, out') \<and> handoff_decode (take n out') = Err (BadValue RT_FVE_LAYOUT)"
proof -
  have h: "handoff_ok (h\<lparr>h_fve_layout := None\<rparr>)" and l: "layout_ok (l\<lparr>fl_sector_size := 512\<rparr>)"
    using assms(1) by (simp_all add: handoff_ok_def)
  have "handoff_decode (handoff_blob h) = Err (BadValue 4)"
    using assms(5) records_refused [OF h assms(2) dec_layout_refused [OF l assms(3,4)]]
    by (simp add: handoff_decode_records)
  with handoff_encode_blob [OF h assms(5,6)] show ?thesis by (simp add: handoff_consts)
qed

theorem encode_misses_sector_size_witness:
  "\<exists>n out'. handoff_encode (sample_handoff (Some \<lparr>fl_metadata_offsets = (1, 2, 3), fl_region_size = 65536,
      fl_reloc_offset = 0, fl_reloc_sectors = 16, fl_encrypted_size = 0, fl_sector_size = 1024,
      fl_extra_region_offset = 0\<rparr>)) (replicate 300 0) = Ok (n, out')
    \<and> handoff_decode (take n out') = Err (BadValue RT_FVE_LAYOUT)"
proof -
  let ?l = "\<lparr>fl_metadata_offsets = (1, 2, 3), fl_region_size = 65536, fl_reloc_offset = 0,
    fl_reloc_sectors = 16, fl_encrypted_size = 0, fl_sector_size = 1024, fl_extra_region_offset = 0\<rparr>"
  let ?h = "sample_handoff (Some ?l)"
  have "handoff_ok (?h\<lparr>h_fve_layout := Some (?l\<lparr>fl_sector_size := 512\<rparr>)\<rparr>)"
    using sample_ok(1) by (simp add: sample_handoff_def handoff_ok_def layout_ok_def)
  moreover have "length (handoff_blob ?h) \<le> 300"
    by (simp add: length_handoff_blob handoff_body_def handoff_records_def record_bytes_def
        sample_handoff_def volume_bytes_def pcrs_bytes_def layout_bytes_def)
  ultimately show ?thesis
    by (intro encode_misses_sector_size [where l = ?l]) (simp_all add: sample_handoff_def)
qed

end
