(* ===== verification/Bootstrap.thy ===== *)
theory Bootstrap
  imports Bytes Guid Layout Utf8
begin

text \<open>
  \<open>crates/paguro-core/src/bootstrap.rs\<close>: the installer's one-shot payload, the
  \<open>EFI_LOAD_OPTION\<close> of a \<open>Boot####\<close> variable with its device path, and the recognition of paguro's
  own and of Windows' entry.  The payload parser and writer are shown to be a codec; a load option
  written by either writer parses back, with its nodes and, for the hard-drive form, the partition.
\<close>

section \<open>Data\<close>

definition BST_MAGIC :: bytes where
  "BST_MAGIC = [0x50, 0x47, 0x52, 0x42, 0x53, 0x54, 0x00, 0x01]"

definition payload_struct :: layout where
  "payload_struct = [(''magic'', 8), (''volume'', 16), (''salt'', 16), (''wrapped_vmk'', 32)]"

definition BST_PAYLOAD_LEN :: nat where "BST_PAYLOAD_LEN = size_of payload_struct"
definition BST_GUID_LEN :: nat where "BST_GUID_LEN = field_size payload_struct ''volume''"
definition BST_SALT_LEN :: nat where "BST_SALT_LEN = field_size payload_struct ''salt''"
definition BST_WRAPPED_VMK_LEN :: nat where "BST_WRAPPED_VMK_LEN = field_size payload_struct ''wrapped_vmk''"
definition BST_VAR_NAME :: str where "BST_VAR_NAME = ascii ''PaguroBootstrap''"
definition BST_MAX_VAR :: nat where "BST_MAX_VAR = 128"
definition MAX_LOAD_OPTION :: nat where "MAX_LOAD_OPTION = 8192"
definition LOAD_OPTION_ACTIVE :: nat where "LOAD_OPTION_ACTIVE = 1"
definition UTF16_NUL :: bytes where "UTF16_NUL = [0, 0]"

datatype bootstrap_error = BTooLarge | BTruncated | UnterminatedDescription | BadFilePathLength
  | BadDevicePathNode | MissingEndNode | NotBootstrap | BBadLength

type_synonym 'a bres = "(bootstrap_error, 'a) res"

record load_option =
  lo_attributes :: nat
  lo_description :: bytes
  lo_file_path :: bytes
  lo_optional :: bytes

record bootstrap =
  bs_volume :: guid
  bs_salt :: bytes
  bs_wrapped :: bytes

record dp_node =
  dp_kind :: nat
  dp_sub :: nat
  dp_data :: bytes

definition device_path_header :: layout where
  "device_path_header = [(''kind'', 1), (''sub'', 1), (''length'', 2)]"

definition DP_HEADER_LEN :: nat where "DP_HEADER_LEN = size_of device_path_header"
definition DP_MEDIA :: nat where "DP_MEDIA = 0x04"
definition DP_MEDIA_HARD_DRIVE :: nat where "DP_MEDIA_HARD_DRIVE = 0x01"
definition DP_MEDIA_FILE_PATH :: nat where "DP_MEDIA_FILE_PATH = 0x04"
definition DP_END :: nat where "DP_END = 0x7f"
definition DP_END_ENTIRE :: nat where "DP_END_ENTIRE = 0xff"
definition DP_END_ENTIRE_NODE :: bytes where
  "DP_END_ENTIRE_NODE = [word_of_nat DP_END, word_of_nat DP_END_ENTIRE, word_of_nat DP_HEADER_LEN, 0]"

section \<open>Parsing\<close>

text \<open>The nodes the visitor is called with, also those before an error, and the result.\<close>

definition first_node :: "reader \<Rightarrow> (dp_node \<times> reader) bres" where
  "first_node r =
    rdo (r_u8 r) MissingEndNode (\<lambda>k r.
    rdo (r_u8 r) BadDevicePathNode (\<lambda>s r.
    rdo (r_u16_le r) BadDevicePathNode (\<lambda>len r.
    rbind (ok_or (checked_sub len DP_HEADER_LEN) BadDevicePathNode) (\<lambda>n.
    rdo (rtake n r) BadDevicePathNode (\<lambda>d r.
    Ok (\<lparr>dp_kind = k, dp_sub = s, dp_data = d\<rparr>, r))))))"

lemma first_node_shorter: "first_node r = Ok (x, r') \<Longrightarrow> length r' < length r"
  by (auto simp: first_node_def rdo_eq_Ok rbind_eq_Ok dest!: r_u8_SomeD r_u16_le_SomeD rtake_SomeD)

function walk_loop :: "reader \<Rightarrow> nat \<Rightarrow> dp_node list \<times> nat bres" where
  "walk_loop r n =
    (case first_node r of
       Err e \<Rightarrow> ([], Err e)
     | Panic \<Rightarrow> ([], Panic)
     | Ok (x, r') \<Rightarrow>
         if dp_kind x = DP_END \<and> dp_sub x = DP_END_ENTIRE
         then ([], if reader_is_empty r' then Ok n else Err MissingEndNode)
         else (case walk_loop r' (n + 1) of (xs, e) \<Rightarrow> (x # xs, e)))"
  by pat_completeness auto
termination
  by (relation "measure (\<lambda>(r, n). length r)") (auto dest: first_node_shorter)

declare walk_loop.simps [simp del]

definition walk_device_path :: "bytes \<Rightarrow> dp_node list \<times> nat bres" where
  "walk_device_path l = walk_loop (reader_new l) 0"

text \<open>The position of the terminating NUL of the description.\<close>

function desc_scan :: "bytes \<Rightarrow> nat \<Rightarrow> nat option" where
  "desc_scan b i =
    (case get_range b i (i + length UTF16_NUL) of
       None \<Rightarrow> None
     | Some p \<Rightarrow> if p = UTF16_NUL then Some i else desc_scan b (i + length UTF16_NUL))"
  by pat_completeness auto
termination
  by (relation "measure (\<lambda>(b, i). length b - i)") (auto simp: get_range_Some_iff UTF16_NUL_def)

declare desc_scan.simps [simp del]

definition parse_load_option :: "bytes \<Rightarrow> load_option bres" where
  "parse_load_option var =
    (if length var > MAX_LOAD_OPTION then Err BTooLarge else
     rdo (r_u32_le (reader_new var)) BTruncated (\<lambda>attributes r.
     rdo (r_u16_le r) BTruncated (\<lambda>fpl r.
     rbind (ok_or (desc_scan (rest r) 0) UnterminatedDescription) (\<lambda>dl.
     rdo (rtake dl r) BTruncated (\<lambda>d r.
     rdo (rtake (length UTF16_NUL) r) BTruncated (\<lambda>_ r.
     if fpl = 0 then Err BadFilePathLength else
     rdo (rtake fpl r) BadFilePathLength (\<lambda>fp r.
     rbind (snd (walk_device_path fp)) (\<lambda>_.
     Ok \<lparr>lo_attributes = attributes, lo_description = d, lo_file_path = fp, lo_optional = rest r\<rparr>))))))))"

definition parse_payload :: "bytes \<Rightarrow> bootstrap bres" where
  "parse_payload d =
    (if length d > BST_MAX_VAR then Err BTooLarge else
     if get_range d 0 (length BST_MAGIC) \<noteq> Some BST_MAGIC then Err NotBootstrap else
     if length d \<noteq> BST_PAYLOAD_LEN then Err BBadLength else
     let r = reader_new (drop (offset_of payload_struct ''volume'') d) in
     rdo (rarray BST_GUID_LEN r) BBadLength (\<lambda>v r.
     rdo (rarray BST_SALT_LEN r) BBadLength (\<lambda>s r.
     rdo (rarray BST_WRAPPED_VMK_LEN r) BBadLength (\<lambda>w r.
     Ok \<lparr>bs_volume = v, bs_salt = s, bs_wrapped = w\<rparr>))))"

section \<open>Recognising entries\<close>

definition ASCII_END :: nat where "ASCII_END = 0x80"

text \<open>\<open>chunks_exact(n)\<close>: the whole chunks, the remainder left out.\<close>

function chunks_exact :: "nat \<Rightarrow> 'a list \<Rightarrow> 'a list list" where
  "chunks_exact n xs = (if n = 0 \<or> length xs < n then [] else take n xs # chunks_exact n (drop n xs))"
  by pat_completeness auto
termination
  by (relation "measure (\<lambda>(n, xs). length xs)") auto

declare chunks_exact.simps [simp del]

definition eq_ignore_ascii_case :: "byte \<Rightarrow> byte \<Rightarrow> bool" where
  "eq_ignore_ascii_case a b \<longleftrightarrow> ascii_lower a = ascii_lower b"

definition eq_ignore_case_utf16 :: "bytes \<Rightarrow> bytes \<Rightarrow> bool" where
  "eq_ignore_case_utf16 a t \<longleftrightarrow>
     length a = length t * 2
   \<and> list_all (\<lambda>(u, c). le_val u < ASCII_END \<and> eq_ignore_ascii_case (word_of_nat (le_val u)) c)
       (zip (chunks_exact 2 a) t)"

definition file_path_text :: "dp_node \<Rightarrow> bytes option" where
  "file_path_text n =
    (if dp_kind n \<noteq> DP_MEDIA \<or> dp_sub n \<noteq> DP_MEDIA_FILE_PATH then None
     else let d = dp_data n in
       Some (case checked_sub (length d) (length UTF16_NUL) of
               Some e \<Rightarrow> if drop e d = UTF16_NUL then take e d else d
             | None \<Rightarrow> d))"

definition PAGURO_EFI_DIR :: bytes where
  "PAGURO_EFI_DIR = as_bytes (0x5c # ascii ''EFI'' @ 0x5c # ascii ''paguro'' @ [0x5c])"

definition WINDOWS_TAIL :: bytes where
  "WINDOWS_TAIL = as_bytes (0x5c # ascii ''EFI'' @ 0x5c # ascii ''Microsoft'' @ 0x5c # ascii ''Boot''
     @ 0x5c # ascii ''bootmgfw.efi'')"

definition is_paguro :: "load_option \<Rightarrow> bool" where
  "is_paguro lo \<longleftrightarrow> list_ex (\<lambda>n. case file_path_text n of None \<Rightarrow> False | Some t \<Rightarrow>
     (case get_range t 0 (length PAGURO_EFI_DIR * 2) of None \<Rightarrow> False
      | Some h \<Rightarrow> eq_ignore_case_utf16 h PAGURO_EFI_DIR)) (fst (walk_device_path (lo_file_path lo)))"

definition is_windows_boot_manager :: "load_option \<Rightarrow> bool" where
  "is_windows_boot_manager lo \<longleftrightarrow> list_ex (\<lambda>n. case file_path_text n of None \<Rightarrow> False | Some d \<Rightarrow>
     (case checked_sub (length d) (length WINDOWS_TAIL * 2) of None \<Rightarrow> False
      | Some at \<Rightarrow> eq_ignore_case_utf16 (drop at d) WINDOWS_TAIL)) (fst (walk_device_path (lo_file_path lo)))"

section \<open>Writing\<close>

text \<open>\<open>encode_utf16\<close>: a scalar below \<open>0x10000\<close> is one unit, any other a surrogate pair.\<close>

definition utf16_char :: "nat \<Rightarrow> nat list" where
  "utf16_char c = (if c < 0x10000 then [c]
     else [0xD800 + (c - 0x10000) div 1024, 0xDC00 + (c - 0x10000) mod 1024])"

definition encode_utf16 :: "str \<Rightarrow> nat list" where
  "encode_utf16 s = concat (map utf16_char s)"

definition put_units :: "writer \<Rightarrow> nat list \<Rightarrow> writer option" where
  "put_units w us = opt_fold w_u16_le w us"

definition put_u16 :: "writer \<Rightarrow> nat \<Rightarrow> writer option" where
  \<comment> \<open>\<open>w.u16_le(u16::try_from(n).map_err(|_| Full)?)\<close>\<close>
  "put_u16 w n = (if n < u16_lim then w_u16_le w n else None)"

definition write_load_option :: "nat \<Rightarrow> str \<Rightarrow> str \<Rightarrow> bytes \<Rightarrow> bytes \<Rightarrow> (nat \<times> bytes) option" where
  "write_load_option attributes descr path optional out =
    Option.bind (w_u32_le (writer_new out) attributes) (\<lambda>w.
    let path_units = length (encode_utf16 path) + 1;
        fpl = DP_HEADER_LEN + path_units * 2 + DP_HEADER_LEN in
    Option.bind (put_u16 w fpl) (\<lambda>w.
    Option.bind (put_units w (encode_utf16 descr)) (\<lambda>w.
    Option.bind (w_u16_le w 0) (\<lambda>w.
    Option.bind (w_u8 w DP_MEDIA) (\<lambda>w.
    Option.bind (w_u8 w DP_MEDIA_FILE_PATH) (\<lambda>w.
    Option.bind (put_u16 w (DP_HEADER_LEN + path_units * 2)) (\<lambda>w.
    Option.bind (put_units w (encode_utf16 path)) (\<lambda>w.
    Option.bind (w_u16_le w 0) (\<lambda>w.
    Option.bind (wput w DP_END_ENTIRE_NODE) (\<lambda>w.
    Option.bind (wput w optional) (\<lambda>w.
    Some (wlen w, wbuf w))))))))))))"

definition write_payload :: "guid \<Rightarrow> bytes \<Rightarrow> bytes \<Rightarrow> bytes" where
  \<comment> \<open>the fixed arrays that come back; a failing \<open>put\<close> would leave the writer as it was\<close>
  "write_payload v s w =
    (let put' = (\<lambda>wr b. case wput wr b of Some wr' \<Rightarrow> wr' | None \<Rightarrow> wr) in
     wbuf (put' (put' (put' (put' (writer_new (replicate BST_PAYLOAD_LEN 0)) BST_MAGIC) v) s) w))"

record hard_drive =
  hd_number :: nat
  hd_start_lba :: nat
  hd_size_lba :: nat
  hd_guid :: guid

definition hard_drive_data :: layout where
  "hard_drive_data = [(''partition_number'', 4), (''partition_start'', 8), (''partition_size'', 8),
     (''partition_signature'', 16), (''mbr_type'', 1), (''signature_type'', 1)]"

definition HD_DATA_LEN :: nat where "HD_DATA_LEN = size_of hard_drive_data"
definition HD_MBR_TYPE_GPT :: byte where "HD_MBR_TYPE_GPT = 2"
definition HD_SIGNATURE_TYPE_GUID :: byte where "HD_SIGNATURE_TYPE_GUID = 2"
definition HD_GPT :: bytes where "HD_GPT = [HD_MBR_TYPE_GPT, HD_SIGNATURE_TYPE_GUID]"

definition parse_hard_drive :: "dp_node \<Rightarrow> hard_drive option" where
  "parse_hard_drive n =
    (if dp_kind n \<noteq> DP_MEDIA \<or> dp_sub n \<noteq> DP_MEDIA_HARD_DRIVE \<or> length (dp_data n) \<noteq> HD_DATA_LEN then None
     else Option.bind (r_u32_le (reader_new (dp_data n))) (\<lambda>(num, r).
     Option.bind (r_u64_le r) (\<lambda>(st, r).
     Option.bind (r_u64_le r) (\<lambda>(sz, r).
     Option.bind (rarray BST_GUID_LEN r) (\<lambda>(g, r).
     if rest r = HD_GPT
     then Some \<lparr>hd_number = num, hd_start_lba = st, hd_size_lba = sz, hd_guid = g\<rparr> else None)))))"

definition write_load_option_hd ::
  "nat \<Rightarrow> str \<Rightarrow> hard_drive \<Rightarrow> str \<Rightarrow> bytes \<Rightarrow> bytes \<Rightarrow> (nat \<times> bytes) option" where
  "write_load_option_hd attributes descr drv path optional out =
    Option.bind (w_u32_le (writer_new out) attributes) (\<lambda>w.
    let path_units = length (encode_utf16 path) + 1;
        fp_node = DP_HEADER_LEN + path_units * 2;
        fpl = (DP_HEADER_LEN + HD_DATA_LEN) + fp_node + DP_HEADER_LEN in
    Option.bind (put_u16 w fpl) (\<lambda>w.
    Option.bind (put_units w (encode_utf16 descr)) (\<lambda>w.
    Option.bind (w_u16_le w 0) (\<lambda>w.
    Option.bind (w_u8 w DP_MEDIA) (\<lambda>w.
    Option.bind (w_u8 w DP_MEDIA_HARD_DRIVE) (\<lambda>w.
    Option.bind (w_u16_le w (DP_HEADER_LEN + HD_DATA_LEN)) (\<lambda>w.
    Option.bind (w_u32_le w (hd_number drv)) (\<lambda>w.
    Option.bind (w_u64_le w (hd_start_lba drv)) (\<lambda>w.
    Option.bind (w_u64_le w (hd_size_lba drv)) (\<lambda>w.
    Option.bind (wput w (hd_guid drv)) (\<lambda>w.
    Option.bind (wput w HD_GPT) (\<lambda>w.
    Option.bind (w_u8 w DP_MEDIA) (\<lambda>w.
    Option.bind (w_u8 w DP_MEDIA_FILE_PATH) (\<lambda>w.
    Option.bind (put_u16 w fp_node) (\<lambda>w.
    Option.bind (put_units w (encode_utf16 path)) (\<lambda>w.
    Option.bind (w_u16_le w 0) (\<lambda>w.
    Option.bind (wput w DP_END_ENTIRE_NODE) (\<lambda>w.
    Option.bind (wput w optional) (\<lambda>w.
    Some (wlen w, wbuf w))))))))))))))))))))"

section \<open>The payload\<close>

lemma bst_consts:
  "BST_PAYLOAD_LEN = 72" "BST_GUID_LEN = 16" "BST_SALT_LEN = 16" "BST_WRAPPED_VMK_LEN = 32"
  "BST_MAX_VAR = 128" "length BST_MAGIC = 8" "offset_of payload_struct ''volume'' = 8"
  "DP_HEADER_LEN = 4" "DP_MEDIA = 4" "DP_MEDIA_HARD_DRIVE = 1" "DP_MEDIA_FILE_PATH = 4" "DP_END = 127"
  "DP_END_ENTIRE = 255" "HD_DATA_LEN = 38" "MAX_LOAD_OPTION = 8192" "length UTF16_NUL = 2" "length HD_GPT = 2"
  "DP_END_ENTIRE_NODE = le_bytes 1 127 @ le_bytes 1 255 @ le_bytes 2 4"
  by (simp_all add: BST_PAYLOAD_LEN_def BST_GUID_LEN_def BST_SALT_LEN_def BST_WRAPPED_VMK_LEN_def
      BST_MAX_VAR_def BST_MAGIC_def payload_struct_def DP_HEADER_LEN_def device_path_header_def
      DP_MEDIA_def DP_MEDIA_HARD_DRIVE_def DP_MEDIA_FILE_PATH_def DP_END_def DP_END_ENTIRE_def
      HD_DATA_LEN_def hard_drive_data_def MAX_LOAD_OPTION_def UTF16_NUL_def HD_GPT_def DP_END_ENTIRE_NODE_def
      numeral_2_eq_2)

definition bootstrap_ok :: "bootstrap \<Rightarrow> bool" where
  "bootstrap_ok b \<longleftrightarrow> length (bs_volume b) = 16 \<and> length (bs_salt b) = 16 \<and> length (bs_wrapped b) = 32"

definition payload_bytes :: "bootstrap \<Rightarrow> bytes" where
  "payload_bytes b = BST_MAGIC @ bs_volume b @ bs_salt b @ bs_wrapped b"

lemma parse_payload_Ok: "parse_payload d = Ok b \<longleftrightarrow> bootstrap_ok b \<and> d = payload_bytes b"
proof
  assume a: "parse_payload d = Ok b"
  then have m: "take 8 d = BST_MAGIC" "length d = 72"
    by (auto simp: parse_payload_def bst_consts get_range_def split: if_splits)
  then have d: "d = BST_MAGIC @ drop 8 d" by (metis append_take_drop_id)
  have "bootstrap_ok b \<and> drop 8 d = bs_volume b @ bs_salt b @ bs_wrapped b"
    using a m by (auto simp: parse_payload_def bst_consts rdo_eq_Ok Let_def reader_new_def bootstrap_ok_def
        split: if_splits dest!: rarray_SomeD) (auto dest: arg_cong [where f = length])
  with d show "bootstrap_ok b \<and> d = payload_bytes b" by (simp add: payload_bytes_def)
next
  assume b: "bootstrap_ok b \<and> d = payload_bytes b"
  then have "rarray 32 (bs_wrapped b) = Some (bs_wrapped b, [])"
    using rarray_append [of "bs_wrapped b" 32 "[]"] by (simp add: bootstrap_ok_def)
  with b show "parse_payload d = Ok b"
    by (simp add: parse_payload_def bst_consts payload_bytes_def bootstrap_ok_def get_range_def reader_new_def Let_def)
qed

lemma parse_payload_not_Panic: "parse_payload d \<noteq> Panic"
  by (simp add: parse_payload_def Let_def rdo_def split: option.split prod.split)

interpretation bp: codec payload_bytes parse_payload bootstrap_ok
  by unfold_locales (auto simp: parse_payload_Ok)

lemma write_payload_eq:
  assumes "bootstrap_ok b"
  shows "write_payload (bs_volume b) (bs_salt b) (bs_wrapped b) = payload_bytes b"
  using assms by (simp add: write_payload_def writer_new_wr Let_def bst_consts bootstrap_ok_def payload_bytes_def)

text \<open>
  The bootstrap payload: parsing never panics and accepts exactly the 72-byte encodings of a
  volume, a salt and a wrapped key, which is what \<open>write_payload\<close> produces.
\<close>

theorem bootstrap_payload_exact:
  "parse_payload d \<noteq> Panic
   \<and> (parse_payload d = Ok b \<longleftrightarrow> bootstrap_ok b \<and> d = write_payload (bs_volume b) (bs_salt b) (bs_wrapped b))"
  using parse_payload_not_Panic bp.dec_iff [of d b] write_payload_eq [of b] by auto

section \<open>Load options\<close>

lemma walk_loop_not_Panic: "snd (walk_loop r n) \<noteq> Panic"
proof (induction r n rule: walk_loop.induct)
  case (1 r n)
  have "first_node r \<noteq> Panic"
    by (simp add: first_node_def rdo_def ok_or_def split: option.split prod.split)
  moreover have "snd (walk_loop r n) \<noteq> Panic" if "first_node r = Ok (x, r')" for x r'
    using 1 [OF that refl] by (subst walk_loop.simps) (simp add: that split_def)
  ultimately show ?case
    by (cases "first_node r") (auto simp: walk_loop.simps [of r n])
qed

lemma parse_load_option_wp: "wp (parse_load_option var) (\<lambda>_. True)"
proof -
  have "wp (snd (walk_device_path fp)) (\<lambda>_. True)" for fp
    by (simp add: walk_device_path_def wp_True walk_loop_not_Panic)
  then show ?thesis by (auto simp: parse_load_option_def intro: wp_conseq)
qed

definition node_bytes :: "dp_node \<Rightarrow> bytes" where
  "node_bytes x = le_bytes 1 (dp_kind x) @ le_bytes 1 (dp_sub x) @ le_bytes 2 (4 + length (dp_data x)) @ dp_data x"

definition node_ok :: "dp_node \<Rightarrow> bool" where
  "node_ok x \<longleftrightarrow> dp_kind x < u8_lim \<and> dp_sub x < u8_lim \<and> 4 + length (dp_data x) < u16_lim
     \<and> \<not> (dp_kind x = 127 \<and> dp_sub x = 255)"

definition path_list :: "dp_node list \<Rightarrow> bytes" where
  "path_list ns = concat (map node_bytes ns) @ DP_END_ENTIRE_NODE"

lemma first_node_bytes:
  "dp_kind x < u8_lim \<Longrightarrow> dp_sub x < u8_lim \<Longrightarrow> 4 + length (dp_data x) < u16_lim
    \<Longrightarrow> first_node (node_bytes x @ r) = Ok (x, r)"
  by (simp add: first_node_def node_bytes_def bst_consts checked_sub_def del: le_bytes.simps One_nat_def)

lemma first_node_end: "first_node DP_END_ENTIRE_NODE = Ok (\<lparr>dp_kind = 127, dp_sub = 255, dp_data = []\<rparr>, [])"
  using first_node_bytes [of "\<lparr>dp_kind = 127, dp_sub = 255, dp_data = []\<rparr>" "[]"]
  by (simp add: node_bytes_def bst_consts del: le_bytes.simps One_nat_def)

lemma walk_loop_nodes:
  "\<forall>x\<in>set ns. node_ok x \<Longrightarrow> walk_loop (path_list ns) n = (ns, Ok (n + length ns))"
proof (induction ns arbitrary: n)
  case Nil
  show ?case
    by (subst walk_loop.simps) (simp add: path_list_def first_node_end bst_consts(12,13) reader_is_empty_def)
next
  case (Cons x ns)
  then have "first_node (path_list (x # ns)) = Ok (x, path_list ns)"
    using first_node_bytes [of x "path_list ns"] by (simp add: path_list_def node_ok_def)
  with Cons show ?case
    by (subst walk_loop.simps) (auto simp: bst_consts node_ok_def)
qed

lemma walk_path_list: "\<forall>x\<in>set ns. node_ok x \<Longrightarrow> walk_device_path (path_list ns) = (ns, Ok (length ns))"
  by (simp add: walk_device_path_def reader_new_def walk_loop_nodes)

definition units_bytes :: "nat list \<Rightarrow> bytes" where
  "units_bytes us = concat (map (le_bytes 2) us)"

lemma length_units_bytes [simp]: "length (units_bytes us) = 2 * length us"
  by (induction us) (simp_all add: units_bytes_def)

lemma unit_not_NUL: "0 < u \<Longrightarrow> u < u16_lim \<Longrightarrow> le_bytes 2 u \<noteq> [0, 0]"
proof
  assume u: "0 < u" "u < u16_lim" and "le_bytes 2 u = [0, 0]"
  then have "le_val (le_bytes 2 u) = le_val [0, 0]" by (rule_tac arg_cong)
  with u show False by simp
qed

lemma get_unit: "length v = 2 \<Longrightarrow> get_range (pre @ v @ y) (length pre) (length pre + 2) = Some v"
  by (simp add: get_range_def)

lemma desc_scan_units:
  "\<forall>u\<in>set us. 0 < u \<and> u < u16_lim \<Longrightarrow> desc_scan (pre @ units_bytes us @ UTF16_NUL @ x) (length pre)
    = Some (length pre + 2 * length us)"
proof (induction us arbitrary: pre)
  case Nil
  then show ?case
    using get_unit [of UTF16_NUL pre x] by (subst desc_scan.simps) (simp add: units_bytes_def bst_consts)
next
  case (Cons u us)
  have "le_bytes 2 u \<noteq> [0, 0]" using Cons.prems unit_not_NUL by simp
  moreover have "desc_scan ((pre @ le_bytes 2 u) @ units_bytes us @ UTF16_NUL @ x) (length (pre @ le_bytes 2 u))
      = Some (length (pre @ le_bytes 2 u) + 2 * length us)" using Cons.prems by (intro Cons.IH) simp
  moreover have "get_range (pre @ units_bytes (u # us) @ UTF16_NUL @ x) (length pre) (length pre + length UTF16_NUL)
      = Some (le_bytes 2 u)"
    using get_unit [of "le_bytes 2 u"] by (simp add: units_bytes_def bst_consts)
  ultimately show ?case
    by (subst desc_scan.simps) (simp add: units_bytes_def UTF16_NUL_def)
qed

definition load_option_bytes :: "nat \<Rightarrow> nat list \<Rightarrow> bytes \<Rightarrow> bytes \<Rightarrow> bytes" where
  "load_option_bytes a us fp opt = le_bytes 4 a @ le_bytes 2 (length fp) @ units_bytes us @ UTF16_NUL @ fp @ opt"

lemma parse_load_option_bytes:
  assumes "a < u32_lim" "\<forall>u\<in>set us. 0 < u \<and> u < u16_lim" "\<forall>x\<in>set ns. node_ok x"
    and "length (path_list ns) < u16_lim" "length (load_option_bytes a us (path_list ns) opt) \<le> 8192"
  shows "parse_load_option (load_option_bytes a us (path_list ns) opt)
    = Ok \<lparr>lo_attributes = a, lo_description = units_bytes us, lo_file_path = path_list ns, lo_optional = opt\<rparr>"
proof -
  define fp where "fp = path_list ns"
  have fp: "0 < length fp" "length fp < u16_lim" "snd (walk_device_path fp) = Ok (length ns)"
    using assms(3,4) walk_path_list by (simp_all add: fp_def path_list_def DP_END_ENTIRE_NODE_def)
  have "desc_scan (units_bytes us @ UTF16_NUL @ fp @ opt) 0 = Some (2 * length us)"
    using desc_scan_units [OF assms(2), of "[]"] by simp
  moreover have "rtake (2 * length us) (units_bytes us @ y) = Some (units_bytes us, y)" for y by simp
  moreover have "rtake 2 (UTF16_NUL @ y) = Some (UTF16_NUL, y)" for y by (simp add: bst_consts)
  moreover have "rtake (length fp) (fp @ opt) = Some (fp, opt)" by simp
  ultimately show ?thesis
    using assms(1,5) fp unfolding parse_load_option_def fp_def [symmetric] load_option_bytes_def bst_consts
    by (simp add: reader_new_def rest_def)
qed

section \<open>The writers\<close>

lemma emits_units: "emits (\<lambda>w. put_units w us) (units_bytes us)"
proof -
  have "list_all2 (\<lambda>u b. emits (\<lambda>w. w_u16_le w u) b) us (map (le_bytes 2) us)"
    by (simp add: list_all2_map2 list.rel_refl)
  from emits_fold [OF this] show ?thesis by (simp add: put_units_def units_bytes_def)
qed

lemma emits_put_u16: "n < u16_lim \<Longrightarrow> emits (\<lambda>w. put_u16 w n) (le_bytes 2 n)"
  by (simp add: put_u16_def)

definition file_node :: "str \<Rightarrow> dp_node" where
  "file_node path = \<lparr>dp_kind = 4, dp_sub = 4, dp_data = units_bytes (encode_utf16 path) @ UTF16_NUL\<rparr>"

definition hd_node :: "hard_drive \<Rightarrow> dp_node" where
  "hd_node d = \<lparr>dp_kind = 4, dp_sub = 1, dp_data = le_bytes 4 (hd_number d) @ le_bytes 8 (hd_start_lba d)
     @ le_bytes 8 (hd_size_lba d) @ hd_guid d @ HD_GPT\<rparr>"

definition drive_ok :: "hard_drive \<Rightarrow> bool" where
  "drive_ok d \<longleftrightarrow> hd_number d < u32_lim \<and> hd_start_lba d < u64_lim \<and> hd_size_lba d < u64_lim \<and> length (hd_guid d) = 16"

lemma parse_hd_node: "drive_ok d \<Longrightarrow> parse_hard_drive (hd_node d) = Some d"
  by (simp add: parse_hard_drive_def hd_node_def drive_ok_def bst_consts reader_new_def rest_def)

text \<open>The bytes of both forms: the nodes before the file node.\<close>

definition option_written :: "nat \<Rightarrow> str \<Rightarrow> dp_node list \<Rightarrow> str \<Rightarrow> bytes \<Rightarrow> bytes" where
  "option_written a descr ns path opt = load_option_bytes a (encode_utf16 descr) (path_list (ns @ [file_node path])) opt"

definition option_fits :: "nat \<Rightarrow> str \<Rightarrow> dp_node list \<Rightarrow> str \<Rightarrow> bytes \<Rightarrow> bool" where
  "option_fits a descr ns path opt \<longleftrightarrow> a < u32_lim \<and> list_all is_scalar descr \<and> 0 \<notin> set descr
     \<and> (\<forall>x\<in>set ns. node_ok x) \<and> length (option_written a descr ns path opt) \<le> 8192"

lemma utf16_units: "is_scalar c \<Longrightarrow> c \<noteq> 0 \<Longrightarrow> \<forall>u\<in>set (utf16_char c). 0 < u \<and> u < u16_lim"
proof -
  assume "is_scalar c" "c \<noteq> 0"
  moreover have "(c - 0x10000) div 1024 < 1024" if "c < 0x110000"
    using that by (simp add: less_mult_imp_div_less)
  moreover have "(c - 0x10000) mod 1024 < 1024" by simp
  ultimately show ?thesis by (auto simp: utf16_char_def is_scalar_def)
qed

lemma encode_utf16_units:
  "list_all is_scalar s \<Longrightarrow> 0 \<notin> set s \<Longrightarrow> \<forall>u\<in>set (encode_utf16 s). 0 < u \<and> u < u16_lim"
  using utf16_units by (fastforce simp: encode_utf16_def list_all_iff)

lemma option_parts:
  assumes "option_fits a descr ns path opt"
  shows "\<forall>x\<in>set (ns @ [file_node path]). node_ok x" "length (path_list (ns @ [file_node path])) < u16_lim"
proof -
  have l: "length (path_list (ns @ [file_node path])) \<le> 8192"
    using assms by (simp add: option_fits_def option_written_def load_option_bytes_def)
  then show "length (path_list (ns @ [file_node path])) < u16_lim" by simp
  from l have "length (dp_data (file_node path)) \<le> 8192" by (simp add: path_list_def node_bytes_def)
  then have "node_ok (file_node path)" by (simp add: node_ok_def file_node_def)
  with assms show "\<forall>x\<in>set (ns @ [file_node path]). node_ok x" by (simp add: option_fits_def)
qed

lemma option_parses:
  assumes "option_fits a descr ns path opt"
  shows "parse_load_option (option_written a descr ns path opt)
    = Ok \<lparr>lo_attributes = a, lo_description = units_bytes (encode_utf16 descr),
          lo_file_path = path_list (ns @ [file_node path]), lo_optional = opt\<rparr>"
  unfolding option_written_def
  using assms option_parts [OF assms]
  by (intro parse_load_option_bytes encode_utf16_units) (auto simp: option_fits_def option_written_def)

lemma zero_unit: "le_bytes 2 0 = UTF16_NUL"
  by (simp add: UTF16_NUL_def numeral_2_eq_2)

lemma length_end_node [simp]: "length DP_END_ENTIRE_NODE = 4"
  by (simp add: DP_END_ENTIRE_NODE_def)

lemma length_file_node: "length (node_bytes (file_node path)) = 4 + (length (encode_utf16 path) + 1) * 2"
  by (simp add: node_bytes_def file_node_def bst_consts)

lemma file_node_bytes:
  "node_bytes (file_node path) = le_bytes 1 4 @ le_bytes 1 4 @ le_bytes 2 (4 + (length (encode_utf16 path) + 1) * 2)
     @ units_bytes (encode_utf16 path) @ le_bytes 2 0"
  by (simp add: node_bytes_def file_node_def bst_consts zero_unit mult.commute del: le_bytes.simps One_nat_def)

lemma hd_node_bytes:
  "drive_ok d \<Longrightarrow> node_bytes (hd_node d) = le_bytes 1 4 @ le_bytes 1 1 @ le_bytes 2 42 @ le_bytes 4 (hd_number d)
     @ le_bytes 8 (hd_start_lba d) @ le_bytes 8 (hd_size_lba d) @ hd_guid d @ HD_GPT"
  by (simp add: node_bytes_def hd_node_def drive_ok_def bst_consts del: le_bytes.simps One_nat_def)

lemma emits_run:
  assumes "emits f b" "length b \<le> length out" "length out < u64_lim"
  shows "Option.bind (f (writer_new out)) (\<lambda>w. Some (wlen w, wbuf w)) = Some (length b, b @ drop (length b) out)"
  using emitsD [OF assms(1), of out "[]"] assms(2,3) by (simp add: writer_new_wr)

lemma write_load_option_eq:
  assumes "option_fits a descr [] path opt" "length (option_written a descr [] path opt) \<le> length out"
    "length out < u64_lim"
  shows "write_load_option a descr path opt out = Some (length (option_written a descr [] path opt),
    option_written a descr [] path opt @ drop (length (option_written a descr [] path opt)) out)"
proof -
  let ?n = "4 + (length (encode_utf16 path) + 1) * 2"
  have l: "?n + 4 < u16_lim"
    using option_parts(2) [OF assms(1)] length_file_node [of path] by (simp add: path_list_def)
  have b: "option_written a descr [] path opt = le_bytes 4 a @ le_bytes 2 (?n + 4) @ units_bytes (encode_utf16 descr)
      @ le_bytes 2 0 @ le_bytes 1 4 @ le_bytes 1 4 @ le_bytes 2 ?n @ units_bytes (encode_utf16 path)
      @ le_bytes 2 0 @ DP_END_ENTIRE_NODE @ opt"
    unfolding option_written_def load_option_bytes_def path_list_def
    using length_file_node [of path] by (simp add: file_node_bytes zero_unit bst_consts mult.commute del: le_bytes.simps One_nat_def)
  define F where "F w = Option.bind (w_u32_le w a) (\<lambda>w. Option.bind (put_u16 w (?n + 4)) (\<lambda>w.
    Option.bind (put_units w (encode_utf16 descr)) (\<lambda>w. Option.bind (w_u16_le w 0) (\<lambda>w.
    Option.bind (w_u8 w 4) (\<lambda>w. Option.bind (w_u8 w 4) (\<lambda>w. Option.bind (put_u16 w ?n) (\<lambda>w.
    Option.bind (put_units w (encode_utf16 path)) (\<lambda>w. Option.bind (w_u16_le w 0) (\<lambda>w.
    Option.bind (wput w DP_END_ENTIRE_NODE) (\<lambda>w. wput w opt))))))))))" for w
  have "emits F (option_written a descr [] path opt)"
    unfolding b F_def [abs_def] using l by (intro emits_bind emits_wput emits_ints emits_units emits_put_u16) simp_all
  note e = emits_run [OF this assms(2,3)]
  show ?thesis
    unfolding e [symmetric] write_load_option_def Let_def F_def bst_consts(8-11)
    by (simp add: add.commute add.left_commute del: le_bytes.simps One_nat_def)
qed

lemma hd_node_ok: "drive_ok d \<Longrightarrow> node_ok (hd_node d)"
  by (simp add: node_ok_def hd_node_def drive_ok_def bst_consts)

lemma length_hd_node: "drive_ok d \<Longrightarrow> length (node_bytes (hd_node d)) = 42"
  by (simp add: node_bytes_def hd_node_def drive_ok_def bst_consts)

lemma write_load_option_hd_eq:
  assumes "drive_ok d" and f: "option_fits a descr [hd_node d] path opt"
    and "length (option_written a descr [hd_node d] path opt) \<le> length out" "length out < u64_lim"
  shows "write_load_option_hd a descr d path opt out = Some (length (option_written a descr [hd_node d] path opt),
    option_written a descr [hd_node d] path opt @ drop (length (option_written a descr [hd_node d] path opt)) out)"
proof -
  let ?n = "4 + (length (encode_utf16 path) + 1) * 2"
  have l: "42 + ?n + 4 < u16_lim"
    using option_parts(2) [OF f] length_file_node [of path] length_hd_node [OF assms(1)] by (simp add: path_list_def)
  have b: "option_written a descr [hd_node d] path opt = le_bytes 4 a @ le_bytes 2 (42 + ?n + 4)
      @ units_bytes (encode_utf16 descr) @ le_bytes 2 0 @ le_bytes 1 4 @ le_bytes 1 1 @ le_bytes 2 42
      @ le_bytes 4 (hd_number d) @ le_bytes 8 (hd_start_lba d) @ le_bytes 8 (hd_size_lba d) @ hd_guid d @ HD_GPT
      @ le_bytes 1 4 @ le_bytes 1 4 @ le_bytes 2 ?n @ units_bytes (encode_utf16 path)
      @ le_bytes 2 0 @ DP_END_ENTIRE_NODE @ opt"
    unfolding option_written_def load_option_bytes_def path_list_def
    using length_file_node [of path] length_hd_node [OF assms(1)]
    by (simp add: file_node_bytes hd_node_bytes assms(1) zero_unit bst_consts mult.commute del: le_bytes.simps One_nat_def)
  define F where "F w = Option.bind (w_u32_le w a) (\<lambda>w. Option.bind (put_u16 w (42 + ?n + 4)) (\<lambda>w.
    Option.bind (put_units w (encode_utf16 descr)) (\<lambda>w. Option.bind (w_u16_le w 0) (\<lambda>w.
    Option.bind (w_u8 w 4) (\<lambda>w. Option.bind (w_u8 w 1) (\<lambda>w. Option.bind (w_u16_le w 42) (\<lambda>w.
    Option.bind (w_u32_le w (hd_number d)) (\<lambda>w. Option.bind (w_u64_le w (hd_start_lba d)) (\<lambda>w.
    Option.bind (w_u64_le w (hd_size_lba d)) (\<lambda>w. Option.bind (wput w (hd_guid d)) (\<lambda>w.
    Option.bind (wput w HD_GPT) (\<lambda>w.
    Option.bind (w_u8 w 4) (\<lambda>w. Option.bind (w_u8 w 4) (\<lambda>w. Option.bind (put_u16 w ?n) (\<lambda>w.
    Option.bind (put_units w (encode_utf16 path)) (\<lambda>w. Option.bind (w_u16_le w 0) (\<lambda>w.
    Option.bind (wput w DP_END_ENTIRE_NODE) (\<lambda>w. wput w opt))))))))))))))))))" for w
  have "emits F (option_written a descr [hd_node d] path opt)"
    unfolding b F_def [abs_def] using l by (intro emits_bind emits_wput emits_ints emits_units emits_put_u16) simp_all
  note e = emits_run [OF this assms(3,4)]
  show ?thesis
    unfolding e [symmetric] write_load_option_hd_def Let_def F_def bst_consts(8-11,14)
    by (simp add: add.commute add.left_commute del: le_bytes.simps One_nat_def)
qed

text \<open>Whose entry it is: the file node's path under \<open>\EFI\paguro\\<close>, in any case.\<close>

lemma utf16_ascii: "\<forall>c\<in>set s. c < 0x80 \<Longrightarrow> encode_utf16 s = s"
  by (induction s) (simp_all add: encode_utf16_def utf16_char_def)

lemma chunks_units: "chunks_exact 2 (units_bytes us) = map (le_bytes 2) us"
proof (induction us)
  case Nil
  then show ?case by (subst chunks_exact.simps) (simp add: units_bytes_def)
next
  case (Cons u us)
  then show ?case by (subst chunks_exact.simps) (simp add: units_bytes_def)
qed

text \<open>The text of a path as UTF-16, compared with ASCII in any case.\<close>

definition same_text :: "nat list \<Rightarrow> bytes \<Rightarrow> bool" where
  "same_text us t \<longleftrightarrow> list_all2 (\<lambda>u c. u < 0x80 \<and> ascii_lower (word_of_nat u) = ascii_lower c) us t"

lemma eq_ignore_case_units:
  assumes "\<forall>u\<in>set us. u < u16_lim"
  shows "eq_ignore_case_utf16 (units_bytes us) t \<longleftrightarrow> same_text us t"
proof -
  have v: "le_val (le_bytes 2 a) = a" if "(a, b) \<in> set (zip us t)" for a b
    using that assms by (auto dest!: set_zip_leftD)
  have "list_all (\<lambda>(u, c). le_val u < ASCII_END \<and> eq_ignore_ascii_case (word_of_nat (le_val u)) c) (zip (map (le_bytes 2) us) t)
      \<longleftrightarrow> (\<forall>(a, b) \<in> set (zip us t). a < 0x80 \<and> ascii_lower (word_of_nat a) = ascii_lower b)"
    using v by (fastforce simp: list_all_iff zip_map1 ASCII_END_def eq_ignore_ascii_case_def)
  then show ?thesis
    by (auto simp: eq_ignore_case_utf16_def chunks_units list_all2_iff same_text_def mult.commute)
qed

lemma file_node_text: "file_path_text (file_node path) = Some (units_bytes (encode_utf16 path))"
  by (simp add: file_path_text_def file_node_def bst_consts checked_sub_def)

lemma get_units: "get_range (units_bytes us) 0 (n * 2) = (if n \<le> length us then Some (units_bytes (take n us)) else None)"
proof (cases "n \<le> length us")
  case True
  have "units_bytes us = units_bytes (take n us) @ units_bytes (drop n us)"
    unfolding units_bytes_def concat_append [symmetric] map_append [symmetric] append_take_drop_id ..
  then have "take (n * 2) (units_bytes us) = take (n * 2) (units_bytes (take n us) @ units_bytes (drop n us))"
    by (rule arg_cong)
  also have "\<dots> = units_bytes (take n us)" using True by simp
  finally have "take (n * 2) (units_bytes us) = units_bytes (take n us)" .
  with True show ?thesis by (simp add: get_range_def mult.commute)
qed (simp add: get_range_def)

lemma encode_utf16_bound: "list_all is_scalar s \<Longrightarrow> u \<in> set (encode_utf16 s) \<Longrightarrow> u < u16_lim"
proof -
  assume "list_all is_scalar s" "u \<in> set (encode_utf16 s)"
  then obtain c where "is_scalar c" "u \<in> set (utf16_char c)" by (auto simp: encode_utf16_def list_all_iff)
  then show ?thesis using utf16_units [of c] by (cases "c = 0") (simp add: utf16_char_def, blast)
qed

lemma is_paguro_written:
  assumes "option_fits a descr ns path opt" "list_all is_scalar path" "\<forall>x\<in>set ns. file_path_text x = None"
    "lo_file_path lo = path_list (ns @ [file_node path])"
  shows "is_paguro lo \<longleftrightarrow> same_text (take 12 (encode_utf16 path)) PAGURO_EFI_DIR"
proof -
  have l: "length PAGURO_EFI_DIR = 12" by (simp add: PAGURO_EFI_DIR_def ascii_def utf8_char_def as_bytes_def)
  have n: "fst (walk_device_path (lo_file_path lo)) = ns @ [file_node path]"
    using option_parts(1) [OF assms(1)] by (simp only: assms(4) walk_path_list fst_conv)
  have "\<forall>u\<in>set (take 12 (encode_utf16 path)). u < u16_lim"
    using encode_utf16_bound [OF assms(2)] by (auto dest: in_set_takeD)
  note eq = eq_ignore_case_units [OF this]
  have s: "\<not> same_text (take 12 (encode_utf16 path)) PAGURO_EFI_DIR" if "length (encode_utf16 path) < 12"
    using that l by (auto simp: same_text_def dest: list_all2_lengthD)
  have "is_paguro lo \<longleftrightarrow> (case get_range (units_bytes (encode_utf16 path)) 0 (12 * 2) of None \<Rightarrow> False
      | Some h \<Rightarrow> eq_ignore_case_utf16 h PAGURO_EFI_DIR)"
    unfolding is_paguro_def n l using assms(3) by (auto simp: list_ex_iff file_node_text split: option.splits)
  then show ?thesis unfolding get_units using s eq by auto
qed

text \<open>
  A load option \<open>write_load_option_hd\<close> writes parses back: attributes, optional data and the two
  device-path nodes, the first of which yields the partition again, and the entry is recognised as
  paguro's exactly when its path begins with the loader's directory, in any case.
\<close>

theorem load_option_round_trip:
  assumes "drive_ok d" "option_fits a descr [hd_node d] path opt" "list_all is_scalar path"
    "length (option_written a descr [hd_node d] path opt) \<le> length out" "length out < u64_lim"
  shows "\<exists>n out' lo. write_load_option_hd a descr d path opt out = Some (n, out')
    \<and> parse_load_option (take n out') = Ok lo \<and> lo_attributes lo = a \<and> lo_optional lo = opt
    \<and> map parse_hard_drive (fst (walk_device_path (lo_file_path lo))) = [Some d, None]
    \<and> (is_paguro lo \<longleftrightarrow> same_text (take 12 (encode_utf16 path)) PAGURO_EFI_DIR)"
proof -
  let ?lo = "\<lparr>lo_attributes = a, lo_description = units_bytes (encode_utf16 descr),
    lo_file_path = path_list ([hd_node d] @ [file_node path]), lo_optional = opt\<rparr>"
  have "is_paguro ?lo \<longleftrightarrow> same_text (take 12 (encode_utf16 path)) PAGURO_EFI_DIR"
    by (rule is_paguro_written [OF assms(2,3)]) (simp_all add: file_path_text_def hd_node_def bst_consts)
  moreover have "parse_hard_drive (file_node path) = None"
    by (simp add: parse_hard_drive_def file_node_def bst_consts)
  then have "map parse_hard_drive (fst (walk_device_path (lo_file_path ?lo))) = [Some d, None]"
    using walk_path_list [OF option_parts(1) [OF assms(2)]] parse_hd_node [OF assms(1)] by simp
  ultimately show ?thesis
    using write_load_option_hd_eq [OF assms(1,2,4,5)] option_parses [OF assms(2)]
    by simp
qed

definition sample_drive :: hard_drive where
  "sample_drive = \<lparr>hd_number = 1, hd_start_lba = 2048, hd_size_lba = 409600, hd_guid = replicate 16 5\<rparr>"

lemma sample_drive_ok:
  "drive_ok sample_drive" "option_fits 1 (ascii ''x'') [hd_node sample_drive] (ascii ''a'') []"
  "list_all is_scalar (ascii ''a'')" "length (option_written 1 (ascii ''x'') [hd_node sample_drive] (ascii ''a'') []) = 64"
proof -
  show h: "drive_ok sample_drive" by (simp add: sample_drive_def drive_ok_def)
  show l: "length (option_written 1 (ascii ''x'') [hd_node sample_drive] (ascii ''a'') []) = 64"
    by (simp add: option_written_def load_option_bytes_def path_list_def length_hd_node [OF h] length_file_node
        bst_consts ascii_def encode_utf16_def utf16_char_def)
  show "list_all is_scalar (ascii ''a'')" by (simp add: ascii_def is_scalar_def)
  show "option_fits 1 (ascii ''x'') [hd_node sample_drive] (ascii ''a'') []"
    using hd_node_ok [OF h] unfolding option_fits_def l by (simp add: ascii_def is_scalar_def)
qed

theorem load_option_round_trip_witness:
  "\<exists>n out' lo. write_load_option_hd 1 (ascii ''x'') sample_drive (ascii ''a'') [] (replicate 64 0) = Some (n, out')
    \<and> parse_load_option (take n out') = Ok lo \<and> lo_attributes lo = 1 \<and> lo_optional lo = []
    \<and> map parse_hard_drive (fst (walk_device_path (lo_file_path lo))) = [Some sample_drive, None]
    \<and> (is_paguro lo \<longleftrightarrow> same_text (take 12 (encode_utf16 (ascii ''a''))) PAGURO_EFI_DIR)"
  by (rule load_option_round_trip) (use sample_drive_ok in simp_all)

end
