(* ===== verification/Platform.thy ===== *)
theory Platform
  imports Config Handoff Bootstrap "HOL-Library.Multiset"
begin

text \<open>
  What the stage machine shares with its front ends, \<open>crates/paguro-boot/src/platform.rs\<close>: the
  screens and inputs, the bounded directory listing of the recovery browser with its natural order,
  and the path handling of \<open>ui.rs\<close> and of \<open>PathText\<close> in \<open>machine.rs\<close>.

  A \<open>Label\<close> and a \<open>PathText\<close> are fixed buffers that always hold valid UTF-8; here they are the
  text, and the capacity is checked where the source copies bytes into the buffer.  The lower-case
  mapping of a character (\<open>char::to_lowercase\<close>, a table of the Unicode standard) is an argument.
\<close>

section \<open>Data\<close>

definition NON_VOLATILE :: nat where "NON_VOLATILE = 1"
definition BOOTSERVICE_ACCESS :: nat where "BOOTSERVICE_ACCESS = 2"
definition RUNTIME_ACCESS :: nat where "RUNTIME_ACCESS = 4"
definition NV_BS :: nat where "NV_BS = NON_VOLATILE OR BOOTSERVICE_ACCESS"
definition NV_BS_RT :: nat where "NV_BS_RT = NON_VOLATILE OR BOOTSERVICE_ACCESS OR RUNTIME_ACCESS"

datatype platform_error = PTooLarge | PDevice nat | PUnsupported

record disk_info =
  di_block_size :: nat
  di_blocks :: nat

datatype row = PasswordOrPin | RecoveryPassphrase | RecoveryKeyRow

datatype grey = RecoveryMode | Locked | Unavailable

record unlock_menu =
  um_password_or_pin :: bool
  um_recovery_passphrase :: bool
  um_recovery_key :: bool
  um_tpm :: "grey + nat option"
  um_unattested :: bool
  um_first_boot :: bool

datatype notice = NHibernated | NDirty | NPcr12NotZero | NSealOverPlaintext | NVolumeMissing
  | NNotImplemented | NStartFailed

definition LABEL_MAX :: nat where "LABEL_MAX = 112"
definition MAX_CHOICES :: nat where "MAX_CHOICES = 8"

datatype volume_format = VfBitLocker | VfNtfs

record volume_choice =
  vc_disk :: nat
  vc_partition :: nat
  vc_bytes :: nat
  vc_format :: volume_format
  vc_name :: str

datatype level = LVolume | LEfiPartition | LRoot

datatype entry_kind = KDir | KDisk | KEfi

record dir_item =
  it_name :: str
  it_kind :: entry_kind
  it_bytes :: nat

definition MAX_DIR_ENTRIES :: nat where "MAX_DIR_ENTRIES = 4096"
definition DIR_NAME_BYTES :: nat where "DIR_NAME_BYTES = 128 * 1024"
definition MAX_NAME_UNITS :: nat where "MAX_NAME_UNITS = 255"

text \<open>The slots in order, the bytes of names used, whether entries were left out, and the level.\<close>

record dir_listing =
  dl_items :: "dir_item list"
  dl_used :: nat
  dl_more :: bool
  dl_level :: level

record dir_view =
  dv_path :: str
  dv_listing :: dir_listing
  dv_selected :: nat
  dv_level :: level

datatype screen = ScUnlock unlock_menu | ScEnterSecret row bool | ScIncorrect | ScPathRefused
  | ScCannotUnlock | ScConfigInvalid | ScTpmLocked | ScNotice notice | ScNoInstallation
  | ScSelectVolume "volume_choice list" | ScBrowse level | ScEnterPath level | ScDiskStart str
  | ScNoEfiPartition | ScChooseKeyboard keyboard | ScChooseLanguage nat nat

datatype input = InSelect row | InSecret nat | InChoose nat | InEntry nat | InParent | InTypePath
  | InUseDefault | InBrowseDisk | InNoRoot | InStartWindows | InRecover | InContinue | InEscape

section \<open>Labels and lists\<close>

definition label_new :: "str \<Rightarrow> str option" where
  "label_new s = (if str_len s \<le> LABEL_MAX then Some s else None)"

text \<open>The longest prefix of whole characters of at most \<open>n\<close> bytes.\<close>

fun take_chars :: "nat \<Rightarrow> str \<Rightarrow> str" where
  "take_chars n [] = []"
| "take_chars n (c # s) =
    (if length (utf8_char c) \<le> n then c # take_chars (n - length (utf8_char c)) s else [])"

definition label_truncated :: "str \<Rightarrow> str" where
  "label_truncated s = take_chars LABEL_MAX s"

text \<open>\<open>char::decode_utf16\<close>: a character, or \<open>None\<close> for an unpaired surrogate.\<close>

fun decode_utf16 :: "nat list \<Rightarrow> nat option list" where
  "decode_utf16 [] = []"
| "decode_utf16 (u # us) =
    (if u < 0xD800 \<or> 0xE000 \<le> u then Some u # decode_utf16 us
     else case us of
       [] \<Rightarrow> [None]
     | v # vs \<Rightarrow>
         if u < 0xDC00 \<and> 0xDC00 \<le> v \<and> v < 0xE000
         then Some (0x10000 + (u - 0xD800) * 1024 + (v - 0xDC00)) # decode_utf16 vs
         else None # decode_utf16 us)"

definition label_from_utf16 :: "nat list \<Rightarrow> str" where
  "label_from_utf16 units =
    take_chars LABEL_MAX (map (\<lambda>c. case c of Some c \<Rightarrow> c | None \<Rightarrow> 0xFFFD)
      (decode_utf16 (takeWhile (\<lambda>u. u \<noteq> 0) units)))"

definition volume_list_push :: "volume_choice list \<Rightarrow> volume_choice \<Rightarrow> volume_choice list" where
  "volume_list_push l v = (if length l < MAX_CHOICES then l @ [v] else l)"

section \<open>The natural order\<close>

datatype ordering = Less | Equal | Greater

fun ord_then :: "ordering \<Rightarrow> ordering \<Rightarrow> ordering" where
  "ord_then Equal o' = o'"
| "ord_then Less o' = Less"
| "ord_then Greater o' = Greater"

definition nat_cmp :: "nat \<Rightarrow> nat \<Rightarrow> ordering" where
  "nat_cmp a b = (if a < b then Less else if a = b then Equal else Greater)"

text \<open>\<open>Iterator::cmp\<close>, and with it the order of \<open>str\<close> (UTF-8 keeps the order of characters).\<close>

fun list_cmp :: "nat list \<Rightarrow> nat list \<Rightarrow> ordering" where
  "list_cmp [] [] = Equal"
| "list_cmp [] (y # ys) = Less"
| "list_cmp (x # xs) [] = Greater"
| "list_cmp (x # xs) (y # ys) = ord_then (nat_cmp x y) (list_cmp xs ys)"

definition ch_digit :: "nat \<Rightarrow> bool" where
  "ch_digit c \<longleftrightarrow> 0x30 \<le> c \<and> c \<le> 0x39"

fun skip_zeros :: "str \<Rightarrow> nat \<Rightarrow> nat \<times> str" where
  "skip_zeros [] n = (n, [])"
| "skip_zeros (c # s) n = (if c = 0x30 then skip_zeros s (n + 1) else (n, c # s))"

lemma skip_zeros_shorter: "skip_zeros s n = (k, s') \<Longrightarrow> length s' \<le> length s"
  by (induction s arbitrary: n) (auto split: if_splits intro: le_SucI)

fun peek_digit :: "str \<Rightarrow> nat option" where
  "peek_digit [] = None"
| "peek_digit (c # s) = (if ch_digit c then Some c else None)"

lemma peek_digit_tl:
  "peek_digit s = Some c \<Longrightarrow> s \<noteq> [] \<and> dropWhile ch_digit (List.tl s) = dropWhile ch_digit s"
  "peek_digit s = None \<Longrightarrow> dropWhile ch_digit s = s"
  by (cases s; auto split: if_splits)+

function digit_loop :: "str \<Rightarrow> str \<Rightarrow> ordering \<Rightarrow> nat \<Rightarrow> nat \<Rightarrow> ordering \<times> nat \<times> nat \<times> str \<times> str" where
  "digit_loop x y o' la lb =
    (case (peek_digit x, peek_digit y) of
       (Some p, Some q) \<Rightarrow>
         digit_loop (List.tl x) (List.tl y) (if o' = Equal then nat_cmp p q else o') (la + 1) (lb + 1)
     | (Some p, None) \<Rightarrow> digit_loop (List.tl x) y o' (la + 1) lb
     | (None, Some q) \<Rightarrow> digit_loop x (List.tl y) o' la (lb + 1)
     | (None, None) \<Rightarrow> (o', la, lb, x, y))"
  by pat_completeness auto
termination
  by (relation "measure (\<lambda>(x, y, o', la, lb). length x + length y)")
    (auto dest!: peek_digit_tl(1) [OF sym] simp: neq_Nil_conv)

declare digit_loop.simps [simp del]

lemma digit_loop_rest:
  "digit_loop x y o' la lb = (o'', la', lb', x', y') \<Longrightarrow> x' = dropWhile ch_digit x \<and> y' = dropWhile ch_digit y"
proof (induction "length x + length y" arbitrary: x y o' la lb rule: less_induct)
  case less
  have t: "length (List.tl z) < length z" if "peek_digit z = Some c" for z c
    using peek_digit_tl(1) [OF that] by simp
  from less.prems show ?case
    by (subst (asm) digit_loop.simps, cases "peek_digit x"; cases "peek_digit y")
      (auto simp: peek_digit_tl t add_less_mono dest!: less.hyps [rotated])
qed

lemma digits_consumed:
  assumes "ch_digit c" "skip_zeros (c # s) 0 = (z, x1)"
  shows "length (dropWhile ch_digit x1) < Suc (length s)"
proof (cases "c = 0x30")
  case True
  then show ?thesis using assms(2) skip_zeros_shorter [of s 1 z x1] length_dropWhile_le [of ch_digit x1] by simp
next
  case False
  then show ?thesis using assms length_dropWhile_le [of ch_digit s] by auto
qed

function natural_cmp :: "(nat \<Rightarrow> nat list) \<Rightarrow> str \<Rightarrow> str \<Rightarrow> ordering" where
  "natural_cmp lower [] [] = Equal"
| "natural_cmp lower [] (q # y) = Less"
| "natural_cmp lower (p # x) [] = Greater"
| "natural_cmp lower (p # x) (q # y) =
    (if ch_digit p \<and> ch_digit q then
       (case skip_zeros (p # x) 0 of (za, x1) \<Rightarrow>
        case skip_zeros (q # y) 0 of (zb, y1) \<Rightarrow>
        case digit_loop x1 y1 Equal 0 0 of (o', la, lb, x2, y2) \<Rightarrow>
          let r = ord_then (ord_then (nat_cmp la lb) o') (nat_cmp za zb) in
          if r \<noteq> Equal then r else natural_cmp lower x2 y2)
     else
       let r = list_cmp (lower p) (lower q) in
       if r \<noteq> Equal then r else natural_cmp lower x y)"
  by pat_completeness auto
termination
  by (relation "measure (\<lambda>(lower, x, y). length x)") 
    (auto simp del: skip_zeros.simps dest!: digit_loop_rest [OF sym] digits_consumed [OF _ sym])

declare natural_cmp.simps(4) [simp del]

section \<open>The listing\<close>

fun rsplit_once :: "nat \<Rightarrow> str \<Rightarrow> (str \<times> str) option" where
  "rsplit_once c [] = None"
| "rsplit_once c (x # s) = (case rsplit_once c s of Some (a, b) \<Rightarrow> Some (x # a, b)
     | None \<Rightarrow> if x = c then Some ([], s) else None)"

definition ascii_lower_ch :: "nat \<Rightarrow> nat" where
  "ascii_lower_ch c = (if 0x41 \<le> c \<and> c \<le> 0x5a then c + 0x20 else c)"

text \<open>\<open>ascii_lower_eq\<close>: over bytes in the source; a byte outside ASCII is only equal to itself.\<close>

definition ascii_lower_eq :: "str \<Rightarrow> str \<Rightarrow> bool" where
  "ascii_lower_eq a b \<longleftrightarrow> map ascii_lower_ch a = map ascii_lower_ch b"

definition file_kind :: "level \<Rightarrow> str \<Rightarrow> entry_kind option" where
  "file_kind lv name =
    (case rsplit_once 0x2e name of None \<Rightarrow> None | Some (_, ext) \<Rightarrow>
     let is_ext = (\<lambda>e. ascii_lower_eq ext (ascii e));
         disk = is_ext ''vhd'' \<or> is_ext ''vhdx'' \<or> is_ext ''img'' \<or> is_ext ''raw'' in
     if (lv = LVolume \<or> lv = LEfiPartition) \<and> is_ext ''efi'' then Some KEfi
     else if (lv = LVolume \<or> lv = LRoot) \<and> disk then Some KDisk
     else None)"

definition listing_new :: dir_listing where
  "listing_new = \<lparr>dl_items = [], dl_used = 0, dl_more = False, dl_level = LVolume\<rparr>"

definition listing_clear :: "level \<Rightarrow> dir_listing \<Rightarrow> dir_listing" where
  "listing_clear lv l = l\<lparr>dl_items := [], dl_used := 0, dl_more := False, dl_level := lv\<rparr>"

definition is_control :: "nat \<Rightarrow> bool" where
  "is_control c \<longleftrightarrow> c < 0x20 \<or> 0x7f \<le> c \<and> c \<le> 0x9f"

datatype scanned = Skip | Overflow | Name str

text \<open>The characters of a name, copied one by one into the space left.\<close>

fun scan_name :: "nat \<Rightarrow> nat option list \<Rightarrow> scanned" where
  "scan_name room [] = Name []"
| "scan_name room (None # cs) = Skip"
| "scan_name room (Some c # cs) =
    (if is_control c \<or> c = 0x5c \<or> c = 0x2f then Skip
     else if room < length (utf8_char c) then Overflow
     else case scan_name (room - length (utf8_char c)) cs of
       Name s \<Rightarrow> Name (c # s) | Skip \<Rightarrow> Skip | Overflow \<Rightarrow> Overflow)"

definition push_named :: "str \<Rightarrow> bool \<Rightarrow> nat \<Rightarrow> dir_listing \<Rightarrow> bool \<times> dir_listing" where
  "push_named name is_dir bytes' l =
    (if name = ascii ''.'' \<or> name = ascii ''..'' \<or> (name \<noteq> [] \<and> hd name = 0x24) then (True, l)
     else case (if is_dir then Some KDir else file_kind (dl_level l) name) of
       None \<Rightarrow> (True, l)
     | Some k \<Rightarrow>
         if length (dl_items l) < MAX_DIR_ENTRIES
         then (True, l\<lparr>dl_items := dl_items l @ [\<lparr>it_name = name, it_kind = k, it_bytes = bytes'\<rparr>],
                       dl_used := dl_used l + str_len name\<rparr>)
         else (False, l\<lparr>dl_more := True\<rparr>))"

definition listing_push :: "nat list \<Rightarrow> bool \<Rightarrow> nat \<Rightarrow> dir_listing \<Rightarrow> bool \<times> dir_listing" where
  "listing_push name is_dir bytes' l =
    (if name = [] \<or> length name > MAX_NAME_UNITS then (True, l)
     else case scan_name (DIR_NAME_BYTES - dl_used l) (decode_utf16 name) of
       Skip \<Rightarrow> (True, l)
     | Overflow \<Rightarrow> (False, l\<lparr>dl_more := True\<rparr>)
     | Name s \<Rightarrow> push_named s is_dir bytes' l)"

text \<open>The entries a directory reader offers, until \<open>push\<close> says it is full.\<close>

fun push_all :: "(nat list \<times> bool \<times> nat) list \<Rightarrow> dir_listing \<Rightarrow> dir_listing" where
  "push_all [] l = l"
| "push_all ((n, d, b) # es) l =
    (case listing_push n d b l of (go, l') \<Rightarrow> if go then push_all es l' else l')"

definition item_cmp :: "(nat \<Rightarrow> nat list) \<Rightarrow> dir_item \<Rightarrow> dir_item \<Rightarrow> ordering" where
  "item_cmp lower a b =
    ord_then (nat_cmp (if it_kind a \<noteq> KDir then 1 else 0) (if it_kind b \<noteq> KDir then 1 else 0))
      (ord_then (natural_cmp lower (it_name a) (it_name b)) (list_cmp (it_name a) (it_name b)))"

text \<open>
  \<open>sort_unstable_by\<close>, as insertion: items the comparison calls equal have the same name and are
  both folders or both files, and the source leaves their order open.
\<close>

fun insert_item :: "('a \<Rightarrow> 'a \<Rightarrow> ordering) \<Rightarrow> 'a \<Rightarrow> 'a list \<Rightarrow> 'a list" where
  "insert_item cmp x [] = [x]"
| "insert_item cmp x (y # ys) = (if cmp x y = Greater then y # insert_item cmp x ys else x # y # ys)"

definition sort_items :: "('a \<Rightarrow> 'a \<Rightarrow> ordering) \<Rightarrow> 'a list \<Rightarrow> 'a list" where
  "sort_items cmp xs = foldr (insert_item cmp) xs []"

definition listing_sort :: "(nat \<Rightarrow> nat list) \<Rightarrow> dir_listing \<Rightarrow> dir_listing" where
  "listing_sort lower l = l\<lparr>dl_items := sort_items (item_cmp lower) (dl_items l)\<rparr>"

definition listing_item :: "dir_listing \<Rightarrow> nat \<Rightarrow> dir_item option" where
  "listing_item l i = nth_opt (dl_items l) i"

definition listing_find :: "dir_listing \<Rightarrow> str \<Rightarrow> nat option" where
  "listing_find l name = position_of (\<lambda>e. it_name e = name) (dl_items l)"

section \<open>Paths\<close>

definition last_component :: "str \<Rightarrow> str" where
  \<comment> \<open>\<open>p.rsplit('\\').next().unwrap_or(p)\<close>\<close>
  "last_component p = last (split_on 0x5c p)"

definition entry_name :: "str \<Rightarrow> str \<Rightarrow> str" where
  "entry_name file fallback =
    (let base = last_component file;
         stem = (case rsplit_once 0x2e base of None \<Rightarrow> base | Some (a, _) \<Rightarrow> if a = [] then base else a);
         b = map (\<lambda>b. if is_ascii_alphanumeric b \<or> b = 0x2d \<or> b = 0x5f then b else 0x5f)
               (take MAX_NAME (as_bytes stem)) in
     case from_utf8 b of Some s \<Rightarrow> if s \<noteq> [] then s else fallback | None \<Rightarrow> fallback)"

definition classify_path :: "str \<Rightarrow> entry_kind" where
  "classify_path p =
    (let b = as_bytes p in
     case checked_sub (length b) 4 of
       Some i \<Rightarrow> if map ascii_lower (drop i b) = as_bytes (ascii ''.efi'') then KEfi else KDisk
     | None \<Rightarrow> KDisk)"

fun split_seps :: "str \<Rightarrow> str list" where
  \<comment> \<open>\<open>split(['\\', '/'])\<close>\<close>
  "split_seps [] = [[]]"
| "split_seps (x # s) = (if x = 0x5c \<or> x = 0x2f then [] # split_seps s
     else (case split_seps s of p # ps \<Rightarrow> (x # p) # ps | [] \<Rightarrow> [[x]]))"

definition is_ascii_alphabetic :: "nat \<Rightarrow> bool" where
  "is_ascii_alphabetic c \<longleftrightarrow> 0x41 \<le> c \<and> c \<le> 0x5a \<or> 0x61 \<le> c \<and> c \<le> 0x7a"

definition normalize_path :: "str \<Rightarrow> nat \<Rightarrow> (str \<times> bool) option" where
  \<comment> \<open>the capacity of the output buffer as an argument\<close>
  "normalize_path typed cap =
    (let t = dropWhile (\<lambda>c. c = 0x5c \<or> c = 0x2f) (trim typed);
         drive = (case t of d # c # _ \<Rightarrow> c = 0x3a \<and> is_ascii_alphabetic d | _ \<Rightarrow> False);
         r = (if drive then drop 2 t else t);
         s = concat (map (\<lambda>comp. 0x5c # comp) (filter (\<lambda>c. c \<noteq> []) (split_seps r)));
         s = (if s = [] then [0x5c] else s) in
     if str_len s \<le> cap then Some (s, drive) else None)"

definition PATH_MAX :: nat where "PATH_MAX = MAX_PATH_BYTES"

definition path_get :: "str \<Rightarrow> str option" where
  "path_get t = (if t = [] then None else Some t)"

definition path_set :: "str \<Rightarrow> str \<Rightarrow> bool \<times> str" where
  "path_set t s = (if str_len s \<le> PATH_MAX then (True, s) else (False, t))"

definition path_join :: "str \<Rightarrow> str \<Rightarrow> str \<Rightarrow> bool \<times> str" where
  \<comment> \<open>the path before, the directory and the name\<close>
  "path_join t dir name =
    (let p = rev (dropWhile (\<lambda>c. c = 0x5c) (rev dir)) @ [0x5c] @ name in
     if str_len p > PATH_MAX then (False, t)
     else if \<not> path_ok p then (False, t)
     else (True, p))"

definition path_push :: "str \<Rightarrow> str \<Rightarrow> bool \<times> str" where
  "path_push t name = path_join t t name"

definition path_pop :: "str \<Rightarrow> bool \<times> str" where
  "path_pop t =
    (case rsplit_once 0x5c t of
       None \<Rightarrow> (False, t)
     | Some (a, b) \<Rightarrow> if a = [] then (if b \<noteq> [] then (True, [0x5c]) else (False, t)) else (True, a))"


section \<open>The order is symmetric\<close>

fun flip_ord :: "ordering \<Rightarrow> ordering" where
  "flip_ord Less = Greater" | "flip_ord Equal = Equal" | "flip_ord Greater = Less"

lemma flip_flip [simp]: "flip_ord (flip_ord c) = c"
  by (cases c) simp_all

lemma flip_Equal [simp]: "flip_ord c = Equal \<longleftrightarrow> c = Equal"
  by (cases c) simp_all

lemma flip_then [simp]: "flip_ord (ord_then a b) = ord_then (flip_ord a) (flip_ord b)"
  by (cases a) simp_all

lemma nat_cmp_flip: "flip_ord (nat_cmp a b) = nat_cmp b a"
  by (simp add: nat_cmp_def)

lemma list_cmp_flip: "flip_ord (list_cmp a b) = list_cmp b a"
  by (induction a b rule: list_cmp.induct) (simp_all add: nat_cmp_flip)

lemma digit_loop_flip:
  "digit_loop x y c la lb = (r, la', lb', x', y') \<Longrightarrow>
    digit_loop y x (flip_ord c) lb la = (flip_ord r, lb', la', y', x')"
proof (induction "length x + length y" arbitrary: x y c la lb rule: less_induct)
  case less
  have t: "length (List.tl z) < length z" if "peek_digit z = Some k" for z k
    using peek_digit_tl(1) [OF that] by simp
  have f: "(if flip_ord c = Equal then nat_cmp q p else flip_ord c) = flip_ord (if c = Equal then nat_cmp p q else c)" for p q
    by (simp add: nat_cmp_flip)
  show ?case
  proof (cases "peek_digit x"; cases "peek_digit y")
    assume "peek_digit x = None" "peek_digit y = None"
    with less.prems show ?thesis by (simp add: digit_loop.simps)
  next
    fix q assume q: "peek_digit x = None" "peek_digit y = Some q"
    with less.prems less.hyps [of x "List.tl y"] t [OF q(2)] show ?thesis
      by (subst digit_loop.simps, subst (asm) (1) digit_loop.simps) simp
  next
    fix p assume p: "peek_digit x = Some p" "peek_digit y = None"
    with less.prems less.hyps [of "List.tl x" y] t [OF p(1)] show ?thesis
      by (subst digit_loop.simps, subst (asm) (1) digit_loop.simps) simp
  next
    fix p q assume p: "peek_digit x = Some p" "peek_digit y = Some q"
    with less.prems less.hyps [of "List.tl x" "List.tl y"] t [OF p(1)] t [OF p(2)] f [of q p] show ?thesis
      by (subst digit_loop.simps, subst (asm) (1) digit_loop.simps) simp
  qed
qed

lemma natural_cmp_flip: "flip_ord (natural_cmp lower a b) = natural_cmp lower b a"
proof (induction lower a b rule: natural_cmp.induct)
  case (4 lower p x q y)
  show ?case
  proof (cases "ch_digit p \<and> ch_digit q")
    case False
    then show ?thesis using 4(2) list_cmp_flip [of "lower p" "lower q", symmetric]
      by (auto simp: natural_cmp.simps(4) Let_def)
  next
    case True
    obtain za x1 zb y1 where z: "skip_zeros (p # x) 0 = (za, x1)" "skip_zeros (q # y) 0 = (zb, y1)"
      by (metis surj_pair)
    obtain c la lb x2 y2 where d: "digit_loop x1 y1 Equal 0 0 = (c, la, lb, x2, y2)" by (metis prod_cases5)
    from digit_loop_flip [OF d] have d': "digit_loop y1 x1 Equal 0 0 = (flip_ord c, lb, la, y2, x2)" by simp
    have e: "flip_ord (ord_then (ord_then (nat_cmp la lb) c) (nat_cmp za zb))
        = ord_then (ord_then (nat_cmp lb la) (flip_ord c)) (nat_cmp zb za)" by (simp add: nat_cmp_flip)
    then have "ord_then (ord_then (nat_cmp la lb) c) (nat_cmp za zb) = Equal
        \<longleftrightarrow> ord_then (ord_then (nat_cmp lb la) (flip_ord c)) (nat_cmp zb za) = Equal" by (metis flip_Equal)
    then show ?thesis
      using True z d d' e 4(1) by (simp add: natural_cmp.simps(4) Let_def del: skip_zeros.simps flip_then)
  qed
qed simp_all

lemma item_cmp_flip: "flip_ord (item_cmp lower a b) = item_cmp lower b a"
  by (simp only: item_cmp_def flip_then nat_cmp_flip natural_cmp_flip list_cmp_flip)

section \<open>Sorting\<close>

definition in_order :: "('a \<Rightarrow> 'a \<Rightarrow> ordering) \<Rightarrow> 'a list \<Rightarrow> bool" where
  "in_order cmp xs \<longleftrightarrow> successively (\<lambda>a b. cmp a b \<noteq> Greater) xs"

lemma in_order_Cons: "in_order cmp (x # xs) \<longleftrightarrow> (xs \<noteq> [] \<longrightarrow> cmp x (hd xs) \<noteq> Greater) \<and> in_order cmp xs"
  by (auto simp: in_order_def successively_Cons)

lemma insert_item_set: "mset (insert_item cmp x ys) = add_mset x (mset ys)"
  by (induction ys) auto

lemma insert_item_order:
  assumes "\<And>a b. cmp b a = flip_ord (cmp a b)"
  shows "in_order cmp ys \<Longrightarrow> in_order cmp (insert_item cmp x ys)"
proof (induction ys)
  case (Cons y ys)
  have "cmp x y = Greater \<Longrightarrow> cmp y x = Less" using assms [of y x] by simp
  with Cons show ?case by (cases ys) (auto simp: in_order_Cons)
qed (simp add: in_order_def)

lemma sort_items_correct:
  assumes "\<And>a b. cmp b a = flip_ord (cmp a b)"
  shows "mset (sort_items cmp xs) = mset xs \<and> in_order cmp (sort_items cmp xs)"
  by (induction xs) (auto simp: sort_items_def insert_item_set in_order_def [of cmp "[]"] insert_item_order [OF assms])


section \<open>Bounds of the listing\<close>

definition name_shown :: "str \<Rightarrow> bool" where
  "name_shown s \<longleftrightarrow> s \<noteq> [] \<and> (\<forall>c\<in>set s. \<not> is_control c \<and> c \<noteq> 0x5c \<and> c \<noteq> 0x2f)
     \<and> s \<noteq> ascii ''.'' \<and> s \<noteq> ascii ''..'' \<and> hd s \<noteq> 0x24"

definition listing_ok :: "dir_listing \<Rightarrow> bool" where
  "listing_ok l \<longleftrightarrow> length (dl_items l) \<le> 4096 \<and> dl_used l = (\<Sum>e\<leftarrow>dl_items l. str_len (it_name e))
     \<and> dl_used l \<le> 131072
     \<and> (\<forall>e\<in>set (dl_items l). name_shown (it_name e) \<and> (it_kind e = KDir \<or> file_kind (dl_level l) (it_name e) = Some (it_kind e)))"

lemma scan_name_Name:
  "scan_name room cs = Name s \<Longrightarrow> str_len s \<le> room \<and> length s = length cs
    \<and> (\<forall>c\<in>set s. \<not> is_control c \<and> c \<noteq> 0x5c \<and> c \<noteq> 0x2f)"
proof (induction room cs arbitrary: s rule: scan_name.induct)
  case (3 room c cs)
  from 3(2) obtain s' where c: "\<not> (is_control c \<or> c = 0x5c \<or> c = 0x2f)" "length (utf8_char c) \<le> room"
    and s': "scan_name (room - length (utf8_char c)) cs = Name s'" "s = c # s'"
    by (auto split: if_splits scanned.splits)
  from 3(1) [OF c(1) _ s'(1)] c s'(2) show ?case by (auto simp: str_len_def)
qed (simp_all add: str_len_def)

lemma decode_utf16_nonempty: "us \<noteq> [] \<Longrightarrow> decode_utf16 us \<noteq> []"
  by (cases us) (auto split: list.split)

lemma listing_push_ok: "listing_ok l \<Longrightarrow> listing_ok (snd (listing_push n d b l))"
proof (cases "scan_name (DIR_NAME_BYTES - dl_used l) (decode_utf16 n)")
  case (Name s)
  assume l: "listing_ok l"
  have "snd (listing_push n d b l) = l \<or> n \<noteq> [] \<and> snd (listing_push n d b l) = snd (push_named s d b l)"
    using Name by (simp add: listing_push_def)
  moreover have "listing_ok (snd (push_named s d b l))" if "n \<noteq> []"
    using scan_name_Name [OF Name] decode_utf16_nonempty [OF that] l
    by (auto simp: push_named_def listing_ok_def name_shown_def MAX_DIR_ENTRIES_def DIR_NAME_BYTES_def split: option.splits)
  ultimately show ?thesis using l by auto
qed (auto simp: listing_push_def listing_ok_def)

lemma push_all_ok: "listing_ok l \<Longrightarrow> listing_ok (push_all es l)"
proof (induction es l rule: push_all.induct)
  case (2 n d b es l)
  then show ?case using listing_push_ok [of l n d b] by (auto split: prod.splits)
qed simp

lemma listing_clear_ok: "listing_ok (listing_clear lv l)"
  by (simp add: listing_ok_def listing_clear_def)

lemma listing_sort_ok: "listing_ok l \<Longrightarrow> listing_ok (listing_sort lower l)"
proof -
  assume l: "listing_ok l"
  have m: "mset (sort_items (item_cmp lower) (dl_items l)) = mset (dl_items l)"
    using sort_items_correct [of "item_cmp lower" "dl_items l"] item_cmp_flip by metis
  have "sum_list (map f (sort_items (item_cmp lower) (dl_items l))) = sum_list (map f (dl_items l))" for f :: "dir_item \<Rightarrow> nat"
    using m by (metis mset_map sum_mset_sum_list)
  moreover have "set (sort_items (item_cmp lower) (dl_items l)) = set (dl_items l)" using m by (rule mset_eq_setD)
  moreover have "length (sort_items (item_cmp lower) (dl_items l)) = length (dl_items l)" using m by (rule mset_eq_length)
  ultimately show ?thesis using l by (simp add: listing_ok_def listing_sort_def)
qed

text \<open>
  The directory the recovery browser shows, whatever the file system offers: at most 4096
  entries and 128 KiB of names, every name free of separators and control characters and none of
  them \<open>.\<close>, \<open>..\<close> or a metafile, only folders and files of the level's kinds, sorted in the
  natural order with folders first.
\<close>

theorem listing_bounded_sorted:
  "listing_ok (listing_sort lower (push_all es (listing_clear lv l)))
   \<and> in_order (item_cmp lower) (dl_items (listing_sort lower (push_all es (listing_clear lv l))))"
  using listing_sort_ok [OF push_all_ok [OF listing_clear_ok]] sort_items_correct [of "item_cmp lower"] item_cmp_flip
  by (simp add: listing_sort_def)

section \<open>Paths stay valid\<close>

lemma split_on_nonempty: "split_on c s \<noteq> []"
  by (induction s) (auto split: list.split)

lemma split_on_last: "c \<notin> set b \<Longrightarrow> split_on c (a @ c # b) = split_on c a @ [b]"
proof (induction a)
  case Nil
  then have "split_on c b = [b]" by (induction b) auto
  then show ?case by simp
next
  case (Cons x a)
  then show ?case using split_on_nonempty [of c a] by (cases "split_on c a") simp_all
qed

lemma check_components_prefix: "check_components n (cs @ ds) = Ok () \<Longrightarrow> check_components n cs = Ok ()"
  by (induction n cs rule: check_components.induct) (auto simp: rbind_eq_Ok split: if_splits)

lemma rsplit_once_None: "rsplit_once c s = None \<longleftrightarrow> c \<notin> set s"
  by (induction s) (auto split: option.splits)

lemma rsplit_once_Some: "rsplit_once c s = Some (a, b) \<Longrightarrow> s = a @ c # b \<and> c \<notin> set b"
  by (induction s arbitrary: a) (auto simp: rsplit_once_None split: option.splits if_splits)

lemma rsplit_once_append: "c \<notin> set b \<Longrightarrow> rsplit_once c (a @ c # b) = Some (a, b)"
proof (induction a)
  case Nil
  then show ?case using rsplit_once_None [of c b] by simp
qed simp

definition path_state :: "str \<Rightarrow> bool" where
  "path_state p \<longleftrightarrow> p = [] \<or> p = [0x5c] \<or> path_ok p"

lemma path_ok_parent:
  assumes "path_ok (a @ 0x5c # b)" "0x5c \<notin> set b" "a \<noteq> []"
  shows "path_ok a"
proof -
  from assms(1,3) obtain r where a: "a = 0x5c # r"
    by (cases a) (auto simp: path_ok_def check_path_def split: if_splits)
  have "check_components 0 (split_on 0x5c r @ [b]) = Ok ()" "str_len (a @ 0x5c # b) \<le> MAX_PATH_BYTES"
    using assms(1) split_on_last [OF assms(2), of r] by (auto simp: a path_ok_def check_path_def split: if_splits)
  then show ?thesis
    using check_components_prefix by (auto simp: a path_ok_def check_path_def str_len_def as_bytes_def)
qed

lemma path_pop_state:
  assumes "path_state t"
  shows "path_state (snd (path_pop t))"
proof (cases "rsplit_once 0x5c t")
  case None
  then show ?thesis using assms by (simp add: path_pop_def)
next
  case (Some x)
  obtain a b where x: "x = (a, b)" by (cases x)
  with Some have t: "t = a @ 0x5c # b" "0x5c \<notin> set b" using rsplit_once_Some by auto
  show ?thesis
  proof (cases "a = []")
    case True
    then show ?thesis using assms Some x by (simp add: path_pop_def path_state_def)
  next
    case False
    with t assms have "path_ok t" by (cases a) (auto simp: path_state_def)
    with t False have "path_ok a" using path_ok_parent by blast
    then show ?thesis using Some x False by (simp add: path_pop_def path_state_def)
  qed
qed

lemma path_join_state: "path_state t \<Longrightarrow> path_state (snd (path_join t d n))"
  by (simp add: path_join_def Let_def path_state_def)

lemma components_nonempty: "check_components n (cs @ [[]]) \<noteq> Ok ()"
  by (induction n cs rule: check_components.induct)
    (auto simp: rbind_eq_Ok check_component_def split: if_splits)

lemma path_no_trailing: "path_ok t \<Longrightarrow> t \<noteq> [] \<and> last t \<noteq> 0x5c"
proof (cases t rule: rev_cases)
  case (snoc a c)
  assume t: "path_ok t"
  have "c \<noteq> 0x5c"
  proof
    assume c: "c = 0x5c"
    show False
    proof (cases a)
      case Nil
      with t snoc c show False by (simp add: path_ok_def check_path_def check_component_def rbind_eq_Ok split: if_splits)
    next
      case (Cons x r)
      with t snoc c have "check_components 0 (split_on 0x5c (r @ [0x5c])) = Ok ()"
        by (auto simp: path_ok_def check_path_def split: if_splits)
      then show False using split_on_last [of "0x5c" "[]" r] components_nonempty by simp
    qed
  qed
  with snoc show ?thesis by simp
qed (simp add: path_ok_def check_path_def)

text \<open>
  Joining and going up keep a path valid (or the root),
  and going up after entering a listed folder comes back to where it was.
\<close>

theorem path_text_valid:
  assumes "path_state t"
  shows "path_state (snd (path_join t d n)) \<and> path_state (snd (path_pop t))
    \<and> (t \<noteq> [] \<and> 0x5c \<notin> set n \<and> path_push t n = (True, p) \<longrightarrow> path_pop p = (True, t))"
proof (intro conjI impI)
  show "path_state (snd (path_join t d n))" "path_state (snd (path_pop t))"
    using assms by (simp_all add: path_join_state path_pop_state)
  assume a: "t \<noteq> [] \<and> 0x5c \<notin> set n \<and> path_push t n = (True, p)"
  then have p: "path_ok p" "p = rev (dropWhile (\<lambda>c. c = 0x5c) (rev t)) @ 0x5c # n"
    by (auto simp: path_push_def path_join_def Let_def split: if_splits)
  show "path_pop p = (True, t)"
  proof (cases "t = [0x5c]")
    case True
    with p have "p = 0x5c # n" by simp
    then show ?thesis using a True rsplit_once_append [of "0x5c" n "[]"] path_no_trailing [OF p(1)]
      by (auto simp: path_pop_def)
  next
    case False
    with assms a have t: "path_ok t" by (simp add: path_state_def)
    then have "dropWhile (\<lambda>c. c = 0x5c) (rev t) = rev t"
      using path_no_trailing [OF t] by (cases t rule: rev_cases) simp_all
    with p have "p = t @ 0x5c # n" by simp
    then show ?thesis using a rsplit_once_append [of "0x5c" n t] by (simp add: path_pop_def)
  qed
qed

theorem path_text_valid_witness:
  "path_state (snd (path_join [0x5c] [0x5c] [0x61])) \<and> path_state (snd (path_pop [0x5c]))
    \<and> path_push [0x5c] [0x61] = (True, [0x5c, 0x61]) \<and> path_pop [0x5c, 0x61] = (True, [0x5c])"
proof -
  have "path_push [0x5c] [0x61] = (True, [0x5c, 0x61])"
    by (simp add: path_push_def path_join_def path_ok_def check_path_def check_component_def str_len_def utf8_char_def
        PATH_MAX_def MAX_PATH_BYTES_def MAX_COMPONENTS_def MAX_COMPONENT_UTF16_def len_utf16_def DEL_def
        FORBIDDEN_PATH_CHARS_def ascii_def add64_def)
  then show ?thesis
    using path_text_valid [of "[0x5c]" "[0x5c]" "[0x61]" "[0x5c, 0x61]"] by (simp add: path_state_def)
qed

section \<open>Entry names\<close>

lemma entry_name_ok:
  assumes "check_name fallback"
  shows "check_name (entry_name f fallback)"
proof -
  define b where "b stem = map (\<lambda>b. if is_ascii_alphanumeric b \<or> b = 0x2d \<or> b = 0x5f then b else 0x5f)
    (take MAX_NAME (as_bytes stem))" for stem
  have "check_name s" if "from_utf8 (b stem) = Some s" "s \<noteq> []" for s stem
    using that by (auto simp: from_utf8_Some check_name_def str_len_def b_def list_all_iff dest!: sym [of "map _ _"])
  then show ?thesis
    using assms unfolding entry_name_def Let_def b_def [symmetric] by (auto split: option.splits)
qed

end
