(* ===== verification/Fat.thy ===== *)
theory Fat
  imports Disk Platform
begin

text \<open>
  The read-only FAT32 directory reader, \<open>crates/paguro-core/src/fat.rs\<close>: cluster chains, directory
  entries with long names, lookup by path.  The source of sectors is a parameter; what a read leaves in
  the buffer is the result of a function of the source's state, cut or padded to the length asked for.
  The state also keeps the reads made so far, newest first, and what the caller's closure captures.
  \<open>str::to_lowercase\<close> is a parameter, as in theory Platform.
\<close>

section \<open>Constants and structures\<close>

definition FAT_MAX_ENTRIES :: nat where "FAT_MAX_ENTRIES = 65536"
definition FAT_MAX_DEPTH :: nat where "FAT_MAX_DEPTH = 32"
definition FAT_MAX_NAME :: nat where "FAT_MAX_NAME = 255"
definition FAT_SCRATCH :: nat where "FAT_SCRATCH = 4096"
definition FAT32_CLUSTER_MASK :: nat where "FAT32_CLUSTER_MASK = 0x0FFFFFFF"
definition FAT_END :: nat where "FAT_END = 0x0FFFFFF8"
definition FAT_BAD :: nat where "FAT_BAD = 0x0FFFFFF7"

definition DirEntryRaw :: layout where
  "DirEntryRaw = [(''name'', 11), (''attr'', 1), (''nt_res'', 1), (''crt_time_tenth'', 1), (''crt_time'', 2),
     (''crt_date'', 2), (''lst_acc_date'', 2), (''fst_clus_hi'', 2), (''wrt_time'', 2), (''wrt_date'', 2),
     (''fst_clus_lo'', 2), (''file_size'', 4)]"

definition LfnEntryRaw :: layout where
  "LfnEntryRaw = [(''ord'', 1), (''name1'', 10), (''attr'', 1), (''kind'', 1), (''chksum'', 1), (''name2'', 12),
     (''fst_clus_lo'', 2), (''name3'', 4)]"

definition DIR_ENTRY_LEN :: nat where "DIR_ENTRY_LEN = size_of DirEntryRaw"
definition DIR_NAME_LEN :: nat where "DIR_NAME_LEN = field_size DirEntryRaw ''name''"
definition DIR_NAME_BASE_LEN :: nat where "DIR_NAME_BASE_LEN = 8"
definition DIR_ATTR :: nat where "DIR_ATTR = offset_of DirEntryRaw ''attr''"
definition DIR_NT_RES :: nat where "DIR_NT_RES = offset_of DirEntryRaw ''nt_res''"
definition DIR_FST_CLUS_HI :: nat where "DIR_FST_CLUS_HI = offset_of DirEntryRaw ''fst_clus_hi''"
definition DIR_FST_CLUS_LO :: nat where "DIR_FST_CLUS_LO = offset_of DirEntryRaw ''fst_clus_lo''"
definition DIR_FILE_SIZE :: nat where "DIR_FILE_SIZE = offset_of DirEntryRaw ''file_size''"
definition DIR_NAME0_END :: byte where "DIR_NAME0_END = 0x00"
definition DIR_NAME0_FREE :: byte where "DIR_NAME0_FREE = 0xE5"
definition DIR_NAME0_KANJI_E5 :: byte where "DIR_NAME0_KANJI_E5 = 0x05"
definition ATTR_VOLUME :: byte where "ATTR_VOLUME = 0x08"
definition ATTR_DIR :: byte where "ATTR_DIR = 0x10"
definition ATTR_LFN :: byte where "ATTR_LFN = 0x0F"
definition ATTR_LFN_MASK :: byte where "ATTR_LFN_MASK = 0x3F"
definition NT_LOWER_BASE :: byte where "NT_LOWER_BASE = 0x08"
definition NT_LOWER_EXT :: byte where "NT_LOWER_EXT = 0x10"
definition LFN_ORD_MASK :: byte where "LFN_ORD_MASK = 0x1F"
definition LFN_LAST :: byte where "LFN_LAST = 0x40"
definition LFN_CHKSUM :: nat where "LFN_CHKSUM = offset_of LfnEntryRaw ''chksum''"
definition LFN_UNITS :: nat where
  "LFN_UNITS = (field_size LfnEntryRaw ''name1'' + field_size LfnEntryRaw ''name2'' + field_size LfnEntryRaw ''name3'') div 2"
definition LFN_UNIT_OFFSETS :: "nat list" where
  "LFN_UNIT_OFFSETS = concat (map (\<lambda>p. map (\<lambda>k. offset_of LfnEntryRaw p + 2 * k) [0..<field_size LfnEntryRaw p div 2])
     [''name1'', ''name2'', ''name3''])"
definition LFN_MAX_ORD :: nat where "LFN_MAX_ORD = 20"
definition LFN_BUF_UNITS :: nat where "LFN_BUF_UNITS = LFN_MAX_ORD * LFN_UNITS"
definition LFN_PAD :: nat where "LFN_PAD = 0xFFFF"
definition SHORT_NAME_TEXT :: nat where "SHORT_NAME_TEXT = DIR_NAME_LEN + 1"
definition FAT_MAX_PATH_BYTES :: nat where "FAT_MAX_PATH_BYTES = 1024"

datatype fat_error = FBoot fat32_error | FIo | BadCluster nat | FLoop | FTooLarge | FNotFound | FBadPath

record dir_entry =
  de_name :: "nat list"
  de_is_dir :: bool
  de_size :: nat
  de_cluster :: nat

section \<open>Long names\<close>

definition short_checksum :: "bytes \<Rightarrow> byte" where
  "short_checksum short = fold (\<lambda>b s. word_rotr 1 s + b) short 0"

record lfn =
  lf_units :: "nat list"
  lf_expect :: nat
  lf_count :: nat
  lf_checksum :: byte
  lf_ok :: bool

definition lfn_new :: lfn where
  "lfn_new = \<lparr>lf_units = replicate LFN_BUF_UNITS 0, lf_expect = 0, lf_count = 0, lf_checksum = 0, lf_ok = False\<rparr>"

definition lfn_reset :: "lfn \<Rightarrow> lfn" where
  "lfn_reset l = l\<lparr>lf_expect := 0, lf_ok := False\<rparr>"

text \<open>\<open>e.get(at).copied().unwrap_or(0)\<close>.\<close>

definition byte_at :: "bytes \<Rightarrow> nat \<Rightarrow> byte" where
  "byte_at e i = (case nth_opt e i of Some b \<Rightarrow> b | None \<Rightarrow> 0)"

definition unit_at :: "bytes \<Rightarrow> nat \<Rightarrow> nat" where
  "unit_at e off = le_val [byte_at e off, byte_at e (off + 1)]"

definition lfn_put_units :: "bytes \<Rightarrow> nat \<Rightarrow> nat list \<Rightarrow> nat list" where
  \<comment> \<open>a slot outside the buffer is passed over, as an update of a list is there\<close>
  "lfn_put_units e base units =
    fold (\<lambda>(k, off) us. us[base + k := unit_at e off]) (enumerate 0 LFN_UNIT_OFFSETS) units"

text \<open>The sequence number is a \<open>u8\<close>: subtracting one from zero overflows.\<close>

definition lfn_fill :: "bytes \<Rightarrow> nat \<Rightarrow> lfn \<Rightarrow> ('e, lfn) res" where
  "lfn_fill e n l =
    rbind (sub64 n 1) (\<lambda>p.
    Ok (l\<lparr>lf_units := lfn_put_units e (p * LFN_UNITS) (lf_units l), lf_expect := p\<rparr>))"

definition lfn_feed :: "lfn \<Rightarrow> bytes \<Rightarrow> ('e, lfn) res" where
  "lfn_feed l e =
    (let sq = byte_at e 0;
         n = unat (sq AND LFN_ORD_MASK);
         sm = byte_at e LFN_CHKSUM in
     if sq AND LFN_LAST \<noteq> 0 then
       if n = 0 \<or> n > LFN_MAX_ORD then Ok (lfn_reset l)
       else lfn_fill e n (l\<lparr>lf_count := n, lf_checksum := sm, lf_units := replicate LFN_BUF_UNITS LFN_PAD, lf_ok := True\<rparr>)
     else if \<not> lf_ok l \<or> n \<noteq> lf_expect l \<or> sm \<noteq> lf_checksum l then Ok (lfn_reset l)
     else lfn_fill e n l)"

definition lfn_name :: "lfn \<Rightarrow> bytes \<Rightarrow> nat list option" where
  "lfn_name l short =
    (if \<not> lf_ok l \<or> lf_expect l \<noteq> 0 \<or> lf_checksum l \<noteq> short_checksum short then None else
     case get_range (lf_units l) 0 (lf_count l * LFN_UNITS) of None \<Rightarrow> None | Some units \<Rightarrow>
     let n = length (takeWhile (\<lambda>u. u \<noteq> 0) units) in
     if list_ex (\<lambda>u. u \<noteq> LFN_PAD) (drop (n + 1) units) then None else
     let name = take n units in
     if name \<noteq> [] \<and> length name \<le> FAT_MAX_NAME then Some name else None)"

section \<open>Short names\<close>

definition trimmed :: "bytes \<Rightarrow> nat" where
  "trimmed s = length s - length (takeWhile (\<lambda>b. b = 0x20) (rev s))"

definition short_put :: "nat list \<Rightarrow> byte \<times> bool \<Rightarrow> nat list option" where
  "short_put out x = (case x of (b, lower) \<Rightarrow>
     if \<not> (0x20 \<le> b \<and> b < 0x7F) then None
     else if length out < SHORT_NAME_TEXT
     then Some (out @ [unat (if lower then ascii_lower b else b)]) else None)"

definition short_name :: "bytes \<Rightarrow> byte \<Rightarrow> nat list option" where
  "short_name short nt =
    (let base = take DIR_NAME_BASE_LEN short; ext = drop DIR_NAME_BASE_LEN short;
         bl = trimmed base; el = trimmed ext;
         bs = map (\<lambda>(i, b). (if i = 0 \<and> b = DIR_NAME0_KANJI_E5 then DIR_NAME0_FREE else b, nt AND NT_LOWER_BASE \<noteq> 0))
           (enumerate 0 (take bl base));
         es = (if el > 0 then (0x2e, False) # map (\<lambda>b. (b, nt AND NT_LOWER_EXT \<noteq> 0)) (take el ext) else []) in
     case opt_fold short_put [] (bs @ es) of None \<Rightarrow> None
     | Some out \<Rightarrow> if length out > 0 then Some out else None)"

fun eq_chars :: "(nat \<Rightarrow> nat list) \<Rightarrow> nat option list \<Rightarrow> str \<Rightarrow> bool" where
  "eq_chars lower [] [] = True"
| "eq_chars lower (Some x # a) (y # b) = (lower x = lower y \<and> eq_chars lower a b)"
| "eq_chars lower _ _ = False"

definition eq_name :: "(nat \<Rightarrow> nat list) \<Rightarrow> nat list \<Rightarrow> str \<Rightarrow> bool" where
  "eq_name lower units s = eq_chars lower (decode_utf16 units) s"

section \<open>Sectors\<close>

text \<open>
  A read fills the whole buffer or fails; what it leaves is cut or padded to the length asked for.  The
  directory walk runs over the source's state together with what the visiting closure captures.
\<close>

type_synonym 's sectors = "nat \<Rightarrow> nat \<Rightarrow> 's \<Rightarrow> (fat_error + bytes) \<times> 's"
type_synonym ('s, 'a) fio = "('s, fat_error, 'a) io"
type_synonym 'v dir_visitor = "dir_entry \<Rightarrow> 'v \<Rightarrow> bool \<times> 'v"

definition fit :: "nat \<Rightarrow> bytes \<Rightarrow> bytes" where
  "fit n b = take n b @ replicate (n - length b) 0"

definition sectors_read :: "'s sectors \<Rightarrow> nat \<Rightarrow> nat \<Rightarrow> ('s, bytes) fio" where
  "sectors_read src sector n s = (case src sector n s of
     (Inl e, s') \<Rightarrow> (Err e, s') | (Inr b, s') \<Rightarrow> (Ok (fit n b), s'))"

text \<open>A prefix of the scratch buffer, read into.\<close>

definition scratch_read :: "'s sectors \<Rightarrow> nat \<Rightarrow> nat \<Rightarrow> ('s, bytes) fio" where
  "scratch_read src sector n =
    (if n \<le> FAT_SCRATCH then sectors_read src sector n else lift (Err FIo))"

definition fat_open :: "'s sectors \<Rightarrow> nat \<Rightarrow> ('s, fat32) fio" where
  "fat_open src space =
    ibind (scratch_read src 0 SECTOR) (\<lambda>boot.
    lift (map_err FBoot (parse_fat32 boot space)))"

definition fat_check :: "fat32 \<Rightarrow> nat \<Rightarrow> (fat_error, nat) res" where
  "fat_check fs c =
    rbind (add64 (clusters fs) FIRST_CLUSTER) (\<lambda>cluster_end.
    if c < FIRST_CLUSTER \<or> c \<ge> cluster_end then Err (BadCluster c) else Ok c)"

definition first_sector :: "fat32 \<Rightarrow> nat \<Rightarrow> (fat_error, nat) res" where
  "first_sector fs c =
    rbind (mul64 (fats fs) (fat_sectors fs)) (\<lambda>area.
    rbind (add64 (reserved_sectors fs) area) (\<lambda>data.
    rbind (sub64 c FIRST_CLUSTER) (\<lambda>i.
    rbind (mul64 i (sectors_per_cluster fs)) (\<lambda>off.
    add64 data off))))"

definition fat_next :: "'s sectors \<Rightarrow> fat32 \<Rightarrow> nat \<Rightarrow> ('s, nat option) fio" where
  "fat_next src fs c =
    ibind (lift (mul64 c FAT_ENTRY_LEN)) (\<lambda>off.
    let bps = bytes_per_sector fs in
    ibind (lift (add64 (reserved_sectors fs) (off div bps))) (\<lambda>sector.
    ibind (scratch_read src sector bps) (\<lambda>b.
    let i = off mod bps in
    ibind (lift (ok_or (get_range b i (i + FAT_ENTRY_LEN)) FIo)) (\<lambda>raw.
    let v = le_val raw AND FAT32_CLUSTER_MASK in
    if v \<ge> FAT_END then lift (Ok None)
    else if v = FAT_BAD then lift (Err (BadCluster v))
    else ibind (lift (fat_check fs v)) (\<lambda>n. lift (Ok (Some n)))))))"

section \<open>The directory walk\<close>

definition visit :: "'v dir_visitor \<Rightarrow> dir_entry \<Rightarrow> ('s \<times> 'v, bool) fio" where
  "visit f d = (\<lambda>(s, v). case f d v of (again, v') \<Rightarrow> (Ok again, (s, v')))"

text \<open>A computation on the source, leaving the captured value alone.\<close>

definition on_source :: "('s, 'a) fio \<Rightarrow> ('s \<times> 'v, 'a) fio" where
  "on_source m = (\<lambda>(s, v). case m s of (r, s') \<Rightarrow> (r, (s', v)))"

definition short_of :: "bytes \<Rightarrow> bytes" where
  "short_of e = (case get_range e 0 DIR_NAME_LEN of Some b \<Rightarrow> b | None \<Rightarrow> replicate DIR_NAME_LEN 0)"

definition entry_of :: "bytes \<Rightarrow> nat list \<Rightarrow> dir_entry" where
  "entry_of e name =
    (let attr = byte_at e DIR_ATTR;
         hi = unit_at e DIR_FST_CLUS_HI;
         lo = unit_at e DIR_FST_CLUS_LO in
     \<lparr>de_name = name, de_is_dir = (attr AND ATTR_DIR \<noteq> 0),
      de_size = le_val (map (\<lambda>k. byte_at e (DIR_FILE_SIZE + k)) [0, 1, 2, 3]),
      de_cluster = push_bit 16 hi OR lo\<rparr>)"

text \<open>
  One directory entry: \<open>None\<close> when the walk returns, otherwise the long-name state and the count of
  entries to go on with.
\<close>

definition walk_entry :: "'v dir_visitor \<Rightarrow> bytes \<Rightarrow> lfn \<times> nat \<Rightarrow> ('s \<times> 'v, (lfn \<times> nat) option) fio" where
  "walk_entry f e = (\<lambda>(l, n).
    ibind (lift (add32 n 1)) (\<lambda>n.
    if n > FAT_MAX_ENTRIES then lift (Err FTooLarge) else
    let first = byte_at e 0; attr = byte_at e DIR_ATTR in
    if first = DIR_NAME0_END then lift (Ok None)
    else if first = DIR_NAME0_FREE then lift (Ok (Some (lfn_reset l, n)))
    else if attr AND ATTR_LFN_MASK = ATTR_LFN then
      ibind (lift (lfn_feed l e)) (\<lambda>l. lift (Ok (Some (l, n))))
    else if attr AND ATTR_VOLUME \<noteq> 0 then lift (Ok (Some (lfn_reset l, n)))
    else
      let short = short_of e;
          name = (case lfn_name l short of Some nm \<Rightarrow> Some nm | None \<Rightarrow> short_name short (byte_at e DIR_NT_RES)) in
      case name of
        None \<Rightarrow> lift (Ok (Some (lfn_reset l, n)))
      | Some name \<Rightarrow> ibind (visit f (entry_of e name)) (\<lambda>again.
          if again then lift (Ok (Some (lfn_reset l, n))) else lift (Ok None))))"

fun walk_entries :: "'v dir_visitor \<Rightarrow> bytes list \<Rightarrow> lfn \<times> nat \<Rightarrow> ('s \<times> 'v, (lfn \<times> nat) option) fio" where
  "walk_entries f [] a = lift (Ok (Some a))"
| "walk_entries f (e # es) a =
    ibind (walk_entry f e a) (\<lambda>r.
    case r of None \<Rightarrow> lift (Ok None) | Some a \<Rightarrow> walk_entries f es a)"

fun walk_sectors ::
  "'s sectors \<Rightarrow> fat32 \<Rightarrow> 'v dir_visitor \<Rightarrow> nat \<Rightarrow> nat list \<Rightarrow> lfn \<times> nat \<Rightarrow> ('s \<times> 'v, (lfn \<times> nat) option) fio" where
  "walk_sectors src fs f c [] a = lift (Ok (Some a))"
| "walk_sectors src fs f c (k # ks) a =
    (if bytes_per_sector fs > FAT_SCRATCH then lift (Err FIo) else
     ibind (lift (first_sector fs c)) (\<lambda>first.
     ibind (lift (add64 first k)) (\<lambda>sector.
     ibind (on_source (sectors_read src sector (bytes_per_sector fs))) (\<lambda>b.
     ibind (walk_entries f (chunks_exact DIR_ENTRY_LEN b) a) (\<lambda>r.
     case r of None \<Rightarrow> lift (Ok None) | Some a \<Rightarrow> walk_sectors src fs f c ks a)))))"

function dir_walk_loop ::
  "'s sectors \<Rightarrow> fat32 \<Rightarrow> 'v dir_visitor \<Rightarrow> nat \<Rightarrow> lfn \<times> nat \<Rightarrow> nat \<Rightarrow> ('s \<times> 'v, unit) fio" where
  "dir_walk_loop src fs f n a c \<sigma> =
    ibind (lift (add32 n 1)) (\<lambda>n.
    if n > clusters fs then lift (Err FLoop) else
    ibind (walk_sectors src fs f c [0..<sectors_per_cluster fs] a) (\<lambda>r.
    case r of None \<Rightarrow> lift (Ok ()) | Some a \<Rightarrow>
    ibind (on_source (fat_next src fs c)) (\<lambda>t.
    case t of Some c \<Rightarrow> dir_walk_loop src fs f n a c | None \<Rightarrow> lift (Ok ())))) \<sigma>"
  by pat_completeness auto
termination
  by (relation "measure (\<lambda>(src, fs, f, n, a, c, \<sigma>). Suc (clusters fs) - n)")
     (auto simp: lift_def add32_def split: if_splits)

declare dir_walk_loop.simps [simp del]

definition dir_walk :: "'s sectors \<Rightarrow> fat32 \<Rightarrow> nat \<Rightarrow> 'v dir_visitor \<Rightarrow> ('s \<times> 'v, unit) fio" where
  "dir_walk src fs cluster f =
    ibind (lift (fat_check fs cluster)) (\<lambda>c.
    dir_walk_loop src fs f 0 (lfn_new, 0) c)"

section \<open>Lookup\<close>

text \<open>A walk whose closure captures a fresh variable of the caller: the variable's value in the end.\<close>

definition walk_with :: "'s sectors \<Rightarrow> fat32 \<Rightarrow> nat \<Rightarrow> 'v dir_visitor \<Rightarrow> 'v \<Rightarrow> ('s, 'v) fio" where
  "walk_with src fs c f v = (\<lambda>s. case dir_walk src fs c f (s, v) of
     (r, (s', v')) \<Rightarrow> (rbind r (\<lambda>_. Ok v'), s'))"

definition CH_DOT :: nat where "CH_DOT = 0x2e"

definition wants_dir :: "(nat \<Rightarrow> nat list) \<Rightarrow> str \<Rightarrow> nat option dir_visitor" where
  "wants_dir lower part e found =
    (if de_is_dir e \<and> eq_name lower (de_name e) part then (False, Some (de_cluster e)) else (True, found))"

fun find_dir_loop :: "(nat \<Rightarrow> nat list) \<Rightarrow> 's sectors \<Rightarrow> fat32 \<Rightarrow> str list \<Rightarrow> nat \<Rightarrow> nat \<Rightarrow> ('s, nat) fio" where
  "find_dir_loop lower src fs [] depth c = lift (Ok c)"
| "find_dir_loop lower src fs (part # parts) depth c =
    (if part = [CH_DOT] \<or> part = [CH_DOT, CH_DOT] then lift (Err FBadPath) else
     ibind (lift (add64 depth 1)) (\<lambda>depth.
     if depth > FAT_MAX_DEPTH then lift (Err FTooLarge) else
     ibind (walk_with src fs c (wants_dir lower part) None) (\<lambda>found.
     ibind (case found of
         None \<Rightarrow> lift (Err FNotFound)
       | Some n \<Rightarrow> if n = 0 then lift (Ok (root_cluster fs)) else lift (fat_check fs n)) (\<lambda>c.
     find_dir_loop lower src fs parts depth c))))"

definition find_dir :: "(nat \<Rightarrow> nat list) \<Rightarrow> 's sectors \<Rightarrow> fat32 \<Rightarrow> str \<Rightarrow> ('s, nat) fio" where
  "find_dir lower src fs path =
    (case strip_prefix CH_BACKSLASH path of None \<Rightarrow> lift (Err FBadPath) | Some tail \<Rightarrow>
     find_dir_loop lower src fs (filter (\<lambda>s. s \<noteq> []) (split_on CH_BACKSLASH tail)) 0 (root_cluster fs))"

definition fat_list :: "(nat \<Rightarrow> nat list) \<Rightarrow> 's sectors \<Rightarrow> fat32 \<Rightarrow> str \<Rightarrow> 'v dir_visitor \<Rightarrow> ('s \<times> 'v, unit) fio" where
  "fat_list lower src fs path f =
    ibind (on_source (find_dir lower src fs path)) (\<lambda>c. dir_walk src fs c f)"

record found =
  fd_cluster :: nat
  fd_size :: nat
  fd_is_dir :: bool

definition wants :: "(nat \<Rightarrow> nat list) \<Rightarrow> str \<Rightarrow> found option dir_visitor" where
  "wants lower name e found =
    (if eq_name lower (de_name e) name
     then (False, Some \<lparr>fd_cluster = de_cluster e, fd_size = de_size e, fd_is_dir = de_is_dir e\<rparr>)
     else (True, found))"

definition fat_find :: "(nat \<Rightarrow> nat list) \<Rightarrow> 's sectors \<Rightarrow> fat32 \<Rightarrow> str \<Rightarrow> ('s, found) fio" where
  "fat_find lower src fs path =
    (case strip_prefix CH_BACKSLASH path of None \<Rightarrow> lift (Err FBadPath) | Some tail \<Rightarrow>
     case (case rsplit_once CH_BACKSLASH tail of Some dn \<Rightarrow> dn | None \<Rightarrow> ([], tail)) of (dir, name) \<Rightarrow>
     if name = [] \<or> name = [CH_DOT] \<or> name = [CH_DOT, CH_DOT] then lift (Err FBadPath) else
     if 1 + str_len dir > FAT_MAX_PATH_BYTES then lift (Err FTooLarge) else
     ibind (lift (ok_or (from_utf8 (0x5c # as_bytes dir)) FBadPath)) (\<lambda>parent.
     ibind (find_dir lower src fs parent) (\<lambda>c.
     ibind (walk_with src fs c (wants lower name) None) (\<lambda>found.
     lift (ok_or found FNotFound)))))"

end
