(* ===== verification/FatCorrect.thy ===== *)
theory FatCorrect
  imports Fat
begin

text \<open>
  What the FAT32 reader of theory Fat keeps to: every read it makes of a volume with a consistent boot
  sector is a whole sector of that volume, and it panics on one kind of directory entry only.
\<close>

section \<open>Computations that may panic\<close>

text \<open>
  \<open>wpb C P m s Q\<close> is \<open>wpx P m s Q\<close> for a computation that may panic when \<open>C\<close>: \<open>P\<close> holds of the state then,
  too.
\<close>

definition wpb :: "bool \<Rightarrow> ('s \<Rightarrow> bool) \<Rightarrow> ('s, 'e, 'a) io \<Rightarrow> 's \<Rightarrow> ('a \<Rightarrow> 's \<Rightarrow> bool) \<Rightarrow> bool" where
  "wpb C P m s Q = (case fst (m s) of
     Ok x \<Rightarrow> Q x (snd (m s)) | Err e \<Rightarrow> P (snd (m s)) | Panic \<Rightarrow> C \<and> P (snd (m s)))"

lemma wpb_ibind [simp]: "wpb C P (ibind m k) s Q = wpb C P m s (\<lambda>x s'. wpb C P (k x) s' Q)"
  by (auto simp: wpb_def ibind_def split: prod.split res.split)

lemma wpb_ok [simp]: "wpb C P (lift (Ok x)) s Q = Q x s"
  and wpb_err [simp]: "wpb C P (lift (Err e)) s Q = P s"
  by (simp_all add: wpb_def lift_def)

lemma wpb_lift: "P s \<Longrightarrow> wp r (\<lambda>x. Q x s) \<Longrightarrow> wpb C P (lift r) s Q"
  by (cases r) (simp_all add: wpb_def lift_def)

lemma wpb_if [simp]:
  "wpb C P (if c then a else b) s Q = ((c \<longrightarrow> wpb C P a s Q) \<and> (\<not> c \<longrightarrow> wpb C P b s Q))"
  by simp

lemma wpb_case_option [simp]:
  "wpb C P (case x of None \<Rightarrow> a | Some y \<Rightarrow> b y) s Q
     = ((x = None \<longrightarrow> wpb C P a s Q) \<and> (\<forall>y. x = Some y \<longrightarrow> wpb C P (b y) s Q))"
  by (cases x) auto

lemma wpb_let [simp]: "wpb C P (Let x f) s Q = wpb C P (f x) s Q"
  by (simp add: Let_def)

lemma wpb_conseq: "wpb C P m s R \<Longrightarrow> (\<And>x s'. R x s' \<Longrightarrow> Q x s') \<Longrightarrow> wpb C P m s Q"
  by (auto simp: wpb_def split: res.splits)

lemma wpb_on_source:
  "wpb C P m s (\<lambda>x s'. Q x (s', v)) \<Longrightarrow> wpb C (\<lambda>\<sigma>. P (fst \<sigma>)) (on_source m) (s, v) Q"
  by (auto simp: wpb_def on_source_def split: prod.splits res.splits)

lemma wpb_visit: "(\<And>b v'. Q b (fst \<sigma>, v')) \<Longrightarrow> wpb C P (visit f d) \<sigma> Q"
  by (auto simp: wpb_def visit_def split: prod.splits)

lemma wpb_final: "wpb C P m s (\<lambda>_. P) \<Longrightarrow> P (snd (m s)) \<and> (fst (m s) = Panic \<longrightarrow> C)"
  by (auto simp: wpb_def split: res.splits)

section \<open>Entries that panic\<close>

text \<open>
  A long-name entry that carries no sequence number and no end mark.  Its number is the one expected
  after a complete name, and one is then subtracted from it.
\<close>

definition numberless :: "bytes \<Rightarrow> bool" where
  "numberless e \<longleftrightarrow> byte_at e 0 AND LFN_LAST = 0 \<and> unat (byte_at e 0 AND LFN_ORD_MASK) = 0"

definition stray :: "bytes \<Rightarrow> bool" where
  "stray e \<longleftrightarrow> byte_at e 0 \<noteq> DIR_NAME0_END \<and> byte_at e DIR_ATTR AND ATTR_LFN_MASK = ATTR_LFN \<and> numberless e"

definition clean_sector :: "bytes \<Rightarrow> bool" where
  "clean_sector b \<longleftrightarrow> list_all (\<lambda>e. \<not> stray e) (chunks_exact DIR_ENTRY_LEN b)"

lemma lfn_feed_Panic:
  "lfn_feed l e = Panic \<longleftrightarrow> lf_ok l \<and> lf_expect l = 0 \<and> numberless e \<and> byte_at e LFN_CHKSUM = lf_checksum l"
  by (auto simp: lfn_feed_def lfn_fill_def sub64_def numberless_def Let_def)

lemma lfn_feed_wp: "\<not> numberless e \<Longrightarrow> wp (lfn_feed l e) (\<lambda>_. True)"
  by (simp add: wp_True lfn_feed_Panic)

section \<open>The reader over a source of sectors\<close>

lemma fat32_ok_facts:
  assumes "fat32_ok space fs"
  shows "0 < bytes_per_sector fs" "bytes_per_sector fs \<le> FAT_SCRATCH" "Suc (clusters fs) < u32_lim"
    "0 < sectors_per_cluster fs" "total_sectors fs < u32_lim"
    "reserved_sectors fs + fats fs * fat_sectors fs + clusters fs * sectors_per_cluster fs \<le> total_sectors fs"
    "4 * (clusters fs + 2) \<le> fat_sectors fs * bytes_per_sector fs"
    "root_cluster fs \<in> {2..<clusters fs + 2}"
    "fat_sectors fs \<le> fats fs * fat_sectors fs" "4 dvd bytes_per_sector fs"
proof -
  show s: "0 < sectors_per_cluster fs"
    using assms by (auto simp: fat32_ok_def is_power_of_two_def intro: Nat.gr0I)
  show t: "total_sectors fs < u32_lim"
    "reserved_sectors fs + fats fs * fat_sectors fs + clusters fs * sectors_per_cluster fs \<le> total_sectors fs"
    using assms by (simp_all add: fat32_ok_def)
  have "clusters fs \<le> clusters fs * sectors_per_cluster fs" using s by simp
  moreover have "0 < reserved_sectors fs" using assms by (simp add: fat32_ok_def)
  ultimately show "Suc (clusters fs) < u32_lim" using t by linarith
qed (use assms in \<open>auto simp: fat32_ok_def FAT_SCRATCH_def disk_consts\<close>)

lemma dir_walk_loop_eq:
  "dir_walk_loop src fs f n a c =
    ibind (lift (add32 n 1)) (\<lambda>n.
    if n > clusters fs then lift (Err FLoop) else
    ibind (walk_sectors src fs f c [0..<sectors_per_cluster fs] a) (\<lambda>r.
    case r of None \<Rightarrow> lift (Ok ()) | Some a \<Rightarrow>
    ibind (on_source (fat_next src fs c)) (\<lambda>t.
    case t of Some c \<Rightarrow> dir_walk_loop src fs f n a c | None \<Rightarrow> lift (Ok ()))))"
  by (rule ext) (rule dir_walk_loop.simps)

locale sector_source =
  fixes src :: "'s sectors" and fs :: fat32 and P :: "'s \<Rightarrow> bool" and C :: bool
  assumes kept: "P s \<Longrightarrow> sector < total_sectors fs \<Longrightarrow> P (snd (src sector (bytes_per_sector fs) s))"
    and calm: "src sector n s = (Inr b, s') \<Longrightarrow> C \<or> clean_sector (fit n b)"
begin

lemma sectors_read_wpb:
  assumes "P s" "sector < total_sectors fs" "\<And>b s'. P s' \<Longrightarrow> C \<or> clean_sector b \<Longrightarrow> Q b s'"
  shows "wpb C P (sectors_read src sector (bytes_per_sector fs)) s Q"
  using kept [OF assms(1,2)] calm assms(3)
  by (auto simp: wpb_def sectors_read_def split: prod.split sum.split)

lemma fat_check_wp:
  assumes "fat32_ok space fs"
  shows "wp (fat_check fs c) (\<lambda>d. d = c \<and> c \<in> {2..<clusters fs + 2})"
  using fat32_ok_facts(3) [OF assms] by (simp add: fat_check_def disk_consts)

lemma first_sector_wp:
  assumes "fat32_ok space fs" "c \<in> {2..<clusters fs + 2}"
  shows "wp (first_sector fs c) (\<lambda>a. a + sectors_per_cluster fs \<le> total_sectors fs)"
proof -
  note F = fat32_ok_facts [OF assms(1)]
  have "(c - 2 + 1) * sectors_per_cluster fs \<le> clusters fs * sectors_per_cluster fs"
    using assms(2) by (intro mult_right_mono) auto
  then have "(c - 2) * sectors_per_cluster fs + sectors_per_cluster fs \<le> clusters fs * sectors_per_cluster fs"
    by (simp add: algebra_simps)
  with F(5,6) assms(2) show ?thesis by (simp add: first_sector_def disk_consts)
qed

lemma fat_next_wpb:
  assumes "fat32_ok space fs" "c \<in> {2..<clusters fs + 2}" "P s"
  shows "wpb C P (fat_next src fs c) s (\<lambda>t s'. P s' \<and> (case t of None \<Rightarrow> True | Some n \<Rightarrow> n \<in> {2..<clusters fs + 2}))"
proof -
  note F = fat32_ok_facts [OF assms(1)]
  have "c * 4 < fat_sectors fs * bytes_per_sector fs" using F(7) assms(2) by auto
  then have "c * 4 div bytes_per_sector fs < fat_sectors fs" using F(1) by (simp add: div_less_iff_less_mult)
  then have "reserved_sectors fs + c * 4 div bytes_per_sector fs < total_sectors fs" using F(6,9) by linarith
  then show ?thesis
    unfolding fat_next_def using F(2,3,5) assms
    by (auto simp: disk_consts scratch_read_def intro!: wpb_lift sectors_read_wpb
        wp_conseq [OF fat_check_wp [OF assms(1)]])
qed

lemma walk_entry_wpb:
  assumes "P (fst \<sigma>)" "C \<or> \<not> stray e" "snd a \<le> FAT_MAX_ENTRIES"
  shows "wpb C (\<lambda>\<sigma>. P (fst \<sigma>)) (walk_entry f e a) \<sigma>
    (\<lambda>r \<sigma>'. P (fst \<sigma>') \<and> (case r of None \<Rightarrow> True | Some a \<Rightarrow> snd a \<le> FAT_MAX_ENTRIES))"
proof -
  have feed: "wpb C (\<lambda>\<sigma>. P (fst \<sigma>)) (lift (lfn_feed l e)) \<sigma> (\<lambda>_ \<sigma>'. P (fst \<sigma>'))"
    if "byte_at e 0 \<noteq> DIR_NAME0_END" "byte_at e DIR_ATTR AND ATTR_LFN_MASK = ATTR_LFN" for l
  proof (cases C)
    case True
    then show ?thesis using assms(1) by (simp add: wpb_def lift_def split: res.split)
  next
    case False
    with assms(2) that have "\<not> numberless e" by (simp add: stray_def)
    from lfn_feed_wp [OF this, of l] show ?thesis
      using assms(1) by (auto intro!: wpb_lift)
  qed
  show ?thesis
    unfolding walk_entry_def using assms(1,3)
    by (cases a) (auto simp: FAT_MAX_ENTRIES_def intro!: wpb_lift [of _ _ "add32 n k" for n k] wpb_visit wpb_conseq [OF feed])
qed

lemma walk_entries_wpb:
  assumes "P (fst \<sigma>)" "C \<or> list_all (\<lambda>e. \<not> stray e) es" "snd a \<le> FAT_MAX_ENTRIES"
  shows "wpb C (\<lambda>\<sigma>. P (fst \<sigma>)) (walk_entries f es a) \<sigma>
    (\<lambda>r \<sigma>'. P (fst \<sigma>') \<and> (case r of None \<Rightarrow> True | Some a \<Rightarrow> snd a \<le> FAT_MAX_ENTRIES))"
  using assms
proof (induction es arbitrary: a \<sigma>)
  case (Cons e es)
  then have e: "C \<or> \<not> stray e" "C \<or> list_all (\<lambda>e. \<not> stray e) es" by auto
  show ?case using Cons.IH [OF _ e(2)]
    by (auto intro!: wpb_conseq [OF walk_entry_wpb [OF Cons.prems(1) e(1) Cons.prems(3)]])
qed simp

lemma walk_sectors_wpb:
  assumes "fat32_ok space fs" "c \<in> {2..<clusters fs + 2}" "P (fst \<sigma>)" "snd a \<le> FAT_MAX_ENTRIES"
    and "\<forall>k \<in> set ks. k < sectors_per_cluster fs"
  shows "wpb C (\<lambda>\<sigma>. P (fst \<sigma>)) (walk_sectors src fs f c ks a) \<sigma>
    (\<lambda>r \<sigma>'. P (fst \<sigma>') \<and> (case r of None \<Rightarrow> True | Some a \<Rightarrow> snd a \<le> FAT_MAX_ENTRIES))"
  using assms(3-5)
proof (induction ks arbitrary: a \<sigma>)
  case (Cons k ks)
  note F = fat32_ok_facts [OF assms(1)]
  have sector: "wpb C (\<lambda>\<sigma>. P (fst \<sigma>)) (on_source (sectors_read src (first + k) (bytes_per_sector fs))) \<sigma>
      (\<lambda>b \<sigma>'. P (fst \<sigma>') \<and> (C \<or> clean_sector b))"
    if "first + sectors_per_cluster fs \<le> total_sectors fs" for first
    using Cons.prems that by (cases \<sigma>) (auto intro!: wpb_on_source sectors_read_wpb)
  have rest: "wpb C (\<lambda>\<sigma>. P (fst \<sigma>)) (walk_entries f (chunks_exact DIR_ENTRY_LEN b) a) \<sigma>'
      (\<lambda>r \<sigma>'. (r = None \<longrightarrow> P (fst \<sigma>')) \<and> (\<forall>a. r = Some a \<longrightarrow> wpb C (\<lambda>\<sigma>. P (fst \<sigma>)) (walk_sectors src fs f c ks a) \<sigma>'
        (\<lambda>r \<sigma>'. P (fst \<sigma>') \<and> (case r of None \<Rightarrow> True | Some a \<Rightarrow> snd a \<le> FAT_MAX_ENTRIES))))"
    if "P (fst \<sigma>')" "C \<or> clean_sector b" for b \<sigma>'
    using Cons.IH Cons.prems(3)
    by (intro wpb_conseq [OF walk_entries_wpb [OF that(1) that(2) [unfolded clean_sector_def] Cons.prems(2)]])
       (auto split: option.splits)
  show ?case using F(2,5) Cons.prems
    by (auto intro!: wpb_lift wp_conseq [OF first_sector_wp [OF assms(1,2)]]
        wpb_conseq [OF sector] wpb_conseq [OF rest])
qed simp

lemma dir_walk_loop_wpb:
  assumes "fat32_ok space fs" "c \<in> {2..<clusters fs + 2}" "P (fst \<sigma>)" "snd a \<le> FAT_MAX_ENTRIES"
    and "n \<le> clusters fs"
  shows "wpb C (\<lambda>\<sigma>. P (fst \<sigma>)) (dir_walk_loop src fs f n a c) \<sigma> (\<lambda>_ \<sigma>'. P (fst \<sigma>'))"
  using assms(2-5)
proof (induction "clusters fs - n" arbitrary: n a c \<sigma> rule: less_induct)
  case less
  have nxt: "wpb C (\<lambda>\<sigma>. P (fst \<sigma>)) (on_source (fat_next src fs c)) \<sigma>'
      (\<lambda>t \<sigma>'. P (fst \<sigma>') \<and> (case t of None \<Rightarrow> True | Some n \<Rightarrow> n \<in> {2..<clusters fs + 2}))"
    if "P (fst \<sigma>')" for \<sigma>'
    using fat_next_wpb [OF assms(1) less.prems(1)] that
    by (cases \<sigma>') (auto intro!: wpb_on_source)
  have again: "wpb C (\<lambda>\<sigma>. P (fst \<sigma>)) (dir_walk_loop src fs f (Suc n) a' c') \<sigma>' (\<lambda>_ \<sigma>'. P (fst \<sigma>'))"
    if "P (fst \<sigma>')" "snd a' \<le> FAT_MAX_ENTRIES" "c' \<in> {2..<clusters fs + 2}" "Suc n \<le> clusters fs" for a' c' \<sigma>'
    using that by (intro less.hyps) auto
  show ?case
    using fat32_ok_facts(3) [OF assms(1)] less.prems
    by (subst dir_walk_loop_eq) (auto intro!: wpb_lift wpb_conseq [OF walk_sectors_wpb [OF assms(1) less.prems(1-3)]]
        wpb_conseq [OF nxt] again split: option.splits)
qed

lemma dir_walk_wpb:
  assumes "fat32_ok space fs" "P (fst \<sigma>)"
  shows "wpb C (\<lambda>\<sigma>. P (fst \<sigma>)) (dir_walk src fs c f) \<sigma> (\<lambda>_ \<sigma>'. P (fst \<sigma>'))"
  unfolding dir_walk_def using assms
  by (auto intro!: wpb_lift dir_walk_loop_wpb [OF assms(1)] wp_conseq [OF fat_check_wp [OF assms(1)]])

lemma walk_with_wpb:
  assumes "fat32_ok space fs" "P s"
  shows "wpb C P (walk_with src fs c f v) s (\<lambda>_. P)"
  using dir_walk_wpb [OF assms(1), of "(s, v)" c f] assms(2)
  by (auto simp: walk_with_def wpb_def split: prod.splits res.splits)

lemma find_dir_loop_wpb:
  assumes "fat32_ok space fs" "P s" "depth \<le> FAT_MAX_DEPTH"
  shows "wpb C P (find_dir_loop lower src fs parts depth c) s (\<lambda>_. P)"
  using assms(2,3)
proof (induction parts arbitrary: s depth c)
  case (Cons part parts)
  then show ?case
    by (auto simp: FAT_MAX_DEPTH_def intro!: wpb_lift wpb_conseq [OF walk_with_wpb [OF assms(1)]]
        wp_conseq [OF fat_check_wp [OF assms(1)]] Cons.IH)
qed simp

lemma find_dir_wpb:
  assumes "fat32_ok space fs" "P s"
  shows "wpb C P (find_dir lower src fs path) s (\<lambda>_. P)"
  unfolding find_dir_def using assms by (auto intro!: find_dir_loop_wpb [OF assms(1)])

lemma fat_list_wpb:
  assumes "fat32_ok space fs" "P s"
  shows "wpb C (\<lambda>\<sigma>. P (fst \<sigma>)) (fat_list lower src fs path f) (s, v) (\<lambda>_ \<sigma>'. P (fst \<sigma>'))"
  unfolding fat_list_def using assms
  by (auto intro!: wpb_on_source wpb_conseq [OF find_dir_wpb [OF assms(1)]] dir_walk_wpb [OF assms(1)])

lemma fat_find_wpb:
  assumes "fat32_ok space fs" "P s"
  shows "wpb C P (fat_find lower src fs path) s (\<lambda>_. P)"
  unfolding fat_find_def using assms
  by (auto simp: FAT_MAX_PATH_BYTES_def split: prod.splits
      intro!: wpb_lift wpb_conseq [OF find_dir_wpb [OF assms(1)]] wpb_conseq [OF walk_with_wpb [OF assms(1)]])

end

section \<open>The properties\<close>

text \<open>A source that keeps the reads made of it, newest first.\<close>

definition logging :: "'s sectors \<Rightarrow> ('s \<times> (nat \<times> nat) list) sectors" where
  "logging src sector n = (\<lambda>(s, log). case src sector n s of (r, s') \<Rightarrow> (r, (s', (sector, n) # log)))"

definition reads_inside :: "fat32 \<Rightarrow> 's \<times> (nat \<times> nat) list \<Rightarrow> bool" where
  "reads_inside fs = (\<lambda>(s, log). list_all (\<lambda>(sector, n). sector < total_sectors fs \<and> n = bytes_per_sector fs) log)"

definition sends_stray :: "'s sectors \<Rightarrow> bool" where
  "sends_stray src \<longleftrightarrow> (\<exists>sector n s b s'. src sector n s = (Inr b, s') \<and> \<not> clean_sector (fit n b))"

interpretation logged: sector_source "logging src" fs "reads_inside fs" "sends_stray src" for src fs
proof unfold_locales
  fix sector n s b s'
  assume "logging src sector n s = (Inr b, s')"
  then have "src sector n (fst s) = (Inr b, fst s')" by (auto simp: logging_def split: prod.splits)
  then show "sends_stray src \<or> clean_sector (fit n b)" unfolding sends_stray_def by blast
qed (auto simp: logging_def reads_inside_def split: prod.splits)

definition confined :: "fat32 \<Rightarrow> 's sectors \<Rightarrow> ('e, 'a) res \<Rightarrow> 's \<times> (nat \<times> nat) list \<Rightarrow> bool" where
  "confined fs src r \<tau> \<longleftrightarrow> reads_inside fs \<tau> \<and> (if r = Panic then sends_stray src else True)"

lemma confined_wpb: "wpb (sends_stray src) (reads_inside fs) m s (\<lambda>_. reads_inside fs) \<Longrightarrow> case m s of (r, \<tau>) \<Rightarrow> confined fs src r \<tau>"
  by (auto dest!: wpb_final simp: confined_def split: prod.splits)

text \<open>
  C33.  On a volume whose boot sector was accepted, every read that a lookup or a listing makes, whatever
  the directories and FATs hold and however it ends, is of one whole sector inside the volume.  It panics
  only if the source returns a sector with a long-name entry without a sequence number.
\<close>

theorem fat_reads_confined:
  assumes "fat32_ok space fs"
  shows "(case fat_find lower (logging src) fs path (s, []) of (r, \<tau>) \<Rightarrow> confined fs src r \<tau>)
    \<and> (case fat_list lower (logging src) fs path f ((s, []), v) of (r, (\<tau>, v')) \<Rightarrow> confined fs src r \<tau>)"
proof
  have start: "reads_inside fs (s, [])" by (simp add: reads_inside_def)
  show "case fat_find lower (logging src) fs path (s, []) of (r, \<tau>) \<Rightarrow> confined fs src r \<tau>"
    by (rule confined_wpb [OF logged.fat_find_wpb [OF assms start]])
  show "case fat_list lower (logging src) fs path f ((s, []), v) of (r, (\<tau>, v')) \<Rightarrow> confined fs src r \<tau>"
    using wpb_final [OF logged.fat_list_wpb [OF assms start, of src lower path f v]]
    by (auto simp: confined_def split: prod.splits)
qed

definition sample_fat32 :: fat32 where
  "sample_fat32 = \<lparr>bytes_per_sector = 512, sectors_per_cluster = 1, reserved_sectors = 32, fats = 2,
     fat_sectors = 1, total_sectors = 100, root_cluster = 2, clusters = 66\<rparr>"

theorem fat_reads_confined_witness:
  "fat32_ok 51200 sample_fat32
    \<and> (case fat_find (\<lambda>c. [c]) (logging (\<lambda>_ n s. (Inr (replicate n 0), s))) sample_fat32 [92, 120] ((), []) of
        (r, \<tau>) \<Rightarrow> confined sample_fat32 (\<lambda>_ n s. (Inr (replicate n 0), s)) r \<tau>)"
proof -
  have "fat32_ok 51200 sample_fat32"
    by (simp add: fat32_ok_def sample_fat32_def disk_consts is_power_of_two_def)
  then show ?thesis by (intro conjI fat_reads_confined [THEN conjunct1])
qed

definition short_directory :: "bytes list" where
  \<comment> \<open>a complete long name of one entry, and one without a sequence number that repeats its checksum\<close>
  "short_directory = map (\<lambda>sq. sq # replicate 10 0 @ ATTR_LFN # replicate 20 0) [0x41, 0x20]"

text \<open>
  C34.  A long-name entry makes the reader panic exactly when it follows a complete long name, repeats its
  checksum and carries neither a sequence number nor the end mark: one is subtracted from the number
  zero.  A directory of two entries shows that the walk gets there.
\<close>

theorem long_name_underflow:
  "(lfn_feed l e = (Panic :: (fat_error, lfn) res)) =
     (lf_ok l \<and> lf_expect l = 0 \<and> numberless e \<and> byte_at e LFN_CHKSUM = lf_checksum l)
   \<and> walk_entries f short_directory (lfn_new, 0) \<sigma> = (Panic, \<sigma>)"
proof
  show "(lfn_feed l e = (Panic :: (fat_error, lfn) res)) =
     (lf_ok l \<and> lf_expect l = 0 \<and> numberless e \<and> byte_at e LFN_CHKSUM = lf_checksum l)"
    by (rule lfn_feed_Panic)
  show "walk_entries f short_directory (lfn_new, 0) \<sigma> = (Panic, \<sigma>)"
    by (simp add: short_directory_def walk_entry_def ibind_def lift_def add32_def FAT_MAX_ENTRIES_def byte_at_def
        nth_opt_def nth_append DIR_NAME0_END_def DIR_NAME0_FREE_def DIR_ATTR_def DirEntryRaw_def
        ATTR_LFN_MASK_def ATTR_LFN_def lfn_feed_def LFN_LAST_def LFN_ORD_MASK_def LFN_MAX_ORD_def lfn_fill_def sub64_def
        LFN_CHKSUM_def LfnEntryRaw_def)
qed

end
