(* ===== verification/FatImage.thy ===== *)
theory FatImage
  imports Fat
begin

text \<open>
  The FAT32 image writer of the virtual machine, \<open>crates/paguro-vm/src/fat.rs\<close>: the tree of files, short
  and long names, the geometry, the cluster allocator and the image built from a tree.  The maps of a
  directory are lists of pairs in the order of their keys, as \<open>BTreeMap\<close> iterates them.
  \<open>char::to_uppercase\<close> is a parameter.
\<close>

section \<open>Constants and errors\<close>

definition IMG_SECTOR :: nat where "IMG_SECTOR = 512"
definition RESERVED_SECTORS :: nat where "RESERVED_SECTORS = 32"
definition NUM_FATS :: nat where "NUM_FATS = 2"
definition FS_INFO_SECTOR :: nat where "FS_INFO_SECTOR = 1"
definition BACKUP_BOOT_SECTOR :: nat where "BACKUP_BOOT_SECTOR = 6"
definition ROOT_CLUSTER :: nat where "ROOT_CLUSTER = 2"
definition IMG_FIRST_CLUSTER :: nat where "IMG_FIRST_CLUSTER = 2"
definition MIN_CLUSTERS :: nat where "MIN_CLUSTERS = 65525"
definition FAT_ENTRY :: nat where "FAT_ENTRY = 4"
definition DIR_ENTRY :: nat where "DIR_ENTRY = 32"
definition EOC :: nat where "EOC = 0x0FFFFFFF"
definition MEDIA :: byte where "MEDIA = 0xF8"
definition FAT0 :: nat where "FAT0 = 0x0FFFFF00 OR unat MEDIA"
definition IMG_ATTR_DIR :: byte where "IMG_ATTR_DIR = 0x10"
definition ATTR_ARCHIVE :: byte where "ATTR_ARCHIVE = 0x20"
definition IMG_ATTR_LFN :: byte where "IMG_ATTR_LFN = 0x0F"
definition IMG_LFN_LAST :: byte where "IMG_LFN_LAST = 0x40"
definition IMG_LFN_UNITS :: nat where "IMG_LFN_UNITS = 13"
definition LFN_OFFSETS :: "nat list" where "LFN_OFFSETS = [1, 3, 5, 7, 9, 14, 16, 18, 20, 22, 24, 28, 30]"
definition FAT_DATE :: nat where "FAT_DATE = push_bit 9 (2026 - 1980) OR push_bit 5 1 OR 1"
definition FAT_TIME :: nat where "FAT_TIME = 0"
definition BS_JMP :: bytes where "BS_JMP = [0xEB, 0x58, 0x90]"
definition FSI_LEAD :: nat where "FSI_LEAD = 0x41615252"
definition FSI_STRUC :: nat where "FSI_STRUC = 0x61417272"
definition FSI_TRAIL :: nat where "FSI_TRAIL = 0xAA550000"
definition FSI_UNKNOWN :: nat where "FSI_UNKNOWN = 0xFFFFFFFF"

datatype img_error = ITooSmall | IBadName str | IDuplicate str

text \<open>
  \<open>put\<close>: its assertion that the range is inside fails in a debug build; here, too.  An assignment to
  \<open>e[i..j]\<close> of an array is the same with the bounds check of the language.
\<close>

definition put :: "bytes \<Rightarrow> nat \<Rightarrow> bytes \<Rightarrow> ('e, bytes) res" where
  "put b at v = (if at + length v \<le> length b then Ok (overwrite b at v) else Panic)"

definition puts :: "bytes \<Rightarrow> (nat \<times> bytes) list \<Rightarrow> ('e, bytes) res" where
  "puts b ps = try_fold (\<lambda>b (at, v). put b at v) b ps"

section \<open>The tree\<close>

datatype img_dir = Dir (dirs: "(str \<times> img_dir) list") (files: "(str \<times> bytes) list")

definition dir_default :: img_dir where "dir_default = Dir [] []"

definition valid_name :: "str \<Rightarrow> bool" where
  "valid_name n \<longleftrightarrow>
     n \<noteq> [] \<and> str_len n \<le> 255 \<and> n \<noteq> [CH_DOT] \<and> n \<noteq> [CH_DOT, CH_DOT]
   \<and> \<not> list_ex (\<lambda>c. c < 0x20 \<or> c \<in> {0x22, 0x2A, 0x2F, 0x3A, 0x3C, 0x3E, 0x3F, 0x5C, 0x7C}) n
   \<and> last n \<noteq> 0x20 \<and> last n \<noteq> CH_DOT"

definition name_key :: "(nat \<Rightarrow> nat list) \<Rightarrow> str \<Rightarrow> str" where
  "name_key upper n = concat (map upper n)"

text \<open>
  \<open>BTreeMap::insert\<close>: strings are ordered by their bytes, which is the order of their characters'
  numbers.
\<close>

fun str_less :: "str \<Rightarrow> str \<Rightarrow> bool" where
  "str_less _ [] = False"
| "str_less [] (y # ys) = True"
| "str_less (x # xs) (y # ys) = (x < y \<or> x = y \<and> str_less xs ys)"

fun map_insert :: "str \<Rightarrow> 'a \<Rightarrow> (str \<times> 'a) list \<Rightarrow> (str \<times> 'a) list" where
  "map_insert k v [] = [(k, v)]"
| "map_insert k v ((k', v') # m) =
    (if k = k' then (k, v) # m
     else if str_less k k' then (k, v) # (k', v') # m
     else (k', v') # map_insert k v m)"

definition find_key :: "(nat \<Rightarrow> nat list) \<Rightarrow> (str \<times> 'a) list \<Rightarrow> str \<Rightarrow> str option" where
  "find_key upper m c = find (\<lambda>k. name_key upper k = name_key upper c) (map fst m)"

definition child :: "(str \<times> img_dir) list \<Rightarrow> str \<Rightarrow> img_dir" where
  "child m k = (case map_of m k of Some d \<Rightarrow> d | None \<Rightarrow> dir_default)"

text \<open>
  \<open>dir_mut\<close>: the directory a path names, made on the way where it is missing; the operation \<open>k\<close> that
  follows works on it in place.  What was made stays when the operation fails further down.
\<close>

fun dir_mut ::
  "(nat \<Rightarrow> nat list) \<Rightarrow> str list \<Rightarrow> (img_dir, img_error, 'a) io \<Rightarrow> (img_dir, img_error, 'a) io" where
  "dir_mut upper [] k d = k d"
| "dir_mut upper (c # cs) k d =
    (if \<not> valid_name c then (Err (IBadName c), d)
     else if find_key upper (files d) c \<noteq> None then (Err (IDuplicate c), d)
     else
       let n = (case find_key upper (dirs d) c of Some n \<Rightarrow> n | None \<Rightarrow> c) in
       case dir_mut upper cs k (child (dirs d) n) of (r, sub) \<Rightarrow>
         (r, Dir (map_insert n sub (dirs d)) (files d)))"

definition components :: "str \<Rightarrow> str list" where
  "components path = filter (\<lambda>s. s \<noteq> []) (split_on 0x2f path)"

definition tree_mkdir :: "(nat \<Rightarrow> nat list) \<Rightarrow> str \<Rightarrow> (img_dir, img_error, unit) io" where
  "tree_mkdir upper path = dir_mut upper (components path) (lift (Ok ()))"

definition tree_add :: "(nat \<Rightarrow> nat list) \<Rightarrow> str \<Rightarrow> bytes \<Rightarrow> (img_dir, img_error, unit) io" where
  "tree_add upper path data =
    (let comps = components path in
     if comps = [] then lift (Err (IBadName path)) else
     let name = last comps in
     if \<not> valid_name name then lift (Err (IBadName name)) else
     dir_mut upper (butlast comps) (\<lambda>d.
       if find_key upper (files d) name \<noteq> None \<or> find_key upper (dirs d) name \<noteq> None
       then (Err (IDuplicate path), d)
       else (Ok (), Dir (dirs d) (map_insert name data (files d)))))"

fun dir_replace ::
  "(nat \<Rightarrow> nat list) \<Rightarrow> str \<Rightarrow> str \<Rightarrow> bytes \<Rightarrow> str list \<Rightarrow> (img_dir, img_error, unit) io" where
  "dir_replace upper path name data [] d =
    (case find_key upper (files d) name of
       None \<Rightarrow> (Err (IBadName path), d)
     | Some k \<Rightarrow> (Ok (), Dir (dirs d) (map_insert k data (files d))))"
| "dir_replace upper path name data (c # cs) d =
    (case find_key upper (dirs d) c of
       None \<Rightarrow> (Err (IBadName path), d)
     | Some k \<Rightarrow>
         (case dir_replace upper path name data cs (child (dirs d) k) of (r, sub) \<Rightarrow>
           (r, Dir (map_insert k sub (dirs d)) (files d))))"

definition tree_replace :: "(nat \<Rightarrow> nat list) \<Rightarrow> str \<Rightarrow> bytes \<Rightarrow> (img_dir, img_error, unit) io" where
  "tree_replace upper path data =
    (let comps = components path in
     if comps = [] then lift (Err (IBadName path)) else
     dir_replace upper path (last comps) data (butlast comps))"

fun data_bytes :: "img_dir \<Rightarrow> nat" where
  "data_bytes (Dir ds fs) =
    sum_list (map (\<lambda>(_, b). length b) fs) + sum_list (map (\<lambda>(_, d). data_bytes d) ds)"

section \<open>Names\<close>

definition SHORT_CHARS :: bytes where
  "SHORT_CHARS = map of_char ''!#$%&'' @ 0x27 # map of_char ''()-@^_'' @ 0x60 # map of_char ''{}~''"

definition short_part :: "str \<Rightarrow> nat \<Rightarrow> bool" where
  "short_part s most \<longleftrightarrow> str_len s \<le> most
     \<and> list_all (\<lambda>b. (0x41 \<le> b \<and> b \<le> 0x5a) \<or> is_ascii_digit b \<or> b \<in> set SHORT_CHARS) (as_bytes s)"

definition spaces :: bytes where "spaces = replicate 11 0x20"

definition plain_short :: "str \<Rightarrow> ('e, bytes option) res" where
  "plain_short n =
    (case (case rsplit_once CH_DOT n of Some be \<Rightarrow> be | None \<Rightarrow> (n, [])) of (base, ext) \<Rightarrow>
     if base = [] \<or> \<not> short_part base 8 \<or> \<not> short_part ext 3 \<or> (n \<noteq> [] \<and> last n = CH_DOT) then Ok None
     else rbind (puts spaces [(0, as_bytes base), (8, as_bytes ext)]) (\<lambda>s. Ok (Some s)))"

definition ascii_upper :: "byte \<Rightarrow> byte" where
  "ascii_upper b = (if 0x61 \<le> b \<and> b \<le> 0x7a then b - 0x20 else b)"

definition clean :: "str \<Rightarrow> bytes" where
  "clean s = map ascii_upper (filter (\<lambda>b. is_ascii_alphanumeric b \<or> b \<in> set SHORT_CHARS) (as_bytes s))"

text \<open>The decimal digits \<open>format!\<close> writes.\<close>

fun show_nat :: "nat \<Rightarrow> bytes" where
  "show_nat n = (if n < 10 then [0x30 + word_of_nat n] else show_nat (n div 10) @ [0x30 + word_of_nat (n mod 10)])"

declare show_nat.simps [simp del]

definition numbered_short :: "bytes \<Rightarrow> bytes \<Rightarrow> nat \<Rightarrow> ('e, bytes) res" where
  "numbered_short base ext i =
    (let tail = 0x7e # show_nat i in
     rbind (sub64 8 (length tail)) (\<lambda>room.
     let keep = min room (length base);
         stem = (if keep = 0 then [0x58] else take keep base) in
     puts spaces [(0, stem), (length stem, tail), (8, take (min (length ext) 3) ext)]))"

lemma show_nat_length: "n < 10 ^ length (show_nat n)"
proof (induction n rule: show_nat.induct)
  case (1 n)
  show ?case
  proof (cases "n < 10")
    case False
    with 1 have "n div 10 < 10 ^ length (show_nat (n div 10))" by simp
    then have "n < 10 * 10 ^ length (show_nat (n div 10))" by linarith
    with False show ?thesis by (subst show_nat.simps) simp
  qed (simp add: show_nat.simps)
qed

lemma numbered_short_bound: "numbered_short base ext i = Ok s \<Longrightarrow> i < 10 ^ 7"
proof -
  assume "numbered_short base ext i = Ok s"
  then have "length (show_nat i) \<le> 7" by (auto simp: numbered_short_def Let_def sub64_def split: if_splits)
  then have "(10 :: nat) ^ length (show_nat i) \<le> 10 ^ 7" by (rule power_increasing) simp
  with show_nat_length [of i] show ?thesis by linarith
qed

text \<open>The loop over \<open>1u32..\<close>: a tail of more than eight characters panics before the counter ends.\<close>

function short_loop :: "bytes \<Rightarrow> bytes \<Rightarrow> bytes list \<Rightarrow> nat \<Rightarrow> ('e, bytes) res" where
  "short_loop base ext taken i =
    rbind (numbered_short base ext i) (\<lambda>s.
    if s \<notin> set taken then Ok s else short_loop base ext taken (i + 1))"
  by pat_completeness auto
termination
  by (relation "measure (\<lambda>(base, ext, taken, i). 10 ^ 7 - i)") (auto dest: numbered_short_bound)

declare short_loop.simps [simp del]

definition generated_short :: "str \<Rightarrow> bytes list \<Rightarrow> ('e, bytes) res" where
  "generated_short n taken =
    (case (case rsplit_once CH_DOT n of
        Some (b, e) \<Rightarrow> if b \<noteq> [] then (clean b, clean e) else (clean n, [])
      | None \<Rightarrow> (clean n, [])) of (base, ext) \<Rightarrow>
     short_loop base ext taken 1)"

section \<open>Directory entries\<close>

definition checksum :: "bytes \<Rightarrow> byte" where
  "checksum s = fold (\<lambda>b c. word_rotr 1 c + b) s 0"

definition short_entry :: "bytes \<Rightarrow> byte \<Rightarrow> nat \<Rightarrow> nat \<Rightarrow> ('e, bytes) res" where
  "short_entry name attr cluster sz =
    puts (replicate DIR_ENTRY 0)
     ([(0, name), (11, [attr])] @ map (\<lambda>at. (at, le_bytes 2 FAT_TIME)) [14, 22]
      @ map (\<lambda>at. (at, le_bytes 2 FAT_DATE)) [16, 18, 24]
      @ [(20, le_bytes 2 (drop_bit 16 cluster mod u16_lim)), (26, le_bytes 2 (cluster mod u16_lim)),
         (28, le_bytes 4 sz)])"

definition lfn_unit :: "nat list \<Rightarrow> nat \<Rightarrow> nat" where
  "lfn_unit units i = (if i < length units then units ! i else if i = length units then 0 else 0xFFFF)"

definition lfn_entry :: "nat list \<Rightarrow> nat \<Rightarrow> byte \<Rightarrow> nat \<Rightarrow> ('e, bytes) res" where
  "lfn_entry units n sm sq =
    rbind (sub64 sq 1) (\<lambda>p.
    puts (replicate DIR_ENTRY 0)
     ([(0, [word_of_nat sq OR (if sq = n then IMG_LFN_LAST else 0)]), (11, [IMG_ATTR_LFN]), (13, [sm])]
      @ map (\<lambda>(k, off). (off, le_bytes 2 (lfn_unit units (p * IMG_LFN_UNITS + k)))) (enumerate 0 LFN_OFFSETS)))"

fun collect :: "('a \<Rightarrow> ('e, 'b) res) \<Rightarrow> 'a list \<Rightarrow> ('e, 'b list) res" where
  "collect f [] = Ok []"
| "collect f (x # xs) = rbind (f x) (\<lambda>y. rbind (collect f xs) (\<lambda>ys. Ok (y # ys)))"

definition lfn_entries :: "str \<Rightarrow> bytes \<Rightarrow> ('e, bytes list) res" where
  "lfn_entries long short =
    (let units = encode_utf16 long;
         n = div_ceil (length units) IMG_LFN_UNITS in
     collect (lfn_entry units n (checksum short)) (rev [1..<n + 1]))"

section \<open>Geometry\<close>

record geometry =
  g_total :: nat
  g_spc :: nat
  g_fat_sectors :: nat
  g_clusters :: nat

function geometry_loop :: "nat \<Rightarrow> nat \<Rightarrow> nat \<Rightarrow> (img_error, geometry) res" where
  "geometry_loop tot spc fat =
    rbind (mul32 NUM_FATS fat) (\<lambda>area.
    rbind (add32 RESERVED_SECTORS area) (\<lambda>meta.
    rbind (ok_or (checked_sub tot meta) ITooSmall) (\<lambda>data.
    let ncl = data div spc in
    rbind (mul32 fat IMG_SECTOR) (\<lambda>have.
    rbind (add32 ncl IMG_FIRST_CLUSTER) (\<lambda>slots.
    rbind (mul32 slots FAT_ENTRY) (\<lambda>need.
    if have \<ge> need then
      if ncl < MIN_CLUSTERS then Err ITooSmall
      else Ok \<lparr>g_total = tot, g_spc = spc, g_fat_sectors = fat, g_clusters = ncl\<rparr>
    else rbind (add32 fat 1) (\<lambda>fat. geometry_loop tot spc fat)))))))"
  by pat_completeness auto
termination
  by (relation "measure (\<lambda>(tot, spc, fat). Suc tot - fat)")
     (auto simp: add32_def mul32_def checked_sub_def RESERVED_SECTORS_def NUM_FATS_def split: if_splits)

declare geometry_loop.simps [simp del]

definition geometry_new :: "nat \<Rightarrow> (img_error, geometry) res" where
  "geometry_new tot =
    rbind (mul64 tot IMG_SECTOR) (\<lambda>sz.
    geometry_loop tot (if sz \<le> 260 * 2 ^ 20 then 1 else 8) 1)"

definition g_cluster_bytes :: "geometry \<Rightarrow> ('e, nat) res" where
  "g_cluster_bytes g = mul64 (g_spc g) IMG_SECTOR"

definition cluster_offset :: "geometry \<Rightarrow> nat \<Rightarrow> ('e, nat) res" where
  "cluster_offset g c =
    rbind (mul32 NUM_FATS (g_fat_sectors g)) (\<lambda>area.
    rbind (add32 RESERVED_SECTORS area) (\<lambda>data.
    rbind (sub64 c IMG_FIRST_CLUSTER) (\<lambda>i.
    rbind (mul32 i (g_spc g)) (\<lambda>off.
    rbind (add32 data off) (\<lambda>sector.
    mul64 sector IMG_SECTOR)))))"

section \<open>The writer\<close>

record img_writer =
  w_img :: bytes
  w_next :: nat

type_synonym 'a wio = "(img_writer, img_error, 'a) io"

definition img_put :: "nat \<Rightarrow> bytes \<Rightarrow> unit wio" where
  "img_put at v = (\<lambda>w. case put (w_img w) at v of
     Ok b \<Rightarrow> (Ok (), w\<lparr>w_img := b\<rparr>) | Err e \<Rightarrow> (Err e, w) | Panic \<Rightarrow> (Panic, w))"

fun for_each :: "('a \<Rightarrow> unit wio) \<Rightarrow> 'a list \<Rightarrow> unit wio" where
  "for_each f [] = lift (Ok ())"
| "for_each f (x # xs) = ibind (f x) (\<lambda>_. for_each f xs)"

definition set_fat :: "geometry \<Rightarrow> nat \<Rightarrow> nat \<Rightarrow> unit wio" where
  "set_fat g c v = for_each (\<lambda>f.
    ibind (lift (mul32 f (g_fat_sectors g))) (\<lambda>area.
    ibind (lift (add32 RESERVED_SECTORS area)) (\<lambda>start.
    ibind (lift (mul64 start IMG_SECTOR)) (\<lambda>a.
    ibind (lift (mul32 c FAT_ENTRY)) (\<lambda>off.
    ibind (lift (add64 a off)) (\<lambda>at.
    img_put at (le_bytes 4 v))))))) [0..<NUM_FATS]"

definition alloc :: "geometry \<Rightarrow> nat \<Rightarrow> nat wio" where
  "alloc g n =
    ibind (lift (g_cluster_bytes g)) (\<lambda>cb.
    if cb = 0 then lift Panic else
    let k = max (div_ceil n cb) 1 mod u32_lim in
    ibind (\<lambda>w. (Ok (w_next w), w)) (\<lambda>first.
    ibind (lift (add32 first k)) (\<lambda>stop.
    ibind (lift (add32 (g_clusters g) IMG_FIRST_CLUSTER)) (\<lambda>lim.
    if stop > lim then lift (Err ITooSmall) else
    ibind (for_each (\<lambda>i. set_fat g (first + i) (if i + 1 = k then EOC else first + i + 1)) [0..<k]) (\<lambda>_.
    ibind (\<lambda>w. (Ok (), w\<lparr>w_next := stop\<rparr>)) (\<lambda>_.
    lift (Ok first)))))))"

definition write_at :: "geometry \<Rightarrow> nat \<Rightarrow> bytes \<Rightarrow> unit wio" where
  "write_at g c data = ibind (lift (cluster_offset g c)) (\<lambda>at. img_put at data)"

text \<open>The entries of a name: its long-name entries unless it is plain.\<close>

definition name_slots :: "str \<Rightarrow> ('e, nat) res" where
  "name_slots n =
    rbind (plain_short n) (\<lambda>s.
    Ok (1 + (if s \<noteq> None then 0 else div_ceil (length (encode_utf16 n)) IMG_LFN_UNITS)))"

definition dir_bytes :: "img_dir \<Rightarrow> ('e, nat) res" where
  "dir_bytes d =
    rbind (collect name_slots (map fst (dirs d) @ map fst (files d))) (\<lambda>ns.
    mul64 (sum_list ns + 3) DIR_ENTRY)"

datatype img_child = SubDir img_dir | FileData bytes

definition children :: "img_dir \<Rightarrow> (str \<times> img_child) list" where
  "children d = map (\<lambda>(n, sub). (n, SubDir sub)) (dirs d) @ map (\<lambda>(n, f). (n, FileData f)) (files d)"

text \<open>Short names: first the plain ones, then one for every child that has none.\<close>

fun fill_shorts :: "str list \<Rightarrow> bytes option list \<Rightarrow> bytes list \<Rightarrow> ('e, bytes list) res" where
  "fill_shorts (n # ns) (Some s # ss) taken = rbind (fill_shorts ns ss taken) (\<lambda>r. Ok (s # r))"
| "fill_shorts (n # ns) (None # ss) taken =
    rbind (generated_short n taken) (\<lambda>s.
    rbind (fill_shorts ns ss (taken @ [s])) (\<lambda>r. Ok (s # r)))"
| "fill_shorts _ _ taken = Ok []"

definition shorts_of :: "str list \<Rightarrow> ('e, bytes list) res" where
  "shorts_of names =
    rbind (collect plain_short names) (\<lambda>ss.
    fill_shorts names ss (concat (map (\<lambda>s. case s of Some s \<Rightarrow> [s] | None \<Rightarrow> []) ss)))"

text \<open>
  One child: its entries, and the cluster of a subdirectory (\<open>None\<close> for a file).  The data of a file is
  written at once, that of a subdirectory after the directory itself.
\<close>

definition write_child :: "geometry \<Rightarrow> str \<Rightarrow> img_child \<Rightarrow> bytes \<Rightarrow> (bytes list \<times> nat option) wio" where
  "write_child g name c short =
    ibind (lift (plain_short name)) (\<lambda>plain.
    ibind (if plain = None then lift (lfn_entries name short) else lift (Ok [])) (\<lambda>long.
    case c of
      SubDir sub \<Rightarrow>
        ibind (lift (dir_bytes sub)) (\<lambda>n.
        ibind (alloc g n) (\<lambda>c.
        ibind (lift (short_entry short IMG_ATTR_DIR c 0)) (\<lambda>e.
        lift (Ok (long @ [e], Some c)))))
    | FileData f \<Rightarrow>
        if length f \<ge> u32_lim then lift (Err ITooSmall) else
        ibind (if f = [] then lift (Ok 0) else alloc g (length f)) (\<lambda>c.
        ibind (if c \<noteq> 0 then write_at g c f else lift (Ok ())) (\<lambda>_.
        ibind (lift (short_entry short ATTR_ARCHIVE c (length f))) (\<lambda>e.
        lift (Ok (long @ [e], None)))))))"

fun write_children :: "geometry \<Rightarrow> ((str \<times> img_child) \<times> bytes) list \<Rightarrow> (bytes list \<times> nat list) wio" where
  "write_children g [] = lift (Ok ([], []))"
| "write_children g (((name, c), short) # cs) =
    ibind (write_child g name c short) (\<lambda>(es, sub).
    ibind (write_children g cs) (\<lambda>(more_es, subs).
    lift (Ok (es @ more_es, (case sub of Some k \<Rightarrow> [k] | None \<Rightarrow> []) @ subs))))"

definition dot_entries :: "nat \<Rightarrow> nat \<Rightarrow> ('e, bytes list) res" where
  "dot_entries cluster parent =
    (if cluster = ROOT_CLUSTER then Ok [] else
     rbind (short_entry (0x2e # replicate 10 0x20) IMG_ATTR_DIR cluster 0) (\<lambda>dot.
     rbind (short_entry (0x2e # 0x2e # replicate 9 0x20) IMG_ATTR_DIR (if parent = ROOT_CLUSTER then 0 else parent) 0) (\<lambda>dots.
     Ok [dot, dots])))"

text \<open>The directory's own cluster; the clusters of its subdirectories are returned.\<close>

definition write_dir_entries :: "geometry \<Rightarrow> img_dir \<Rightarrow> nat \<Rightarrow> nat \<Rightarrow> nat list wio" where
  "write_dir_entries g d cluster parent =
    ibind (lift (dot_entries cluster parent)) (\<lambda>dots.
    ibind (lift (shorts_of (map fst (children d)))) (\<lambda>shorts.
    ibind (write_children g (zip (children d) shorts)) (\<lambda>(es, subs).
    ibind (write_at g cluster (concat (dots @ es))) (\<lambda>_.
    lift (Ok subs)))))"

fun write_dir :: "geometry \<Rightarrow> img_dir \<Rightarrow> nat \<Rightarrow> nat \<Rightarrow> unit wio"
  and write_subdirs :: "geometry \<Rightarrow> (str \<times> img_dir) list \<Rightarrow> nat list \<Rightarrow> nat \<Rightarrow> unit wio" where
  "write_dir g (Dir ds fs) cluster parent =
    ibind (write_dir_entries g (Dir ds fs) cluster parent) (\<lambda>subs.
    write_subdirs g ds subs cluster)"
| "write_subdirs g ((n, sub) # ds) (c # cs) parent =
    ibind (write_dir g sub c parent) (\<lambda>_. write_subdirs g ds cs parent)"
| "write_subdirs g _ _ parent = lift (Ok ())"

section \<open>The image\<close>

definition volume_label :: "str \<Rightarrow> ('e, bytes) res" where
  "volume_label label = put spaces 0 (map ascii_upper (take 11 (as_bytes label)))"

definition boot_sector :: "geometry \<Rightarrow> nat \<Rightarrow> bytes \<Rightarrow> ('e, bytes) res" where
  "boot_sector g serial lab =
    puts (replicate IMG_SECTOR 0)
     [(0, BS_JMP), (3, map of_char ''MSWIN4.1''), (11, le_bytes 2 (IMG_SECTOR mod u16_lim)),
      (13, [word_of_nat (g_spc g)]), (14, le_bytes 2 (RESERVED_SECTORS mod u16_lim)), (16, [word_of_nat NUM_FATS]),
      (21, [MEDIA]), (24, le_bytes 2 63), (26, le_bytes 2 255), (32, le_bytes 4 (g_total g)),
      (36, le_bytes 4 (g_fat_sectors g)), (44, le_bytes 4 ROOT_CLUSTER), (48, le_bytes 2 FS_INFO_SECTOR),
      (50, le_bytes 2 BACKUP_BOOT_SECTOR), (64, [0x80]), (66, [0x29]), (67, le_bytes 4 serial), (71, lab),
      (82, map of_char ''FAT32   ''), (510, [0x55]), (511, [0xAA])]"

definition fs_info :: "geometry \<Rightarrow> nat \<Rightarrow> ('e, bytes) res" where
  "fs_info g next =
    rbind (sub64 next IMG_FIRST_CLUSTER) (\<lambda>used.
    rbind (sub64 (g_clusters g) used) (\<lambda>free.
    rbind (add32 (g_clusters g) IMG_FIRST_CLUSTER) (\<lambda>lim.
    puts (replicate IMG_SECTOR 0)
     [(0, le_bytes 4 FSI_LEAD), (484, le_bytes 4 FSI_STRUC), (488, le_bytes 4 free),
      (492, le_bytes 4 (if next < lim then next else FSI_UNKNOWN)), (508, le_bytes 4 FSI_TRAIL)])))"

text \<open>The first directory slot from \<open>at\<close> on whose first byte is zero, or the end of the image.\<close>

function free_slot :: "bytes \<Rightarrow> nat \<Rightarrow> nat" where
  "free_slot img at = (case nth_opt img at of
     None \<Rightarrow> at | Some b \<Rightarrow> if b \<noteq> 0 then free_slot img (at + DIR_ENTRY) else at)"
  by pat_completeness auto
termination
  by (relation "measure (\<lambda>(img, at). length img - at)") (auto simp: nth_opt_def DIR_ENTRY_def split: if_splits)

declare free_slot.simps [simp del]

definition label_entry :: "bytes \<Rightarrow> ('e, bytes) res" where
  "label_entry lab = rbind (short_entry lab 0x08 0 0) (\<lambda>e. put e 11 [0x08])"

definition write_system :: "geometry \<Rightarrow> str \<Rightarrow> nat \<Rightarrow> unit wio" where
  "write_system g label serial =
    ibind (lift (volume_label label)) (\<lambda>lab.
    ibind (lift (boot_sector g serial lab)) (\<lambda>bs.
    ibind (\<lambda>w. (Ok (w_next w), w)) (\<lambda>next.
    ibind (lift (fs_info g next)) (\<lambda>fsi.
    ibind (for_each (\<lambda>(at, s). img_put (at * IMG_SECTOR) s) [(0, bs), (1, fsi), (6, bs), (7, fsi)]) (\<lambda>_.
    ibind (for_each (\<lambda>at. img_put (at * IMG_SECTOR + 510) [0x55, 0xAA]) [2, 8]) (\<lambda>_.
    ibind (lift (cluster_offset g ROOT_CLUSTER)) (\<lambda>root_at.
    ibind (\<lambda>w. (Ok (free_slot (w_img w) root_at), w)) (\<lambda>at.
    ibind (lift (label_entry lab)) (\<lambda>e.
    img_put at e)))))))))"

definition build_image :: "img_dir \<Rightarrow> nat \<Rightarrow> str \<Rightarrow> nat \<Rightarrow> (img_error, bytes) res" where
  "build_image root tot label serial =
    rbind (geometry_new tot) (\<lambda>g.
    rbind (mul64 (g_total g) IMG_SECTOR) (\<lambda>n.
    case ibind (lift (dir_bytes root)) (\<lambda>k.
      ibind (alloc g k) (\<lambda>c.
      if c \<noteq> ROOT_CLUSTER then lift Panic else
      ibind (set_fat g 0 FAT0) (\<lambda>_.
      ibind (set_fat g 1 EOC) (\<lambda>_.
      ibind (write_dir g root ROOT_CLUSTER ROOT_CLUSTER) (\<lambda>_.
      write_system g label serial)))))
      \<lparr>w_img = replicate n 0, w_next = ROOT_CLUSTER\<rparr> of
      (r, w) \<Rightarrow> rbind r (\<lambda>_. Ok (w_img w))))"

definition sectors_for :: "nat \<Rightarrow> nat \<Rightarrow> ('e, nat) res" where
  "sectors_for data min_bytes =
    (let lowest = (MIN_CLUSTERS + 4096) * IMG_SECTOR in
     rbind (mul64 data 2) (\<lambda>d.
     rbind (add64 d (8 * 2 ^ 20)) (\<lambda>d.
     let want = max (max d min_bytes) lowest;
         mib = div_ceil want (2 ^ 20) in
     rbind (mul64 mib (2 ^ 20 div IMG_SECTOR)) (\<lambda>n. Ok (n mod u32_lim)))))"

end
