(* ===== verification/FatImageCorrect.thy ===== *)
theory FatImageCorrect
  imports FatImage
begin

text \<open>
  The image writer of theory FatImage against the directory reader of theory Fat: the long-name entries
  the writer emits reassemble to the name, a plain short name reads back as the name, and the entries of a
  written directory list its children.  The geometry loop ends with a consistent geometry, whose boot
  sector the parser of theory Disk reads back.
\<close>

section \<open>Constants\<close>

lemma fat_consts:
  "DIR_ENTRY_LEN = 32" "DIR_NAME_LEN = 11" "DIR_ATTR = 11" "DIR_NT_RES = 12" "DIR_FST_CLUS_HI = 20"
  "DIR_FST_CLUS_LO = 26" "DIR_FILE_SIZE = 28" "LFN_CHKSUM = 13" "LFN_UNITS = 13" "LFN_MAX_ORD = 20"
  "LFN_BUF_UNITS = 260" "LFN_PAD = 0xFFFF" "SHORT_NAME_TEXT = 12" "DIR_NAME_BASE_LEN = 8" "FAT_MAX_NAME = 255"
  "FAT_MAX_ENTRIES = 65536" "IMG_LFN_UNITS = 13" "DIR_ENTRY = 32"
  by (simp_all add: DIR_ENTRY_LEN_def DirEntryRaw_def DIR_NAME_LEN_def DIR_ATTR_def DIR_NT_RES_def DIR_FST_CLUS_HI_def
      DIR_FST_CLUS_LO_def DIR_FILE_SIZE_def LFN_CHKSUM_def LfnEntryRaw_def LFN_UNITS_def LFN_MAX_ORD_def
      LFN_BUF_UNITS_def LFN_PAD_def SHORT_NAME_TEXT_def DIR_NAME_BASE_LEN_def FAT_MAX_NAME_def FAT_MAX_ENTRIES_def
      IMG_LFN_UNITS_def DIR_ENTRY_def)

lemma lfn_offsets: "LFN_UNIT_OFFSETS = LFN_OFFSETS"
  by (simp add: LFN_UNIT_OFFSETS_def LfnEntryRaw_def LFN_OFFSETS_def upt_rec)

section \<open>Long names\<close>

lemma le_bytes_2: "le_bytes 2 v = [word_of_nat (v mod 256), word_of_nat (v div 256 mod 256)]"
  by (simp add: numeral_2_eq_2)

definition lfn_image :: "(nat \<Rightarrow> nat) \<Rightarrow> byte \<Rightarrow> byte \<Rightarrow> bytes" where
  "lfn_image u sq sm = sq # concat (map (\<lambda>k. le_bytes 2 (u k)) [0, 1, 2, 3, 4]) @ [IMG_ATTR_LFN, 0, sm]
     @ concat (map (\<lambda>k. le_bytes 2 (u k)) [5, 6, 7, 8, 9, 10]) @ [0, 0] @ concat (map (\<lambda>k. le_bytes 2 (u k)) [11, 12])"

lemma entry_zero: "replicate 32 (x :: 'a) = [x,x,x,x,x,x,x,x, x,x,x,x,x,x,x,x, x,x,x,x,x,x,x,x, x,x,x,x,x,x,x,x]"
  by (simp add: numeral_eq_Suc)

lemma enumerate_offsets:
  "enumerate 0 LFN_OFFSETS = [(0, 1), (1, 3), (2, 5), (3, 7), (4, 9), (5, 14), (6, 16), (7, 18), (8, 20), (9, 22),
     (10, 24), (11, 28), (12, 30)]"
  by (simp add: LFN_OFFSETS_def)

lemma upt_13: "[0..<13] = [0, 1, 2, 3, 4, 5, 6, 7, 8, 9, 10, 11, 12]"
  by (simp add: upt_rec)

lemma lfn_entry_image:
  assumes "1 \<le> sq"
  shows "lfn_entry units n sm sq = Ok (lfn_image (\<lambda>k. lfn_unit units ((sq - 1) * 13 + k))
    (word_of_nat sq OR (if sq = n then IMG_LFN_LAST else 0)) sm)"
  using assms
  by (simp add: lfn_entry_def sub64_def puts_def put_def fat_consts enumerate_offsets lfn_image_def le_bytes_2
      overwrite_def entry_zero)

lemma byte_at_image:
  "byte_at (lfn_image u sq sm) 0 = sq" "byte_at (lfn_image u sq sm) 11 = IMG_ATTR_LFN"
  "byte_at (lfn_image u sq sm) 13 = sm" "length (lfn_image u sq sm) = 32"
  by (simp_all add: lfn_image_def le_bytes_2 byte_at_def nth_opt_def)

lemma unit_at_image:
  assumes "\<And>k. u k < u16_lim"
  shows "map (unit_at (lfn_image u sq sm)) LFN_OFFSETS = map u [0..<13]"
proof -
  have "le_val [word_of_nat (u k mod 256), word_of_nat (u k div 256 mod 256)] = u k" for k
    using le_val_le_bytes [of "u k" 2] assms [of k] by (simp only: le_bytes_2) simp
  then show ?thesis
    by (simp add: unit_at_def lfn_image_def le_bytes_2 byte_at_def nth_opt_def LFN_OFFSETS_def upt_13)
qed

lemma overwrite_Cons:
  assumes "base + Suc (length vs) \<le> length us"
  shows "overwrite us base (v # vs) = overwrite (us[base := v]) (Suc base) vs"
  using assms by (simp add: overwrite_def take_Suc_conv_app_nth take_update_cancel)

lemma fold_overwrite:
  "base + i + length vs \<le> length us \<Longrightarrow>
   fold (\<lambda>(k, v) us. us[base + k := v]) (enumerate i vs) us = overwrite us (base + i) vs"
proof (induction vs arbitrary: i us)
  case (Cons v vs)
  then show ?case using Cons.IH [of "Suc i" "us[base + i := v]"] by (simp add: overwrite_Cons)
qed (simp add: overwrite_def)

lemma put_units_overwrite:
  assumes "base + 13 \<le> length us"
  shows "lfn_put_units e base us = overwrite us base (map (unit_at e) LFN_OFFSETS)"
proof -
  have "lfn_put_units e base us
      = fold (\<lambda>(k, v) us. us[base + k := v]) (enumerate 0 (map (unit_at e) LFN_OFFSETS)) us"
    by (simp add: lfn_put_units_def lfn_offsets enumerate_map_upt fold_map comp_def enumerate_eq_zip zip_map2 case_prod_unfold)
  then show ?thesis using fold_overwrite [of base 0 "map (unit_at e) LFN_OFFSETS" us] assms
    by (simp add: LFN_OFFSETS_def)
qed

text \<open>The state after the entries down to number \<open>m + 1\<close> of \<open>n\<close>.\<close>

definition lfn_partial :: "nat list \<Rightarrow> nat \<Rightarrow> byte \<Rightarrow> nat \<Rightarrow> lfn" where
  "lfn_partial units n sm m = \<lparr>lf_units = replicate (m * 13) 0xFFFF @ map (lfn_unit units) [m * 13..<n * 13]
       @ replicate (260 - n * 13) 0xFFFF,
     lf_expect = m, lf_count = n, lf_checksum = sm, lf_ok = True\<rparr>"

lemma lfn_unit_lim: "list_all (\<lambda>u. u < u16_lim) units \<Longrightarrow> lfn_unit units i < u16_lim"
  by (simp add: lfn_unit_def list_all_length)

lemma overwrite_between:
  "length p = base \<Longrightarrow> length v = length w \<Longrightarrow> overwrite (p @ v @ q) base w = p @ w @ q"
  by (simp add: overwrite_def)

lemma partial_step:
  assumes "list_all (\<lambda>u. u < u16_lim) units" "m < n" "n \<le> 20"
  shows "lfn_fill (lfn_image (\<lambda>k. lfn_unit units (m * 13 + k)) sq sm) (Suc m)
      (l\<lparr>lf_units := lf_units (lfn_partial units n sm (Suc m))\<rparr>)
    = Ok (l\<lparr>lf_units := lf_units (lfn_partial units n sm m), lf_expect := m\<rparr>)"
proof -
  let ?p = "replicate (m * 13) (0xFFFF :: nat)"
  let ?q = "map (lfn_unit units) [Suc m * 13..<n * 13] @ replicate (260 - n * 13) 0xFFFF"
  let ?w = "map (\<lambda>k. lfn_unit units (m * 13 + k)) [0..<13]"
  have le: "Suc m * 13 \<le> n * 13" using assms(2) by (intro mult_le_mono1) simp
  have "map (lfn_unit units) [m * 13..<n * 13]
      = map (lfn_unit units) [m * 13..<m * 13 + 13] @ map (lfn_unit units) [Suc m * 13..<n * 13]"
    using le upt_add_eq_append [of "m * 13" "m * 13 + 13" "n * 13 - Suc m * 13"] by (simp add: add.commute flip: map_append)
  also have "map (lfn_unit units) [m * 13..<m * 13 + 13] = ?w"
    by (rule nth_equalityI) simp_all
  finally have new: "lf_units (lfn_partial units n sm m) = ?p @ ?w @ ?q" by (simp add: lfn_partial_def)
  have old: "lf_units (lfn_partial units n sm (Suc m)) = ?p @ replicate 13 0xFFFF @ ?q"
    using replicate_add [of "m * 13" 13 "0xFFFF :: nat"] by (simp add: lfn_partial_def add.commute)
  have "map (unit_at (lfn_image (\<lambda>k. lfn_unit units (m * 13 + k)) sq sm)) LFN_OFFSETS = ?w"
    by (rule unit_at_image) (rule lfn_unit_lim [OF assms(1)])
  then show ?thesis
    using le assms(3)
    by (simp add: lfn_fill_def sub64_def fat_consts put_units_overwrite old new overwrite_between)
qed

text \<open>The entries of a long name, fed in the order the writer emits them.\<close>

definition is_long_name :: "nat list \<Rightarrow> bool" where
  "is_long_name units \<longleftrightarrow> units \<noteq> [] \<and> length units \<le> 255 \<and> list_all (\<lambda>u. 0 < u \<and> u < u16_lim) units"

lemma seq_bits:
  assumes "0 < m" "m \<le> 20"
  shows "unat ((word_of_nat m :: byte) AND 0x1F) = m" "(word_of_nat m :: byte) AND 0x40 = 0"
    "unat (((word_of_nat m :: byte) OR 0x40) AND 0x1F) = m" "((word_of_nat m :: byte) OR 0x40) AND 0x40 = 0x40"
    "(word_of_nat m :: byte) \<noteq> 0" "(word_of_nat m :: byte) \<noteq> 0xE5"
    "(word_of_nat m :: byte) OR 0x40 \<noteq> 0" "(word_of_nat m :: byte) OR 0x40 \<noteq> 0xE5"
proof -
  have "list_all (\<lambda>m. unat ((word_of_nat m :: byte) AND 0x1F) = m \<and> (word_of_nat m :: byte) AND 0x40 = 0
     \<and> unat (((word_of_nat m :: byte) OR 0x40) AND 0x1F) = m \<and> ((word_of_nat m :: byte) OR 0x40) AND 0x40 = 0x40
     \<and> (word_of_nat m :: byte) \<noteq> 0 \<and> (word_of_nat m :: byte) \<noteq> 0xE5
     \<and> (word_of_nat m :: byte) OR 0x40 \<noteq> 0 \<and> (word_of_nat m :: byte) OR 0x40 \<noteq> 0xE5) [1..<21]"
    by code_simp
  moreover have "m \<in> set [1..<21]" using assms by auto
  ultimately show "unat ((word_of_nat m :: byte) AND 0x1F) = m" "(word_of_nat m :: byte) AND 0x40 = 0"
    "unat (((word_of_nat m :: byte) OR 0x40) AND 0x1F) = m" "((word_of_nat m :: byte) OR 0x40) AND 0x40 = 0x40"
    "(word_of_nat m :: byte) \<noteq> 0" "(word_of_nat m :: byte) \<noteq> 0xE5"
    "(word_of_nat m :: byte) OR 0x40 \<noteq> 0" "(word_of_nat m :: byte) OR 0x40 \<noteq> 0xE5"
    unfolding list_all_iff by blast+
qed

definition lfn_piece :: "nat list \<Rightarrow> nat \<Rightarrow> byte \<Rightarrow> nat \<Rightarrow> bytes" where
  "lfn_piece units n sm m = lfn_image (\<lambda>k. lfn_unit units (m * 13 + k))
     (word_of_nat (Suc m) OR (if Suc m = n then IMG_LFN_LAST else 0)) sm"

lemma feed_first:
  assumes "list_all (\<lambda>u. u < u16_lim) units" "n \<le> 20" "Suc m = n"
  shows "lfn_feed l (lfn_piece units n sm m) = Ok (lfn_partial units n sm m)"
proof -
  have pad: "lf_units (lfn_partial units n sm (Suc m)) = replicate 260 0xFFFF"
    using assms(2,3) by (simp add: lfn_partial_def flip: replicate_add)
  have "lfn_fill (lfn_image (\<lambda>k. lfn_unit units (m * 13 + k)) sq sm) (Suc m)
      (l\<lparr>lf_count := n, lf_checksum := sm, lf_units := replicate 260 0xFFFF, lf_ok := True\<rparr>)
    = Ok (lfn_partial units n sm m)" for sq :: byte
    using partial_step [OF assms(1), of m n sq sm "l\<lparr>lf_count := n, lf_checksum := sm, lf_ok := True\<rparr>"] assms(2,3)
    unfolding pad by (cases l) (simp add: lfn_partial_def)
  with seq_bits [of "Suc m"] assms(2,3) show ?thesis
    by (simp add: lfn_feed_def lfn_piece_def byte_at_image fat_consts LFN_ORD_MASK_def LFN_LAST_def IMG_LFN_LAST_def
        Let_def del: of_nat_Suc)
qed

lemma feed_next:
  assumes "list_all (\<lambda>u. u < u16_lim) units" "n \<le> 20" "Suc m < n"
  shows "lfn_feed (lfn_partial units n sm (Suc m)) (lfn_piece units n sm m) = Ok (lfn_partial units n sm m)"
proof -
  have "lfn_fill (lfn_image (\<lambda>k. lfn_unit units (m * 13 + k)) sq sm) (Suc m) (lfn_partial units n sm (Suc m))
    = Ok (lfn_partial units n sm m)" for sq :: byte
    using partial_step [OF assms(1), of m n sq sm "lfn_partial units n sm (Suc m)"] assms(2,3)
    by (simp add: lfn_partial_def)
  with seq_bits [of "Suc m"] assms(2,3) show ?thesis
    by (simp add: lfn_feed_def lfn_piece_def byte_at_image fat_consts LFN_ORD_MASK_def LFN_LAST_def
        lfn_partial_def [of units n sm "Suc m"] Let_def del: of_nat_Suc)
qed

lemma complete_name:
  assumes "is_long_name units" "n = div_ceil (length units) 13" "sm = short_checksum short"
  shows "lfn_name (lfn_partial units n sm 0) short = Some units"
proof -
  have n: "length units \<le> n * 13" "n \<le> 20"
    using assms(1,2) by (auto simp: is_long_name_def div_ceil_def; presburger)+
  let ?all = "map (lfn_unit units) [0..<n * 13]"
  let ?k = "length units"
  have split: "?all = units @ map (lfn_unit units) [?k..<n * 13]"
  proof -
    have "[0..<n * 13] = [0..<?k] @ [?k..<n * 13]" using upt_add_eq_append [of 0 ?k "n * 13 - ?k"] n(1) by simp
    moreover have "map (lfn_unit units) [0..<?k] = units" by (rule nth_equalityI) (simp_all add: lfn_unit_def)
    ultimately show ?thesis by simp
  qed
  have nz: "u \<noteq> 0" if "u \<in> set units" for u using assms(1) that by (auto simp: is_long_name_def list_all_iff)
  have tw: "takeWhile (\<lambda>u. u \<noteq> 0) ?all = units"
  proof (cases "?k = n * 13")
    case True
    then show ?thesis unfolding split using nz by (simp add: takeWhile_eq_all_conv)
  next
    case False
    then have "[?k..<n * 13] = ?k # [Suc ?k..<n * 13]" using n(1) by (simp add: upt_conv_Cons)
    then show ?thesis unfolding split using nz by (simp add: takeWhile_append lfn_unit_def)
  qed
  have rest: "drop (?k + 1) ?all = replicate (n * 13 - (?k + 1)) 0xFFFF"
    by (rule nth_equalityI) (simp_all add: lfn_unit_def)
  have "get_range (lf_units (lfn_partial units n sm 0)) 0 (n * 13) = Some ?all"
    using n(2) by (simp add: get_range_def lfn_partial_def)
  with tw rest show ?thesis using assms(1,3)
    by (simp add: lfn_name_def lfn_partial_def fat_consts Let_def is_long_name_def split list_ex_iff del: drop_map)
qed

section \<open>Walking over written entries\<close>

lemma walk_entries_append:
  "walk_entries f (xs @ ys) a = ibind (walk_entries f xs a) (\<lambda>r.
     case r of None \<Rightarrow> lift (Ok None) | Some a \<Rightarrow> walk_entries f ys a)"
proof (induction xs arbitrary: a)
  case (Cons x xs)
  then show ?case
    by (auto simp: fun_eq_iff ibind_def lift_def split: prod.split res.split option.split)
qed (simp add: fun_eq_iff ibind_def lift_def)

lemma ibind_Ok: "m s = (Ok x, s') \<Longrightarrow> ibind m k s = k x s'"
  by (simp add: ibind_def)

lemma walk_piece:
  assumes "lfn_feed l (lfn_piece units n sm m) = (Ok l' :: (fat_error, lfn) res)" "m < n" "n \<le> 20" "c < 65536"
  shows "walk_entry f (lfn_piece units n sm m) (l, c) \<sigma> = (Ok (Some (l', Suc c)), \<sigma>)"
proof -
  have "byte_at (lfn_piece units n sm m) 0 \<noteq> 0" "byte_at (lfn_piece units n sm m) 0 \<noteq> 0xE5"
    "byte_at (lfn_piece units n sm m) 11 = 0x0F"
    using seq_bits [of "Suc m"] assms(2,3)
    by (auto simp: lfn_piece_def byte_at_image IMG_LFN_LAST_def IMG_ATTR_LFN_def simp del: of_nat_Suc)
  with assms(1,4) show ?thesis
    by (simp add: walk_entry_def ibind_def lift_def add32_def fat_consts DIR_NAME0_END_def DIR_NAME0_FREE_def
        ATTR_LFN_MASK_def ATTR_LFN_def)
qed

lemma walk_pieces:
  assumes "is_long_name units" "n \<le> 20" "k \<le> n" "0 < k" "k = n \<or> l = lfn_partial units n sm k" "c + k \<le> 65536"
  shows "walk_entries f (map (lfn_piece units n sm) (rev [0..<k])) (l, c) \<sigma> = (Ok (Some (lfn_partial units n sm 0, c + k)), \<sigma>)"
  using assms(3-6)
proof (induction k arbitrary: l c)
  case (Suc m)
  have u: "list_all (\<lambda>u. u < u16_lim) units" using assms(1) by (auto simp: is_long_name_def list_all_iff)
  have "lfn_feed l (lfn_piece units n sm m) = (Ok (lfn_partial units n sm m) :: (fat_error, lfn) res)"
    using feed_first [OF u assms(2), of m] feed_next [OF u assms(2), of m] Suc.prems
    by (cases "Suc m = n") auto
  then have "walk_entry f (lfn_piece units n sm m) (l, c) \<sigma> = (Ok (Some (lfn_partial units n sm m, Suc c)), \<sigma>)"
    using Suc.prems assms(2) by (intro walk_piece) auto
  then show ?case
    using Suc.IH [of "lfn_partial units n sm m" "Suc c"] Suc.prems
    by (cases "m = 0") (simp_all add: ibind_Ok lift_def)
qed simp

lemma lfn_entries_pieces:
  "lfn_entries long short = Ok (map (lfn_piece (encode_utf16 long) (div_ceil (length (encode_utf16 long)) 13) (checksum short))
     (rev [0..<div_ceil (length (encode_utf16 long)) 13]))"
proof -
  have c: "collect (lfn_entry units n sm) (map Suc ms) = Ok (map (lfn_piece units n sm) ms)" for units n sm ms
    by (induction ms) (simp_all add: lfn_entry_image lfn_piece_def)
  have "rev [1..<n + 1] = map Suc (rev [0..<n])" for n
    by (simp add: map_Suc_upt flip: rev_map)
  then show ?thesis unfolding lfn_entries_def Let_def fat_consts by (simp add: c)
qed

subsection \<open>Short entries\<close>

definition short_image :: "bytes \<Rightarrow> byte \<Rightarrow> nat \<Rightarrow> nat \<Rightarrow> bytes" where
  "short_image name attr cluster sz = name @ [attr, 0, 0] @ le_bytes 2 FAT_TIME @ le_bytes 2 FAT_DATE @ le_bytes 2 FAT_DATE
     @ le_bytes 2 (drop_bit 16 cluster mod u16_lim) @ le_bytes 2 FAT_TIME @ le_bytes 2 FAT_DATE
     @ le_bytes 2 (cluster mod u16_lim) @ le_bytes 4 sz"

lemma length_11: "length xs = 11 \<Longrightarrow> \<exists>a b c d e f g h i j k. xs = [a, b, c, d, e, f, g, h, i, j, k]"
  by (auto simp: length_Suc_conv numeral_eq_Suc)

lemma length_4: "length xs = 4 \<Longrightarrow> \<exists>a b c d. xs = [a, b, c, d]"
  by (auto simp: length_Suc_conv numeral_eq_Suc)

lemma short_entry_image:
  assumes "length name = 11"
  shows "short_entry name attr cluster sz = Ok (short_image name attr cluster sz)"
proof -
  obtain a b c d e f g h i j k where n: "name = [a, b, c, d, e, f, g, h, i, j, k]" using length_11 [OF assms] by blast
  obtain p q r t where z: "le_bytes 4 sz = [p, q, r, t]" using length_4 [OF length_le_bytes] by blast
  show ?thesis
    by (simp add: short_entry_def puts_def put_def overwrite_def fat_consts entry_zero n z le_bytes_2 short_image_def)
qed

lemma split_16: "push_bit 16 (drop_bit 16 c) OR c mod 65536 = (c :: nat)"
proof -
  have "c mod 65536 = take_bit 16 c" by (simp add: take_bit_eq_mod)
  then show ?thesis
    by (intro bit_eqI) (auto simp: bit_or_iff bit_push_bit_iff bit_drop_bit_eq bit_take_bit_iff)
qed

lemma short_image_fields:
  fixes attr :: byte
  assumes "length name = 11" "cluster < u32_lim" "sz < u32_lim"
  defines "e \<equiv> short_image name attr cluster sz"
  shows "byte_at e 0 = name ! 0" "byte_at e 11 = attr" "byte_at e 12 = 0" "short_of e = name" "length e = 32"
    and "entry_of e nm = \<lparr>de_name = nm, de_is_dir = (attr AND 0x10 \<noteq> 0), de_size = sz, de_cluster = cluster\<rparr>"
proof -
  obtain a b c d e' f g h i j k where n: "name = [a, b, c, d, e', f, g, h, i, j, k]" using length_11 [OF assms(1)] by blast
  obtain p q r t where z: "le_bytes 4 sz = [p, q, r, t]" using length_4 [OF length_le_bytes] by blast
  have v: "le_val [p, q, r, t] = sz" using le_val_le_bytes [of sz 4] assms(3) unfolding z by simp
  have hi: "drop_bit 16 cluster < u16_lim" using assms(2) by (simp add: drop_bit_eq_div less_mult_imp_div_less)
  have w: "le_val [word_of_nat (x mod 256), word_of_nat (x div 256 mod 256)] = x" if "x < u16_lim" for x
    using le_val_le_bytes [of x 2] that by (simp only: le_bytes_2) simp
  show "byte_at e 0 = name ! 0" "byte_at e 11 = attr" "byte_at e 12 = 0" "short_of e = name" "length e = 32"
    unfolding e_def short_image_def n z le_bytes_2
    by (simp_all add: byte_at_def nth_opt_def short_of_def get_range_def fat_consts)
  have "unit_at e 20 = drop_bit 16 cluster" "unit_at e 26 = cluster mod 65536"
    using w [OF hi] w [of "cluster mod 65536"] hi unfolding e_def short_image_def n z le_bytes_2
    by (simp_all add: byte_at_def nth_opt_def unit_at_def)
  moreover have "map (\<lambda>k. byte_at e (28 + k)) [0, 1, 2, 3] = [p, q, r, t]" "byte_at e 11 = attr"
    unfolding e_def short_image_def n z le_bytes_2 by (simp_all add: byte_at_def nth_opt_def)
  ultimately show "entry_of e nm = \<lparr>de_name = nm, de_is_dir = (attr AND 0x10 \<noteq> 0), de_size = sz, de_cluster = cluster\<rparr>"
    using v split_16 [of cluster] by (simp add: entry_of_def fat_consts Let_def ATTR_DIR_def)
qed

lemma walk_short:
  assumes "length name = 11" "cluster < u32_lim" "sz < u32_lim" "c < 65536"
    and "name ! 0 \<noteq> 0" "name ! 0 \<noteq> 0xE5" "attr \<in> {0x10, 0x20}"
    and "(case lfn_name l name of Some nm \<Rightarrow> Some nm | None \<Rightarrow> short_name name 0) = Some nm"
  shows "walk_entry f (short_image name attr cluster sz) (l, c) (s, v) =
    (case f \<lparr>de_name = nm, de_is_dir = (attr AND 0x10 \<noteq> 0), de_size = sz, de_cluster = cluster\<rparr> v of
      (again, v') \<Rightarrow> (Ok (if again then Some (lfn_reset l, Suc c) else None), (s, v')))"
  unfolding walk_entry_def fat_consts split Let_def short_image_fields [OF assms(1-3)] using assms(4-)
  by (auto simp: ibind_def lift_def add32_def DIR_NAME0_END_def DIR_NAME0_FREE_def
      ATTR_LFN_MASK_def ATTR_LFN_def ATTR_VOLUME_def visit_def split: prod.split)

subsection \<open>Short names\<close>

definition short_byte :: "byte \<Rightarrow> bool" where
  "short_byte b \<longleftrightarrow> (0x41 \<le> b \<and> b \<le> 0x5a) \<or> is_ascii_digit b \<or> b \<in> set SHORT_CHARS"

lemma short_byte_range: "short_byte b \<Longrightarrow> 0x20 < b \<and> b < 0x7F"
  by (auto simp: short_byte_def is_ascii_digit_def SHORT_CHARS_def word_le_nat_alt word_less_nat_alt)

lemma utf8_char_ascii:
  assumes "is_scalar c" "list_all (\<lambda>b. b < 0x80) (utf8_char c)"
  shows "c < 0x80" "utf8_char c = [word_of_nat c]"
proof -
  have lead: "\<not> (word_of_nat x :: byte) < 0x80" if "0x80 \<le> x" "x < 256" for x :: nat
    using that by (simp add: word_less_nat_alt unat_of_nat)
  show "c < 0x80"
  proof (rule ccontr)
    assume "\<not> c < 0x80"
    moreover have "c < 0x110000" using assms(1) by (auto simp: is_scalar_def)
    ultimately consider "0x80 \<le> c" "c < 0x800" | "0x800 \<le> c" "c < 0x10000" | "0x10000 \<le> c" "c < 0x110000"
      by linarith
    then show False
    proof cases
      case 1
      then have "c div 64 < 32" by (simp add: div_less_iff_less_mult)
      with 1 assms(2) lead [of "192 + c div 64"] show False by (simp add: utf8_char_def)
    next
      case 2
      then have "c div 4096 < 16" by (simp add: div_less_iff_less_mult)
      with 2 assms(2) lead [of "224 + c div 4096"] show False by (simp add: utf8_char_def)
    next
      case 3
      then have "c div 262144 < 5" by (simp add: div_less_iff_less_mult)
      with 3 assms(2) lead [of "240 + c div 262144"] show False by (simp add: utf8_char_def)
    qed
  qed
  then show "utf8_char c = [word_of_nat c]" by (simp add: utf8_char_def)
qed

lemma as_bytes_ascii:
  assumes "list_all is_scalar s" "list_all (\<lambda>b. b < 0x80) (as_bytes s)"
  shows "as_bytes s = map word_of_nat s \<and> list_all (\<lambda>c. c < 0x80) s"
  using assms
proof (induction s)
  case (Cons c s)
  then have c: "c < 0x80" "utf8_char c = [word_of_nat c]" by (auto simp: as_bytes_def intro: utf8_char_ascii)
  from Cons show ?case by (simp add: as_bytes_def c)
qed (simp add: as_bytes_def)

lemma short_part_ascii:
  assumes "list_all is_scalar s" "short_part s k"
  shows "as_bytes s = map word_of_nat s" "length s \<le> k" "list_all (\<lambda>c. c < 0x80) s"
    "list_all (\<lambda>c. short_byte (word_of_nat c)) s"
proof -
  have "list_all short_byte (as_bytes s)" using assms(2) by (auto simp: short_part_def short_byte_def list_all_iff)
  then have "list_all (\<lambda>b. b < 0x80) (as_bytes s)"
    by (auto simp: list_all_iff word_less_nat_alt dest!: short_byte_range)
  from as_bytes_ascii [OF assms(1) this] \<open>list_all short_byte (as_bytes s)\<close> assms(2)
  show "as_bytes s = map word_of_nat s" "length s \<le> k" "list_all (\<lambda>c. c < 0x80) s"
    "list_all (\<lambda>c. short_byte (word_of_nat c)) s"
    by (auto simp: short_part_def str_len_def list_all_iff)
qed

lemma trimmed_padded: "list_all short_byte s \<Longrightarrow> trimmed (s @ replicate k 0x20) = length s"
proof -
  assume s: "list_all short_byte s"
  then have "takeWhile (\<lambda>b. b = 0x20) (rev s) = []"
    by (cases "rev s") (auto simp: list_all_iff dest!: short_byte_range)
  then have "takeWhile (\<lambda>b. b = 0x20) (rev (s @ replicate k 0x20)) = replicate k 0x20"
    by (simp add: takeWhile_append)
  then show ?thesis by (simp add: trimmed_def)
qed

lemma short_put_fold:
  assumes "list_all (\<lambda>(b, low). 0x20 < b \<and> b < 0x7F \<and> \<not> low) xs" "length out + length xs \<le> 12"
  shows "opt_fold short_put out xs = Some (out @ map (unat \<circ> fst) xs)"
  using assms
proof (induction xs arbitrary: out)
  case (Cons x xs)
  then show ?case by (cases x) (auto simp: short_put_def fat_consts)
qed simp

lemma map_enumerate: "(\<And>i x. x \<in> set xs \<Longrightarrow> f (i, x) = g x) \<Longrightarrow> map f (enumerate n xs) = map g xs"
  by (rule nth_equalityI) (simp_all add: nth_enumerate_eq)

lemma short_name_padded:
  assumes "list_all short_byte b" "list_all short_byte e" "b \<noteq> []" "length b \<le> 8" "length e \<le> 3"
  shows "short_name ((b @ replicate (8 - length b) 0x20) @ e @ replicate (3 - length e) 0x20) 0
    = Some (map unat b @ (if e = [] then [] else 0x2e # map unat e))"
proof -
  have t: "trimmed (b @ replicate (8 - length b) 0x20) = length b" "trimmed (e @ replicate (3 - length e) 0x20) = length e"
    using assms by (simp_all add: trimmed_padded)
  have k: "map (\<lambda>(i, x). (if i = (0 :: nat) \<and> x = 5 then DIR_NAME0_FREE else x, False)) (enumerate 0 b) = map (\<lambda>x. (x, False)) b"
  proof -
    have "x \<noteq> 5" if "x \<in> set b" for x
      using assms(1) that by (auto simp: list_all_iff word_less_nat_alt dest!: short_byte_range)
    then show ?thesis by (intro map_enumerate) simp
  qed
  have r: "0x20 < x \<and> x < 0x7F" if "x \<in> set b \<union> set e" for x
    using assms(1,2) that by (auto simp: list_all_iff dest: short_byte_range)
  have f: "opt_fold short_put [] (map (\<lambda>x. (x, False)) b @ es) = Some (map (unat \<circ> fst) (map (\<lambda>x. (x, False)) b @ es))"
    if "es = (if e = [] then [] else (0x2e, False) # map (\<lambda>x. (x, False)) e)" for es
    using r assms(4,5) that by (subst short_put_fold) (auto simp: list_all_iff)
  show ?thesis
    unfolding short_name_def Let_def fat_consts
    using assms(3-5) f [OF refl]
    by (cases "e = []") (simp_all add: DIR_NAME0_KANJI_E5_def t k comp_def trimmed_padded [of "[]", simplified])
qed

lemma encode_ascii: "list_all (\<lambda>c. c < 0x80) s \<Longrightarrow> encode_utf16 s = s"
  by (induction s) (auto simp: encode_utf16_def utf16_char_def)

lemma unat_ascii: "list_all (\<lambda>c. c < 0x80) s \<Longrightarrow> map (unat \<circ> (word_of_nat :: nat \<Rightarrow> byte)) s = s"
  by (induction s) (simp_all add: unat_of_nat)

lemma puts_padded:
  assumes "length b \<le> 8" "length e \<le> 3"
  shows "puts spaces [(0, b), (8, e)] = Ok ((b @ replicate (8 - length b) 0x20) @ e @ replicate (3 - length e) 0x20)"
  using assms by (simp add: puts_def put_def overwrite_def spaces_def)

lemma plain_shortD:
  assumes "plain_short n = Ok (Some s)" "list_all is_scalar n"
  shows "length s = 11" "short_byte (s ! 0)" "short_name s 0 = Some (encode_utf16 n)" "encode_utf16 n = n"
proof -
  obtain base ext where be: "(case rsplit_once CH_DOT n of Some be \<Rightarrow> be | None \<Rightarrow> (n, [])) = (base, ext)"
    by (meson surj_pair)
  have c: "base \<noteq> []" "short_part base 8" "short_part ext 3" "n \<noteq> [] \<longrightarrow> last n \<noteq> CH_DOT"
    and s: "puts spaces [(0, as_bytes base), (8, as_bytes ext)] = (Ok s :: ('a, bytes) res)"
    using assms(1) unfolding plain_short_def be by (auto simp: rbind_eq_Ok split: if_splits)
  have n: "n = base @ (if ext = [] then [] else CH_DOT # ext)"
    using be c(4) rsplit_once_Some [of CH_DOT n] by (auto split: option.splits if_splits)
  then have sc: "list_all is_scalar base" "list_all is_scalar ext" using assms(2) by (auto split: if_splits)
  note B = short_part_ascii [OF sc(1) c(2)] and E = short_part_ascii [OF sc(2) c(3)]
  let ?b = "map word_of_nat base :: bytes" and ?e = "map word_of_nat ext :: bytes"
  have p: "list_all short_byte ?b" "list_all short_byte ?e" "?b \<noteq> []" "length ?b \<le> 8" "length ?e \<le> 3"
    using B E c(1) by (simp_all add: list_all_iff)
  have s': "s = (?b @ replicate (8 - length ?b) 0x20) @ ?e @ replicate (3 - length ?e) 0x20"
    using s unfolding B(1) E(1) puts_padded [OF p(4,5)] by simp
  show "length s = 11" "short_byte (s ! 0)" unfolding s' using p by (auto simp: nth_append list_all_length)
  show "encode_utf16 n = n" using n B(3) E(3) by (intro encode_ascii) (auto simp: CH_DOT_def split: if_splits)
  then show "short_name s 0 = Some (encode_utf16 n)"
    unfolding s' short_name_padded [OF p] using n unat_ascii [OF B(3)] unat_ascii [OF E(3)]
    by (auto simp: CH_DOT_def)
qed

lemma plain_short_ok: "list_all is_scalar n \<Longrightarrow> \<exists>r. plain_short n = Ok r"
proof -
  assume n: "list_all is_scalar n"
  obtain base ext where be: "(case rsplit_once CH_DOT n of Some be \<Rightarrow> be | None \<Rightarrow> (n, [])) = (base, ext)"
    by (meson surj_pair)
  then have sc: "list_all is_scalar base" "list_all is_scalar ext"
    using n by (auto split: option.splits dest!: rsplit_once_Some)
  have "\<exists>s. puts spaces [(0, as_bytes base), (8, as_bytes ext)] = (Ok s :: ('a, bytes) res)"
    if "short_part base 8" "short_part ext 3"
    using puts_padded [of "as_bytes base" "as_bytes ext"] that by (auto simp: short_part_def str_len_def)
  then show ?thesis unfolding plain_short_def be by auto
qed

lemma short_from_stem:
  assumes "puts spaces [(0, stem), (length stem, tail), (8, ext)] = Ok s" "stem \<noteq> []"
  shows "length s = 11 \<and> s ! 0 = stem ! 0"
  using assms by (auto simp: puts_def put_def overwrite_def spaces_def rbind_eq_Ok nth_append split: if_splits)

lemma numbered_short_ok:
  assumes "numbered_short base ext i = Ok s" "list_all short_byte base"
  shows "length s = 11" "short_byte (s ! 0)"
proof -
  let ?tail = "0x7e # show_nat i"
  let ?keep = "min (8 - length ?tail) (length base)"
  let ?stem = "if ?keep = 0 then [0x58] else take ?keep base"
  have p: "puts spaces [(0, ?stem), (length ?stem, ?tail), (8, take (min (length ext) 3) ext)] = (Ok s :: ('a, bytes) res)"
  proof -
    have "length ?tail \<le> 8" using assms(1) by (rule contrapos_pp) (simp add: numbered_short_def sub64_def Let_def)
    then have "sub64 8 (length ?tail) = (Ok (8 - length ?tail) :: ('a, nat) res)" unfolding sub64_def by (simp only: if_True)
    with assms(1) show ?thesis unfolding numbered_short_def Let_def by (simp only: rbind.simps)
  qed
  have st: "?stem \<noteq> []" "short_byte (?stem ! 0)"
    using assms(2) by (auto simp: list_all_length short_byte_def)
  from short_from_stem [OF p st(1)] show "length s = 11" "short_byte (s ! 0)" using st(2) by simp_all
qed

lemma clean_short: "list_all short_byte (clean s)"
  by (auto simp: clean_def list_all_iff ascii_upper_def short_byte_def is_ascii_alphanumeric_def is_ascii_digit_def
      word_le_nat_alt unat_sub)

lemma short_loop_ok:
  "short_loop base ext taken i = (Ok s :: ('e, bytes) res) \<Longrightarrow> list_all short_byte base \<Longrightarrow>
    length s = 11 \<and> short_byte (s ! 0) \<and> s \<notin> set taken"
proof (induction base ext taken i arbitrary: s rule: short_loop.induct [where 'a = 'e])
  case (1 base ext taken i)
  from 1(2) obtain t where t: "numbered_short base ext i = (Ok t :: ('e, bytes) res)"
    "(if t \<notin> set taken then Ok t else short_loop base ext taken (i + 1)) = (Ok s :: ('e, bytes) res)"
    by (subst (asm) short_loop.simps) (auto simp: rbind_eq_Ok)
  show ?case
    using 1(1) [OF t(1)] 1(3) t numbered_short_ok [OF t(1) 1(3)] by (auto split: if_splits)
qed

lemma generated_shortD:
  "generated_short n taken = Ok s \<Longrightarrow> length s = 11 \<and> short_byte (s ! 0) \<and> s \<notin> set taken"
  by (auto simp: generated_short_def clean_short dest!: short_loop_ok split: prod.splits option.splits if_splits)

section \<open>Short names of a directory\<close>

definition somes :: "'a option list \<Rightarrow> 'a list" where
  "somes xs = concat (map (\<lambda>s. case s of Some s \<Rightarrow> [s] | None \<Rightarrow> []) xs)"

lemma somes_simps [simp]: "somes [] = []" "somes (Some x # xs) = x # somes xs" "somes (None # xs) = somes xs"
  by (simp_all add: somes_def)

definition short_ok :: "bytes option \<Rightarrow> bytes \<Rightarrow> bool" where
  "short_ok plain s = (case plain of Some p \<Rightarrow> s = p | None \<Rightarrow> length s = 11 \<and> short_byte (s ! 0))"

lemma fill_shorts_spec:
  assumes "fill_shorts ns ss taken = (Ok rs :: (img_error, bytes list) res)" "length ns = length ss"
    and "distinct (somes ss)" "set (somes ss) \<subseteq> set taken"
  shows "list_all2 short_ok ss rs \<and> distinct rs \<and> set rs \<inter> set taken \<subseteq> set (somes ss)"
  using assms
proof (induction ss arbitrary: ns taken rs)
  case (Cons so ss)
  then obtain n ns' where ns: "ns = n # ns'" by (cases ns) auto
  show ?case
  proof (cases so)
    case (Some s)
    with Cons.prems ns obtain r where r: "fill_shorts ns' ss taken = (Ok r :: (img_error, bytes list) res)" "rs = s # r"
      by (auto simp: rbind_eq_Ok)
    with Cons.IH [OF r(1)] Cons.prems ns Some show ?thesis by (auto simp: short_ok_def)
  next
    case None
    with Cons.prems ns obtain s r where s: "generated_short n taken = (Ok s :: (img_error, bytes) res)"
      "fill_shorts ns' ss (taken @ [s]) = (Ok r :: (img_error, bytes list) res)" "rs = s # r"
      by (auto simp: rbind_eq_Ok)
    with Cons.IH [OF s(2)] Cons.prems ns None generated_shortD [OF s(1)] show ?thesis
      by (auto simp: short_ok_def)
  qed
qed auto

lemma collect_list_all2: "collect f xs = Ok ys \<Longrightarrow> list_all2 (\<lambda>x y. f x = Ok y) xs ys"
  by (induction xs arbitrary: ys) (auto simp: rbind_eq_Ok)

lemma plain_short_inj:
  assumes "plain_short n = Ok (Some s)" "plain_short m = Ok (Some s)" "list_all is_scalar n" "list_all is_scalar m"
  shows "n = m"
  using plain_shortD(3,4) [OF assms(1,3)] plain_shortD(3,4) [OF assms(2,4)] by simp

lemma distinct_plain:
  assumes "list_all2 (\<lambda>n s. plain_short n = (Ok s :: (img_error, bytes option) res)) ns ss" "distinct ns" "list_all (list_all is_scalar) ns"
  shows "distinct (somes ss)"
  using assms
proof (induction rule: list_all2_induct)
  case (Cons n ns s ss)
  show ?case
  proof (cases s)
    case (Some p)
    have "p \<notin> set (somes ss)"
    proof
      assume "p \<in> set (somes ss)"
      then have "Some p \<in> set ss" by (auto simp: somes_def split: option.splits)
      then obtain i where i: "i < length ss" "ss ! i = Some p" by (auto simp: in_set_conv_nth)
      then have m: "plain_short (ns ! i) = (Ok (Some p) :: (img_error, bytes option) res)" "ns ! i \<in> set ns"
        using list_all2_nthD2 [OF Cons(2), of i] list_all2_lengthD [OF Cons(2)] by auto
      then have "n = ns ! i"
        using Cons(1,5) Some by (intro plain_short_inj) (auto simp: list_all_iff)
      with m(2) Cons(4) show False by simp
    qed
    with Cons Some show ?thesis by simp
  qed (use Cons in simp)
qed simp

lemma shorts_of_spec:
  assumes "shorts_of ns = (Ok rs :: (img_error, bytes list) res)" "distinct ns" "list_all (list_all is_scalar) ns"
  shows "list_all2 (\<lambda>n r. \<exists>s. plain_short n = (Ok s :: (img_error, bytes option) res) \<and> short_ok s r) ns rs \<and> distinct rs"
proof -
  obtain ss where ss: "collect plain_short ns = (Ok ss :: (img_error, bytes option list) res)"
    "fill_shorts ns ss (somes ss) = (Ok rs :: (img_error, bytes list) res)"
    using assms(1) by (auto simp: shorts_of_def somes_def rbind_eq_Ok)
  note c = collect_list_all2 [OF ss(1)]
  from fill_shorts_spec [OF ss(2) list_all2_lengthD [OF c] distinct_plain [OF c assms(2,3)]]
  have "list_all2 short_ok ss rs" "distinct rs" by auto
  with list_all2_trans [OF _ c this(1), of "\<lambda>n r. \<exists>s. plain_short n = (Ok s :: (img_error, bytes option) res) \<and> short_ok s r"]
  show ?thesis by blast
qed

section \<open>Listing a written directory\<close>

lemma encode_units:
  assumes "list_all is_scalar n" "n \<noteq> []" "str_len n \<le> 255" "list_all (\<lambda>c. 0x20 \<le> c) n"
  shows "is_long_name (encode_utf16 n)"
proof -
  have len: "length (encode_utf16 s) \<le> str_len s" for s
    by (induction s) (auto simp: encode_utf16_def str_len_def as_bytes_def utf16_char_def utf8_char_def)
  have "list_all (\<lambda>u. 0 < u \<and> u < u16_lim) (utf16_char c)" if "is_scalar c" "0x20 \<le> c" for c
  proof -
    have "(c - 0x10000) div 1024 < 0x400" if "c < 0x110000" using that by (simp add: div_less_iff_less_mult)
    with that show ?thesis by (auto simp: utf16_char_def is_scalar_def)
  qed
  then have "list_all (\<lambda>u. 0 < u \<and> u < u16_lim) (encode_utf16 n)"
    using assms(1,4) by (auto simp: encode_utf16_def list_all_iff)
  moreover have "encode_utf16 n \<noteq> []" using assms(2) by (cases n) (auto simp: encode_utf16_def utf16_char_def)
  ultimately show ?thesis using len [of n] assms(3) by (simp add: is_long_name_def)
qed

lemma alloc_lim: "alloc g n w = (Ok c, w') \<Longrightarrow> c < u32_lim"
  by (auto simp: alloc_def ibind_def lift_def add32_def Let_def split: prod.splits res.splits if_splits)

definition collector :: "dir_entry list dir_visitor" where
  "collector d v = (True, v @ [d])"

text \<open>What the reader is to report of a child.\<close>

definition describe :: "str \<times> img_child \<Rightarrow> nat list \<times> bool \<times> nat" where
  "describe = (\<lambda>(n, c). (encode_utf16 n, (case c of SubDir _ \<Rightarrow> (True, 0) | FileData f \<Rightarrow> (False, length f))))"

definition shown :: "dir_entry \<Rightarrow> nat list \<times> bool \<times> nat" where
  "shown d = (de_name d, de_is_dir d, de_size d)"

definition name_ok :: "str \<Rightarrow> bool" where
  "name_ok n \<longleftrightarrow> valid_name n \<and> list_all is_scalar n"

lemma name_ok_units: "name_ok n \<Longrightarrow> is_long_name (encode_utf16 n)"
  by (rule encode_units) (auto simp: name_ok_def valid_name_def list_all_iff list_ex_iff not_less)

lemma div_ceil_13: "0 < m \<Longrightarrow> m \<le> 255 \<Longrightarrow> 0 < div_ceil m 13 \<and> div_ceil m 13 \<le> 20"
  by (auto simp: div_ceil_def)

lemma checksum_eq: "checksum = short_checksum"
  by (simp add: fun_eq_iff checksum_def short_checksum_def)

lemma short_ok_fields:
  assumes "plain_short n = (Ok so :: (img_error, bytes option) res)" "short_ok so sh" "list_all is_scalar n"
  shows "length sh = 11" "sh ! 0 \<noteq> 0" "sh ! 0 \<noteq> 0xE5"
proof -
  have "length sh = 11 \<and> short_byte (sh ! 0)"
    using assms plain_shortD(1,2) [of n sh, where 'a = img_error] by (cases so) (auto simp: short_ok_def)
  then show "length sh = 11" "sh ! 0 \<noteq> 0" "sh ! 0 \<noteq> 0xE5"
    by (auto simp: word_less_nat_alt dest!: short_byte_range)
qed

lemma walk_named:
  assumes n: "name_ok n" "plain_short n = (Ok so :: (img_error, bytes option) res)" "short_ok so sh"
    and long: "long = (if so = None then map (lfn_piece (encode_utf16 n) (div_ceil (length (encode_utf16 n)) 13) (checksum sh))
      (rev [0..<div_ceil (length (encode_utf16 n)) 13]) else [])"
    and e: "cl < u32_lim" "sz < u32_lim" "attr \<in> {0x10, 0x20}"
    and k: "k + length long < 65536" "\<not> lf_ok l"
  shows "\<exists>l'. \<not> lf_ok l' \<and> walk_entries collector (long @ [short_image sh attr cl sz]) (l, k) (s, v)
    = (Ok (Some (l', k + Suc (length long))), (s, v @ [\<lparr>de_name = encode_utf16 n, de_is_dir = (attr AND 0x10 \<noteq> 0),
        de_size = sz, de_cluster = cl\<rparr>]))"
proof -
  let ?u = "encode_utf16 n" let ?n = "div_ceil (length ?u) 13"
  note u = name_ok_units [OF n(1)]
  have c: "0 < ?n" "?n \<le> 20" using u div_ceil_13 [of "length ?u"] by (auto simp: is_long_name_def)
  have sc: "list_all is_scalar n" using n(1) by (simp add: name_ok_def)
  note sh = short_ok_fields [OF n(2,3) sc]
  obtain l1 where l1: "walk_entries collector long (l, k) (s, v) = (Ok (Some (l1, k + length long)), (s, v))"
    and nm: "(case lfn_name l1 sh of Some nm \<Rightarrow> Some nm | None \<Rightarrow> short_name sh 0) = Some ?u"
  proof (cases so)
    case None
    have "walk_entries collector long (l, k) (s, v) = (Ok (Some (lfn_partial ?u ?n (checksum sh) 0, k + length long)), (s, v))"
      using None long k c walk_pieces [OF u c(2) order_refl c(1), of l "checksum sh" k collector "(s, v)"] by simp
    moreover have "lfn_name (lfn_partial ?u ?n (checksum sh) 0) sh = Some ?u"
      by (rule complete_name [OF u refl]) (simp add: checksum_eq)
    ultimately show ?thesis using that by simp
  next
    case (Some p)
    then have "short_name sh 0 = Some ?u" using n plain_shortD(3) [OF _ sc, of sh] by (auto simp: short_ok_def)
    moreover have "lfn_name l sh = None" using k(2) by (simp add: lfn_name_def)
    ultimately show ?thesis using that [of l] long Some by (simp add: lift_def)
  qed
  have "walk_entry collector (short_image sh attr cl sz) (l1, k + length long) (s, v)
    = (Ok (Some (lfn_reset l1, Suc (k + length long))), (s, v @ [\<lparr>de_name = ?u, de_is_dir = (attr AND 0x10 \<noteq> 0),
        de_size = sz, de_cluster = cl\<rparr>]))"
    using walk_short [OF sh(1) e(1,2) k(1) sh(2,3) e(3) nm, of collector s v] by (simp add: collector_def)
  then show ?thesis
    using l1 by (intro exI [of _ "lfn_reset l1"]) (simp add: walk_entries_append ibind_Ok lift_def lfn_reset_def)
qed

definition long_part :: "str \<Rightarrow> bytes option \<Rightarrow> bytes \<Rightarrow> bytes list" where
  "long_part n so sh = (if so = None
     then map (lfn_piece (encode_utf16 n) (div_ceil (length (encode_utf16 n)) 13) (checksum sh))
       (rev [0..<div_ceil (length (encode_utf16 n)) 13])
     else [])"

lemma write_child_form:
  assumes "write_child g n c sh w = (Ok (es, sub), w')" "name_ok n"
    and "plain_short n = (Ok so :: (img_error, bytes option) res)" "short_ok so sh"
  shows "\<exists>attr cl sz. es = long_part n so sh @ [short_image sh attr cl sz] \<and> cl < u32_lim \<and> sz < u32_lim
    \<and> attr \<in> {0x10, 0x20} \<and> (encode_utf16 n, attr AND 0x10 \<noteq> 0, sz) = describe (n, c)
    \<and> sub = (if attr AND 0x10 \<noteq> 0 then Some cl else None)"
proof -
  have len: "length sh = 11" using short_ok_fields [OF assms(3,4)] assms(2) by (simp add: name_ok_def)
  note unf = write_child_def assms(3) ibind_def lift_def lfn_entries_pieces short_entry_image len long_part_def
  show ?thesis
  proof (cases c)
    case (SubDir d)
    obtain m cl w1 where "alloc g m w = (Ok cl, w1)" "es = long_part n so sh @ [short_image sh 0x10 cl 0]" "sub = Some cl"
      using assms(1) SubDir by (auto simp: unf IMG_ATTR_DIR_def split: prod.splits res.splits if_splits)
    then show ?thesis using SubDir
      by (intro exI [of _ "0x10"] exI [of _ cl] exI [of _ 0]) (auto simp: describe_def dest: alloc_lim)
  next
    case (FileData f)
    obtain cl where "cl < u32_lim" "es = long_part n so sh @ [short_image sh 0x20 cl (length f)]" "sub = None" "length f < u32_lim"
      using assms(1) FileData
      by (auto simp: unf ATTR_ARCHIVE_def split: prod.splits res.splits if_splits dest: alloc_lim) force+
    then show ?thesis using FileData
      by (intro exI [of _ "0x20"] exI [of _ cl] exI [of _ "length f"]) (auto simp: describe_def)
  qed
qed

lemma write_child_spec:
  assumes "write_child g n c sh w = (Ok (es, sub), w')" "name_ok n"
    and "plain_short n = (Ok so :: (img_error, bytes option) res)" "short_ok so sh"
    and k: "k + length es \<le> 65536" "\<not> lf_ok l"
  shows "\<exists>l' d. \<not> lf_ok l' \<and> walk_entries collector es (l, k) (s, v) = (Ok (Some (l', k + length es)), (s, v @ [d]))
    \<and> shown d = describe (n, c) \<and> sub = (if de_is_dir d then Some (de_cluster d) else None)"
proof -
  from write_child_form [OF assms(1-4)] obtain attr cl sz
    where e: "es = long_part n so sh @ [short_image sh attr cl sz]" "cl < u32_lim" "sz < u32_lim" "attr \<in> {0x10, 0x20}"
      "(encode_utf16 n, attr AND 0x10 \<noteq> 0, sz) = describe (n, c)" "sub = (if attr AND 0x10 \<noteq> 0 then Some cl else None)"
    by blast
  have "k + length (long_part n so sh) < 65536" using k(1) e(1) by simp
  from walk_named [OF assms(2-4) long_part_def e(2-4) this k(2), of s v] obtain l' where l': "\<not> lf_ok l'"
    "walk_entries collector es (l, k) (s, v) = (Ok (Some (l', k + length es)), (s, v @ [\<lparr>de_name = encode_utf16 n,
       de_is_dir = (attr AND 0x10 \<noteq> 0), de_size = sz, de_cluster = cl\<rparr>]))"
    unfolding e(1) length_append_singleton by blast
  show ?thesis
    by (rule exI [of _ l'], rule exI, intro conjI, rule l'(1), rule l'(2)) (use e(5,6) in \<open>simp_all add: shown_def\<close>)
qed

lemma write_child_slots:
  assumes "write_child g n c sh w = (Ok (es, sub), w')" "name_ok n"
    and "plain_short n = (Ok so :: (img_error, bytes option) res)" "short_ok so sh"
  shows "name_slots n = (Ok (length es) :: (img_error, nat) res)" "list_all (\<lambda>e. length e = 32) es"
proof -
  have len: "length sh = 11" using short_ok_fields [OF assms(3,4)] assms(2) by (simp add: name_ok_def)
  from write_child_form [OF assms(1-4)] obtain attr cl sz where e: "es = long_part n so sh @ [short_image sh attr cl sz]"
    "cl < u32_lim" "sz < u32_lim" by blast
  show "name_slots n = (Ok (length es) :: (img_error, nat) res)"
    by (simp add: name_slots_def assms(3) e(1) long_part_def fat_consts)
  show "list_all (\<lambda>e. length e = 32) es"
    using short_image_fields(5) [OF len e(2,3)]
    by (auto simp: e(1) long_part_def list_all_iff lfn_piece_def byte_at_image)
qed

lemma write_children_spec:
  assumes "write_children g (zip cs shs) w = (Ok (es, subs), w')" "length cs = length shs"
    and "list_all2 (\<lambda>n sh. \<exists>so. plain_short n = (Ok so :: (img_error, bytes option) res) \<and> short_ok so sh) (map fst cs) shs"
    and "list_all (\<lambda>c. name_ok (fst c)) cs" "k + length es \<le> 65536" "\<not> lf_ok l"
  shows "\<exists>l' ds. \<not> lf_ok l' \<and> walk_entries collector es (l, k) (s, v) = (Ok (Some (l', k + length es)), (s, v @ ds))
    \<and> map shown ds = map describe cs \<and> map de_cluster (filter de_is_dir ds) = subs"
  using assms
proof (induction cs arbitrary: shs w es subs k l v)
  case Nil
  then show ?case by (auto simp: lift_def)
next
  case (Cons nc cs)
  obtain n c where nc: "nc = (n, c)" by (cases nc)
  obtain sh shs' where sh: "shs = sh # shs'" using Cons.prems(2) by (cases shs) auto
  obtain es1 sub w1 es2 subs2 where w1: "write_child g n c sh w = (Ok (es1, sub), w1)"
    and w2: "write_children g (zip cs shs') w1 = (Ok (es2, subs2), w')"
    and es: "es = es1 @ es2" "subs = (case sub of Some k \<Rightarrow> [k] | None \<Rightarrow> []) @ subs2"
    using Cons.prems(1) unfolding nc sh
    by (auto simp: ibind_def lift_def split: prod.splits res.splits)
  from Cons.prems(3) obtain so where so: "plain_short n = (Ok so :: (img_error, bytes option) res)" "short_ok so sh"
    by (auto simp: nc sh)
  have n: "name_ok n" using Cons.prems(4) by (simp add: nc)
  have "k + length es1 \<le> 65536" using Cons.prems(5) es(1) by simp
  from write_child_spec [OF w1 n so this Cons.prems(6), of s v] obtain l1 d
    where d: "\<not> lf_ok l1" "walk_entries collector es1 (l, k) (s, v) = (Ok (Some (l1, k + length es1)), (s, v @ [d]))"
      "shown d = describe (n, c)" "sub = (if de_is_dir d then Some (de_cluster d) else None)" by blast
  from Cons.IH [OF w2, of "k + length es1" l1 "v @ [d]"] Cons.prems d(1) es obtain l2 ds
    where ds: "\<not> lf_ok l2" "walk_entries collector es2 (l1, k + length es1) (s, (v @ [d])) = (Ok (Some (l2, k + length es1 + length es2)), (s, (v @ [d]) @ ds))"
      "map shown ds = map describe cs" "map de_cluster (filter de_is_dir ds) = subs2"
    by (auto simp: nc sh)
  show ?case
    using d ds es by (intro exI [of _ l2] exI [of _ "d # ds"]) (simp add: walk_entries_append ibind_Ok nc)
qed

lemma dot_names:
  "short_name (0x2e # replicate 10 0x20) 0 = Some [CH_DOT]"
  "short_name (0x2e # 0x2e # replicate 9 0x20) 0 = Some [CH_DOT, CH_DOT]"
  by code_simp+

lemma dot_entries_spec:
  assumes "dot_entries cluster parent = (Ok es :: (img_error, bytes list) res)" "cluster < u32_lim" "parent < u32_lim"
  shows "\<exists>l' ds. \<not> lf_ok l' \<and> walk_entries collector es (lfn_new, 0) (s, []) = (Ok (Some (l', length es)), (s, ds))
    \<and> ds = (if cluster = ROOT_CLUSTER then [] else
        [\<lparr>de_name = [CH_DOT], de_is_dir = True, de_size = 0, de_cluster = cluster\<rparr>,
         \<lparr>de_name = [CH_DOT, CH_DOT], de_is_dir = True, de_size = 0, de_cluster = if parent = ROOT_CLUSTER then 0 else parent\<rparr>])"
proof (cases "cluster = ROOT_CLUSTER")
  case True
  with assms(1) show ?thesis by (auto simp: dot_entries_def lift_def lfn_new_def)
next
  case False
  let ?p = "if parent = ROOT_CLUSTER then 0 else parent"
  have es: "es = [short_image (0x2e # replicate 10 0x20) 0x10 cluster 0, short_image (0x2e # 0x2e # replicate 9 0x20) 0x10 ?p 0]"
    using assms(1) False by (simp add: dot_entries_def short_entry_image IMG_ATTR_DIR_def)
  have l: "lfn_name l sh = None" if "\<not> lf_ok l" for l sh using that by (simp add: lfn_name_def)
  have p: "?p < u32_lim" using assms(3) by simp
  have "walk_entries collector es (lfn_new, 0) (s, []) = (Ok (Some (lfn_reset (lfn_reset lfn_new), length es)), (s,
      [\<lparr>de_name = [CH_DOT], de_is_dir = True, de_size = 0, de_cluster = cluster\<rparr>,
       \<lparr>de_name = [CH_DOT, CH_DOT], de_is_dir = True, de_size = 0, de_cluster = ?p\<rparr>]))"
    using False assms(2) p unfolding es
    by (simp add: ibind_Ok walk_short dot_names l lfn_new_def lfn_reset_def collector_def lift_def)
  then show ?thesis using False by (auto simp: lfn_reset_def)
qed

lemma write_children_slots:
  assumes "write_children g (zip cs shs) w = (Ok (es, subs), w')" "length cs = length shs"
    and "list_all2 (\<lambda>n sh. \<exists>so. plain_short n = (Ok so :: (img_error, bytes option) res) \<and> short_ok so sh) (map fst cs) shs"
    and "list_all (\<lambda>c. name_ok (fst c)) cs"
  shows "list_all (\<lambda>e. length e = 32) es
    \<and> (\<exists>ns. collect name_slots (map fst cs) = (Ok ns :: (img_error, nat list) res) \<and> length es = sum_list ns)"
  using assms
proof (induction cs arbitrary: shs w es subs)
  case Nil
  then show ?case by (auto simp: lift_def)
next
  case (Cons nc cs)
  obtain n c where nc: "nc = (n, c)" by (cases nc)
  obtain sh shs' where sh: "shs = sh # shs'" using Cons.prems(2) by (cases shs) auto
  obtain es1 sub w1 es2 subs2 where w1: "write_child g n c sh w = (Ok (es1, sub), w1)"
    and w2: "write_children g (zip cs shs') w1 = (Ok (es2, subs2), w')" and es: "es = es1 @ es2"
    using Cons.prems(1) unfolding nc sh by (auto simp: ibind_def lift_def split: prod.splits res.splits)
  from Cons.prems(3) obtain so where so: "plain_short n = (Ok so :: (img_error, bytes option) res)" "short_ok so sh"
    by (auto simp: nc sh)
  from Cons.IH [OF w2] Cons.prems(2-4) obtain ns where "list_all (\<lambda>e. length e = 32) es2"
    "collect name_slots (map fst cs) = (Ok ns :: (img_error, nat list) res)" "length es2 = sum_list ns"
    by (auto simp: nc sh)
  with write_child_slots [OF w1 _ so] Cons.prems(4) show ?case by (auto simp: nc es)
qed

lemma chunks_concat: "list_all (\<lambda>e. length e = n) es \<Longrightarrow> 0 < n \<Longrightarrow> chunks_exact n (concat es) = es"
  by (induction es) (auto simp: chunks_exact.simps [of n])

lemma concat_length: "list_all (\<lambda>e. length e = n) es \<Longrightarrow> length (concat es) = n * length es"
  by (induction es) simp_all

section \<open>Geometry\<close>

lemma img_consts:
  "IMG_SECTOR = 512" "RESERVED_SECTORS = 32" "NUM_FATS = 2" "ROOT_CLUSTER = 2" "IMG_FIRST_CLUSTER = 2"
  "MIN_CLUSTERS = 65525" "FAT_ENTRY = 4"
  by (simp_all add: IMG_SECTOR_def RESERVED_SECTORS_def NUM_FATS_def ROOT_CLUSTER_def IMG_FIRST_CLUSTER_def
      MIN_CLUSTERS_def FAT_ENTRY_def)

definition geometry_ok :: "geometry \<Rightarrow> bool" where
  "geometry_ok g \<longleftrightarrow> g_spc g \<in> {1, 8} \<and> 32 + 2 * g_fat_sectors g + g_clusters g * g_spc g \<le> g_total g
     \<and> g_total g - (32 + 2 * g_fat_sectors g) < (g_clusters g + 1) * g_spc g
     \<and> (g_clusters g + 2) * 4 \<le> g_fat_sectors g * 512 \<and> 65525 \<le> g_clusters g \<and> g_total g < u32_lim"

lemma geometry_loop_wp:
  assumes "spc \<in> {1, 8}" "tot div spc \<le> 2 ^ 29" "fat \<le> 2 ^ 22 + 1" "tot < u32_lim"
  shows "wp (geometry_loop tot spc fat) (\<lambda>g. geometry_ok g \<and> g_total g = tot \<and> g_spc g = spc)"
  using assms(3)
proof (induction "Suc tot - fat" arbitrary: fat rule: less_induct)
  case less
  have n: "(tot - x) div spc \<le> 2 ^ 29" for x using assms(2) div_le_mono [of "tot - x" tot spc] by simp
  have again: "wp (geometry_loop tot spc (Suc fat)) (\<lambda>g. geometry_ok g \<and> g_total g = tot \<and> g_spc g = spc)"
    if "32 + 2 * fat \<le> tot" "fat * 512 < ((tot - (32 + 2 * fat)) div spc + 2) * 4"
    using that n [of "32 + 2 * fat"] by (intro less.hyps) auto
  have spc: "0 < spc" using assms(1) by auto
  have q: "x \<le> tot \<Longrightarrow> x + (tot - x) div spc * spc \<le> tot" "tot - x < ((tot - x) div spc + 1) * spc" for x
    using div_times_less_eq_dividend [of "tot - x" spc] dividend_less_div_times [OF spc, of "tot - x"]
    by (linarith, simp add: algebra_simps)
  show ?case
    using less.prems n [of "32 + 2 * fat"] assms(1,4) again q [of "32 + 2 * fat"]
    by (subst geometry_loop.simps)
       (auto simp: img_consts checked_sub_def Let_def geometry_ok_def not_le algebra_simps split: if_splits)
qed

lemma geometry_new_wp:
  assumes "tot < u32_lim"
  shows "wp (geometry_new tot) (\<lambda>g. geometry_ok g \<and> g_total g = tot)"
proof -
  have "tot * 512 \<le> 260 * 2 ^ 20 \<Longrightarrow> tot div 1 \<le> 2 ^ 29" by simp
  moreover have "tot div 8 \<le> 2 ^ 29" using assms by simp
  ultimately show ?thesis
    unfolding geometry_new_def img_consts using assms
    by (auto intro!: wp_conseq [OF geometry_loop_wp])
qed

section \<open>Sectors laid out field by field\<close>

fun lay :: "nat \<Rightarrow> (nat \<times> bytes) list \<Rightarrow> nat \<Rightarrow> bytes" where
  "lay pos [] n = replicate (n - pos) 0"
| "lay pos ((at, v) # ps) n = replicate (at - pos) 0 @ v @ lay (at + length v) ps n"

fun ascending :: "nat \<Rightarrow> (nat \<times> bytes) list \<Rightarrow> nat \<Rightarrow> bool" where
  "ascending pos [] n = (pos \<le> n)"
| "ascending pos ((at, v) # ps) n = (pos \<le> at \<and> ascending (at + length v) ps n)"

lemma ascending_le: "ascending pos ps n \<Longrightarrow> pos \<le> n"
  by (induction pos ps n rule: ascending.induct) auto

lemma puts_lay:
  "ascending (length pre) ps n \<Longrightarrow> puts (pre @ replicate (n - length pre) 0) ps = (Ok (pre @ lay (length pre) ps n) :: ('e, bytes) res)"
proof (induction ps arbitrary: pre)
  case (Cons p ps)
  obtain at v where p: "p = (at, v)" by (cases p)
  have at: "length pre \<le> at" "ascending (at + length v) ps n" "at + length v \<le> n"
    using Cons.prems ascending_le by (auto simp: p)
  then have "put (pre @ replicate (n - length pre) 0) at v =
      (Ok ((pre @ replicate (at - length pre) 0 @ v) @ replicate (n - length (pre @ replicate (at - length pre) 0 @ v)) 0) :: ('e, bytes) res)"
    by (simp add: put_def overwrite_def)
  with Cons.IH [of "pre @ replicate (at - length pre) 0 @ v"] at show ?case
    by (simp add: p puts_def)
qed (simp add: puts_def)

lemma r_cons: "r_u8 (a # r) = Some (unat a, r)" "r_u16_le (a # b # r) = Some (le_val [a, b], r)"
  by (simp_all add: r_u8_def r_u16_le_def rarray_def rtake_def)

lemma boot_consts:
  "JMP_SHORT = 0xEB" "JMP_NOP = 0x90" "JMP_NOP_OFFSET = 2" "BOOT_SIGNATURE_OFFSET = 510" "BOOT_SIGNATURE = [0x55, 0xAA]"
  "BYTES_PER_SECTOR = 11" "GEOMETRY_LEN = 8" "BOOT_SIG = 66" "EXTENDED_BOOT_SIG = 0x29" "FS_TYPE = 82"
  "FS_TYPE_FAT32 = map of_char ''FAT32   ''" "MEDIA_REMOVABLE = 0xF0" "MEDIA_MIN_FIXED = 0xF8"
  by (simp_all add: JMP_SHORT_def JMP_NOP_def JMP_NOP_OFFSET_def BOOT_SIGNATURE_OFFSET_def BOOT_SIGNATURE_def
      BYTES_PER_SECTOR_def GEOMETRY_LEN_def BOOT_SIG_def EXTENDED_BOOT_SIG_def FS_TYPE_def FS_TYPE_FAT32_def
      MEDIA_REMOVABLE_def MEDIA_MIN_FIXED_def Fat32BootSector_def)

lemma get_range_all: "length s = n \<Longrightarrow> get_range s 0 n = Some s"
  by (simp add: get_range_def)

lemma boot_sector_parses:
  assumes g: "geometry_ok g" and lab: "length lab = 11"
  shows "\<exists>b. boot_sector g serial lab = Ok b \<and> length b = 512 \<and> parse_fat32 b (g_total g * 512) = Ok
    \<lparr>bytes_per_sector = 512, sectors_per_cluster = g_spc g, reserved_sectors = 32, fats = 2,
     fat_sectors = g_fat_sectors g, total_sectors = g_total g, root_cluster = 2, clusters = g_clusters g\<rparr>"
proof -
  let ?ps = "[(0, BS_JMP), (3, map of_char ''MSWIN4.1''), (11, le_bytes 2 (IMG_SECTOR mod u16_lim)),
      (13, [word_of_nat (g_spc g)]), (14, le_bytes 2 (RESERVED_SECTORS mod u16_lim)), (16, [word_of_nat NUM_FATS]),
      (21, [MEDIA]), (24, le_bytes 2 63), (26, le_bytes 2 255), (32, le_bytes 4 (g_total g)),
      (36, le_bytes 4 (g_fat_sectors g)), (44, le_bytes 4 ROOT_CLUSTER), (48, le_bytes 2 FS_INFO_SECTOR),
      (50, le_bytes 2 BACKUP_BOOT_SECTOR), (64, [0x80]), (66, [0x29]), (67, le_bytes 4 serial), (71, lab),
      (82, map of_char ''FAT32   ''), (510, [0x55]), (511, [0xAA])]"
  have b: "boot_sector g serial lab = (Ok (lay 0 ?ps 512) :: ('e, bytes) res)"
    using puts_lay [of "[]" ?ps 512, where 'e = 'e] lab by (simp add: boot_sector_def img_consts BS_JMP_def)
  have l: "length (lay 0 ?ps 512) = 512" using lab by (simp add: BS_JMP_def)
  have d: "g_clusters g * g_spc g \<le> g_total g - (32 + 2 * g_fat_sectors g)" "32 + 2 * g_fat_sectors g \<le> g_total g"
    "g_total g - (32 + 2 * g_fat_sectors g) < (g_clusters g + 1) * g_spc g" "g_spc g \<in> {1, 8}" "65525 \<le> g_clusters g"
    "g_total g < u32_lim" "(g_clusters g + 2) * 4 \<le> g_fat_sectors g * 512"
    using g by (auto simp: geometry_ok_def)
  have q: "(g_total g - (32 + 2 * g_fat_sectors g)) div g_spc g = g_clusters g"
    using d by (intro div_nat_eqI) (auto simp: algebra_simps)
  have geo: "fat32_geometry (g_total g * 512) 512 (g_spc g) 32 2 (g_total g) (g_fat_sectors g) 2 = Ok
    \<lparr>bytes_per_sector = 512, sectors_per_cluster = g_spc g, reserved_sectors = 32, fats = 2,
     fat_sectors = g_fat_sectors g, total_sectors = g_total g, root_cluster = 2, clusters = g_clusters g\<rparr>"
    using d q by (auto simp: fat32_geometry_def mul64_def add64_def checked_sub_def disk_consts Let_def)
  have spc: "unat (word_of_nat (g_spc g) :: byte) = g_spc g" "is_power_of_two (g_spc g)" "g_spc g * 512 \<le> 4096"
    using d(4) by (auto simp: is_power_of_two_def)
  have parse: "parse_fat32 (lay 0 ?ps 512) (g_total g * 512) = fat32_geometry (g_total g * 512) 512 (g_spc g) 32 2 (g_total g) (g_fat_sectors g) 2"
  proof -
    let ?S = "lay 0 ?ps 512"
    let ?tail = "le_bytes 2 FS_INFO_SECTOR @ le_bytes 2 BACKUP_BOOT_SECTOR @ replicate 12 0 @ [0x80, 0, 0x29] @ le_bytes 4 serial @ lab
      @ map of_char ''FAT32   '' @ replicate 420 0 @ [0x55, 0xAA]"
    let ?G = "le_bytes 2 63 @ le_bytes 2 255 @ le_bytes 2 0 @ le_bytes 2 0"
    let ?R = "le_bytes 2 512 @ word_of_nat (g_spc g) # le_bytes 2 32 @ 2 # le_bytes 2 0 @ le_bytes 2 0 @ MEDIA # le_bytes 2 0 @ ?G
      @ le_bytes 4 (g_total g) @ le_bytes 4 (g_fat_sectors g) @ le_bytes 2 0 @ le_bytes 2 0 @ le_bytes 4 2 @ ?tail"
    have z: "replicate 4 (0 :: byte) = le_bytes 2 0 @ le_bytes 2 0" "replicate 2 (0 :: byte) = le_bytes 2 0"
      by (simp_all add: le_bytes_zero flip: replicate_add)
    have S: "?S = BS_JMP @ map of_char ''MSWIN4.1'' @ ?R"
      using lab by (simp add: BS_JMP_def img_consts z)
    have R: "get_range ?S 11 512 = Some ?R" "length ?R = 501"
      unfolding S using lab by (simp_all add: BS_JMP_def get_range_def)
    have at: "nth_opt ?S 0 = Some 0xEB" "nth_opt ?S 2 = Some 0x90" "nth_opt ?S 66 = Some 0x29"
      "get_range ?S 510 512 = Some [0x55, 0xAA]" "get_range ?S 82 90 = Some (map of_char ''FAT32   '')"
      unfolding S using lab by (simp_all add: BS_JMP_def nth_opt_def get_range_def nth_append)
    have all: "get_range ?S 0 512 = Some ?S" by (rule get_range_all [OF l])
    define S where "S = ?S"
    have S0: "S \<noteq> []" "length S = 512" unfolding S_def using l by (auto simp del: lay.simps)
    have lim: "g_fat_sectors g < u32_lim" using d(2,6) by linarith
    show ?thesis
      using spc d(6) lim S0 R at all unfolding S_def [symmetric]
      by (simp add: parse_fat32_def disk_consts boot_consts Let_def reader_new_def r_cons rtake_def mul32_def MEDIA_def
          nth_opt_def)
  qed
  show ?thesis using b l geo parse by auto
qed

section \<open>The properties\<close>

text \<open>
  C31.  For a directory with valid, distinct names, as the tree keeps them, and of no more bytes than the reader's
  65536 entries: writing it lays its entries down at its cluster so that the directory reader of
  \<open>paguro-core\<close>, walking over those bytes, reports exactly the dot entries and the children in order: the
  full name, file or directory, the size, and for a subdirectory the cluster reserved for it.  The bytes
  reserved for the directory leave room for the end mark.
\<close>

theorem written_directory_lists:
  assumes "list_all (\<lambda>c. name_ok (fst c)) (children d)" "distinct (map fst (children d))"
    and "write_dir_entries g d cluster parent w = (Ok subs, w')" "cluster < u32_lim" "parent < u32_lim"
    and "dir_bytes d = (Ok m :: (img_error, nat) res)" "m \<le> 65536 * DIR_ENTRY"
  shows "\<exists>at b r ds dots. cluster_offset g cluster = (Ok at :: (img_error, nat) res)
    \<and> get_range (w_img w') at (at + length b) = Some b \<and> length b + DIR_ENTRY \<le> m
    \<and> walk_entries collector (chunks_exact DIR_ENTRY_LEN b) (lfn_new, 0) (s, []) = (Ok (Some r), (s, dots @ ds))
    \<and> map de_name dots = (if cluster = ROOT_CLUSTER then [] else [[CH_DOT], [CH_DOT, CH_DOT]])
    \<and> map shown ds = map describe (children d) \<and> map de_cluster (filter de_is_dir ds) = subs"
proof -
  obtain dots shorts es w1 where dots: "dot_entries cluster parent = (Ok dots :: (img_error, bytes list) res)"
    and shorts: "shorts_of (map fst (children d)) = (Ok shorts :: (img_error, bytes list) res)"
    and es: "write_children g (zip (children d) shorts) w = (Ok (es, subs), w1)"
    and w': "write_at g cluster (concat (dots @ es)) w1 = (Ok (), w')"
    using assms(3) by (auto simp: write_dir_entries_def ibind_def lift_def split: prod.splits res.splits)
  let ?b = "concat (dots @ es)"
  have "list_all (list_all is_scalar) (map fst (children d))"
    using assms(1) by (auto simp: list_all_iff name_ok_def)
  from shorts_of_spec [OF shorts assms(2) this]
  have good: "list_all2 (\<lambda>n sh. \<exists>so. plain_short n = (Ok so :: (img_error, bytes option) res) \<and> short_ok so sh) (map fst (children d)) shorts"
    by blast
  then have len: "length (children d) = length shorts" by (auto dest: list_all2_lengthD)
  from write_children_slots [OF es len good assms(1)] obtain ns
    where es32: "list_all (\<lambda>e. length e = 32) es" and ns: "length es = sum_list ns"
      "collect name_slots (map fst (children d)) = (Ok ns :: (img_error, nat list) res)" by blast
  have "map fst (children d) = map fst (dirs d) @ map fst (files d)" by (simp add: children_def case_prod_beta comp_def)
  then have m: "m = (length es + 3) * 32"
    using assms(6) ns by (auto simp: dir_bytes_def mul64_def fat_consts split: if_splits)
  have d32: "list_all (\<lambda>e. length e = 32) dots" "length dots \<le> 2"
    using dots assms(4,5) short_image_fields(5)
    by (auto simp: dot_entries_def short_entry_image split: if_splits)
  obtain at where at: "cluster_offset g cluster = (Ok at :: (img_error, nat) res)" "get_range (w_img w') at (at + length ?b) = Some ?b"
    using w' by (auto simp: write_at_def img_put_def put_def overwrite_def ibind_def lift_def get_range_def
        split: prod.splits res.splits if_splits)
  have len_b: "length ?b = 32 * length (dots @ es)" using es32 d32(1) by (intro concat_length) simp
  from dot_entries_spec [OF dots assms(4,5), of s] obtain l1 dd where dd: "\<not> lf_ok l1"
    "walk_entries collector dots (lfn_new, 0) (s, []) = (Ok (Some (l1, length dots)), (s, dd))"
    "map de_name dd = (if cluster = ROOT_CLUSTER then [] else [[CH_DOT], [CH_DOT, CH_DOT]])"
    by (cases "cluster = ROOT_CLUSTER") auto
  have "length dots + length es \<le> 65536" using assms(7) m d32(2) by (simp add: fat_consts)
  from write_children_spec [OF es len good assms(1) this dd(1), of s dd] obtain l2 ds
    where ds: "walk_entries collector es (l1, length dots) (s, dd) = (Ok (Some (l2, length dots + length es)), (s, dd @ ds))"
      "map shown ds = map describe (children d)" "map de_cluster (filter de_is_dir ds) = subs" by blast
  have "walk_entries collector (chunks_exact DIR_ENTRY_LEN ?b) (lfn_new, 0) (s, []) =
      (Ok (Some (l2, length dots + length es)), (s, dd @ ds))"
    using es32 d32(1) dd(2) ds(1) by (subst chunks_concat) (simp_all add: fat_consts walk_entries_append ibind_Ok)
  with at len_b m d32(2) dd(3) ds(2,3) show ?thesis
    by (intro exI [of _ at] exI [of _ ?b] exI [of _ "(l2, length dots + length es)"] exI [of _ ds] exI [of _ dd])
       (simp add: fat_consts)
qed


definition sample_dir :: img_dir where "sample_dir = Dir [] [([65], [])]"

definition sample_geometry :: geometry where
  "sample_geometry = \<lparr>g_total = 100, g_spc = 1, g_fat_sectors = 1, g_clusters = 66\<rparr>"

definition sample_writer :: img_writer where
  "sample_writer = \<lparr>w_img = replicate 51200 0, w_next = 3\<rparr>"

lemma sample_children: "children sample_dir = [([65], FileData [])]"
  by (simp add: children_def sample_dir_def)

lemma sample_short: "plain_short [65] = Ok (Some (65 # replicate 10 0x20))"
  by (simp add: plain_short_def CH_DOT_def short_part_def str_len_def as_bytes_def utf8_char_def puts_def put_def
      overwrite_def spaces_def) (simp flip: replicate_add)

lemma sample_written: "\<exists>w'. write_dir_entries sample_geometry sample_dir 2 2 sample_writer = (Ok [], w')"
  by (simp add: write_dir_entries_def sample_children shorts_of_def sample_short dot_entries_def ROOT_CLUSTER_def ibind_def
      lift_def write_child_def short_entry_image write_at_def cluster_offset_def mul32_def add32_def sub64_def mul64_def
      sample_geometry_def img_consts img_put_def put_def sample_writer_def short_image_def)

theorem written_directory_lists_witness:
  "\<exists>w' at b r ds dots. write_dir_entries sample_geometry sample_dir 2 2 sample_writer = (Ok [], w')
    \<and> cluster_offset sample_geometry 2 = (Ok at :: (img_error, nat) res)
    \<and> get_range (w_img w') at (at + length b) = Some b
    \<and> walk_entries collector (chunks_exact DIR_ENTRY_LEN b) (lfn_new, 0) ((), []) = (Ok (Some r), ((), dots @ ds))
    \<and> map shown ds = [([65], False, 0)]"
proof -
  obtain w' where w': "write_dir_entries sample_geometry sample_dir 2 2 sample_writer = (Ok [], w')"
    using sample_written by blast
  have m: "dir_bytes sample_dir = (Ok 128 :: (img_error, nat) res)"
    by (simp add: dir_bytes_def sample_dir_def name_slots_def sample_short mul64_def fat_consts)
  have n: "list_all (\<lambda>c. name_ok (fst c)) (children sample_dir)" "distinct (map fst (children sample_dir))"
    by (simp_all add: sample_children name_ok_def valid_name_def str_len_def as_bytes_def utf8_char_def is_scalar_def CH_DOT_def)
  have d: "map describe (children sample_dir) = [([65], False, 0)]"
    by (simp add: sample_children describe_def encode_utf16_def utf16_char_def)
  have l: "(2 :: nat) < u32_lim" "128 \<le> 65536 * DIR_ENTRY" by (simp_all add: fat_consts)
  from written_directory_lists [OF n w' l(1) l(1) m l(2), of "()"] obtain at b r ds dots
    where "cluster_offset sample_geometry 2 = (Ok at :: (img_error, nat) res)"
      "get_range (w_img w') at (at + length b) = Some b"
      "walk_entries collector (chunks_exact DIR_ENTRY_LEN b) (lfn_new, 0) ((), []) = (Ok (Some r), ((), dots @ ds))"
      "map shown ds = [([65], False, 0)]" unfolding d by (elim exE conjE) (rule that)
  with w' show ?thesis by (intro exI conjI)
qed

text \<open>
  C32.  For every number of sectors the geometry is found without overflow or is refused, and the boot
  sector written for it is one the loader's parser accepts, with the same geometry.
\<close>

theorem image_boot_sector_accepted:
  assumes "tot < u32_lim"
  shows "wp (geometry_new tot) (\<lambda>g. \<exists>lab b. volume_label label = (Ok lab :: (img_error, bytes) res)
    \<and> boot_sector g serial lab = (Ok b :: (img_error, bytes) res)
    \<and> parse_fat32 b (tot * IMG_SECTOR) = Ok
        \<lparr>bytes_per_sector = IMG_SECTOR, sectors_per_cluster = g_spc g, reserved_sectors = RESERVED_SECTORS,
         fats = NUM_FATS, fat_sectors = g_fat_sectors g, total_sectors = tot, root_cluster = ROOT_CLUSTER,
         clusters = g_clusters g\<rparr>)"
proof (rule wp_conseq [OF geometry_new_wp [OF assms]])
  fix g
  assume g: "geometry_ok g \<and> g_total g = tot"
  let ?v = "map ascii_upper (take 11 (as_bytes label))"
  have lab: "volume_label label = (Ok (overwrite spaces 0 ?v) :: (img_error, bytes) res)" "length (overwrite spaces 0 ?v) = 11"
    by (simp_all add: volume_label_def put_def spaces_def overwrite_def)
  from boot_sector_parses [of g, OF _ lab(2)] g lab(1)
  show "\<exists>lab b. volume_label label = (Ok lab :: (img_error, bytes) res)
    \<and> boot_sector g serial lab = (Ok b :: (img_error, bytes) res)
    \<and> parse_fat32 b (tot * IMG_SECTOR) = Ok
        \<lparr>bytes_per_sector = IMG_SECTOR, sectors_per_cluster = g_spc g, reserved_sectors = RESERVED_SECTORS,
         fats = NUM_FATS, fat_sectors = g_fat_sectors g, total_sectors = tot, root_cluster = ROOT_CLUSTER,
         clusters = g_clusters g\<rparr>"
    unfolding img_consts by blast
qed

theorem image_boot_sector_accepted_witness:
  "wp (geometry_new 133120) (\<lambda>g. \<exists>lab b. volume_label [80] = (Ok lab :: (img_error, bytes) res)
    \<and> boot_sector g 1 lab = (Ok b :: (img_error, bytes) res) \<and> wp (parse_fat32 b (133120 * IMG_SECTOR)) (\<lambda>f. clusters f = g_clusters g))"
proof -
  have "(133120 :: nat) < u32_lim" by simp
  from image_boot_sector_accepted [OF this, of "[80]" 1] show ?thesis by (rule wp_conseq) fastforce
qed

end
