(* ===== verification/Fve.thy ===== *)
theory Fve
  imports Bytes Layout
begin

text \<open>
  The BitLocker signature and the walk of the FVE metadata entries,
  \<open>crates/paguro-core/src/fve.rs\<close>.  The walk accepts exactly the concatenations of well-formed
  entries, up to the end of the region or an entry of size zero, that fit the output.
\<close>

section \<open>Model\<close>

definition FVE_SIGNATURE :: bytes where
  "FVE_SIGNATURE = [0x2d, 0x46, 0x56, 0x45, 0x2d, 0x46, 0x53, 0x2d]"

definition fve_entry_header :: layout where
  "fve_entry_header = [(''size'', 2), (''entry_type'', 2), (''value_type'', 2), (''version'', 2)]"

definition ENTRY_HEADER_LEN :: nat where "ENTRY_HEADER_LEN = size_of fve_entry_header"

record fve_entry =
  fe_entry_type :: nat
  fe_value_type :: nat
  fe_version :: nat
  fe_data :: bytes

datatype fve_error = FveBadSignature | EntryTooSmall | EntryOverruns | FveTooManyEntries

definition check_signature :: "bytes \<Rightarrow> (fve_error, unit) res" where
  "check_signature block =
    (if get_range block 0 (length FVE_SIGNATURE) = Some FVE_SIGNATURE then Ok () else Err FveBadSignature)"

definition u16_at :: "bytes \<Rightarrow> nat \<Rightarrow> nat option" where
  "u16_at b at = map_option le_val (get_range b at (at + 2))"

definition fve_entry_of :: "bytes \<Rightarrow> (fve_error, fve_entry) res" where
  "fve_entry_of e =
    rbind (ok_or (u16_at e (offset_of fve_entry_header ''entry_type'')) EntryOverruns) (\<lambda>t.
    rbind (ok_or (u16_at e (offset_of fve_entry_header ''value_type'')) EntryOverruns) (\<lambda>v.
    rbind (ok_or (u16_at e (offset_of fve_entry_header ''version'')) EntryOverruns) (\<lambda>r.
    rbind (ok_or (get_range e ENTRY_HEADER_LEN (length e)) EntryOverruns) (\<lambda>d.
    Ok \<lparr>fe_entry_type = t, fe_value_type = v, fe_version = r, fe_data = d\<rparr>))))"

lemma fve_layout:
  "ENTRY_HEADER_LEN = 8" "offset_of fve_entry_header ''size'' = 0" "offset_of fve_entry_header ''entry_type'' = 2"
  "offset_of fve_entry_header ''value_type'' = 4" "offset_of fve_entry_header ''version'' = 6"
  by (simp_all add: ENTRY_HEADER_LEN_def fve_entry_header_def)

text \<open>
  The loop of \<open>walk\<close>: the position, and the entries written so far; \<open>cap\<close> is the length of the output.
\<close>

function fve_loop :: "bytes \<Rightarrow> nat \<Rightarrow> nat \<Rightarrow> fve_entry list \<Rightarrow> (fve_error, fve_entry list) res" where
  "fve_loop entries cap pos out =
    (if pos < length entries then
       rbind (ok_or (u16_at entries (pos + offset_of fve_entry_header ''size'')) EntryOverruns) (\<lambda>sz.
       if sz = 0 then Ok out else
       if sz < ENTRY_HEADER_LEN then Err EntryTooSmall else
       rbind (ok_or (get_range entries pos (pos + sz)) EntryOverruns) (\<lambda>entry.
       rbind (fve_entry_of entry) (\<lambda>e.
       if cap \<le> length out then Err FveTooManyEntries else
       fve_loop entries cap (pos + sz) (out @ [e]))))
     else Ok out)"
  by pat_completeness auto
termination
  by (relation "measure (\<lambda>(entries, cap, pos, out). length entries - pos)") (auto simp: fve_layout)

declare fve_loop.simps [simp del]

definition fve_walk :: "bytes \<Rightarrow> nat \<Rightarrow> (fve_error, fve_entry list) res" where
  "fve_walk entries cap = fve_loop entries cap 0 []"

section \<open>The format\<close>

definition fve_entry_ok :: "fve_entry \<Rightarrow> bool" where
  "fve_entry_ok e \<longleftrightarrow> fe_entry_type e < u16_lim \<and> fe_value_type e < u16_lim \<and> fe_version e < u16_lim
     \<and> 8 + length (fe_data e) < u16_lim"

definition fve_entry_bytes :: "fve_entry \<Rightarrow> bytes" where
  "fve_entry_bytes e = le_bytes 2 (8 + length (fe_data e)) @ le_bytes 2 (fe_entry_type e)
     @ le_bytes 2 (fe_value_type e) @ le_bytes 2 (fe_version e) @ fe_data e"

definition fve_end :: "bytes \<Rightarrow> bool" where
  "fve_end t \<longleftrightarrow> t = [] \<or> (2 \<le> length t \<and> le_val (take 2 t) = 0)"

lemma u16_at_eq: "u16_at b at = (if at + 2 \<le> length b then Some (le_val (take 2 (drop at b))) else None)"
  by (auto simp: u16_at_def get_range_def drop_take)

lemma le_val_less16: "le_val (take 2 b) < u16_lim"
  using le_val_bound [of "take 2 b"] power_increasing [of "length (take 2 b)" 2 "256 :: nat"] by simp

text \<open>An entry of \<open>sz\<close> bytes at the front of a region.\<close>

lemma entry_front:
  assumes "le_val (take 2 b) = sz" "8 \<le> sz" "length b = sz"
  shows "\<exists>e. fve_entry_of b = Ok e \<and> fve_entry_ok e \<and> b = fve_entry_bytes e"
proof -
  define f where "f i = take 2 (drop i b)" for i
  have f: "length (f i) = 2" "le_val (f i) < u16_lim" "le_bytes 2 (le_val (f i)) = f i" if "i \<le> 6" for i
    using that assms(2,3) le_val_less16 [of "drop i b"] le_bytes_le_val [of "f i"] by (auto simp: f_def)
  let ?e = "\<lparr>fe_entry_type = le_val (f 2), fe_value_type = le_val (f 4), fe_version = le_val (f 6), fe_data = drop 8 b\<rparr>"
  have "fve_entry_of b = Ok ?e"
    using assms(2,3) by (simp add: fve_entry_of_def fve_layout u16_at_eq get_range_def f_def)
  moreover have "fve_entry_ok ?e"
    using f assms le_val_less16 [of b] by (simp add: fve_entry_ok_def)
  moreover have "b = f 0 @ f 2 @ f 4 @ f 6 @ drop 8 b"
    using append_take_drop_id [of 2 b] append_take_drop_id [of 2 "drop 2 b"] append_take_drop_id [of 2 "drop 4 b"]
      append_take_drop_id [of 2 "drop 6 b"] by (simp add: f_def)
  then have "b = fve_entry_bytes ?e"
    using f [of 0] f [of 2] f [of 4] f [of 6] assms by (simp add: fve_entry_bytes_def f_def)
  ultimately show ?thesis by blast
qed

lemma entry_of_bytes: "fve_entry_ok e \<Longrightarrow> fve_entry_of (fve_entry_bytes e) = Ok e"
  by (simp add: fve_entry_of_def fve_layout u16_at_eq get_range_def fve_entry_bytes_def fve_entry_ok_def)

lemma length_entry: "length (fve_entry_bytes e) = 8 + length (fe_data e)"
  by (simp add: fve_entry_bytes_def)

lemma size_front: "fve_entry_ok e \<Longrightarrow> le_val (take 2 (fve_entry_bytes e @ t)) = 8 + length (fe_data e)"
  by (simp add: fve_entry_bytes_def fve_entry_ok_def)

lemma fve_loop_sound:
  assumes "fve_loop b cap pos out = Ok es"
  shows "\<exists>new t. es = out @ new \<and> list_all fve_entry_ok new \<and> (new = [] \<or> length es \<le> cap)
       \<and> drop pos b = concat (map fve_entry_bytes new) @ t \<and> fve_end t"
  using assms
proof (induction b cap pos out rule: fve_loop.induct)
  case (1 b cap pos out)
  show ?case
  proof (cases "pos < length b")
    case False
    with "1.prems" show ?thesis
      by (subst (asm) fve_loop.simps) (auto simp: fve_end_def intro!: exI [of _ "[]"])
  next
    case True
    define sz where "sz = le_val (take 2 (drop pos b))"
    from True "1.prems" have at: "pos + 2 \<le> length b"
      by (subst (asm) fve_loop.simps) (auto simp: rbind_eq_Ok u16_at_eq fve_layout split: if_splits)
    show ?thesis
    proof (cases "sz = 0")
      case True
      with at "1.prems" have "es = out"
        by (subst (asm) fve_loop.simps) (simp add: rbind_eq_Ok u16_at_eq fve_layout sz_def)
      moreover have "fve_end (drop pos b)" using True at by (simp add: fve_end_def sz_def)
      ultimately show ?thesis by auto
    next
      case False
      note unf = "1.prems" [unfolded fve_loop.simps [of b cap pos out]]
      from unf False at obtain e where sz: "8 \<le> sz" "pos + sz \<le> length b"
        and e: "fve_entry_of (take sz (drop pos b)) = Ok e" and cap: "length out < cap"
        and rec: "fve_loop b cap (pos + sz) (out @ [e]) = Ok es"
        by (auto simp: rbind_eq_Ok u16_at_eq fve_layout sz_def get_range_def drop_take split: if_splits)
      have hd: "le_val (take 2 (take sz (drop pos b))) = sz" using sz(1) by (simp add: sz_def take_take min_def)
      from entry_front [OF hd sz(1)] sz(2) e
      have eb: "fve_entry_ok e" "take sz (drop pos b) = fve_entry_bytes e" by auto
      from "1.IH" rec True at sz cap e False obtain new t where
        new: "es = (out @ [e]) @ new" "list_all fve_entry_ok new" "new = [] \<or> length es \<le> cap"
          "drop (pos + sz) b = concat (map fve_entry_bytes new) @ t" "fve_end t"
        by (fastforce simp: u16_at_eq fve_layout sz_def get_range_def drop_take)
      have "drop pos b = fve_entry_bytes e @ drop (pos + sz) b"
        using append_take_drop_id [of sz "drop pos b"] eb by (simp add: add.commute)
      then show ?thesis using new eb cap by (intro exI [of _ "e # new"] exI [of _ t]) auto
    qed
  qed
qed

lemma fve_loop_complete:
  assumes "list_all fve_entry_ok new" "new = [] \<or> length (out @ new) \<le> cap" "fve_end t"
    and "drop pos b = concat (map fve_entry_bytes new) @ t"
  shows "fve_loop b cap pos out = Ok (out @ new)"
  using assms
proof (induction new arbitrary: pos out)
  case Nil
  then show ?case
    by (subst fve_loop.simps) (auto simp: fve_end_def fve_layout u16_at_eq)
next
  case (Cons e new)
  from Cons.prems have e: "fve_entry_ok e" and d: "drop pos b = fve_entry_bytes e @ concat (map fve_entry_bytes new) @ t"
    by auto
  let ?n = "8 + length (fe_data e)"
  have pos: "pos + ?n \<le> length b" "pos < length b"
    using arg_cong [OF d, of length] by (auto simp: length_entry)
  have sz: "le_val (take 2 (drop pos b)) = ?n" using e by (simp only: d size_front)
  have tk: "take ?n (drop pos b) = fve_entry_bytes e" by (simp add: d length_entry)
  have "drop ?n (drop pos b) = concat (map fve_entry_bytes new) @ t" by (simp only: d) (simp add: length_entry)
  then have dr: "drop (pos + ?n) b = concat (map fve_entry_bytes new) @ t" by (simp add: add.commute [of pos])
  have "fve_loop b cap pos out = fve_loop b cap (pos + ?n) (out @ [e])"
    using pos sz tk entry_of_bytes [OF e] Cons.prems(2)
    by (subst fve_loop.simps) (simp add: u16_at_eq fve_layout get_range_def drop_take)
  also have "\<dots> = Ok ((out @ [e]) @ new)"
    using Cons.prems dr by (intro Cons.IH) auto
  finally show ?case by simp
qed

lemma fve_loop_wp: "wp (fve_loop b cap pos out) (\<lambda>_. True)"
proof (induction b cap pos out rule: fve_loop.induct)
  case (1 b cap pos out)
  show ?case by (subst fve_loop.simps) (auto simp: fve_entry_of_def intro!: "1.IH")
qed

text \<open>
  The walk of the metadata entries never panics, and it returns a list of entries exactly when
  the region consists of the encodings of these entries, in this order, followed by its end or by an
  entry of size zero, and the output has room for them.
\<close>

theorem fve_walk_exact:
  "fve_walk b cap \<noteq> Panic
   \<and> (fve_walk b cap = Ok es \<longleftrightarrow>
        list_all fve_entry_ok es \<and> length es \<le> cap
        \<and> (\<exists>t. b = concat (map fve_entry_bytes es) @ t \<and> fve_end t))"
proof -
  have "fve_walk b cap = Ok es \<longleftrightarrow> list_all fve_entry_ok es \<and> length es \<le> cap
        \<and> (\<exists>t. b = concat (map fve_entry_bytes es) @ t \<and> fve_end t)"
    using fve_loop_sound [of b cap 0 "[]" es] fve_loop_complete [of es "[]" cap _ 0 b]
    by (fastforce simp: fve_walk_def)
  then show ?thesis using fve_loop_wp [of b cap 0 "[]"] by (simp add: fve_walk_def wp_True)
qed

end
