(* ===== verification/Range.thy ===== *)
theory Range
  imports Prelude
begin

text \<open>
  The range test of \<open>crates/paguro-core/src/range.rs\<close>: extents, the fixed-capacity set of
  protected extents, the enforcement decision \<open>blocks\<close> and the growth check; and the brute-force
  oracle that \<open>crates/paguro-harness/src/model.rs\<close> compares the decision with.

  The set is the source's array and count.  Its invariant is that the live prefix is sorted,
  merged (neighbours neither overlap nor touch) and made of non-empty extents below \<open>2^64\<close>.  The
  locale \<open>sector_guard\<close> is the contract a client of the set relies on; it is interpreted on
  \<open>RangeSet\<close> for every capacity.
\<close>

section \<open>Extents\<close>

record extent =
  estart :: nat
  eend :: nat

definition mk_extent :: "nat \<Rightarrow> nat \<Rightarrow> extent" where
  "mk_extent s e = \<lparr>estart = s, eend = e\<rparr>"

lemma mk_extent_sel [simp]: "estart (mk_extent s e) = s" "eend (mk_extent s e) = e"
  by (simp_all add: mk_extent_def)

definition extent_new :: "nat \<Rightarrow> nat \<Rightarrow> extent option" where
  "extent_new start len =
     (if len = 0 then None
      else case checked_add start len of
             Some e \<Rightarrow> Some (mk_extent start e)
           | None \<Rightarrow> None)"

definition extent_len :: "extent \<Rightarrow> ('e, nat) res" where
  "extent_len e = sub64 (eend e) (estart e)"

definition extent_is_empty :: "extent \<Rightarrow> bool" where
  "extent_is_empty e \<longleftrightarrow> estart e = eend e"

definition extent_intersects :: "extent \<Rightarrow> extent \<Rightarrow> bool" where
  "extent_intersects a b \<longleftrightarrow> estart a < eend b \<and> estart b < eend a"

text \<open>The sectors an extent, and a list of extents, cover.\<close>

definition sectors_of :: "extent \<Rightarrow> nat set" where
  "sectors_of e = {estart e ..< eend e}"

definition covered :: "extent list \<Rightarrow> nat set" where
  "covered xs = (\<Union>e\<in>set xs. sectors_of e)"

definition wf_extent :: "extent \<Rightarrow> bool" where
  "wf_extent e \<longleftrightarrow> estart e < eend e \<and> eend e < u64_lim"

lemma covered_simps [simp]:
  "covered [] = {}"
  "covered (x # xs) = sectors_of x \<union> covered xs"
  "covered (xs @ ys) = covered xs \<union> covered ys"
  by (auto simp: covered_def)

lemma extent_new_Some:
  "extent_new s l = Some e \<longleftrightarrow> l \<noteq> 0 \<and> s + l < u64_lim \<and> e = mk_extent s (s + l)"
  by (auto simp: extent_new_def split: option.splits)

lemma extent_new_wf: "extent_new s l = Some e \<Longrightarrow> wf_extent e"
  by (auto simp: extent_new_Some wf_extent_def)

lemma extent_intersects_sectors:
  "wf_extent a \<Longrightarrow> wf_extent b \<Longrightarrow>
    extent_intersects a b \<longleftrightarrow> sectors_of a \<inter> sectors_of b \<noteq> {}"
proof -
  assume wf: "wf_extent a" "wf_extent b"
  have "extent_intersects a b \<longleftrightarrow> max (estart a) (estart b) < min (eend a) (eend b)"
    using wf by (auto simp: extent_intersects_def wf_extent_def)
  also have "\<dots> \<longleftrightarrow> sectors_of a \<inter> sectors_of b \<noteq> {}"
    by (auto simp: sectors_of_def)
  finally show ?thesis .
qed

section \<open>The set\<close>

datatype range_error = Full | NotAppendOnly

record range_set =
  rextents :: "extent list"
  rcount :: nat

definition range_new :: "nat \<Rightarrow> range_set" where
  "range_new N = \<lparr>rextents = replicate N (mk_extent 0 0), rcount = 0\<rparr>"

definition as_slice :: "range_set \<Rightarrow> extent list" where
  "as_slice s = (case get_range (rextents s) 0 (rcount s) of Some x \<Rightarrow> x | None \<Rightarrow> [])"

definition put_at :: "extent list \<Rightarrow> nat \<Rightarrow> extent \<Rightarrow> (range_error, extent list) res" where
  "put_at out n x = (if n < length out then Ok (out[n := x]) else Err Full)"

fun insert_loop ::
  "extent list \<Rightarrow> extent \<Rightarrow> extent list \<Rightarrow> nat \<Rightarrow> bool
     \<Rightarrow> (range_error, extent \<times> extent list \<times> nat \<times> bool) res" where
  "insert_loop [] merged out n placed = Ok (merged, out, n, placed)"
| "insert_loop (cur # cs) merged out n placed =
     (if eend cur < estart merged then
        rbind (put_at out n cur) (\<lambda>out. insert_loop cs merged out (n + 1) placed)
      else if eend merged < estart cur then
        rbind (if \<not> placed
               then rbind (put_at out n merged) (\<lambda>out. Ok (out, n + 1))
               else Ok (out, n)) (\<lambda>(out, n).
        rbind (put_at out n cur) (\<lambda>out. insert_loop cs merged out (n + 1) True))
      else
        insert_loop cs
          (mk_extent (min (estart merged) (estart cur)) (max (eend merged) (eend cur)))
          out n placed)"

definition range_insert :: "range_set \<Rightarrow> extent \<Rightarrow> (range_error, range_set) res" where
  "range_insert s e =
     rbind (insert_loop (as_slice s) e (replicate (length (rextents s)) (mk_extent 0 0)) 0 False)
       (\<lambda>(merged, out, n, placed).
     rbind (if \<not> placed
            then rbind (put_at out n merged) (\<lambda>out. Ok (out, n + 1))
            else Ok (out, n)) (\<lambda>(out, n).
     Ok (s\<lparr>rextents := out, rcount := n\<rparr>)))"

text \<open>
  \<open>slice::partition_point\<close> of the standard library: a binary search for the first element that
  does not satisfy the predicate.
\<close>

function bisect :: "('a \<Rightarrow> bool) \<Rightarrow> 'a list \<Rightarrow> nat \<Rightarrow> nat \<Rightarrow> nat" where
  "bisect p xs lo hi =
     (if lo < hi then
        (let mid = lo + (hi - lo) div 2 in
         if p (xs ! mid) then bisect p xs (mid + 1) hi else bisect p xs lo mid)
      else lo)"
  by pat_completeness auto
termination
  by (relation "measure (\<lambda>(p, xs, lo, hi). hi - lo)") auto

declare bisect.simps [simp del]

definition partition_point :: "('a \<Rightarrow> bool) \<Rightarrow> 'a list \<Rightarrow> nat" where
  "partition_point p xs = bisect p xs 0 (length xs)"

definition blocks :: "range_set \<Rightarrow> nat \<Rightarrow> nat \<Rightarrow> bool" where
  "blocks s sector cnt = (case extent_new sector cnt of
      None \<Rightarrow> True
    | Some req \<Rightarrow>
        (let sl = as_slice s; idx = partition_point (\<lambda>e. eend e \<le> estart req) sl in
         case nth_opt sl idx of
           None \<Rightarrow> False
         | Some e \<Rightarrow> extent_intersects e req))"

definition is_append_only :: "extent list \<Rightarrow> extent list \<Rightarrow> bool" where
  "is_append_only prev nxt \<longleftrightarrow>
     length nxt \<ge> length prev \<and> get_range nxt 0 (length prev) = Some prev"

text \<open>The oracle of the harness's model check: a request against the raw list of ranges.\<close>

definition range_oracle :: "(nat \<times> nat) list \<Rightarrow> nat \<Rightarrow> nat \<Rightarrow> bool" where
  "range_oracle raw s l \<longleftrightarrow> l = 0 \<or> list_ex (\<lambda>(a, b). s < b \<and> a < s + l) raw"

section \<open>The invariant\<close>

definition canon :: "extent list \<Rightarrow> bool" where
  "canon xs \<longleftrightarrow> sorted_wrt (\<lambda>a b. eend a < estart b) xs \<and> (\<forall>e\<in>set xs. wf_extent e)"

definition range_inv :: "range_set \<Rightarrow> bool" where
  "range_inv s \<longleftrightarrow> rcount s \<le> length (rextents s) \<and> canon (as_slice s)"

lemma canon_simps [simp]:
  "canon []"
  "canon (x # xs) \<longleftrightarrow> wf_extent x \<and> (\<forall>y\<in>set xs. eend x < estart y) \<and> canon xs"
  by (auto simp: canon_def)

lemma canon_append:
  "canon (xs @ ys) \<longleftrightarrow> canon xs \<and> canon ys \<and> (\<forall>x\<in>set xs. \<forall>y\<in>set ys. eend x < estart y)"
  by (auto simp: canon_def sorted_wrt_append)

lemma as_slice_new [simp]: "as_slice (range_new N) = []"
  by (simp add: as_slice_def range_new_def get_range_def)

lemma range_inv_new [simp]: "range_inv (range_new N)"
  by (simp add: range_inv_def range_new_def as_slice_def get_range_def)

lemma as_slice_take: "rcount s \<le> length (rextents s) \<Longrightarrow> as_slice s = take (rcount s) (rextents s)"
  by (simp add: as_slice_def get_range_def)

section \<open>Insertion\<close>

text \<open>The reference: insertion into a sorted list of separated extents, merging as it goes.\<close>

definition join :: "extent \<Rightarrow> extent \<Rightarrow> extent" where
  "join m c = mk_extent (min (estart m) (estart c)) (max (eend m) (eend c))"

fun merge_in :: "extent \<Rightarrow> extent list \<Rightarrow> extent list" where
  "merge_in m [] = [m]"
| "merge_in m (c # cs) =
     (if eend c < estart m then c # merge_in m cs
      else if eend m < estart c then m # c # cs
      else merge_in (join m c) cs)"

lemma join_wf [simp]: "wf_extent m \<Longrightarrow> wf_extent c \<Longrightarrow> wf_extent (join m c)"
  by (auto simp: join_def wf_extent_def)

lemma merge_in_ge:
  assumes "y \<in> set (merge_in m cs)" and "b < estart m" and "\<forall>c\<in>set cs. b < estart c"
  shows "b < estart y"
  using assms
  by (induction m cs rule: merge_in.induct) (auto simp: join_def split: if_splits)

lemma merge_in_canon: "wf_extent m \<Longrightarrow> canon cs \<Longrightarrow> canon (merge_in m cs)"
proof (induction m cs rule: merge_in.induct)
  case (1 m)
  then show ?case by simp
next
  case (2 m c cs)
  show ?case
  proof (cases "eend c < estart m")
    case True
    with 2 show ?thesis by (auto intro: merge_in_ge)
  next
    case False
    note nc = this
    show ?thesis
    proof (cases "eend m < estart c")
      case True
      with 2 nc show ?thesis by (fastforce simp: wf_extent_def)
    next
      case False
      with 2 nc show ?thesis by simp
    qed
  qed
qed

lemma merge_in_covered:
  "wf_extent m \<Longrightarrow> canon cs \<Longrightarrow> covered (merge_in m cs) = sectors_of m \<union> covered cs"
proof (induction m cs rule: merge_in.induct)
  case (1 m)
  then show ?case by simp
next
  case (2 m c cs)
  have "sectors_of (join m c) = sectors_of m \<union> sectors_of c"
    if "\<not> eend c < estart m" "\<not> eend m < estart c"
    using that 2(3,4) by (auto simp: join_def sectors_of_def wf_extent_def)
  with 2 show ?case by auto
qed

lemma put_at_Ok [simp]: "put_at out n x = Ok out' \<longleftrightarrow> n < length out \<and> out' = out[n := x]"
  by (auto simp: put_at_def)

text \<open>
  The loop against the reference.  \<open>acc\<close> is what the loop has written; once the new extent is
  placed, the rest of a separated list is copied.
\<close>

lemma insert_loop_placed:
  assumes "canon cs" and "\<forall>c\<in>set cs. eend m < estart c" and "wf_extent m" and "n \<le> length out"
  shows "insert_loop cs m out n True =
    (if n + length cs \<le> length out
     then Ok (m, take n out @ cs @ drop (n + length cs) out, n + length cs, True) else Err Full)"
  using assms
proof (induction cs arbitrary: out n)
  case Nil
  then show ?case by simp
next
  case (Cons c cs)
  from Cons.prems have nlt: "\<not> eend c < estart m" and lt: "eend m < estart c"
    by (auto simp: wf_extent_def)
  show ?case
  proof (cases "n < length out")
    case False
    with nlt lt show ?thesis by (simp add: put_at_def)
  next
    case True
    have tk: "take (Suc n) (out[n := c]) = take n out @ [c]"
      using True by (simp add: take_Suc_conv_app_nth)
    have "insert_loop (c # cs) m out n True = insert_loop cs m (out[n := c]) (n + 1) True"
      using nlt lt True by (simp add: put_at_def)
    also have "\<dots> = (if n + 1 + length cs \<le> length (out[n := c])
        then Ok (m, take (n + 1) (out[n := c]) @ cs @ drop (n + 1 + length cs) (out[n := c]),
          n + 1 + length cs, True) else Err Full)"
      using Cons.prems True by (intro Cons.IH) auto
    finally show ?thesis by (simp add: tk del: insert_loop.simps)
  qed
qed

definition finish :: "extent \<times> extent list \<times> nat \<times> bool \<Rightarrow> (range_error, extent list \<times> nat) res" where
  "finish st = (case st of (merged, out, n, placed) \<Rightarrow>
     (if \<not> placed then rbind (put_at out n merged) (\<lambda>out. Ok (out, n + 1)) else Ok (out, n)))"

lemma insert_loop_before:
  assumes "eend c < estart m" and "n < length out"
  shows "insert_loop (c # cs) m out n False = insert_loop cs m (out[n := c]) (n + 1) False"
  using assms by (simp add: put_at_def)

lemma insert_loop_touch:
  assumes "\<not> eend c < estart m" and "\<not> eend m < estart c"
  shows "insert_loop (c # cs) m out n p = insert_loop cs (join m c) out n p"
  using assms by (simp add: join_def)

lemma insert_loop_after:
  assumes "\<not> eend c < estart m" and "eend m < estart c" and "n < length out"
  shows "insert_loop (c # cs) m out n False = insert_loop (c # cs) m (out[n := m]) (n + 1) True"
  using assms by (simp add: put_at_def)

lemma insert_loop_overflow:
  assumes "\<not> (\<not> eend c < estart m \<and> \<not> eend m < estart c)" and "\<not> n < length out"
  shows "insert_loop (c # cs) m out n False = Err Full"
  using assms by (auto simp: put_at_def)

lemma take_Suc_update: "n < length out \<Longrightarrow> take (Suc n) (out[n := x]) = take n out @ [x]"
  by (simp add: take_Suc_conv_app_nth)

lemma insert_loop_fits:
  assumes "canon cs" and "wf_extent m" and "n + length (merge_in m cs) \<le> length out"
  shows "\<exists>out'. rbind (insert_loop cs m out n False) finish = Ok (out', n + length (merge_in m cs))
    \<and> length out' = length out
    \<and> take (n + length (merge_in m cs)) out' = take n out @ merge_in m cs"
  using assms
proof (induction cs arbitrary: m out n)
  case Nil
  then show ?case by (simp add: finish_def put_at_def take_Suc_update)
next
  case (Cons c cs)
  consider (before) "eend c < estart m"
    | (after) "\<not> eend c < estart m" "eend m < estart c"
    | (touch) "\<not> eend c < estart m" "\<not> eend m < estart c" by blast
  then show ?case
  proof cases
    case before
    with Cons.prems have n: "n < length out" by simp
    show ?thesis
      using Cons.IH [of m "n + 1" "out[n := c]"] Cons.prems before
      by (simp add: insert_loop_before [OF before n] take_Suc_update [OF n] del: insert_loop.simps)
  next
    case after
    with Cons.prems have n: "n < length out" by simp
    have all: "\<forall>d\<in>set (c # cs). eend m < estart d"
      using Cons.prems after by (auto simp: wf_extent_def)
    have "insert_loop (c # cs) m (out[n := m]) (n + 1) True =
        Ok (m, take (n + 1) (out[n := m]) @ (c # cs) @ drop (n + 1 + length (c # cs)) (out[n := m]),
          n + 1 + length (c # cs), True)"
      using insert_loop_placed [of "c # cs" m "n + 1" "out[n := m]"] Cons.prems all n after by simp
    with after Cons.prems n show ?thesis
      by (simp add: insert_loop_after [OF after n] finish_def take_Suc_update del: insert_loop.simps)
  next
    case touch
    with Cons.IH [of "join m c" n out] Cons.prems show ?thesis
      by (simp add: insert_loop_touch [OF touch] del: insert_loop.simps)
  qed
qed

lemma insert_loop_full:
  assumes "canon cs" and "wf_extent m" and "length out < n + length (merge_in m cs)"
    and "n \<le> length out"
  shows "rbind (insert_loop cs m out n False) finish = Err Full"
  using assms
proof (induction cs arbitrary: m out n)
  case Nil
  then show ?case by (simp add: finish_def put_at_def)
next
  case (Cons c cs)
  consider (before) "eend c < estart m"
    | (after) "\<not> eend c < estart m" "eend m < estart c"
    | (touch) "\<not> eend c < estart m" "\<not> eend m < estart c" by blast
  then show ?case
  proof cases
    case before
    show ?thesis
    proof (cases "n < length out")
      case n: True
      show ?thesis
        using Cons.IH [of m "out[n := c]" "n + 1"] Cons.prems before n
        by (simp add: insert_loop_before [OF before n] del: insert_loop.simps)
    qed (use before in \<open>simp add: put_at_def\<close>)
  next
    case after
    have all: "\<forall>d\<in>set (c # cs). eend m < estart d"
      using Cons.prems after by (auto simp: wf_extent_def)
    show ?thesis
    proof (cases "n < length out")
      case n: True
      show ?thesis
        using insert_loop_placed [of "c # cs" m "n + 1" "out[n := m]"] Cons.prems all n after
        by (simp add: insert_loop_after [OF after n] del: insert_loop.simps)
    qed (use after in \<open>simp add: put_at_def\<close>)
  next
    case touch
    with Cons.IH [of "join m c" out n] Cons.prems show ?thesis
      by (simp add: insert_loop_touch [OF touch] del: insert_loop.simps)
  qed
qed

lemma range_insert_finish:
  "range_insert s e =
    rbind (rbind (insert_loop (as_slice s) e (replicate (length (rextents s)) (mk_extent 0 0)) 0 False)
        finish) (\<lambda>(out, n). Ok (s\<lparr>rextents := out, rcount := n\<rparr>))"
  by (simp add: range_insert_def rbind_assoc finish_def case_prod_beta')

lemma range_insert_Full:
  assumes "range_inv s" and "wf_extent e"
    and "length (rextents s) < length (merge_in e (as_slice s))"
  shows "range_insert s e = Err Full"
  using insert_loop_full [of "as_slice s" e _ 0] assms
  by (simp add: range_insert_finish range_inv_def)

lemma range_insert_Ok:
  assumes "range_inv s" and "wf_extent e"
    and "length (merge_in e (as_slice s)) \<le> length (rextents s)"
  shows "\<exists>s'. range_insert s e = Ok s' \<and> as_slice s' = merge_in e (as_slice s)
    \<and> length (rextents s') = length (rextents s) \<and> range_inv s'"
proof -
  from assms(1) have c: "canon (as_slice s)" by (simp add: range_inv_def)
  obtain out where
    lp: "rbind (insert_loop (as_slice s) e (replicate (length (rextents s)) (mk_extent 0 0)) 0 False)
        finish = Ok (out, length (merge_in e (as_slice s)))"
    and out: "length out = length (rextents s)"
      "take (length (merge_in e (as_slice s))) out = merge_in e (as_slice s)"
    using insert_loop_fits [OF c assms(2), of 0 "replicate (length (rextents s)) (mk_extent 0 0)"]
      assms(3) by auto
  let ?s = "s\<lparr>rextents := out, rcount := length (merge_in e (as_slice s))\<rparr>"
  have sl: "as_slice ?s = merge_in e (as_slice s)"
    using out assms(3) by (simp add: as_slice_take)
  have "range_insert s e = Ok ?s" by (simp add: range_insert_finish lp)
  moreover have "range_inv ?s"
    using assms(3) out merge_in_canon [OF assms(2) c] by (simp add: range_inv_def sl)
  ultimately show ?thesis using sl out by auto
qed

section \<open>The decision\<close>

lemma bisect_bounds:
  "lo \<le> hi \<Longrightarrow> lo \<le> bisect p xs lo hi \<and> bisect p xs lo hi \<le> hi"
proof (induction p xs lo hi rule: bisect.induct)
  case (1 p xs lo hi)
  let ?mid = "lo + (hi - lo) div 2"
  show ?case
  proof (cases "lo < hi")
    case lt: True
    then have mid: "lo \<le> ?mid" "?mid < hi" by auto
    from 1(1) [OF lt refl] 1(2) [OF lt refl] lt mid show ?thesis
      by (cases "p (xs ! ?mid)") (force simp: bisect.simps [of p xs lo hi] Let_def)+
  qed (use 1(3) in \<open>simp add: bisect.simps\<close>)
qed

text \<open>On a list whose prefix satisfies the predicate, the search finds the end of that prefix.\<close>

lemma bisect_partitioned:
  assumes "\<And>i j. i \<le> j \<Longrightarrow> j < length xs \<Longrightarrow> p (xs ! j) \<Longrightarrow> p (xs ! i)"
    and "hi \<le> length xs" and "lo \<le> hi"
    and "\<forall>i<lo. p (xs ! i)" and "\<forall>i. hi \<le> i \<and> i < length xs \<longrightarrow> \<not> p (xs ! i)"
  shows "(\<forall>i < bisect p xs lo hi. p (xs ! i))
    \<and> (\<forall>i. bisect p xs lo hi \<le> i \<and> i < length xs \<longrightarrow> \<not> p (xs ! i))"
  using assms
proof (induction p xs lo hi rule: bisect.induct)
  case (1 p xs lo hi)
  show ?case
  proof (cases "lo < hi")
    case False
    then have "bisect p xs lo hi = lo" by (simp add: bisect.simps)
    moreover have "lo = hi" using False 1(5) by simp
    ultimately show ?thesis using 1(6,7) by simp
  next
    case lt: True
    define mid where "mid = lo + (hi - lo) div 2"
    have mid: "lo \<le> mid" "mid < hi" using lt by (auto simp: mid_def)
    show ?thesis
    proof (cases "p (xs ! mid)")
      case True
      have "\<forall>i<mid + 1. p (xs ! i)"
        using 1(3) [of _ mid] True mid 1(4) by (auto simp: less_Suc_eq_le)
      with 1(1) [OF lt mid_def True] 1(3-) mid True lt show ?thesis
        by (simp add: bisect.simps [of p xs lo hi] mid_def [symmetric] Let_def)
    next
      case False
      have "\<forall>i. mid \<le> i \<and> i < length xs \<longrightarrow> \<not> p (xs ! i)"
        using 1(3) [of mid] False by blast
      with 1(2) [OF lt mid_def False] 1(3-) mid False lt show ?thesis
        by (simp add: bisect.simps [of p xs lo hi] mid_def [symmetric] Let_def)
    qed
  qed
qed

lemma partition_point_spec:
  assumes "\<And>i j. i \<le> j \<Longrightarrow> j < length xs \<Longrightarrow> p (xs ! j) \<Longrightarrow> p (xs ! i)"
  shows "partition_point p xs \<le> length xs
    \<and> (\<forall>i < partition_point p xs. p (xs ! i))
    \<and> (\<forall>i. partition_point p xs \<le> i \<and> i < length xs \<longrightarrow> \<not> p (xs ! i))"
proof -
  have "(\<forall>i < bisect p xs 0 (length xs). p (xs ! i))
    \<and> (\<forall>i. bisect p xs 0 (length xs) \<le> i \<and> i < length xs \<longrightarrow> \<not> p (xs ! i))"
    by (rule bisect_partitioned) (use assms in auto)
  with bisect_bounds [of 0 "length xs" p xs] show ?thesis by (simp add: partition_point_def)
qed

lemma canon_nth:
  assumes "canon xs" and "i < j" and "j < length xs"
  shows "eend (xs ! i) < estart (xs ! j)"
  using assms by (auto simp: canon_def sorted_wrt_iff_nth_less)

lemma canon_nth_wf: "canon xs \<Longrightarrow> i < length xs \<Longrightarrow> wf_extent (xs ! i)"
  by (simp add: canon_def)

lemma canon_ends_mono:
  assumes "canon xs" and "i \<le> j" and "j < length xs"
  shows "eend (xs ! i) \<le> eend (xs ! j)"
  using canon_nth [OF assms(1), of i j] canon_nth_wf [OF assms(1,3)] assms(2,3)
  by (cases "i = j") (auto simp: wf_extent_def)

lemma blocks_iff:
  assumes "range_inv s"
  shows "blocks s sector cnt \<longleftrightarrow>
    cnt = 0 \<or> u64_lim \<le> sector + cnt \<or> covered (as_slice s) \<inter> {sector ..< sector + cnt} \<noteq> {}"
proof (cases "extent_new sector cnt")
  case None
  then show ?thesis by (auto simp: blocks_def extent_new_def split: if_splits option.splits)
next
  case (Some req)
  then have req: "cnt \<noteq> 0" "sector + cnt < u64_lim" "req = mk_extent sector (sector + cnt)"
    by (auto simp: extent_new_Some)
  let ?xs = "as_slice s"
  let ?p = "\<lambda>e. eend e \<le> sector"
  from assms have c: "canon ?xs" by (simp add: range_inv_def)
  define idx where "idx = partition_point ?p ?xs"
  have "idx \<le> length ?xs \<and> (\<forall>i < idx. ?p (?xs ! i))
      \<and> (\<forall>i. idx \<le> i \<and> i < length ?xs \<longrightarrow> \<not> ?p (?xs ! i))"
    unfolding idx_def
    by (rule partition_point_spec) (use canon_ends_mono [OF c] le_trans in blast)
  then have pp: "\<forall>i < idx. eend (?xs ! i) \<le> sector"
      "\<forall>i. idx \<le> i \<and> i < length ?xs \<longrightarrow> sector < eend (?xs ! i)"
    by (auto simp: req)
  have hit: "(\<exists>i < length ?xs. sectors_of (?xs ! i) \<inter> {sector ..< sector + cnt} \<noteq> {})
      \<longleftrightarrow> idx < length ?xs \<and> estart (?xs ! idx) < sector + cnt"
  proof
    assume "\<exists>i < length ?xs. sectors_of (?xs ! i) \<inter> {sector ..< sector + cnt} \<noteq> {}"
    then obtain i x where i: "i < length ?xs"
      and "x \<in> sectors_of (?xs ! i) \<inter> {sector ..< sector + cnt}" by blast
    then have x: "estart (?xs ! i) \<le> x" "x < eend (?xs ! i)" "sector \<le> x" "x < sector + cnt"
      by (simp_all add: sectors_of_def)
    have "idx \<le> i" using pp(1) x by (meson leI leD le_less_trans)
    moreover have "estart (?xs ! idx) \<le> estart (?xs ! i)"
      using canon_nth [OF c, of idx i] canon_nth_wf [OF c, of idx] i \<open>idx \<le> i\<close>
      by (cases "idx = i") (auto simp: wf_extent_def)
    ultimately show "idx < length ?xs \<and> estart (?xs ! idx) < sector + cnt" using i x by simp
  next
    assume a: "idx < length ?xs \<and> estart (?xs ! idx) < sector + cnt"
    then have "max sector (estart (?xs ! idx)) \<in> sectors_of (?xs ! idx) \<inter> {sector ..< sector + cnt}"
      using pp(2) canon_nth_wf [OF c, of idx] req(1) by (auto simp: sectors_of_def wf_extent_def)
    with a show "\<exists>i < length ?xs. sectors_of (?xs ! i) \<inter> {sector ..< sector + cnt} \<noteq> {}" by blast
  qed
  have "blocks s sector cnt \<longleftrightarrow> idx < length ?xs \<and> estart (?xs ! idx) < sector + cnt"
    using pp(2) req(1,2)
    by (auto simp: blocks_def Some req(3) idx_def [symmetric] Let_def
        extent_intersects_def nth_opt_def split: option.splits)
  moreover have "covered ?xs \<inter> {sector ..< sector + cnt} \<noteq> {}
      \<longleftrightarrow> (\<exists>i < length ?xs. sectors_of (?xs ! i) \<inter> {sector ..< sector + cnt} \<noteq> {})"
    by (fastforce simp: covered_def in_set_conv_nth)
  ultimately show ?thesis using hit req by simp
qed

section \<open>The contract of the guard\<close>

text \<open>
  What the enforcement path promises its client: an invariant every accepted insertion keeps, the
  sectors each insertion adds to the protected ones, and a decision that refuses a request exactly
  when it is empty, wraps around, or touches a protected sector.
\<close>

locale sector_guard =
  fixes start :: 'g
    and ins :: "'g \<Rightarrow> extent \<Rightarrow> ('e, 'g) res"
    and refuses :: "'g \<Rightarrow> nat \<Rightarrow> nat \<Rightarrow> bool"
    and guarded :: "'g \<Rightarrow> nat set"
    and invar :: "'g \<Rightarrow> bool"
  assumes invar_start: "invar start"
    and guarded_start: "guarded start = {}"
    and ins_total: "invar g \<Longrightarrow> wf_extent e \<Longrightarrow> ins g e \<noteq> Panic"
    and ins_invar: "invar g \<Longrightarrow> wf_extent e \<Longrightarrow> ins g e = Ok g' \<Longrightarrow> invar g'"
    and ins_guarded: "invar g \<Longrightarrow> wf_extent e \<Longrightarrow> ins g e = Ok g'
          \<Longrightarrow> guarded g' = guarded g \<union> sectors_of e"
    and refuses_iff: "invar g \<Longrightarrow> refuses g sector cnt \<longleftrightarrow>
          cnt = 0 \<or> u64_lim \<le> sector + cnt \<or> guarded g \<inter> {sector ..< sector + cnt} \<noteq> {}"
begin

lemma ins_all_correct:
  assumes "invar g" and "\<forall>e\<in>set es. wf_extent e"
  shows "wp (try_fold ins g es) (\<lambda>g'. invar g' \<and> guarded g' = guarded g \<union> covered es)"
  using assms
proof (induction es arbitrary: g)
  case Nil
  then show ?case by simp
next
  case (Cons e es)
  have "wp (ins g e) (\<lambda>g'. invar g' \<and> guarded g' = guarded g \<union> sectors_of e)"
    using Cons.prems ins_total ins_invar ins_guarded by (intro wpI) auto
  moreover have "wp (try_fold ins g' es) (\<lambda>g''. invar g'' \<and> guarded g'' = guarded g \<union> covered (e # es))"
    if "invar g' \<and> guarded g' = guarded g \<union> sectors_of e" for g'
    using Cons.IH [of g'] Cons.prems(2) that by (simp add: Un_assoc)
  ultimately show ?case by (auto elim: wp_conseq)
qed

lemma guard_exact:
  assumes "\<forall>e\<in>set es. wf_extent e" and "try_fold ins start es = Ok g"
  shows "refuses g sector cnt \<longleftrightarrow>
    cnt = 0 \<or> u64_lim \<le> sector + cnt \<or> covered es \<inter> {sector ..< sector + cnt} \<noteq> {}"
  using wp_OkD [OF ins_all_correct [OF invar_start assms(1)] assms(2)]
  by (simp add: refuses_iff guarded_start)

end

lemma range_insert_covered:
  assumes "range_inv s" and "wf_extent e" and "range_insert s e = Ok s'"
  shows "range_inv s' \<and> covered (as_slice s') = covered (as_slice s) \<union> sectors_of e"
proof -
  have "length (merge_in e (as_slice s)) \<le> length (rextents s)"
    using range_insert_Full [OF assms(1,2)] assms(3) by (cases "length (rextents s) < length (merge_in e (as_slice s))") auto
  from range_insert_Ok [OF assms(1,2) this] assms(3)
  have "as_slice s' = merge_in e (as_slice s)" "range_inv s'" by auto
  with merge_in_covered [OF assms(2)] assms(1) show ?thesis by (auto simp: range_inv_def)
qed

lemma range_insert_not_Panic:
  assumes "range_inv s" and "wf_extent e"
  shows "range_insert s e \<noteq> Panic"
  using range_insert_Full [OF assms] range_insert_Ok [OF assms]
  by (cases "length (merge_in e (as_slice s)) \<le> length (rextents s)") auto

interpretation rs: sector_guard "range_new N" range_insert blocks "\<lambda>s. covered (as_slice s)" range_inv
  for N
  by unfold_locales
    (auto simp: blocks_iff dest: range_insert_not_Panic range_insert_covered)

section \<open>Properties\<close>

lemma canon_hd_in: "canon (x # xs) \<Longrightarrow> estart x \<in> covered (x # xs)"
  by (simp add: sectors_of_def wf_extent_def)

lemma canon_cover_ge: "canon (x # xs) \<Longrightarrow> y \<in> covered (x # xs) \<Longrightarrow> estart x \<le> y"
  by (fastforce simp: covered_def sectors_of_def wf_extent_def)

lemma canon_gap: "canon (x # xs) \<Longrightarrow> eend x \<notin> covered (x # xs)"
  by (fastforce simp: covered_def sectors_of_def)

lemma canon_run: "canon (x # xs) \<Longrightarrow> estart x \<le> y \<Longrightarrow> y < eend x \<Longrightarrow> y \<in> covered (x # xs)"
  by (simp add: sectors_of_def)

lemma canon_rest: "canon (x # xs) \<Longrightarrow> covered xs = covered (x # xs) - sectors_of x"
  by (fastforce simp: covered_def sectors_of_def)

text \<open>A set of sectors has one representation as a sorted list of separated extents.\<close>

lemma canon_unique: "canon xs \<Longrightarrow> canon ys \<Longrightarrow> covered xs = covered ys \<Longrightarrow> xs = ys"
proof (induction xs arbitrary: ys)
  case Nil
  then show ?case by (cases ys) (auto simp: sectors_of_def wf_extent_def)
next
  case (Cons x xs)
  have "ys \<noteq> []"
    using canon_hd_in [OF Cons.prems(1)] Cons.prems(3) by (metis covered_simps(1) empty_iff)
  then obtain y ys' where ys: "ys = y # ys'" by (cases ys) auto
  note cx = Cons.prems(1) and cy = Cons.prems(2) [unfolded ys] and eq = Cons.prems(3) [unfolded ys]
  have "estart x = estart y"
    using canon_cover_ge [OF cx] canon_cover_ge [OF cy] canon_hd_in [OF cx] canon_hd_in [OF cy] eq
    by (metis order_antisym)
  moreover have "eend x = eend y"
  proof (rule ccontr)
    assume "eend x \<noteq> eend y"
    then consider "eend x < eend y" | "eend y < eend x" by linarith
    then show False
      using canon_gap [OF cx] canon_run [OF cy, of "eend x"] canon_gap [OF cy]
        canon_run [OF cx, of "eend y"] eq cx cy calculation
      by cases (auto simp: wf_extent_def simp del: covered_simps)
  qed
  ultimately have xy: "x = y" by (simp add: extent.equality)
  with canon_rest [OF cx] canon_rest [OF cy] eq have "covered xs = covered ys'" by simp
  with Cons.IH cx cy have "xs = ys'" by simp
  with xy ys show ?case by simp
qed

text \<open>
  C8.  Inserting a valid extent into a well-formed protected set either yields a well-formed set of
  the same capacity that protects exactly the old sectors and the new ones, or refuses with \<open>Full\<close>;
  and it refuses only when no merged, sorted list of extents within the capacity covers those
  sectors.  It never panics.
\<close>

theorem range_insert_correct:
  assumes "range_inv s" and "wf_extent e"
  shows "(\<exists>s'. range_insert s e = Ok s' \<and> range_inv s' \<and> length (rextents s') = length (rextents s)
      \<and> covered (as_slice s') = covered (as_slice s) \<union> sectors_of e)
    \<or> (range_insert s e = Err Full \<and>
      (\<forall>xs. canon xs \<and> covered xs = covered (as_slice s) \<union> sectors_of e
         \<longrightarrow> length (rextents s) < length xs))"
proof (cases "length (merge_in e (as_slice s)) \<le> length (rextents s)")
  case True
  from range_insert_Ok [OF assms True] range_insert_covered [OF assms] show ?thesis by blast
next
  case False
  from assms(1) have c: "canon (as_slice s)" by (simp add: range_inv_def)
  have "xs = merge_in e (as_slice s)"
    if "canon xs" "covered xs = covered (as_slice s) \<union> sectors_of e" for xs
    using that canon_unique merge_in_canon [OF assms(2) c] merge_in_covered [OF assms(2) c]
    by (metis Un_commute)
  with False range_insert_Full [OF assms] show ?thesis by auto
qed

theorem range_insert_correct_witness:
  "range_insert (range_new 2) (mk_extent 10 20)
     = Ok \<lparr>rextents = [mk_extent 10 20, mk_extent 0 0], rcount = 1\<rparr>
   \<and> covered [mk_extent 10 20] = {10 ..< 20}"
proof -
  have "range_inv (range_new 2)" "wf_extent (mk_extent 10 20)" by (simp_all add: wf_extent_def)
  note range_insert_correct [OF this]
  moreover have "range_insert (range_new 2) (mk_extent 10 20)
     = Ok \<lparr>rextents = [mk_extent 10 20, mk_extent 0 0], rcount = 1\<rparr>"
    by (simp add: range_insert_def range_new_def as_slice_def get_range_def put_at_def numeral_2_eq_2)
  ultimately show ?thesis by (auto simp: as_slice_def get_range_def sectors_of_def)
qed

text \<open>
  C9.  The range test agrees with the brute-force oracle of the harness on every input: after
  inserting any list of valid ranges into an empty set of any capacity, a request that does not
  wrap around is refused exactly when it is empty or overlaps one of the ranges, although the
  decision looks at one extent only, found by binary search in the merged list.
\<close>

definition insert_raw :: "range_set \<Rightarrow> (nat \<times> nat) \<Rightarrow> (range_error, range_set) res" where
  "insert_raw s p = (case extent_new (fst p) (snd p) of Some e \<Rightarrow> range_insert s e | None \<Rightarrow> Ok s)"

theorem blocks_matches_oracle:
  assumes "try_fold insert_raw (range_new N) raw = Ok s"
    and "\<forall>(a, l)\<in>set raw. l \<noteq> 0 \<and> a + l < u64_lim" and "q + l < u64_lim"
  shows "blocks s q l \<longleftrightarrow> range_oracle (map (\<lambda>(a, l). (a, a + l)) raw) q l"
proof -
  let ?es = "map (\<lambda>(a, l). mk_extent a (a + l)) raw"
  have "try_fold insert_raw g raw = try_fold range_insert g ?es" for g
    using assms(2)
  proof (induction raw arbitrary: g)
    case (Cons p raw)
    then have "insert_raw g p = range_insert g (mk_extent (fst p) (fst p + snd p))"
      by (auto simp: insert_raw_def extent_new_def split: option.splits)
    with Cons show ?case by (auto simp: case_prod_beta intro: rbind_cong)
  qed simp
  with assms(1) have "try_fold range_insert (range_new N) ?es = Ok s" by simp
  moreover have "\<forall>e\<in>set ?es. wf_extent e" using assms(2) by (auto simp: wf_extent_def)
  ultimately have "blocks s q l \<longleftrightarrow> l = 0 \<or> u64_lim \<le> q + l \<or> covered ?es \<inter> {q ..< q + l} \<noteq> {}"
    by (intro rs.guard_exact)
  also have "\<dots> \<longleftrightarrow> l = 0 \<or> (\<exists>(a, k)\<in>set raw. {a ..< a + k} \<inter> {q ..< q + l} \<noteq> {})"
    using assms(3) by (fastforce simp: covered_def sectors_of_def)
  also have "\<dots> \<longleftrightarrow> range_oracle (map (\<lambda>(a, l). (a, a + l)) raw) q l"
    using assms(2) by (fastforce simp: range_oracle_def list_ex_iff)
  finally show ?thesis .
qed

theorem blocks_matches_oracle_witness:
  "try_fold insert_raw (range_new 4) [(100, 10), (50, 5)]
     = Ok \<lparr>rextents = [mk_extent 50 55, mk_extent 100 110, mk_extent 0 0, mk_extent 0 0], rcount = 2\<rparr>
   \<and> \<not> blocks \<lparr>rextents = [mk_extent 50 55, mk_extent 100 110, mk_extent 0 0, mk_extent 0 0], rcount = 2\<rparr> 90 10
   \<and> blocks \<lparr>rextents = [mk_extent 50 55, mk_extent 100 110, mk_extent 0 0, mk_extent 0 0], rcount = 2\<rparr> 91 10"
proof -
  have 1: "try_fold insert_raw (range_new 4) [(100, 10), (50, 5)]
     = Ok \<lparr>rextents = [mk_extent 50 55, mk_extent 100 110, mk_extent 0 0, mk_extent 0 0], rcount = 2\<rparr>"
  proof -
    have "range_new 4 = \<lparr>rextents = [mk_extent 0 0, mk_extent 0 0, mk_extent 0 0, mk_extent 0 0], rcount = 0\<rparr>"
      by (simp add: range_new_def numeral_eq_Suc)
    then show ?thesis
      by (simp add: insert_raw_def extent_new_def checked_add_def range_insert_def
          as_slice_def get_range_def put_at_def numeral_2_eq_2)
  qed
  show ?thesis
    using 1 blocks_matches_oracle [OF 1, of 90 10] blocks_matches_oracle [OF 1, of 91 10]
    by (simp add: range_oracle_def)
qed

end
