(* ===== verification/Bde.thy ===== *)
theory Bde
  imports Fve Gpt Handoff Range Disk
begin

text \<open>
  BitLocker volume structures, \<open>crates/paguro-core/src/bde.rs\<close>: the volume header, the metadata blocks and
  their cross-check, the entries with their schema, startup keys, and the sector map of the decrypted view.
  Fixed arrays are lists or tuples; the bounded array of protectors is a list with its capacity checked.
\<close>

section \<open>Structures and constants\<close>

definition BDE_SIGNATURE :: bytes where
  "BDE_SIGNATURE = [0x2d, 0x46, 0x56, 0x45, 0x2d, 0x46, 0x53, 0x2d]"
definition TOGO_SIGNATURE :: bytes where
  "TOGO_SIGNATURE = [0x4d, 0x53, 0x57, 0x49, 0x4e, 0x34, 0x2e, 0x31]"
definition GUID_NORMAL :: bytes where
  "GUID_NORMAL = [0x3b, 0xd6, 0x67, 0x49, 0x29, 0x2e, 0xd8, 0x4a, 0x83, 0x99, 0xf6, 0xa3, 0x39, 0xe3, 0xd0, 0x01]"
definition GUID_EOW :: bytes where
  "GUID_EOW = [0x3b, 0x4d, 0xa8, 0x92, 0x80, 0xdd, 0x0e, 0x4d, 0x9e, 0x4e, 0xb1, 0xe3, 0x28, 0x4e, 0xae, 0xd8]"

definition BdeBootSector :: layout where
  "BdeBootSector = [(''jump'', 3), (''oem_id'', 8), (''bytes_per_sector'', 2), (''bpb_rest'', 147),
     (''identifier'', 16), (''metadata_offsets'', 24), (''boot_code'', 310), (''boot_signature'', 2)]"
definition ToGoBootSector :: layout where
  "ToGoBootSector = [(''jump'', 3), (''oem_id'', 8), (''bpb'', 413), (''identifier'', 16), (''metadata_offsets'', 24)]"
definition BlockHeader :: layout where
  "BlockHeader = [(''signature'', 8), (''size'', 2), (''version'', 2), (''current_state'', 2), (''next_state'', 2),
     (''encrypted_size'', 8), (''conversion_size'', 4), (''header_sectors'', 4), (''metadata_offsets'', 24),
     (''header_offset'', 8)]"
definition MetadataHeader :: layout where
  "MetadataHeader = [(''size'', 4), (''version'', 4), (''header_size'', 4), (''size_copy'', 4), (''volume_id'', 16),
     (''next_nonce'', 4), (''encryption'', 2), (''unknown'', 2), (''created'', 8)]"
definition ValidationHeader :: layout where
  "ValidationHeader = [(''size'', 2), (''version'', 2), (''crc32'', 4)]"
definition VmkHeader :: layout where
  "VmkHeader = [(''id'', 16), (''last_change'', 8), (''unknown'', 2), (''protection'', 2)]"
definition KeyValue :: layout where "KeyValue = [(''method'', 4)]"
definition StretchKeyValue :: layout where "StretchKeyValue = [(''method'', 4), (''salt'', 16)]"
definition CcmValue :: layout where "CcmValue = [(''nonce'', 12), (''tag'', 16)]"
definition OffsetAndSize :: layout where "OffsetAndSize = [(''offset'', 8), (''size'', 8)]"
definition ExternalKeyValue :: layout where "ExternalKeyValue = [(''id'', 16), (''modified'', 8)]"
definition ExtraRegionHead :: layout where "ExtraRegionHead = [(''tag'', 2), (''len'', 2)]"

definition HEADER_ID_OFFSET :: nat where "HEADER_ID_OFFSET = offset_of BdeBootSector ''identifier''"
definition TOGO_ID_OFFSET :: nat where "TOGO_ID_OFFSET = offset_of ToGoBootSector ''identifier''"
definition REGION_SIZE :: nat where "REGION_SIZE = 0x10000"
definition BLOCK_HEADER_LEN :: nat where "BLOCK_HEADER_LEN = size_of BlockHeader"
definition METADATA_HEADER_LEN :: nat where "METADATA_HEADER_LEN = size_of MetadataHeader"
definition IDENTIFIER_LEN :: nat where "IDENTIFIER_LEN = field_size BdeBootSector ''identifier''"
definition VISTA_JUMP :: bytes where "VISTA_JUMP = [0xeb, 0x52, 0x90]"
definition BDE_BOOT_SIGNATURE :: bytes where "BDE_BOOT_SIGNATURE = [0x55, 0xaa]"
definition SECTOR_SIZES :: "nat list" where "SECTOR_SIZES = [512, 4096]"
definition BLOCK_SIZE_UNIT :: nat where "BLOCK_SIZE_UNIT = 16"
definition BLOCK_VERSION :: nat where "BLOCK_VERSION = 2"
definition METADATA_VERSION :: nat where "METADATA_VERSION = 1"
definition VALIDATION_HEADER_LEN :: nat where "VALIDATION_HEADER_LEN = size_of ValidationHeader"
definition VALIDATION_VERSION_CRC :: nat where "VALIDATION_VERSION_CRC = 1"
definition VALIDATION_VERSION_HASH :: nat where "VALIDATION_VERSION_HASH = 2"
definition CCM_NONCE_LEN :: nat where "CCM_NONCE_LEN = field_size CcmValue ''nonce''"
definition CCM_TAG_LEN :: nat where "CCM_TAG_LEN = field_size CcmValue ''tag''"
definition AES_128_KEY_LEN :: nat where "AES_128_KEY_LEN = 16"
definition AES_256_KEY_LEN :: nat where "AES_256_KEY_LEN = 32"
definition MAX_STARTUP_KEY_FILE :: nat where "MAX_STARTUP_KEY_FILE = 4096"
definition KEY_256_LEN :: nat where "KEY_256_LEN = 32"
definition BDE_MAX_ENTRIES :: nat where "BDE_MAX_ENTRIES = 64"
definition MAX_NESTED :: nat where "MAX_NESTED = 16"
definition MAX_PROTECTORS :: nat where "MAX_PROTECTORS = 16"
definition MAX_WRAPPED :: nat where "MAX_WRAPPED = 256"
definition VMK_FIXED :: nat where "VMK_FIXED = size_of VmkHeader"
definition VMK_ID_LEN :: nat where "VMK_ID_LEN = field_size VmkHeader ''id''"
definition BDE_SALT_LEN :: nat where "BDE_SALT_LEN = field_size StretchKeyValue ''salt''"
definition VOLUME_ID_LEN :: nat where "VOLUME_ID_LEN = field_size MetadataHeader ''volume_id''"
definition EXTRA_MIN :: nat where "EXTRA_MIN = size_of ExtraRegionHead + 4 + size_of OffsetAndSize"

text \<open>Entry types, value types, encryption methods, protection types and states.\<close>

definition ET_VMK :: nat where "ET_VMK = 0x0002"
definition ET_FVEK :: nat where "ET_FVEK = 0x0003"
definition ET_STARTUP_KEY :: nat where "ET_STARTUP_KEY = 0x0006"
definition ET_DESCRIPTION :: nat where "ET_DESCRIPTION = 0x0007"
definition ET_VOLUME_HEADER_BLOCK :: nat where "ET_VOLUME_HEADER_BLOCK = 0x000f"
definition VT_KEY :: nat where "VT_KEY = 0x0001"
definition VT_UNICODE :: nat where "VT_UNICODE = 0x0002"
definition VT_STRETCH_KEY :: nat where "VT_STRETCH_KEY = 0x0003"
definition VT_AES_CCM :: nat where "VT_AES_CCM = 0x0005"
definition VT_VMK :: nat where "VT_VMK = 0x0008"
definition VT_EXTERNAL_KEY :: nat where "VT_EXTERNAL_KEY = 0x0009"
definition VT_OFFSET_AND_SIZE :: nat where "VT_OFFSET_AND_SIZE = 0x000f"
definition ST_SWITCHING :: nat where "ST_SWITCHING = 2"
definition ST_ENCRYPTED :: nat where "ST_ENCRYPTED = 4"
definition ST_PAUSED :: nat where "ST_PAUSED = 5"

datatype cipher = XtsAes128 | XtsAes256 | CbcDiffuser128 | CbcDiffuser256 | Cbc128 | Cbc256 | CipherUnknown nat

definition cipher_from_u16 :: "nat \<Rightarrow> cipher" where
  "cipher_from_u16 v =
    (if v = 0x8000 then CbcDiffuser128 else if v = 0x8001 then CbcDiffuser256
     else if v = 0x8002 then Cbc128 else if v = 0x8003 then Cbc256
     else if v = 0x8004 then XtsAes128 else if v = 0x8005 then XtsAes256 else CipherUnknown v)"

definition cipher_to_u16 :: "cipher \<Rightarrow> nat" where
  "cipher_to_u16 c = (case c of CbcDiffuser128 \<Rightarrow> 0x8000 | CbcDiffuser256 \<Rightarrow> 0x8001 | Cbc128 \<Rightarrow> 0x8002
     | Cbc256 \<Rightarrow> 0x8003 | XtsAes128 \<Rightarrow> 0x8004 | XtsAes256 \<Rightarrow> 0x8005 | CipherUnknown v \<Rightarrow> v)"

definition key_len :: "cipher \<Rightarrow> nat option" where
  "key_len c = (case c of XtsAes128 \<Rightarrow> Some (2 * AES_128_KEY_LEN) | XtsAes256 \<Rightarrow> Some (2 * AES_256_KEY_LEN) | _ \<Rightarrow> None)"

datatype bde_error = NotBitLocker | Vista | UnknownIdentifier | BSectorSize nat | BBootSignature | BMetadataOffset
  | BlockSignature nat | BlockVersion nat | BBlockSize | BlockLocation | BValidation nat | BChecksum nat | BMetadataHeader
  | CopiesDisagree | BEntryTooSmall | BEntryOverruns | TrailingGarbage | BTooManyEntries | TooManyProtectors
  | BSchema nat nat | BadVmk | BadStretchKey | BadCcm | BadKey | MissingFvek | DuplicateFvek | MissingVolumeHeader
  | DuplicateVolumeHeader | Relocation | BExtraRegion | BOverlap | BState nat nat | BEncryptedSize | UnsupportedCipher nat
  | FvekMismatch | ValidationHash | BadStartupKey | UsedSpaceOnly

section \<open>Bounded reads\<close>

definition le_at :: "nat \<Rightarrow> bytes \<Rightarrow> nat \<Rightarrow> nat option" where
  "le_at n b at = Option.bind (checked_add at n) (\<lambda>e. map_option le_val (get_range b at e))"

definition bde_le16 :: "bytes \<Rightarrow> nat \<Rightarrow> nat option" where "bde_le16 b at = le_at 2 b at"
definition bde_le32 :: "bytes \<Rightarrow> nat \<Rightarrow> nat option" where "bde_le32 b at = le_at 4 b at"
definition bde_le64 :: "bytes \<Rightarrow> nat \<Rightarrow> nat option" where "bde_le64 b at = le_at 8 b at"

definition arr :: "nat \<Rightarrow> bytes \<Rightarrow> nat \<Rightarrow> bytes option" where
  "arr n b at = Option.bind (checked_add at n) (\<lambda>e. get_range b at e)"

definition BDE_CRC_TABLE :: "32 word list" where
  "BDE_CRC_TABLE = map (\<lambda>i. ((\<lambda>c. if c AND 1 \<noteq> 0 then 0xedb88320 XOR drop_bit 1 c else drop_bit 1 c) ^^ 8) (word_of_nat i)) [0..<256]"

definition bde_crc32 :: "bytes \<Rightarrow> 32 word" where
  "bde_crc32 data = NOT (fold (\<lambda>b c.
     (case nth_opt BDE_CRC_TABLE (unat ((ucast c :: byte) XOR b)) of Some t \<Rightarrow> t | None \<Rightarrow> 0) XOR drop_bit 8 c) data (NOT 0))"

section \<open>The volume header\<close>

datatype header_kind = Standard | ToGo

record volume_header =
  vh_kind :: header_kind
  vh_eow :: bool
  vh_bytes_per_sector :: nat
  vh_metadata_offsets :: "nat \<times> nat \<times> nat"

definition parse_volume_header :: "bytes \<Rightarrow> (bde_error, volume_header) res" where
  "parse_volume_header s =
    (let oem_at = offset_of BdeBootSector ''oem_id'' in
     rbind (ok_or (get_range s oem_at (oem_at + length BDE_SIGNATURE)) NotBitLocker) (\<lambda>oem.
     rbind (if oem = BDE_SIGNATURE then Ok HEADER_ID_OFFSET
            else if oem = TOGO_SIGNATURE then Ok TOGO_ID_OFFSET
            else Err NotBitLocker) (\<lambda>id_at.
     rbind (ok_or (arr IDENTIFIER_LEN s id_at) NotBitLocker) (\<lambda>idn.
     rbind (if idn = GUID_NORMAL then Ok False
            else if idn = GUID_EOW then Ok True
            else if oem = BDE_SIGNATURE \<and> get_range s 0 (length VISTA_JUMP) = Some VISTA_JUMP then Err Vista
            else if oem = TOGO_SIGNATURE then Err NotBitLocker
            else Err UnknownIdentifier) (\<lambda>eow.
     let sig_at = offset_of BdeBootSector ''boot_signature'' in
     if get_range s sig_at (sig_at + length BDE_BOOT_SIGNATURE) \<noteq> Some BDE_BOOT_SIGNATURE then Err BBootSignature else
     rbind (ok_or (bde_le16 s (offset_of BdeBootSector ''bytes_per_sector'')) NotBitLocker) (\<lambda>bps.
     if bps \<notin> set SECTOR_SIZES then Err (BSectorSize bps) else
     let offs_at = id_at + IDENTIFIER_LEN in
     rbind (ok_or (bde_le64 s offs_at) NotBitLocker) (\<lambda>x.
     rbind (ok_or (bde_le64 s (offs_at + 8)) NotBitLocker) (\<lambda>y.
     rbind (ok_or (bde_le64 s (offs_at + 16)) NotBitLocker) (\<lambda>z.
     if list_ex (\<lambda>off. off = 0 \<or> off mod bps \<noteq> 0) [x, y, z] \<or> x = y \<or> y = z \<or> x = z then Err BMetadataOffset else
     Ok \<lparr>vh_kind = (if id_at = HEADER_ID_OFFSET then Standard else ToGo), vh_eow = eow, vh_bytes_per_sector = bps,
         vh_metadata_offsets = (x, y, z)\<rparr>)))))))))"

section \<open>Entries\<close>

record ccm =
  ccm_nonce :: bytes
  ccm_tag :: bytes
  ccm_ciphertext :: bytes

definition ccm_parse :: "bytes \<Rightarrow> (bde_error, ccm) res" where
  "ccm_parse data =
    rdo (rarray CCM_NONCE_LEN (reader_new data)) BadCcm (\<lambda>nonce r.
    rdo (rarray CCM_TAG_LEN r) BadCcm (\<lambda>tag r.
    let ciphertext = rest r in
    if length ciphertext < ENTRY_HEADER_LEN \<or> length ciphertext > MAX_WRAPPED then Err BadCcm
    else Ok \<lparr>ccm_nonce = nonce, ccm_tag = tag, ccm_ciphertext = ciphertext\<rparr>))"

record bde_entry =
  be_entry_type :: nat
  be_value_type :: nat
  be_version :: nat
  be_data :: bytes

record bde_entries =
  en_rest :: bytes
  en_left :: nat
  en_done :: bool

definition entries_new :: "bytes \<Rightarrow> nat \<Rightarrow> bde_entries" where
  "entries_new list most = \<lparr>en_rest = list, en_left = most, en_done = False\<rparr>"

definition bde_entry_of :: "bytes \<Rightarrow> (bde_error, bde_entry) res" where
  "bde_entry_of e =
    rbind (ok_or (bde_le16 e (offset_of fve_entry_header ''entry_type'')) BEntryOverruns) (\<lambda>t.
    rbind (ok_or (bde_le16 e (offset_of fve_entry_header ''value_type'')) BEntryOverruns) (\<lambda>v.
    rbind (ok_or (bde_le16 e (offset_of fve_entry_header ''version'')) BEntryOverruns) (\<lambda>r.
    rbind (ok_or (get_range e ENTRY_HEADER_LEN (length e)) BEntryOverruns) (\<lambda>d.
    Ok \<lparr>be_entry_type = t, be_value_type = v, be_version = r, be_data = d\<rparr>))))"

text \<open>\<open>Iterator::next\<close>: an entry or an error, and what is left; \<open>None\<close> at the end.\<close>

definition entries_next :: "bde_entries \<Rightarrow> (bde_error, bde_entry) res option \<times> bde_entries" where
  "entries_next it =
    (if en_done it \<or> en_rest it = [] then (None, it) else
     let stop = it\<lparr>en_done := True\<rparr> in
     case bde_le16 (en_rest it) (offset_of fve_entry_header ''size'') of
       None \<Rightarrow> (Some (Err BEntryOverruns), stop)
     | Some sz \<Rightarrow>
         if sz = 0 then
           (if list_ex (\<lambda>b. b \<noteq> 0) (en_rest it) then (Some (Err TrailingGarbage), stop) else (None, stop))
         else if sz < ENTRY_HEADER_LEN then (Some (Err BEntryTooSmall), stop)
         else if en_left it = 0 then (Some (Err BTooManyEntries), stop)
         else if sz > length (en_rest it) then (Some (Err BEntryOverruns), stop)
         else
           let it' = it\<lparr>en_rest := drop sz (en_rest it), en_left := en_left it - 1\<rparr>;
               r = bde_entry_of (take sz (en_rest it)) in
           (Some r, (case r of Ok _ \<Rightarrow> it' | _ \<Rightarrow> it'\<lparr>en_done := True\<rparr>)))"

lemma entries_next_shorter:
  "entries_next it = (Some (Ok e), it') \<Longrightarrow> length (en_rest it') < length (en_rest it)"
  by (auto simp: entries_next_def Let_def fve_layout split: if_splits option.splits res.splits)

text \<open>
  \<open>for e in entries { let e = e.map_err(g)?; ... }\<close>: the loop body changes the state or leaves with an
  error.
\<close>

function for_entries ::
  "(bde_error \<Rightarrow> bde_error) \<Rightarrow> (bde_entry \<Rightarrow> 'a \<Rightarrow> (bde_error, 'a) res) \<Rightarrow> bde_entries \<Rightarrow> 'a \<Rightarrow> (bde_error, 'a) res" where
  "for_entries g f it a =
    (case entries_next it of
       (None, _) \<Rightarrow> Ok a
     | (Some r, it') \<Rightarrow>
         (case r of
            Ok e \<Rightarrow> rbind (f e a) (\<lambda>a. for_entries g f it' a)
          | Err x \<Rightarrow> Err (g x)
          | Panic \<Rightarrow> Panic))"
  by pat_completeness auto
termination
  by (relation "measure (\<lambda>(g, f, it, a). length (en_rest it))") (auto dest: entries_next_shorter [OF sym])

declare for_entries.simps [simp del]

record bde_key =
  bk_method :: nat
  bk_key :: bytes

definition key_value :: "bytes \<Rightarrow> (bde_error, bde_key) res" where
  "key_value data =
    rbind (ok_or (bde_le32 data (offset_of KeyValue ''method'')) BadKey) (\<lambda>method.
    rbind (ok_or (get_range data (size_of KeyValue) (length data)) BadKey) (\<lambda>key.
    if key = [] then Err BadKey else Ok \<lparr>bk_method = method, bk_key = key\<rparr>))"

definition parse_key :: "bytes \<Rightarrow> (bde_error, bde_key) res" where
  "parse_key pt =
    rbind (ok_or (fst (entries_next (entries_new pt 1))) BadKey) (\<lambda>r.
    rbind r (\<lambda>e.
    rbind (ok_or (bde_le16 pt (offset_of fve_entry_header ''size'')) BadKey) (\<lambda>whole.
    if be_value_type e \<noteq> VT_KEY \<or> whole \<noteq> length pt then Err BadKey
    else key_value (be_data e))))"

section \<open>Protectors\<close>

datatype protector_kind = ClearKey | PkTpm | StartupKeyKind | TpmPin | RecoveryPassword | SmartCard | Password | OtherKind nat

definition protector_from_u16 :: "nat \<Rightarrow> protector_kind" where
  "protector_from_u16 v =
    (if v = 0x0000 then ClearKey else if v = 0x0100 then PkTpm else if v = 0x0200 then StartupKeyKind
     else if v = 0x0500 then TpmPin else if v = 0x0800 then RecoveryPassword else if v = 0x1000 then SmartCard
     else if v = 0x2000 then Password else OtherKind v)"

definition usable :: "protector_kind \<Rightarrow> bool" where
  "usable k \<longleftrightarrow> k = ClearKey \<or> k = StartupKeyKind \<or> k = RecoveryPassword \<or> k = Password"

record protector =
  pr_id :: bytes
  pr_kind :: protector_kind
  pr_salt :: "bytes option"
  pr_clear_key :: "bytes option"
  pr_wrapped_vmk :: "ccm option"

text \<open>The \<open>u8\<close> counters of the nested entries.\<close>

definition add8 :: "nat \<Rightarrow> nat \<Rightarrow> ('e, nat) res" where
  "add8 a b = (if a + b < u8_lim then Ok (a + b) else Panic)"

definition key_256 :: "bytes \<Rightarrow> bytes option" where
  "key_256 k = (if length k = KEY_256_LEN then Some k else None)"

definition protector_step ::
  "bde_entry \<Rightarrow> protector \<times> nat \<times> nat \<times> nat \<Rightarrow> (bde_error, protector \<times> nat \<times> nat \<times> nat) res" where
  "protector_step e = (\<lambda>(p, n_ccm, n_stretch, n_keys).
    if be_value_type e = VT_AES_CCM then
      rbind (add8 n_ccm 1) (\<lambda>n_ccm.
      if pr_wrapped_vmk p = None
      then rbind (ccm_parse (be_data e)) (\<lambda>c. Ok (p\<lparr>pr_wrapped_vmk := Some c\<rparr>, n_ccm, n_stretch, n_keys))
      else Ok (p, n_ccm, n_stretch, n_keys))
    else if be_value_type e = VT_STRETCH_KEY then
      rbind (add8 n_stretch 1) (\<lambda>n_stretch.
      rbind (ok_or (bde_le32 (be_data e) (offset_of StretchKeyValue ''method'')) BadStretchKey) (\<lambda>_.
      rbind (ok_or (arr BDE_SALT_LEN (be_data e) (offset_of StretchKeyValue ''salt'')) BadStretchKey) (\<lambda>salt.
      Ok (p\<lparr>pr_salt := Some salt\<rparr>, n_ccm, n_stretch, n_keys))))
    else if be_value_type e = VT_KEY then
      rbind (add8 n_keys 1) (\<lambda>n_keys.
      rbind (key_value (be_data e)) (\<lambda>k.
      rbind (ok_or (key_256 (bk_key k)) BadKey) (\<lambda>key.
      Ok (p\<lparr>pr_clear_key := Some key\<rparr>, n_ccm, n_stretch, n_keys))))
    else Ok (p, n_ccm, n_stretch, n_keys))"

definition schema_ok :: "protector_kind \<Rightarrow> nat \<Rightarrow> nat \<Rightarrow> nat \<Rightarrow> bool" where
  "schema_ok kind n_ccm n_stretch n_keys = (case kind of
      Password \<Rightarrow> n_ccm = 1 \<and> n_stretch = 1 \<and> n_keys = 0
    | RecoveryPassword \<Rightarrow> n_ccm = 1 \<and> n_stretch = 1 \<and> n_keys = 0
    | ClearKey \<Rightarrow> n_ccm = 1 \<and> n_stretch = 0 \<and> n_keys = 1
    | StartupKeyKind \<Rightarrow> n_ccm = 1 \<and> n_keys = 0
    | _ \<Rightarrow> True)"

definition protector_parse :: "bytes \<Rightarrow> (bde_error, protector) res" where
  "protector_parse data =
    rbind (ok_or (arr VMK_ID_LEN data (offset_of VmkHeader ''id'')) BadVmk) (\<lambda>idn.
    rbind (ok_or (bde_le16 data (offset_of VmkHeader ''protection'')) BadVmk) (\<lambda>raw.
    let kind = protector_from_u16 raw in
    rbind (ok_or (get_range data VMK_FIXED (length data)) BadVmk) (\<lambda>nested.
    rbind (for_entries (\<lambda>x. x) protector_step (entries_new nested MAX_NESTED)
        (\<lparr>pr_id = idn, pr_kind = kind, pr_salt = None, pr_clear_key = None, pr_wrapped_vmk = None\<rparr>, 0, 0, 0))
      (\<lambda>(p, n_ccm, n_stretch, n_keys).
    if \<not> schema_ok kind n_ccm n_stretch n_keys then Err BadVmk
    else Ok (if usable kind then p else p\<lparr>pr_salt := None, pr_clear_key := None, pr_wrapped_vmk := None\<rparr>)))))"

section \<open>Metadata blocks\<close>

record bde_block =
  bb_raw :: bytes
  bb_agreed :: bytes
  bb_current_state :: nat
  bb_next_state :: nat
  bb_encrypted_size :: nat
  bb_conversion_size :: nat
  bb_header_sectors :: nat
  bb_metadata_offsets :: "nat \<times> nat \<times> nat"
  bb_header_offset :: nat
  bb_volume_id :: bytes
  bb_next_nonce :: nat
  bb_cipher :: cipher
  bb_created :: nat
  bb_entries :: bytes
  bb_validation :: "ccm option"

text \<open>The validation that follows the block: its wrapped hash, and how many bytes it takes.\<close>

definition validation_of :: "nat \<Rightarrow> bytes \<Rightarrow> nat \<Rightarrow> nat \<Rightarrow> (bde_error, ccm option \<times> nat) res" where
  "validation_of copy v vsize vver =
    (if vver = VALIDATION_VERSION_HASH then
       rbind (ok_or (get_range v VALIDATION_HEADER_LEN (min vsize (length v))) (BValidation copy)) (\<lambda>body.
       rbind (ok_or (bde_le16 body (offset_of fve_entry_header ''size'')) (BValidation copy)) (\<lambda>n.
       rbind (ok_or (get_range body 0 n) (BValidation copy)) (\<lambda>one.
       rbind (ok_or (fst (entries_next (entries_new one 1))) (BValidation copy)) (\<lambda>r.
       rbind (map_err (\<lambda>_. BValidation copy) r) (\<lambda>e.
       if be_value_type e \<noteq> VT_AES_CCM then Err (BValidation copy) else
       rbind (map_err (\<lambda>_. BValidation copy) (ccm_parse (be_data e))) (\<lambda>c.
       Ok (Some c, VALIDATION_HEADER_LEN + n)))))))
     else Ok (None, VALIDATION_HEADER_LEN))"

definition checksum_error :: "bytes \<Rightarrow> nat \<Rightarrow> bde_error" where
  "checksum_error raw copy =
    (case map_option cipher_from_u16 (bde_le16 raw (BLOCK_HEADER_LEN + offset_of MetadataHeader ''encryption'')) of
       Some c \<Rightarrow> if key_len c = None then UnsupportedCipher (cipher_to_u16 c) else BChecksum copy
     | None \<Rightarrow> BChecksum copy)"

definition block_fields ::
  "bytes \<Rightarrow> bytes \<Rightarrow> bytes \<Rightarrow> nat \<times> nat \<times> nat \<Rightarrow> ccm option \<Rightarrow> (bde_error, bde_block) res" where
  "block_fields region raw agreed offs validation =
    rbind (ok_or (get_range raw BLOCK_HEADER_LEN (length raw)) BMetadataHeader) (\<lambda>m.
    rbind (ok_or (bde_le32 m (offset_of MetadataHeader ''size'')) BMetadataHeader) (\<lambda>msize.
    if bde_le32 m (offset_of MetadataHeader ''version'') \<noteq> Some METADATA_VERSION
       \<or> bde_le32 m (offset_of MetadataHeader ''header_size'') \<noteq> Some METADATA_HEADER_LEN
       \<or> bde_le32 m (offset_of MetadataHeader ''size_copy'') \<noteq> Some msize
       \<or> msize < METADATA_HEADER_LEN \<or> msize > length m then Err BMetadataHeader else
    rbind (ok_or (get_range m METADATA_HEADER_LEN msize) BMetadataHeader) (\<lambda>entries.
    rbind (ok_or (bde_le16 region (offset_of BlockHeader ''current_state'')) BBlockSize) (\<lambda>cur.
    rbind (ok_or (bde_le16 region (offset_of BlockHeader ''next_state'')) BBlockSize) (\<lambda>nxt.
    rbind (ok_or (bde_le64 raw (offset_of BlockHeader ''encrypted_size'')) BBlockSize) (\<lambda>enc.
    rbind (ok_or (bde_le32 raw (offset_of BlockHeader ''conversion_size'')) BBlockSize) (\<lambda>conv.
    rbind (ok_or (bde_le32 raw (offset_of BlockHeader ''header_sectors'')) BBlockSize) (\<lambda>hs.
    rbind (ok_or (bde_le64 raw (offset_of BlockHeader ''header_offset'')) BBlockSize) (\<lambda>ho.
    rbind (ok_or (arr VOLUME_ID_LEN m (offset_of MetadataHeader ''volume_id'')) BMetadataHeader) (\<lambda>vid.
    rbind (ok_or (bde_le32 m (offset_of MetadataHeader ''next_nonce'')) BMetadataHeader) (\<lambda>nn.
    rbind (ok_or (bde_le16 m (offset_of MetadataHeader ''encryption'')) BMetadataHeader) (\<lambda>ci.
    rbind (ok_or (bde_le64 m (offset_of MetadataHeader ''created'')) BMetadataHeader) (\<lambda>cr.
    Ok \<lparr>bb_raw = raw, bb_agreed = agreed, bb_current_state = cur, bb_next_state = nxt, bb_encrypted_size = enc,
        bb_conversion_size = conv, bb_header_sectors = hs, bb_metadata_offsets = offs, bb_header_offset = ho,
        bb_volume_id = vid, bb_next_nonce = nn, bb_cipher = cipher_from_u16 ci, bb_created = cr,
        bb_entries = entries, bb_validation = validation\<rparr>)))))))))))))"

definition parse_block :: "bytes \<Rightarrow> nat \<Rightarrow> volume_header \<Rightarrow> (bde_error, bde_block) res" where
  "parse_block region copy hdr =
    (let region = (case get_range region 0 REGION_SIZE of Some r \<Rightarrow> r | None \<Rightarrow> region) in
     if get_range region 0 (length BDE_SIGNATURE) \<noteq> Some BDE_SIGNATURE then Err (BlockSignature copy) else
     rbind (ok_or (bde_le16 region (offset_of BlockHeader ''size'')) BBlockSize) (\<lambda>units.
     let sz = units * BLOCK_SIZE_UNIT in
     rbind (ok_or (bde_le16 region (offset_of BlockHeader ''version'')) BBlockSize) (\<lambda>version.
     if version \<noteq> BLOCK_VERSION then Err (BlockVersion version) else
     if sz < BLOCK_HEADER_LEN + METADATA_HEADER_LEN \<or> saturating_add sz VALIDATION_HEADER_LEN > length region
     then Err BBlockSize else
     rbind (ok_or (get_range region 0 sz) BBlockSize) (\<lambda>raw.
     let offs_at = offset_of BlockHeader ''metadata_offsets'' in
     rbind (ok_or (bde_le64 raw offs_at) BBlockSize) (\<lambda>x.
     rbind (ok_or (bde_le64 raw (offs_at + 8)) BBlockSize) (\<lambda>y.
     rbind (ok_or (bde_le64 raw (offs_at + 16)) BBlockSize) (\<lambda>z.
     if (x, y, z) \<noteq> vh_metadata_offsets hdr then Err BlockLocation else
     rbind (ok_or (get_range region sz (length region)) (BValidation copy)) (\<lambda>v.
     rbind (ok_or (bde_le16 v (offset_of ValidationHeader ''size'')) (BValidation copy)) (\<lambda>vsize.
     rbind (ok_or (bde_le16 v (offset_of ValidationHeader ''version'')) (BValidation copy)) (\<lambda>vver.
     rbind (ok_or (bde_le32 v (offset_of ValidationHeader ''crc32'')) (BValidation copy)) (\<lambda>crc.
     rbind (sub64 REGION_SIZE sz) (\<lambda>room.
     if vsize < VALIDATION_HEADER_LEN \<or> vsize > room
        \<or> \<not> (VALIDATION_VERSION_CRC \<le> vver \<and> vver \<le> VALIDATION_VERSION_HASH) then Err (BValidation copy) else
     if unat (bde_crc32 raw) \<noteq> crc then Err (checksum_error raw copy) else
     rbind (validation_of copy v vsize vver) (\<lambda>(validation, vlen).
     rbind (ok_or (get_range region 0 (sz + vlen)) (BValidation copy)) (\<lambda>agreed.
     block_fields region raw agreed (x, y, z) validation))))))))))))))"

definition cross_check :: "bytes \<Rightarrow> bytes \<Rightarrow> bytes \<Rightarrow> volume_header \<Rightarrow> (bde_error, bde_block) res" where
  "cross_check a b c hdr =
    rbind (parse_block a 0 hdr) (\<lambda>first.
    rbind (parse_block b 1 hdr) (\<lambda>x.
    if bb_agreed x \<noteq> bb_agreed first then Err CopiesDisagree else
    rbind (parse_block c 2 hdr) (\<lambda>y.
    if bb_agreed y \<noteq> bb_agreed first then Err CopiesDisagree else
    Ok first)))"


section \<open>What the entries declare\<close>

record metadata =
  md_block :: bde_block
  md_fvek :: ccm
  md_volume_header :: "nat \<times> nat"
  md_extra_region :: "(nat \<times> nat) option"
  md_description :: "bytes option"
  md_protectors :: "protector list"

definition parse_extra_region :: "bytes \<Rightarrow> (bde_error, (nat \<times> nat) option) res" where
  "parse_extra_region tail =
    (if tail = [] then Ok None else
     rbind (ok_or (bde_le16 tail (offset_of ExtraRegionHead ''len'')) BExtraRegion) (\<lambda>len.
     if length tail < EXTRA_MIN \<or> len \<noteq> length tail then Err BExtraRegion else
     rbind (sub64 len (size_of OffsetAndSize)) (\<lambda>at.
     rbind (ok_or (bde_le64 tail (at + offset_of OffsetAndSize ''offset'')) BExtraRegion) (\<lambda>o'.
     rbind (ok_or (bde_le64 tail (at + offset_of OffsetAndSize ''size'')) BExtraRegion) (\<lambda>l.
     Ok (Some (o', l)))))))"

text \<open>The protectors are an array of \<open>MAX_PROTECTORS\<close> slots and a count: the list holds the filled ones.\<close>

definition metadata_step :: "bde_entry \<Rightarrow> metadata \<times> bool \<times> bool \<Rightarrow> (bde_error, metadata \<times> bool \<times> bool) res" where
  "metadata_step e = (\<lambda>(m, fvek, vhb).
    let schema = BSchema (be_entry_type e) (be_value_type e) in
    if be_entry_type e = ET_VMK then
      if be_value_type e \<noteq> VT_VMK then Err schema else
      rbind (protector_parse (be_data e)) (\<lambda>p.
      if length (md_protectors m) \<ge> MAX_PROTECTORS then Err TooManyProtectors
      else Ok (m\<lparr>md_protectors := md_protectors m @ [p]\<rparr>, fvek, vhb))
    else if be_entry_type e = ET_FVEK then
      if be_value_type e \<noteq> VT_AES_CCM then Err schema else
      if fvek then Err DuplicateFvek else
      rbind (ccm_parse (be_data e)) (\<lambda>c. Ok (m\<lparr>md_fvek := c\<rparr>, True, vhb))
    else if be_entry_type e = ET_VOLUME_HEADER_BLOCK then
      if be_value_type e \<noteq> VT_OFFSET_AND_SIZE then Err schema else
      if vhb then Err DuplicateVolumeHeader else
      rbind (ok_or (bde_le64 (be_data e) (offset_of OffsetAndSize ''offset'')) Relocation) (\<lambda>o'.
      rbind (ok_or (bde_le64 (be_data e) (offset_of OffsetAndSize ''size'')) Relocation) (\<lambda>l.
      rbind (parse_extra_region (case get_range (be_data e) (size_of OffsetAndSize) (length (be_data e)) of
          Some t \<Rightarrow> t | None \<Rightarrow> [])) (\<lambda>x.
      Ok (m\<lparr>md_volume_header := (o', l), md_extra_region := x\<rparr>, fvek, True))))
    else if be_entry_type e = ET_DESCRIPTION then
      if be_value_type e \<noteq> VT_UNICODE then Err schema else
      Ok (m\<lparr>md_description := Some (be_data e)\<rparr>, fvek, vhb)
    else Ok (m, fvek, vhb))"

definition metadata_empty :: "bde_block \<Rightarrow> metadata" where
  "metadata_empty b = \<lparr>md_block = b,
     md_fvek = \<lparr>ccm_nonce = replicate CCM_NONCE_LEN 0, ccm_tag = replicate CCM_TAG_LEN 0, ccm_ciphertext = []\<rparr>,
     md_volume_header = (0, 0), md_extra_region = None, md_description = None, md_protectors = []\<rparr>"

definition metadata_parse :: "bde_block \<Rightarrow> (bde_error, metadata) res" where
  "metadata_parse b =
    rbind (for_entries (\<lambda>x. x) metadata_step (entries_new (bb_entries b) BDE_MAX_ENTRIES) (metadata_empty b, False, False))
      (\<lambda>(m, fvek, vhb).
    if \<not> fvek then Err MissingFvek else
    if \<not> vhb then Err MissingVolumeHeader else
    Ok m)"

definition of_kind :: "metadata \<Rightarrow> protector_kind \<Rightarrow> protector list" where
  "of_kind m k = filter (\<lambda>p. pr_kind p = k) (md_protectors m)"

section \<open>Startup keys\<close>

record startup_key =
  sk_id :: bytes
  sk_key :: bytes

definition startup_nested_step :: "bde_entry \<Rightarrow> bytes option \<Rightarrow> (bde_error, bytes option) res" where
  "startup_nested_step n key =
    (if be_value_type n = VT_KEY then
       if key \<noteq> None then Err BadStartupKey else
       rbind (map_err (\<lambda>_. BadStartupKey) (key_value (be_data n))) (\<lambda>k.
       rbind (ok_or (key_256 (bk_key k)) BadStartupKey) (\<lambda>k. Ok (Some k)))
     else Ok key)"

definition startup_step :: "bde_entry \<Rightarrow> startup_key option \<Rightarrow> (bde_error, startup_key option) res" where
  "startup_step e found =
    (if be_entry_type e \<noteq> ET_STARTUP_KEY then Ok found else
     if be_value_type e \<noteq> VT_EXTERNAL_KEY \<or> found \<noteq> None then Err BadStartupKey else
     rbind (ok_or (arr VMK_ID_LEN (be_data e) (offset_of ExternalKeyValue ''id'')) BadStartupKey) (\<lambda>idn.
     rbind (ok_or (get_range (be_data e) (size_of ExternalKeyValue) (length (be_data e))) BadStartupKey) (\<lambda>nested.
     rbind (for_entries (\<lambda>_. BadStartupKey) startup_nested_step (entries_new nested MAX_NESTED) None) (\<lambda>key.
     rbind (ok_or key BadStartupKey) (\<lambda>key.
     Ok (Some \<lparr>sk_id = idn, sk_key = key\<rparr>))))))"

definition parse_startup_key :: "bytes \<Rightarrow> (bde_error, startup_key) res" where
  "parse_startup_key file =
    rbind (ok_or (bde_le32 file (offset_of MetadataHeader ''size'')) BadStartupKey) (\<lambda>sz.
    if sz \<noteq> length file \<or> sz > MAX_STARTUP_KEY_FILE
       \<or> bde_le32 file (offset_of MetadataHeader ''version'') \<noteq> Some METADATA_VERSION
       \<or> bde_le32 file (offset_of MetadataHeader ''header_size'') \<noteq> Some METADATA_HEADER_LEN
       \<or> bde_le32 file (offset_of MetadataHeader ''size_copy'') \<noteq> Some sz then Err BadStartupKey else
    rbind (ok_or (get_range file METADATA_HEADER_LEN (length file)) BadStartupKey) (\<lambda>list.
    rbind (for_entries (\<lambda>_. BadStartupKey) startup_step (entries_new list MAX_NESTED) None) (\<lambda>found.
    ok_or found BadStartupKey)))"

section \<open>The map of the decrypted view\<close>

datatype source = SDisk nat bool | SZero

record bde_layout =
  bl_bytes_per_sector :: nat
  bl_volume_size :: nat
  bl_metadata_offsets :: "nat \<times> nat \<times> nat"
  bl_reloc_len :: nat
  bl_reloc_offset :: nat
  bl_extra_region :: "nat option"
  bl_encrypted_size :: nat
  bl_cipher :: cipher
  bl_partial :: bool

definition offs3 :: "nat \<times> nat \<times> nat \<Rightarrow> nat list" where
  "offs3 t = (case t of (x, y, z) \<Rightarrow> [x, y, z])"

definition extra_of :: "(nat \<times> nat) option \<Rightarrow> nat \<Rightarrow> nat \<Rightarrow> (bde_error, nat option) res" where
  "extra_of extra bps vsize = (case extra of
      None \<Rightarrow> Ok None
    | Some (o', l) \<Rightarrow>
        let inside = (case checked_add o' l of Some e \<Rightarrow> e \<le> vsize | None \<Rightarrow> False) in
        if l \<noteq> REGION_SIZE \<or> o' = 0 \<or> o' mod bps \<noteq> 0 \<or> \<not> inside then Err BExtraRegion
        else Ok (Some o'))"

definition ranges_meet :: "nat \<times> nat \<Rightarrow> nat \<times> nat \<Rightarrow> bool" where
  "ranges_meet p q = (case (p, q) of ((o1, l1), (o2, l2)) \<Rightarrow>
     l1 \<noteq> 0 \<and> l2 \<noteq> 0 \<and> o1 < saturating_add o2 l2 \<and> o2 < saturating_add o1 l1)"

fun regions_loop :: "nat \<Rightarrow> nat \<Rightarrow> (nat \<times> nat) list \<Rightarrow> (bde_error, unit) res" where
  "regions_loop i vsize [] = Ok ()"
| "regions_loop i vsize ((o', l) # rs) =
    (if \<not> (case checked_add o' l of Some e \<Rightarrow> e \<le> vsize | None \<Rightarrow> False)
     then Err (if i < 2 then Relocation else BMetadataOffset)
     else if list_ex (ranges_meet (o', l)) rs then Err BOverlap
     else regions_loop (i + 1) vsize rs)"

definition layout_regions :: "nat \<Rightarrow> nat \<Rightarrow> nat \<times> nat \<times> nat \<Rightarrow> nat option \<Rightarrow> (nat \<times> nat) list" where
  "layout_regions reloc_offset reloc_len offs extra =
    [(0, reloc_len), (reloc_offset, reloc_len)] @ map (\<lambda>o'. (o', REGION_SIZE)) (offs3 offs)
    @ [(case extra of Some o' \<Rightarrow> o' | None \<Rightarrow> 0, case extra of Some _ \<Rightarrow> REGION_SIZE | None \<Rightarrow> 0)]"

definition state_accepted :: "bde_block \<Rightarrow> bool" where
  "state_accepted b \<longleftrightarrow>
     (if bb_current_state b = ST_ENCRYPTED \<and> bb_next_state b = ST_ENCRYPTED then True
      else if (bb_current_state b = ST_SWITCHING \<or> bb_current_state b = ST_PAUSED) \<and> bb_next_state b = ST_ENCRYPTED
      then bb_conversion_size b = 0
      else False)"

definition layout_new :: "volume_header \<Rightarrow> metadata \<Rightarrow> nat \<Rightarrow> (bde_error, bde_layout) res" where
  "layout_new hdr m volume_size =
    (let b = md_block m; bps = vh_bytes_per_sector hdr in
     if vh_eow hdr then Err UsedSpaceOnly else
     if bps \<notin> set SECTOR_SIZES then Err (BSectorSize (bps mod u16_lim)) else
     if list_ex (\<lambda>o'. o' = 0 \<or> o' mod bps \<noteq> 0) (offs3 (vh_metadata_offsets hdr)) then Err BMetadataOffset else
     let vsize = volume_size - volume_size mod bps; (reloc_offset, reloc_len) = md_volume_header m in
     if reloc_offset \<noteq> bb_header_offset b \<or> Some reloc_len \<noteq> checked_mul (bb_header_sectors b) bps
        \<or> reloc_len = 0 \<or> reloc_offset mod bps \<noteq> 0 then Err Relocation else
     rbind (extra_of (md_extra_region m) bps vsize) (\<lambda>extra.
     rbind (regions_loop 0 vsize (layout_regions reloc_offset reloc_len (vh_metadata_offsets hdr) extra)) (\<lambda>_.
     if bb_encrypted_size b > vsize \<or> bb_encrypted_size b mod bps \<noteq> 0 then Err BEncryptedSize else
     if \<not> state_accepted b then Err (BState (bb_current_state b) (bb_next_state b)) else
     if key_len (bb_cipher b) = None then Err (UnsupportedCipher (cipher_to_u16 (bb_cipher b))) else
     Ok \<lparr>bl_bytes_per_sector = bps, bl_volume_size = vsize, bl_metadata_offsets = vh_metadata_offsets hdr,
         bl_reloc_len = reloc_len, bl_reloc_offset = reloc_offset, bl_extra_region = extra,
         bl_encrypted_size = bb_encrypted_size b, bl_cipher = bb_cipher b,
         bl_partial = (bb_encrypted_size b < vsize)\<rparr>)))"

text \<open>Division by zero panics: the sector size of a hand-made layout may be 0.\<close>

definition bde_div :: "nat \<Rightarrow> nat \<Rightarrow> ('e, nat) res" where
  "bde_div a b = (if b = 0 then Panic else Ok (a div b))"

definition layout_units :: "bde_layout \<Rightarrow> (bde_error, nat) res" where
  "layout_units l = bde_div (bl_volume_size l) (bl_bytes_per_sector l)"

text \<open>The closure \<open>bound\<close>: the next boundary after \<open>off\<close> comes closer.\<close>

definition bound :: "nat \<Rightarrow> nat \<Rightarrow> nat \<Rightarrow> nat" where
  "bound off b nxt = (if b > off \<and> b < nxt then b else nxt)"

fun hidden_loop :: "nat \<Rightarrow> (nat \<times> nat) list \<Rightarrow> nat \<Rightarrow> (bde_error, bool \<times> nat) res" where
  "hidden_loop off [] nxt = Ok (False, nxt)"
| "hidden_loop off ((o', l) # rs) nxt =
    (if off \<ge> o' then
       rbind (add64 o' l) (\<lambda>e.
       if off < e then Ok (True, bound off e nxt) else hidden_loop off rs (bound off o' nxt))
     else hidden_loop off rs (bound off o' nxt))"

definition layout_hidden :: "bde_layout \<Rightarrow> (nat \<times> nat) list" where
  "layout_hidden l = (bl_reloc_offset l, bl_reloc_len l) # map (\<lambda>o'. (o', REGION_SIZE)) (offs3 (bl_metadata_offsets l))"

definition layout_map :: "bde_layout \<Rightarrow> nat \<Rightarrow> (bde_error, (source \<times> nat) option) res" where
  "layout_map l unit =
    (let bps = bl_bytes_per_sector l; encrypted = (\<lambda>o'. o' < bl_encrypted_size l) in
     case checked_mul unit bps of
       None \<Rightarrow> Ok None
     | Some off \<Rightarrow>
     if off \<ge> bl_volume_size l then Ok None else
     if off < bl_reloc_len l then
       rbind (add64 (bl_reloc_offset l) off) (\<lambda>phys.
       let nxt = bound off (bl_reloc_len l) (bl_volume_size l);
           nxt = bound off (saturating_sub (bl_encrypted_size l) (bl_reloc_offset l)) nxt in
       rbind (rbind (sub64 nxt off) (\<lambda>d. bde_div d bps)) (\<lambda>run.
       rbind (bde_div phys bps) (\<lambda>u.
       Ok (Some (SDisk u (encrypted phys), run)))))
     else
       rbind (hidden_loop off (layout_hidden l) (bl_volume_size l)) (\<lambda>(hid, nxt).
       if hid then rbind (rbind (sub64 nxt off) (\<lambda>d. bde_div d bps)) (\<lambda>run. Ok (Some (SZero, run)))
       else
         let nxt = bound off (bl_encrypted_size l) nxt in
         rbind (rbind (sub64 nxt off) (\<lambda>d. bde_div d bps)) (\<lambda>run.
         Ok (Some (SDisk unit (encrypted off), run)))))"

definition reserved_ranges :: "bde_layout \<Rightarrow> (nat \<times> nat) list" where
  "reserved_ranges l = map (\<lambda>(o', n). (o' div SECTOR, n div SECTOR))
    ([(0, bl_reloc_len l), (bl_reloc_offset l, bl_reloc_len l)]
     @ map (\<lambda>o'. (o', REGION_SIZE)) (offs3 (bl_metadata_offsets l))
     @ (case bl_extra_region l of Some o' \<Rightarrow> [(o', REGION_SIZE)] | None \<Rightarrow> []))"

definition overlaps_reserved :: "bde_layout \<Rightarrow> extent list \<Rightarrow> bool" where
  "overlaps_reserved l exts \<longleftrightarrow>
     list_ex (\<lambda>(start, len). list_ex (\<lambda>e. estart e < saturating_add start len \<and> start < eend e) exts) (reserved_ranges l)"

definition bde_fve_layout :: "bde_layout \<Rightarrow> fve_layout" where
  "bde_fve_layout l = \<lparr>fl_metadata_offsets = bl_metadata_offsets l, fl_region_size = REGION_SIZE,
     fl_reloc_offset = bl_reloc_offset l,
     fl_reloc_sectors = (if bl_reloc_len l div SECTOR < u32_lim then bl_reloc_len l div SECTOR else u32_lim - 1),
     fl_encrypted_size = bl_encrypted_size l, fl_sector_size = bl_bytes_per_sector l,
     fl_extra_region_offset = (case bl_extra_region l of Some o' \<Rightarrow> o' | None \<Rightarrow> 0)\<rparr>"

end
