(* ===== verification/BdeCorrect.thy ===== *)
theory BdeCorrect
  imports Bde
begin

text \<open>
  What a layout accepted by \<open>Layout::new\<close> guarantees, and that \<open>Layout::map\<close> computes the decrypted view unit
  by unit: \<open>unit_source\<close> is the specification of one unit, the runs of \<open>layout_map\<close> agree with it.
\<close>

section \<open>Accepted layouts\<close>

definition region_in :: "nat \<Rightarrow> nat \<times> nat \<Rightarrow> bool" where
  "region_in off r \<longleftrightarrow> fst r \<le> off \<and> off < fst r + snd r"

definition reserved :: "bde_layout \<Rightarrow> (nat \<times> nat) list" where
  "reserved l = layout_regions (bl_reloc_offset l) (bl_reloc_len l) (bl_metadata_offsets l) (bl_extra_region l)"

definition layout_inv :: "bde_layout \<Rightarrow> bool" where
  "layout_inv l \<longleftrightarrow> (let bps = bl_bytes_per_sector l in
     (bps = 512 \<or> bps = 4096) \<and> bl_volume_size l < u64_lim \<and> bps dvd bl_volume_size l
     \<and> 0 < bl_reloc_len l \<and> bl_encrypted_size l \<le> bl_volume_size l \<and> bps dvd bl_encrypted_size l
     \<and> (\<forall>r\<in>set (reserved l). fst r + snd r \<le> bl_volume_size l \<and> bps dvd fst r \<and> bps dvd snd r)
     \<and> sorted_wrt (\<lambda>p q. \<forall>off. \<not> (region_in off p \<and> region_in off q)) (reserved l))"

lemma meet_apart:
  assumes "\<not> ranges_meet p q" "fst p + snd p < u64_lim" "fst q + snd q < u64_lim"
  shows "\<not> (region_in off p \<and> region_in off q)"
  using assms by (cases p; cases q) (auto simp: ranges_meet_def region_in_def saturating_add_def)

lemma regions_loop_Ok:
  assumes "regions_loop i v rs = Ok ()" "v < u64_lim"
  shows "(\<forall>r\<in>set rs. fst r + snd r \<le> v) \<and> sorted_wrt (\<lambda>p q. \<forall>off. \<not> (region_in off p \<and> region_in off q)) rs"
  using assms
proof (induction i v rs rule: regions_loop.induct)
  case (2 i v o' l rs)
  then have *: "o' + l \<le> v" "\<not> list_ex (ranges_meet (o', l)) rs" "regions_loop (i + 1) v rs = Ok ()"
    by (auto split: if_splits option.splits)
  with 2 have IH: "\<forall>r\<in>set rs. fst r + snd r \<le> v"
    "sorted_wrt (\<lambda>p q. \<forall>off. \<not> (region_in off p \<and> region_in off q)) rs"
    by (auto split: if_splits option.splits)
  have "\<not> (region_in off (o', l) \<and> region_in off q)" if "q \<in> set rs" for q off
    using *(1,2) IH(1) that 2(3) by (intro meet_apart) (auto simp: list_ex_iff intro: le_less_trans)
  with * IH show ?case by auto
qed simp

lemma layout_new_inv:
  assumes "layout_new hdr m vs = Ok l" "vs < u64_lim"
  shows "layout_inv l"
proof -
  let ?b = "vh_bytes_per_sector hdr" and ?v = "vs - vs mod vh_bytes_per_sector hdr"
  obtain x y z where t: "vh_metadata_offsets hdr = (x, y, z)" by (cases "vh_metadata_offsets hdr")
  obtain ro rl where h: "md_volume_header m = (ro, rl)" by (cases "md_volume_header m")
  from assms(1) obtain ex where
    bps: "?b = 512 \<or> ?b = 4096" and off: "?b dvd x" "?b dvd y" "?b dvd z"
    and rel: "?b dvd ro" "0 < rl" "Some rl = checked_mul (bb_header_sectors (md_block m)) ?b"
    and ex: "extra_of (md_extra_region m) ?b ?v = Ok ex"
    and rg: "regions_loop 0 ?v (layout_regions ro rl (x, y, z) ex) = Ok ()"
    and enc: "bb_encrypted_size (md_block m) \<le> ?v" "?b dvd bb_encrypted_size (md_block m)"
    and l: "l = \<lparr>bl_bytes_per_sector = ?b, bl_volume_size = ?v, bl_metadata_offsets = (x, y, z),
         bl_reloc_len = rl, bl_reloc_offset = ro, bl_extra_region = ex,
         bl_encrypted_size = bb_encrypted_size (md_block m), bl_cipher = bb_cipher (md_block m),
         bl_partial = (bb_encrypted_size (md_block m) < ?v)\<rparr>"
    by (auto simp: layout_new_def Let_def t h SECTOR_SIZES_def offs3_def rbind_eq_Ok split: if_splits)
  have v: "?v < u64_lim" "?b dvd ?v" using assms(2) by (simp_all add: less_imp_diff_less)
  have d: "?b dvd rl" using rel(3) by (auto simp: checked_mul_def split: if_splits)
  have e: "case ex of None \<Rightarrow> True | Some e \<Rightarrow> ?b dvd e"
    using ex by (auto simp: extra_of_def Let_def split: option.splits prod.splits if_splits)
  have R: "?b dvd REGION_SIZE" using bps by (auto simp: REGION_SIZE_def)
  show ?thesis
    using bps v d e R rel off enc regions_loop_Ok [OF rg v(1)]
    by (auto simp: l layout_inv_def reserved_def layout_regions_def offs3_def Let_def split: option.splits)
qed

lemma layout_new_size: "layout_new hdr m vs = Ok l \<Longrightarrow> bl_volume_size l \<le> vs"
  by (auto simp: layout_new_def Let_def rbind_eq_Ok split: if_splits prod.splits)

section \<open>The view, unit by unit\<close>

definition unit_source :: "bde_layout \<Rightarrow> nat \<Rightarrow> source" where
  "unit_source l u =
    (let off = u * bl_bytes_per_sector l in
     if off < bl_reloc_len l
     then SDisk (u + bl_reloc_offset l div bl_bytes_per_sector l) (bl_reloc_offset l + off < bl_encrypted_size l)
     else if \<exists>r\<in>set (layout_hidden l). region_in off r then SZero
     else SDisk u (off < bl_encrypted_size l))"

fun advance :: "source \<Rightarrow> nat \<Rightarrow> source" where
  "advance (SDisk u e) k = SDisk (u + k) e"
| "advance SZero k = SZero"

definition units_of :: "bde_layout \<Rightarrow> nat" where
  "units_of l = bl_volume_size l div bl_bytes_per_sector l"

lemma bound_props:
  assumes "off < n"
  shows "off < bound off b n" "bound off b n \<le> n" "b \<le> off \<or> bound off b n \<le> b"
    "d dvd b \<Longrightarrow> d dvd n \<Longrightarrow> d dvd bound off b n"
  using assms by (auto simp: bound_def)

lemma hidden_loop_Ok:
  assumes "off < n" "\<forall>r\<in>set rs. fst r + snd r < u64_lim \<and> d dvd fst r \<and> d dvd snd r" "d dvd n"
  shows "\<exists>h n'. hidden_loop off rs n = Ok (h, n') \<and> off < n' \<and> n' \<le> n \<and> d dvd n'
     \<and> (if h then \<exists>r\<in>set rs. fst r \<le> off \<and> n' \<le> fst r + snd r
        else \<forall>r\<in>set rs. \<not> region_in off r \<and> (fst r \<le> off \<or> n' \<le> fst r))"
  using assms
proof (induction rs arbitrary: n)
  case (Cons r rs n)
  obtain o' l where r: "r = (o', l)" by (cases r)
  note 2 = TrueI Cons.IH Cons.prems [unfolded r]
  show ?case
  proof (cases "o' \<le> off \<and> off < o' + l")
    case True
    then have "hidden_loop off ((o', l) # rs) n = Ok (True, bound off (o' + l) n)"
      using 2(4) by (simp add: add64_def)
    moreover have "\<exists>r\<in>set ((o', l) # rs). fst r \<le> off \<and> bound off (o' + l) n \<le> fst r + snd r"
      using True bound_props(3) [OF 2(3), of "o' + l"] by simp
    ultimately show ?thesis unfolding r
      using 2(4,5) bound_props(1,2) [OF 2(3), of "o' + l"] bound_props(4) [OF 2(3), of d "o' + l"]
      by simp (rule exI [of _ True], simp)
  next
    case False
    then have eq: "hidden_loop off ((o', l) # rs) n = hidden_loop off rs (bound off o' n)"
      using 2(4) by (auto simp: add64_def)
    let ?n = "bound off o' n"
    note b = bound_props [OF 2(3), of o'] bound_props(4) [OF 2(3), of d o']
    have IH: "\<exists>h n'. hidden_loop off rs ?n = Ok (h, n') \<and> off < n' \<and> n' \<le> ?n \<and> d dvd n'
     \<and> (if h then \<exists>r\<in>set rs. fst r \<le> off \<and> n' \<le> fst r + snd r
        else \<forall>r\<in>set rs. \<not> region_in off r \<and> (fst r \<le> off \<or> n' \<le> fst r))"
      using 2(4,5) b(1,5) by (intro 2(2)) auto
    then obtain h n' where L: "hidden_loop off rs ?n = Ok (h, n')" "off < n'" "n' \<le> ?n" "d dvd n'"
      and c: "if h then \<exists>r\<in>set rs. fst r \<le> off \<and> n' \<le> fst r + snd r
        else \<forall>r\<in>set rs. \<not> region_in off r \<and> (fst r \<le> off \<or> n' \<le> fst r)" by blast
    have "\<not> region_in off (o', l)" "o' \<le> off \<or> n' \<le> o'" "n' \<le> n"
      using False L(3) b(2,3) by (auto simp: region_in_def)
    with c have c': "if h then \<exists>r\<in>set ((o', l) # rs). fst r \<le> off \<and> n' \<le> fst r + snd r
        else \<forall>r\<in>set ((o', l) # rs). \<not> region_in off r \<and> (fst r \<le> off \<or> n' \<le> fst r)"
      by (cases h) auto
    show ?thesis unfolding r eq using L(1,2,4) \<open>n' \<le> n\<close> c' by blast
  qed
qed (simp, rule exI [of _ False], simp)

lemma hidden_stays:
  assumes "if h then \<exists>r\<in>set rs. fst r \<le> off \<and> n \<le> fst r + snd r
      else \<forall>r\<in>set rs. \<not> region_in off r \<and> (fst r \<le> off \<or> n \<le> fst r)" "off \<le> p" "p < n"
  shows "(\<exists>r\<in>set rs. region_in p r) = h"
proof (cases h)
  case True
  with assms obtain r where "r \<in> set rs" "fst r \<le> off" "n \<le> fst r + snd r" by auto
  with assms(2,3) True show ?thesis by (auto simp: region_in_def intro!: bexI [of _ r])
next
  case False
  have "\<not> region_in p r" if "r \<in> set rs" for r
  proof -
    have "\<not> region_in off r" "fst r \<le> off \<or> n \<le> fst r" using assms(1) False that by auto
    with assms(2,3) show ?thesis unfolding region_in_def by linarith
  qed
  with False show ?thesis by simp
qed

lemma run_units:
  assumes "off = u * b" "off < n" "b dvd n" "0 < (b :: nat)"
  shows "0 < (n - off) div b" "u + (n - off) div b = n div b"
    "k < (n - off) div b \<Longrightarrow> off \<le> (u + k) * b \<and> (u + k) * b < n"
proof -
  obtain q where q: "n = b * q" using assms(3) by auto
  with assms have "u < q" by (simp add: mult.commute)
  moreover have d: "(n - off) div b = q - u"
    using assms q by (simp add: diff_mult_distrib2 [symmetric] mult.commute)
  ultimately show "0 < (n - off) div b" "u + (n - off) div b = n div b"
    using assms q by auto
  show "off \<le> (u + k) * b \<and> (u + k) * b < n" if "k < (n - off) div b"
  proof -
    have "u + k < q" using that d by linarith
    then show ?thesis using assms q by (simp add: mult.commute)
  qed
qed


definition map_post :: "bde_layout \<Rightarrow> nat \<Rightarrow> (source \<times> nat) option \<Rightarrow> bool" where
  "map_post l u r = (case r of
      None \<Rightarrow> units_of l \<le> u
    | Some (src, run) \<Rightarrow> 0 < run \<and> u + run \<le> units_of l \<and> (\<forall>k<run. unit_source l (u + k) = advance src k))"

lemma layout_invD:
  assumes "layout_inv l"
  shows "bl_bytes_per_sector l = 512 \<or> bl_bytes_per_sector l = 4096" "0 < bl_bytes_per_sector l"
    "bl_volume_size l < u64_lim" "bl_bytes_per_sector l dvd bl_volume_size l"
    "bl_bytes_per_sector l dvd bl_encrypted_size l" "bl_encrypted_size l \<le> bl_volume_size l"
    "bl_bytes_per_sector l dvd bl_reloc_len l" "bl_bytes_per_sector l dvd bl_reloc_offset l"
    "0 < bl_reloc_len l" "bl_reloc_offset l + bl_reloc_len l \<le> bl_volume_size l"
    "r \<in> set (layout_hidden l) \<Longrightarrow> fst r + snd r < u64_lim \<and> bl_bytes_per_sector l dvd fst r \<and> bl_bytes_per_sector l dvd snd r"
proof -
  have A: "\<forall>r\<in>set (reserved l). fst r + snd r \<le> bl_volume_size l \<and> bl_bytes_per_sector l dvd fst r
      \<and> bl_bytes_per_sector l dvd snd r"
    and B: "bl_bytes_per_sector l = 512 \<or> bl_bytes_per_sector l = 4096" "bl_volume_size l < u64_lim"
      "bl_bytes_per_sector l dvd bl_volume_size l" "bl_bytes_per_sector l dvd bl_encrypted_size l"
      "bl_encrypted_size l \<le> bl_volume_size l" "0 < bl_reloc_len l"
    using assms unfolding layout_inv_def Let_def by simp_all
  have M: "(bl_reloc_offset l, bl_reloc_len l) \<in> set (reserved l)" "set (layout_hidden l) \<subseteq> set (reserved l)"
    by (auto simp: reserved_def layout_regions_def layout_hidden_def)
  show "bl_bytes_per_sector l = 512 \<or> bl_bytes_per_sector l = 4096" "0 < bl_bytes_per_sector l"
    "bl_volume_size l < u64_lim" "bl_bytes_per_sector l dvd bl_volume_size l"
    "bl_bytes_per_sector l dvd bl_encrypted_size l" "bl_encrypted_size l \<le> bl_volume_size l" "0 < bl_reloc_len l"
    using B by auto
  show "bl_bytes_per_sector l dvd bl_reloc_len l" "bl_bytes_per_sector l dvd bl_reloc_offset l"
    "bl_reloc_offset l + bl_reloc_len l \<le> bl_volume_size l"
    using A M(1) by auto
  show "fst r + snd r < u64_lim \<and> bl_bytes_per_sector l dvd fst r \<and> bl_bytes_per_sector l dvd snd r"
    if "r \<in> set (layout_hidden l)"
    using A M(2) that B(2) by (meson le_less_trans subsetD)
qed

lemma map_moved:
  assumes inv: "layout_inv l" and off: "off = u * bl_bytes_per_sector l" "off < bl_reloc_len l"
  shows "\<exists>r. layout_map l u = Ok r \<and> map_post l u r"
proof -
  note I = layout_invD [OF inv]
  let ?b = "bl_bytes_per_sector l" and ?ro = "bl_reloc_offset l" and ?e = "bl_encrypted_size l"
  define n1 where "n1 = bound off (bl_reloc_len l) (bl_volume_size l)"
  define n2 where "n2 = bound off (?e - ?ro) n1"
  have v: "off < bl_volume_size l" using off I by linarith
  note B1 = bound_props [OF v, of "bl_reloc_len l", folded n1_def] bound_props(4) [OF v I(7) I(4), folded n1_def]
  have de: "?b dvd ?e - ?ro" using I(5,8) by (simp add: dvd_diff_nat)
  note B2 = bound_props [OF B1(1), of "?e - ?ro", folded n2_def] bound_props(4) [OF B1(1) de B1(5), folded n2_def]
  note R = run_units [OF off(1) B2(1) B2(5) I(2)]
  have m: "layout_map l u = Ok (Some (SDisk (u + ?ro div ?b) (?ro + off < ?e), (n2 - off) div ?b))"
    using off v I B2(1) by (auto simp: layout_map_def Let_def checked_mul_def saturating_sub_def add64_def
        sub64_def bde_div_def n1_def n2_def)
  have "unit_source l (u + k) = SDisk (u + ?ro div ?b + k) (?ro + off < ?e)" if "k < (n2 - off) div ?b" for k
  proof -
    have k: "off \<le> (u + k) * ?b" "(u + k) * ?b < n2" using R(3) [OF that] by auto
    then have "(u + k) * ?b < bl_reloc_len l" "?ro + (u + k) * ?b < ?e \<longleftrightarrow> ?ro + off < ?e"
      using B1(3) B2(2,3) off(2) by linarith+
    then show ?thesis by (simp add: unit_source_def Let_def)
  qed
  moreover have "u + (n2 - off) div ?b \<le> units_of l"
    unfolding R(2) units_of_def using B1(2) B2(2) by (intro div_le_mono) simp
  ultimately show ?thesis using R(1) by (simp add: m map_post_def)
qed

lemma map_in_place:
  assumes inv: "layout_inv l" and off: "off = u * bl_bytes_per_sector l" "\<not> off < bl_reloc_len l" "off < bl_volume_size l"
  shows "\<exists>r. layout_map l u = Ok r \<and> map_post l u r"
proof -
  note I = layout_invD [OF inv]
  let ?b = "bl_bytes_per_sector l" and ?e = "bl_encrypted_size l"
  obtain h n where L: "hidden_loop off (layout_hidden l) (bl_volume_size l) = Ok (h, n)" "off < n"
      "n \<le> bl_volume_size l" "?b dvd n"
    and c: "if h then \<exists>r\<in>set (layout_hidden l). fst r \<le> off \<and> n \<le> fst r + snd r
        else \<forall>r\<in>set (layout_hidden l). \<not> region_in off r \<and> (fst r \<le> off \<or> n \<le> fst r)"
    using hidden_loop_Ok [OF off(3), of "layout_hidden l" ?b] I(4,11) by blast
  define n' where "n' = (if h then n else bound off ?e n)"
  define src where "src = (if h then SZero else SDisk u (off < ?e))"
  have n': "off < n'" "n' \<le> n" "?b dvd n'" "h \<or> ?e \<le> off \<or> n' \<le> ?e"
    using L bound_props [OF L(2), of ?e] I(5) bound_props(4) [OF L(2), of ?b ?e] by (auto simp: n'_def)
  note R = run_units [OF off(1) n'(1) n'(3) I(2)]
  have m: "layout_map l u = Ok (Some (src, (n' - off) div ?b))"
  proof -
    have "u * ?b < u64_lim" using off(1,3) I(3) by linarith
    then show ?thesis using off(2,3) L(1) n'(1) I(2)
      by (cases h) (simp_all add: layout_map_def Let_def checked_mul_def sub64_def bde_div_def n'_def src_def
          off(1) [symmetric])
  qed
  have "unit_source l (u + k) = advance src k" if "k < (n' - off) div ?b" for k
  proof -
    have k: "off \<le> (u + k) * ?b" "(u + k) * ?b < n'" using R(3) [OF that] by auto
    have "(\<exists>r\<in>set (layout_hidden l). region_in ((u + k) * ?b) r) \<longleftrightarrow> h"
      using hidden_stays [OF c k(1)] k(2) n'(2) by simp
    moreover have "h \<or> ((u + k) * ?b < ?e \<longleftrightarrow> off < ?e)" using k n'(4) by auto
    ultimately show ?thesis using k(1) off(2) by (auto simp: unit_source_def Let_def src_def)
  qed
  moreover have "u + (n' - off) div ?b \<le> units_of l"
    unfolding R(2) units_of_def using L(3) n'(2) by (intro div_le_mono) simp
  ultimately show ?thesis using R(1) by (simp add: m map_post_def)
qed

lemma units_of_le: "layout_inv l \<Longrightarrow> units_of l \<le> u \<longleftrightarrow> bl_volume_size l \<le> u * bl_bytes_per_sector l"
  using layout_invD(2,4) [of l] by (auto simp: units_of_def dvd_def)

lemma layout_map_post:
  assumes inv: "layout_inv l"
  shows "\<exists>r. layout_map l u = Ok r \<and> map_post l u r"
proof (cases "bl_volume_size l \<le> u * bl_bytes_per_sector l")
  case True
  then have "layout_map l u = Ok None" by (auto simp: layout_map_def Let_def checked_mul_def)
  with True units_of_le [OF inv] show ?thesis by (simp add: map_post_def)
next
  case False
  then show ?thesis using map_moved [OF inv refl] map_in_place [OF inv refl] by (meson not_le)
qed


section \<open>What the view reads\<close>

lemma reserved_eq:
  "bl_metadata_offsets l = (x, y, z) \<Longrightarrow> reserved l =
     [(0, bl_reloc_len l), (bl_reloc_offset l, bl_reloc_len l), (x, REGION_SIZE), (y, REGION_SIZE), (z, REGION_SIZE),
      (case bl_extra_region l of Some e \<Rightarrow> e | None \<Rightarrow> 0, case bl_extra_region l of Some _ \<Rightarrow> REGION_SIZE | None \<Rightarrow> 0)]"
  by (simp add: reserved_def layout_regions_def offs3_def)

lemma reserved_apart:
  assumes "layout_inv l" "region_in off (bl_reloc_offset l, bl_reloc_len l)"
  shows "\<not> off < bl_reloc_len l" "x \<in> set (offs3 (bl_metadata_offsets l)) \<Longrightarrow> \<not> region_in off (x, REGION_SIZE)"
proof -
  obtain x y z where t: "bl_metadata_offsets l = (x, y, z)" by (cases "bl_metadata_offsets l")
  have S: "sorted_wrt (\<lambda>p q. \<forall>off. \<not> (region_in off p \<and> region_in off q)) (reserved l)"
    using assms(1) by (simp add: layout_inv_def Let_def)
  show "\<not> off < bl_reloc_len l" using S assms(2) by (auto simp: reserved_eq [OF t] region_in_def)
  show "\<not> region_in off (w, REGION_SIZE)" if "w \<in> set (offs3 (bl_metadata_offsets l))" for w
    using S assms(2) that by (auto simp: reserved_eq [OF t] t offs3_def)
qed

lemma unit_source_disk:
  assumes inv: "layout_inv l" and u: "u < units_of l" and src: "unit_source l u = SDisk p e"
  shows "p < units_of l \<and> \<not> p * bl_bytes_per_sector l < bl_reloc_len l
    \<and> (\<forall>x\<in>set (offs3 (bl_metadata_offsets l)). \<not> region_in (p * bl_bytes_per_sector l) (x, REGION_SIZE))
    \<and> (if region_in (p * bl_bytes_per_sector l) (bl_reloc_offset l, bl_reloc_len l)
       then p = u + bl_reloc_offset l div bl_bytes_per_sector l else p = u)
    \<and> e = (p * bl_bytes_per_sector l < bl_encrypted_size l)"
proof (cases "u * bl_bytes_per_sector l < bl_reloc_len l")
  case True
  note I = layout_invD [OF inv]
  have p: "p = u + bl_reloc_offset l div bl_bytes_per_sector l" and e: "e = (bl_reloc_offset l + u * bl_bytes_per_sector l < bl_encrypted_size l)"
    using src True by (simp_all add: unit_source_def Let_def)
  have pb: "p * bl_bytes_per_sector l = bl_reloc_offset l + u * bl_bytes_per_sector l"
    using I(8) by (simp add: p add_mult_distrib)
  have r: "region_in (p * bl_bytes_per_sector l) (bl_reloc_offset l, bl_reloc_len l)"
    using True by (simp add: pb region_in_def)
  have "\<not> units_of l \<le> p" using units_of_le [OF inv, of p] I(10) True by (simp add: pb)
  with r reserved_apart [OF inv r] show ?thesis by (simp add: p e pb [unfolded p])
next
  case False
  with src have "\<forall>r\<in>set (layout_hidden l). \<not> region_in (u * bl_bytes_per_sector l) r" "p = u"
      "e = (u * bl_bytes_per_sector l < bl_encrypted_size l)"
    by (auto simp: unit_source_def Let_def split: if_splits)
  with u False show ?thesis by (auto simp: layout_hidden_def)
qed

definition view_reads :: "bde_layout \<Rightarrow> nat \<Rightarrow> nat \<Rightarrow> bool" where
  "view_reads l u p \<longleftrightarrow> (case layout_map l u of Ok (Some (SDisk q e, run)) \<Rightarrow> q = p | _ \<Rightarrow> False)"

lemma view_reads_source:
  assumes "layout_inv l" "view_reads l u p"
  shows "u < units_of l \<and> (\<exists>e. unit_source l u = SDisk p e)"
proof -
  obtain e run where m: "layout_map l u = Ok (Some (SDisk p e, run))"
    using assms(2) by (auto simp: view_reads_def split: res.splits option.splits source.splits)
  then have "map_post l u (Some (SDisk p e, run))" using layout_map_post [OF assms(1), of u] by simp
  then show ?thesis by (auto simp: map_post_def dest: spec [of _ 0])
qed

section \<open>Files outside the reserved ranges\<close>

lemma aligned_region:
  fixes b :: nat
  assumes "b dvd fst r" "b dvd snd r" "0 < b"
  shows "region_in (x div b * b) r \<longleftrightarrow> region_in x r"
proof -
  obtain i j where r: "fst r = b * i" "snd r = b * j" using assms by (auto simp: dvd_def)
  have "b * i \<le> x div b * b \<longleftrightarrow> i \<le> x div b" "b * i \<le> x \<longleftrightarrow> i \<le> x div b"
    "x div b * b < b * i + b * j \<longleftrightarrow> x div b < i + j" "x < b * i + b * j \<longleftrightarrow> x div b < i + j"
    using assms(3) by (simp_all add: less_eq_div_iff_mult_less_eq div_less_iff_less_mult mult.commute
        flip: distrib_left)
  then show ?thesis by (simp add: region_in_def r)
qed

lemma reserved_listed:
  assumes "r \<in> set (reserved l)" "snd r \<noteq> 0"
  shows "(fst r div SECTOR, snd r div SECTOR) \<in> set (reserved_ranges l)"
proof -
  let ?base = "[(0, bl_reloc_len l), (bl_reloc_offset l, bl_reloc_len l)]
     @ map (\<lambda>o'. (o', REGION_SIZE)) (offs3 (bl_metadata_offsets l))
     @ (case bl_extra_region l of Some o' \<Rightarrow> [(o', REGION_SIZE)] | None \<Rightarrow> [])"
  have "r \<in> set ?base" using assms by (auto simp: reserved_def layout_regions_def split: option.splits)
  then have "(\<lambda>(o', n). (o' div SECTOR, n div SECTOR)) r \<in> set (reserved_ranges l)"
    unfolding reserved_ranges_def set_map by (rule imageI)
  then show ?thesis by (simp add: case_prod_beta)
qed

lemma not_overlapping:
  assumes inv: "layout_inv l" and free: "\<not> overlaps_reserved l exts" and s: "s \<in> covered exts"
    and r: "r \<in> set (reserved l)"
  shows "\<not> region_in (s * 512) r"
proof
  assume in_r: "region_in (s * 512) r"
  have A: "fst r + snd r \<le> bl_volume_size l" "bl_bytes_per_sector l dvd fst r" "bl_bytes_per_sector l dvd snd r"
    using inv r by (auto simp: layout_inv_def Let_def)
  have d: "512 dvd fst r" "512 dvd snd r" using layout_invD(1) [OF inv] A(2,3) by (auto intro: dvd_trans [of _ 4096])
  then obtain i j where ij: "fst r = 512 * i" "snd r = 512 * j" by (auto simp: dvd_def)
  have "snd r \<noteq> 0" using in_r by (auto simp: region_in_def)
  then have m: "(i, j) \<in> set (reserved_ranges l)" using reserved_listed [OF r] by (simp add: ij Disk.SECTOR_def)
  obtain e where e: "e \<in> set exts" "estart e \<le> s" "s < eend e" using s by (auto simp: covered_def sectors_of_def)
  have "i \<le> s" "s < i + j" using in_r by (auto simp: region_in_def ij)
  moreover have "saturating_add i j = i + j"
    using A(1) layout_invD(3) [OF inv] by (auto simp: saturating_add_def ij)
  ultimately have "estart e < saturating_add i j \<and> i < eend e" using e by linarith
  then have "overlaps_reserved l exts"
    unfolding overlaps_reserved_def list_ex_iff using m e(1) by (auto intro!: bexI [of _ "(i, j)"] bexI [of _ e])
  with free show False by simp
qed


section \<open>Properties\<close>

text \<open>
  C35. For every layout that \<open>Layout::new\<close> accepts, \<open>Layout::map\<close> never panics; past the volume, and only there, it
  answers nothing; otherwise its run is not empty, stays in the volume, and every unit of the run comes from where
  the specification of the decrypted view says: the relocated boot sectors in front, zeros over the metadata
  and over the relocated copy, the unit itself elsewhere, encrypted below \<open>encrypted_size\<close>.
\<close>

theorem layout_map_follows_view:
  assumes "layout_new hdr m vs = Ok l" "vs < u64_lim"
  shows "\<exists>r. layout_map l u = Ok r \<and> map_post l u r"
  using layout_map_post [OF layout_new_inv [OF assms]] .

definition sample_hdr :: volume_header where
  "sample_hdr = \<lparr>vh_kind = Standard, vh_eow = False, vh_bytes_per_sector = 512,
     vh_metadata_offsets = (0x20000, 0x40000, 0x60000)\<rparr>"

definition sample_block :: bde_block where
  "sample_block = \<lparr>bb_raw = [], bb_agreed = [], bb_current_state = 4, bb_next_state = 4, bb_encrypted_size = 0x100000,
     bb_conversion_size = 0, bb_header_sectors = 16, bb_metadata_offsets = (0x20000, 0x40000, 0x60000),
     bb_header_offset = 0x30000, bb_volume_id = [], bb_next_nonce = 0, bb_cipher = XtsAes128, bb_created = 0,
     bb_entries = [], bb_validation = None\<rparr>"

definition sample_metadata :: metadata where
  "sample_metadata = (metadata_empty sample_block)\<lparr>md_volume_header := (0x30000, 0x2000)\<rparr>"

definition sample_layout :: bde_layout where
  "sample_layout = \<lparr>bl_bytes_per_sector = 512, bl_volume_size = 0x100000, bl_metadata_offsets = (0x20000, 0x40000, 0x60000),
     bl_reloc_len = 0x2000, bl_reloc_offset = 0x30000, bl_extra_region = None, bl_encrypted_size = 0x100000,
     bl_cipher = XtsAes128, bl_partial = False\<rparr>"

lemma sample_accepted: "layout_new sample_hdr sample_metadata 0x100000 = Ok sample_layout"
  by (simp add: layout_new_def sample_hdr_def sample_metadata_def sample_block_def sample_layout_def metadata_empty_def
      SECTOR_SIZES_def offs3_def checked_mul_def extra_of_def layout_regions_def checked_add_def REGION_SIZE_def
      ranges_meet_def saturating_add_def state_accepted_def ST_ENCRYPTED_def key_len_def Let_def)

lemma sample_map:
  "layout_map sample_layout 3 = Ok (Some (SDisk 387 True, 13))"
  "layout_map sample_layout 300 = Ok (Some (SZero, 84))"
  "layout_map sample_layout 1024 = Ok (Some (SDisk 1024 True, 1024))"
  by (simp_all add: layout_map_def sample_layout_def Let_def checked_mul_def add64_def sub64_def bde_div_def
      bound_def saturating_sub_def layout_hidden_def offs3_def REGION_SIZE_def)

theorem layout_map_follows_view_witness:
  "\<exists>r. layout_map sample_layout 3 = Ok r \<and> map_post sample_layout 3 r"
  by (rule layout_map_follows_view [OF sample_accepted]) simp

text \<open>
  C36. A unit of the decrypted view that is read from the disk is read inside the volume, never from BitLocker's
  own first sectors or from one of its metadata regions, and no two units of the view read the same sectors.
\<close>

theorem view_reads_data_once:
  assumes "layout_new hdr m vs = Ok l" "vs < u64_lim" "view_reads l u p" "view_reads l v p"
  shows "u = v \<and> p < units_of l \<and> bl_reloc_len l \<le> p * bl_bytes_per_sector l
    \<and> list_all (\<lambda>x. \<not> region_in (p * bl_bytes_per_sector l) (x, REGION_SIZE)) (offs3 (bl_metadata_offsets l))"
proof -
  note inv = layout_new_inv [OF assms(1,2)]
  obtain e f where "u < units_of l" "unit_source l u = SDisk p e" "v < units_of l" "unit_source l v = SDisk p f"
    using view_reads_source [OF inv assms(3)] view_reads_source [OF inv assms(4)] by auto
  from unit_source_disk [OF inv this(1,2)] unit_source_disk [OF inv this(3,4)] show ?thesis
    by (auto simp: list_all_iff split: if_splits)
qed

theorem view_reads_data_once_witness:
  "3 = (3 :: nat) \<and> 387 < units_of sample_layout \<and> bl_reloc_len sample_layout \<le> 387 * bl_bytes_per_sector sample_layout
    \<and> list_all (\<lambda>x. \<not> region_in (387 * bl_bytes_per_sector sample_layout) (x, REGION_SIZE))
        (offs3 (bl_metadata_offsets sample_layout))"
  by (rule view_reads_data_once [OF sample_accepted]) (simp_all add: view_reads_def sample_map)

text \<open>
  C37. A file that \<open>overlaps_reserved\<close> passes is the same data in both views: each 512-byte sector of its extents
  that lies in the volume belongs to a unit the decrypted view reads from that very unit of the disk.
\<close>

theorem file_outside_reserved_in_place:
  assumes "layout_new hdr m vs = Ok l" "vs < u64_lim" "\<not> overlaps_reserved l exts" "s \<in> covered exts"
    "u = s * SECTOR div bl_bytes_per_sector l" "u < units_of l"
  shows "view_reads l u u"
proof -
  note inv = layout_new_inv [OF assms(1,2)]
  note I = layout_invD [OF inv]
  have free: "\<not> region_in (u * bl_bytes_per_sector l) r" if "r \<in> set (reserved l)" for r
    using not_overlapping [OF inv assms(3,4) that] aligned_region [OF _ _ I(2), of r "s * 512"] that inv
    by (auto simp: assms(5) Disk.SECTOR_def layout_inv_def Let_def)
  have "(0, bl_reloc_len l) \<in> set (reserved l)" "set (layout_hidden l) \<subseteq> set (reserved l)"
    by (auto simp: reserved_def layout_regions_def layout_hidden_def)
  with free free [of "(0, bl_reloc_len l)"] have "\<not> u * bl_bytes_per_sector l < bl_reloc_len l"
    "\<forall>r\<in>set (layout_hidden l). \<not> region_in (u * bl_bytes_per_sector l) r"
    by (auto simp: region_in_def)
  then have "\<exists>e. unit_source l u = SDisk u e" by (auto simp: unit_source_def Let_def)
  moreover obtain r where r: "layout_map l u = Ok r" "map_post l u r" using layout_map_post [OF inv] by blast
  ultimately show ?thesis using assms(6)
    by (cases r) (auto simp: map_post_def view_reads_def dest!: spec [of _ 0] elim: advance.elims
        split: source.splits)
qed

theorem file_outside_reserved_in_place_witness: "view_reads sample_layout 1024 1024"
  by (rule file_outside_reserved_in_place [OF sample_accepted, of "[mk_extent 1000 1030]" 1024])
    (simp_all add: sample_layout_def overlaps_reserved_def reserved_ranges_def offs3_def REGION_SIZE_def Disk.SECTOR_def
      saturating_add_def sectors_of_def units_of_def)

text \<open>
  The layout the loader hands to Linux decodes to the layout it describes: the record made from an
  accepted layout is one that the handoff encodes and decodes without loss.
\<close>

theorem handed_layout_decodes:
  assumes "layout_new hdr m vs = Ok l" "vs < u64_lim"
  shows "dec_layout t (layout_bytes (bde_fve_layout l)) = Ok (bde_fve_layout l)"
proof -
  note inv = layout_new_inv [OF assms]
  note I = layout_invD [OF inv]
  obtain x y z where t: "bl_metadata_offsets l = (x, y, z)" by (cases "bl_metadata_offsets l")
  have R: "fst r + snd r \<le> bl_volume_size l" if "r \<in> set (reserved l)" for r
    using inv that by (simp add: layout_inv_def Let_def)
  have "layout_ok (bde_fve_layout l)"
    using I(1,3,6,10) R [of "(x, REGION_SIZE)"] R [of "(y, REGION_SIZE)"] R [of "(z, REGION_SIZE)"]
      R [of "last (reserved l)"]
    by (auto simp: layout_ok_def bde_fve_layout_def t reserved_eq [OF t] REGION_SIZE_def split: option.splits)
  then show ?thesis using dec_layout_bytes by blast
qed


theorem handed_layout_decodes_witness:
  "dec_layout 0 (layout_bytes (bde_fve_layout sample_layout)) = Ok (bde_fve_layout sample_layout)"
  by (rule handed_layout_decodes [OF sample_accepted]) simp

end
