(* ===== verification/Crypto.thy ===== *)
theory Crypto
  imports Bootstrap
begin

text \<open>
  The key derivation chain, \<open>crates/paguro-crypto/src/lib.rs\<close>.  SHA-256 and HMAC come from the
  \<open>sha2\<close> and \<open>hmac\<close> crates: they are the fields of a record that every definition takes, and
  nothing is assumed of them but, where a result needs it, the length of their output.
\<close>

record crypto =
  sha256 :: "bytes \<Rightarrow> bytes"
  hmac_sha256 :: "bytes \<Rightarrow> bytes \<Rightarrow> bytes"

definition CRYPTO_KEY_LEN :: nat where "CRYPTO_KEY_LEN = 32"
definition CRYPTO_SALT_LEN :: nat where "CRYPTO_SALT_LEN = 16"
definition STRETCH_ITERATIONS :: nat where "STRETCH_ITERATIONS = 0x100000"

definition hmac :: "crypto \<Rightarrow> bytes \<Rightarrow> bytes list \<Rightarrow> bytes" where
  "hmac C key parts = hmac_sha256 C key (concat parts)"

definition text_bytes :: "string \<Rightarrow> bytes" where
  "text_bytes s = map (\<lambda>c. word_of_nat (of_char c)) s"

definition user_password_hash :: "crypto \<Rightarrow> str \<Rightarrow> bytes" where
  "user_password_hash C pw = sha256 C (sha256 C (concat (map (le_bytes 2) (encode_utf16 pw))))"

fun stretch_loop :: "crypto \<Rightarrow> bytes \<Rightarrow> bytes \<Rightarrow> bytes \<Rightarrow> nat list \<Rightarrow> bytes" where
  "stretch_loop C initial salt lst [] = lst"
| "stretch_loop C initial salt lst (i # is) =
     stretch_loop C initial salt (sha256 C (lst @ initial @ salt @ le_bytes 8 i)) is"

definition bitlocker_stretch :: "crypto \<Rightarrow> bytes \<Rightarrow> bytes \<Rightarrow> nat \<Rightarrow> bytes" where
  "bitlocker_stretch C initial salt iterations =
     stretch_loop C initial salt (replicate CRYPTO_KEY_LEN 0) [0..<iterations]"

definition tpm_auth :: "crypto \<Rightarrow> bytes \<Rightarrow> bytes" where
  "tpm_auth C pass_hash = hmac C pass_hash [text_bytes ''paguro/tpm-auth'']"

definition env_tpm :: "crypto \<Rightarrow> bytes \<Rightarrow> bytes \<Rightarrow> bytes" where
  "env_tpm C b d = hmac C b [text_bytes ''paguro/env/tpm'', d]"

definition env_setup :: "crypto \<Rightarrow> bytes \<Rightarrow> bytes \<Rightarrow> bytes" where
  "env_setup C s ini_sha256 = hmac C s [text_bytes ''paguro/env/setup'', ini_sha256]"

definition env_passphrase :: "crypto \<Rightarrow> bytes" where
  "env_passphrase C = sha256 C (text_bytes ''paguro/env/passphrase'')"

definition root_gate :: "crypto \<Rightarrow> bytes \<Rightarrow> bytes \<Rightarrow> bytes \<Rightarrow> bytes" where
  "root_gate C env salt blob = hmac C env [text_bytes ''paguro/rootgate'', salt, blob]"

definition final_key :: "crypto \<Rightarrow> bytes \<Rightarrow> bytes \<Rightarrow> bytes" where
  "final_key C rg pass_hash =
    (let offline_gate = hmac C pass_hash [text_bytes ''paguro/offlineGate''] in
     hmac C rg [text_bytes ''paguro/final'', offline_gate])"

definition bootstrap_key :: "crypto \<Rightarrow> bytes \<Rightarrow> bytes \<Rightarrow> bytes" where
  "bootstrap_key C pass_hash salt = hmac C pass_hash [text_bytes ''paguro/bootstrap'', salt]"

text \<open>
  The arguments are arrays of 32 bytes in the source; a zip stops at the shorter, the rest of the
  zeroed output stays.
\<close>

definition xor32 :: "bytes \<Rightarrow> bytes \<Rightarrow> bytes" where
  "xor32 a b = (let x = map2 (XOR) (take CRYPTO_KEY_LEN a) b in x @ replicate (CRYPTO_KEY_LEN - length x) 0)"

text \<open>\<open>derive_vmk\<close> of \<open>crates/paguro-boot/src/machine.rs\<close>.\<close>

definition derive_vmk :: "crypto \<Rightarrow> bytes \<Rightarrow> bytes \<Rightarrow> bytes \<Rightarrow> bytes \<Rightarrow> bytes \<Rightarrow> bytes" where
  "derive_vmk C env salt blob pass_hash wrapped =
    xor32 (final_key C (root_gate C env salt blob) pass_hash) wrapped"

section \<open>Wrapping\<close>

lemma xor32_eq: "length a = 32 \<Longrightarrow> length b = 32 \<Longrightarrow> xor32 a b = map2 (XOR) a b"
  by (simp add: xor32_def CRYPTO_KEY_LEN_def Let_def)

lemma length_xor32 [simp]: "length (xor32 a b) = 32"
  by (simp add: xor32_def CRYPTO_KEY_LEN_def Let_def)

lemma xor_twice: "length a = length b \<Longrightarrow> map2 (XOR) a (map2 (XOR) a b) = (b :: bytes)"
  by (induction a b rule: list_induct2) (simp_all flip: xor.assoc)

lemma xor32_xor32: "length k = 32 \<Longrightarrow> length v = 32 \<Longrightarrow> xor32 k (xor32 k v) = v"
  by (simp add: xor32_eq xor_twice)

definition crypto_ok :: "crypto \<Rightarrow> bool" where
  \<comment> \<open>both functions yield 32 bytes\<close>
  "crypto_ok C \<longleftrightarrow> (\<forall>b. length (sha256 C b) = 32) \<and> (\<forall>k b. length (hmac_sha256 C k b) = 32)"

lemma length_final_key: "crypto_ok C \<Longrightarrow> length (final_key C rg ph) = 32"
  by (simp add: crypto_ok_def final_key_def hmac_def Let_def)

lemma length_stretch: "crypto_ok C \<Longrightarrow> length (bitlocker_stretch C i s n) = 32"
proof -
  assume C: "crypto_ok C"
  have "length lst = 32 \<Longrightarrow> length (stretch_loop C i s lst js) = 32" for lst js
    using C by (induction js arbitrary: lst) (simp_all add: crypto_ok_def)
  then show ?thesis by (simp add: bitlocker_stretch_def CRYPTO_KEY_LEN_def)
qed

text \<open>
  A key wrapped for a rung is the one the rung derives: with the same environment, salt, FVEK
  blob and pass hash, \<open>derive_vmk\<close> inverts the wrap.
\<close>

theorem derive_inverts_wrap:
  assumes "crypto_ok C" "length vmk = 32"
  shows "derive_vmk C env salt blob ph (xor32 (final_key C (root_gate C env salt blob) ph) vmk) = vmk"
  using assms by (simp add: derive_vmk_def xor32_xor32 length_final_key)

text \<open>A concrete pair of functions with outputs of the right length, for the witnesses.\<close>

definition sample_crypto :: crypto where
  "sample_crypto = \<lparr>sha256 = (\<lambda>b. replicate 32 (word_of_nat (length b))),
     hmac_sha256 = (\<lambda>k b. replicate 32 (word_of_nat (length k + length b)))\<rparr>"

lemma sample_crypto_ok: "crypto_ok sample_crypto"
  by (simp add: crypto_ok_def sample_crypto_def)

theorem derive_inverts_wrap_witness:
  "derive_vmk sample_crypto [1] [2] [3] [4]
      (xor32 (final_key sample_crypto (root_gate sample_crypto [1] [2] [3]) [4]) (replicate 32 7))
    = replicate 32 7"
  by (rule derive_inverts_wrap) (simp_all add: sample_crypto_ok)

end
