(* ===== verification/Xts.thy ===== *)
theory Xts
  imports Bootstrap Crypto
begin

text \<open>
  BitLocker's symmetric primitives, \<open>crates/paguro-crypto/src/bitlocker.rs\<close>: the XTS construction over one
  data unit and the AES-CCM key wrap.  AES and CCM come from the crates \<open>aes\<close> and \<open>ccm\<close>: they are the fields of
  the record \<open>ciphers\<close> every definition takes, and \<open>aes_ok\<close> says what the results rely on, that a block cipher
  maps blocks to blocks and that decryption inverts encryption.
\<close>

section \<open>The primitives\<close>

text \<open>
  \<open>aes_enc k b\<close> and \<open>aes_dec k b\<close> are one block under one key; \<open>ccm_dec k nonce tag data\<close> is the plaintext or
  nothing when the tag does not verify, \<open>ccm_enc k nonce data\<close> the buffer after the call and the tag, which
  a message that is too long does not get.
\<close>

record ciphers =
  aes_enc :: "bytes \<Rightarrow> bytes \<Rightarrow> bytes"
  aes_dec :: "bytes \<Rightarrow> bytes \<Rightarrow> bytes"
  ccm_dec :: "bytes \<Rightarrow> bytes \<Rightarrow> bytes \<Rightarrow> bytes \<Rightarrow> bytes option"
  ccm_enc :: "bytes \<Rightarrow> bytes \<Rightarrow> bytes \<Rightarrow> bytes \<times> bytes option"

definition X_CCM_TAG_LEN :: nat where "X_CCM_TAG_LEN = 16"
definition AES_BLOCK_LEN :: nat where "AES_BLOCK_LEN = 16"
definition AES128_KEY_LEN :: nat where "AES128_KEY_LEN = 16"
definition AES256_KEY_LEN :: nat where "AES256_KEY_LEN = 32"
definition XTS_128_KEY_LEN :: nat where "XTS_128_KEY_LEN = 2 * AES128_KEY_LEN"
definition XTS_256_KEY_LEN :: nat where "XTS_256_KEY_LEN = 2 * AES256_KEY_LEN"
definition GF128_REDUCTION :: byte where "GF128_REDUCTION = 0x87"
definition CARRY_SHIFT :: nat where "CARRY_SHIFT = 7"

text \<open>
  Whether the tag verified, and what is left in the buffer: zeros after a failure.
\<close>

definition ccm_unwrap :: "ciphers \<Rightarrow> bytes \<Rightarrow> bytes \<Rightarrow> bytes \<Rightarrow> bytes \<Rightarrow> bool \<times> bytes" where
  "ccm_unwrap A key nonce tag data =
    (case ccm_dec A key nonce tag data of
       None \<Rightarrow> (False, replicate (length data) 0)
     | Some p \<Rightarrow> (True, p))"

definition ccm_wrap :: "ciphers \<Rightarrow> bytes \<Rightarrow> bytes \<Rightarrow> bytes \<Rightarrow> bytes \<times> bytes" where
  "ccm_wrap A key nonce data =
    (case ccm_enc A key nonce data of (c, t) \<Rightarrow> (c, case t of Some t \<Rightarrow> t | None \<Rightarrow> replicate X_CCM_TAG_LEN 0))"

section \<open>XTS\<close>

datatype xts_keys = X128 bytes bytes | X256 bytes bytes

datatype xts_error = KeyLength | DataLength

fun alpha_loop :: "byte \<Rightarrow> bytes \<Rightarrow> bytes \<times> byte" where
  "alpha_loop carry [] = ([], carry)"
| "alpha_loop carry (b # bs) =
    (let nxt = drop_bit CARRY_SHIFT b; (bs', c) = alpha_loop nxt bs in ((push_bit 1 b OR carry) # bs', c))"

definition mul_alpha :: "bytes \<Rightarrow> bytes" where
  "mul_alpha t = (case alpha_loop 0 t of (t', carry) \<Rightarrow>
     (case t' of [] \<Rightarrow> [] | b # bs \<Rightarrow> (b XOR (GF128_REDUCTION AND (0 - carry))) # bs))"

text \<open>The zip of a block with the tweak stops at the shorter one.\<close>

definition xor_block :: "bytes \<Rightarrow> bytes \<Rightarrow> bytes" where
  "xor_block b t = map2 (XOR) b t @ drop (length t) b"

fun xor_tweaks :: "bytes \<Rightarrow> bytes list \<Rightarrow> bytes list" where
  "xor_tweaks t [] = []"
| "xor_tweaks t (b # bs) = xor_block b t # xor_tweaks (mul_alpha t) bs"

definition aes_key :: "nat \<Rightarrow> bytes \<Rightarrow> (xts_error, bytes) res" where
  "aes_key n k = (if length k = n then Ok k else Err KeyLength)"

definition xts_new :: "bytes \<Rightarrow> (xts_error, xts_keys) res" where
  "xts_new key =
    (if length key = XTS_128_KEY_LEN then
       rbind (aes_key AES128_KEY_LEN (take AES128_KEY_LEN key)) (\<lambda>a.
       rbind (aes_key AES128_KEY_LEN (drop AES128_KEY_LEN key)) (\<lambda>b. Ok (X128 a b)))
     else if length key = XTS_256_KEY_LEN then
       rbind (aes_key AES256_KEY_LEN (take AES256_KEY_LEN key)) (\<lambda>a.
       rbind (aes_key AES256_KEY_LEN (drop AES256_KEY_LEN key)) (\<lambda>b. Ok (X256 a b)))
     else Err KeyLength)"

definition key_bits :: "xts_keys \<Rightarrow> nat" where
  "key_bits k = (case k of X128 _ _ \<Rightarrow> AES128_KEY_LEN * 8 | X256 _ _ \<Rightarrow> AES256_KEY_LEN * 8)"

fun xts_k1 :: "xts_keys \<Rightarrow> bytes" where
  "xts_k1 (X128 a b) = a"
| "xts_k1 (X256 a b) = a"

fun xts_k2 :: "xts_keys \<Rightarrow> bytes" where
  "xts_k2 (X128 a b) = b"
| "xts_k2 (X256 a b) = b"

definition first_tweak :: "ciphers \<Rightarrow> xts_keys \<Rightarrow> nat \<Rightarrow> bytes" where
  "first_tweak A k unit = aes_enc A (xts_k2 k) (le_bytes AES_BLOCK_LEN unit)"

definition xts_blocks :: "bytes \<Rightarrow> (xts_error, bytes list) res" where
  "xts_blocks data =
    (let blocks = chunks_exact AES_BLOCK_LEN data; tail = drop (AES_BLOCK_LEN * length blocks) data in
     if tail \<noteq> [] \<or> blocks = [] then Err DataLength else Ok blocks)"

definition xts_decrypt :: "ciphers \<Rightarrow> xts_keys \<Rightarrow> nat \<Rightarrow> bytes \<Rightarrow> (xts_error, bytes) res" where
  "xts_decrypt A k unit data =
    rbind (xts_blocks data) (\<lambda>blocks.
    let t = first_tweak A k unit;
        blocks = xor_tweaks t blocks;
        blocks = map (aes_dec A (xts_k1 k)) blocks;
        blocks = xor_tweaks t blocks
    in Ok (concat blocks))"

definition xts_encrypt :: "ciphers \<Rightarrow> xts_keys \<Rightarrow> nat \<Rightarrow> bytes \<Rightarrow> (xts_error, bytes) res" where
  "xts_encrypt A k unit data =
    rbind (xts_blocks data) (\<lambda>blocks.
    let t = first_tweak A k unit;
        blocks = xor_tweaks t blocks;
        blocks = map (aes_enc A (xts_k1 k)) blocks;
        blocks = xor_tweaks t blocks
    in Ok (concat blocks))"

section \<open>The tweak\<close>

lemma unat_lt_2: "unat (c :: byte) < 2 \<Longrightarrow> c = 0 \<or> c = 1"
  by (auto simp: word_unat_eq_iff)

lemma double_256:
  "(2 * x + 1) mod 256 = (2 * x) mod 256 + (1 :: nat)" "(2 * x) mod 256 + 256 * (x div 128) = (2 :: nat) * x"
proof -
  define q r where "q = x div 128" and "r = x mod 128"
  have x: "x = 128 * q + r" "r < 128" "x div 128 = q" by (simp_all add: q_def r_def)
  have a: "2 * x = 2 * r + 256 * q" "2 * x + 1 = (2 * r + 1) + 256 * q" using x(1) by simp_all
  have "(2 * x) mod 256 = 2 * r" "(2 * x + 1) mod 256 = 2 * r + 1"
    unfolding a using x(2) by (simp_all only: mod_mult_self2) simp_all
  then show "(2 * x + 1) mod 256 = (2 * x) mod 256 + (1 :: nat)" "(2 * x) mod 256 + 256 * (x div 128) = (2 :: nat) * x"
    using x(1,3) by simp_all
qed

lemma alpha_loop_val:
  assumes "unat carry < 2"
  shows "length (fst (alpha_loop carry t)) = length t \<and> unat (snd (alpha_loop carry t)) < 2
    \<and> le_val (fst (alpha_loop carry t)) + 256 ^ length t * unat (snd (alpha_loop carry t)) = 2 * le_val t + unat carry"
  using assms
proof (induction carry t rule: alpha_loop.induct)
  case (2 carry b bs)
  have n: "unat (drop_bit CARRY_SHIFT b) = unat b div 128"
    by (simp add: CARRY_SHIFT_def drop_bit_eq_div unat_div)
  have lt: "unat b < 256" using unsigned_less [of b] by simp
  then have c: "unat (drop_bit CARRY_SHIFT b) < 2" by (simp add: n)
  have "carry = 0 \<or> carry = 1" using 2(2) by (rule unat_lt_2)
  then have "unat (push_bit 1 b OR carry) = (2 * unat b) mod 256 + unat carry"
  proof
    assume "carry = 1"
    moreover have "unat (2 * b + 1) = (2 * unat b) mod 256 + 1"
    proof -
      have "unat (2 * b + 1) = (2 * unat b + 1) mod 256" by (simp add: unat_word_ariths mod_simps)
      also have "\<dots> = (2 * unat b) mod 256 + 1" by (simp only: double_256)
      finally show ?thesis .
    qed
    ultimately show ?thesis by (simp add: or_one_eq push_bit_eq_mult mult.commute)
  qed (simp add: push_bit_eq_mult unat_word_ariths mult.commute)
  moreover have "(2 * unat b) mod 256 + 256 * (unat b div 128) = 2 * unat b" by (simp only: double_256)
  ultimately have v: "unat (push_bit 1 b OR carry) + 256 * (unat b div 128) = 2 * unat b + unat carry" by simp
  show ?case using 2(1) [OF refl c] v by (simp add: Let_def case_prod_beta n algebra_simps)
qed simp


lemma xor_low_byte:
  fixes a m c :: nat
  assumes "a < 256" "c < 256"
  shows "(a + 256 * m) XOR c = (a XOR c) + 256 * m"
proof -
  have t: "take_bit 8 ((a + 256 * m) XOR c) = a XOR c"
    using assms by (simp add: take_bit_xor) (simp add: take_bit_eq_mod)
  have d: "drop_bit 8 ((a + 256 * m) XOR c) = m"
    using assms by (simp add: drop_bit_xor) (simp add: drop_bit_eq_div)
  show ?thesis using bits_ident [of 8 "(a + 256 * m) XOR c"] unfolding t d by (simp add: push_bit_eq_mult)
qed

text \<open>
  The tweak of the next block is the tweak times \<open>\<alpha>\<close> in \<open>GF(2^128)\<close>: as 128-bit little-endian numbers, the
  byte loop doubles, and when a bit falls out it is replaced by the reduction polynomial \<open>0x87\<close>.
\<close>

theorem mul_alpha_doubles:
  assumes "length t = 16"
  shows "le_val (mul_alpha t) = (if le_val t < 2 ^ 127 then 2 * le_val t else (2 * le_val t - 2 ^ 128) XOR 0x87)"
proof -
  obtain b bs c where l: "alpha_loop 0 t = (b # bs, c)"
    using alpha_loop_val [of 0 t] assms by (cases "alpha_loop 0 t"; cases "fst (alpha_loop 0 t)") auto
  have v: "le_val (b # bs) + 2 ^ 128 * unat c = 2 * le_val t" "unat c < 2" "length bs = 15"
    using alpha_loop_val [of 0 t] assms by (simp_all add: l)
  have lt: "le_val (b # bs) < 2 ^ 128" using le_val_bound [of "b # bs"] v(3) by simp
  have b: "unat b < 256" using unsigned_less [of b] by simp
  have "c = 0 \<or> c = 1" using v(2) by (rule unat_lt_2)
  then show ?thesis
  proof
    assume "c = 0"
    then show ?thesis using v lt by (simp add: mul_alpha_def l)
  next
    assume c: "c = 1"
    have "le_val (mul_alpha t) = unat (b XOR 0x87) + 256 * le_val bs"
      by (simp add: mul_alpha_def l c GF128_REDUCTION_def)
    also have "\<dots> = le_val (b # bs) XOR 0x87"
      using xor_low_byte [OF b, of "0x87" "le_val bs"] by (simp add: unsigned_xor_eq)
    also have "le_val (b # bs) = 2 * le_val t - 2 ^ 128" using v(1) c by simp
    finally show ?thesis using v(1) c by simp
  qed
qed

theorem mul_alpha_doubles_witness:
  "le_val (mul_alpha [0, 0, 0, 0, 0, 0, 0, 0, 0, 0, 0, 0, 0, 0, 0, 0x80]) = 0x87"
  using mul_alpha_doubles [of "[0, 0, 0, 0, 0, 0, 0, 0, 0, 0, 0, 0, 0, 0, 0, 0x80]"] by simp

section \<open>Decryption inverts encryption\<close>

definition aes_ok :: "ciphers \<Rightarrow> bool" where
  "aes_ok A \<longleftrightarrow> (\<forall>k b. length b = 16 \<longrightarrow> length (aes_enc A k b) = 16 \<and> length (aes_dec A k b) = 16
     \<and> aes_dec A k (aes_enc A k b) = b)"

lemma length_mul_alpha [simp]: "length (mul_alpha t) = length t"
  using alpha_loop_val [of 0 t] by (auto simp: mul_alpha_def split: prod.splits list.splits)

lemma xor_block_eq: "length b = length t \<Longrightarrow> xor_block b t = map2 (XOR) b t"
  by (simp add: xor_block_def)

lemma xor_block_twice: "length b = length t \<Longrightarrow> xor_block (xor_block b t) t = b"
  by (induction b t rule: list_induct2) (simp_all add: xor_block_def xor.assoc)

lemma length_xor_block [simp]: "length (xor_block b t) = length b"
  by (simp add: xor_block_def)

lemma xor_tweaks_twice:
  "list_all (\<lambda>b. length b = length t) bs \<Longrightarrow> xor_tweaks t (xor_tweaks t bs) = bs"
  by (induction t bs rule: xor_tweaks.induct) (simp_all add: xor_block_twice)

lemma xor_tweaks_blocks:
  "list_all (\<lambda>b. length b = n) bs \<Longrightarrow> list_all (\<lambda>b. length b = n) (xor_tweaks t bs)"
  by (induction t bs rule: xor_tweaks.induct) simp_all

lemma length_xor_tweaks [simp]: "length (xor_tweaks t bs) = length bs"
  by (induction t bs rule: xor_tweaks.induct) simp_all

lemma chunks_all: "list_all (\<lambda>b. length b = n) (chunks_exact n d)"
  by (induction n d rule: chunks_exact.induct) (subst chunks_exact.simps, simp)

lemma chunks_back: "0 < n \<Longrightarrow> concat (chunks_exact n d) = take (n * length (chunks_exact n d)) d"
proof (induction n d rule: chunks_exact.induct)
  case (1 n d)
  then show ?case by (subst (1 2) chunks_exact.simps) (auto simp: take_add add.commute)
qed

lemma xts_chunks_concat: "list_all (\<lambda>b. length b = n) bs \<Longrightarrow> 0 < n \<Longrightarrow> chunks_exact n (concat bs) = bs"
  by (induction bs) (auto simp: chunks_exact.simps [of n])

lemma length_blocks: "list_all (\<lambda>b. length b = n) bs \<Longrightarrow> length (concat bs) = n * length bs"
  by (induction bs) auto

lemma xts_blocks_Ok:
  "xts_blocks d = Ok bs \<longleftrightarrow> bs \<noteq> [] \<and> list_all (\<lambda>b. length b = 16) bs \<and> d = concat bs"
proof
  assume "xts_blocks d = Ok bs"
  then have b: "bs = chunks_exact 16 d" "drop (16 * length bs) d = []" "bs \<noteq> []"
    by (auto simp: xts_blocks_def Let_def AES_BLOCK_LEN_def split: if_splits)
  then show "bs \<noteq> [] \<and> list_all (\<lambda>b. length b = 16) bs \<and> d = concat bs"
    using chunks_all [of 16 d] chunks_back [of 16 d] by simp
next
  assume "bs \<noteq> [] \<and> list_all (\<lambda>b. length b = 16) bs \<and> d = concat bs"
  then show "xts_blocks d = Ok bs"
    using xts_chunks_concat [of 16 bs] length_blocks [of 16 bs]
    by (simp add: xts_blocks_def Let_def AES_BLOCK_LEN_def)
qed

lemma length_first_tweak: "aes_ok A \<Longrightarrow> length (first_tweak A k u) = 16"
  by (simp add: first_tweak_def aes_ok_def AES_BLOCK_LEN_def)

lemma aes_blocks:
  assumes "aes_ok A" "list_all (\<lambda>b. length b = 16) bs"
  shows "list_all (\<lambda>b. length b = 16) (map (aes_enc A k) bs)" "list_all (\<lambda>b. length b = 16) (map (aes_dec A k) bs)"
    "map (aes_dec A k) (map (aes_enc A k) bs) = bs"
  using assms by (auto simp: aes_ok_def list_all_iff intro!: map_idI)

text \<open>
  C40. Decrypting a data unit gives back what was encrypted into it, for either key size, any unit number and any data
  that \<open>encrypt\<close> accepts: a positive number of whole AES blocks.
\<close>

theorem xts_decrypt_encrypt:
  assumes "aes_ok A" "xts_encrypt A k u d = Ok c"
  shows "xts_decrypt A k u c = Ok d \<and> length c = length d"
proof -
  let ?t = "first_tweak A k u"
  obtain bs where bs: "xts_blocks d = Ok bs"
    using assms(2) by (cases "xts_blocks d") (simp_all add: xts_encrypt_def)
  then have b: "bs \<noteq> []" "list_all (\<lambda>b. length b = 16) bs" "d = concat bs" by (simp_all add: xts_blocks_Ok)
  note t = length_first_tweak [OF assms(1), of k u]
  let ?x = "xor_tweaks ?t bs"
  have x: "list_all (\<lambda>b. length b = 16) ?x" using b(2) by (rule xor_tweaks_blocks)
  let ?e = "map (aes_enc A (xts_k1 k)) ?x"
  have e: "list_all (\<lambda>b. length b = 16) ?e" using aes_blocks(1) [OF assms(1) x] .
  let ?c = "xor_tweaks ?t ?e"
  have c: "c = concat ?c" using assms(2) by (simp add: xts_encrypt_def bs Let_def)
  have cb: "list_all (\<lambda>b. length b = 16) ?c" using e by (rule xor_tweaks_blocks)
  have "?c \<noteq> []" using b(1) by (simp flip: length_greater_0_conv)
  then have "xts_blocks c = Ok ?c" using cb c by (simp add: xts_blocks_Ok)
  moreover have "xor_tweaks ?t ?c = ?e" using e t by (simp add: xor_tweaks_twice)
  moreover have "xor_tweaks ?t ?x = bs" using b(2) t by (simp add: xor_tweaks_twice)
  ultimately have "xts_decrypt A k u c = Ok d"
    using aes_blocks(3) [OF assms(1) x] b(3) by (simp add: xts_decrypt_def Let_def)
  moreover have "length c = length d"
    unfolding c b(3) length_blocks [OF cb] length_blocks [OF b(2)] by simp
  ultimately show ?thesis by simp
qed

definition sample_ciphers :: ciphers where
  "sample_ciphers = \<lparr>aes_enc = (\<lambda>k b. rev b), aes_dec = (\<lambda>k b. rev b),
     ccm_dec = (\<lambda>k n t d. if t = take 16 (k @ n) then Some (rev d) else None),
     ccm_enc = (\<lambda>k n d. (rev d, Some (take 16 (k @ n))))\<rparr>"

lemma sample_ciphers_ok: "aes_ok sample_ciphers"
  by (simp add: aes_ok_def sample_ciphers_def)


theorem xts_decrypt_encrypt_witness:
  "\<exists>c. xts_encrypt sample_ciphers (X128 [1] [2]) 5 (replicate 16 7) = Ok c
     \<and> xts_decrypt sample_ciphers (X128 [1] [2]) 5 c = Ok (replicate 16 7) \<and> length c = length (replicate 16 (7 :: byte))"
proof -
  have "xts_blocks (replicate 16 7) = Ok [replicate 16 7]" by (simp add: xts_blocks_Ok)
  then obtain c where "xts_encrypt sample_ciphers (X128 [1] [2]) 5 (replicate 16 7) = Ok c"
    by (simp add: xts_encrypt_def Let_def)
  with xts_decrypt_encrypt [OF sample_ciphers_ok this] show ?thesis by blast
qed

end
