(* ===== verification/Runlist.thy ===== *)
theory Runlist
  imports Prelude
begin

text \<open>
  The mapping-pairs decoder of \<open>crates/paguro-core/src/runlist.rs\<close>.  The output buffer is its
  capacity and the list of runs written so far (\<open>out[..n]\<close>).

  The inductive relation \<open>mapping_pairs\<close> is the format itself (a header byte with two widths, a
  length, a signed delta from the previous cluster number, ended by a zero byte), stated without
  reference to the decoder; the lemmas below show that the decoder accepts exactly the
  inputs of that format and returns the runs they denote.
\<close>

section \<open>Model\<close>

record run =
  run_lcn :: nat
  run_count :: nat

definition mk_run :: "nat \<Rightarrow> nat \<Rightarrow> run" where
  "mk_run l c = \<lparr>run_lcn = l, run_count = c\<rparr>"

datatype runlist_error =
    Truncated | FieldTooWide | Sparse | ZeroLength | NegativeLcn | Overflow | TooManyRuns
  | Unterminated

definition HEADER_LEN_MASK :: byte where "HEADER_LEN_MASK = 15"
definition HEADER_OFF_SHIFT :: nat where "HEADER_OFF_SHIFT = 4"
definition MAX_FIELD_BYTES :: nat where "MAX_FIELD_BYTES = 8"
definition END_MARKER :: byte where "END_MARKER = 0"

text \<open>\<open>v as i64\<close> for a \<open>u64\<close>.\<close>

definition as_i64 :: "nat \<Rightarrow> int" where
  "as_i64 v = (if v < 2 ^ 63 then int v else int v - 2 ^ 64)"

definition or_bytes :: "bytes \<Rightarrow> nat" where
  "or_bytes bs = fold (\<lambda>(i, b) v. v OR push_bit (8 * i) (unat b)) (enumerate 0 bs) 0"

definition read_le :: "bytes \<Rightarrow> bool \<Rightarrow> int option" where
  "read_le bs sgnd =
     (if bs = [] \<or> length bs > MAX_FIELD_BYTES then None
      else
        let v = or_bytes bs; bits = 8 * length bs in
        if sgnd \<and> bits < 64 \<and> drop_bit (bits - 1) v AND 1 = 1 then
          Some (as_i64 (v OR (push_bit bits (2 ^ 64 - 1) mod 2 ^ 64)))
        else Some (if sgnd then as_i64 v else int v))"

definition checked_add_i128 :: "int \<Rightarrow> int \<Rightarrow> int option" where
  "checked_add_i128 a b = (if - (2 ^ 127) \<le> a + b \<and> a + b < 2 ^ 127 then Some (a + b) else None)"

definition u64_try_from :: "int \<Rightarrow> nat option" where
  "u64_try_from v = (if 0 \<le> v \<and> v < 2 ^ 64 then Some (nat v) else None)"

function decode_loop ::
  "bytes \<Rightarrow> nat \<Rightarrow> nat \<Rightarrow> int \<Rightarrow> run list \<Rightarrow> (runlist_error, run list) res" where
  "decode_loop input cap pos lcn out =
     rbind (ok_or (nth_opt input pos) Unterminated) (\<lambda>header.
     if header = END_MARKER then Ok out
     else
     rbind (add64 pos 1) (\<lambda>pos1.
     let len_sz = unat (header AND HEADER_LEN_MASK);
         off_sz = unat (drop_bit HEADER_OFF_SHIFT header) in
     if len_sz = 0 \<or> len_sz > MAX_FIELD_BYTES \<or> off_sz > MAX_FIELD_BYTES then Err FieldTooWide
     else if off_sz = 0 then Err Sparse
     else
     rbind (ok_or (checked_add pos1 len_sz) Overflow) (\<lambda>len_end.
     rbind (ok_or (get_range input pos1 len_end) Truncated) (\<lambda>len_bytes.
     rbind (ok_or (checked_add len_end off_sz) Overflow) (\<lambda>off_end.
     rbind (ok_or (get_range input len_end off_end) Truncated) (\<lambda>off_bytes.
     rbind (ok_or (read_le len_bytes False) Truncated) (\<lambda>count.
     if count \<le> 0 then Err ZeroLength
     else
     rbind (ok_or (read_le off_bytes True) Truncated) (\<lambda>delta.
     rbind (ok_or (checked_add_i128 lcn delta) Overflow) (\<lambda>lcn.
     if lcn < 0 then Err NegativeLcn
     else
     rbind (ok_or (u64_try_from lcn) Overflow) (\<lambda>l.
     rbind (ok_or (u64_try_from count) Overflow) (\<lambda>c.
     rbind (ok_or (checked_add l c) Overflow) (\<lambda>_.
     if length out < cap then decode_loop input cap off_end lcn (out @ [mk_run l c])
     else Err TooManyRuns))))))))))))"
  by pat_completeness auto
termination
  by (relation "measure (\<lambda>(input, cap, pos, lcn, out). length input - pos)")
    (auto simp: get_range_Some_iff)

declare decode_loop.simps [simp del]

definition decode :: "bytes \<Rightarrow> nat \<Rightarrow> (runlist_error, run list) res" where
  "decode input cap = decode_loop input cap 0 0 []"

definition total_clusters :: "run list \<Rightarrow> nat option" where
  "total_clusters runs =
     fold (\<lambda>r acc. Option.bind acc (\<lambda>a. checked_add a (run_count r))) runs (Some 0)"

section \<open>Integers of a field\<close>

lemma enumerate_fold_or:
  "fold (\<lambda>(i, b) v. v OR push_bit (8 * i) (unat b)) (enumerate k bs) v
     = v OR push_bit (8 * k) (le_val bs)"
proof (induction bs arbitrary: k v)
  case Nil
  then show ?case by simp
next
  case (Cons b bs)
  have "push_bit (8 * k) (le_val (b # bs)) = push_bit (8 * k) (unat b OR push_bit 8 (le_val bs))"
    by (simp add: byte_or_shift)
  also have "\<dots> = push_bit (8 * k) (unat b) OR push_bit (8 * Suc k) (le_val bs)"
    by (simp add: push_bit_or add.commute)
  finally show ?case using Cons.IH [of "Suc k"] by (simp add: or.assoc)
qed

lemma or_bytes_le_val: "or_bytes bs = le_val bs"
  by (simp add: or_bytes_def enumerate_fold_or)

text \<open>The two's complement value of a little-endian field.\<close>

definition signed_val :: "bytes \<Rightarrow> int" where
  "signed_val bs =
     (if 2 * le_val bs < 256 ^ length bs then int (le_val bs)
      else int (le_val bs) - 256 ^ length bs)"

definition field_ok :: "bytes \<Rightarrow> bool" where
  "field_ok bs \<longleftrightarrow> bs \<noteq> [] \<and> length bs \<le> 8"

lemma top_bit: "0 < n \<Longrightarrow> v < 2 ^ n \<Longrightarrow> (drop_bit (n - 1) v AND 1 = 1) \<longleftrightarrow> 2 ^ n \<le> 2 * (v :: nat)"
proof -
  assume n: "0 < n" and v: "v < 2 ^ n"
  then obtain m where m: "n = Suc m" by (cases n) auto
  have q: "v div 2 ^ m < 2" using v m by (simp add: less_mult_imp_div_less)
  have "2 ^ m \<le> v \<longleftrightarrow> v div 2 ^ m = 1"
  proof
    assume "2 ^ m \<le> v"
    then have "2 ^ m div 2 ^ m \<le> v div 2 ^ m" by (rule div_le_mono)
    with q show "v div 2 ^ m = 1" by simp
  next
    assume "v div 2 ^ m = 1"
    then have "2 ^ m * 1 \<le> v" by (metis mult.commute div_times_less_eq_dividend)
    then show "2 ^ m \<le> v" by simp
  qed
  then show ?thesis using q by (auto simp: m drop_bit_eq_div and_one_eq mod2_eq_if)
qed

lemma sign_fill:
  assumes "v < 2 ^ n" and "n < 64"
  shows "v OR (push_bit n (2 ^ 64 - 1) mod 2 ^ 64) = v + (2 ^ 64 - 2 ^ n :: nat)"
proof -
  have "push_bit n (2 ^ 64 - 1 :: nat) mod 2 ^ 64 = take_bit 64 (push_bit n (mask 64))"
    by (simp add: take_bit_eq_mod mask_eq_exp_minus_1)
  also have "\<dots> = push_bit n (mask (64 - n))"
    using assms(2) by (intro bit_eqI) (auto simp: bit_simps)
  finally have f: "push_bit n (2 ^ 64 - 1 :: nat) mod 2 ^ 64 = push_bit n (mask (64 - n))" .
  have "v AND push_bit n (mask (64 - n)) = 0"
  proof (rule bit_eqI)
    fix i
    have "take_bit n v = v" using assms(1) by (simp add: take_bit_nat_eq_self)
    then have "bit v i \<Longrightarrow> i < n" by (metis bit_take_bit_iff)
    then show "bit (v AND push_bit n (mask (64 - n))) i = bit (0 :: nat) i"
      by (auto simp: bit_simps)
  qed
  then have a: "v OR push_bit n (mask (64 - n)) = v + push_bit n (mask (64 - n))"
    by (simp add: disjunctive_add_eq_or)
  have pm: "push_bit n (mask (64 - n) :: nat) = 2 ^ 64 - 2 ^ n"
    using assms(2)
    by (simp add: push_bit_eq_mult mask_eq_exp_minus_1 diff_mult_distrib power_add [symmetric] del: power_Suc)
  have "v OR (push_bit n (2 ^ 64 - 1) mod 2 ^ 64) = v OR push_bit n (mask (64 - n))"
    by (simp only: f)
  also note a
  also have "v + push_bit n (mask (64 - n)) = v + (2 ^ 64 - 2 ^ n)" by (simp only: pm)
  finally show ?thesis .
qed

lemma pow256: "(256 :: 'a :: comm_semiring_1) ^ n = 2 ^ (8 * n)"
  by (simp add: power_mult)

lemma read_le_unsigned: "field_ok bs \<Longrightarrow> read_le bs False = Some (int (le_val bs))"
  by (simp add: read_le_def field_ok_def MAX_FIELD_BYTES_def or_bytes_le_val Let_def)

lemma read_le_signed:
  assumes "field_ok bs"
  shows "read_le bs True = Some (signed_val bs)"
proof -
  let ?n = "8 * length bs" and ?v = "le_val bs"
  have len: "0 < length bs" "length bs \<le> 8" using assms by (auto simp: field_ok_def)
  have v: "?v < 2 ^ ?n" using le_val_bound [of bs] by (simp add: pow256)
  have top: "(drop_bit (?n - 1) ?v AND 1 = 1) \<longleftrightarrow> 2 ^ ?n \<le> 2 * ?v"
    using top_bit [of ?n ?v] v len by simp
  show ?thesis
  proof (cases "length bs = 8")
    case True
    then show ?thesis
      using assms v
      by (auto simp: read_le_def field_ok_def MAX_FIELD_BYTES_def or_bytes_le_val Let_def
          signed_val_def as_i64_def pow256)
  next
    case False
    then have n: "?n < 64" using len by simp
    have le: "(2 :: nat) ^ ?n \<le> 2 ^ 63" using n by (intro power_increasing) auto
    show ?thesis
    proof (cases "2 ^ ?n \<le> 2 * ?v")
      case True
      have "as_i64 (?v OR (push_bit ?n (2 ^ 64 - 1) mod 2 ^ 64)) = int ?v - 2 ^ ?n"
        using v le by (simp only: sign_fill [OF v n]) (auto simp: as_i64_def of_nat_diff)
      with True top n assms show ?thesis
        by (simp add: read_le_def field_ok_def MAX_FIELD_BYTES_def or_bytes_le_val Let_def
            signed_val_def pow256)
    next
      case False
      have "as_i64 ?v = int ?v" using v le by (simp add: as_i64_def)
      with False top n assms show ?thesis
        by (simp add: read_le_def field_ok_def MAX_FIELD_BYTES_def or_bytes_le_val Let_def
            signed_val_def pow256)
    qed
  qed
qed

lemma int_pow256_less_iff: "k * le_val bs < 256 ^ m \<longleftrightarrow> int k * int (le_val bs) < 2 ^ (8 * m)"
proof -
  have "k * le_val bs < 256 ^ m \<longleftrightarrow> int (k * le_val bs) < int (256 ^ m)"
    by (simp only: of_nat_less_iff)
  then show ?thesis by (simp add: pow256)
qed

lemma signed_val_bounds: "field_ok bs \<Longrightarrow> - (2 ^ 63) \<le> signed_val bs \<and> signed_val bs < 2 ^ 63"
proof -
  assume f: "field_ok bs"
  define V N where "V = int (le_val bs)" and "N = (2 :: int) ^ (8 * length bs)"
  have N: "N \<le> 2 ^ 64"
    unfolding N_def using f by (intro power_increasing) (auto simp: field_ok_def)
  have V: "0 \<le> V" "V < N"
    using le_val_bound [of bs] int_pow256_less_iff [of 1 bs "length bs"] by (auto simp: V_def N_def)
  have "signed_val bs = (if 2 * V < N then V else V - N)"
    using int_pow256_less_iff [of 2 bs "length bs"] by (simp add: signed_val_def V_def N_def pow256)
  with N V show ?thesis by (auto split: if_splits)
qed

section \<open>The format\<close>

text \<open>
  \<open>mapping_pairs prev rs bs\<close>: the bytes \<open>bs\<close> (without the end marker) encode the runs \<open>rs\<close>, the
  first of them relative to cluster \<open>prev\<close>.
\<close>

definition run_ok :: "run \<Rightarrow> bool" where
  "run_ok r \<longleftrightarrow> 0 < run_count r \<and> run_lcn r + run_count r < u64_lim"

inductive mapping_pairs :: "int \<Rightarrow> run list \<Rightarrow> bytes \<Rightarrow> bool" where
  mp_nil: "mapping_pairs prev [] []"
| mp_cons: "field_ok lb \<Longrightarrow> field_ok ob \<Longrightarrow> unat h = length lb + 16 * length ob \<Longrightarrow> run_ok r \<Longrightarrow>
    run_count r = le_val lb \<Longrightarrow> int (run_lcn r) = prev + signed_val ob \<Longrightarrow>
    mapping_pairs (int (run_lcn r)) rs bs \<Longrightarrow>
    mapping_pairs prev (r # rs) (h # lb @ ob @ bs)"

inductive_cases mapping_pairs_NilE: "mapping_pairs prev [] bs"
inductive_cases mapping_pairs_ConsE: "mapping_pairs prev (r # rs) bs"

lemma header_len: "unat (h AND HEADER_LEN_MASK) = unat h mod 16"
proof -
  have "unat (h AND HEADER_LEN_MASK) = unat h AND 15"
    by (simp add: HEADER_LEN_MASK_def unsigned_and_eq)
  also have "\<dots> = take_bit 4 (unat h)"
    by (simp add: take_bit_eq_mask mask_eq_exp_minus_1)
  finally show ?thesis by (simp add: take_bit_eq_mod)
qed

lemma header_off: "unat (drop_bit HEADER_OFF_SHIFT h) = unat h div 16" for h :: byte
  unfolding HEADER_OFF_SHIFT_def unat_drop_bit_eq by (simp add: drop_bit_eq_div)

lemma header_fields:
  assumes "unat h = l + 16 * k" and "l \<le> 8" and "k \<le> 8"
  shows "unat (h AND HEADER_LEN_MASK) = l" and "unat (drop_bit HEADER_OFF_SHIFT (h :: byte)) = k"
  using assms by (simp_all add: header_len header_off)

lemma header_nonzero: "unat h = l + 16 * k \<Longrightarrow> 0 < l \<Longrightarrow> h \<noteq> END_MARKER"
  by (auto simp: END_MARKER_def)

section \<open>The decoder accepts exactly the format\<close>

lemma u64_try_from_int [simp]: "n < u64_lim \<Longrightarrow> u64_try_from (int n) = Some n"
  by (simp add: u64_try_from_def)

lemma decode_step:
  assumes in_eq: "input = pre @ h # lb @ ob @ bs" and len: "length input < u64_lim"
    and f: "field_ok lb" "field_ok ob" and h: "unat h = length lb + 16 * length ob"
    and r: "run_ok r" "run_count r = le_val lb" "int (run_lcn r) = prev + signed_val ob"
  shows "decode_loop input cap (length pre) prev out =
    (if length out < cap
     then decode_loop input cap (length (pre @ h # lb @ ob)) (int (run_lcn r)) (out @ [r])
     else Err TooManyRuns)"
proof -
  have l: "0 < length lb" "length lb \<le> 8" "0 < length ob" "length ob \<le> 8"
    using f by (auto simp: field_ok_def)
  note hf = header_fields [OF h l(2,4)]
  have c: "checked_add_i128 prev (signed_val ob) = Some (int (run_lcn r))"
    using r by (auto simp: checked_add_i128_def run_ok_def)
  have "run_lcn r + run_count r < u64_lim" "0 < run_count r" "mk_run (run_lcn r) (run_count r) = r"
    using r by (auto simp: run_ok_def mk_run_def)
  with l c len header_nonzero [OF h l(1)] show ?thesis
    unfolding decode_loop.simps [of input cap "length pre"]
    by (simp add: in_eq hf nth_append get_range_def MAX_FIELD_BYTES_def read_le_unsigned [OF f(1)]
        read_le_signed [OF f(2)] r(2) [symmetric] add64_def checked_add_def nth_opt_def Let_def add.assoc)
qed

lemma drop_split2:
  assumes "pos < length input" and "pos + 1 + a + b \<le> length input"
  shows "drop pos input = input ! pos # take a (drop (pos + 1) input)
    @ take b (drop (pos + 1 + a) input) @ drop (pos + 1 + a + b) input"
proof -
  have "drop pos input = input ! pos # drop (pos + 1) input"
    using assms(1) by (simp add: Cons_nth_drop_Suc)
  also have "drop (pos + 1) input = take a (drop (pos + 1) input) @ drop (pos + 1 + a) input"
    by (metis append_take_drop_id drop_drop add.commute)
  also have "drop (pos + 1 + a) input
      = take b (drop (pos + 1 + a) input) @ drop (pos + 1 + a + b) input"
    by (metis append_take_drop_id drop_drop add.commute)
  finally show ?thesis .
qed

lemma decode_inv_step:
  assumes "decode_loop input cap pos prev out = Ok rs"
  obtains (stop) junk where "drop pos input = END_MARKER # junk" "rs = out"
  | (run) h lb ob bs r where "drop pos input = h # lb @ ob @ bs" "field_ok lb" "field_ok ob"
      "unat h = length lb + 16 * length ob" "run_ok r" "run_count r = le_val lb"
      "int (run_lcn r) = prev + signed_val ob" "length out < cap"
      "decode_loop input cap (pos + 1 + length lb + length ob) (int (run_lcn r)) (out @ [r]) = Ok rs"
proof -
  note eq = assms [unfolded decode_loop.simps [of input cap pos], simplified rbind_eq_Ok]
  from eq obtain h where pos: "pos < length input" and h: "h = input ! pos" by (auto simp: rbind_eq_Ok)
  show thesis
  proof (cases "h = END_MARKER")
    case True
    with eq h pos stop show ?thesis by (auto simp: Cons_nth_drop_Suc [symmetric])
  next
    case False
    define a b where "a = unat (input ! pos AND HEADER_LEN_MASK)"
      and "b = unat (drop_bit HEADER_OFF_SHIFT (input ! pos))"
    define lb ob where "lb = take a (drop (pos + 1) input)"
      and "ob = take b (drop (pos + 1 + a) input)"
    have ab: "0 < a" "a \<le> 8" "0 < b" "b \<le> 8" "pos + 1 + a + b \<le> length input"
      using eq False h
      by (auto simp: a_def b_def rbind_eq_Ok Let_def get_range_Some_iff MAX_FIELD_BYTES_def split: if_splits)
    then have len: "length lb = a" "length ob = b" by (auto simp: lb_def ob_def)
    have f: "field_ok lb" "field_ok ob" using ab len by (auto simp: field_ok_def)
    have sl: "get_range input (pos + 1) (pos + 1 + a) = Some lb"
        "get_range input (pos + 1 + a) (pos + 1 + a + b) = Some ob"
      using ab by (auto simp: get_range_def lb_def ob_def)
    have body: "0 < le_val lb" "0 \<le> prev + signed_val ob"
        "prev + signed_val ob < 2 ^ 64" "nat (prev + signed_val ob) + le_val lb < u64_lim"
        "length out < cap"
        "decode_loop input cap (pos + 1 + a + b) (prev + signed_val ob)
           (out @ [mk_run (nat (prev + signed_val ob)) (le_val lb)]) = Ok rs"
      using eq False h ab sl read_le_unsigned [OF f(1)] read_le_signed [OF f(2)]
      by (auto simp: a_def [symmetric] b_def [symmetric] rbind_eq_Ok Let_def checked_add_i128_def
          u64_try_from_def split: if_splits)
    show ?thesis
    proof (rule run [of h lb ob "drop (pos + 1 + a + b) input" "mk_run (nat (prev + signed_val ob)) (le_val lb)"])
      show "drop pos input = h # lb @ ob @ drop (pos + 1 + a + b) input"
        using drop_split2 [OF pos ab(5)] by (simp add: h lb_def ob_def)
      show "unat h = length lb + 16 * length ob"
        using len h by (simp add: a_def b_def header_len header_off)
    qed (use f body len in \<open>auto simp: run_ok_def mk_run_def\<close>)
  qed
qed

lemma decode_loop_sound:
  assumes "decode_loop input cap pos prev out = Ok rs"
  shows "\<exists>rs' enc junk. rs = out @ rs' \<and> drop pos input = enc @ END_MARKER # junk
    \<and> mapping_pairs prev rs' enc \<and> (length out \<le> cap \<longrightarrow> length rs \<le> cap)"
  using assms
proof (induction "length input - pos" arbitrary: pos prev out rule: less_induct)
  case less
  from less.prems show ?case
  proof (cases rule: decode_inv_step)
    case (stop junk)
    then show ?thesis
      using mp_nil [of prev] by (intro exI [of _ "[]"] exI [of _ junk]) (auto intro: exI [of _ "[]"])
  next
    case (run h lb ob bs r)
    let ?pos = "pos + 1 + length lb + length ob"
    have "length (drop pos input) = length (h # lb @ ob @ bs)" by (simp only: run(1))
    then have lt: "length input - ?pos < length input - pos" by simp
    have dr: "drop ?pos input = bs"
    proof -
      have "drop ?pos input = drop (1 + length lb + length ob) (drop pos input)"
        by (simp add: add.commute add.left_commute)
      then show ?thesis by (simp add: run(1))
    qed
    from less.hyps [OF lt run(9), unfolded dr] obtain rs' enc junk where
      "rs = (out @ [r]) @ rs'" "bs = enc @ END_MARKER # junk" "mapping_pairs (int (run_lcn r)) rs' enc"
      "length (out @ [r]) \<le> cap \<longrightarrow> length rs \<le> cap" by blast
    with run mp_cons [OF run(2-7)] show ?thesis
      by (intro exI [of _ "r # rs'"] exI [of _ "h # lb @ ob @ enc"] exI [of _ junk]) auto
  qed
qed

lemma decode_loop_complete:
  assumes "mapping_pairs prev rs enc" and "input = pre @ enc @ END_MARKER # junk"
    and "length input < u64_lim" and "length out + length rs \<le> cap"
  shows "decode_loop input cap (length pre) prev out = Ok (out @ rs)"
  using assms
proof (induction prev rs enc arbitrary: pre out rule: mapping_pairs.induct)
  case (mp_nil prev)
  then have "nth_opt input (length pre) = Some END_MARKER" by (simp add: nth_append)
  then show ?case by (subst decode_loop.simps) (simp add: nth_opt_def)
next
  case (mp_cons lb ob h r prev rs bs)
  have "decode_loop input cap (length pre) prev out =
      decode_loop input cap (length (pre @ h # lb @ ob)) (int (run_lcn r)) (out @ [r])"
    using decode_step [of input pre h lb ob "bs @ END_MARKER # junk" r prev cap out] mp_cons by simp
  also have "\<dots> = Ok ((out @ [r]) @ rs)"
    using mp_cons by (intro mp_cons.IH) auto
  finally show ?case by simp
qed

lemma decode_loop_no_panic:
  assumes "length input < u64_lim"
  shows "wp (decode_loop input cap pos prev out) (\<lambda>_. True)"
  using assms
proof (induction input cap pos prev out rule: decode_loop.induct)
  case (1 input cap pos prev out)
  then show ?case
    unfolding decode_loop.simps [of input cap pos] by (simp add: Let_def)
qed

section \<open>Properties\<close>

lemma mapping_pairs_runs_ok: "mapping_pairs prev rs enc \<Longrightarrow> \<forall>r\<in>set rs. run_ok r"
  by (induction rule: mapping_pairs.induct) auto

lemma decode_runs_ok: "decode input cap = Ok rs \<Longrightarrow> length rs \<le> cap \<and> (\<forall>r\<in>set rs. run_ok r)"
  unfolding decode_def by (drule decode_loop_sound) (auto dest: mapping_pairs_runs_ok)

lemma decode_not_Panic: "length input < u64_lim \<Longrightarrow> decode input cap \<noteq> Panic"
  unfolding decode_def using decode_loop_no_panic wp_not_Panic by blast

text \<open>
  C10.  The runlist decoder recognises exactly the mapping-pairs format: for every input a machine
  can hold and every output capacity, decoding succeeds with the runs \<open>rs\<close> if and only if they fit
  the output and the input is an encoding of them (with widths of one to eight bytes, signed
  deltas, non-empty runs whose clusters stay below \<open>2^64\<close>) followed by the end marker; and decoding
  never panics, whatever the bytes.
\<close>

theorem decode_iff_format:
  assumes "length input < u64_lim"
  shows "decode input cap \<noteq> Panic \<and> (decode input cap = Ok rs \<longleftrightarrow>
    length rs \<le> cap \<and> (\<exists>enc junk. input = enc @ END_MARKER # junk \<and> mapping_pairs 0 rs enc))"
proof (intro conjI iffI)
  show "decode input cap \<noteq> Panic" by (rule decode_not_Panic [OF assms])
next
  assume ok: "decode input cap = Ok rs"
  then show "length rs \<le> cap" by (simp add: decode_runs_ok)
  from ok decode_loop_sound [of input cap 0 0 "[]" rs]
  show "\<exists>enc junk. input = enc @ END_MARKER # junk \<and> mapping_pairs 0 rs enc"
    by (auto simp: decode_def)
next
  assume "length rs \<le> cap \<and> (\<exists>enc junk. input = enc @ END_MARKER # junk \<and> mapping_pairs 0 rs enc)"
  then obtain enc junk where "length rs \<le> cap" "input = enc @ END_MARKER # junk" "mapping_pairs 0 rs enc"
    by blast
  then show "decode input cap = Ok rs"
    using decode_loop_complete [of 0 rs enc input "[]" junk "[]" cap] assms by (simp add: decode_def)
qed

text \<open>The unit test's volume: three delta-encoded runs, the last one going backwards.\<close>

theorem decode_iff_format_witness:
  "\<exists>enc junk. [0x21, 0x18, 0x34, 0x56, 0x21, 0x10, 0x00, 0x01, 0x21, 0x08, 0x00, 0xf0, 0x00]
      = enc @ END_MARKER # junk
    \<and> mapping_pairs 0 [mk_run 0x5634 0x18, mk_run 0x5734 0x10, mk_run 0x4734 0x08] enc"
proof -
  let ?in = "[0x21, 0x18, 0x34, 0x56, 0x21, 0x10, 0x00, 0x01, 0x21, 0x08, 0x00, 0xf0, 0x00] :: bytes"
  let ?rs = "[mk_run 0x5634 0x18, mk_run 0x5734 0x10, mk_run 0x4734 0x08]"
  have "decode ?in 8 = Ok ?rs"
    by (simp add: decode_def decode_loop.simps nth_opt_def END_MARKER_def HEADER_LEN_MASK_def
        HEADER_OFF_SHIFT_def MAX_FIELD_BYTES_def add64_def checked_add_def get_range_def read_le_def
        or_bytes_le_val as_i64_def checked_add_i128_def u64_try_from_def mk_run_def Let_def)
  with decode_iff_format [of ?in 8 ?rs] show ?thesis by simp
qed

end
