(* ===== verification/TpmCodec.thy ===== *)
theory TpmCodec
  imports Handoff Crypto Runlist Seal
begin

text \<open>
  TPM 2.0 commands and responses, \<open>crates/paguro-core/src/tpm.rs\<close>, and the offline policy digest of
  \<open>crates/paguro-boot/src/tpm.rs\<close>.  A response is split by a parser that accepts exactly the encodings of
  a response with the expected handle and number of sessions; a command carries its own length; a PCR
  value is looked up at its rank among the PCRs the TPM returned.
\<close>

section \<open>Constants\<close>

definition TPM_MAX_COMMAND :: nat where "TPM_MAX_COMMAND = 4096"
definition TPM_MAX_RESPONSE :: nat where "TPM_MAX_RESPONSE = 4096"
definition TPM_HEADER_LEN :: nat where "TPM_HEADER_LEN = 10"
definition SHA256_LEN :: nat where "SHA256_LEN = 32"
definition MAX_PCR_DIGESTS :: nat where "MAX_PCR_DIGESTS = 8"
definition MAX_NONCE :: nat where "MAX_NONCE = 64"
definition MAX_SENSITIVE_DATA :: nat where "MAX_SENSITIVE_DATA = 128"
definition MAX_SESSIONS :: nat where "MAX_SESSIONS = 3"
definition MAX_PROPERTIES :: nat where "MAX_PROPERTIES = 64"
definition MAX_DIGEST :: nat where "MAX_DIGEST = 64"
definition TPM_MAX_NAME :: nat where "TPM_MAX_NAME = 2 + MAX_DIGEST"
definition MAX_OPAQUE_TPM2B :: nat where "MAX_OPAQUE_TPM2B = 1024"
definition MIN_NONCE_TPM :: nat where "MIN_NONCE_TPM = 16"
definition HEADER_SIZE_OFFSET :: nat where "HEADER_SIZE_OFFSET = 2"
definition AREA_SIZE_LEN :: nat where "AREA_SIZE_LEN = 4"
definition TPM_PCR_COUNT :: nat where "TPM_PCR_COUNT = 24"
definition PCR_SELECT_SIZE :: nat where "PCR_SELECT_SIZE = 3"
definition PCR_SELECT_MAX :: nat where "PCR_SELECT_MAX = 4"
definition AES_KEY_BITS :: nat where "AES_KEY_BITS = 128"
definition ST_NO_SESSIONS :: nat where "ST_NO_SESSIONS = 0x8001"
definition ST_SESSIONS :: nat where "ST_SESSIONS = 0x8002"
definition ST_CREATION :: nat where "ST_CREATION = 0x8021"
definition CC_POLICY_AUTH_VALUE :: nat where "CC_POLICY_AUTH_VALUE = 0x16B"
definition CC_POLICY_COUNTER_TIMER :: nat where "CC_POLICY_COUNTER_TIMER = 0x16D"
definition CC_POLICY_PCR :: nat where "CC_POLICY_PCR = 0x17F"
definition ALG_AES :: nat where "ALG_AES = 0x0006"
definition ALG_KEYEDHASH :: nat where "ALG_KEYEDHASH = 0x0008"
definition ALG_SHA256 :: nat where "ALG_SHA256 = 0x000B"
definition ALG_NULL :: nat where "ALG_NULL = 0x0010"
definition ALG_ECC :: nat where "ALG_ECC = 0x0023"
definition ALG_CFB :: nat where "ALG_CFB = 0x0043"
definition ALG_ECC_NIST_P256 :: nat where "ALG_ECC_NIST_P256 = 0x0003"
definition RH_PW :: nat where "RH_PW = 0x40000009"
definition ATTR_FIXED_TPM :: nat where "ATTR_FIXED_TPM = push_bit 1 1"
definition ATTR_FIXED_PARENT :: nat where "ATTR_FIXED_PARENT = push_bit 4 1"
definition ATTR_SENSITIVE_DATA_ORIGIN :: nat where "ATTR_SENSITIVE_DATA_ORIGIN = push_bit 5 1"
definition ATTR_USER_WITH_AUTH :: nat where "ATTR_USER_WITH_AUTH = push_bit 6 1"
definition ATTR_NO_DA :: nat where "ATTR_NO_DA = push_bit 10 1"
definition ATTR_RESTRICTED :: nat where "ATTR_RESTRICTED = push_bit 16 1"
definition ATTR_DECRYPT :: nat where "ATTR_DECRYPT = push_bit 17 1"
definition ATTR_SRK :: nat where
  "ATTR_SRK = ATTR_FIXED_TPM OR ATTR_FIXED_PARENT OR ATTR_SENSITIVE_DATA_ORIGIN OR ATTR_USER_WITH_AUTH
     OR ATTR_NO_DA OR ATTR_RESTRICTED OR ATTR_DECRYPT"
definition ATTR_SEALED :: nat where "ATTR_SEALED = ATTR_FIXED_TPM OR ATTR_FIXED_PARENT"
definition SA_CONTINUE_SESSION :: nat where "SA_CONTINUE_SESSION = 1"
definition SE_POLICY :: nat where "SE_POLICY = 0x01"
definition ECC_P256_LEN :: nat where "ECC_P256_LEN = 32"
definition EO_UNSIGNED_LT :: nat where "EO_UNSIGNED_LT = 0x0008"
definition TIME_INFO_CLOCK_OFFSET :: nat where "TIME_INFO_CLOCK_OFFSET = 8"
definition CAP_TPM_PROPERTIES :: nat where "CAP_TPM_PROPERTIES = 6"
definition RC_SUCCESS :: nat where "RC_SUCCESS = 0"
definition RC_FMT1 :: nat where "RC_FMT1 = 0x080"
definition RC_FMT1_ERROR_MASK :: nat where "RC_FMT1_ERROR_MASK = 0x3F"
definition RC_AUTH_FAIL :: nat where "RC_AUTH_FAIL = RC_FMT1 + 0x00E"
definition RC_POLICY_FAIL :: nat where "RC_POLICY_FAIL = RC_FMT1 + 0x01D"
definition RC_BAD_AUTH :: nat where "RC_BAD_AUTH = RC_FMT1 + 0x022"
definition RC_EXPIRED :: nat where "RC_EXPIRED = RC_FMT1 + 0x023"
definition RC_WARN :: nat where "RC_WARN = 0x900"
definition RC_LOCKOUT :: nat where "RC_LOCKOUT = RC_WARN + 0x021"
definition RC_RETRY :: nat where "RC_RETRY = RC_WARN + 0x022"
definition RC_TESTING :: nat where "RC_TESTING = RC_WARN + 0x00A"
definition RC_YIELDED :: nat where "RC_YIELDED = RC_WARN + 0x008"
definition RC_PCR_CHANGED :: nat where "RC_PCR_CHANGED = RC_WARN + 0x028"
definition RC_VER1 :: nat where "RC_VER1 = 0x100"
definition RC_POLICY :: nat where "RC_POLICY = RC_VER1 + 0x026"

section \<open>Response codes\<close>

datatype rc_class = RcLockout | RcPolicyFail | RcAuthFail | RcExpired | RcRetry | RcOther

definition rc_base :: "nat \<Rightarrow> nat" where
  "rc_base code = (if code AND RC_FMT1 \<noteq> 0 then code AND (RC_FMT1 OR RC_FMT1_ERROR_MASK) else code)"

definition rc_classify :: "nat \<Rightarrow> rc_class" where
  "rc_classify code =
    (let b = rc_base code in
     if b = RC_LOCKOUT then RcLockout
     else if b = RC_POLICY_FAIL \<or> b = RC_POLICY \<or> b = RC_PCR_CHANGED then RcPolicyFail
     else if b = RC_AUTH_FAIL \<or> b = RC_BAD_AUTH then RcAuthFail
     else if b = RC_EXPIRED then RcExpired
     else if b = RC_RETRY \<or> b = RC_TESTING \<or> b = RC_YIELDED then RcRetry
     else RcOther)"

datatype tpm_error = TeTooLarge | TeTruncated | TeBadTag | TeSizeMismatch | TeTrailing | TeOversized
  | TeBadValue | TeRc nat

type_synonym 'a tres = "(tpm_error, 'a) res"

section \<open>Commands\<close>

record auth_command =
  ac_handle :: nat
  ac_nonce :: bytes
  ac_attributes :: nat
  ac_hmac :: bytes

definition AUTH_PASSWORD :: auth_command where
  "AUTH_PASSWORD = \<lparr>ac_handle = RH_PW, ac_nonce = [], ac_attributes = SA_CONTINUE_SESSION, ac_hmac = []\<rparr>"

text \<open>Writing one thing after another, each with its own \<open>?\<close>.\<close>

definition wseq :: "(writer \<Rightarrow> writer option) list \<Rightarrow> writer \<Rightarrow> writer option" where
  "wseq fs w = opt_fold (\<lambda>w f. f w) w fs"

definition put_tpm2b :: "bytes \<Rightarrow> writer \<Rightarrow> writer option" where
  "put_tpm2b b w = (if length b < u16_lim then Option.bind (w_u16_be w (length b)) (\<lambda>w. wput w b) else None)"

text \<open>A size field that is patched once what it counts has been written.\<close>

definition put_counted :: "nat \<Rightarrow> (writer \<Rightarrow> writer option) \<Rightarrow> writer \<Rightarrow> writer option" where
  "put_counted n body w =
    (let at = wlen w in
     Option.bind (wput w (be_bytes n 0)) (\<lambda>w.
     Option.bind (body w) (\<lambda>w.
     let sz = wlen w - at - n in
     if sz < 256 ^ n then patch w at (be_bytes n sz) else None)))"

definition put_auth :: "auth_command \<Rightarrow> writer \<Rightarrow> writer option" where
  "put_auth s = wseq [\<lambda>w. w_u32_be w (ac_handle s), put_tpm2b (ac_nonce s), \<lambda>w. w_u8 w (ac_attributes s),
     put_tpm2b (ac_hmac s)]"

definition tpm_command ::
  "bytes \<Rightarrow> nat \<Rightarrow> nat list \<Rightarrow> auth_command list \<Rightarrow> bytes \<Rightarrow> (nat \<times> bytes) option" where
  \<comment> \<open>the length, and the buffer as it is left\<close>
  "tpm_command out code handles sessions params =
    (let cap = min (length out) TPM_MAX_COMMAND in
     Option.bind (w_u16_be (writer_new (take cap out)) (if sessions = [] then ST_NO_SESSIONS else ST_SESSIONS)) (\<lambda>w.
     Option.bind (w_u32_be w 0) (\<lambda>w.
     Option.bind (w_u32_be w code) (\<lambda>w.
     Option.bind (opt_fold w_u32_be w handles) (\<lambda>w.
     Option.bind (if sessions = [] then Some w
       else put_counted AREA_SIZE_LEN (\<lambda>w. opt_fold (\<lambda>w s. put_auth s w) w sessions) w) (\<lambda>w.
     Option.bind (wput w params) (\<lambda>w.
     if wlen w < u32_lim then
       Option.bind (patch w HEADER_SIZE_OFFSET (be_bytes 4 (wlen w))) (\<lambda>w.
       Some (wlen w, wbuf w @ drop cap out))
     else None)))))))"

definition write_pcr_selection :: "nat \<Rightarrow> nat \<Rightarrow> writer \<Rightarrow> writer option" where
  "write_pcr_selection bank m = wseq [\<lambda>w. w_u32_be w 1, \<lambda>w. w_u16_be w bank, \<lambda>w. w_u8 w PCR_SELECT_SIZE,
     \<lambda>w. wput w [of_nat m, of_nat (drop_bit 8 m), of_nat (drop_bit 16 m)]]"

definition with_writer :: "bytes \<Rightarrow> (writer \<Rightarrow> writer option) list \<Rightarrow> (nat \<times> bytes) option" where
  "with_writer out fs = map_option (\<lambda>w. (wlen w, wbuf w)) (wseq fs (writer_new out))"

definition params_pcr_read :: "bytes \<Rightarrow> nat \<Rightarrow> (nat \<times> bytes) option" where
  "params_pcr_read out m = with_writer out [write_pcr_selection ALG_SHA256 m]"

definition write_srk_public :: "writer \<Rightarrow> writer option" where
  "write_srk_public = wseq [\<lambda>w. w_u16_be w ALG_ECC, \<lambda>w. w_u16_be w ALG_SHA256, \<lambda>w. w_u32_be w ATTR_SRK,
     put_tpm2b [], \<lambda>w. w_u16_be w ALG_AES, \<lambda>w. w_u16_be w AES_KEY_BITS, \<lambda>w. w_u16_be w ALG_CFB,
     \<lambda>w. w_u16_be w ALG_NULL, \<lambda>w. w_u16_be w ALG_ECC_NIST_P256, \<lambda>w. w_u16_be w ALG_NULL,
     put_tpm2b [], put_tpm2b []]"

definition write_sealed_public :: "bytes \<Rightarrow> writer \<Rightarrow> writer option" where
  "write_sealed_public policy = wseq [\<lambda>w. w_u16_be w ALG_KEYEDHASH, \<lambda>w. w_u16_be w ALG_SHA256,
     \<lambda>w. w_u32_be w ATTR_SEALED, put_tpm2b policy, \<lambda>w. w_u16_be w ALG_NULL, put_tpm2b []]"

definition write_tpm2b_with :: "(writer \<Rightarrow> writer option) \<Rightarrow> writer \<Rightarrow> writer option" where
  "write_tpm2b_with body = put_counted TPM2B_SIZE_LEN body"

definition params_create_primary_srk :: "bytes \<Rightarrow> (nat \<times> bytes) option" where
  "params_create_primary_srk out = with_writer out
     [write_tpm2b_with (wseq [put_tpm2b [], put_tpm2b []]), write_tpm2b_with write_srk_public,
      put_tpm2b [], \<lambda>w. w_u32_be w 0]"

definition params_create_sealed :: "bytes \<Rightarrow> bytes \<Rightarrow> bytes \<Rightarrow> bytes \<Rightarrow> (nat \<times> bytes) option" where
  "params_create_sealed out auth d policy = with_writer out
     [write_tpm2b_with (wseq [put_tpm2b auth, put_tpm2b d]), write_tpm2b_with (write_sealed_public policy),
      put_tpm2b [], \<lambda>w. w_u32_be w 0]"

definition params_load :: "bytes \<Rightarrow> bytes \<Rightarrow> bytes \<Rightarrow> (nat \<times> bytes) option" where
  "params_load out priv pub = with_writer out [\<lambda>w. wput w priv, \<lambda>w. wput w pub]"

record ecc_point =
  ep_x :: bytes
  ep_y :: bytes

definition params_start_session :: "bytes \<Rightarrow> bytes \<Rightarrow> ecc_point option \<Rightarrow> nat \<Rightarrow> (nat \<times> bytes) option" where
  "params_start_session out nonce_caller salt session_type = with_writer out
     ([put_tpm2b nonce_caller,
       case salt of Some p \<Rightarrow> write_tpm2b_with (wseq [put_tpm2b (ep_x p), put_tpm2b (ep_y p)])
         | None \<Rightarrow> put_tpm2b [],
       \<lambda>w. w_u8 w session_type]
      @ (if salt \<noteq> None then [\<lambda>w. w_u16_be w ALG_AES, \<lambda>w. w_u16_be w AES_KEY_BITS, \<lambda>w. w_u16_be w ALG_CFB]
         else [\<lambda>w. w_u16_be w ALG_NULL])
      @ [\<lambda>w. w_u16_be w ALG_SHA256])"

definition params_start_policy_session :: "bytes \<Rightarrow> bytes \<Rightarrow> (nat \<times> bytes) option" where
  "params_start_policy_session out nonce_caller = params_start_session out nonce_caller None SE_POLICY"

definition params_policy_pcr :: "bytes \<Rightarrow> nat \<Rightarrow> nat \<Rightarrow> (nat \<times> bytes) option" where
  "params_policy_pcr out bank m = with_writer out [put_tpm2b [], write_pcr_selection bank m]"

definition params_policy_clock_before :: "bytes \<Rightarrow> nat \<Rightarrow> (nat \<times> bytes) option" where
  "params_policy_clock_before out deadline_ms = with_writer out
     [put_tpm2b (be_bytes 8 deadline_ms), \<lambda>w. w_u16_be w TIME_INFO_CLOCK_OFFSET, \<lambda>w. w_u16_be w EO_UNSIGNED_LT]"

definition params_get_properties :: "bytes \<Rightarrow> nat \<Rightarrow> nat \<Rightarrow> (nat \<times> bytes) option" where
  "params_get_properties out fst' n = with_writer out
     [\<lambda>w. w_u32_be w CAP_TPM_PROPERTIES, \<lambda>w. w_u32_be w fst', \<lambda>w. w_u32_be w n]"

definition params_flush :: "bytes \<Rightarrow> nat \<Rightarrow> (nat \<times> bytes) option" where
  "params_flush out handle = with_writer out [\<lambda>w. w_u32_be w handle]"

section \<open>Responses\<close>

record auth_response =
  ar_nonce :: bytes
  ar_attributes :: nat
  ar_hmac :: bytes

text \<open>The list holds the first \<open>session_count\<close> of the array; the others keep their default.\<close>

record tpm_response =
  rs_handle :: "nat option"
  rs_params :: bytes
  rs_sessions :: "auth_response list"

definition read_tpm2b :: "reader \<Rightarrow> nat \<Rightarrow> (bytes \<times> reader) tres" where
  "read_tpm2b r mx =
    rdo (r_u16_be r) TeTruncated (\<lambda>n r.
    if n > mx then Err TeOversized else rdo (rtake n r) TeTruncated (\<lambda>v r. Ok (v, r)))"

fun read_sessions :: "nat \<Rightarrow> reader \<Rightarrow> (auth_response list \<times> reader) tres" where
  "read_sessions 0 r = Ok ([], r)"
| "read_sessions (Suc n) r =
    rbind (read_tpm2b r MAX_NONCE) (\<lambda>(nonce, r).
    rdo (r_u8 r) TeTruncated (\<lambda>a r.
    rbind (read_tpm2b r MAX_NONCE) (\<lambda>(h, r).
    rbind (read_sessions n r) (\<lambda>(ss, r).
    Ok (\<lparr>ar_nonce = nonce, ar_attributes = a, ar_hmac = h\<rparr> # ss, r)))))"

definition tpm_response_of :: "bytes \<Rightarrow> bool \<Rightarrow> nat \<Rightarrow> tpm_response tres" where
  "tpm_response_of resp has_handle sessions =
    (if length resp > TPM_MAX_RESPONSE then Err TeTooLarge else
     if sessions > MAX_SESSIONS then Err TeOversized else
     rdo (r_u16_be (reader_new resp)) TeTruncated (\<lambda>tag r.
     rdo (r_u32_be r) TeTruncated (\<lambda>sz r.
     rdo (r_u32_be r) TeTruncated (\<lambda>code r.
     if sz \<noteq> length resp then Err TeSizeMismatch else
     if code \<noteq> RC_SUCCESS then
       (if tag \<noteq> ST_NO_SESSIONS then Err TeBadTag
        else if \<not> reader_is_empty r then Err TeTrailing
        else Err (TeRc code)) else
     if tag \<noteq> (if sessions = 0 then ST_NO_SESSIONS else ST_SESSIONS) then Err TeBadTag else
     rbind (if has_handle then rdo (r_u32_be r) TeTruncated (\<lambda>h r. Ok (Some h, r)) else Ok (None, r)) (\<lambda>(handle, r).
     if sessions = 0 then Ok \<lparr>rs_handle = handle, rs_params = rest r, rs_sessions = []\<rparr> else
     rdo (r_u32_be r) TeTruncated (\<lambda>n r.
     if n > remaining r then Err TeOversized else
     rdo (rtake n r) TeTruncated (\<lambda>params r.
     rbind (read_sessions sessions r) (\<lambda>(ss, r).
     if \<not> reader_is_empty r then Err TeTrailing
     else Ok \<lparr>rs_handle = handle, rs_params = params, rs_sessions = ss\<rparr>))))))))"

definition tpm_done :: "reader \<Rightarrow> unit tres" where
  "tpm_done r = (if reader_is_empty r then Ok () else Err TeTrailing)"

record pcr_values =
  pv_update_counter :: nat
  pv_mask :: nat
  pv_digests :: "bytes list"
  pv_count :: nat

definition pcr_get :: "pcr_values \<Rightarrow> nat \<Rightarrow> bytes option" where
  "pcr_get v index' =
    (if index' \<ge> TPM_PCR_COUNT \<or> pv_mask v AND push_bit index' 1 = 0 then None
     else let pos = count_ones (pv_mask v AND (push_bit index' 1 - 1)) in
       if pos < length (pv_digests v) then Some (pv_digests v ! pos) else None)"

fun read_digests :: "nat \<Rightarrow> reader \<Rightarrow> (bytes list \<times> reader) tres" where
  "read_digests 0 r = Ok ([], r)"
| "read_digests (Suc n) r =
    rbind (read_tpm2b r MAX_DIGEST) (\<lambda>(v, r).
    if length v \<noteq> SHA256_LEN then Err TeBadValue else
    rbind (read_digests n r) (\<lambda>(ds, r). Ok (v # ds, r)))"

definition read_selection :: "nat \<Rightarrow> reader \<Rightarrow> (nat \<times> reader) tres" where
  "read_selection banks r =
    (if banks = 1 then
       rdo (r_u16_be r) TeTruncated (\<lambda>a r.
       if a \<noteq> ALG_SHA256 then Err TeBadValue else
       rdo (r_u8 r) TeTruncated (\<lambda>n r.
       if n > PCR_SELECT_MAX then Err TeOversized else
       rdo (rtake n r) TeTruncated (\<lambda>sel r.
       let m = or_bytes sel in
       if drop_bit TPM_PCR_COUNT m \<noteq> 0 then Err TeBadValue else Ok (m, r))))
     else Ok (0, r))"

definition parse_pcr_read :: "bytes \<Rightarrow> pcr_values tres" where
  \<comment> \<open>the array of digests is zeroed beyond the ones read\<close>
  "parse_pcr_read params =
    rdo (r_u32_be (reader_new params)) TeTruncated (\<lambda>update_counter r.
    rdo (r_u32_be r) TeTruncated (\<lambda>banks r.
    if banks > 1 then Err TeOversized else
    rbind (read_selection banks r) (\<lambda>(m, r).
    rdo (r_u32_be r) TeTruncated (\<lambda>n r.
    if n > MAX_PCR_DIGESTS then Err TeOversized else
    if n \<noteq> count_ones m then Err TeBadValue else
    rbind (read_digests n r) (\<lambda>(ds, r).
    rbind (tpm_done r) (\<lambda>_.
    Ok \<lparr>pv_update_counter = update_counter, pv_mask = m,
        pv_digests = ds @ replicate (MAX_PCR_DIGESTS - n) (replicate SHA256_LEN 0), pv_count = n\<rparr>))))))"

definition skip_creation :: "reader \<Rightarrow> reader tres" where
  "skip_creation r =
    rbind (read_tpm2b r MAX_OPAQUE_TPM2B) (\<lambda>(_, r).
    rbind (read_tpm2b r MAX_DIGEST) (\<lambda>(_, r).
    rdo (r_u16_be r) TeTruncated (\<lambda>t r.
    if t \<noteq> ST_CREATION then Err TeBadValue else
    rdo (r_u32_be r) TeTruncated (\<lambda>_ r.
    rbind (read_tpm2b r MAX_DIGEST) (\<lambda>(_, r). Ok r)))))"

record tpm_primary =
  pr_public_area :: bytes
  pr_point :: ecc_point
  pr_name :: bytes

fun skip_u16s :: "nat \<Rightarrow> reader \<Rightarrow> reader tres" where
  "skip_u16s 0 r = Ok r"
| "skip_u16s (Suc n) r = rdo (r_u16_be r) TeTruncated (\<lambda>_ r. skip_u16s n r)"

definition skip_alg :: "nat \<Rightarrow> reader \<Rightarrow> (nat \<times> reader) tres" where
  "skip_alg details r =
    rdo (r_u16_be r) TeTruncated (\<lambda>a r.
    rbind (if a \<noteq> ALG_NULL then skip_u16s details r else Ok r) (\<lambda>r. Ok (a, r)))"

definition read_coord :: "reader \<Rightarrow> (bytes \<times> reader) tres" where
  "read_coord r =
    rbind (read_tpm2b r (2 * ECC_P256_LEN)) (\<lambda>(c, r).
    if length c = ECC_P256_LEN then Ok (c, r) else Err TeBadValue)"

definition parse_ecc_public :: "bytes \<Rightarrow> ecc_point tres" where
  "parse_ecc_public area =
    rdo (r_u16_be (reader_new area)) TeTruncated (\<lambda>t r.
    if t \<noteq> ALG_ECC then Err TeBadValue else
    rdo (r_u16_be r) TeTruncated (\<lambda>_ r.
    rdo (r_u32_be r) TeTruncated (\<lambda>_ r.
    rbind (read_tpm2b r MAX_DIGEST) (\<lambda>(_, r).
    rbind (skip_alg 2 r) (\<lambda>(_, r).
    rbind (skip_alg 1 r) (\<lambda>(_, r).
    rdo (r_u16_be r) TeTruncated (\<lambda>c r.
    if c \<noteq> ALG_ECC_NIST_P256 then Err TeBadValue else
    rbind (skip_alg 1 r) (\<lambda>(_, r).
    rbind (read_coord r) (\<lambda>(x, r).
    rbind (read_coord r) (\<lambda>(y, r).
    rbind (tpm_done r) (\<lambda>_. Ok \<lparr>ep_x = x, ep_y = y\<rparr>)))))))))))"

definition parse_create_primary :: "bytes \<Rightarrow> tpm_primary tres" where
  "parse_create_primary params =
    rbind (read_tpm2b (reader_new params) MAX_OPAQUE_TPM2B) (\<lambda>(area, r).
    rbind (skip_creation r) (\<lambda>r.
    rbind (read_tpm2b r TPM_MAX_NAME) (\<lambda>(name, r).
    rbind (tpm_done r) (\<lambda>_.
    rbind (parse_ecc_public area) (\<lambda>p.
    Ok \<lparr>pr_public_area = area, pr_point = p, pr_name = name\<rparr>)))))"

record tpm_created =
  cr_private :: bytes
  cr_public :: bytes

definition whole_tpm2b :: "reader \<Rightarrow> nat \<Rightarrow> (nat \<times> reader) tres" where
  "whole_tpm2b r mx =
    (let before = remaining r in
     rbind (read_tpm2b r mx) (\<lambda>(v, r).
     if v = [] then Err TeBadValue
     else rbind (sub64 before (remaining r)) (\<lambda>n. Ok (n, r))))"

definition parse_create :: "bytes \<Rightarrow> tpm_created tres" where
  "parse_create params =
    rbind (whole_tpm2b (reader_new params) MAX_OPAQUE_TPM2B) (\<lambda>(priv_len, r).
    rbind (whole_tpm2b r MAX_OPAQUE_TPM2B) (\<lambda>(pub_len, r).
    rbind (skip_creation r) (\<lambda>r.
    rbind (tpm_done r) (\<lambda>_.
    rbind (ok_or (get_range params 0 priv_len) TeTruncated) (\<lambda>priv.
    rbind (add64 priv_len pub_len) (\<lambda>e.
    rbind (ok_or (get_range params priv_len e) TeTruncated) (\<lambda>pub.
    Ok \<lparr>cr_private = priv, cr_public = pub\<rparr>)))))))"

definition parse_load :: "bytes \<Rightarrow> bytes tres" where
  "parse_load params =
    rbind (read_tpm2b (reader_new params) TPM_MAX_NAME) (\<lambda>(name, r). rbind (tpm_done r) (\<lambda>_. Ok name))"

definition parse_start_auth_session :: "bytes \<Rightarrow> bytes tres" where
  "parse_start_auth_session params =
    rbind (read_tpm2b (reader_new params) MAX_NONCE) (\<lambda>(nonce, r).
    if length nonce < MIN_NONCE_TPM then Err TeBadValue else rbind (tpm_done r) (\<lambda>_. Ok nonce))"

definition parse_unseal :: "bytes \<Rightarrow> bytes tres" where
  "parse_unseal params =
    rbind (read_tpm2b (reader_new params) MAX_SENSITIVE_DATA) (\<lambda>(d, r). rbind (tpm_done r) (\<lambda>_. Ok d))"

definition parse_empty :: "bytes \<Rightarrow> unit tres" where
  "parse_empty params = tpm_done (reader_new params)"

record time_info =
  ti_time :: nat
  ti_clock :: nat
  ti_reset_count :: nat
  ti_restart_count :: nat
  ti_safe :: bool

definition flag_of :: "nat \<Rightarrow> bool tres" where
  "flag_of n = (if n = 0 then Ok False else if n = 1 then Ok True else Err TeBadValue)"

definition parse_read_clock :: "bytes \<Rightarrow> time_info tres" where
  "parse_read_clock params =
    rdo (r_u64_be (reader_new params)) TeTruncated (\<lambda>t r.
    rdo (r_u64_be r) TeTruncated (\<lambda>c r.
    rdo (r_u32_be r) TeTruncated (\<lambda>rc r.
    rdo (r_u32_be r) TeTruncated (\<lambda>rs r.
    rdo (r_u8 r) TeTruncated (\<lambda>s r.
    rbind (flag_of s) (\<lambda>s.
    rbind (tpm_done r) (\<lambda>_.
    Ok \<lparr>ti_time = t, ti_clock = c, ti_reset_count = rc, ti_restart_count = rs, ti_safe = s\<rparr>)))))))"

record tpm_properties =
  tp_more :: bool
  tp_props :: "(nat \<times> nat) list"
  tp_count :: nat

definition property_get :: "tpm_properties \<Rightarrow> nat \<Rightarrow> nat option" where
  "property_get p k = map_option snd (find (\<lambda>(q, _). q = k) (take (tp_count p) (tp_props p)))"

fun read_props :: "nat \<Rightarrow> reader \<Rightarrow> ((nat \<times> nat) list \<times> reader) tres" where
  "read_props 0 r = Ok ([], r)"
| "read_props (Suc n) r =
    rdo (r_u32_be r) TeTruncated (\<lambda>k r.
    rdo (r_u32_be r) TeTruncated (\<lambda>v r.
    rbind (read_props n r) (\<lambda>(ps, r). Ok ((k, v) # ps, r))))"

definition parse_get_properties :: "bytes \<Rightarrow> tpm_properties tres" where
  "parse_get_properties params =
    rdo (r_u8 (reader_new params)) TeTruncated (\<lambda>m r.
    rbind (flag_of m) (\<lambda>m.
    rdo (r_u32_be r) TeTruncated (\<lambda>c r.
    if c \<noteq> CAP_TPM_PROPERTIES then Err TeBadValue else
    rdo (r_u32_be r) TeTruncated (\<lambda>n r.
    if n > MAX_PROPERTIES then Err TeOversized else
    rbind (read_props n r) (\<lambda>(ps, r).
    rbind (tpm_done r) (\<lambda>_.
    Ok \<lparr>tp_more = m, tp_props = ps @ replicate (MAX_PROPERTIES - n) (0, 0), tp_count = n\<rparr>))))))"

section \<open>The policy of a sealed object\<close>

text \<open>\<open>policy_digest\<close>, \<open>extend\<close> and what they use, of \<open>crates/paguro-boot/src/tpm.rs\<close>.\<close>

definition pcr_selection_struct :: layout where
  "pcr_selection_struct = [(''count'', 4), (''hash'', 2), (''sizeof_select'', 1), (''pcr_select'', 3)]"

definition PCR_SELECTION_LEN :: nat where "PCR_SELECTION_LEN = size_of pcr_selection_struct"

definition pcr_selection_bytes :: "nat \<Rightarrow> bytes" where
  \<comment> \<open>the buffer as it is left; the ten bytes always fit\<close>
  "pcr_selection_bytes m =
    (let b = replicate PCR_SELECTION_LEN 0 in
     case write_pcr_selection ALG_SHA256 m (writer_new b) of Some w \<Rightarrow> wbuf w | None \<Rightarrow> b)"

definition policy_digest :: "crypto \<Rightarrow> nat \<Rightarrow> bytes list \<Rightarrow> nat option \<Rightarrow> bytes" where
  "policy_digest C m values deadline =
    (let pcr_digest = sha256 C (concat values);
         d = sha256 C (replicate SHA256_LEN 0 @ be_bytes 4 CC_POLICY_PCR @ pcr_selection_bytes m @ pcr_digest);
         d = (case deadline of None \<Rightarrow> d | Some t \<Rightarrow>
           let args = sha256 C (be_bytes 8 t @ be_bytes 2 TIME_INFO_CLOCK_OFFSET @ be_bytes 2 EO_UNSIGNED_LT) in
           sha256 C (d @ be_bytes 4 CC_POLICY_COUNTER_TIMER @ args)) in
     sha256 C (d @ be_bytes 4 CC_POLICY_AUTH_VALUE))"

definition pcr_extend :: "crypto \<Rightarrow> bytes \<Rightarrow> bytes \<Rightarrow> bytes" where
  "pcr_extend C old d = sha256 C (old @ sha256 C d)"

definition pcr12_after_load_taint :: "crypto \<Rightarrow> bytes \<Rightarrow> bytes" where
  "pcr12_after_load_taint C ini = pcr_extend C (replicate SHA256_LEN 0) ini"

definition ct_eq :: "bytes \<Rightarrow> bytes \<Rightarrow> bool" where
  "ct_eq a b = (if length a \<noteq> length b then False
     else fold (\<lambda>(x, y) acc. acc OR (x XOR y)) (zip a b) 0 = 0)"

lemmas tpm_bounds = TPM_MAX_COMMAND_def TPM_MAX_RESPONSE_def MAX_PCR_DIGESTS_def MAX_NONCE_def
  MAX_SESSIONS_def MAX_DIGEST_def TPM_PCR_COUNT_def PCR_SELECT_MAX_def SHA256_LEN_def
  ST_NO_SESSIONS_def ST_SESSIONS_def RC_SUCCESS_def ALG_SHA256_def

section \<open>The areas of a response\<close>

lemma be_read_iff:
  "map_option (\<lambda>(b, r'). (be_val b, r')) (rarray n r) = Some (v, r') \<longleftrightarrow> v < 256 ^ n \<and> r = be_bytes n v @ r'"
proof
  assume "map_option (\<lambda>(b, r'). (be_val b, r')) (rarray n r) = Some (v, r')"
  then obtain b where "rarray n r = Some (b, r')" "v = be_val b" by auto
  then show "v < 256 ^ n \<and> r = be_bytes n v @ r'"
    using be_val_bound [of b] by (auto simp: be_bytes_be_val dest: rarray_SomeD)
qed simp

lemma r_be_iff:
  "r_u16_be r = Some (v, r') \<longleftrightarrow> v < u16_lim \<and> r = be_bytes 2 v @ r'"
  "r_u32_be r = Some (v, r') \<longleftrightarrow> v < u32_lim \<and> r = be_bytes 4 v @ r'"
  "r_u64_be r = Some (v, r') \<longleftrightarrow> v < u64_lim \<and> r = be_bytes 8 v @ r'"
  using be_read_iff [of 2 r v r'] be_read_iff [of 4 r v r'] be_read_iff [of 8 r v r']
  by (simp_all add: r_u16_be_def r_u32_be_def r_u64_be_def)

lemma r_u32_be_append [simp]: "v < u32_lim \<Longrightarrow> r_u32_be (be_bytes 4 v @ r) = Some (v, r)"
  by (simp add: r_be_iff)

lemma r_u8_iff: "r_u8 r = Some (v, r') \<longleftrightarrow> v < u8_lim \<and> r = le_bytes 1 v @ r'"
  using r_u8_SomeD [of r v r'] r_u8_append [of v r'] by auto

lemma rtake_iff: "rtake n r = Some (b, r') \<longleftrightarrow> r = b @ r' \<and> length b = n"
  by (auto simp: rtake_def)

definition tpm2b_bytes :: "bytes \<Rightarrow> bytes" where
  "tpm2b_bytes v = be_bytes 2 (length v) @ v"

lemma read_tpm2b_Ok:
  "read_tpm2b r mx = Ok (v, r') \<longleftrightarrow> length v \<le> mx \<and> length v < u16_lim \<and> r = tpm2b_bytes v @ r'"
  by (auto simp: read_tpm2b_def rdo_eq_Ok r_be_iff rtake_iff tpm2b_bytes_def split: if_splits)

lemma read_tpm2b_wp: "wp (read_tpm2b r mx) (\<lambda>_. True)"
  by (simp add: read_tpm2b_def)

definition auth_response_ok :: "auth_response \<Rightarrow> bool" where
  "auth_response_ok a \<longleftrightarrow> length (ar_nonce a) \<le> MAX_NONCE \<and> length (ar_hmac a) \<le> MAX_NONCE
     \<and> ar_attributes a < u8_lim"

definition auth_response_bytes :: "auth_response \<Rightarrow> bytes" where
  "auth_response_bytes a = tpm2b_bytes (ar_nonce a) @ le_bytes 1 (ar_attributes a) @ tpm2b_bytes (ar_hmac a)"

lemma auth_response_rec:
  "auth_response_ok \<lparr>ar_nonce = a, ar_attributes = x, ar_hmac = c\<rparr> \<longleftrightarrow>
     length a \<le> MAX_NONCE \<and> length c \<le> MAX_NONCE \<and> x < u8_lim"
  "auth_response_bytes \<lparr>ar_nonce = a, ar_attributes = x, ar_hmac = c\<rparr> = tpm2b_bytes a @ le_bytes 1 x @ tpm2b_bytes c"
  by (simp_all add: auth_response_ok_def auth_response_bytes_def del: le_bytes.simps One_nat_def)

lemma read_sessions_Ok:
  "read_sessions n r = Ok (ss, r') \<longleftrightarrow>
     length ss = n \<and> list_all auth_response_ok ss \<and> r = concat (map auth_response_bytes ss) @ r'"
proof (induction n arbitrary: r ss)
  case (Suc n)
  have "read_sessions (Suc n) r = Ok (ss, r') \<longleftrightarrow>
    (\<exists>a ss'. ss = a # ss' \<and> auth_response_ok a \<and> length ss' = n \<and> list_all auth_response_ok ss'
       \<and> r = auth_response_bytes a @ concat (map auth_response_bytes ss') @ r')" (is "?L \<longleftrightarrow> ?R")
  proof
    assume ?L
    then show ?R
      by (auto simp: rbind_eq_Ok rdo_eq_Ok read_tpm2b_Ok r_u8_iff Suc.IH auth_response_rec
          simp del: le_bytes.simps One_nat_def)
  next
    assume ?R
    then obtain a ss' where *: "ss = a # ss'" "auth_response_ok a" "length ss' = n"
      "list_all auth_response_ok ss'" "r = auth_response_bytes a @ concat (map auth_response_bytes ss') @ r'"
      by blast
    have 1: "read_tpm2b r MAX_NONCE = Ok (ar_nonce a, le_bytes 1 (ar_attributes a) @ tpm2b_bytes (ar_hmac a)
        @ concat (map auth_response_bytes ss') @ r')"
      and 2: "read_tpm2b (tpm2b_bytes (ar_hmac a) @ concat (map auth_response_bytes ss') @ r') MAX_NONCE
        = Ok (ar_hmac a, concat (map auth_response_bytes ss') @ r')"
      using *(2,5) by (auto simp: read_tpm2b_Ok auth_response_bytes_def auth_response_ok_def tpm_bounds)
    have 3: "read_sessions n (concat (map auth_response_bytes ss') @ r') = Ok (ss', r')"
      using *(3,4) by (simp add: Suc.IH)
    from 1 2 3 *(1,2) show ?L
      by (simp add: auth_response_ok_def del: le_bytes.simps One_nat_def)
  qed
  also have "\<dots> \<longleftrightarrow> length ss = Suc n \<and> list_all auth_response_ok ss \<and> r = concat (map auth_response_bytes ss) @ r'"
    by (cases ss) auto
  finally show ?case .
qed auto

lemma read_sessions_wp: "wp (read_sessions n r) (\<lambda>_. True)"
  by (induction n arbitrary: r) (auto simp: read_tpm2b_def)

text \<open>What a well-formed response is, and how it is encoded.\<close>

definition response_ok :: "bool \<Rightarrow> nat \<Rightarrow> tpm_response \<Rightarrow> bool" where
  "response_ok has_handle n rs \<longleftrightarrow>
     (case rs_handle rs of None \<Rightarrow> \<not> has_handle | Some h \<Rightarrow> has_handle \<and> h < u32_lim)
     \<and> length (rs_sessions rs) = n \<and> n \<le> 3 \<and> list_all auth_response_ok (rs_sessions rs)"

definition response_body :: "tpm_response \<Rightarrow> bytes" where
  "response_body rs =
     (case rs_handle rs of None \<Rightarrow> [] | Some h \<Rightarrow> be_bytes 4 h)
     @ (if rs_sessions rs = [] then rs_params rs
        else be_bytes 4 (length (rs_params rs)) @ rs_params rs
          @ concat (map auth_response_bytes (rs_sessions rs)))"

definition response_bytes :: "tpm_response \<Rightarrow> bytes" where
  "response_bytes rs =
     be_bytes 2 (if rs_sessions rs = [] then 0x8001 else 0x8002)
     @ be_bytes 4 (10 + length (response_body rs)) @ be_bytes 4 0 @ response_body rs"

lemma response_Ok:
  "tpm_response_of b has_handle n = Ok rs \<longleftrightarrow>
     response_ok has_handle n rs \<and> b = response_bytes rs \<and> length b \<le> 4096" (is "?L \<longleftrightarrow> ?R")
proof
  assume ?L
  then show ?R
    by (auto simp: tpm_response_of_def tpm_bounds rdo_eq_Ok rbind_eq_Ok r_be_iff rtake_iff read_sessions_Ok
        reader_is_empty_def remaining_def rest_def reader_new_def
        response_ok_def response_bytes_def response_body_def split: if_splits)
next
  assume R: ?R
  obtain h p ss where rs: "rs = \<lparr>rs_handle = h, rs_params = p, rs_sessions = ss\<rparr>" by (cases rs) auto
  from R have "length (response_bytes rs) \<le> 4096" by auto
  then have len: "length (response_body rs) \<le> 4086" by (simp add: response_bytes_def)
  have ss: "read_sessions n (concat (map auth_response_bytes ss)) = Ok (ss, [])"
    using R by (simp add: read_sessions_Ok rs response_ok_def)
  show ?L
    using R len ss unfolding rs
    by (cases h; cases "ss = []")
      (auto simp: tpm_response_of_def tpm_bounds reader_is_empty_def remaining_def rest_def reader_new_def
        response_ok_def response_bytes_def response_body_def)
qed

lemma response_wp: "wp (tpm_response_of b h n) (\<lambda>_. True)"
  using read_sessions_wp by (auto simp: tpm_response_of_def intro: wp_conseq [OF read_sessions_wp])

text \<open>
  C28.  The response parser never panics, and it accepts a byte string exactly when it is the encoding
  of a response that has a handle if one is expected and precisely the expected number of sessions,
  whose size field is its length, and of at most 4096 bytes; the areas it returns are those that were
  encoded.  In particular two different responses never have the same bytes.
\<close>

theorem response_format_exact:
  "tpm_response_of b has_handle n \<noteq> Panic
   \<and> (tpm_response_of b has_handle n = Ok rs \<longleftrightarrow>
        response_ok has_handle n rs \<and> b = response_bytes rs \<and> length b \<le> 4096)"
  using response_wp [of b has_handle n] by (simp add: response_Ok wp_True)

section \<open>PCR values\<close>

definition digest_ok :: "bytes \<Rightarrow> bool" where "digest_ok d \<longleftrightarrow> length d = 32"

lemma read_digests_Ok:
  "read_digests n r = Ok (ds, r') \<longleftrightarrow>
     length ds = n \<and> list_all digest_ok ds \<and> r = concat (map tpm2b_bytes ds) @ r'"
proof (induction n arbitrary: r ds)
  case (Suc n)
  have "read_digests (Suc n) r = Ok (ds, r') \<longleftrightarrow>
    (\<exists>d ds'. ds = d # ds' \<and> digest_ok d \<and> length ds' = n \<and> list_all digest_ok ds'
       \<and> r = tpm2b_bytes d @ concat (map tpm2b_bytes ds') @ r')"
    (is "?L \<longleftrightarrow> ?R")
  proof
    assume ?L
    then show ?R
      by (auto simp: rbind_eq_Ok read_tpm2b_Ok Suc.IH tpm_bounds split: if_splits)
        (simp_all add: digest_ok_def)
  next
    assume ?R
    then obtain d ds' where *: "ds = d # ds'" "digest_ok d" "length ds' = n" "list_all digest_ok ds'"
      "r = tpm2b_bytes d @ concat (map tpm2b_bytes ds') @ r'" by blast
    then have "read_tpm2b r MAX_DIGEST = Ok (d, concat (map tpm2b_bytes ds') @ r')"
      by (simp add: read_tpm2b_Ok digest_ok_def tpm_bounds)
    moreover have "read_digests n (concat (map tpm2b_bytes ds') @ r') = Ok (ds', r')"
      using * by (simp add: Suc.IH)
    ultimately show ?L using *(1,2) by (simp add: digest_ok_def tpm_bounds)
  qed
  then show ?case by (cases ds) auto
qed auto

lemma read_digests_wp: "wp (read_digests n r) (\<lambda>_. True)"
  by (induction n arbitrary: r) (auto simp: read_tpm2b_def)

definition rank :: "nat \<Rightarrow> nat \<Rightarrow> nat" where
  "rank m i = card {j. j < i \<and> bit m j}"

lemma bit_below: "m < 2 ^ n \<Longrightarrow> bit (m :: nat) j \<Longrightarrow> j < n"
  by (metis bit_take_bit_iff take_bit_nat_eq_self)

lemma count_ones_card: "m < 2 ^ 32 \<Longrightarrow> count_ones m = card {j. bit m j}"
proof -
  assume m: "m < 2 ^ 32"
  have "count_ones m = card (set (filter (bit m) [0..<32]))"
    by (simp only: count_ones_def distinct_card distinct_filter distinct_upt)
  also have "set (filter (bit m) [0..<32]) = {j. bit m j}"
    using m by (auto intro: bit_below)
  finally show ?thesis .
qed

lemma take_bit_rank:
  assumes "i < 32"
  shows "count_ones (m AND (2 ^ i - Suc 0)) = rank m i"
proof -
  have "m AND (2 ^ i - Suc 0) = take_bit i m"
    by (simp add: take_bit_eq_mask mask_eq_exp_minus_1)
  moreover have "take_bit i m < 2 ^ 32"
    using assms take_bit_nat_less_exp [of i m] power_increasing [of i 32 "2 :: nat"] by linarith
  moreover have "{j. bit (take_bit i m) j} = {j. j < i \<and> bit m j}"
    by (auto simp: bit_take_bit_iff)
  ultimately show ?thesis by (simp add: count_ones_card rank_def)
qed

lemma and_bit_zero: "m AND 2 ^ i = 0 \<longleftrightarrow> \<not> bit (m :: nat) i"
  by (rule and_exp_eq_0_iff_not_bit)

lemma rank_less: "m < 2 ^ 32 \<Longrightarrow> bit m i \<Longrightarrow> rank m i < count_ones m"
proof -
  assume m: "m < 2 ^ 32" and b: "bit m i"
  have "finite {j. bit m j}"
    by (rule finite_subset [of _ "{..<32}"]) (auto dest: bit_below [OF m])
  moreover have "{j. j < i \<and> bit m j} \<subset> {j. bit m j}" using b by auto
  ultimately show ?thesis unfolding count_ones_card [OF m] rank_def by (rule psubset_card_mono)
qed

lemma read_selection_Ok:
  assumes "read_selection banks r = Ok (m, r')"
  shows "m < 2 ^ 24 \<and> (\<exists>p. r = p @ r')"
proof -
  from assms have "drop_bit 24 m = 0"
    by (auto simp: read_selection_def rdo_eq_Ok Let_def tpm_bounds split: if_splits)
  moreover from assms have "\<exists>p. r = p @ r'"
    by (auto simp: read_selection_def rdo_eq_Ok Let_def r_be_iff r_u8_iff rtake_iff simp flip: append_assoc
        simp del: le_bytes.simps One_nat_def split: if_splits)
  ultimately show ?thesis by (simp add: drop_bit_eq_div div_eq_0_iff)
qed

text \<open>
  Whatever bytes a TPM answers a PCR read with, if they are accepted then the response names at
  most 24 PCRs and carries one 32-byte digest for each, in ascending order, as its last bytes; looking a
  PCR up yields its own digest --- the one at its rank among the PCRs that were returned --- and nothing
  for a PCR that was not returned.
\<close>

theorem pcr_get_own_digest:
  assumes "parse_pcr_read b = Ok v"
  shows "\<exists>ds pre. b = pre @ concat (map tpm2b_bytes ds) \<and> list_all digest_ok ds
    \<and> length ds = card {j. bit (pv_mask v) j} \<and> pv_mask v < 2 ^ 24
    \<and> (\<forall>i. pcr_get v i = (if bit (pv_mask v) i then Some (ds ! rank (pv_mask v) i) else None))"
proof -
  from assms obtain u r1 k r2 m r3 n r4 ds where
    b: "r_u32_be b = Some (u, r1)" "r_u32_be r1 = Some (k, r2)" and sel: "read_selection k r2 = Ok (m, r3)"
    and r4: "r_u32_be r3 = Some (n, r4)" and n: "n = count_ones m" and dr: "read_digests n r4 = Ok (ds, [])"
    and v: "pv_mask v = m" "pv_digests v = ds @ replicate (MAX_PCR_DIGESTS - n) (replicate SHA256_LEN 0)"
    by (auto simp: parse_pcr_read_def rdo_eq_Ok rbind_eq_Ok reader_new_def tpm_done_def reader_is_empty_def
        split: if_splits)
  from sel have m: "m < 2 ^ 24" and "\<exists>p. r2 = p @ r3" by (auto dest: read_selection_Ok)
  with b r4 dr have pre: "\<exists>pre. b = pre @ concat (map tpm2b_bytes ds)"
    by (auto simp: r_be_iff read_digests_Ok simp flip: append_assoc)
  have ds: "length ds = n" "list_all digest_ok ds" using dr by (simp_all add: read_digests_Ok)
  have m32: "m < 2 ^ 32" using m by simp
  have "pcr_get v i = (if bit m i then Some (ds ! rank m i) else None)" for i
  proof (cases "bit m i")
    case True
    then have "i < 24" "rank m i < length ds" using bit_below [OF m] rank_less [OF m32] ds n by auto
    moreover have "m AND 2 ^ i \<noteq> 0" using True by (simp only: and_bit_zero not_not)
    ultimately show ?thesis using True
      by (simp add: pcr_get_def v take_bit_rank tpm_bounds nth_append Let_def)
  qed (simp add: pcr_get_def v and_bit_zero)
  then show ?thesis using pre ds n m v count_ones_card [OF m32] by auto
qed

section \<open>Commands\<close>

lemma emits_be [simp, intro]:
  "emits (\<lambda>w. w_u16_be w v) (be_bytes 2 v)" "emits (\<lambda>w. w_u32_be w v) (be_bytes 4 v)"
  by (simp_all add: w_ints emits_wput)

lemma emits_cong: "emits f b \<Longrightarrow> b = b' \<Longrightarrow> emits f b'"
  by simp

lemma emits_tpm2b [intro]: "length b < u16_lim \<Longrightarrow> emits (put_tpm2b b) (tpm2b_bytes b)"
  unfolding put_tpm2b_def tpm2b_bytes_def by (auto intro!: emits_bind)

lemma emits_wseq: "list_all2 emits fs bs \<Longrightarrow> emits (wseq fs) (concat bs)"
  unfolding wseq_def using emits_fold [of "\<lambda>f. f" fs bs] by simp

lemma emits_counted:
  assumes "emits body b" "length b < 256 ^ n"
  shows "emits (put_counted n body) (be_bytes n (length b) @ b)"
  unfolding emits_def
proof (intro allI impI)
  fix pre room :: bytes
  assume room: "length (be_bytes n (length b) @ b) \<le> length room" and lim: "length pre + length room < u64_lim"
  have 1: "wput (wr pre room) (be_bytes n 0) = Some (wr (pre @ be_bytes n 0) (drop n room))"
    using room lim by simp
  have 2: "body (wr (pre @ be_bytes n 0) (drop n room))
      = Some (wr ((pre @ be_bytes n 0) @ b) (drop (length b) (drop n room)))"
    using room lim by (intro emitsD [OF assms(1)]) auto
  have "overwrite ((pre @ be_bytes n 0) @ b) (length pre) (be_bytes n (length b)) = pre @ be_bytes n (length b) @ b"
    by (simp add: overwrite_def)
  then show "put_counted n body (wr pre room)
      = Some (wr (pre @ be_bytes n (length b) @ b) (drop (length (be_bytes n (length b) @ b)) room))"
    using 1 2 room lim assms(2) by (simp add: put_counted_def Let_def add.commute)
qed

definition auth_command_ok :: "auth_command \<Rightarrow> bool" where
  "auth_command_ok a \<longleftrightarrow> length (ac_nonce a) < u16_lim \<and> length (ac_hmac a) < u16_lim"

definition auth_command_bytes :: "auth_command \<Rightarrow> bytes" where
  "auth_command_bytes a = be_bytes 4 (ac_handle a) @ tpm2b_bytes (ac_nonce a)
     @ le_bytes 1 (ac_attributes a) @ tpm2b_bytes (ac_hmac a)"

definition command_tail :: "nat \<Rightarrow> nat list \<Rightarrow> auth_command list \<Rightarrow> bytes \<Rightarrow> bytes" where
  "command_tail code handles sessions params =
     be_bytes 4 code @ concat (map (be_bytes 4) handles)
     @ (if sessions = [] then []
        else let a = concat (map auth_command_bytes sessions) in be_bytes 4 (length a) @ a)
     @ params"

definition command_bytes :: "nat \<Rightarrow> nat list \<Rightarrow> auth_command list \<Rightarrow> bytes \<Rightarrow> bytes" where
  "command_bytes code handles sessions params =
     be_bytes 2 (if sessions = [] then 0x8001 else 0x8002)
     @ be_bytes 4 (6 + length (command_tail code handles sessions params))
     @ command_tail code handles sessions params"

lemma emits_auth: "auth_command_ok a \<Longrightarrow> emits (put_auth a) (auth_command_bytes a)"
  unfolding put_auth_def auth_command_ok_def auth_command_bytes_def
  by (rule emits_cong [OF emits_wseq [of _ "[be_bytes 4 (ac_handle a), tpm2b_bytes (ac_nonce a),
      le_bytes 1 (ac_attributes a), tpm2b_bytes (ac_hmac a)]"]])
    (auto simp del: le_bytes.simps One_nat_def)

lemma emits_auths:
  "list_all auth_command_ok ss \<Longrightarrow>
     emits (\<lambda>w. opt_fold (\<lambda>w s. put_auth s w) w ss) (concat (map auth_command_bytes ss))"
  by (rule emits_fold) (auto simp: list_all2_conv_all_nth list_all_length intro: emits_auth)

lemma emits_tail:
  assumes "list_all auth_command_ok sessions"
    and "length (concat (map auth_command_bytes sessions)) < u32_lim"
  shows "emits (\<lambda>w. Option.bind (w_u32_be w code) (\<lambda>w.
     Option.bind (opt_fold w_u32_be w handles) (\<lambda>w.
     Option.bind (if sessions = [] then Some w
       else put_counted AREA_SIZE_LEN (\<lambda>w. opt_fold (\<lambda>w s. put_auth s w) w sessions) w) (\<lambda>w.
     wput w params)))) (command_tail code handles sessions params)"
proof -
  have h: "emits (\<lambda>w. opt_fold w_u32_be w handles) (concat (map (be_bytes 4) handles))"
    using emits_fold [of "\<lambda>h w. w_u32_be w h" handles "map (be_bytes 4) handles"]
    by (auto simp: list_all2_conv_all_nth)
  have s: "emits (\<lambda>w. if sessions = [] then Some w
       else put_counted AREA_SIZE_LEN (\<lambda>w. opt_fold (\<lambda>w s. put_auth s w) w sessions) w)
    (if sessions = [] then [] else let a = concat (map auth_command_bytes sessions) in be_bytes 4 (length a) @ a)"
    using emits_counted [OF emits_auths [OF assms(1)], of 4] assms(2)
    by (auto simp: AREA_SIZE_LEN_def Let_def emits_def)
  show ?thesis unfolding command_tail_def
    by (intro emits_bind h s emits_be emits_wput)
qed

text \<open>
  A command that fits the buffer and the 4096 bytes of a command is written exactly as the TPM
  specification lays it out --- tag, its own length, code, handles, the authorisation area behind its
  size, parameters --- at the front of the buffer, whose other bytes stay.
\<close>

theorem tpm_command_exact:
  assumes "list_all auth_command_ok sessions"
    and "length (command_bytes code handles sessions params) \<le> min (length out) 4096"
  shows "tpm_command out code handles sessions params
    = Some (length (command_bytes code handles sessions params),
        command_bytes code handles sessions params
        @ drop (length (command_bytes code handles sessions params)) out)"
proof -
  let ?tail = "command_tail code handles sessions params"
  let ?tag = "if sessions = [] then 0x8001 else 0x8002 :: nat"
  define room where "room = take (min (length out) 4096) out"
  have len: "6 + length ?tail \<le> length room" "length room \<le> 4096"
    using assms(2) by (simp_all add: command_bytes_def room_def)
  have a: "length (concat (map auth_command_bytes sessions)) < u32_lim"
    using len by (cases "sessions = []") (simp_all add: command_tail_def Let_def)
  have 1: "w_u16_be (writer_new room) ?tag = Some (wr (be_bytes 2 ?tag) (drop 2 room))"
    using emitsD [OF emits_be(1), of ?tag room "[]"] len by (simp add: writer_new_wr)
  have 2: "w_u32_be (wr (be_bytes 2 ?tag) (drop 2 room)) 0
      = Some (wr (be_bytes 2 ?tag @ be_bytes 4 0) (drop 4 (drop 2 room)))"
    using emitsD [OF emits_be(2), of 0 "drop 2 room" "be_bytes 2 ?tag"] len by simp
  let ?rest = "\<lambda>w. Option.bind (w_u32_be w code) (\<lambda>w. Option.bind (opt_fold w_u32_be w handles) (\<lambda>w.
     Option.bind (if sessions = [] then Some w
       else put_counted AREA_SIZE_LEN (\<lambda>w. opt_fold (\<lambda>w s. put_auth s w) w sessions) w) (\<lambda>w.
     wput w params)))"
  have 3: "?rest (wr (be_bytes 2 ?tag @ be_bytes 4 0) (drop 4 (drop 2 room)))
     = Some (wr ((be_bytes 2 ?tag @ be_bytes 4 0) @ ?tail) (drop (length ?tail) (drop 4 (drop 2 room))))"
    using len by (intro emitsD [OF emits_tail [OF assms(1) a]]) auto
  have 4: "overwrite ((be_bytes 2 ?tag @ be_bytes 4 0) @ ?tail) 2 (be_bytes 4 (6 + length ?tail))
      = command_bytes code handles sessions params"
    by (simp add: overwrite_def command_bytes_def)
  have command_len: "length (command_bytes code handles sessions params) = 6 + length ?tail"
    by (simp add: command_bytes_def)
  have "tpm_command out code handles sessions params
    = Option.bind (Option.bind (Option.bind (w_u16_be (writer_new room) ?tag) (\<lambda>w. w_u32_be w 0)) ?rest)
        (\<lambda>w. if wlen w < u32_lim then
       Option.bind (patch w 2 (be_bytes 4 (wlen w))) (\<lambda>w. Some (wlen w, wbuf w @ drop (min (length out) 4096) out))
     else None)"
    unfolding tpm_command_def HEADER_SIZE_OFFSET_def by (simp add: Let_def bind_assoc tpm_bounds room_def)
  also have "\<dots> = Some (6 + length ?tail, command_bytes code handles sessions params
      @ drop (length ?tail) (drop 4 (drop 2 room)) @ drop (min (length out) 4096) out)"
    using 1 2 3 4 len by (simp add: command_len)
  also have "drop (length ?tail) (drop 4 (drop 2 room)) @ drop (min (length out) 4096) out
      = drop (6 + length ?tail) out"
    using drop_append [of "6 + length ?tail" room "drop (min (length out) 4096) out"] len
    by (simp add: room_def add.commute)
  finally show ?thesis by (simp add: command_bytes_def)
qed

theorem tpm_command_exact_witness:
  "list_all auth_command_ok [AUTH_PASSWORD]
   \<and> tpm_command (replicate 64 0xAA) 0x157 [0x80000000] [AUTH_PASSWORD] [1, 2, 3]
    = Some (30, command_bytes 0x157 [0x80000000] [AUTH_PASSWORD] [1, 2, 3] @ replicate 34 0xAA)"
proof -
  have len: "length (command_bytes 0x157 [0x80000000] [AUTH_PASSWORD] [1, 2, 3]) = 30"
    by (simp add: command_bytes_def command_tail_def auth_command_bytes_def AUTH_PASSWORD_def tpm2b_bytes_def Let_def)
  have ok: "list_all auth_command_ok [AUTH_PASSWORD]"
    by (simp add: auth_command_ok_def AUTH_PASSWORD_def)
  show ?thesis
    using tpm_command_exact [OF ok, of "0x157" "[0x80000000]" "[1, 2, 3]" "replicate 64 0xAA"] ok len by simp
qed

theorem pcr_get_own_digest_witness:
  "parse_pcr_read (be_bytes 4 7 @ be_bytes 4 1 @ be_bytes 2 0xB @ [3, 0x11, 0, 0] @ be_bytes 4 2
     @ concat (map tpm2b_bytes [replicate 32 1, replicate 32 2])) =
     Ok \<lparr>pv_update_counter = 7, pv_mask = 0x11,
       pv_digests = [replicate 32 1, replicate 32 2] @ replicate 6 (replicate 32 0), pv_count = 2\<rparr>
   \<and> card {j. bit (0x11 :: nat) j} = 2" (is "?P \<and> _")
proof -
  have ones: "count_ones 0x11 = 2" by (simp add: count_ones_def upt_rec bit_nat_def)
  have sel: "r_u8 (3 # r) = Some (3, r)" for r by (simp add: r_u8_def rarray_def rtake_def)
  have m: "or_bytes [0x11, 0, 0] = 0x11" by (simp add: or_bytes_le_val)
  have rs: "read_selection 1 (be_bytes 2 0xB @ [3, 0x11, 0, 0] @ r) = Ok (0x11, r)" for r
    by (simp add: read_selection_def sel tpm_bounds m rtake_def drop_bit_eq_div)
  have rd: "read_digests 2 (concat (map tpm2b_bytes [replicate 32 1, replicate 32 2]))
      = Ok ([replicate 32 1, replicate 32 2], [])"
    by (subst read_digests_Ok) (simp add: digest_ok_def)
  have P: ?P
    using rs rd by (simp add: parse_pcr_read_def reader_new_def ones tpm_bounds tpm_done_def reader_is_empty_def)
  from pcr_get_own_digest [OF P] show ?thesis using P ones by (simp add: count_ones_card [symmetric])
qed

end
