(* ===== verification/Boot.thy ===== *)
theory Boot
  imports Platform TpmCodec Gpt
begin

text \<open>
  The frame of the stage machine: the types of \<open>crates/paguro-boot/src/lib.rs\<close>, \<open>volume.rs\<close> and
  \<open>tpm.rs\<close> that \<open>machine.rs\<close> uses, and the computations it is written in.

  The machine is generic over a platform and a volume.  The methods of the two traits are the fields
  of records over a world \<open>'s\<close>, and so are the operations of the TPM client (\<open>Tpm\<close> in \<open>tpm.rs\<close>,
  built on third-party cryptography); every theorem holds for all of them.  A method that fills a
  buffer returns what it wrote at its front; the rest of the buffer stays, and its length is kept.

  The machine's state is \<open>State\<close>, the caller's buffers, the world, and the trace of all calls made
  so far with their results, newest first: the observable behaviour of a boot.  Diagnostics
  (\<open>Platform::log\<close>) are left out.  \<open>Step::Done\<close> and \<open>Err\<close> both leave the machine early and are the
  two kinds of \<open>exit\<close>; a third is for loops that wait for the user and may go on forever: they take
  fuel, and since the theorems about traces hold for every fuel they cover runs that never end.
\<close>

section \<open>Outcomes\<close>

datatype tpm_fail = TfPlatform platform_error | TfProtocol tpm_error | TfRc nat | TfMarshal | TfResponseAuth
  | TfNameMismatch | TfBadPayload | TfBadParentKey | TfRng

fun tpm_fail_class :: "tpm_fail \<Rightarrow> rc_class" where
  "tpm_fail_class (TfRc rc) = rc_classify rc"
| "tpm_fail_class _ = RcOther"

record lockout =
  lk_in_lockout :: bool
  lk_counter :: nat
  lk_max :: nat

definition attempts_left :: "lockout \<Rightarrow> nat" where
  "attempts_left l = (if lk_in_lockout l then 0 else saturating_sub (lk_max l) (lk_counter l))"

text \<open>The payloads of the stage 4 and BitLocker errors are not looked at by the machine.\<close>

datatype boot_error = BPlatform platform_error | BDisk | BTpm tpm_fail | BRng | BNoVolume | BNotAVolume
  | BSealOverPlaintext | BHandoff encode_error | BNoWindowsEntry | BUserAbort | BNotImplemented
  | BStage4 | BBde

datatype outcome = Started rung | StartWindows | Halted boot_error

datatype recovery_reason = NoConfig | ConfigUnreadable | HashMissing | HashMismatch | ConfigInvalid
  | Pcr12NotZero | VolumeMissing | Voluntary

datatype boot_mode = Normal | Recovery recovery_reason | FirstBoot

section \<open>Names and sizes\<close>

definition F_INI :: str where "F_INI = ascii ''paguro.ini''"
definition SEAL_PATH_MAX :: nat where "SEAL_PATH_MAX = 64"

definition seal_path :: "guid \<Rightarrow> seal_kind \<Rightarrow> str" where
  \<comment> \<open>the text is ASCII; a name that does not fit the buffer would come back empty\<close>
  "seal_path v k =
    (let p = map unat (to_text v) @ [0x5c] @ ascii (kind_file_name k) in
     if length p \<le> SEAL_PATH_MAX then p else [])"

definition VAR_B :: str where "VAR_B = ascii ''PaguroB''"
definition VAR_CONFIG_HASH :: str where "VAR_CONFIG_HASH = ascii ''PaguroConfigHash''"
definition VAR_SETUP :: str where "VAR_SETUP = ascii ''PaguroSetup''"
definition VAR_TPM_BROKEN :: str where "VAR_TPM_BROKEN = ascii ''PaguroTpmBroken''"
definition VAR_UNINSTALL :: str where "VAR_UNINSTALL = ascii ''PaguroUninstall''"
definition BOOT_TAINT :: bytes where "BOOT_TAINT = text_bytes ''paguro/boot-taint/v1''"
definition LOAD_TAINT_EVENT :: bytes where "LOAD_TAINT_EVENT = text_bytes ''paguro/load-taint/v1''"

definition INI_BUF :: nat where "INI_BUF = INI_MAX_LEN + 1"
definition SEAL_KINDS :: nat where "SEAL_KINDS = length KIND_ALL"
definition GEN_INI_MAX :: nat where "GEN_INI_MAX = 4096"
definition SECRET_MAX :: nat where "SECRET_MAX = 256"
definition FVEK_BLOB_MAX :: nat where "FVEK_BLOB_MAX = 1024"
definition TPM_MAX_OBJECT :: nat where "TPM_MAX_OBJECT = 1024"
definition MAX_BLOCK :: nat where "MAX_BLOCK = 4096"

section \<open>Volumes\<close>

record partition =
  pt_disk :: nat
  pt_index :: nat
  pt_guid :: guid
  pt_first_lba :: nat
  pt_sectors :: nat
  pt_block_size :: nat

datatype volume_kind = VkBitLocker | VkNtfs | VkOther

record candidate =
  cd_part :: partition
  cd_kind :: volume_kind
  cd_name :: str

record file_id =
  fi_record :: nat
  fi_seq :: nat

definition CHAIN_MAX :: nat where "CHAIN_MAX = 4096"

record located =
  lc_name :: bytes
  lc_name_len :: nat
  lc_root :: "file_id option"
  lc_efi_disk :: "file_id option"
  lc_efi_file :: "file_id option"
  lc_flags :: nat
  lc_chain :: bytes
  lc_chain_len :: nat
  lc_root_path :: bytes
  lc_root_path_len :: nat
  lc_efi_disk_path :: bytes
  lc_efi_disk_path_len :: nat
  lc_efi_file_path :: bytes
  lc_efi_file_path_len :: nat

definition upto :: "bytes \<Rightarrow> nat \<Rightarrow> bytes" where
  \<comment> \<open>\<open>b.get(..n).unwrap_or(&[])\<close>\<close>
  "upto b n = (if n \<le> length b then take n b else [])"

definition located_text :: "bytes \<Rightarrow> nat \<Rightarrow> str" where
  "located_text b n = (case from_utf8 (upto b n) of Some s \<Rightarrow> s | None \<Rightarrow> [])"

definition located_new :: located where
  "located_new = \<lparr>lc_name = replicate MAX_NAME 0, lc_name_len = 0, lc_root = None, lc_efi_disk = None,
     lc_efi_file = None, lc_flags = 0, lc_chain = replicate CHAIN_MAX 0, lc_chain_len = 0,
     lc_root_path = replicate MAX_PATH_BYTES 0, lc_root_path_len = 0,
     lc_efi_disk_path = replicate MAX_PATH_BYTES 0, lc_efi_disk_path_len = 0,
     lc_efi_file_path = replicate MAX_PATH_BYTES 0, lc_efi_file_path_len = 0\<rparr>"

definition located_name :: "located \<Rightarrow> str" where
  "located_name l = located_text (lc_name l) (lc_name_len l)"

definition located_chain :: "located \<Rightarrow> bytes" where
  "located_chain l = upto (lc_chain l) (lc_chain_len l)"

definition root_path :: "located \<Rightarrow> str option" where
  "root_path l = (if lc_root_path_len l \<noteq> 0 then Some (located_text (lc_root_path l) (lc_root_path_len l)) else None)"

definition efi_disk_path :: "located \<Rightarrow> str option" where
  "efi_disk_path l = (if lc_efi_disk_path_len l = 0 then root_path l
     else Some (located_text (lc_efi_disk_path l) (lc_efi_disk_path_len l)))"

definition efi_file_path :: "located \<Rightarrow> str option" where
  "efi_file_path l = (if lc_efi_file_path_len l \<noteq> 0
     then Some (located_text (lc_efi_file_path l) (lc_efi_file_path_len l)) else None)"

definition bootable :: "located \<Rightarrow> bool" where
  "bootable l \<longleftrightarrow> lc_efi_file l \<noteq> None \<or> lc_root l \<noteq> None"

record created_object =
  co_private :: bytes
  co_private_len :: nat
  co_public :: bytes
  co_public_len :: nat

definition created_new :: created_object where
  "created_new = \<lparr>co_private = replicate TPM_MAX_OBJECT 0, co_private_len = 0,
     co_public = replicate TPM_MAX_OBJECT 0, co_public_len = 0\<rparr>"

definition created_private :: "created_object \<Rightarrow> bytes" where
  "created_private c = upto (co_private c) (co_private_len c)"

definition created_public :: "created_object \<Rightarrow> bytes" where
  "created_public c = upto (co_public c) (co_public_len c)"

section \<open>The environment of the machine\<close>

text \<open>The \<open>Platform\<close> trait.\<close>

record 's platform =
  p_read_esp_file :: "str \<Rightarrow> bytes \<Rightarrow> 's \<Rightarrow> (platform_error + nat option) \<times> bytes \<times> 's"
  p_get_var :: "str \<Rightarrow> guid \<Rightarrow> bytes \<Rightarrow> 's \<Rightarrow> (platform_error + nat option) \<times> bytes \<times> 's"
  p_set_var :: "str \<Rightarrow> guid \<Rightarrow> nat \<Rightarrow> bytes \<Rightarrow> 's \<Rightarrow> (platform_error + unit) \<times> 's"
  p_delete_var :: "str \<Rightarrow> guid \<Rightarrow> 's \<Rightarrow> (platform_error + unit) \<times> 's"
  p_secure_boot :: "'s \<Rightarrow> bool \<times> 's"
  p_tpm_present :: "'s \<Rightarrow> bool \<times> 's"
  p_hash_log_extend :: "nat \<Rightarrow> bytes \<Rightarrow> bytes \<Rightarrow> 's \<Rightarrow> (platform_error + unit) \<times> 's"
  p_disk_count :: "'s \<Rightarrow> nat \<times> 's"
  p_disk_info :: "nat \<Rightarrow> 's \<Rightarrow> disk_info option \<times> 's"
  p_read_blocks :: "nat \<Rightarrow> nat \<Rightarrow> bytes \<Rightarrow> 's \<Rightarrow> (platform_error + unit) \<times> bytes \<times> 's"
  p_random :: "bytes \<Rightarrow> 's \<Rightarrow> (platform_error + unit) \<times> bytes \<times> 's"
  p_prompt :: "screen \<Rightarrow> bytes \<Rightarrow> 's \<Rightarrow> input \<times> bytes \<times> 's"
  p_prompt_browse :: "screen \<Rightarrow> dir_view \<Rightarrow> 's \<Rightarrow> input \<times> 's"
  p_ui_prefs :: "ui \<Rightarrow> 's \<Rightarrow> 's"
  p_publish_handoff :: "bytes \<Rightarrow> 's \<Rightarrow> (platform_error + unit) \<times> 's"
  p_load_start_image :: "bytes \<Rightarrow> 's \<Rightarrow> (platform_error + unit) \<times> 's"
  p_load_start_image_buffer :: "bytes \<Rightarrow> 's \<Rightarrow> (platform_error + unit) \<times> 's"
  p_reset :: "'s \<Rightarrow> 's"

text \<open>The \<open>Volume\<close> trait.  A directory reader yields the entries it offers to the listing.\<close>

record 's volume_ops =
  v_open :: "partition \<Rightarrow> volume_kind \<Rightarrow> 's \<Rightarrow> (boot_error + unit) \<times> 's"
  v_fvek_blob :: "bytes \<Rightarrow> 's \<Rightarrow> (boot_error + nat) \<times> bytes \<times> 's"
  v_clear_key :: "'s \<Rightarrow> (boot_error + bytes option) \<times> 's"
  v_try_vmk :: "bytes \<Rightarrow> 's \<Rightarrow> (boot_error + bool) \<times> 's"
  v_fvek :: "'s \<Rightarrow> (nat \<times> bytes) option"
  v_layout :: "'s \<Rightarrow> fve_layout option"
  v_recovery_key :: "bytes \<Rightarrow> 's \<Rightarrow> (boot_error + bytes option) \<times> 's"
  v_bitlocker_password :: "bytes \<Rightarrow> 's \<Rightarrow> (boot_error + bytes option) \<times> 's"
  v_has_bitlocker_password :: "'s \<Rightarrow> bool"
  v_locate :: "cfg_entry option \<Rightarrow> located \<Rightarrow> 's \<Rightarrow> (boot_error + unit) \<times> located \<times> 's"
  v_efi_image :: "'s \<Rightarrow> (boot_error + bytes) \<times> 's"
  v_list_dir :: "str \<Rightarrow> 's \<Rightarrow> (boot_error + (nat list \<times> bool \<times> nat) list) \<times> 's"
  v_list_efi_dir :: "str \<Rightarrow> str \<Rightarrow> 's \<Rightarrow> (boot_error + (nat list \<times> bool \<times> nat) list option) \<times> 's"

text \<open>The TPM client.\<close>

record 's tpm_client =
  t_pcr_read :: "nat \<Rightarrow> 's \<Rightarrow> (tpm_fail + pcr_values) \<times> 's"
  t_read_clock :: "'s \<Rightarrow> (tpm_fail + time_info) \<times> 's"
  t_lockout :: "'s \<Rightarrow> (tpm_fail + lockout) \<times> 's"
  t_unseal :: "bytes \<Rightarrow> bytes \<Rightarrow> nat \<Rightarrow> nat option \<Rightarrow> bytes \<Rightarrow> 's \<Rightarrow> (tpm_fail + bytes) \<times> 's"
  t_create_sealed :: "bytes \<Rightarrow> bytes \<Rightarrow> bytes \<Rightarrow> created_object \<Rightarrow> 's \<Rightarrow> (tpm_fail + unit) \<times> created_object \<times> 's"

record 's env =
  e_plat :: "'s platform"
  e_vol :: "'s volume_ops"
  e_tpm :: "'s tpm_client"
  e_crypto :: crypto
  e_lower :: "nat \<Rightarrow> nat list"
  e_iterations :: nat

section \<open>The state of the machine\<close>

record mstate =
  ms_mode :: boot_mode
  ms_flags :: nat
  ms_tpm :: bool
  ms_capped :: bool
  ms_pcr12_was_zero :: bool
  ms_ini_hash :: "bytes option"
  ms_b :: bytes
  ms_s :: "bytes option"
  ms_bootstrap :: "bootstrap option"
  ms_pcrs :: "bytes list"
  ms_vmk :: "bytes option"
  ms_user_hash :: "bytes option"
  ms_blob_len :: "nat option"
  ms_tpm_grey :: "grey option"
  ms_tpm_attempts :: "nat option"
  ms_ui_from_ini :: bool

record buffers =
  bf_ini :: bytes
  bf_gen_ini :: bytes
  bf_seals :: "bytes list"
  bf_var :: bytes
  bf_block :: bytes
  bf_array :: bytes
  bf_handoff :: bytes
  bf_secret :: bytes
  bf_path :: bytes
  bf_dir :: dir_listing
  bf_fvek_blob :: bytes
  bf_created :: created_object
  bf_located :: located

datatype event = EReadFile str "platform_error + nat option" bytes | EGetVar str guid "platform_error + nat option" bytes
  | ESetVar str guid nat bytes "platform_error + unit" | EDelVar str guid "platform_error + unit"
  | ESecureBoot bool | ETpmPresent bool | EExtend nat bytes bytes "platform_error + unit"
  | EDiskCount | EDiskInfo nat "disk_info option" | EReadBlocks nat nat nat | ERandom nat | EPrompt screen input
  | EBrowse screen input | EUiPrefs ui | EPublish bytes "platform_error + unit"
  | ELoadPath bytes "platform_error + unit" | ELoadBuffer bytes "platform_error + unit" | EReset
  | EOpen partition volume_kind "boot_error + unit" | EFvekBlob | EClearKey | ETryVmk bytes "boot_error + bool"
  | ERecoveryKey | EBitLockerPassword | ELocate "cfg_entry option" "boot_error + unit" | EEfiImage "boot_error + bytes" | EListDir str
  | EListEfiDir str str | EPcrRead nat "tpm_fail + pcr_values" | EReadClock | ELockout | EUnseal bytes bytes nat "nat option" "tpm_fail + bytes"
  | ECreateSealed bytes

record 's mach =
  m_st :: mstate
  m_bufs :: buffers
  m_world :: 's
  m_trace :: "event list"

datatype exit = Failed boot_error | Finished outcome | OutOfFuel

type_synonym ('s, 'a) mm = "('s mach, exit, 'a) io"

definition call :: "('s \<Rightarrow> 'r \<times> 's) \<Rightarrow> ('r \<Rightarrow> event) \<Rightarrow> ('s, 'r) mm" where
  "call f ev m = (case f (m_world m) of (r, w) \<Rightarrow>
     (Ok r, m\<lparr>m_world := w, m_trace := ev r # m_trace m\<rparr>))"

definition peek :: "('s mach \<Rightarrow> 'a) \<Rightarrow> ('s, 'a) mm" where
  "peek f m = (Ok (f m), m)"

definition st :: "(mstate \<Rightarrow> 'a) \<Rightarrow> ('s, 'a) mm" where
  "st f = peek (\<lambda>m. f (m_st m))"

definition set_st :: "(mstate \<Rightarrow> mstate) \<Rightarrow> ('s, unit) mm" where
  "set_st f m = (Ok (), m\<lparr>m_st := f (m_st m)\<rparr>)"

definition buf :: "(buffers \<Rightarrow> 'a) \<Rightarrow> ('s, 'a) mm" where
  "buf f = peek (\<lambda>m. f (m_bufs m))"

definition set_buf :: "(buffers \<Rightarrow> buffers) \<Rightarrow> ('s, unit) mm" where
  "set_buf f m = (Ok (), m\<lparr>m_bufs := f (m_bufs m)\<rparr>)"

definition ret :: "'a \<Rightarrow> ('s, 'a) mm" where "ret x = lift (Ok x)"
definition fail :: "boot_error \<Rightarrow> ('s, 'a) mm" where "fail e = lift (Err (Failed e))"
definition done' :: "outcome \<Rightarrow> ('s, 'a) mm" where "done' o' = lift (Err (Finished o'))"

text \<open>\<open>r.map_err(f)?\<close> on a result.\<close>

definition try' :: "('e \<Rightarrow> boot_error) \<Rightarrow> 'e + 'a \<Rightarrow> ('s, 'a) mm" where
  "try' f r = (case r of Inl e \<Rightarrow> fail (f e) | Inr x \<Rightarrow> ret x)"

definition fill :: "bytes \<Rightarrow> bytes \<Rightarrow> bytes" where
  "fill b d = take (length b) d @ drop (length d) b"

section \<open>The calls\<close>

definition read_esp_file :: "'s env \<Rightarrow> str \<Rightarrow> bytes \<Rightarrow> ('s, (platform_error + nat option) \<times> bytes) mm" where
  "read_esp_file E name b =
    call (\<lambda>w. case p_read_esp_file (e_plat E) name b w of (r, d, w') \<Rightarrow> ((r, fill b d), w'))
      (\<lambda>(r, d). EReadFile name r d)"

definition get_var :: "'s env \<Rightarrow> str \<Rightarrow> guid \<Rightarrow> bytes \<Rightarrow> ('s, (platform_error + nat option) \<times> bytes) mm" where
  "get_var E name vendor b =
    call (\<lambda>w. case p_get_var (e_plat E) name vendor b w of (r, d, w') \<Rightarrow> ((r, fill b d), w'))
      (\<lambda>(r, d). EGetVar name vendor r d)"

definition set_var :: "'s env \<Rightarrow> str \<Rightarrow> guid \<Rightarrow> nat \<Rightarrow> bytes \<Rightarrow> ('s, platform_error + unit) mm" where
  "set_var E name vendor attrs d =
    call (p_set_var (e_plat E) name vendor attrs d) (\<lambda>r. ESetVar name vendor attrs d r)"

definition delete_var :: "'s env \<Rightarrow> str \<Rightarrow> guid \<Rightarrow> ('s, platform_error + unit) mm" where
  "delete_var E name vendor = call (p_delete_var (e_plat E) name vendor) (\<lambda>r. EDelVar name vendor r)"

definition secure_boot :: "'s env \<Rightarrow> ('s, bool) mm" where
  "secure_boot E = call (p_secure_boot (e_plat E)) ESecureBoot"

definition tpm_present :: "'s env \<Rightarrow> ('s, bool) mm" where
  "tpm_present E = call (p_tpm_present (e_plat E)) ETpmPresent"

definition hash_log_extend :: "'s env \<Rightarrow> nat \<Rightarrow> bytes \<Rightarrow> bytes \<Rightarrow> ('s, platform_error + unit) mm" where
  "hash_log_extend E pcr d ev = call (p_hash_log_extend (e_plat E) pcr d ev) (\<lambda>r. EExtend pcr d ev r)"

definition disk_count :: "'s env \<Rightarrow> ('s, nat) mm" where
  "disk_count E = call (p_disk_count (e_plat E)) (\<lambda>_. EDiskCount)"

definition disk_info_of :: "'s env \<Rightarrow> nat \<Rightarrow> ('s, disk_info option) mm" where
  "disk_info_of E d = call (p_disk_info (e_plat E) d) (EDiskInfo d)"

definition read_blocks :: "'s env \<Rightarrow> nat \<Rightarrow> nat \<Rightarrow> bytes \<Rightarrow> ('s, (platform_error + unit) \<times> bytes) mm" where
  "read_blocks E d lba b =
    call (\<lambda>w. case p_read_blocks (e_plat E) d lba b w of (r, x, w') \<Rightarrow> ((r, fill b x), w'))
      (\<lambda>_. EReadBlocks d lba (length b))"

definition random :: "'s env \<Rightarrow> bytes \<Rightarrow> ('s, (platform_error + unit) \<times> bytes) mm" where
  "random E b = call (\<lambda>w. case p_random (e_plat E) b w of (r, x, w') \<Rightarrow> ((r, fill b x), w')) (\<lambda>_. ERandom (length b))"

definition prompt_buf :: "'s env \<Rightarrow> screen \<Rightarrow> bytes \<Rightarrow> ('s, input \<times> bytes) mm" where
  "prompt_buf E sc b = call (\<lambda>w. case p_prompt (e_plat E) sc b w of (i, x, w') \<Rightarrow> ((i, fill b x), w'))
     (\<lambda>(i, _). EPrompt sc i)"

definition prompt :: "'s env \<Rightarrow> screen \<Rightarrow> ('s, input) mm" where
  "prompt E sc = ibind (prompt_buf E sc []) (\<lambda>(i, _). ret i)"

definition prompt_browse :: "'s env \<Rightarrow> screen \<Rightarrow> dir_view \<Rightarrow> ('s, input) mm" where
  "prompt_browse E sc v = call (p_prompt_browse (e_plat E) sc v) (EBrowse sc)"

definition ui_prefs :: "'s env \<Rightarrow> ui \<Rightarrow> ('s, unit) mm" where
  "ui_prefs E u = call (\<lambda>w. ((), p_ui_prefs (e_plat E) u w)) (\<lambda>_. EUiPrefs u)"

definition publish_handoff :: "'s env \<Rightarrow> bytes \<Rightarrow> ('s, platform_error + unit) mm" where
  "publish_handoff E b = call (p_publish_handoff (e_plat E) b) (EPublish b)"

definition load_start_image :: "'s env \<Rightarrow> bytes \<Rightarrow> ('s, platform_error + unit) mm" where
  "load_start_image E b = call (p_load_start_image (e_plat E) b) (ELoadPath b)"

definition load_start_image_buffer :: "'s env \<Rightarrow> bytes \<Rightarrow> ('s, platform_error + unit) mm" where
  "load_start_image_buffer E b = call (p_load_start_image_buffer (e_plat E) b) (ELoadBuffer b)"

definition reset :: "'s env \<Rightarrow> ('s, unit) mm" where
  "reset E = call (\<lambda>w. ((), p_reset (e_plat E) w)) (\<lambda>_. EReset)"

definition vol_open :: "'s env \<Rightarrow> partition \<Rightarrow> volume_kind \<Rightarrow> ('s, boot_error + unit) mm" where
  "vol_open E p k = call (v_open (e_vol E) p k) (EOpen p k)"

definition vol_fvek_blob :: "'s env \<Rightarrow> bytes \<Rightarrow> ('s, (boot_error + nat) \<times> bytes) mm" where
  "vol_fvek_blob E b = call (\<lambda>w. case v_fvek_blob (e_vol E) b w of (r, x, w') \<Rightarrow> ((r, fill b x), w')) (\<lambda>_. EFvekBlob)"

definition vol_clear_key :: "'s env \<Rightarrow> ('s, boot_error + bytes option) mm" where
  "vol_clear_key E = call (v_clear_key (e_vol E)) (\<lambda>_. EClearKey)"

definition vol_try_vmk :: "'s env \<Rightarrow> bytes \<Rightarrow> ('s, boot_error + bool) mm" where
  "vol_try_vmk E k = call (v_try_vmk (e_vol E) k) (ETryVmk k)"

definition vol_recovery_key :: "'s env \<Rightarrow> bytes \<Rightarrow> ('s, boot_error + bytes option) mm" where
  "vol_recovery_key E k = call (v_recovery_key (e_vol E) k) (\<lambda>_. ERecoveryKey)"

definition vol_bitlocker_password :: "'s env \<Rightarrow> bytes \<Rightarrow> ('s, boot_error + bytes option) mm" where
  "vol_bitlocker_password E u = call (v_bitlocker_password (e_vol E) u) (\<lambda>_. EBitLockerPassword)"

definition vol_locate :: "'s env \<Rightarrow> cfg_entry option \<Rightarrow> located \<Rightarrow> ('s, (boot_error + unit) \<times> located) mm" where
  "vol_locate E e l = call (\<lambda>w. case v_locate (e_vol E) e l w of (r, x, w') \<Rightarrow> ((r, x), w')) (\<lambda>(r, _). ELocate e r)"

definition vol_efi_image :: "'s env \<Rightarrow> ('s, boot_error + bytes) mm" where
  "vol_efi_image E = call (v_efi_image (e_vol E)) EEfiImage"

definition vol_list_dir :: "'s env \<Rightarrow> str \<Rightarrow> ('s, boot_error + (nat list \<times> bool \<times> nat) list) mm" where
  "vol_list_dir E p = call (v_list_dir (e_vol E) p) (\<lambda>_. EListDir p)"

definition vol_list_efi_dir :: "'s env \<Rightarrow> str \<Rightarrow> str \<Rightarrow> ('s, boot_error + (nat list \<times> bool \<times> nat) list option) mm" where
  "vol_list_efi_dir E d p = call (v_list_efi_dir (e_vol E) d p) (\<lambda>_. EListEfiDir d p)"

definition tpm_pcr_read :: "'s env \<Rightarrow> nat \<Rightarrow> ('s, tpm_fail + pcr_values) mm" where
  "tpm_pcr_read E mask' = call (t_pcr_read (e_tpm E) mask') (EPcrRead mask')"

definition tpm_read_clock :: "'s env \<Rightarrow> ('s, tpm_fail + time_info) mm" where
  "tpm_read_clock E = call (t_read_clock (e_tpm E)) (\<lambda>_. EReadClock)"

definition tpm_lockout :: "'s env \<Rightarrow> ('s, tpm_fail + lockout) mm" where
  "tpm_lockout E = call (t_lockout (e_tpm E)) (\<lambda>_. ELockout)"

definition tpm_unseal :: "'s env \<Rightarrow> bytes \<Rightarrow> bytes \<Rightarrow> nat \<Rightarrow> nat option \<Rightarrow> bytes \<Rightarrow> ('s, tpm_fail + bytes) mm" where
  "tpm_unseal E priv pub mask' deadline auth =
    call (t_unseal (e_tpm E) priv pub mask' deadline auth) (EUnseal priv pub mask' deadline)"

definition tpm_create_sealed ::
  "'s env \<Rightarrow> bytes \<Rightarrow> bytes \<Rightarrow> bytes \<Rightarrow> created_object \<Rightarrow> ('s, (tpm_fail + unit) \<times> created_object) mm" where
  "tpm_create_sealed E auth d policy c =
    call (\<lambda>w. case t_create_sealed (e_tpm E) auth d policy c w of (r, x, w') \<Rightarrow> ((r, x), w')) (\<lambda>_. ECreateSealed policy)"

lemmas calls = read_esp_file_def get_var_def set_var_def delete_var_def secure_boot_def tpm_present_def
  hash_log_extend_def disk_count_def disk_info_of_def read_blocks_def random_def prompt_buf_def prompt_browse_def
  ui_prefs_def publish_handoff_def load_start_image_def load_start_image_buffer_def reset_def vol_open_def
  vol_fvek_blob_def vol_clear_key_def vol_try_vmk_def vol_recovery_key_def vol_bitlocker_password_def
  vol_locate_def vol_efi_image_def vol_list_dir_def vol_list_efi_dir_def tpm_pcr_read_def tpm_read_clock_def
  tpm_lockout_def tpm_unseal_def tpm_create_sealed_def

end
