(* ===== verification/Volume.thy ===== *)
theory Volume
  imports Boot Fve
begin

text \<open>
  Finding the volume, \<open>crates/paguro-boot/src/volume.rs\<close>: the walk over the partitions of every disk
  with a valid GPT, the search by partition GUID, the recovery enumeration, and the parser of
  BitLocker's recovery password.  A closure that captures state is a function that takes and returns it.
\<close>

section \<open>Partitions\<close>

definition boot_sector_start :: layout where
  "boot_sector_start = [(''jump'', 3), (''oem_id'', 8)]"

definition OEM_ID :: "nat \<times> nat" where
  "OEM_ID = (let s = offset_of boot_sector_start ''oem_id'' in (s, s + 8))"

definition VOL_NTFS_OEM_ID :: bytes where "VOL_NTFS_OEM_ID = text_bytes ''NTFS    ''"
definition GPT_HEADER_LBA :: nat where "GPT_HEADER_LBA = 1"
definition BLOCK_512 :: nat where "BLOCK_512 = 512"
definition BLOCK_4K :: nat where "BLOCK_4K = 4096"
definition MAX_CANDIDATES :: nat where "MAX_CANDIDATES = MAX_CHOICES"

text \<open>A result whose error is dropped: \<open>let Ok(x) = r else\<close>.\<close>

definition attempt :: "('e, 'a) res \<Rightarrow> ('s, 'a option) mm" where
  "attempt r = (case r of Ok x \<Rightarrow> ret (Some x) | Err _ \<Rightarrow> ret None | Panic \<Rightarrow> lift Panic)"

text \<open>A computation that has no error of its own: it returns, or it overflows.\<close>

definition plain :: "('e, 'a) res \<Rightarrow> ('s, 'a) mm" where
  "plain r = (case r of Ok x \<Rightarrow> ret x | _ \<Rightarrow> lift Panic)"

definition classify_oem :: "bytes \<Rightarrow> volume_kind" where
  "classify_oem block =
    (let oem = (case get_range block (fst OEM_ID) (snd OEM_ID) of Some x \<Rightarrow> x | None \<Rightarrow> []) in
     if check_signature oem = Ok () then VkBitLocker
     else if oem = VOL_NTFS_OEM_ID then VkNtfs else VkOther)"

definition probe :: "'s env \<Rightarrow> partition \<Rightarrow> bytes \<Rightarrow> ('s, volume_kind \<times> bytes) mm" where
  \<comment> \<open>the kind, and the scratch block as it is left\<close>
  "probe E part block =
    (let bs = pt_block_size part in
     if length block < bs then fail BDisk else
     ibind (read_blocks E (pt_disk part) (pt_first_lba part) (take bs block)) (\<lambda>(r, b).
     ibind (try' BPlatform r) (\<lambda>_.
     ret (classify_oem b, b @ drop bs block))))"

type_synonym ('s, 'v) visitor = "gpt_entry \<Rightarrow> partition \<Rightarrow> 'v \<Rightarrow> ('s, bool \<times> 'v) mm"

definition partition_of :: "nat \<Rightarrow> disk_info \<Rightarrow> nat \<Rightarrow> gpt_entry \<Rightarrow> partition" where
  "partition_of disk info i e =
    \<lparr>pt_disk = disk, pt_index = min (i + 1) (u32_lim - 1), pt_guid = unique_guid e, pt_first_lba = first_lba e,
     pt_sectors = entry_sectors e, pt_block_size = di_block_size info\<rparr>"

text \<open>
  The loops return whether the walk goes on, and the captured state.  An unreadable entry ends the
  entries of its disk, as a disk without a valid table is passed over.
\<close>

fun entry_loop ::
  "('s, 'v) visitor \<Rightarrow> gpt_entries \<Rightarrow> nat \<Rightarrow> disk_info \<Rightarrow> nat list \<Rightarrow> 'v \<Rightarrow> ('s, bool \<times> 'v) mm" where
  "entry_loop visit es disk info [] v = ret (True, v)"
| "entry_loop visit es disk info (i # is) v =
    ibind (attempt (gpt_get es i)) (\<lambda>x. case x of
      None \<Rightarrow> ret (True, v)
    | Some e \<Rightarrow>
        if is_unused e then entry_loop visit es disk info is v else
        ibind (visit e (partition_of disk info i e) v) (\<lambda>(goon, v).
        if goon then entry_loop visit es disk info is v else ret (False, v)))"

definition set_front :: "(bytes \<Rightarrow> buffers \<Rightarrow> buffers) \<Rightarrow> bytes \<Rightarrow> bytes \<Rightarrow> ('s, unit) mm" where
  "set_front upd b old = set_buf (upd (b @ drop (length b) old))"

definition read_table :: "'s env \<Rightarrow> nat \<Rightarrow> disk_info \<Rightarrow> ('s, gpt_entries option) mm" where
  "read_table E disk info =
    (let bs = di_block_size info in
     if bs \<noteq> BLOCK_512 \<and> bs \<noteq> BLOCK_4K then ret None else
     ibind (buf bf_block) (\<lambda>block.
     if length block < bs then ret None else
     ibind (read_blocks E disk GPT_HEADER_LBA (take bs block)) (\<lambda>(r, blk).
     ibind (set_front (\<lambda>x b. b\<lparr>bf_block := x\<rparr>) blk block) (\<lambda>_.
     if isl r then ret None else
     ibind (attempt (header_parse blk (di_blocks info))) (\<lambda>h. case h of None \<Rightarrow> ret None | Some hdr \<Rightarrow>
     ibind (plain (rbind (entries_blocks hdr) (\<lambda>n. mul64 n bs))) (\<lambda>bytes'.
     ibind (buf bf_array) (\<lambda>array.
     if length array < bytes' then ret None else
     ibind (read_blocks E disk (entries_lba hdr) (take bytes' array)) (\<lambda>(r, arr).
     ibind (set_front (\<lambda>x b. b\<lparr>bf_array := x\<rparr>) arr array) (\<lambda>_.
     if isl r then ret None else
     ibind (plain (entries_len hdr)) (\<lambda>n.
     attempt (gpt_entries_of hdr (case get_range arr 0 n of Some a \<Rightarrow> a | None \<Rightarrow> []))))))))))))"

definition disk_step :: "'s env \<Rightarrow> ('s, 'v) visitor \<Rightarrow> nat \<Rightarrow> 'v \<Rightarrow> ('s, bool \<times> 'v) mm" where
  "disk_step E visit disk v =
    ibind (disk_info_of E disk) (\<lambda>x. case x of None \<Rightarrow> ret (True, v) | Some info \<Rightarrow>
    ibind (read_table E disk info) (\<lambda>t. case t of None \<Rightarrow> ret (True, v) | Some es \<Rightarrow>
    entry_loop visit es disk info [0..<gpt_count es] v))"

fun disk_loop :: "'s env \<Rightarrow> ('s, 'v) visitor \<Rightarrow> nat list \<Rightarrow> 'v \<Rightarrow> ('s, 'v) mm" where
  "disk_loop E visit [] v = ret v"
| "disk_loop E visit (d # ds) v =
    ibind (disk_step E visit d v) (\<lambda>(goon, v). if goon then disk_loop E visit ds v else ret v)"

definition for_each_partition :: "'s env \<Rightarrow> ('s, 'v) visitor \<Rightarrow> 'v \<Rightarrow> ('s, 'v) mm" where
  "for_each_partition E visit v = ibind (disk_count E) (\<lambda>n. disk_loop E visit [0..<n] v)"

definition find_partition :: "'s env \<Rightarrow> guid \<Rightarrow> ('s, partition option) mm" where
  "find_partition E id' =
    for_each_partition E (\<lambda>_ part found.
      if pt_guid part = id' then ret (False, Some part) else ret (True, found)) None"

definition enumerate_visit :: "'s env \<Rightarrow> ('s, candidate list \<times> bytes) visitor" where
  "enumerate_visit E e part v = (case v of (out, blk) \<Rightarrow>
    if type_guid e \<noteq> GPT_BASIC_DATA then ret (True, out, blk) else
    ibind (probe E part blk) (\<lambda>(kind, blk).
    let out = (if kind \<noteq> VkOther \<and> length out < MAX_CANDIDATES
      then out @ [\<lparr>cd_part = part, cd_kind = kind, cd_name = label_from_utf16 (ename e)\<rparr>] else out) in
    ret (length out < MAX_CANDIDATES, out, blk)))"

definition enumerate_candidates :: "'s env \<Rightarrow> ('s, candidate list) mm" where
  "enumerate_candidates E =
    ibind (for_each_partition E (enumerate_visit E) ([], replicate MAX_BLOCK 0)) (\<lambda>(out, _). ret out)"

section \<open>Recovery passwords\<close>

definition RECOVERY_DIGITS :: nat where "RECOVERY_DIGITS = 48"
definition RECOVERY_GROUP :: nat where "RECOVERY_GROUP = 6"
definition RECOVERY_KEY_LEN :: nat where "RECOVERY_KEY_LEN = 16"
definition RECOVERY_GROUP_DIVISOR :: nat where "RECOVERY_GROUP_DIVISOR = 11"
definition RECOVERY_GROUP_LIMIT :: nat where "RECOVERY_GROUP_LIMIT = push_bit 16 RECOVERY_GROUP_DIVISOR"
definition RECOVERY_INPUT_MAX :: nat where "RECOVERY_INPUT_MAX = 64"

datatype recovery_key_error = RkFormat | RkGroup nat

fun digit_scan :: "bytes \<Rightarrow> nat list \<Rightarrow> (recovery_key_error, nat list) res" where
  "digit_scan [] ds = Ok ds"
| "digit_scan (c # s) ds =
    (if 0x30 \<le> c \<and> c \<le> 0x39 then
       if length ds < RECOVERY_DIGITS then digit_scan s (ds @ [unat (c - 0x30)]) else Err RkFormat
     else if c = 0x2d \<or> c = 0x20 then digit_scan s ds
     else Err RkFormat)"

fun group_loop :: "nat \<Rightarrow> nat list list \<Rightarrow> (recovery_key_error, bytes) res" where
  "group_loop g [] = Ok []"
| "group_loop g (chunk # cs) =
    (let v = fold (\<lambda>d a. a * 10 + d) chunk 0 in
     if v mod RECOVERY_GROUP_DIVISOR \<noteq> 0 \<or> v \<ge> RECOVERY_GROUP_LIMIT then Err (RkGroup g)
     else rbind (group_loop (g + 1) cs) (\<lambda>r. Ok (le_bytes 2 (v div RECOVERY_GROUP_DIVISOR) @ r)))"

definition parse_recovery_password :: "bytes \<Rightarrow> (recovery_key_error, bytes) res" where
  "parse_recovery_password s =
    (if length s > RECOVERY_INPUT_MAX then Err RkFormat else
     rbind (digit_scan s []) (\<lambda>digits.
     if length digits \<noteq> RECOVERY_DIGITS then Err RkFormat
     else group_loop 0 (chunks_exact RECOVERY_GROUP digits)))"

section \<open>Reasoning about computations of the machine\<close>

text \<open>
  Rules for the primitive computations, on top of those of the prelude: \<open>T\<close> is what has to hold
  whenever the machine is left early.
\<close>

named_theorems mwp

lemma wpx_ret [mwp]: "wpx T (ret x) s Q = Q x s"
  by (simp add: ret_def wpx_def lift_def)

lemma wpx_fail [mwp]: "wpx T (fail e) s Q = T s"
  by (simp add: fail_def wpx_def lift_def)

lemma wpx_done [mwp]: "wpx T (done' o') s Q = T s"
  by (simp add: done'_def wpx_def lift_def)

lemma wpx_try [mwp]: "wpx T (try' f r) s Q = (case r of Inl e \<Rightarrow> T s | Inr x \<Rightarrow> Q x s)"
  by (simp add: try'_def mwp split: sum.split)

lemma wpx_st [mwp]: "wpx T (st f) s Q = Q (f (m_st s)) s"
  by (simp add: st_def peek_def wpx_def)

lemma wpx_buf [mwp]: "wpx T (buf f) s Q = Q (f (m_bufs s)) s"
  by (simp add: buf_def peek_def wpx_def)

lemma wpx_set_st [mwp]: "wpx T (set_st f) s Q = Q () (s\<lparr>m_st := f (m_st s)\<rparr>)"
  by (simp add: set_st_def wpx_def)

lemma wpx_set_buf [mwp]: "wpx T (set_buf f) s Q = Q () (s\<lparr>m_bufs := f (m_bufs s)\<rparr>)"
  by (simp add: set_buf_def wpx_def)

lemma wpx_callI:
  "(\<And>r w. Q r (s\<lparr>m_world := w, m_trace := ev r # m_trace s\<rparr>)) \<Longrightarrow> wpx T (call f ev) s Q"
  by (auto simp: call_def wpx_def split: prod.split)

lemma wpx_attemptI:
  "wp r (\<lambda>x. Q (Some x) s) \<Longrightarrow> Q None s \<Longrightarrow> wpx T (attempt r) s Q"
  by (cases r) (auto simp: attempt_def mwp)

lemma wpx_plainI: "r = Ok x \<Longrightarrow> Q x s \<Longrightarrow> wpx T (plain r) s Q"
  by (simp add: plain_def mwp)

text \<open>The same as introduction rules, for goals that are to be taken apart step by step.\<close>

named_theorems vcg

lemma wpx_intros [vcg]:
  "wpx T m s (\<lambda>x s'. wpx T (k x) s' Q) \<Longrightarrow> wpx T (ibind m k) s Q"
  "(c \<Longrightarrow> wpx T a s Q) \<Longrightarrow> (\<not> c \<Longrightarrow> wpx T b s Q) \<Longrightarrow> wpx T (if c then a else b) s Q"
  "(x = None \<Longrightarrow> wpx T a s Q) \<Longrightarrow> (\<And>y. x = Some y \<Longrightarrow> wpx T (f y) s Q)
    \<Longrightarrow> wpx T (case x of None \<Rightarrow> a | Some y \<Rightarrow> f y) s Q"
  "(\<And>y z. p = (y, z) \<Longrightarrow> wpx T (g y z) s Q) \<Longrightarrow> wpx T (case p of (y, z) \<Rightarrow> g y z) s Q"
  "(\<And>e. r = Inl e \<Longrightarrow> wpx T (h e) s Q) \<Longrightarrow> (\<And>y. r = Inr y \<Longrightarrow> wpx T (f' y) s Q)
    \<Longrightarrow> wpx T (case r of Inl e \<Rightarrow> h e | Inr y \<Rightarrow> f' y) s Q"
  "wpx T (l v) s Q \<Longrightarrow> wpx T (Let v l) s Q"
  "Q u s \<Longrightarrow> wpx T (ret u) s Q"
  "T s \<Longrightarrow> wpx T (fail e) s Q" "T s \<Longrightarrow> wpx T (done' o') s Q"
  "(\<And>e. r = Inl e \<Longrightarrow> T s) \<Longrightarrow> (\<And>y. r = Inr y \<Longrightarrow> Q' y s) \<Longrightarrow> wpx T (try' ef r) s Q'"
  "Q2 (sf (m_st s)) s \<Longrightarrow> wpx T (st sf) s Q2"
  "Q3 (bf (m_bufs s)) s \<Longrightarrow> wpx T (buf bf) s Q3"
  "Q4 () (s\<lparr>m_st := us (m_st s)\<rparr>) \<Longrightarrow> wpx T (set_st us) s Q4"
  "Q4 () (s\<lparr>m_bufs := ub (m_bufs s)\<rparr>) \<Longrightarrow> wpx T (set_buf ub) s Q4"
  by (auto simp: mwp split: option.split prod.split sum.split)

section \<open>The walk over the partitions\<close>

fun disk_event :: "event \<Rightarrow> bool" where
  "disk_event EDiskCount = True"
| "disk_event (EDiskInfo _ _) = True"
| "disk_event (EReadBlocks _ _ _) = True"
| "disk_event _ = False"

text \<open>\<open>disk_reads s s'\<close>: from \<open>s\<close> to \<open>s'\<close> only disks were read.\<close>

definition disk_reads :: "'s mach \<Rightarrow> 's mach \<Rightarrow> bool" where
  "disk_reads s s' \<longleftrightarrow> m_st s' = m_st s \<and> (\<exists>es. m_trace s' = es @ m_trace s \<and> list_all disk_event es)"

lemma disk_reads_refl [simp]: "disk_reads s s"
  by (simp add: disk_reads_def)

lemma disk_reads_trans: "disk_reads s s' \<Longrightarrow> disk_reads s' s'' \<Longrightarrow> disk_reads s s''"
  unfolding disk_reads_def by (metis append.assoc list_all_append)

lemma disk_reads_step [simp]:
  "disk_event e \<Longrightarrow> disk_reads s s' \<Longrightarrow> disk_reads s (s'\<lparr>m_world := w, m_trace := e # m_trace s'\<rparr>)"
  "disk_reads s s' \<Longrightarrow> disk_reads s (s'\<lparr>m_bufs := b\<rparr>)"
  by (auto simp: disk_reads_def intro: exI [of _ "e # es" for es])

text \<open>A partition the walk may yield: it lies on its disk, as the firmware described it.\<close>

definition on_disk :: "event list \<Rightarrow> partition \<Rightarrow> bool" where
  "on_disk tr p \<longleftrightarrow> (\<exists>info. EDiskInfo (pt_disk p) (Some info) \<in> set tr
     \<and> pt_block_size p = di_block_size info \<and> di_block_size info \<in> {512, 4096}
     \<and> 2 \<le> pt_first_lba p \<and> 0 < pt_sectors p \<and> pt_first_lba p + pt_sectors p \<le> di_blocks info)"

lemma on_disk_mono: "on_disk tr p \<Longrightarrow> set tr \<subseteq> set tr' \<Longrightarrow> on_disk tr' p"
  unfolding on_disk_def by blast

lemma disk_reads_mono: "disk_reads s s' \<Longrightarrow> set (m_trace s) \<subseteq> set (m_trace s')"
  by (auto simp: disk_reads_def)

definition table_ok :: "disk_info \<Rightarrow> gpt_entries option \<Rightarrow> bool" where
  "table_ok info t \<longleftrightarrow> (case t of None \<Rightarrow> True
     | Some es \<Rightarrow> header_ok (di_blocks info) (gheader es) \<and> di_block_size info \<in> {512, 4096})"

lemma length_fill [simp]: "length (fill b d) = length b"
  by (simp add: fill_def)

lemma wpx_read_blocksI:
  assumes "\<And>r b' w. length b' = length b \<Longrightarrow>
    Q (r, b') (s\<lparr>m_world := w, m_trace := EReadBlocks d lba (length b) # m_trace s\<rparr>)"
  shows "wpx T (read_blocks E d lba b) s Q"
  using assms by (auto simp: read_blocks_def call_def wpx_def split: prod.split)

lemma entries_len_Ok: "header_ok n h \<Longrightarrow> entries_len h = Ok (entry_count h * entry_size h)"
  by (auto simp: entries_len_def mul64_eq_Ok header_ok_def gpt_consts)

lemma entries_blocks_Ok:
  assumes "header_ok n h" "bs \<le> 4096"
  shows "rbind (entries_blocks h) (\<lambda>k. mul64 k bs) = Ok (div_ceil (entry_count h * entry_size h) (block_size h) * bs)"
proof -
  let ?n = "entry_count h * entry_size h"
  have "?n \<le> 16384" "512 \<le> block_size h" using assms by (auto simp: header_ok_def gpt_consts)
  then have "div_ceil ?n (block_size h) \<le> 16385" by (auto simp: div_ceil_def intro: le_trans [OF div_le_dividend])
  then have "div_ceil ?n (block_size h) * bs \<le> 16385 * 4096" using assms(2) by (intro mult_le_mono)
  then show ?thesis
    using entries_len_Ok [OF assms(1)] \<open>512 \<le> block_size h\<close> by (simp add: entries_blocks_def mul64_eq_Ok)
qed

lemma read_table_wpx:
  "wpx T (read_table E disk info) s (\<lambda>t s'. disk_reads s s' \<and> table_ok info t)"
  unfolding read_table_def set_front_def
  by (intro vcg wpx_read_blocksI wpx_attemptI wp_conseq [OF header_parse_wp]
      wpx_plainI [OF entries_blocks_Ok] wpx_plainI [OF entries_len_Ok] wp_conseq [OF entries_wp])
    (auto simp: disk_reads_def table_ok_def BLOCK_512_def BLOCK_4K_def)

lemma partition_on_disk:
  assumes "EDiskInfo disk (Some info) \<in> set tr" "header_ok (di_blocks info) h" "di_block_size info \<in> {512, 4096}"
    and "entry_ok h e" "\<not> is_unused e"
  shows "on_disk tr (partition_of disk info i e)"
  unfolding on_disk_def
proof (intro exI [of _ info] conjI)
  have u: "first_usable h \<le> first_lba e" "first_lba e \<le> last_lba e" "last_lba e \<le> last_usable h"
    "last_usable h < di_blocks info" "last_usable h < u64_lim" "2 \<le> first_usable h"
    using assms by (auto simp: entry_ok_def in_usable_def header_ok_def)
  then show "2 \<le> pt_first_lba (partition_of disk info i e)" by (simp add: partition_of_def)
  have "0 < entry_sectors e \<and> entry_sectors e \<le> last_lba e - first_lba e + 1"
    by (auto simp: entry_sectors_def saturating_add_def saturating_sub_def)
  with u show "0 < pt_sectors (partition_of disk info i e)"
    "pt_first_lba (partition_of disk info i e) + pt_sectors (partition_of disk info i e) \<le> di_blocks info"
    by (auto simp: partition_of_def)
qed (use assms in \<open>auto simp: partition_of_def\<close>)

text \<open>
  The rule for the walk: an assertion \<open>I\<close> on the captured state and the machine that reading disks
  and every visit of a partition on its disk keep holds at the end.
\<close>

lemma entry_loop_wpx:
  assumes step: "\<And>e part v s. I v s \<Longrightarrow> on_disk (m_trace s) part \<Longrightarrow> pt_guid part = unique_guid e
      \<Longrightarrow> wpx T (visit e part v) s (\<lambda>x s'. I (snd x) s' \<and> set (m_trace s) \<subseteq> set (m_trace s'))"
    and ok: "header_ok (di_blocks info) (gheader es)" "di_block_size info \<in> {512, 4096}"
    and "I v s" "EDiskInfo disk (Some info) \<in> set (m_trace s)"
  shows "wpx T (entry_loop visit es disk info is v) s (\<lambda>x. I (snd x))"
  using assms(4-)
proof (induction "is" arbitrary: v s)
  case (Cons i "is")
  have visited: "wpx T (visit e (partition_of disk info i e) v) s
      (\<lambda>x s'. (fst x \<longrightarrow> wpx T (entry_loop visit es disk info is (snd x)) s' (\<lambda>x. I (snd x)))
        \<and> (\<not> fst x \<longrightarrow> I (snd x) s'))"
    if e: "entry_ok (gheader es) e" "\<not> is_unused e" for e
  proof (rule wpx_conseq [OF step], goal_cases)
    case 2
    then show ?case using Cons.prems ok e by (blast intro: partition_on_disk)
  qed (use Cons in \<open>auto simp: partition_of_def\<close>)
  show ?case
    unfolding entry_loop.simps
    by (intro wpx_intros(1) wpx_attemptI wp_conseq [OF gpt_get_wp [OF ok(1)]])
      (use Cons visited in \<open>auto simp: mwp split_def elim!: wpx_conseq\<close>)
qed (simp add: mwp)

lemma disk_step_wpx:
  assumes step: "\<And>e part v s. I v s \<Longrightarrow> on_disk (m_trace s) part \<Longrightarrow> pt_guid part = unique_guid e
      \<Longrightarrow> wpx T (visit e part v) s (\<lambda>x s'. I (snd x) s' \<and> set (m_trace s) \<subseteq> set (m_trace s'))"
    and frame: "\<And>v s s'. I v s \<Longrightarrow> disk_reads s s' \<Longrightarrow> I v s'"
    and "I v s"
  shows "wpx T (disk_step E visit disk v) s (\<lambda>x. I (snd x))"
  unfolding disk_step_def disk_info_of_def
proof (intro wpx_intros(1) wpx_callI wpx_intros(3), goal_cases)
  case (1 r w)
  then show ?case using frame [OF assms(3)] by (simp add: mwp)
next
  case (2 r w info)
  let ?s = "s\<lparr>m_world := w, m_trace := EDiskInfo disk r # m_trace s\<rparr>"
  have I: "I v ?s" using frame [OF assms(3)] by simp
  show ?case
  proof (rule wpx_conseq [OF read_table_wpx], goal_cases)
    case (1 t s')
    then have "I v s'" and mem: "EDiskInfo disk (Some info) \<in> set (m_trace s')"
      using frame [OF I] disk_reads_mono [of ?s s'] 2 by auto
    show ?case
    proof (cases t)
      case None
      then show ?thesis using \<open>I v s'\<close> by (simp add: mwp)
    next
      case (Some es)
      then have "header_ok (di_blocks info) (gheader es)" "di_block_size info \<in> {512, 4096}"
        using 1 by (simp_all add: table_ok_def)
      from entry_loop_wpx [of I, OF step this \<open>I v s'\<close> mem] show ?thesis unfolding Some option.case .
    qed
  qed
qed

lemma for_each_wpx:
  assumes step: "\<And>e part v s. I v s \<Longrightarrow> on_disk (m_trace s) part \<Longrightarrow> pt_guid part = unique_guid e
      \<Longrightarrow> wpx T (visit e part v) s (\<lambda>x s'. I (snd x) s' \<and> set (m_trace s) \<subseteq> set (m_trace s'))"
    and frame: "\<And>v s s'. I v s \<Longrightarrow> disk_reads s s' \<Longrightarrow> I v s'"
    and "I v s"
  shows "wpx T (for_each_partition E visit v) s I"
proof -
  have loop: "wpx T (disk_loop E visit ds v) s I" if "I v s" for ds v s
    using that
  proof (induction ds arbitrary: v s)
    case (Cons d ds)
    show ?case unfolding disk_loop.simps
      by (intro wpx_intros(1) wpx_conseq [OF disk_step_wpx [of I, OF step frame Cons.prems]]
          wpx_intros(4) wpx_intros(2)) (auto simp: mwp Cons.IH)
  qed (simp add: mwp)
  show ?thesis unfolding for_each_partition_def disk_count_def
    by (intro wpx_intros(1) wpx_callI loop frame [OF assms(3)]) simp
qed

definition find_result :: "guid \<Rightarrow> (exit, partition option) res \<Rightarrow> event list \<Rightarrow> bool" where
  "find_result g r tr = (case r of Ok (Some p) \<Rightarrow> pt_guid p = g \<and> on_disk tr p | Panic \<Rightarrow> False | _ \<Rightarrow> True)"

text \<open>
  C29.  Looking for a partition by its GUID never panics, whatever the disks contain; it does nothing
  but read disks, and a partition it returns has that GUID and lies on its disk, behind the GPT header,
  in the block size and within the number of blocks the firmware reported for the disk.
\<close>

theorem find_partition_on_disk:
  "find_result g (fst (find_partition E g s)) (m_trace (snd (find_partition E g s)))
   \<and> disk_reads s (snd (find_partition E g s))"
proof -
  let ?I = "\<lambda>x s'. disk_reads s s' \<and> (case x of None \<Rightarrow> True | Some p \<Rightarrow> pt_guid p = g \<and> on_disk (m_trace s') p)"
  have "wpx (disk_reads s) (find_partition E g) s ?I"
    unfolding find_partition_def
    by (intro for_each_wpx [of ?I])
      (auto simp: mwp elim: disk_reads_trans on_disk_mono dest: disk_reads_mono split: option.splits)
  then show ?thesis by (auto simp: wpx_def find_result_def split: res.splits option.splits)
qed

section \<open>The recovery password\<close>

definition is_digit :: "byte \<Rightarrow> bool" where "is_digit c \<longleftrightarrow> 0x30 \<le> c \<and> c \<le> 0x39"
definition is_sep :: "byte \<Rightarrow> bool" where "is_sep c \<longleftrightarrow> c = 0x2d \<or> c = 0x20"

definition digits_in :: "bytes \<Rightarrow> nat list" where
  "digits_in s = map (\<lambda>c. unat (c - 0x30)) (filter is_digit s)"

text \<open>The decimal digits of a number, most significant first.\<close>

fun decimal :: "nat \<Rightarrow> nat \<Rightarrow> nat list" where
  "decimal 0 n = []"
| "decimal (Suc k) n = decimal k (n div 10) @ [n mod 10]"

text \<open>The password of eight numbers: the six digits of eleven times each.\<close>

definition password_of :: "nat list \<Rightarrow> nat list" where
  "password_of qs = concat (map (\<lambda>q. decimal 6 (11 * q)) qs)"

definition is_password :: "bytes \<Rightarrow> nat list \<Rightarrow> bool" where
  "is_password s qs \<longleftrightarrow> length s \<le> 64 \<and> list_all (\<lambda>c. is_digit c \<or> is_sep c) s
     \<and> length qs = 8 \<and> list_all (\<lambda>q. q < u16_lim) qs \<and> digits_in s = password_of qs"

lemma digit_scan_Ok:
  "digit_scan s ds = Ok r \<longleftrightarrow>
     list_all (\<lambda>c. is_digit c \<or> is_sep c) s \<and> r = ds @ digits_in s \<and> (digits_in s = [] \<or> length r \<le> 48)"
proof (induction s arbitrary: ds)
  case (Cons c s)
  show ?case
  proof (cases "is_digit c")
    case True
    then have "\<not> is_sep c" by (auto simp: is_digit_def is_sep_def)
    show ?thesis
      using True Cons.IH [of "ds @ [unat (c - 0x30)]"]
      by (cases "digits_in s = []") (auto simp: is_digit_def digits_in_def RECOVERY_DIGITS_def)
  next
    case False
    then show ?thesis
      using Cons.IH [of ds] by (auto simp: is_digit_def is_sep_def digits_in_def)
  qed
qed (auto simp: digits_in_def)

definition value_of :: "nat list \<Rightarrow> nat" where
  "value_of ds = fold (\<lambda>d a. a * 10 + d) ds 0"

lemma decimal_value: "list_all (\<lambda>d. d < 10) ds \<Longrightarrow> decimal (length ds) (value_of ds) = ds"
  by (induction ds rule: rev_induct) (auto simp: value_of_def)

lemma value_decimal: "n < 10 ^ k \<Longrightarrow> value_of (decimal k n) = n"
proof (induction k arbitrary: n)
  case (Suc k)
  then have "n div 10 < 10 ^ k" by (simp add: less_mult_imp_div_less mult.commute)
  with Suc.IH show ?case by (simp add: value_of_def)
qed (simp add: value_of_def)

lemma length_decimal [simp]: "length (decimal k n) = k"
  by (induction k arbitrary: n) auto

lemma group_value:
  assumes "list_all (\<lambda>d. d < 10) ds" "length ds = 6" "q < u16_lim"
  shows "value_of ds = 11 * q \<longleftrightarrow> ds = decimal 6 (11 * q)"
  using decimal_value [OF assms(1)] value_decimal [of "11 * q" 6] assms by auto

lemma group_loop_Ok:
  assumes "list_all (\<lambda>c. length c = 6 \<and> list_all (\<lambda>d. d < 10) c) cs"
  shows "group_loop g cs = Ok key \<longleftrightarrow>
    (\<exists>qs. list_all (\<lambda>q. q < u16_lim) qs \<and> cs = map (\<lambda>q. decimal 6 (11 * q)) qs \<and> key = concat (map (le_bytes 2) qs))"
  using assms
proof (induction cs arbitrary: g key)
  case (Cons c cs)
  have lim: "RECOVERY_GROUP_LIMIT = 11 * u16_lim" "RECOVERY_GROUP_DIVISOR = 11"
    by (simp_all add: RECOVERY_GROUP_LIMIT_def RECOVERY_GROUP_DIVISOR_def push_bit_eq_mult)
  have "value_of c mod 11 = 0 \<and> value_of c < 11 * u16_lim \<longleftrightarrow> (\<exists>q < u16_lim. value_of c = 11 * q)"
    by (auto simp: mod_eq_0_iff_dvd elim!: dvdE)
  also have "\<dots> \<longleftrightarrow> (\<exists>q < u16_lim. c = decimal 6 (11 * q))"
    using Cons.prems group_value [of c] by auto
  finally have c: "(value_of c mod 11 \<noteq> 0 \<or> value_of c \<ge> 11 * u16_lim) \<longleftrightarrow> \<not> (\<exists>q < u16_lim. c = decimal 6 (11 * q))"
    by auto
  show ?case
  proof (cases "\<exists>q < u16_lim. c = decimal 6 (11 * q)")
    case True
    then obtain q where q: "q < u16_lim" "c = decimal 6 (11 * q)" by blast
    then have v: "value_of c = 11 * q" by (simp add: value_decimal)
    have step: "group_loop g (c # cs) = rbind (group_loop (g + 1) cs) (\<lambda>r. Ok (le_bytes 2 q @ r))"
      using v q(1) by (simp add: lim value_of_def)
    have inj: "q' = q" if "q' < u16_lim" "c = decimal 6 (11 * q')" for q'
      using value_decimal [of "11 * q'" 6] that v by simp
    let ?P = "\<lambda>qs. list_all (\<lambda>q. q < u16_lim) qs \<and> cs = map (\<lambda>q. decimal 6 (11 * q)) qs"
    have "group_loop g (c # cs) = Ok key \<longleftrightarrow> (\<exists>qs. ?P qs \<and> key = le_bytes 2 q @ concat (map (le_bytes 2) qs))"
      unfolding step using Cons.IH [of "g + 1"] Cons.prems by (auto simp: rbind_eq_Ok)
    also have "\<dots> \<longleftrightarrow> (\<exists>qs. list_all (\<lambda>q. q < u16_lim) qs \<and> c # cs = map (\<lambda>q. decimal 6 (11 * q)) qs
        \<and> key = concat (map (le_bytes 2) qs))" (is "?L \<longleftrightarrow> ?R")
    proof
      assume ?L
      then obtain qs where "?P qs" "key = le_bytes 2 q @ concat (map (le_bytes 2) qs)" by blast
      then show ?R using q by (intro exI [of _ "q # qs"]) simp
    next
      assume ?R
      then obtain qs where qs: "list_all (\<lambda>q. q < u16_lim) qs" "c # cs = map (\<lambda>q. decimal 6 (11 * q)) qs"
        "key = concat (map (le_bytes 2) qs)" by (elim exE conjE) (rule that)
      from qs(2) obtain q' qs' where "qs = q' # qs'" by (cases qs) auto
      with qs have "q' < u16_lim" "c = decimal 6 (11 * q')" and P: "?P qs'" "key = le_bytes 2 q' @ concat (map (le_bytes 2) qs')"
        by simp_all
      with inj show ?L by blast
    qed
    finally show ?thesis .
  next
    case False
    then have "group_loop g (c # cs) = Err (RkGroup g)"
      using c by (simp add: lim value_of_def)
    then show ?thesis using False by (auto simp: Cons_eq_map_conv)
  qed
qed auto

lemma chunks_exact_eq:
  "0 < n \<Longrightarrow> n \<le> length xs \<Longrightarrow> chunks_exact n xs = take n xs # chunks_exact n (drop n xs)"
  "length xs < n \<Longrightarrow> chunks_exact n xs = []"
  by (subst chunks_exact.simps, simp)+

lemma chunks_exact_concat:
  assumes "0 < n" "length xs = n * k"
  shows "concat (chunks_exact n xs) = xs \<and> list_all (\<lambda>c. length c = n) (chunks_exact n xs) \<and> length (chunks_exact n xs) = k"
  using assms(2)
proof (induction k arbitrary: xs)
  case 0
  then show ?case using assms(1) by (simp add: chunks_exact_eq(2))
next
  case (Suc k)
  then have "length (drop n xs) = n * k" and len: "n \<le> length xs" by auto
  from Suc.IH [OF this(1)] show ?case
    using assms(1) len by (simp add: chunks_exact_eq(1))
qed

lemma chunks_of_concat:
  assumes "0 < n" "list_all (\<lambda>c. length c = n) cs"
  shows "chunks_exact n (concat cs) = cs"
  using assms(2)
proof (induction cs)
  case Nil
  then show ?case using assms(1) by (subst chunks_exact.simps) simp
next
  case (Cons c cs)
  then show ?case using assms(1) by (subst chunks_exact.simps) simp
qed

lemma digits_in_less: "list_all (\<lambda>d. d < 10) (digits_in s)"
proof -
  have "unat (c - 0x30) < 10" if "is_digit c" for c :: byte
    using that by (auto simp: is_digit_def word_le_nat_alt unat_sub)
  then show ?thesis by (auto simp: digits_in_def list_all_iff)
qed

lemma parse_recovery_password_wp: "wp (parse_recovery_password s) (\<lambda>_. True)"
proof -
  have "wp (group_loop g cs) (\<lambda>_. True)" for g cs
    by (induction g cs rule: group_loop.induct) (auto simp: Let_def)
  moreover have "wp (digit_scan s ds) (\<lambda>_. True)" for ds
    by (induction s ds rule: digit_scan.induct) auto
  ultimately show ?thesis
    by (auto simp: parse_recovery_password_def elim: wp_conseq)
qed

text \<open>
  C30.  The recovery password parser never panics, and it yields a key exactly when the input has at
  most 64 characters, all of them digits, hyphens or spaces, and its digits are those of the key's
  eight little-endian 16-bit numbers, each written as eleven times the number in six digits.
\<close>

theorem recovery_password_exact:
  "parse_recovery_password s \<noteq> Panic
   \<and> (parse_recovery_password s = Ok key \<longleftrightarrow> (\<exists>qs. is_password s qs \<and> key = concat (map (le_bytes 2) qs)))"
proof -
  have split: "digits_in s = password_of qs \<longleftrightarrow> chunks_exact 6 (digits_in s) = map (\<lambda>q. decimal 6 (11 * q)) qs"
    if "length (digits_in s) = 48" for qs
    using chunks_exact_concat [of 6 "digits_in s" 8] that
      chunks_of_concat [of 6 "map (\<lambda>q. decimal 6 (11 * q)) qs"]
    by (auto simp: password_of_def list_all_iff)
  have len: "length (digits_in s) = 48" if "digits_in s = password_of qs" "length qs = 8" for qs
    using that by (simp add: password_of_def length_concat o_def sum_list_triv)
  have groups: "list_all (\<lambda>c. length c = 6 \<and> list_all (\<lambda>d. d < 10) c) (chunks_exact 6 (digits_in s))"
    if "length (digits_in s) = 48"
  proof -
    have c: "concat (chunks_exact 6 (digits_in s)) = digits_in s" "list_all (\<lambda>c. length c = 6) (chunks_exact 6 (digits_in s))"
      using chunks_exact_concat [of 6 "digits_in s" 8] that by auto
    have "\<forall>d\<in>set (concat (chunks_exact 6 (digits_in s))). d < 10"
      unfolding c(1) using digits_in_less [of s] by (simp add: list_all_iff)
    then show ?thesis using c(2) by (auto simp: list_all_iff)
  qed
  have "parse_recovery_password s = Ok key \<longleftrightarrow>
      length s \<le> 64 \<and> list_all (\<lambda>c. is_digit c \<or> is_sep c) s \<and> length (digits_in s) = 48
      \<and> group_loop 0 (chunks_exact 6 (digits_in s)) = Ok key"
    by (auto simp: parse_recovery_password_def RECOVERY_INPUT_MAX_def RECOVERY_DIGITS_def RECOVERY_GROUP_def
        rbind_eq_Ok digit_scan_Ok split: if_splits)
  also have "\<dots> \<longleftrightarrow> (\<exists>qs. is_password s qs \<and> key = concat (map (le_bytes 2) qs))"
  proof (cases "length (digits_in s) = 48")
    case True
    have "length qs = 8" if "chunks_exact 6 (digits_in s) = map (\<lambda>q. decimal 6 (11 * q)) qs" for qs
      using chunks_exact_concat [of 6 "digits_in s" 8] arg_cong [OF that, of length] True by simp
    then show ?thesis unfolding group_loop_Ok [OF groups [OF True]] is_password_def split [OF True] using True by blast
  next
    case False
    then show ?thesis unfolding is_password_def using len by blast
  qed
  finally show ?thesis using parse_recovery_password_wp by (simp add: wp_True)
qed

end
