(* ===== verification/BdeBoot.thy ===== *)
theory BdeBoot
  imports Bde Xts Volume
begin

text \<open>
  The loader's BitLocker reader, \<open>crates/paguro-boot/src/bde.rs\<close>: from a protector to the volume master key and
  the volume key, the decrypted view of the volume as units and as 512-byte sectors, and the volume object that opens a
  partition and unlocks it.  The ciphers are those of \<open>Xts\<close>, SHA-256 that of \<open>Crypto\<close>, both parameters.  Buffers that
  are wiped after use hold nothing a result depends on and are not kept.  Finding files on the volume is
  stage 4's and is not here.
\<close>

section \<open>Unlocking\<close>

definition VALIDATION_SHA256 :: nat where "VALIDATION_SHA256 = 0x2005"
definition KEY_METHOD_MASK :: nat where "KEY_METHOD_MASK = 0xffff"
definition BOOT_KEY_LEN :: nat where "BOOT_KEY_LEN = 32"
definition BOOT_SECTOR_LEN :: nat where "BOOT_SECTOR_LEN = SECTOR"
definition MAX_UNIT :: nat where "MAX_UNIT = 4096"

definition FvekBlobHeader :: layout where "FvekBlobHeader = [(''nonce'', 12), (''tag'', 16)]"

definition unwrap :: "ciphers \<Rightarrow> bytes \<Rightarrow> ccm \<Rightarrow> (bde_error, bde_key option) res" where
  "unwrap A key c =
    (if length (ccm_ciphertext c) > MAX_WRAPPED then Err BadCcm else
     case ccm_unwrap A key (ccm_nonce c) (ccm_tag c) (ccm_ciphertext c) of (ok, pt) \<Rightarrow>
     if \<not> ok then Ok None else rbind (parse_key pt) (\<lambda>k. Ok (Some k)))"

definition unwrap_vmk :: "ciphers \<Rightarrow> bytes \<Rightarrow> ccm \<Rightarrow> (bde_error, bytes option) res" where
  "unwrap_vmk A key c =
    rbind (unwrap A key c) (\<lambda>r. case r of
      None \<Rightarrow> Ok None
    | Some k \<Rightarrow> if length (bk_key k) = BOOT_KEY_LEN then Ok (Some (bk_key k)) else Err BadKey)"

fun clear_key_loop :: "ciphers \<Rightarrow> protector list \<Rightarrow> (bde_error, bytes option) res" where
  "clear_key_loop A [] = Ok None"
| "clear_key_loop A (p # ps) = (case (pr_clear_key p, pr_wrapped_vmk p) of
      (Some k, Some c) \<Rightarrow> rbind (unwrap_vmk A k c) (\<lambda>v. case v of Some v \<Rightarrow> Ok (Some v) | None \<Rightarrow> clear_key_loop A ps)
    | _ \<Rightarrow> clear_key_loop A ps)"

definition vmk_from_clear_key :: "ciphers \<Rightarrow> metadata \<Rightarrow> (bde_error, bytes option) res" where
  "vmk_from_clear_key A m = clear_key_loop A (of_kind m ClearKey)"

fun stretched_loop :: "ciphers \<Rightarrow> crypto \<Rightarrow> bytes \<Rightarrow> protector list \<Rightarrow> (bde_error, bytes option) res" where
  "stretched_loop A C initial [] = Ok None"
| "stretched_loop A C initial (p # ps) = (case (pr_salt p, pr_wrapped_vmk p) of
      (Some slt, Some c) \<Rightarrow>
        let k = bitlocker_stretch C initial slt STRETCH_ITERATIONS in
        rbind (unwrap_vmk A k c) (\<lambda>v. case v of Some v \<Rightarrow> Ok (Some v) | None \<Rightarrow> stretched_loop A C initial ps)
    | _ \<Rightarrow> stretched_loop A C initial ps)"

definition stretched :: "ciphers \<Rightarrow> crypto \<Rightarrow> metadata \<Rightarrow> protector_kind \<Rightarrow> bytes \<Rightarrow> (bde_error, bytes option) res" where
  "stretched A C m kind initial = stretched_loop A C initial (of_kind m kind)"

definition vmk_from_password_hash :: "ciphers \<Rightarrow> crypto \<Rightarrow> metadata \<Rightarrow> bytes \<Rightarrow> (bde_error, bytes option) res" where
  "vmk_from_password_hash A C m user = stretched A C m Password user"

definition vmk_from_password :: "ciphers \<Rightarrow> crypto \<Rightarrow> metadata \<Rightarrow> str \<Rightarrow> (bde_error, bytes option) res" where
  "vmk_from_password A C m pw = stretched A C m Password (user_password_hash C pw)"

definition vmk_from_recovery :: "ciphers \<Rightarrow> crypto \<Rightarrow> metadata \<Rightarrow> bytes \<Rightarrow> (bde_error, bytes option) res" where
  "vmk_from_recovery A C m key = stretched A C m RecoveryPassword (sha256 C key)"

fun startup_key_loop :: "ciphers \<Rightarrow> startup_key \<Rightarrow> protector list \<Rightarrow> (bde_error, bytes option) res" where
  "startup_key_loop A sk [] = Ok None"
| "startup_key_loop A sk (p # ps) =
    (if pr_id p = sk_id sk
     then (case pr_wrapped_vmk p of Some c \<Rightarrow> unwrap_vmk A (sk_key sk) c | None \<Rightarrow> startup_key_loop A sk ps)
     else startup_key_loop A sk ps)"

definition vmk_from_startup_key :: "ciphers \<Rightarrow> metadata \<Rightarrow> startup_key \<Rightarrow> (bde_error, bytes option) res" where
  "vmk_from_startup_key A m sk = startup_key_loop A sk (of_kind m StartupKeyKind)"

record bfvek =
  bf_cipher :: cipher
  bf_key :: bytes
  bf_len :: nat

definition bfvek_key :: "bfvek \<Rightarrow> bytes" where
  "bfvek_key f = (case get_range (bf_key f) 0 (bf_len f) of Some k \<Rightarrow> k | None \<Rightarrow> [])"

definition bfvek_xts :: "bfvek \<Rightarrow> xts_keys option" where
  "bfvek_xts f = (case xts_new (bfvek_key f) of Ok k \<Rightarrow> Some k | _ \<Rightarrow> None)"

definition check_hash :: "ciphers \<Rightarrow> crypto \<Rightarrow> bytes \<Rightarrow> bde_block \<Rightarrow> (bde_error, unit) res" where
  "check_hash A C vmk b = (case bb_validation b of
      None \<Rightarrow> Ok ()
    | Some v \<Rightarrow>
        rbind (unwrap A vmk v) (\<lambda>r.
        rbind (ok_or r ValidationHash) (\<lambda>h.
        if bk_method h AND KEY_METHOD_MASK \<noteq> VALIDATION_SHA256 \<or> bk_key h \<noteq> sha256 C (bb_raw b)
        then Err ValidationHash else Ok ())))"

definition unlock_fvek :: "ciphers \<Rightarrow> crypto \<Rightarrow> metadata \<Rightarrow> bytes \<Rightarrow> (bde_error, bfvek option) res" where
  "unlock_fvek A C m vmk =
    rbind (unwrap A vmk (md_fvek m)) (\<lambda>r. case r of
      None \<Rightarrow> Ok None
    | Some k \<Rightarrow>
        let cipher = bb_cipher (md_block m) in
        rbind (ok_or (key_len cipher) (UnsupportedCipher (cipher_to_u16 cipher))) (\<lambda>want.
        if bk_method k \<noteq> cipher_to_u16 cipher \<or> length (bk_key k) \<noteq> want then Err FvekMismatch else
        let key = (if want \<le> MAX_FVEK_KEY then overwrite (replicate MAX_FVEK_KEY 0) 0 (bk_key k) else replicate MAX_FVEK_KEY 0);
            f = \<lparr>bf_cipher = cipher, bf_key = key, bf_len = want\<rparr> in
        rbind (check_hash A C vmk (md_block m)) (\<lambda>_. Ok (Some f))))"

section \<open>The decrypted view\<close>

datatype read_error = RIo | RRange | RAlignment

text \<open>
  \<open>UnitRead\<close>: the bytes that replace the buffer's, or an error (then nothing reads the buffer again).
\<close>

type_synonym 's unit_read = "nat \<Rightarrow> bytes \<Rightarrow> ('s, read_error, bytes) io"

record dreader =
  dr_layout :: "bde_layout option"
  dr_xts :: "xts_keys option"
  dr_bps :: nat
  dr_units :: nat
  dr_cache :: bytes
  dr_cached :: "nat option"

definition dr_new :: "bde_layout \<Rightarrow> xts_keys \<Rightarrow> (bde_error, dreader) res" where
  "dr_new l x = rbind (layout_units l) (\<lambda>units.
     Ok \<lparr>dr_layout = Some l, dr_xts = Some x, dr_bps = bl_bytes_per_sector l, dr_units = units,
         dr_cache = replicate MAX_UNIT 0, dr_cached = None\<rparr>)"

definition dr_passthrough :: "nat \<Rightarrow> nat \<Rightarrow> dreader" where
  "dr_passthrough bps units = \<lparr>dr_layout = None, dr_xts = None, dr_bps = bps, dr_units = units,
     dr_cache = replicate MAX_UNIT 0, dr_cached = None\<rparr>"

text \<open>\<open>u64::clamp\<close> and \<open>split_at_mut\<close> panic on a bad range.\<close>

definition clamp :: "nat \<Rightarrow> nat \<Rightarrow> nat \<Rightarrow> ('e, nat) res" where
  "clamp v lo hi = (if lo \<le> hi then Ok (max lo (min v hi)) else Panic)"

definition split_at :: "bytes \<Rightarrow> nat \<Rightarrow> ('e, bytes \<times> bytes) res" where
  "split_at b n = (if n \<le> length b then Ok (take n b, drop n b) else Panic)"

fun decrypt_units :: "ciphers \<Rightarrow> xts_keys \<Rightarrow> nat \<Rightarrow> bytes list \<Rightarrow> (read_error, bytes list) res" where
  "decrypt_units A x p [] = Ok []"
| "decrypt_units A x p (s # ss) =
    rbind (map_err (\<lambda>_. RAlignment) (xts_decrypt A x p s)) (\<lambda>d.
    rbind (decrypt_units A x (p + 1) ss) (\<lambda>ds. Ok (d # ds)))"

definition read_chunk ::
  "ciphers \<Rightarrow> 's unit_read \<Rightarrow> xts_keys \<Rightarrow> nat \<Rightarrow> source \<Rightarrow> bytes \<Rightarrow> ('s, read_error, bytes) io" where
  "read_chunk A dev x bps src chunk = (case src of
      SZero \<Rightarrow> lift (Ok (replicate (length chunk) 0))
    | SDisk p encrypted \<Rightarrow>
        ibind (dev p chunk) (\<lambda>chunk.
        if encrypted then lift (rbind (decrypt_units A x p (chunks_exact bps chunk)) (\<lambda>ds.
          Ok (concat ds @ drop (bps * length ds) chunk)))
        else lift (Ok chunk)))"

lemma step_shorter: "rst \<noteq> [] \<Longrightarrow> Suc 0 \<le> length rst div bps \<Longrightarrow> length rst - max (Suc 0) k * bps < length rst"
  by (cases "bps = 0") (auto simp: max_def)

function read_loop ::
  "ciphers \<Rightarrow> 's unit_read \<Rightarrow> bde_layout \<Rightarrow> xts_keys \<Rightarrow> nat \<Rightarrow> nat \<Rightarrow> bytes \<Rightarrow> 's \<Rightarrow> (read_error, bytes) res \<times> 's" where
  "read_loop A dev l x bps u rst s =
    (if rst = [] then (Ok [], s) else
     ibind (lift (rbind (map_err (\<lambda>_. RRange) (layout_map l u)) (\<lambda>m. ok_or m RRange))) (\<lambda>m.
     ibind (lift (clamp (snd m) 1 (length rst div bps))) (\<lambda>k.
     ibind (lift (split_at rst (k * bps))) (\<lambda>ct.
     ibind (read_chunk A dev x bps (fst m) (fst ct)) (\<lambda>chunk.
     ibind (lift (add64 u k)) (\<lambda>u.
     ibind (read_loop A dev l x bps u (snd ct)) (\<lambda>r.
     lift (Ok (chunk @ r)))))))) s)"
  by pat_completeness auto
termination
  by (relation "measure (\<lambda>(A, dev, l, x, bps, u, rst, s). length rst)")
    (auto simp: lift_def clamp_def split_at_def intro!: step_shorter split: if_splits)

declare read_loop.simps [simp del]

definition dr_read :: "ciphers \<Rightarrow> 's unit_read \<Rightarrow> dreader \<Rightarrow> nat \<Rightarrow> bytes \<Rightarrow> ('s, read_error, bytes) io" where
  "dr_read A dev r unit bf =
    (let bps = dr_bps r in
     if bps = 0 \<or> length bf mod bps \<noteq> 0 then lift (Err RAlignment) else
     let n = length bf div bps in
     if (case checked_add unit n of None \<Rightarrow> True | Some e \<Rightarrow> e > dr_units r) then lift (Err RRange) else
     case (dr_layout r, dr_xts r) of
       (Some l, Some x) \<Rightarrow> read_loop A dev l x bps unit bf
     | _ \<Rightarrow> dev unit bf)"

text \<open>
  Reading 512-byte sectors changes the cache: the state is the reader and the device.  A failed read of a
  unit leaves the cache marked empty; its bytes are then never used, and are left as they were.
\<close>

definition on_dev :: "('s, 'e, 'a) io \<Rightarrow> (dreader \<times> 's, 'e, 'a) io" where
  "on_dev m = (\<lambda>(r, s). case m s of (x, s') \<Rightarrow> (x, (r, s')))"

definition dr_upd :: "(dreader \<Rightarrow> dreader) \<Rightarrow> (dreader \<times> 's, 'e, unit) io" where
  "dr_upd f = (\<lambda>(r, s). (Ok (), (f r, s)))"

definition fill_cache :: "ciphers \<Rightarrow> 's unit_read \<Rightarrow> nat \<Rightarrow> (dreader \<times> 's, read_error, unit) io" where
  "fill_cache A dev unit = (\<lambda>(r, s).
    if dr_cached r = Some unit then (Ok (), (r, s)) else
    ibind (dr_upd (\<lambda>r. r\<lparr>dr_cached := None\<rparr>)) (\<lambda>_.
    ibind (lift (ok_or (get_range (dr_cache r) 0 (dr_bps r)) RAlignment)) (\<lambda>c.
    ibind (on_dev (dr_read A dev r unit c)) (\<lambda>b.
    dr_upd (\<lambda>r. r\<lparr>dr_cache := overwrite (dr_cache r) 0 b, dr_cached := Some unit\<rparr>)))) (r, s))"

definition rem64 :: "nat \<Rightarrow> nat \<Rightarrow> ('e, nat) res" where
  "rem64 a b = (if b = 0 then Panic else Ok (a mod b))"

definition sector_step ::
  "ciphers \<Rightarrow> 's unit_read \<Rightarrow> nat \<Rightarrow> nat \<Rightarrow> nat \<Rightarrow> nat \<Rightarrow> bytes \<Rightarrow> (dreader \<times> 's, read_error, nat \<times> bytes) io" where
  "sector_step A dev per sector n d bf =
    ibind (lift (add64 sector d)) (\<lambda>s.
    ibind (lift (mul64 d SECTOR)) (\<lambda>at.
    ibind (lift (sub64 n d)) (\<lambda>left.
    ibind (lift (rem64 s per)) (\<lambda>within.
    if within = 0 \<and> left \<ge> per then
      let whole = left div per in
      ibind (lift (mul64 (whole * per) SECTOR)) (\<lambda>bytes.
      ibind (lift (add64 at bytes)) (\<lambda>e.
      ibind (lift (ok_or (get_range bf at e) RRange)) (\<lambda>dst.
      ibind (\<lambda>(r, w). on_dev (dr_read A dev r (s div per) dst) (r, w)) (\<lambda>b.
      lift (Ok (d + whole * per, overwrite bf at b))))))
    else
      ibind (fill_cache A dev (s div per)) (\<lambda>_.
      let n' = min (per - within) left in
      ibind (\<lambda>(r, w). lift (ok_or (get_range (dr_cache r) (within * SECTOR) ((within + n') * SECTOR)) RRange) (r, w)) (\<lambda>src.
      ibind (lift (ok_or (get_range bf at (at + length src)) RRange)) (\<lambda>_.
      lift (Ok (d + n', overwrite bf at src))))))))) "

text \<open>The loop of \<open>read_sectors\<close>: every pass serves at least one sector, so \<open>n\<close> passes are enough.\<close>

fun dr_sector_loop ::
  "nat \<Rightarrow> ciphers \<Rightarrow> 's unit_read \<Rightarrow> nat \<Rightarrow> nat \<Rightarrow> nat \<Rightarrow> nat \<Rightarrow> bytes \<Rightarrow> (dreader \<times> 's, read_error, bytes) io" where
  "dr_sector_loop 0 A dev per sector n d bf = (if d < n then lift Panic else lift (Ok bf))"
| "dr_sector_loop (Suc fuel) A dev per sector n d bf =
    (if d < n then
       ibind (sector_step A dev per sector n d bf) (\<lambda>(d, bf). dr_sector_loop fuel A dev per sector n d bf)
     else lift (Ok bf))"

definition read_sectors :: "ciphers \<Rightarrow> 's unit_read \<Rightarrow> nat \<Rightarrow> bytes \<Rightarrow> (dreader \<times> 's, read_error, bytes) io" where
  "read_sectors A dev sector bf = (\<lambda>(r, w).
    (if length bf mod BOOT_SECTOR_LEN \<noteq> 0 then lift (Err RAlignment) else
     if dr_bps r = SECTOR then on_dev (dr_read A dev r sector bf) else
     let per = dr_bps r div SECTOR; n = length bf div BOOT_SECTOR_LEN in
     if (case checked_add sector n of None \<Rightarrow> True | Some e \<Rightarrow> e > saturating_mul (dr_units r) per)
     then lift (Err RRange)
     else dr_sector_loop n A dev per sector n 0 bf) (r, w))"

section \<open>The partition\<close>

definition plat_read :: "'s platform \<Rightarrow> nat \<Rightarrow> nat \<Rightarrow> bytes \<Rightarrow> ('s, platform_error, bytes) io" where
  "plat_read P disk lba bf = (\<lambda>w. case p_read_blocks P disk lba bf w of (r, x, w') \<Rightarrow>
     ((case r of Inl e \<Rightarrow> Err e | Inr _ \<Rightarrow> Ok (fill bf x)), w'))"

definition io_err :: "('e \<Rightarrow> 'f) \<Rightarrow> ('s, 'e, 'a) io \<Rightarrow> ('s, 'f, 'a) io" where
  "io_err f m = (\<lambda>s. case m s of (r, s') \<Rightarrow> (map_err f r, s'))"

definition part_read_units :: "'s platform \<Rightarrow> partition \<Rightarrow> nat \<Rightarrow> 's unit_read" where
  "part_read_units P part unit_size unit bf =
    (let per = unit_size div max (pt_block_size part) 1 in
     case checked_mul unit per of
       None \<Rightarrow> lift (Err RRange)
     | Some b \<Rightarrow> (case checked_add b (pt_first_lba part) of
         None \<Rightarrow> lift (Err RRange)
       | Some lba \<Rightarrow> io_err (\<lambda>_. RIo) (plat_read P (pt_disk part) lba bf)))"

definition read_platform_error :: "read_error \<Rightarrow> platform_error" where
  "read_platform_error e = (case e of RIo \<Rightarrow> PDevice 0 | RRange \<Rightarrow> PTooLarge | RAlignment \<Rightarrow> PUnsupported)"

definition bde_sectors_read ::
  "ciphers \<Rightarrow> 's platform \<Rightarrow> partition \<Rightarrow> bde_layout \<Rightarrow> xts_keys \<Rightarrow> nat \<Rightarrow> bytes \<Rightarrow> ('s, platform_error, bytes) io" where
  "bde_sectors_read A P part l x sector bf =
    (if bf = [] then lift (Err PUnsupported) else
     (\<lambda>w. case dr_new l x of
       Ok r \<Rightarrow> (case io_err read_platform_error
          (read_sectors A (part_read_units P part (bl_bytes_per_sector l)) sector bf) (r, w) of (b, (_, w')) \<Rightarrow> (b, w'))
     | Err _ \<Rightarrow> (Panic, w)
     | Panic \<Rightarrow> (Panic, w)))"

definition bde_sectors :: "bde_layout \<Rightarrow> (bde_error, nat) res" where
  "bde_sectors l = rbind (layout_units l) (\<lambda>u. mul64 u (bl_bytes_per_sector l div SECTOR))"

section \<open>The volume\<close>

datatype vol_error = VPlatform platform_error | VDisk | VNoVolume | VNotAVolume | VBde bde_error

record bde_volume =
  bv_meta :: bytes
  bv_part :: "partition option"
  bv_hdr :: "volume_header option"
  bv_layout :: "bde_layout option"
  bv_fvek :: "bfvek option"
  bv_xts :: "xts_keys option"

definition bv_new :: "bytes \<Rightarrow> bde_volume" where
  "bv_new meta = \<lparr>bv_meta = meta, bv_part = None, bv_hdr = None, bv_layout = None, bv_fvek = None, bv_xts = None\<rparr>"

definition bv_metadata :: "bde_volume \<Rightarrow> (bde_error, metadata) res" where
  "bv_metadata v =
    rbind (ok_or (bv_hdr v) NotBitLocker) (\<lambda>hdr.
    rbind (parse_block (bv_meta v) 0 hdr) metadata_parse)"

definition bv_fvek_of :: "bde_volume \<Rightarrow> (nat \<times> bytes) option" where
  "bv_fvek_of v = map_option (\<lambda>f. (cipher_to_u16 (bf_cipher f), bfvek_key f)) (bv_fvek v)"

definition bv_layout_of :: "bde_volume \<Rightarrow> fve_layout option" where
  "bv_layout_of v = map_option bde_fve_layout (bv_layout v)"

definition try_vmk_inner :: "ciphers \<Rightarrow> crypto \<Rightarrow> bytes \<Rightarrow> bde_volume \<Rightarrow> (bde_error, bool) res \<times> bde_volume" where
  "try_vmk_inner A C vmk v =
    (case rbind (bv_metadata v) (\<lambda>m. unlock_fvek A C m vmk) of
       Ok (Some f) \<Rightarrow> (case bfvek_xts f of
           Some x \<Rightarrow> (Ok True, v\<lparr>bv_xts := Some x, bv_fvek := Some f\<rparr>)
         | None \<Rightarrow> (Err FvekMismatch, v))
     | Ok None \<Rightarrow> (Ok False, v)
     | Err e \<Rightarrow> (Err e, v)
     | Panic \<Rightarrow> (Panic, v))"

definition bv_accept :: "ciphers \<Rightarrow> crypto \<Rightarrow> bytes option \<Rightarrow> bde_volume \<Rightarrow> (bde_error, bool) res \<times> bde_volume" where
  "bv_accept A C k v = (case k of Some k \<Rightarrow> try_vmk_inner A C k v | None \<Rightarrow> (Ok False, v))"

definition unlock_password :: "ciphers \<Rightarrow> crypto \<Rightarrow> str \<Rightarrow> bde_volume \<Rightarrow> (bde_error, bool) res \<times> bde_volume" where
  "unlock_password A C pw v =
    (case rbind (bv_metadata v) (\<lambda>m. vmk_from_password A C m pw) of
       Ok k \<Rightarrow> bv_accept A C k v | Err e \<Rightarrow> (Err e, v) | Panic \<Rightarrow> (Panic, v))"

definition unlock_startup_key :: "ciphers \<Rightarrow> crypto \<Rightarrow> bytes \<Rightarrow> bde_volume \<Rightarrow> (bde_error, bool) res \<times> bde_volume" where
  "unlock_startup_key A C bek v =
    (case rbind (parse_startup_key bek) (\<lambda>sk. rbind (bv_metadata v) (\<lambda>m. vmk_from_startup_key A m sk)) of
       Ok k \<Rightarrow> bv_accept A C k v | Err e \<Rightarrow> (Err e, v) | Panic \<Rightarrow> (Panic, v))"


text \<open>
  Opening: the state is the volume and the platform's world.  The two other copies are compared with the first a
  block at a time; a pass compares at least one byte, so as many passes as bytes are enough.
\<close>

definition on_plat :: "('s, platform_error, 'a) io \<Rightarrow> (bde_volume \<times> 's, vol_error, 'a) io" where
  "on_plat m = (\<lambda>(v, w). case m w of (r, w') \<Rightarrow> (map_err VPlatform r, (v, w')))"

definition bv_upd :: "(bde_volume \<Rightarrow> bde_volume) \<Rightarrow> (bde_volume \<times> 's, 'e, unit) io" where
  "bv_upd f = (\<lambda>(v, w). (Ok (), (f v, w)))"

definition bv_get :: "(bde_volume \<Rightarrow> ('e, 'a) res) \<Rightarrow> (bde_volume \<times> 's, 'e, 'a) io" where
  "bv_get f = (\<lambda>(v, w). (f v, (v, w)))"

fun copy_loop :: "nat \<Rightarrow> 's platform \<Rightarrow> nat \<Rightarrow> nat \<Rightarrow> bytes \<Rightarrow> nat \<Rightarrow> nat \<Rightarrow> nat \<Rightarrow> (bde_volume \<times> 's, vol_error, bytes) io" where
  "copy_loop 0 P disk bs scratch agreed d l = (if d < agreed then lift Panic else lift (Ok scratch))"
| "copy_loop (Suc fuel) P disk bs scratch agreed d l =
    (if d < agreed then
       ibind (lift (ok_or (get_range scratch 0 bs) VDisk)) (\<lambda>blk.
       ibind (on_plat (plat_read P disk l blk)) (\<lambda>blk.
       let n = min bs (agreed - d) in
       ibind (bv_get (\<lambda>v. if get_range blk 0 n \<noteq> get_range (bv_meta v) d (d + n) then Err (VBde CopiesDisagree) else Ok ())) (\<lambda>_.
       ibind (lift (add64 l 1)) (\<lambda>l.
       copy_loop fuel P disk bs (overwrite scratch 0 blk) agreed (d + n) l))))
     else lift (Ok scratch))"

definition region_bad :: "nat \<Rightarrow> nat \<Rightarrow> nat \<Rightarrow> bool" where
  "region_bad sz bs o' \<longleftrightarrow> (case checked_add o' REGION_SIZE of None \<Rightarrow> True | Some e \<Rightarrow> e > sz) \<or> o' mod bs \<noteq> 0"

definition lba_of :: "partition \<Rightarrow> nat \<Rightarrow> (vol_error, nat) res" where
  "lba_of part o' = rbind (bde_div o' (pt_block_size part)) (\<lambda>q. add64 (pt_first_lba part) q)"

definition open_bitlocker :: "'s platform \<Rightarrow> partition \<Rightarrow> (bde_volume \<times> 's, vol_error, unit) io" where
  "open_bitlocker P part =
    (let bs = pt_block_size part; disk = pt_disk part in
     ibind (lift (ok_or (checked_mul (pt_sectors part) bs) (VBde BMetadataOffset))) (\<lambda>sz.
     let scratch = replicate MAX_BLOCK 0 in
     ibind (lift (ok_or (get_range scratch 0 bs) VDisk)) (\<lambda>blk.
     ibind (on_plat (plat_read P disk (pt_first_lba part) blk)) (\<lambda>first.
     ibind (lift (map_err VBde (parse_volume_header first))) (\<lambda>hdr.
     ibind (lift (rem64 (vh_bytes_per_sector hdr) bs)) (\<lambda>odd.
     if odd \<noteq> 0 then lift (Err (VBde (BSectorSize (vh_bytes_per_sector hdr mod u16_lim)))) else
     if list_ex (region_bad sz bs) (offs3 (vh_metadata_offsets hdr)) then lift (Err (VBde BMetadataOffset)) else
     case vh_metadata_offsets hdr of (m0, m1, m2) \<Rightarrow>
     ibind (lift (lba_of part m0)) (\<lambda>l0.
     ibind (\<lambda>(v, w). on_plat (plat_read P disk l0 (bv_meta v)) (v, w)) (\<lambda>meta.
     ibind (bv_upd (\<lambda>v. v\<lparr>bv_meta := meta\<rparr>)) (\<lambda>_.
     ibind (lift (map_err VBde (parse_block meta 0 hdr))) (\<lambda>b.
     let agreed = length (bb_agreed b) in
     ibind (lift (lba_of part m1)) (\<lambda>l1.
     ibind (copy_loop agreed P disk bs (overwrite scratch 0 first) agreed 0 l1) (\<lambda>scratch.
     ibind (lift (lba_of part m2)) (\<lambda>l2.
     ibind (copy_loop agreed P disk bs scratch agreed 0 l2) (\<lambda>_.
     ibind (bv_upd (\<lambda>v. v\<lparr>bv_hdr := Some hdr\<rparr>)) (\<lambda>_.
     ibind (bv_get (\<lambda>v. map_err VBde (bv_metadata v))) (\<lambda>m.
     ibind (lift (map_err VBde (layout_new hdr m sz))) (\<lambda>l.
     bv_upd (\<lambda>v. v\<lparr>bv_layout := Some l\<rparr>))))))))))))))))))"

definition bv_open :: "'s platform \<Rightarrow> partition \<Rightarrow> volume_kind \<Rightarrow> (bde_volume \<times> 's, vol_error, unit) io" where
  "bv_open P part kind = (\<lambda>(v, w).
    let v = v\<lparr>bv_part := None, bv_hdr := None, bv_layout := None, bv_fvek := None, bv_xts := None\<rparr> in
    case kind of
      VkBitLocker \<Rightarrow> (case open_bitlocker P part (v, w) of
          (Err e, (v, w)) \<Rightarrow> (Err e, (v\<lparr>bv_hdr := None, bv_layout := None\<rparr>, w))
        | (Panic, s) \<Rightarrow> (Panic, s)
        | (Ok _, (v, w)) \<Rightarrow> (Ok (), (v\<lparr>bv_part := Some part\<rparr>, w)))
    | VkNtfs \<Rightarrow> (Ok (), (v\<lparr>bv_part := Some part\<rparr>, w))
    | VkOther \<Rightarrow> (Err VNotAVolume, (v, w)))"

text \<open>Which reader serves the volume: sectors as they are, or the decrypted view.\<close>

datatype vol_reader = RPlain partition | RBde partition bde_layout xts_keys

definition vol_reader_of ::
  "partition option \<Rightarrow> bde_layout option \<Rightarrow> xts_keys option \<Rightarrow> bool \<Rightarrow> (vol_error, vol_reader) res" where
  "vol_reader_of part layout xts bitlocker =
    rbind (ok_or part VNoVolume) (\<lambda>part. case (layout, xts) of
      (Some l, Some x) \<Rightarrow> Ok (RBde part l x)
    | (None, None) \<Rightarrow> if \<not> bitlocker then Ok (RPlain part) else Err (VBde FvekMismatch)
    | _ \<Rightarrow> Err (VBde FvekMismatch))"

text \<open>The plain reader is stage 4's, a parameter.\<close>

definition bv_read_sectors ::
  "(partition \<Rightarrow> nat \<Rightarrow> bytes \<Rightarrow> ('s, platform_error, bytes) io) \<Rightarrow> ciphers \<Rightarrow> 's platform \<Rightarrow> bde_volume \<Rightarrow> nat \<Rightarrow> bytes
     \<Rightarrow> ('s, vol_error, bytes) io" where
  "bv_read_sectors pr A P v sector bf =
    ibind (lift (vol_reader_of (bv_part v) (bv_layout v) (bv_xts v) (bv_hdr v \<noteq> None))) (\<lambda>r. case r of
      RPlain part \<Rightarrow> io_err VPlatform (pr part sector bf)
    | RBde part l x \<Rightarrow> io_err VPlatform (bde_sectors_read A P part l x sector bf))"

section \<open>The methods of the Volume trait\<close>

definition fvek_blob :: "bde_volume \<Rightarrow> bytes \<Rightarrow> (vol_error, nat) res \<times> bytes" where
  "fvek_blob v out =
    (case map_err VBde (bv_metadata v) of
       Err e \<Rightarrow> (Err e, out)
     | Panic \<Rightarrow> (Panic, out)
     | Ok m \<Rightarrow>
         let f = md_fvek m; n = size_of FvekBlobHeader + length (ccm_ciphertext f) in
         if n > length out then (Err VDisk, out)
         else (Ok n, overwrite out 0 (ccm_nonce f @ ccm_tag f @ ccm_ciphertext f)))"

definition bv_clear_key :: "ciphers \<Rightarrow> bde_volume \<Rightarrow> (vol_error, bytes option) res" where
  "bv_clear_key A v = (if bv_hdr v = None then Ok None
     else rbind (map_err VBde (bv_metadata v)) (\<lambda>m. map_err VBde (vmk_from_clear_key A m)))"

definition bv_try_vmk :: "ciphers \<Rightarrow> crypto \<Rightarrow> bytes \<Rightarrow> bde_volume \<Rightarrow> (vol_error, bool) res \<times> bde_volume" where
  "bv_try_vmk A C vmk v = (case try_vmk_inner A C vmk v of (r, v') \<Rightarrow> (map_err VBde r, v'))"

definition bv_recovery_key :: "ciphers \<Rightarrow> crypto \<Rightarrow> bde_volume \<Rightarrow> bytes \<Rightarrow> (vol_error, bytes option) res" where
  "bv_recovery_key A C v key =
    rbind (map_err VBde (bv_metadata v)) (\<lambda>m. map_err VBde (vmk_from_recovery A C m key))"

definition bv_bitlocker_password :: "ciphers \<Rightarrow> crypto \<Rightarrow> bde_volume \<Rightarrow> bytes \<Rightarrow> (vol_error, bytes option) res" where
  "bv_bitlocker_password A C v user = (if bv_hdr v = None then Ok None
     else rbind (map_err VBde (bv_metadata v)) (\<lambda>m. map_err VBde (vmk_from_password_hash A C m user)))"

definition has_bitlocker_password :: "bde_volume \<Rightarrow> bool" where
  "has_bitlocker_password v = (case bv_metadata v of Ok m \<Rightarrow> of_kind m Password \<noteq> [] | _ \<Rightarrow> False)"

end
