(* ===== verification/BdeBootCorrect.thy ===== *)
theory BdeBootCorrect
  imports BdeCorrect BdeParse BdeBoot
begin

text \<open>
  The loader's reader implements the decrypted view: \<open>view_unit\<close> is the plaintext of one unit, \<open>view_sector\<close>
  of one 512-byte sector, and the reader returns exactly these, over any device that returns its content or
  fails.  A volume key is only accepted after the metadata was authenticated under the master key.
\<close>

section \<open>Devices\<close>

text \<open>
  \<open>serves ok r b\<close>: the result is \<open>b\<close>, or, unless \<open>ok\<close>, a device failure; never a panic, never other bytes.
\<close>

definition serves :: "bool \<Rightarrow> (read_error, 'a) res \<Rightarrow> 'a \<Rightarrow> bool" where
  "serves ok r b = (case r of Ok x \<Rightarrow> x = b | Err e \<Rightarrow> e = RIo \<and> \<not> ok | Panic \<Rightarrow> False)"

lemma serves_simps [simp]: "serves ok (Ok x) b \<longleftrightarrow> x = b" "serves ok (Err e) b \<longleftrightarrow> e = RIo \<and> \<not> ok" "\<not> serves ok Panic b"
  by (auto simp: serves_def)

lemma serves_lift [simp]: "serves ok (fst (lift r s)) b = serves ok r b"
  by (simp add: lift_def)

lemma serves_ibind:
  assumes "serves ok (fst (m s)) x" "\<And>s'. serves ok (fst (k x s')) y"
  shows "serves ok (fst (ibind m k s)) y"
  using assms by (cases "m s"; cases "fst (m s)") (auto simp: ibind_def)

text \<open>
  A device of \<open>units\<close> units of \<open>bps\<close> bytes with content \<open>D\<close>; with \<open>ok\<close> it never fails.
\<close>

definition dev_serves :: "bool \<Rightarrow> 's unit_read \<Rightarrow> (nat \<Rightarrow> bytes) \<Rightarrow> nat \<Rightarrow> nat \<Rightarrow> bool" where
  "dev_serves ok dev D bps units \<longleftrightarrow> (\<forall>u. length (D u) = bps)
     \<and> (\<forall>u n bf s. length bf = n * bps \<longrightarrow> u + n \<le> units \<longrightarrow> serves ok (fst (dev u bf s)) (concat (map D [u..<u + n])))"

section \<open>Decryption of whole units\<close>

definition plain_unit :: "ciphers \<Rightarrow> xts_keys \<Rightarrow> nat \<Rightarrow> bytes \<Rightarrow> bytes" where
  "plain_unit A x p d = (case xts_decrypt A x p d of Ok b \<Rightarrow> b | _ \<Rightarrow> [])"

definition view_unit :: "ciphers \<Rightarrow> xts_keys \<Rightarrow> bde_layout \<Rightarrow> (nat \<Rightarrow> bytes) \<Rightarrow> nat \<Rightarrow> bytes" where
  "view_unit A x l D u = (case unit_source l u of
      SZero \<Rightarrow> replicate (bl_bytes_per_sector l) 0
    | SDisk p e \<Rightarrow> if e then plain_unit A x p (D p) else D p)"

lemma xts_decrypt_total:
  assumes "aes_ok A" "length d = 16 * n" "0 < n"
  shows "xts_decrypt A k u d = Ok (plain_unit A k u d) \<and> length (plain_unit A k u d) = length d"
proof -
  define bs where "bs = chunks_exact 16 d"
  have L: "length (chunks_exact 16 e) = length e div 16" for e :: bytes
    by (induction "16 :: nat" e rule: chunks_exact.induct) (subst chunks_exact.simps, auto simp: div_eq_0_iff le_div_geq)
  have b: "list_all (\<lambda>b. length b = 16) bs" "length bs = n" "concat bs = d"
    using chunks_all [of 16 d] chunks_back [of 16 d] assms(2) L [of d] by (simp_all add: bs_def)
  have ok: "xts_blocks d = Ok bs" using b assms(3) by (auto simp: xts_blocks_Ok)
  let ?x = "xor_tweaks (first_tweak A k u) bs"
  let ?r = "concat (xor_tweaks (first_tweak A k u) (map (aes_dec A (xts_k1 k)) ?x))"
  have r: "xts_decrypt A k u d = Ok ?r" by (simp add: xts_decrypt_def ok Let_def)
  have "length ?r = 16 * n"
    using b by (subst length_blocks [of 16]) (auto intro!: xor_tweaks_blocks aes_blocks(2) [OF assms(1)])
  then show ?thesis using r assms(2) by (simp add: plain_unit_def)
qed

lemma decrypt_units_map:
  assumes "aes_ok A" "\<And>u. length (D u) = 16 * n" "0 < n"
  shows "decrypt_units A x p (map D [p..<p + k]) = Ok (map (\<lambda>q. plain_unit A x q (D q)) [p..<p + k])"
proof (induction k arbitrary: p)
  case (Suc k)
  have "[p..<p + Suc k] = p # [p + 1..<p + 1 + k]" by (simp add: upt_conv_Cons)
  with Suc [of "p + 1"] xts_decrypt_total [OF assms(1) assms(2) [of p] assms(3), of x p] show ?case by simp
qed simp

section \<open>Runs\<close>

lemma layout_sizes:
  assumes "layout_inv l"
  obtains m where "bl_bytes_per_sector l = 16 * m" "0 < m"
  using layout_invD(1) [OF assms] by (elim disjE) (simp add: that [of 32], simp add: that [of 256])

lemma length_view_unit:
  assumes "layout_inv l" "aes_ok A" "\<And>u. length (D u) = bl_bytes_per_sector l"
  shows "length (view_unit A x l D u) = bl_bytes_per_sector l"
proof -
  obtain m where "bl_bytes_per_sector l = 16 * m" "0 < m" using layout_sizes [OF assms(1)] .
  then show ?thesis using assms(3) xts_decrypt_total [OF assms(2), of "D _" m]
    by (auto simp: view_unit_def split: source.split)
qed

lemma read_chunk_serves:
  assumes inv: "layout_inv l" and A: "aes_ok A" and dev: "dev_serves ok dev D (bl_bytes_per_sector l) (units_of l)"
    and u: "u + k \<le> units_of l" "0 < k" and run: "\<forall>i<k. unit_source l (u + i) = advance src i"
    and len: "length ch = k * bl_bytes_per_sector l"
  shows "serves ok (fst (read_chunk A dev x (bl_bytes_per_sector l) src ch s)) (concat (map (view_unit A x l D) [u..<u + k]))"
proof -
  let ?b = "bl_bytes_per_sector l"
  obtain m where m: "?b = 16 * m" "0 < m" using layout_sizes [OF inv] .
  have D: "length (D v) = ?b" for v using dev by (simp add: dev_serves_def)
  have shift: "map (view_unit A x l D) [u..<u + k] = map (\<lambda>i. view_unit A x l D (u + i)) [0..<k]"
    by (simp add: map_add_upt [symmetric] comp_def add.commute)
  show ?thesis
  proof (cases src)
    case SZero
    have "map (view_unit A x l D) [u..<u + k] = map (\<lambda>i. replicate ?b 0) [0..<k]"
      unfolding shift using run SZero by (simp add: view_unit_def)
    moreover have "concat (map (\<lambda>i. replicate ?b 0) [0..<k]) = replicate (k * ?b) (0 :: byte)"
      by (induction k) (simp_all add: replicate_add [symmetric] add.commute)
    ultimately show ?thesis by (simp add: read_chunk_def SZero len)
  next
    case (SDisk p e)
    have "unit_source l (u + (k - 1)) = SDisk (p + (k - 1)) e" using spec [OF run, of "k - 1"] u(2) by (simp add: SDisk)
    moreover have "u + (k - 1) < units_of l" using u by linarith
    ultimately have "p + (k - 1) < units_of l" using unit_source_disk [OF inv] by blast
    then have "p + k \<le> units_of l" by linarith
    then have R: "serves ok (fst (dev p ch s')) (concat (map D [p..<p + k]))" for s'
      using dev len by (simp add: dev_serves_def)
    have v: "map (view_unit A x l D) [u..<u + k] = map (\<lambda>q. if e then plain_unit A x q (D q) else D q) [p..<p + k]"
      unfolding shift using run SDisk
      by (simp add: view_unit_def map_add_upt [symmetric] comp_def add.commute cong: map_cong)
    have C: "chunks_exact ?b (concat (map D [p..<p + k])) = map D [p..<p + k]"
      using D m by (intro xts_chunks_concat) (auto simp: list_all_iff)
    have L: "length (concat (map D [p..<p + k])) = ?b * k"
      using D length_blocks [of ?b "map D [p..<p + k]"] by (simp add: list_all_iff)
    show ?thesis
      unfolding read_chunk_def SDisk source.case v
      by (rule serves_ibind [where x = "concat (map D [p..<p + k])"], rule R)
        (use C L decrypt_units_map [OF A, of D m x p k] D m in \<open>simp add: ac_simps\<close>)
  qed
qed


lemma units_of_small: "units_of l \<le> bl_volume_size l"
  by (simp add: units_of_def)

lemma read_loop_serves:
  assumes inv: "layout_inv l" and A: "aes_ok A" and dev: "dev_serves ok dev D (bl_bytes_per_sector l) (units_of l)"
  shows "length rst = n * bl_bytes_per_sector l \<Longrightarrow> u + n \<le> units_of l
    \<Longrightarrow> serves ok (fst (read_loop A dev l x (bl_bytes_per_sector l) u rst s)) (concat (map (view_unit A x l D) [u..<u + n]))"
proof (induction n arbitrary: u rst s rule: less_induct)
  case (less n)
  let ?b = "bl_bytes_per_sector l" and ?V = "\<lambda>i j. concat (map (view_unit A x l D) [i..<j])"
  have b: "0 < ?b" using layout_invD(2) [OF inv] .
  show ?case
  proof (cases "n = 0")
    case True
    with less.prems show ?thesis by (subst read_loop.simps) simp
  next
    case False
    obtain r where r: "layout_map l u = Ok r" "map_post l u r" using layout_map_post [OF inv] by blast
    then obtain src run where m: "layout_map l u = Ok (Some (src, run))" "0 < run" "u + run \<le> units_of l"
      "\<forall>k<run. unit_source l (u + k) = advance src k"
      using less.prems False by (cases r) (auto simp: map_post_def)
    define k where "k = max 1 (min run n)"
    have k: "0 < k" "k \<le> n" "k \<le> run" using False m(2) by (auto simp: k_def)
    let ?ch = "take (k * ?b) rst" and ?tl = "drop (k * ?b) rst"
    have kb: "k * ?b \<le> length rst" using k less.prems by simp
    have C: "serves ok (fst (read_chunk A dev x ?b src ?ch s')) (?V u (u + k))" for s'
      using m k kb less.prems by (intro read_chunk_serves [OF inv A dev]) auto
    have T: "serves ok (fst (read_loop A dev l x ?b (u + k) ?tl s')) (?V (u + k) (u + n))" for s'
      using less.IH [of "n - k" ?tl "u + k" s'] k False less.prems by (simp add: diff_mult_distrib)
    have u64: "u + k < u64_lim"
      using k less.prems(2) layout_invD(3) [OF inv] units_of_small [of l] by linarith
    have V: "?V u (u + n) = ?V u (u + k) @ ?V (u + k) (u + n)"
      using k upt_add_eq_append [of u "u + k" "n - k"] by simp
    have "rst \<noteq> []" "length rst div ?b = n" using False less.prems b by auto
    then show ?thesis
      unfolding V
      by (subst read_loop.simps, simp only: if_False)
        (rule serves_ibind [where x = "(src, run)"], simp add: m,
         rule serves_ibind [where x = k], use False in \<open>simp add: clamp_def k_def\<close>,
         rule serves_ibind [where x = "(?ch, ?tl)"], use kb in \<open>simp add: split_at_def\<close>,
         rule serves_ibind [where x = "?V u (u + k)"], simp add: C,
         rule serves_ibind [where x = "u + k"], use u64 in \<open>simp add: add64_def\<close>,
         rule serves_ibind [where x = "?V (u + k) (u + n)"], simp add: T, simp)
  qed
qed


section \<open>The reader\<close>

text \<open>The reader's invariant: a cached unit is that unit of the view.\<close>

definition reader_ok :: "ciphers \<Rightarrow> (nat \<Rightarrow> bytes) \<Rightarrow> bde_layout \<Rightarrow> xts_keys \<Rightarrow> dreader \<Rightarrow> bool" where
  "reader_ok A D l x r \<longleftrightarrow> dr_layout r = Some l \<and> dr_xts r = Some x \<and> dr_bps r = bl_bytes_per_sector l
     \<and> dr_units r = units_of l \<and> length (dr_cache r) = MAX_UNIT
     \<and> (case dr_cached r of None \<Rightarrow> True
        | Some u \<Rightarrow> u < units_of l \<and> take (bl_bytes_per_sector l) (dr_cache r) = view_unit A x l D u)"

lemma dr_new_ok: "dr_new l x = Ok r \<Longrightarrow> reader_ok A D l x r"
  by (auto simp: dr_new_def layout_units_def bde_div_def reader_ok_def units_of_def split: if_splits)

lemma dr_read_serves:
  assumes inv: "layout_inv l" and A: "aes_ok A" and dev: "dev_serves ok dev D (bl_bytes_per_sector l) (units_of l)"
    and r: "reader_ok A D l x r" and n: "length bf = n * bl_bytes_per_sector l" "u + n \<le> units_of l"
  shows "serves ok (fst (dr_read A dev r u bf s)) (concat (map (view_unit A x l D) [u..<u + n]))"
proof -
  have b: "0 < bl_bytes_per_sector l" using layout_invD(2) [OF inv] .
  have "u + n < u64_lim" using n(2) layout_invD(3) [OF inv] units_of_small [of l] by linarith
  then have "dr_read A dev r u bf s = read_loop A dev l x (bl_bytes_per_sector l) u bf s"
    using r n b by (simp add: dr_read_def reader_ok_def Let_def checked_add_def)
  then show ?thesis using read_loop_serves [OF inv A dev n] by simp
qed

section \<open>Sectors\<close>

definition view_sector :: "ciphers \<Rightarrow> xts_keys \<Rightarrow> bde_layout \<Rightarrow> (nat \<Rightarrow> bytes) \<Rightarrow> nat \<Rightarrow> bytes" where
  "view_sector A x l D s = (let per = bl_bytes_per_sector l div SECTOR in
     take SECTOR (drop (s mod per * SECTOR) (view_unit A x l D (s div per))))"

lemma unit_is_sectors:
  assumes v: "length v = per * SECTOR" and w: "w + n \<le> per"
  shows "concat (map (\<lambda>i. take SECTOR (drop (i * SECTOR) v)) [w..<w + n]) = take (n * SECTOR) (drop (w * SECTOR) v)"
  using w
proof (induction n)
  case (Suc n)
  have "take (SECTOR + n * SECTOR) (drop (w * SECTOR) v)
      = take (n * SECTOR) (drop (w * SECTOR) v) @ take SECTOR (drop (n * SECTOR) (drop (w * SECTOR) v))"
    by (simp add: take_add add.commute [of SECTOR])
  with Suc show ?case by (simp add: algebra_simps)
qed simp


text \<open>The triple of the sector reader: an error leaves an intact reader behind.\<close>

definition wps :: "bool \<Rightarrow> ('a \<Rightarrow> bool) \<Rightarrow> ('a, read_error, 'b) io \<Rightarrow> 'a \<Rightarrow> ('b \<Rightarrow> 'a \<Rightarrow> bool) \<Rightarrow> bool" where
  "wps ok I m a Q = (case fst (m a) of Ok y \<Rightarrow> Q y (snd (m a)) | Err e \<Rightarrow> e = RIo \<and> \<not> ok \<and> I (snd (m a)) | Panic \<Rightarrow> False)"

lemma wps_ibind [simp]: "wps ok I (ibind m k) a Q = wps ok I m a (\<lambda>y a'. wps ok I (k y) a' Q)"
  by (auto simp: wps_def ibind_def split: prod.split res.split)

lemma wps_lift_Ok [simp]: "wps ok I (lift (Ok y)) a Q = Q y a"
  by (simp add: wps_def lift_def)

lemma wps_upd [simp]: "wps ok I (dr_upd f) (r, w) Q = Q () (f r, w)"
  by (simp add: wps_def dr_upd_def)

lemma ibind_lift_Ok: "ibind (lift (Ok y)) k = k y"
  by (simp add: ibind_def lift_def)

lemma wps_pair_lift [simp]: "wps ok I (\<lambda>(r, w). lift (f r) (r, w)) (r, w) Q = wps ok I (lift (f r)) (r, w) Q"
  by (simp only: wps_def case_prod_conv)

lemma wps_pair_dev [simp]: "wps ok I (\<lambda>(r, w). on_dev (f r) (r, w)) (r, w) Q = wps ok I (on_dev (f r)) (r, w) Q"
  by (simp only: wps_def case_prod_conv)

lemma wps_on_dev:
  assumes "serves ok (fst (m w)) v" "\<And>w'. I (r, w')" "\<And>w'. Q v (r, w')"
  shows "wps ok I (on_dev m) (r, w) Q"
  using assms by (cases "m w"; cases "fst (m w)") (auto simp: wps_def on_dev_def)

lemma wps_step: "m a = m' a \<Longrightarrow> wps ok I m' a Q \<Longrightarrow> wps ok I m a Q"
  by (simp only: wps_def)

lemma wps_conseq: "wps ok I m a Q \<Longrightarrow> (\<And>y a. Q y a \<Longrightarrow> R y a) \<Longrightarrow> wps ok I m a R"
  by (auto simp: wps_def split: res.splits)

text \<open>The parameters a read is about, and what they have to satisfy.\<close>

lemma view_sectors_units:
  assumes inv: "layout_inv l" and A: "aes_ok A" and D: "\<And>u. length (D u) = bl_bytes_per_sector l"
    and per: "per = bl_bytes_per_sector l div SECTOR"
  shows "0 < per" "bl_bytes_per_sector l = per * SECTOR"
    "w + n \<le> per \<Longrightarrow> concat (map (view_sector A x l D) [q * per + w..<q * per + w + n])
       = take (n * SECTOR) (drop (w * SECTOR) (view_unit A x l D q))"
    "concat (map (view_sector A x l D) [q * per..<(q + m) * per]) = concat (map (view_unit A x l D) [q..<q + m])"
proof -
  show p: "0 < per" "bl_bytes_per_sector l = per * SECTOR"
    using layout_invD(1) [OF inv] by (auto simp: per Disk.SECTOR_def)
  show W: "concat (map (view_sector A x l D) [q * per + w..<q * per + w + n])
       = take (n * SECTOR) (drop (w * SECTOR) (view_unit A x l D q))" if "w + n \<le> per" for q w n
  proof -
    have "map (view_sector A x l D) [q * per + w..<q * per + w + n]
        = map (\<lambda>i. take SECTOR (drop (i * SECTOR) (view_unit A x l D q))) [w..<w + n]"
    proof -
      have "[q * per + w..<q * per + w + n] = map (\<lambda>i. q * per + i) [w..<w + n]"
        by (simp add: list_eq_iff_nth_eq)
      moreover have "view_sector A x l D (q * per + i) = take SECTOR (drop (i * SECTOR) (view_unit A x l D q))"
        if "i < per" for i
        using that p(1) by (simp add: view_sector_def Let_def per [symmetric])
      ultimately show ?thesis using that by simp
    qed
    then show ?thesis
      using unit_is_sectors [OF _ that, of "view_unit A x l D q"] length_view_unit [OF inv A D] p(2) by simp
  qed
  show "concat (map (view_sector A x l D) [q * per..<(q + m) * per]) = concat (map (view_unit A x l D) [q..<q + m])"
  proof (induction m)
    case (Suc m)
    have "[q * per..<(q + Suc m) * per] = [q * per..<(q + m) * per] @ [(q + m) * per..<(q + m) * per + per]"
      using upt_add_eq_append [of "q * per" "(q + m) * per" per] by (simp add: algebra_simps)
    with Suc W [of 0 per "q + m"] length_view_unit [OF inv A D, where u = "q + m"] p(2) show ?case by simp
  qed simp
qed


lemma fill_cache_wps:
  assumes inv: "layout_inv l" and A: "aes_ok A" and dev: "dev_serves ok dev D (bl_bytes_per_sector l) (units_of l)"
    and r: "reader_ok A D l x r" and q: "q < units_of l"
  shows "wps ok (\<lambda>(r, w). reader_ok A D l x r) (fill_cache A dev q) (r, w)
    (\<lambda>_ (r', w'). reader_ok A D l x r' \<and> dr_cached r' = Some q)"
proof (cases "dr_cached r = Some q")
  case True
  then show ?thesis using r by (simp add: wps_def fill_cache_def)
next
  case False
  let ?b = "bl_bytes_per_sector l"
  have D: "length (D v) = ?b" for v using dev by (simp add: dev_serves_def)
  have b: "?b \<le> MAX_UNIT" using layout_invD(1) [OF inv] by (auto simp: MAX_UNIT_def)
  have L: "length (dr_cache r) = MAX_UNIT" "dr_bps r = ?b" using r by (simp_all add: reader_ok_def)
  let ?c = "take ?b (dr_cache r)"
  have S: "serves ok (fst (dr_read A dev r q ?c w')) (view_unit A x l D q)" for w'
    using dr_read_serves [OF inv A dev r, of ?c 1 q w'] q b L by simp
  have eq: "fill_cache A dev q (r, w) =
      ibind (dr_upd (\<lambda>r. r\<lparr>dr_cached := None\<rparr>)) (\<lambda>_.
      ibind (lift (Ok ?c)) (\<lambda>c.
      ibind (on_dev (dr_read A dev r q c)) (\<lambda>b.
      dr_upd (\<lambda>r. r\<lparr>dr_cache := overwrite (dr_cache r) 0 b, dr_cached := Some q\<rparr>)))) (r, w)"
    using False b L by (simp add: fill_cache_def get_range_def)
  have W: "wps ok (\<lambda>(r, w). reader_ok A D l x r) (ibind (dr_upd (\<lambda>r. r\<lparr>dr_cached := None\<rparr>)) (\<lambda>_.
      ibind (lift (Ok ?c)) (\<lambda>c.
      ibind (on_dev (dr_read A dev r q c)) (\<lambda>b.
      dr_upd (\<lambda>r. r\<lparr>dr_cache := overwrite (dr_cache r) 0 b, dr_cached := Some q\<rparr>))))) (r, w)
    (\<lambda>_ (r', w'). reader_ok A D l x r' \<and> dr_cached r' = Some q)"
    using r q b L length_view_unit [OF inv A D, where u = q]
    by (simp, intro wps_on_dev [OF S]) (auto simp: reader_ok_def overwrite_def)
  show ?thesis using W unfolding wps_def eq .
qed


definition sectors_done :: "ciphers \<Rightarrow> (nat \<Rightarrow> bytes) \<Rightarrow> bde_layout \<Rightarrow> xts_keys \<Rightarrow> nat \<Rightarrow> nat \<Rightarrow> nat \<Rightarrow> bytes \<Rightarrow> bool" where
  "sectors_done A D l x sector n d bf \<longleftrightarrow> length bf = n * SECTOR \<and> d \<le> n
     \<and> take (d * SECTOR) bf = concat (map (view_sector A x l D) [sector..<sector + d])"

lemma sectors_done_more:
  assumes "sectors_done A D l x sector n d bf" "d + k \<le> n"
    "b = concat (map (view_sector A x l D) [sector + d..<sector + d + k])" "length b = k * SECTOR"
  shows "sectors_done A D l x sector n (d + k) (overwrite bf (d * SECTOR) b)"
proof -
  have le: "d * SECTOR + k * SECTOR \<le> length bf"
    using assms(1,2) mult_le_mono1 [OF assms(2), of SECTOR] by (simp add: sectors_done_def add_mult_distrib)
  have "[sector..<sector + (d + k)] = [sector..<sector + d] @ [sector + d..<sector + d + k]"
    using upt_add_eq_append [of sector "sector + d" k] by (simp add: add.assoc)
  moreover have "length (concat (map (view_sector A x l D) [sector..<sector + d])) = d * SECTOR"
    using arg_cong [of _ _ length, OF assms(1) [unfolded sectors_done_def, THEN conjunct2, THEN conjunct2]] le by simp
  ultimately show ?thesis using assms le by (simp add: sectors_done_def overwrite_def add_mult_distrib)
qed

lemma sector_step_wps:
  assumes inv: "layout_inv l" and A: "aes_ok A" and dev: "dev_serves ok dev D (bl_bytes_per_sector l) (units_of l)"
    and per: "per = bl_bytes_per_sector l div SECTOR" and r: "reader_ok A D l x r"
    and n: "d < n" "sector + n \<le> units_of l * per" and bf: "sectors_done A D l x sector n d bf"
  shows "wps ok (\<lambda>(r, w). reader_ok A D l x r) (sector_step A dev per sector n d bf) (r, w)
    (\<lambda>(d', bf') (r', w'). d < d' \<and> sectors_done A D l x sector n d' bf' \<and> reader_ok A D l x r')"
proof -
  have D: "length (D v) = bl_bytes_per_sector l" for v using dev by (simp add: dev_serves_def)
  note V = view_sectors_units [OF inv A D per]
  let ?s = "sector + d"
  have vol: "units_of l * per * SECTOR < u64_lim"
    using layout_invD(3,4) [OF inv] by (simp add: units_of_def V(2) mult.assoc)
  have "units_of l * per \<le> units_of l * per * SECTOR" by (simp add: Disk.SECTOR_def)
  with n vol have b1: "?s < u64_lim" by linarith
  have "n * SECTOR \<le> units_of l * per * SECTOR" using n(2) by (intro mult_le_mono1) simp
  with vol have b2: "n * SECTOR < u64_lim" by linarith
  have dn: "d * SECTOR \<le> n * SECTOR" using n(1) by (intro mult_le_mono1) simp
  have L: "length bf = n * SECTOR" using bf by (simp add: sectors_done_def)
  have q: "?s div per < units_of l" using n V(1) by (simp add: div_less_iff_less_mult)
  define i where "i = ?s mod per"
  have s: "?s = ?s div per * per + i" by (simp add: i_def)
  have ev: "add64 sector d = (Ok ?s :: (read_error, nat) res)" "mul64 d SECTOR = (Ok (d * SECTOR) :: (read_error, nat) res)"
    "sub64 n d = (Ok (n - d) :: (read_error, nat) res)" "rem64 ?s per = (Ok i :: (read_error, nat) res)"
    using b1 le_less_trans [OF dn b2] n(1) V(1) by (simp_all add: rem64_def i_def)
  show ?thesis
  proof (cases "i = 0 \<and> per \<le> n - d")
    case True
    define k where "k = (n - d) div per"
    have "k * per \<le> n - d" unfolding k_def by (rule div_times_less_eq_dividend)
    moreover have "0 < k" using True V(1) by (simp add: k_def div_greater_zero_iff)
    ultimately have k: "d + k * per \<le> n" "0 < k" using n(1) by simp_all
    have kn: "d * SECTOR + k * per * SECTOR \<le> n * SECTOR"
      using mult_le_mono1 [OF k(1), of SECTOR] by (simp add: add_mult_distrib)
    have "(?s div per + k) * per \<le> units_of l * per" using s True k(1) n(2) by (simp add: add_mult_distrib)
    then have "?s div per + k \<le> units_of l" using V(1) by simp
    then have S: "serves ok (fst (dr_read A dev r (?s div per) (take (k * per * SECTOR) (drop (d * SECTOR) bf)) w'))
        (concat (map (view_unit A x l D) [?s div per..<?s div per + k]))" for w'
      using L kn by (intro dr_read_serves [OF inv A dev r]) (simp_all add: V(2))
    have U: "concat (map (view_unit A x l D) [?s div per..<?s div per + k])
        = concat (map (view_sector A x l D) [?s..<?s + k * per])"
      using V(4) [where x = x and q = "?s div per" and m = k] s True by (simp add: add_mult_distrib)
    have lenU: "length (concat (map (view_unit A x l D) [?s div per..<?s div per + k])) = k * per * SECTOR"
      using length_view_unit [OF inv A D] by (subst length_blocks [of "per * SECTOR"]) (auto simp: list_all_iff V(2))
    have G: "get_range bf (d * SECTOR) (d * SECTOR + k * per * SECTOR) = Some (take (k * per * SECTOR) (drop (d * SECTOR) bf))"
      using L kn by (simp add: get_range_def)
    have "sectors_done A D l x sector n (d + k * per) (overwrite bf (d * SECTOR) (concat (map (view_unit A x l D) [?s div per..<?s div per + k])))"
      using sectors_done_more [OF bf k(1)] U lenU by simp
    moreover have "d < d + k * per" using k V(1) by simp
    moreover have E: "mul64 (k * per) SECTOR = (Ok (k * per * SECTOR) :: (read_error, nat) res)"
      "add64 (d * SECTOR) (k * per * SECTOR) = (Ok (d * SECTOR + k * per * SECTOR) :: (read_error, nat) res)"
      using kn b2 by simp_all
    ultimately show ?thesis
      using True r
      by (simp add: sector_step_def ev E k_def [symmetric] G) (rule wps_on_dev [OF S], simp_all)
  next
    case False
    define k where "k = min (per - i) (n - d)"
    have il: "i < per" using V(1) by (simp add: i_def)
    then have k: "0 < k" "i + k \<le> per" "d + k \<le> n" using n(1) by (simp_all add: k_def)
    let ?b = "take (k * SECTOR) (drop (i * SECTOR) (view_unit A x l D (?s div per)))"
    have ip: "(i + k) * SECTOR \<le> per * SECTOR" using k(2) by (rule mult_le_mono1)
    have lv: "length (view_unit A x l D (?s div per)) = per * SECTOR" using length_view_unit [OF inv A D] V(2) by simp
    have lb: "length ?b = k * SECTOR" using ip by (simp add: lv add_mult_distrib)
    have U: "?b = concat (map (view_sector A x l D) [?s..<?s + k])" using V(3) [OF k(2), where x = x and q = "?s div per"] s by simp
    have S: "sectors_done A D l x sector n (d + k) (overwrite bf (d * SECTOR) ?b)"
      using sectors_done_more [OF bf k(3) U lb] .
    have kn: "d * SECTOR + k * SECTOR \<le> n * SECTOR"
      using mult_le_mono1 [OF k(3), of SECTOR] by (simp add: add_mult_distrib)
    have C: "get_range (dr_cache r') (i * SECTOR) ((i + k) * SECTOR) = Some ?b"
      if "reader_ok A D l x r'" "dr_cached r' = Some (?s div per)" for r'
    proof -
      have c: "length (dr_cache r') = MAX_UNIT" "take (per * SECTOR) (dr_cache r') = view_unit A x l D (?s div per)"
        using that by (simp_all add: reader_ok_def V(2))
      have "per * SECTOR \<le> MAX_UNIT" using lv c by (metis length_take min.cobounded1)
      then show ?thesis using ip c(1) by (simp add: get_range_def c(2) [symmetric] drop_take add_mult_distrib)
    qed
    note R = fill_cache_wps [OF inv A dev r q, of w]
    have "get_range bf (d * SECTOR) (d * SECTOR + k * SECTOR) \<noteq> None" using L kn by (simp add: get_range_def)
    then obtain dst where dst: "get_range bf (d * SECTOR) (d * SECTOR + k * SECTOR) = Some dst" by blast
    let ?tail = "ibind (fill_cache A dev (?s div per)) (\<lambda>_.
      ibind (\<lambda>(r, w). lift (ok_or (get_range (dr_cache r) (i * SECTOR) ((i + k) * SECTOR)) RRange) (r, w)) (\<lambda>src.
      ibind (lift (ok_or (get_range bf (d * SECTOR) (d * SECTOR + length src)) RRange)) (\<lambda>_.
      lift (Ok (d + k, overwrite bf (d * SECTOR) src)))))"
    have "sector_step A dev per sector n d bf = ?tail"
      by (simp only: sector_step_def ev ibind_lift_Ok if_not_P [OF False] Let_def k_def)
    moreover have "wps ok (\<lambda>(r, w). reader_ok A D l x r) ?tail (r, w)
      (\<lambda>(d', bf') (r', w'). d < d' \<and> sectors_done A D l x sector n d' bf' \<and> reader_ok A D l x r')"
      unfolding wps_ibind by (rule wps_conseq [OF R]) (use C lb k(1) S dst in \<open>clarsimp simp: case_prod_beta\<close>)
    ultimately show ?thesis by simp
  qed
qed

lemma sector_loop_wps:
  assumes inv: "layout_inv l" and A: "aes_ok A" and dev: "dev_serves ok dev D (bl_bytes_per_sector l) (units_of l)"
    and per: "per = bl_bytes_per_sector l div SECTOR" and n: "sector + n \<le> units_of l * per"
  shows "reader_ok A D l x r \<Longrightarrow> sectors_done A D l x sector n d bf \<Longrightarrow> n - d \<le> fuel
    \<Longrightarrow> wps ok (\<lambda>(r, w). reader_ok A D l x r) (dr_sector_loop fuel A dev per sector n d bf) (r, w)
      (\<lambda>bf' (r', w'). sectors_done A D l x sector n n bf' \<and> reader_ok A D l x r')"
proof (induction fuel arbitrary: r w d bf)
  case (Suc fuel)
  show ?case
  proof (cases "d < n")
    case True
    then show ?thesis
      by simp (rule wps_conseq [OF sector_step_wps [OF inv A dev per Suc.prems(1) True n Suc.prems(2)]],
        use Suc.IH Suc.prems(3) in fastforce)
  qed (use Suc.prems in \<open>auto simp: sectors_done_def\<close>)
qed (auto simp: sectors_done_def)

lemma read_sectors_wps:
  assumes inv: "layout_inv l" and A: "aes_ok A" and r: "reader_ok A D l x r"
    and dev: "dev_serves ok dev D (bl_bytes_per_sector l) (units_of l)"
    and bf: "length bf = n * SECTOR" and n: "sector + n \<le> units_of l * (bl_bytes_per_sector l div SECTOR)"
  shows "wps ok (\<lambda>(r, w). reader_ok A D l x r) (read_sectors A dev sector bf) (r, w)
    (\<lambda>b (r', w'). b = concat (map (view_sector A x l D) [sector..<sector + n]) \<and> reader_ok A D l x r')"
proof -
  let ?b = "bl_bytes_per_sector l" and ?per = "bl_bytes_per_sector l div SECTOR"
  have D: "length (D v) = ?b" for v using dev by (simp add: dev_serves_def)
  note V = view_sectors_units [OF inv A D refl]
  have rb: "dr_bps r = ?b" "dr_units r = units_of l" using r by (simp_all add: reader_ok_def)
  have S: "0 < SECTOR" by (simp add: Disk.SECTOR_def)
  show ?thesis
  proof (cases "?b = SECTOR")
    case True
    then have one: "?per = 1" using S by simp
    have "read_sectors A dev sector bf (r, w) = on_dev (dr_read A dev r sector bf) (r, w)"
      using rb True bf S by (simp add: read_sectors_def BOOT_SECTOR_LEN_def)
    moreover have "serves ok (fst (dr_read A dev r sector bf w)) (concat (map (view_sector A x l D) [sector..<sector + n]))"
      using dr_read_serves [OF inv A dev r, of bf n sector w] bf n True one V(4) [where x = x and q = sector and m = n] by simp
    ultimately show ?thesis using r by (auto intro!: wps_on_dev elim!: wps_step)
  next
    case False
    have "units_of l * ?per \<le> bl_volume_size l"
      using V(2) layout_invD(4) [OF inv] S by (metis div_le_dividend div_mult_self1_is_m div_mult_swap
          layout_invD(2) [OF inv] mult.commute units_of_def dvd_div_mult_self mult.assoc)
    then have lim: "units_of l * ?per < u64_lim" using layout_invD(3) [OF inv] by linarith
    have "read_sectors A dev sector bf (r, w) = dr_sector_loop n A dev ?per sector n 0 bf (r, w)"
      using rb False bf S n lim
      by (simp add: read_sectors_def BOOT_SECTOR_LEN_def Let_def checked_add_def saturating_mul_def)
    moreover have "sectors_done A D l x sector n 0 bf" using bf by (simp add: sectors_done_def)
    then have "wps ok (\<lambda>(r, w). reader_ok A D l x r) (dr_sector_loop n A dev ?per sector n 0 bf) (r, w)
      (\<lambda>bf' (r', w'). sectors_done A D l x sector n n bf' \<and> reader_ok A D l x r')"
      using sector_loop_wps [OF inv A dev refl n r] by simp
    then have "wps ok (\<lambda>(r, w). reader_ok A D l x r) (dr_sector_loop n A dev ?per sector n 0 bf) (r, w)
      (\<lambda>b (r', w'). b = concat (map (view_sector A x l D) [sector..<sector + n]) \<and> reader_ok A D l x r')"
      by (rule wps_conseq) (auto simp: sectors_done_def)
    ultimately show ?thesis by (rule wps_step)
  qed
qed

section \<open>The partition\<close>

text \<open>
  A platform that serves the blocks \<open>B\<close> of a partition; with \<open>ok\<close> it never fails.
\<close>

definition plat_serves :: "bool \<Rightarrow> 's platform \<Rightarrow> partition \<Rightarrow> (nat \<Rightarrow> bytes) \<Rightarrow> bool" where
  "plat_serves ok P part B \<longleftrightarrow> (\<forall>i. length (B i) = pt_block_size part)
     \<and> (\<forall>i n b w. length b = n * pt_block_size part \<longrightarrow> i + n \<le> pt_sectors part \<longrightarrow>
          (case p_read_blocks P (pt_disk part) (pt_first_lba part + i) b w of
             (Inr _, x, _) \<Rightarrow> x = concat (map B [i..<i + n]) | (Inl _, _, _) \<Rightarrow> \<not> ok))"

definition unit_content :: "nat \<Rightarrow> (nat \<Rightarrow> bytes) \<Rightarrow> nat \<Rightarrow> bytes" where
  "unit_content per B u = concat (map B [u * per..<(u + 1) * per])"

lemma units_are_blocks: "concat (map (unit_content per B) [u..<u + n]) = concat (map B [u * per..<(u + n) * per])"
proof (induction n)
  case (Suc n)
  have "[u * per..<(u + Suc n) * per] = [u * per..<(u + n) * per] @ [(u + n) * per..<(u + n + 1) * per]"
    using upt_add_eq_append [of "u * per" "(u + n) * per" per] by (simp add: algebra_simps)
  with Suc show ?case by (simp add: unit_content_def)
qed simp

lemma part_serves:
  assumes P: "plat_serves ok P part B" and us: "us = per * pt_block_size part" "0 < pt_block_size part"
    and fit: "units * per \<le> pt_sectors part" "pt_first_lba part + pt_sectors part < u64_lim"
  shows "dev_serves ok (part_read_units P part us) (unit_content per B) us units"
proof -
  have len: "length (unit_content per B u) = us" for u
    using P length_blocks [of "pt_block_size part" "map B [u * per..<(u + 1) * per]"]
    by (simp add: unit_content_def plat_serves_def list_all_iff us(1) mult.commute)
  have "serves ok (fst (part_read_units P part us u b w)) (concat (map (unit_content per B) [u..<u + n]))"
    if b: "length b = n * us" and r: "u + n \<le> units" for u n b w
  proof -
    have "(u + n) * per \<le> units * per" using r by (rule mult_le_mono1)
    then have f: "u * per + n * per \<le> pt_sectors part" using fit(1) by (simp add: add_mult_distrib)
    have lb: "length b = n * per * pt_block_size part" using b us(1) by simp
    have lc: "length (concat (map B [u * per..<u * per + n * per])) = length b"
      using P length_blocks [of "pt_block_size part" "map B [u * per..<u * per + n * per]"]
      by (simp add: plat_serves_def list_all_iff lb mult.commute)
    have "case p_read_blocks P (pt_disk part) (pt_first_lba part + u * per) b w of
        (Inr _, x, _) \<Rightarrow> x = concat (map B [u * per..<u * per + n * per]) | (Inl _, _, _) \<Rightarrow> \<not> ok"
      using P lb f by (simp add: plat_serves_def)
    then have "serves ok (fst (io_err (\<lambda>_. RIo) (plat_read P (pt_disk part) (pt_first_lba part + u * per) b) w))
        (concat (map B [u * per..<u * per + n * per]))"
      using lc by (auto simp: io_err_def plat_read_def fill_def split: prod.splits sum.splits)
    moreover have "part_read_units P part us u b = io_err (\<lambda>_. RIo) (plat_read P (pt_disk part) (pt_first_lba part + u * per) b)"
      using us f fit(2) by (simp add: part_read_units_def Let_def checked_mul_def checked_add_def add.commute)
    ultimately show ?thesis by (simp add: units_are_blocks add_mult_distrib)
  qed
  then show ?thesis using len by (simp add: dev_serves_def)
qed

text \<open>
  C6. From the blocks of the partition to plaintext: let \<open>Layout::new\<close> accept a layout for the partition, with a sector of
  the volume a whole number of blocks of the disk, and let the disk return the blocks of the partition or fail.  Then
  reading a positive number of 512-byte sectors inside the volume as stage 4 does returns exactly those sectors of the
  decrypted view, whatever the block size of the disk and the sector size of the volume; the only error is a
  failure of the disk, so over a disk that does not fail every such read returns, and nothing panics.
\<close>

theorem sectors_read_are_view:
  assumes "layout_new hdr m (pt_sectors part * pt_block_size part) = Ok l" "aes_ok A" "plat_serves ok P part B"
    "0 < pt_block_size part" "bl_bytes_per_sector l = per * pt_block_size part"
    "pt_first_lba part + pt_sectors part < u64_lim" "pt_sectors part * pt_block_size part < u64_lim"
    "length bf = n * SECTOR" "0 < n" "sector + n \<le> units_of l * (bl_bytes_per_sector l div SECTOR)"
  shows "case fst (bde_sectors_read A P part l x sector bf w) of
      Ok b \<Rightarrow> b = concat (map (view_sector A x l (unit_content per B)) [sector..<sector + n])
    | Err e \<Rightarrow> e = PDevice 0 \<and> \<not> ok
    | Panic \<Rightarrow> False"
proof -
  note inv = layout_new_inv [OF assms(1,7)]
  have "bl_volume_size l \<le> pt_sectors part * pt_block_size part" using layout_new_size [OF assms(1)] .
  then have "units_of l * per \<le> pt_sectors part"
    using layout_invD(4) [OF inv] assms(4,5) by (auto simp: units_of_def dvd_def mult.commute)
  from part_serves [OF assms(3,5,4) this assms(6)]
  have dev: "dev_serves ok (part_read_units P part (bl_bytes_per_sector l)) (unit_content per B) (bl_bytes_per_sector l) (units_of l)" .
  obtain r where r: "dr_new l x = Ok r" using layout_invD(2) [OF inv] by (simp add: dr_new_def layout_units_def bde_div_def)
  have "bf \<noteq> []" using assms(8,9) by (auto simp: Disk.SECTOR_def)
  then show ?thesis
    using read_sectors_wps [OF inv assms(2) dr_new_ok [OF r] dev assms(8,10), of w]
    by (auto simp: wps_def bde_sectors_read_def r io_err_def read_platform_error_def split: res.splits prod.splits)
qed

section \<open>Unlocking\<close>

lemma unwrap_Some:
  "unwrap A key c = Ok (Some k) \<longleftrightarrow> length (ccm_ciphertext c) \<le> MAX_WRAPPED
     \<and> (\<exists>pt. ccm_dec A key (ccm_nonce c) (ccm_tag c) (ccm_ciphertext c) = Some pt \<and> parse_key pt = Ok k)"
  by (auto simp: unwrap_def ccm_unwrap_def rbind_eq_Ok split: option.splits)

text \<open>\<open>opens A key c b\<close>: the tag of \<open>c\<close> verifies under \<open>key\<close>, and inside is the key \<open>b\<close>.\<close>

definition opens_to :: "ciphers \<Rightarrow> bytes \<Rightarrow> ccm \<Rightarrow> bytes \<Rightarrow> bool" where
  "opens_to A key c b \<longleftrightarrow> (\<exists>pt k. ccm_dec A key (ccm_nonce c) (ccm_tag c) (ccm_ciphertext c) = Some pt
     \<and> parse_key pt = Ok k \<and> bk_key k = b)"

lemma unwrap_opens: "unwrap A key c = Ok (Some k) \<Longrightarrow> opens_to A key c (bk_key k)"
  by (auto simp: unwrap_Some opens_to_def)

definition authentic :: "ciphers \<Rightarrow> crypto \<Rightarrow> metadata \<Rightarrow> bytes \<Rightarrow> bfvek \<Rightarrow> bool" where
  "authentic A C m vmk f \<longleftrightarrow> opens_to A vmk (md_fvek m) (bfvek_key f)
     \<and> bf_cipher f = bb_cipher (md_block m) \<and> key_len (bf_cipher f) = Some (length (bfvek_key f))
     \<and> (case bb_validation (md_block m) of None \<Rightarrow> True
        | Some v \<Rightarrow> opens_to A vmk v (sha256 C (bb_raw (md_block m))))
     \<and> bfvek_xts f \<noteq> None"

lemma key_len_Some: "key_len c = Some n \<Longrightarrow> n = 32 \<or> n = 64"
  by (cases c) (auto simp: key_len_def AES_128_KEY_LEN_def AES_256_KEY_LEN_def)

lemma unlock_authentic:
  assumes "unlock_fvek A C m vmk = Ok (Some f)"
  shows "authentic A C m vmk f"
proof -
  obtain k where k1: "unwrap A vmk (md_fvek m) = Ok (Some k)"
  proof (cases "unwrap A vmk (md_fvek m)")
    case (Ok r)
    then show ?thesis using assms that by (cases r) (simp_all add: unlock_fvek_def)
  qed (use assms in \<open>simp_all add: unlock_fvek_def\<close>)
  obtain n where n1: "key_len (bb_cipher (md_block m)) = Some n"
    using assms by (cases "key_len (bb_cipher (md_block m))") (simp_all add: unlock_fvek_def k1 Let_def)
  have l1: "length (bk_key k) = n \<and> bk_method k = cipher_to_u16 (bb_cipher (md_block m))"
    using assms by (rule_tac ccontr) (auto simp: unlock_fvek_def k1 n1 Let_def split: if_split_asm)
  have c1: "check_hash A C vmk (md_block m) = Ok ()"
    using assms l1 by (cases "check_hash A C vmk (md_block m)") (simp_all add: unlock_fvek_def k1 n1 Let_def)
  have f1: "f = \<lparr>bf_cipher = bb_cipher (md_block m), bf_key = (if n \<le> MAX_FVEK_KEY then overwrite (replicate MAX_FVEK_KEY 0) 0 (bk_key k)
          else replicate MAX_FVEK_KEY 0), bf_len = n\<rparr>"
    using assms l1 c1 by (simp add: unlock_fvek_def k1 n1 Let_def)
  note k = k1 n1 l1 [THEN conjunct1] c1 f1
  have n: "n = 32 \<or> n = 64" using key_len_Some [OF k(2)] .
  then have le: "n \<le> MAX_FVEK_KEY" by (auto simp: MAX_FVEK_KEY_def)
  have key: "bfvek_key f = bk_key k"
    using k(3) le unfolding k(5) bfvek_key_def by (simp add: get_range_def overwrite_def)
  have "bfvek_xts f \<noteq> None"
    using n k(3) by (auto simp: bfvek_xts_def key xts_new_def aes_key_def XTS_128_KEY_LEN_def XTS_256_KEY_LEN_def
        AES128_KEY_LEN_def AES256_KEY_LEN_def)
  moreover have "case bb_validation (md_block m) of None \<Rightarrow> True
      | Some v \<Rightarrow> opens_to A vmk v (sha256 C (bb_raw (md_block m)))"
    using k(4) by (auto simp: check_hash_def rbind_eq_Ok ok_or_def dest!: unwrap_opens split: option.splits if_splits)
  ultimately show ?thesis
    using unwrap_opens [OF k(1)] k(2,3) by (simp add: authentic_def key) (simp add: k(5))
qed


section \<open>A concrete read\<close>

text \<open>A disk in memory: the platform of a partition of 2048 blocks of 512 bytes with the sample layout.\<close>

definition sample_content :: "nat \<Rightarrow> bytes" where
  "sample_content u = replicate 512 (word_of_nat u)"

definition sample_partition :: partition where
  "sample_partition = \<lparr>pt_disk = 0, pt_index = 0, pt_guid = replicate 16 1, pt_first_lba = 2048, pt_sectors = 2048,
     pt_block_size = 512\<rparr>"

definition mem_platform :: "unit platform" where
  "mem_platform = \<lparr>p_read_esp_file = (\<lambda>_ b w. (Inl PUnsupported, b, w)), p_get_var = (\<lambda>_ _ b w. (Inr None, b, w)),
     p_set_var = (\<lambda>_ _ _ _ w. (Inr (), w)), p_delete_var = (\<lambda>_ _ w. (Inr (), w)), p_secure_boot = (\<lambda>w. (True, w)),
     p_tpm_present = (\<lambda>w. (False, w)), p_hash_log_extend = (\<lambda>_ _ _ w. (Inr (), w)), p_disk_count = (\<lambda>w. (1, w)),
     p_disk_info = (\<lambda>_ w. (None, w)),
     p_read_blocks = (\<lambda>_ lba b w. (Inr (), concat (map sample_content [lba - 2048..<lba - 2048 + length b div 512]), w)),
     p_random = (\<lambda>b w. (Inr (), b, w)), p_prompt = (\<lambda>_ b w. (InEscape, b, w)), p_prompt_browse = (\<lambda>_ _ w. (InEscape, w)),
     p_ui_prefs = (\<lambda>_ w. w), p_publish_handoff = (\<lambda>_ w. (Inr (), w)), p_load_start_image = (\<lambda>_ w. (Inr (), w)),
     p_load_start_image_buffer = (\<lambda>_ w. (Inr (), w)), p_reset = (\<lambda>w. w)\<rparr>"

lemma mem_platform_serves: "plat_serves True mem_platform sample_partition sample_content"
  by (simp add: plat_serves_def mem_platform_def sample_partition_def sample_content_def)

theorem sectors_read_are_view_witness:
  "case fst (bde_sectors_read sample_ciphers mem_platform sample_partition sample_layout (X128 [1] [2]) 14 (replicate 2048 0) ()) of
      Ok b \<Rightarrow> b = concat (map (view_sector sample_ciphers (X128 [1] [2]) sample_layout (unit_content 1 sample_content)) [14..<14 + 4])
    | Err e \<Rightarrow> e = PDevice 0 \<and> \<not> True
    | Panic \<Rightarrow> False"
  by (rule sectors_read_are_view [OF _ sample_ciphers_ok mem_platform_serves, of sample_hdr sample_metadata])
    (simp_all add: sample_partition_def sample_accepted, simp_all add: sample_layout_def units_of_def Disk.SECTOR_def)

end
