(* ===== verification/BdeVolume.thy ===== *)
theory BdeVolume
  imports BdeBootCorrect
begin

text \<open>
  The volume object as a state machine: opening partitions and trying keys, in any order and with any result.  In every
  state it can reach, sectors are served as they are only for a volume that is not BitLocker's, and decrypted
  only with an accepted layout and an authenticated key.
\<close>

section \<open>Reasoning about opening\<close>

definition okx :: "('a \<Rightarrow> bool) \<Rightarrow> ('a, 'e, 'b) io \<Rightarrow> 'a \<Rightarrow> ('b \<Rightarrow> 'a \<Rightarrow> bool) \<Rightarrow> bool" where
  "okx I m a Q = (case fst (m a) of Ok y \<Rightarrow> Q y (snd (m a)) | Err e \<Rightarrow> I (snd (m a)) | Panic \<Rightarrow> True)"

lemma okx_ibind [simp]: "okx I (ibind m k) a Q = okx I m a (\<lambda>y a'. okx I (k y) a' Q)"
  by (auto simp: okx_def ibind_def split: prod.split res.split)

lemma okx_lift: "I a \<Longrightarrow> (\<And>y. r = Ok y \<Longrightarrow> Q y a) \<Longrightarrow> okx I (lift r) a Q"
  by (cases r) (simp_all add: okx_def lift_def)

lemma okx_upd [simp]: "okx I (bv_upd f) (v, w) Q = Q () (f v, w)"
  by (simp add: okx_def bv_upd_def)

lemma okx_get: "I (v, w) \<Longrightarrow> (\<And>y. f v = Ok y \<Longrightarrow> Q y (v, w)) \<Longrightarrow> okx I (bv_get f) (v, w) Q"
  by (cases "f v") (simp_all add: okx_def bv_get_def)

lemma okx_plat: "(\<And>w'. I (v, w')) \<Longrightarrow> (\<And>y w'. Q y (v, w')) \<Longrightarrow> okx I (on_plat m) (v, w) Q"
  by (cases "m w"; cases "fst (m w)") (auto simp: okx_def on_plat_def)

lemma okx_pair_plat [simp]: "okx I (\<lambda>(v, w). on_plat (f v) (v, w)) (v, w) Q = okx I (on_plat (f v)) (v, w) Q"
  by (simp only: okx_def case_prod_conv)

lemma okx_if: "okx I (if c then a else b) s Q = ((c \<longrightarrow> okx I a s Q) \<and> (\<not> c \<longrightarrow> okx I b s Q))"
  by simp

lemma okx_case_prod: "okx I (case p of (x, y) \<Rightarrow> f x y) s Q = (\<forall>x y. p = (x, y) \<longrightarrow> okx I (f x y) s Q)"
  by (cases p) auto

lemma okx_conseq: "okx I m a Q \<Longrightarrow> (\<And>y a. Q y a \<Longrightarrow> R y a) \<Longrightarrow> okx I m a R"
  by (auto simp: okx_def split: res.splits)

lemma copy_loop_okx:
  assumes "\<And>w. I (v, w)"
  shows "okx I (copy_loop fuel P disk bs scratch agreed d l) (v, w) (\<lambda>_ (v', _). v' = v)"
proof (induction fuel arbitrary: scratch d l w)
  case (Suc fuel)
  then show ?case
    using assms by (auto simp: Let_def intro!: okx_lift okx_plat okx_get)
qed (auto intro!: okx_lift assms)

lemma okx_copy:
  assumes "\<And>w. I (v, w)" "\<And>y w. Q y (v, w)"
  shows "okx I (copy_loop fuel P disk bs scratch agreed d l) (v, w) Q"
  by (rule okx_conseq [OF copy_loop_okx]) (use assms in auto)

lemmas okx_intros = okx_ibind [THEN iffD2] okx_if [THEN iffD2] okx_case_prod [THEN iffD2] okx_pair_plat [THEN iffD2]
  okx_upd [THEN iffD2] okx_lift okx_plat okx_get okx_copy conjI impI allI

definition keyless :: "bde_volume \<times> 's \<Rightarrow> bool" where
  "keyless = (\<lambda>(v, _). bv_fvek v = None \<and> bv_xts v = None \<and> bv_part v = None)"

text \<open>
  \<open>opened p v\<close>: the metadata in memory parses, the layout kept is the one it describes for the size of the partition
  \<open>p\<close>, and a sector of the volume is a whole number of blocks of the disk.
\<close>

definition opened :: "partition \<Rightarrow> bde_volume \<Rightarrow> bool" where
  "opened p v \<longleftrightarrow> (\<exists>hdr m l. bv_hdr v = Some hdr \<and> bv_metadata v = Ok m
     \<and> layout_new hdr m (pt_sectors p * pt_block_size p) = Ok l \<and> pt_sectors p * pt_block_size p < u64_lim
     \<and> vh_bytes_per_sector hdr mod pt_block_size p = 0 \<and> bv_layout v = Some l)"

lemma bv_metadata_layout [simp]: "bv_metadata (v\<lparr>bv_layout := x\<rparr>) = bv_metadata v"
  "bv_metadata (v\<lparr>bv_part := p\<rparr>) = bv_metadata v" "bv_metadata (v\<lparr>bv_xts := k, bv_fvek := f\<rparr>) = bv_metadata v"
  by (simp_all add: bv_metadata_def)

lemma open_bitlocker_okx:
  assumes "keyless (v, w)"
  shows "okx keyless (open_bitlocker P part) (v, w) (\<lambda>_ (v', w'). keyless (v', w') \<and> opened part v')"
proof -
  have K: "keyless (v\<lparr>bv_meta := m\<rparr>, w')" "keyless (v\<lparr>bv_meta := m, bv_hdr := h\<rparr>, w')" "keyless (v, w')" for m h w'
    using assms by (simp_all add: keyless_def)
  show ?thesis
    unfolding open_bitlocker_def Let_def
    by (intro okx_intros K)
      (use K in \<open>auto simp: opened_def keyless_def checked_mul_def rem64_def split: if_splits\<close>)
qed


section \<open>The states of a volume\<close>

text \<open>
  A state is the volume object with the partition and kind it was last asked to open.
\<close>

type_synonym vol_state = "(partition \<times> volume_kind) option \<times> bde_volume"

inductive vol_step :: "ciphers \<Rightarrow> crypto \<Rightarrow> 's platform \<Rightarrow> vol_state \<Rightarrow> vol_state \<Rightarrow> bool" for A C P where
  VOpen: "bv_open P part kind (v, w) = (r, (v', w')) \<Longrightarrow> r \<noteq> Panic \<Longrightarrow> vol_step A C P (h, v) (Some (part, kind), v')"
| VTry: "bv_try_vmk A C vmk v = (r, v') \<Longrightarrow> vol_step A C P (h, v) (h, v')"
| VPassword: "unlock_password A C pw v = (r, v') \<Longrightarrow> vol_step A C P (h, v) (h, v')"
| VStartup: "unlock_startup_key A C bek v = (r, v') \<Longrightarrow> vol_step A C P (h, v) (h, v')"

inductive vol_reach :: "ciphers \<Rightarrow> crypto \<Rightarrow> 's platform \<Rightarrow> vol_state \<Rightarrow> bool" for A C P where
  VStart: "vol_reach A C P (None, bv_new meta)"
| VStep: "vol_reach A C P s \<Longrightarrow> vol_step A C P s s' \<Longrightarrow> vol_reach A C P s'"

definition unlocked :: "ciphers \<Rightarrow> crypto \<Rightarrow> bde_volume \<Rightarrow> xts_keys \<Rightarrow> bool" where
  "unlocked A C v x \<longleftrightarrow> (\<exists>m vmk f. bv_metadata v = Ok m \<and> authentic A C m vmk f \<and> bfvek_xts f = Some x
     \<and> bv_fvek v = Some f)"

definition locked_out :: "bde_volume \<Rightarrow> bool" where
  "locked_out v \<longleftrightarrow> bv_hdr v = None \<and> bv_layout v = None \<and> bv_xts v = None"

fun vol_inv :: "ciphers \<Rightarrow> crypto \<Rightarrow> vol_state \<Rightarrow> bool" where
  "vol_inv A C (h, v) = (case bv_part v of
      None \<Rightarrow> locked_out v
    | Some p \<Rightarrow> h = Some (p, VkNtfs) \<and> locked_out v
        \<or> h = Some (p, VkBitLocker) \<and> opened p v \<and> pred_option (unlocked A C v) (bv_xts v))"

lemma try_vmk_inv:
  assumes "vol_inv A C (h, v)" "try_vmk_inner A C vmk v = (r, v')"
  shows "vol_inv A C (h, v')"
proof (cases "v' = v")
  case False
  obtain f x where f: "rbind (bv_metadata v) (\<lambda>m. unlock_fvek A C m vmk) = Ok (Some f)" "bfvek_xts f = Some x"
      "v' = v\<lparr>bv_xts := Some x, bv_fvek := Some f\<rparr>"
    using assms(2) False by (auto simp: try_vmk_inner_def split: res.splits option.splits)
  then obtain m where m: "bv_metadata v = Ok m" "unlock_fvek A C m vmk = Ok (Some f)" by (auto simp: rbind_eq_Ok)
  then have "\<not> locked_out v" by (auto simp: bv_metadata_def locked_out_def)
  then show ?thesis
    using assms(1) m unlock_authentic [OF m(2)] f(2)
    by (auto simp: opened_def unlocked_def f(3) split: option.splits)
qed (use assms in simp)

lemma vol_open_inv:
  assumes "bv_open P part kind (v, w) = (r, (v', w'))" "r \<noteq> Panic"
  shows "vol_inv A C (Some (part, kind), v')"
proof (cases kind)
  case VkBitLocker
  define v0 where "v0 = v\<lparr>bv_part := None, bv_hdr := None, bv_layout := None, bv_fvek := None, bv_xts := None\<rparr>"
  have "keyless (v0, w)" by (simp add: keyless_def v0_def)
  from open_bitlocker_okx [OF this, of P part] show ?thesis
    using assms by (auto simp: VkBitLocker bv_open_def v0_def [symmetric] okx_def keyless_def opened_def locked_out_def
        split: prod.splits res.splits)
qed (use assms in \<open>auto simp: bv_open_def locked_out_def\<close>)

lemma vol_step_inv: "vol_step A C P s s' \<Longrightarrow> vol_inv A C s \<Longrightarrow> vol_inv A C s'"
proof (induction rule: vol_step.induct)
  case (VOpen part kind v w r v' w' h)
  then show ?case by (intro vol_open_inv)
next
  case (VTry vmk v r v' h)
  then show ?case using try_vmk_inv by (auto simp only: bv_try_vmk_def split: prod.splits)
next
  case (VPassword pw v r v' h)
  then show ?case using try_vmk_inv by (auto simp only: unlock_password_def bv_accept_def split: res.splits option.splits)
next
  case (VStartup bek v r v' h)
  then show ?case using try_vmk_inv by (auto simp only: unlock_startup_key_def bv_accept_def split: res.splits option.splits)
qed

lemma vol_reach_inv: "vol_reach A C P s \<Longrightarrow> vol_inv A C s"
proof (induction rule: vol_reach.induct)
  case (VStart meta)
  show ?case by (simp add: locked_out_def bv_new_def)
qed (rule vol_step_inv)

text \<open>
  C7. Whatever sequence of partitions is opened and of keys is tried, with whatever results: the volume serves the sectors
  of the disk unchanged only of the partition it was last asked to open, and only when that was opened as NTFS; a
  partition opened as BitLocker is served only as its decrypted view, with the layout that the metadata in memory
  describes for that partition and with a volume key that some master key unwrapped and, where the metadata carries a
  hash, whose hash of the metadata it verified.  Choosing the reader never panics.
\<close>

theorem serves_only_when_unlocked:
  assumes "vol_reach A C P (last_open, v)"
  shows "case vol_reader_of (bv_part v) (bv_layout v) (bv_xts v) (bv_hdr v \<noteq> None) of
      Ok (RPlain p) \<Rightarrow> last_open = Some (p, VkNtfs)
    | Ok (RBde p l x) \<Rightarrow> last_open = Some (p, VkBitLocker) \<and> opened p v \<and> bv_layout v = Some l \<and> unlocked A C v x
    | Err _ \<Rightarrow> True
    | Panic \<Rightarrow> False"
  using vol_reach_inv [OF assms]
  by (auto simp: vol_reader_of_def locked_out_def opened_def split: option.splits)

definition sample_volume :: bde_volume where
  "sample_volume = (bv_new [])\<lparr>bv_part := Some sample_partition\<rparr>"

lemma sample_volume_reached:
  "vol_reach sample_ciphers sample_crypto mem_platform (Some (sample_partition, VkNtfs), sample_volume)"
proof -
  have "bv_open mem_platform sample_partition VkNtfs (bv_new [], ()) = (Ok (), (sample_volume, ()))"
    by (simp add: bv_open_def bv_new_def sample_volume_def)
  then have "vol_step sample_ciphers sample_crypto mem_platform (None, bv_new []) (Some (sample_partition, VkNtfs), sample_volume)"
    by (rule VOpen) simp
  with VStart show ?thesis by (rule VStep)
qed

theorem serves_only_when_unlocked_witness:
  "vol_reader_of (bv_part sample_volume) (bv_layout sample_volume) (bv_xts sample_volume) (bv_hdr sample_volume \<noteq> None)
     = Ok (RPlain sample_partition)
   \<and> (case vol_reader_of (bv_part sample_volume) (bv_layout sample_volume) (bv_xts sample_volume) (bv_hdr sample_volume \<noteq> None) of
      Ok (RPlain p) \<Rightarrow> Some (sample_partition, VkNtfs) = Some (p, VkNtfs)
    | Ok (RBde p l x) \<Rightarrow> Some (sample_partition, VkNtfs) = Some (p, VkBitLocker) \<and> opened p sample_volume
        \<and> bv_layout sample_volume = Some l \<and> unlocked sample_ciphers sample_crypto sample_volume x
    | Err _ \<Rightarrow> True
    | Panic \<Rightarrow> False)"
  by (rule conjI [OF _ serves_only_when_unlocked [OF sample_volume_reached]])
    (simp add: sample_volume_def bv_new_def vol_reader_of_def)

end
