(* ===== verification/NtfsLayout.thy ===== *)
theory NtfsLayout
  imports Layout
begin

text \<open>
  The on-disk structures of \<open>crates/paguro-core/src/ntfs/layout.rs\<close> (the twin of
  \<open>kernel/dm-paguro/pg_layout.h\<close>) as field lists in the order of the source, with the offsets and
  sizes its \<open>layout!\<close> assertions state, and the constants of the formats.  The offsets and widths
  of the fields the parsers read are collected as \<open>layout_simps\<close>.
\<close>

named_theorems layout_simps

text \<open>The check of \<open>layout!\<close>: every field at its documented offset, the struct its size.\<close>

definition layout_check :: "layout \<Rightarrow> nat list \<Rightarrow> nat \<Rightarrow> bool" where
  "layout_check l offs n \<longleftrightarrow> offsets 0 l = offs \<and> size_of l = n"

section \<open>Structures\<close>

definition ntfs_boot_sector :: layout where
  "ntfs_boot_sector = [(''jump'', 3), (''oem_id'', 8), (''bytes_per_sector'', 2),
     (''sectors_per_cluster'', 1), (''reserved_sectors'', 2), (''zero1'', 3), (''unused1'', 2),
     (''media_type'', 1), (''zero2'', 2), (''sectors_per_track'', 2), (''number_of_heads'', 2),
     (''hidden_sectors'', 4), (''unused2'', 4), (''unused3'', 4), (''total_sectors'', 8),
     (''mft_lcn'', 8), (''mftmirr_lcn'', 8), (''clusters_per_mft_record'', 1), (''pad1'', 3),
     (''clusters_per_index_record'', 1), (''pad2'', 3), (''volume_serial_number'', 8),
     (''checksum'', 4), (''bootstrap'', 426), (''signature'', 2)]"

lemma ntfs_boot_sector_layout:
  "layout_check ntfs_boot_sector [0x0, 0x3, 0xb, 0xd, 0xe, 0x10, 0x13, 0x15, 0x16, 0x18, 0x1a,
     0x1c, 0x20, 0x24, 0x28, 0x30, 0x38, 0x40, 0x41, 0x44, 0x45, 0x48, 0x50, 0x54, 0x1fe] 0x200"
  by (simp add: layout_check_def ntfs_boot_sector_def)

lemma ntfs_boot_sector_fields [layout_simps]:
  "offset_of ntfs_boot_sector ''oem_id'' = 3" "field_size ntfs_boot_sector ''oem_id'' = 8"
  "offset_of ntfs_boot_sector ''bytes_per_sector'' = 11" "field_size ntfs_boot_sector ''bytes_per_sector'' = 2"
  "offset_of ntfs_boot_sector ''sectors_per_cluster'' = 13" "field_size ntfs_boot_sector ''sectors_per_cluster'' = 1"
  "offset_of ntfs_boot_sector ''total_sectors'' = 40" "field_size ntfs_boot_sector ''total_sectors'' = 8"
  "offset_of ntfs_boot_sector ''mft_lcn'' = 48" "field_size ntfs_boot_sector ''mft_lcn'' = 8"
  "offset_of ntfs_boot_sector ''clusters_per_mft_record'' = 64" "field_size ntfs_boot_sector ''clusters_per_mft_record'' = 1"
  "offset_of ntfs_boot_sector ''signature'' = 510" "field_size ntfs_boot_sector ''signature'' = 2"
  "size_of ntfs_boot_sector = 512"
  by (code_simp+)

definition ntfs_file_record :: layout where
  "ntfs_file_record = [(''magic'', 4), (''usa_offset'', 2), (''usa_count'', 2), (''lsn'', 8),
     (''sequence_number'', 2), (''link_count'', 2), (''attrs_offset'', 2), (''flags'', 2),
     (''bytes_in_use'', 4), (''bytes_allocated'', 4), (''base_mft_record'', 8),
     (''next_attr_instance'', 2), (''reserved'', 2), (''mft_record_number'', 4)]"

lemma ntfs_file_record_layout:
  "layout_check ntfs_file_record [0x0, 0x4, 0x6, 0x8, 0x10, 0x12, 0x14, 0x16, 0x18, 0x1c, 0x20,
     0x28, 0x2a, 0x2c] 0x30"
  by (simp add: layout_check_def ntfs_file_record_def)

lemma ntfs_file_record_fields [layout_simps]:
  "offset_of ntfs_file_record ''magic'' = 0" "field_size ntfs_file_record ''magic'' = 4"
  "offset_of ntfs_file_record ''usa_offset'' = 4" "field_size ntfs_file_record ''usa_offset'' = 2"
  "offset_of ntfs_file_record ''usa_count'' = 6" "field_size ntfs_file_record ''usa_count'' = 2"
  "offset_of ntfs_file_record ''sequence_number'' = 16" "field_size ntfs_file_record ''sequence_number'' = 2"
  "offset_of ntfs_file_record ''attrs_offset'' = 20" "field_size ntfs_file_record ''attrs_offset'' = 2"
  "offset_of ntfs_file_record ''flags'' = 22" "field_size ntfs_file_record ''flags'' = 2"
  "offset_of ntfs_file_record ''bytes_in_use'' = 24" "field_size ntfs_file_record ''bytes_in_use'' = 4"
  "offset_of ntfs_file_record ''bytes_allocated'' = 28" "field_size ntfs_file_record ''bytes_allocated'' = 4"
  "offset_of ntfs_file_record ''base_mft_record'' = 32" "field_size ntfs_file_record ''base_mft_record'' = 8"
  "offset_of ntfs_file_record ''mft_record_number'' = 44" "field_size ntfs_file_record ''mft_record_number'' = 4"
  "size_of ntfs_file_record = 48"
  by (code_simp+)

definition ntfs_attr :: layout where
  "ntfs_attr = [(''type'', 4), (''length'', 4), (''non_resident'', 1), (''name_length'', 1),
     (''name_offset'', 2), (''flags'', 2), (''instance'', 2)]"

lemma ntfs_attr_layout:
  "layout_check ntfs_attr [0x0, 0x4, 0x8, 0x9, 0xa, 0xc, 0xe] 0x10"
  by (simp add: layout_check_def ntfs_attr_def)

lemma ntfs_attr_fields [layout_simps]:
  "offset_of ntfs_attr ''type'' = 0" "field_size ntfs_attr ''type'' = 4"
  "offset_of ntfs_attr ''length'' = 4" "field_size ntfs_attr ''length'' = 4"
  "offset_of ntfs_attr ''non_resident'' = 8" "field_size ntfs_attr ''non_resident'' = 1"
  "offset_of ntfs_attr ''name_length'' = 9" "field_size ntfs_attr ''name_length'' = 1"
  "offset_of ntfs_attr ''name_offset'' = 10" "field_size ntfs_attr ''name_offset'' = 2"
  "offset_of ntfs_attr ''flags'' = 12" "field_size ntfs_attr ''flags'' = 2"
  "offset_of ntfs_attr ''instance'' = 14" "field_size ntfs_attr ''instance'' = 2"
  "size_of ntfs_attr = 16"
  by (code_simp+)

definition ntfs_attr_resident :: layout where
  "ntfs_attr_resident = [(''common'', 16), (''value_length'', 4), (''value_offset'', 2),
     (''resident_flags'', 1), (''reserved'', 1)]"

lemma ntfs_attr_resident_layout:
  "layout_check ntfs_attr_resident [0x0, 0x10, 0x14, 0x16, 0x17] 0x18"
  by (simp add: layout_check_def ntfs_attr_resident_def)

lemma ntfs_attr_resident_fields [layout_simps]:
  "offset_of ntfs_attr_resident ''value_length'' = 16" "field_size ntfs_attr_resident ''value_length'' = 4"
  "offset_of ntfs_attr_resident ''value_offset'' = 20" "field_size ntfs_attr_resident ''value_offset'' = 2"
  "size_of ntfs_attr_resident = 24"
  by (code_simp+)

definition ntfs_attr_nonresident :: layout where
  "ntfs_attr_nonresident = [(''common'', 16), (''lowest_vcn'', 8), (''highest_vcn'', 8),
     (''mapping_pairs_offset'', 2), (''compression_unit'', 1), (''reserved'', 5),
     (''allocated_size'', 8), (''data_size'', 8), (''initialized_size'', 8)]"

lemma ntfs_attr_nonresident_layout:
  "layout_check ntfs_attr_nonresident [0x0, 0x10, 0x18, 0x20, 0x22, 0x23, 0x28, 0x30, 0x38] 0x40"
  by (simp add: layout_check_def ntfs_attr_nonresident_def)

lemma ntfs_attr_nonresident_fields [layout_simps]:
  "offset_of ntfs_attr_nonresident ''lowest_vcn'' = 16" "field_size ntfs_attr_nonresident ''lowest_vcn'' = 8"
  "offset_of ntfs_attr_nonresident ''highest_vcn'' = 24" "field_size ntfs_attr_nonresident ''highest_vcn'' = 8"
  "offset_of ntfs_attr_nonresident ''mapping_pairs_offset'' = 32" "field_size ntfs_attr_nonresident ''mapping_pairs_offset'' = 2"
  "offset_of ntfs_attr_nonresident ''compression_unit'' = 34" "field_size ntfs_attr_nonresident ''compression_unit'' = 1"
  "offset_of ntfs_attr_nonresident ''allocated_size'' = 40" "field_size ntfs_attr_nonresident ''allocated_size'' = 8"
  "offset_of ntfs_attr_nonresident ''data_size'' = 48" "field_size ntfs_attr_nonresident ''data_size'' = 8"
  "offset_of ntfs_attr_nonresident ''initialized_size'' = 56" "field_size ntfs_attr_nonresident ''initialized_size'' = 8"
  "size_of ntfs_attr_nonresident = 64"
  by (code_simp+)

definition ntfs_attr_list_entry :: layout where
  "ntfs_attr_list_entry = [(''type'', 4), (''length'', 2), (''name_length'', 1),
     (''name_offset'', 1), (''lowest_vcn'', 8), (''mft_reference'', 8), (''instance'', 2)]"

lemma ntfs_attr_list_entry_layout:
  "layout_check ntfs_attr_list_entry [0x0, 0x4, 0x6, 0x7, 0x8, 0x10, 0x18] 0x1a"
  by (simp add: layout_check_def ntfs_attr_list_entry_def)

lemma ntfs_attr_list_entry_fields [layout_simps]:
  "offset_of ntfs_attr_list_entry ''type'' = 0" "field_size ntfs_attr_list_entry ''type'' = 4"
  "offset_of ntfs_attr_list_entry ''length'' = 4" "field_size ntfs_attr_list_entry ''length'' = 2"
  "offset_of ntfs_attr_list_entry ''name_length'' = 6" "field_size ntfs_attr_list_entry ''name_length'' = 1"
  "offset_of ntfs_attr_list_entry ''lowest_vcn'' = 8" "field_size ntfs_attr_list_entry ''lowest_vcn'' = 8"
  "offset_of ntfs_attr_list_entry ''mft_reference'' = 16" "field_size ntfs_attr_list_entry ''mft_reference'' = 8"
  "offset_of ntfs_attr_list_entry ''instance'' = 24" "field_size ntfs_attr_list_entry ''instance'' = 2"
  "size_of ntfs_attr_list_entry = 26"
  by (code_simp+)

definition ntfs_volume_information :: layout where
  "ntfs_volume_information = [(''reserved'', 8), (''major_version'', 1), (''minor_version'', 1),
     (''flags'', 2)]"

lemma ntfs_volume_information_layout:
  "layout_check ntfs_volume_information [0x0, 0x8, 0x9, 0xa] 0xc"
  by (simp add: layout_check_def ntfs_volume_information_def)

lemma ntfs_volume_information_fields [layout_simps]:
  "offset_of ntfs_volume_information ''flags'' = 10" "field_size ntfs_volume_information ''flags'' = 2"
  "size_of ntfs_volume_information = 12"
  by (code_simp+)

definition gpt_header_struct :: layout where
  "gpt_header_struct = [(''signature'', 8), (''revision'', 4), (''header_size'', 4),
     (''header_crc32'', 4), (''reserved'', 4), (''my_lba'', 8), (''alternate_lba'', 8),
     (''first_usable_lba'', 8), (''last_usable_lba'', 8), (''disk_guid'', 16),
     (''partition_entry_lba'', 8), (''number_of_partition_entries'', 4),
     (''size_of_partition_entry'', 4), (''partition_entry_array_crc32'', 4)]"

lemma gpt_header_struct_layout:
  "layout_check gpt_header_struct [0x0, 0x8, 0xc, 0x10, 0x14, 0x18, 0x20, 0x28, 0x30, 0x38, 0x48,
     0x50, 0x54, 0x58] 0x5c"
  by (simp add: layout_check_def gpt_header_struct_def)

lemma gpt_header_struct_fields [layout_simps]:
  "offset_of gpt_header_struct ''signature'' = 0" "field_size gpt_header_struct ''signature'' = 8"
  "offset_of gpt_header_struct ''header_size'' = 12" "field_size gpt_header_struct ''header_size'' = 4"
  "offset_of gpt_header_struct ''header_crc32'' = 16" "field_size gpt_header_struct ''header_crc32'' = 4"
  "offset_of gpt_header_struct ''my_lba'' = 24" "field_size gpt_header_struct ''my_lba'' = 8"
  "offset_of gpt_header_struct ''alternate_lba'' = 32" "field_size gpt_header_struct ''alternate_lba'' = 8"
  "offset_of gpt_header_struct ''first_usable_lba'' = 40" "field_size gpt_header_struct ''first_usable_lba'' = 8"
  "offset_of gpt_header_struct ''last_usable_lba'' = 48" "field_size gpt_header_struct ''last_usable_lba'' = 8"
  "offset_of gpt_header_struct ''disk_guid'' = 56" "field_size gpt_header_struct ''disk_guid'' = 16"
  "offset_of gpt_header_struct ''partition_entry_lba'' = 72" "field_size gpt_header_struct ''partition_entry_lba'' = 8"
  "offset_of gpt_header_struct ''number_of_partition_entries'' = 80" "field_size gpt_header_struct ''number_of_partition_entries'' = 4"
  "offset_of gpt_header_struct ''size_of_partition_entry'' = 84" "field_size gpt_header_struct ''size_of_partition_entry'' = 4"
  "offset_of gpt_header_struct ''partition_entry_array_crc32'' = 88" "field_size gpt_header_struct ''partition_entry_array_crc32'' = 4"
  "size_of gpt_header_struct = 92"
  by (code_simp+)

definition gpt_entry_struct :: layout where
  "gpt_entry_struct = [(''partition_type_guid'', 16), (''unique_partition_guid'', 16),
     (''starting_lba'', 8), (''ending_lba'', 8), (''attributes'', 8), (''partition_name'', 72)]"

lemma gpt_entry_struct_layout:
  "layout_check gpt_entry_struct [0x0, 0x10, 0x20, 0x28, 0x30, 0x38] 0x80"
  by (simp add: layout_check_def gpt_entry_struct_def)

lemma gpt_entry_struct_fields [layout_simps]:
  "offset_of gpt_entry_struct ''partition_type_guid'' = 0" "field_size gpt_entry_struct ''partition_type_guid'' = 16"
  "offset_of gpt_entry_struct ''starting_lba'' = 32" "field_size gpt_entry_struct ''starting_lba'' = 8"
  "offset_of gpt_entry_struct ''ending_lba'' = 40" "field_size gpt_entry_struct ''ending_lba'' = 8"
  "size_of gpt_entry_struct = 128"
  by (code_simp+)

definition fat16_boot_sector :: layout where
  "fat16_boot_sector = [(''jump'', 3), (''oem_name'', 8), (''bytes_per_sector'', 2),
     (''sectors_per_cluster'', 1), (''reserved_sectors'', 2), (''number_of_fats'', 1),
     (''root_entries'', 2), (''total_sectors_16'', 2), (''media'', 1), (''fat_size_16'', 2),
     (''sectors_per_track'', 2), (''number_of_heads'', 2), (''hidden_sectors'', 4),
     (''total_sectors_32'', 4), (''drive_number'', 1), (''reserved1'', 1), (''boot_signature'', 1),
     (''volume_id'', 4), (''volume_label'', 11), (''fs_type'', 8), (''boot_code'', 448),
     (''signature'', 2)]"

lemma fat16_boot_sector_layout:
  "layout_check fat16_boot_sector [0x0, 0x3, 0xb, 0xd, 0xe, 0x10, 0x11, 0x13, 0x15, 0x16, 0x18,
     0x1a, 0x1c, 0x20, 0x24, 0x25, 0x26, 0x27, 0x2b, 0x36, 0x3e, 0x1fe] 0x200"
  by (simp add: layout_check_def fat16_boot_sector_def)

lemma fat16_boot_sector_fields [layout_simps]:
  "offset_of fat16_boot_sector ''bytes_per_sector'' = 11" "field_size fat16_boot_sector ''bytes_per_sector'' = 2"
  "offset_of fat16_boot_sector ''sectors_per_cluster'' = 13" "field_size fat16_boot_sector ''sectors_per_cluster'' = 1"
  "offset_of fat16_boot_sector ''total_sectors_16'' = 19" "field_size fat16_boot_sector ''total_sectors_16'' = 2"
  "offset_of fat16_boot_sector ''total_sectors_32'' = 32" "field_size fat16_boot_sector ''total_sectors_32'' = 4"
  "offset_of fat16_boot_sector ''fs_type'' = 54" "field_size fat16_boot_sector ''fs_type'' = 8"
  "offset_of fat16_boot_sector ''signature'' = 510" "field_size fat16_boot_sector ''signature'' = 2"
  "size_of fat16_boot_sector = 512"
  by (code_simp+)

definition fat32_boot_sector :: layout where
  "fat32_boot_sector = [(''bpb'', 36), (''fat_size_32'', 4), (''ext_flags'', 2),
     (''fs_version'', 2), (''root_cluster'', 4), (''fs_info'', 2), (''backup_boot_sector'', 2),
     (''reserved'', 12), (''drive_number'', 1), (''reserved1'', 1), (''boot_signature'', 1),
     (''volume_id'', 4), (''volume_label'', 11), (''fs_type'', 8), (''boot_code'', 420),
     (''signature'', 2)]"

lemma fat32_boot_sector_layout:
  "layout_check fat32_boot_sector [0x0, 0x24, 0x28, 0x2a, 0x2c, 0x30, 0x32, 0x34, 0x40, 0x41,
     0x42, 0x43, 0x47, 0x52, 0x5a, 0x1fe] 0x200"
  by (simp add: layout_check_def fat32_boot_sector_def)

lemma fat32_boot_sector_fields [layout_simps]:
  "offset_of fat32_boot_sector ''fs_type'' = 82" "field_size fat32_boot_sector ''fs_type'' = 8"
  "size_of fat32_boot_sector = 512"
  by (code_simp+)

definition ext4_super_block :: layout where
  "ext4_super_block = [(''s_inodes_count'', 4), (''s_blocks_count_lo'', 4),
     (''s_r_blocks_count_lo'', 4), (''s_free_blocks_count_lo'', 4), (''s_free_inodes_count'', 4),
     (''s_first_data_block'', 4), (''s_log_block_size'', 4), (''s_log_cluster_size'', 4),
     (''s_blocks_per_group'', 4), (''s_clusters_per_group'', 4), (''s_inodes_per_group'', 4),
     (''s_mtime'', 4), (''s_wtime'', 4), (''s_mnt_count'', 2), (''s_max_mnt_count'', 2),
     (''s_magic'', 2), (''s_state'', 2), (''s_errors'', 2), (''s_minor_rev_level'', 2),
     (''s_lastcheck'', 4), (''s_checkinterval'', 4), (''s_creator_os'', 4), (''s_rev_level'', 4),
     (''s_def_resuid'', 2), (''s_def_resgid'', 2), (''s_first_ino'', 4), (''s_inode_size'', 2),
     (''s_block_group_nr'', 2), (''s_feature_compat'', 4), (''s_feature_incompat'', 4),
     (''s_feature_ro_compat'', 4), (''s_uuid'', 16), (''s_volume_name'', 16),
     (''s_last_mounted'', 64), (''s_algorithm_usage_bitmap'', 4), (''s_prealloc_blocks'', 1),
     (''s_prealloc_dir_blocks'', 1), (''s_reserved_gdt_blocks'', 2), (''s_journal_uuid'', 16),
     (''s_journal_inum'', 4), (''s_journal_dev'', 4), (''s_last_orphan'', 4),
     (''s_hash_seed'', 16), (''s_def_hash_version'', 1), (''s_jnl_backup_type'', 1),
     (''s_desc_size'', 2), (''s_default_mount_opts'', 4), (''s_first_meta_bg'', 4),
     (''s_mkfs_time'', 4), (''s_jnl_blocks'', 68), (''s_blocks_count_hi'', 4),
     (''s_r_blocks_count_hi'', 4), (''s_free_blocks_count_hi'', 4), (''s_min_extra_isize'', 2),
     (''s_want_extra_isize'', 2), (''s_flags'', 4), (''s_raid_stride'', 2),
     (''s_mmp_update_interval'', 2), (''s_mmp_block'', 8), (''s_raid_stripe_width'', 4),
     (''s_log_groups_per_flex'', 1), (''s_checksum_type'', 1), (''s_encryption_level'', 1),
     (''s_reserved_pad'', 1), (''s_kbytes_written'', 8), (''s_snapshot_inum'', 4),
     (''s_snapshot_id'', 4), (''s_snapshot_r_blocks_count'', 8), (''s_snapshot_list'', 4),
     (''s_error_count'', 4), (''s_first_error_time'', 4), (''s_first_error_ino'', 4),
     (''s_first_error_block'', 8), (''s_first_error_func'', 32), (''s_first_error_line'', 4),
     (''s_last_error_time'', 4), (''s_last_error_ino'', 4), (''s_last_error_line'', 4),
     (''s_last_error_block'', 8), (''s_last_error_func'', 32), (''s_mount_opts'', 64),
     (''s_usr_quota_inum'', 4), (''s_grp_quota_inum'', 4), (''s_overhead_clusters'', 4),
     (''s_backup_bgs'', 8), (''s_encrypt_algos'', 4), (''s_encrypt_pw_salt'', 16),
     (''s_lpf_ino'', 4), (''s_prj_quota_inum'', 4), (''s_checksum_seed'', 4),
     (''s_reserved'', 392), (''s_checksum'', 4)]"

lemma ext4_super_block_layout:
  "layout_check ext4_super_block [0x0, 0x4, 0x8, 0xc, 0x10, 0x14, 0x18, 0x1c, 0x20, 0x24, 0x28,
     0x2c, 0x30, 0x34, 0x36, 0x38, 0x3a, 0x3c, 0x3e, 0x40, 0x44, 0x48, 0x4c, 0x50, 0x52, 0x54,
     0x58, 0x5a, 0x5c, 0x60, 0x64, 0x68, 0x78, 0x88, 0xc8, 0xcc, 0xcd, 0xce, 0xd0, 0xe0, 0xe4,
     0xe8, 0xec, 0xfc, 0xfd, 0xfe, 0x100, 0x104, 0x108, 0x10c, 0x150, 0x154, 0x158, 0x15c, 0x15e,
     0x160, 0x164, 0x166, 0x168, 0x170, 0x174, 0x175, 0x176, 0x177, 0x178, 0x180, 0x184, 0x188,
     0x190, 0x194, 0x198, 0x19c, 0x1a0, 0x1a8, 0x1c8, 0x1cc, 0x1d0, 0x1d4, 0x1d8, 0x1e0, 0x200,
     0x240, 0x244, 0x248, 0x24c, 0x254, 0x258, 0x268, 0x26c, 0x270, 0x274, 0x3fc] 0x400"
  by (simp add: layout_check_def ext4_super_block_def)

lemma ext4_super_block_fields [layout_simps]:
  "offset_of ext4_super_block ''s_blocks_count_lo'' = 4" "field_size ext4_super_block ''s_blocks_count_lo'' = 4"
  "offset_of ext4_super_block ''s_first_data_block'' = 20" "field_size ext4_super_block ''s_first_data_block'' = 4"
  "offset_of ext4_super_block ''s_log_block_size'' = 24" "field_size ext4_super_block ''s_log_block_size'' = 4"
  "offset_of ext4_super_block ''s_blocks_per_group'' = 32" "field_size ext4_super_block ''s_blocks_per_group'' = 4"
  "offset_of ext4_super_block ''s_inodes_per_group'' = 40" "field_size ext4_super_block ''s_inodes_per_group'' = 4"
  "offset_of ext4_super_block ''s_magic'' = 56" "field_size ext4_super_block ''s_magic'' = 2"
  "offset_of ext4_super_block ''s_rev_level'' = 76" "field_size ext4_super_block ''s_rev_level'' = 4"
  "offset_of ext4_super_block ''s_inode_size'' = 88" "field_size ext4_super_block ''s_inode_size'' = 2"
  "offset_of ext4_super_block ''s_block_group_nr'' = 90" "field_size ext4_super_block ''s_block_group_nr'' = 2"
  "offset_of ext4_super_block ''s_feature_compat'' = 92" "field_size ext4_super_block ''s_feature_compat'' = 4"
  "offset_of ext4_super_block ''s_feature_incompat'' = 96" "field_size ext4_super_block ''s_feature_incompat'' = 4"
  "offset_of ext4_super_block ''s_uuid'' = 104" "field_size ext4_super_block ''s_uuid'' = 16"
  "offset_of ext4_super_block ''s_desc_size'' = 254" "field_size ext4_super_block ''s_desc_size'' = 2"
  "offset_of ext4_super_block ''s_blocks_count_hi'' = 336" "field_size ext4_super_block ''s_blocks_count_hi'' = 4"
  "offset_of ext4_super_block ''s_backup_bgs'' = 588" "field_size ext4_super_block ''s_backup_bgs'' = 8"
  "size_of ext4_super_block = 1024"
  by (code_simp+)

definition ext4_group_desc :: layout where
  "ext4_group_desc = [(''bg_block_bitmap_lo'', 4), (''bg_inode_bitmap_lo'', 4),
     (''bg_inode_table_lo'', 4), (''bg_free_blocks_count_lo'', 2),
     (''bg_free_inodes_count_lo'', 2), (''bg_used_dirs_count_lo'', 2), (''bg_flags'', 2),
     (''bg_exclude_bitmap_lo'', 4), (''bg_block_bitmap_csum_lo'', 2),
     (''bg_inode_bitmap_csum_lo'', 2), (''bg_itable_unused_lo'', 2), (''bg_checksum'', 2),
     (''bg_block_bitmap_hi'', 4), (''bg_inode_bitmap_hi'', 4), (''bg_inode_table_hi'', 4),
     (''bg_free_blocks_count_hi'', 2), (''bg_free_inodes_count_hi'', 2),
     (''bg_used_dirs_count_hi'', 2), (''bg_itable_unused_hi'', 2), (''bg_exclude_bitmap_hi'', 4),
     (''bg_block_bitmap_csum_hi'', 2), (''bg_inode_bitmap_csum_hi'', 2), (''bg_reserved'', 4)]"

lemma ext4_group_desc_layout:
  "layout_check ext4_group_desc [0x0, 0x4, 0x8, 0xc, 0xe, 0x10, 0x12, 0x14, 0x18, 0x1a, 0x1c,
     0x1e, 0x20, 0x24, 0x28, 0x2c, 0x2e, 0x30, 0x32, 0x34, 0x38, 0x3a, 0x3c] 0x40"
  by (simp add: layout_check_def ext4_group_desc_def)

lemma ext4_group_desc_fields [layout_simps]:
  "offset_of ext4_group_desc ''bg_inode_table_lo'' = 8" "field_size ext4_group_desc ''bg_inode_table_lo'' = 4"
  "offset_of ext4_group_desc ''bg_inode_table_hi'' = 40" "field_size ext4_group_desc ''bg_inode_table_hi'' = 4"
  "size_of ext4_group_desc = 64"
  by (code_simp+)

definition ext4_inode :: layout where
  "ext4_inode = [(''i_mode'', 2), (''i_uid'', 2), (''i_size_lo'', 4), (''i_atime'', 4),
     (''i_ctime'', 4), (''i_mtime'', 4), (''i_dtime'', 4), (''i_gid'', 2), (''i_links_count'', 2),
     (''i_blocks_lo'', 4), (''i_flags'', 4), (''i_osd1'', 4), (''i_block'', 60),
     (''i_generation'', 4), (''i_file_acl_lo'', 4), (''i_size_high'', 4), (''i_obso_faddr'', 4),
     (''i_osd2'', 12)]"

lemma ext4_inode_layout:
  "layout_check ext4_inode [0x0, 0x2, 0x4, 0x8, 0xc, 0x10, 0x14, 0x18, 0x1a, 0x1c, 0x20, 0x24,
     0x28, 0x64, 0x68, 0x6c, 0x70, 0x74] 0x80"
  by (simp add: layout_check_def ext4_inode_def)

lemma ext4_inode_fields [layout_simps]:
  "offset_of ext4_inode ''i_mode'' = 0" "field_size ext4_inode ''i_mode'' = 2"
  "offset_of ext4_inode ''i_block'' = 40" "field_size ext4_inode ''i_block'' = 60"
  "size_of ext4_inode = 128"
  by (code_simp+)

definition ext4_extent_header :: layout where
  "ext4_extent_header = [(''eh_magic'', 2), (''eh_entries'', 2), (''eh_max'', 2),
     (''eh_depth'', 2), (''eh_generation'', 4)]"

lemma ext4_extent_header_layout:
  "layout_check ext4_extent_header [0x0, 0x2, 0x4, 0x6, 0x8] 0xc"
  by (simp add: layout_check_def ext4_extent_header_def)

lemma ext4_extent_header_fields [layout_simps]:
  "offset_of ext4_extent_header ''eh_magic'' = 0" "field_size ext4_extent_header ''eh_magic'' = 2"
  "size_of ext4_extent_header = 12"
  by (code_simp+)

definition iso_directory_record :: layout where
  "iso_directory_record = [(''length'', 1), (''ext_attr_length'', 1), (''extent_le'', 4),
     (''extent_be'', 4), (''data_length_le'', 4), (''data_length_be'', 4), (''recording_date'', 7),
     (''file_flags'', 1), (''file_unit_size'', 1), (''interleave_gap'', 1),
     (''volume_sequence_number_le'', 2), (''volume_sequence_number_be'', 2), (''name_length'', 1),
     (''name'', 1)]"

lemma iso_directory_record_layout:
  "layout_check iso_directory_record [0x0, 0x1, 0x2, 0x6, 0xa, 0xe, 0x12, 0x19, 0x1a, 0x1b, 0x1c,
     0x1e, 0x20, 0x21] 0x22"
  by (simp add: layout_check_def iso_directory_record_def)

lemma iso_directory_record_fields [layout_simps]:
  "offset_of iso_directory_record ''length'' = 0" "field_size iso_directory_record ''length'' = 1"
  "offset_of iso_directory_record ''extent_le'' = 2" "field_size iso_directory_record ''extent_le'' = 4"
  "offset_of iso_directory_record ''extent_be'' = 6" "field_size iso_directory_record ''extent_be'' = 4"
  "offset_of iso_directory_record ''file_flags'' = 25" "field_size iso_directory_record ''file_flags'' = 1"
  "offset_of iso_directory_record ''name_length'' = 32" "field_size iso_directory_record ''name_length'' = 1"
  "offset_of iso_directory_record ''name'' = 33" "field_size iso_directory_record ''name'' = 1"
  "size_of iso_directory_record = 34"
  by (code_simp+)

definition iso_primary_volume_descriptor :: layout where
  "iso_primary_volume_descriptor = [(''type'', 1), (''id'', 5), (''version'', 1), (''unused1'', 1),
     (''system_id'', 32), (''volume_id'', 32), (''unused2'', 8), (''volume_space_size_le'', 4),
     (''volume_space_size_be'', 4), (''unused3'', 32), (''volume_set_size_le'', 2),
     (''volume_set_size_be'', 2), (''volume_sequence_number_le'', 2),
     (''volume_sequence_number_be'', 2), (''logical_block_size_le'', 2),
     (''logical_block_size_be'', 2), (''path_table_size_le'', 4), (''path_table_size_be'', 4),
     (''type_l_path_table'', 4), (''opt_type_l_path_table'', 4), (''type_m_path_table'', 4),
     (''opt_type_m_path_table'', 4), (''root_directory_record'', 34), (''volume_set_id'', 128),
     (''publisher_id'', 128), (''preparer_id'', 128), (''application_id'', 128),
     (''copyright_file_id'', 37), (''abstract_file_id'', 37), (''bibliographic_file_id'', 37),
     (''creation_date'', 17), (''modification_date'', 17), (''expiration_date'', 17),
     (''effective_date'', 17), (''file_structure_version'', 1), (''unused4'', 1),
     (''application_use'', 512), (''reserved'', 653)]"

lemma iso_primary_volume_descriptor_layout:
  "layout_check iso_primary_volume_descriptor [0x0, 0x1, 0x6, 0x7, 0x8, 0x28, 0x48, 0x50, 0x54,
     0x58, 0x78, 0x7a, 0x7c, 0x7e, 0x80, 0x82, 0x84, 0x88, 0x8c, 0x90, 0x94, 0x98, 0x9c, 0xbe,
     0x13e, 0x1be, 0x23e, 0x2be, 0x2e3, 0x308, 0x32d, 0x33e, 0x34f, 0x360, 0x371, 0x372, 0x373,
     0x573] 0x800"
  by (simp add: layout_check_def iso_primary_volume_descriptor_def)

lemma iso_primary_volume_descriptor_fields [layout_simps]:
  "offset_of iso_primary_volume_descriptor ''type'' = 0" "field_size iso_primary_volume_descriptor ''type'' = 1"
  "offset_of iso_primary_volume_descriptor ''id'' = 1" "field_size iso_primary_volume_descriptor ''id'' = 5"
  "offset_of iso_primary_volume_descriptor ''version'' = 6" "field_size iso_primary_volume_descriptor ''version'' = 1"
  "offset_of iso_primary_volume_descriptor ''volume_space_size_le'' = 80" "field_size iso_primary_volume_descriptor ''volume_space_size_le'' = 4"
  "offset_of iso_primary_volume_descriptor ''volume_space_size_be'' = 84" "field_size iso_primary_volume_descriptor ''volume_space_size_be'' = 4"
  "offset_of iso_primary_volume_descriptor ''logical_block_size_le'' = 128" "field_size iso_primary_volume_descriptor ''logical_block_size_le'' = 2"
  "offset_of iso_primary_volume_descriptor ''logical_block_size_be'' = 130" "field_size iso_primary_volume_descriptor ''logical_block_size_be'' = 2"
  "offset_of iso_primary_volume_descriptor ''root_directory_record'' = 156" "field_size iso_primary_volume_descriptor ''root_directory_record'' = 34"
  "size_of iso_primary_volume_descriptor = 2048"
  by (code_simp+)

definition ntfs_index_root :: layout where
  "ntfs_index_root = [(''type'', 4), (''collation_rule'', 4), (''index_block_size'', 4),
     (''clusters_per_index_block'', 1), (''reserved'', 3), (''index'', 16)]"

lemma ntfs_index_root_layout:
  "layout_check ntfs_index_root [0x0, 0x4, 0x8, 0xc, 0xd, 0x10] 0x20"
  by (simp add: layout_check_def ntfs_index_root_def)

definition ntfs_index_header :: layout where
  "ntfs_index_header = [(''entries_offset'', 4), (''index_length'', 4), (''allocated_size'', 4),
     (''flags'', 1), (''reserved'', 3)]"

lemma ntfs_index_header_layout:
  "layout_check ntfs_index_header [0x0, 0x4, 0x8, 0xc, 0xd] 0x10"
  by (simp add: layout_check_def ntfs_index_header_def)

definition ntfs_index_block :: layout where
  "ntfs_index_block = [(''magic'', 4), (''usa_offset'', 2), (''usa_count'', 2), (''lsn'', 8),
     (''index_block_vcn'', 8), (''index'', 16)]"

lemma ntfs_index_block_layout:
  "layout_check ntfs_index_block [0x0, 0x4, 0x6, 0x8, 0x10, 0x18] 0x28"
  by (simp add: layout_check_def ntfs_index_block_def)

definition ntfs_index_entry :: layout where
  "ntfs_index_entry = [(''indexed_file'', 8), (''length'', 2), (''key_length'', 2), (''flags'', 2),
     (''reserved'', 2)]"

lemma ntfs_index_entry_layout:
  "layout_check ntfs_index_entry [0x0, 0x8, 0xa, 0xc, 0xe] 0x10"
  by (simp add: layout_check_def ntfs_index_entry_def)

definition ntfs_file_name :: layout where
  "ntfs_file_name = [(''parent_directory'', 8), (''creation_time'', 8),
     (''last_data_change_time'', 8), (''last_mft_change_time'', 8), (''last_access_time'', 8),
     (''allocated_size'', 8), (''data_size'', 8), (''file_attributes'', 4), (''reparse_tag'', 4),
     (''file_name_length'', 1), (''file_name_type'', 1)]"

lemma ntfs_file_name_layout:
  "layout_check ntfs_file_name [0x0, 0x8, 0x10, 0x18, 0x20, 0x28, 0x30, 0x38, 0x3c, 0x40,
     0x41] 0x42"
  by (simp add: layout_check_def ntfs_file_name_def)

section \<open>Constants\<close>

definition NTFS_BOOT_SIGNATURE :: nat where "NTFS_BOOT_SIGNATURE = 0xaa55"
definition NTFS_OEM_ID :: bytes where "NTFS_OEM_ID = [0x4e, 0x54, 0x46, 0x53, 0x20, 0x20, 0x20, 0x20]"
definition NTFS_BS_NEGATIVE :: nat where "NTFS_BS_NEGATIVE = 0x80"
definition NTFS_BS_MAX_CLUSTER_SHIFT :: nat where "NTFS_BS_MAX_CLUSTER_SHIFT = 20"
definition NTFS_BS_MAX_RECORD_SHIFT :: nat where "NTFS_BS_MAX_RECORD_SHIFT = 12"
definition NTFS_RECORD_MAGIC :: bytes where "NTFS_RECORD_MAGIC = [0x46, 0x49, 0x4c, 0x45]"
definition NTFS_USA_OFFSET_31 :: nat where "NTFS_USA_OFFSET_31 = 0x30"
definition NTFS_USA_OFFSET_30 :: nat where "NTFS_USA_OFFSET_30 = 0x2a"
definition NTFS_RECORD_IN_USE :: nat where "NTFS_RECORD_IN_USE = 0x0001"
definition NTFS_RECORD_IS_DIRECTORY :: nat where "NTFS_RECORD_IS_DIRECTORY = 0x0002"
definition NTFS_MFT_REF_RECORD_MASK :: nat where "NTFS_MFT_REF_RECORD_MASK = 0xffffffffffff"
definition NTFS_MFT_REF_SEQ_SHIFT :: nat where "NTFS_MFT_REF_SEQ_SHIFT = 48"
definition NTFS_AT_ATTRIBUTE_LIST :: nat where "NTFS_AT_ATTRIBUTE_LIST = 0x20"
definition NTFS_AT_VOLUME_INFORMATION :: nat where "NTFS_AT_VOLUME_INFORMATION = 0x70"
definition NTFS_AT_DATA :: nat where "NTFS_AT_DATA = 0x80"
definition NTFS_AT_END :: nat where "NTFS_AT_END = 0xffffffff"
definition NTFS_ATTR_COMPRESSION_MASK :: nat where "NTFS_ATTR_COMPRESSION_MASK = 0x00ff"
definition NTFS_ATTR_IS_COMPRESSED :: nat where "NTFS_ATTR_IS_COMPRESSED = 0x0001"
definition NTFS_ATTR_IS_ENCRYPTED :: nat where "NTFS_ATTR_IS_ENCRYPTED = 0x4000"
definition NTFS_ATTR_IS_SPARSE :: nat where "NTFS_ATTR_IS_SPARSE = 0x8000"
definition NTFS_RUN_LENGTH_SIZE_MASK :: nat where "NTFS_RUN_LENGTH_SIZE_MASK = 0x0f"
definition NTFS_RUN_OFFSET_SIZE_SHIFT :: nat where "NTFS_RUN_OFFSET_SIZE_SHIFT = 4"
definition NTFS_RUN_MAX_FIELD :: nat where "NTFS_RUN_MAX_FIELD = 8"
definition NTFS_MFT_RECORD_VOLUME :: nat where "NTFS_MFT_RECORD_VOLUME = 3"
definition GPT_SIGNATURE :: bytes where "GPT_SIGNATURE = [0x45, 0x46, 0x49, 0x20, 0x50, 0x41, 0x52, 0x54]"
definition GPT_MAX_HEADER_SIZE :: nat where "GPT_MAX_HEADER_SIZE = 512"
definition GPT_MAX_ENTRIES :: nat where "GPT_MAX_ENTRIES = 1024"
definition GPT_ESP_TYPE :: bytes where
  "GPT_ESP_TYPE = [0x28, 0x73, 0x2a, 0xc1, 0x1f, 0xf8, 0xd2, 0x11,
     0xba, 0x4b, 0x00, 0xa0, 0xc9, 0x3e, 0xc9, 0x3b]"
definition CRC32_POLY :: "32 word" where "CRC32_POLY = 0xedb88320"
definition FAT_FS_TYPE :: bytes where "FAT_FS_TYPE = [0x46, 0x41, 0x54]"
definition FAT32_FS_TYPE :: bytes where "FAT32_FS_TYPE = [0x46, 0x41, 0x54, 0x33, 0x32]"
definition EXT4_SUPERBLOCK_OFFSET :: nat where "EXT4_SUPERBLOCK_OFFSET = 1024"
definition EXT4_SUPER_MAGIC :: nat where "EXT4_SUPER_MAGIC = 0xef53"
definition EXT4_EXT_MAGIC :: nat where "EXT4_EXT_MAGIC = 0xf30a"
definition EXT4_DYNAMIC_REV :: nat where "EXT4_DYNAMIC_REV = 1"
definition EXT4_GOOD_OLD_INODE_SIZE :: nat where "EXT4_GOOD_OLD_INODE_SIZE = 128"
definition EXT4_MAX_LOG_BLOCK_SIZE :: nat where "EXT4_MAX_LOG_BLOCK_SIZE = 6"
definition EXT4_MIN_DESC_SIZE :: nat where "EXT4_MIN_DESC_SIZE = 32"
definition EXT4_MIN_DESC_SIZE_64BIT :: nat where "EXT4_MIN_DESC_SIZE_64BIT = 64"
definition EXT4_MAX_DESC_SIZE :: nat where "EXT4_MAX_DESC_SIZE = 1024"
definition EXT4_FEATURE_COMPAT_SPARSE_SUPER2 :: nat where "EXT4_FEATURE_COMPAT_SPARSE_SUPER2 = 0x0200"
definition EXT4_FEATURE_INCOMPAT_64BIT :: nat where "EXT4_FEATURE_INCOMPAT_64BIT = 0x0080"
definition EXT4_ROOT_INO :: nat where "EXT4_ROOT_INO = 2"
definition EXT4_S_IFMT :: nat where "EXT4_S_IFMT = 0xf000"
definition EXT4_S_IFDIR :: nat where "EXT4_S_IFDIR = 0x4000"
definition ISO_PVD_OFFSET :: nat where "ISO_PVD_OFFSET = 32768"
definition ISO_VD_PRIMARY :: nat where "ISO_VD_PRIMARY = 1"
definition ISO_STANDARD_ID :: bytes where "ISO_STANDARD_ID = [0x43, 0x44, 0x30, 0x30, 0x31]"
definition ISO_VD_VERSION :: nat where "ISO_VD_VERSION = 1"
definition ISO_FLAG_DIRECTORY :: nat where "ISO_FLAG_DIRECTORY = 0x02"
definition NTFS_AT_FILE_NAME :: nat where "NTFS_AT_FILE_NAME = 0x30"
definition NTFS_AT_INDEX_ROOT :: nat where "NTFS_AT_INDEX_ROOT = 0x90"
definition NTFS_AT_INDEX_ALLOCATION :: nat where "NTFS_AT_INDEX_ALLOCATION = 0xa0"
definition NTFS_AT_BITMAP :: nat where "NTFS_AT_BITMAP = 0xb0"
definition NTFS_COLLATION_FILE_NAME :: nat where "NTFS_COLLATION_FILE_NAME = 1"
definition NTFS_INDEX_MAGIC :: bytes where "NTFS_INDEX_MAGIC = [0x49, 0x4e, 0x44, 0x58]"
definition NTFS_INDEX_LARGE :: nat where "NTFS_INDEX_LARGE = 1"
definition NTFS_INDEX_ENTRY_NODE :: nat where "NTFS_INDEX_ENTRY_NODE = 1"
definition NTFS_INDEX_ENTRY_END :: nat where "NTFS_INDEX_ENTRY_END = 2"
definition NTFS_FILE_ATTR_DUP_FILE_NAME_INDEX_PRESENT :: nat where "NTFS_FILE_ATTR_DUP_FILE_NAME_INDEX_PRESENT = 0x10000000"
definition NTFS_FILE_ATTR_REPARSE_POINT :: nat where "NTFS_FILE_ATTR_REPARSE_POINT = 0x0400"

end
