(* ===== verification/Ntfs.thy ===== *)
theory Ntfs
  imports Bytes NtfsLayout Range Runlist
begin

text \<open>
  The NTFS parser of \<open>crates/paguro-core/src/ntfs.rs\<close>: from a volume to the runs of one file.

  A disk is a function \<open>'s \<Rightarrow> nat \<Rightarrow> bytes option \<times> 's\<close> (the trait method \<open>Disk::read\<close>, with the
  implementor's state): it may fail, and it may answer the same sector differently on the next
  read, as a volume under a concurrent writer does.  The locale \<open>sector_disk\<close> has what the type
  \<open>[u8; 512]\<close> of the read buffer guarantees; it is interpreted for the harness's in-memory image.

  The output buffer \<open>out: &mut [Run]\<close> of a walk is its capacity and the list of runs written so
  far; the record buffer is completely overwritten by each record read, so it is the record
  returned; the attribute-list buffer keeps its 64 KiB.
\<close>

section \<open>Constants, errors, data\<close>

definition NTFS_SECTOR :: nat where "NTFS_SECTOR = 512"
definition MAX_RECORD :: nat where "MAX_RECORD = 4096"
definition MAX_ALIST :: nat where "MAX_ALIST = 65536"
definition MAX_EXTENSIONS :: nat where "MAX_EXTENSIONS = 64"
definition MAX_CLUSTER :: nat where "MAX_CLUSTER = 2 * 2 ^ 20"
definition MAX_EXTENTS :: nat where "MAX_EXTENTS = 65536"
definition MAX_RECORD_NUMBER :: nat where "MAX_RECORD_NUMBER = 0xffffffff"
definition FIRST_USER_RECORD :: nat where "FIRST_USER_RECORD = 24"
definition VOLUME_DIRTY :: nat where "VOLUME_DIRTY = 0x0001"
definition ATTR_LIST :: nat where "ATTR_LIST = NTFS_AT_ATTRIBUTE_LIST"
definition ATTR_DATA :: nat where "ATTR_DATA = NTFS_AT_DATA"

datatype ntfs_error = Io | BootSignature | OemId | SectorSize | ClusterSize | VolumeSize
  | RecordSize | MftLcn | BadIdentity | NotMapped | RecordMagic | RecordLayout | FixupMismatch
  | RecordNumber | NotInUse | Directory | Sequence | NotBase | AttrBounds | NoData | DuplicateData
  | Resident | Compressed | Encrypted | Sparse | Gap | SegmentVcn | OutsideVolume | AttrList
  | AttrListSize | TooManyExtensions | MissingSegment | ExtensionBase | MftAttrList
  | AllocatedSize | NotInitialized | Unaligned | TooManyExtents | NoVolumeInfo | SelfOverlap
  | PayloadGpt | PayloadNoKnownPartition | PayloadNotFat | PayloadGptCrc | PayloadGptBackup
  | PayloadExt4 | PayloadIso | PayloadUnknown | Runlist runlist_error

fun ntfs_code :: "ntfs_error \<Rightarrow> int" where
  "ntfs_code Io = 1" | "ntfs_code BootSignature = 2" | "ntfs_code OemId = 3"
| "ntfs_code SectorSize = 4" | "ntfs_code ClusterSize = 5" | "ntfs_code VolumeSize = 6"
| "ntfs_code RecordSize = 7" | "ntfs_code MftLcn = 8" | "ntfs_code BadIdentity = 9"
| "ntfs_code NotMapped = 10" | "ntfs_code RecordMagic = 11" | "ntfs_code RecordLayout = 12"
| "ntfs_code FixupMismatch = 13" | "ntfs_code RecordNumber = 14" | "ntfs_code NotInUse = 15"
| "ntfs_code Directory = 16" | "ntfs_code Sequence = 17" | "ntfs_code NotBase = 18"
| "ntfs_code AttrBounds = 19" | "ntfs_code NoData = 20" | "ntfs_code DuplicateData = 21"
| "ntfs_code Resident = 22" | "ntfs_code Compressed = 23" | "ntfs_code Encrypted = 24"
| "ntfs_code Sparse = 25" | "ntfs_code Gap = 26" | "ntfs_code SegmentVcn = 27"
| "ntfs_code OutsideVolume = 28" | "ntfs_code AttrList = 29" | "ntfs_code AttrListSize = 30"
| "ntfs_code TooManyExtensions = 31" | "ntfs_code MissingSegment = 32"
| "ntfs_code ExtensionBase = 33" | "ntfs_code MftAttrList = 34" | "ntfs_code AllocatedSize = 35"
| "ntfs_code NotInitialized = 36" | "ntfs_code Unaligned = 37" | "ntfs_code TooManyExtents = 38"
| "ntfs_code NoVolumeInfo = 39" | "ntfs_code SelfOverlap = 40" | "ntfs_code PayloadGpt = 41"
| "ntfs_code PayloadNoKnownPartition = 42" | "ntfs_code PayloadNotFat = 43"
| "ntfs_code PayloadGptCrc = 44" | "ntfs_code PayloadGptBackup = 45"
| "ntfs_code PayloadExt4 = 46" | "ntfs_code PayloadIso = 47" | "ntfs_code PayloadUnknown = 48"
| "ntfs_code (Runlist e) = (case e of
      runlist_error.Truncated \<Rightarrow> 50 | FieldTooWide \<Rightarrow> 51 | runlist_error.Sparse \<Rightarrow> 52
    | ZeroLength \<Rightarrow> 53 | NegativeLcn \<Rightarrow> 54 | Overflow \<Rightarrow> 55 | TooManyRuns \<Rightarrow> 56
    | Unterminated \<Rightarrow> 57)"

record volume =
  vsectors :: nat
  vclusters :: nat
  cluster_bytes :: nat
  record_bytes :: nat
  mft_lcn :: nat

record mft =
  mvol :: volume
  mruns :: "run list"
  mbytes :: nat

record file_map =
  fruns :: "run list"
  data_size :: nat

type_synonym 'a nres = "(ntfs_error, 'a) res"
type_synonym ('s, 'a) nio = "('s, ntfs_error, 'a) io"
type_synonym 's disk = "'s \<Rightarrow> nat \<Rightarrow> bytes option \<times> 's"

section \<open>Getters\<close>

text \<open>
  \<open>get\<close>: little-endian, assembled by shifts in 64 bits.  A read outside \<open>b\<close> fails the source's
  \<open>debug_assert!\<close>.
\<close>

definition fold_le :: "bytes \<Rightarrow> nat" where
  "fold_le s = fold (\<lambda>x a. (push_bit 8 a mod u64_lim) OR unat x) (rev s) 0"

definition get_le :: "bytes \<Rightarrow> nat \<Rightarrow> nat \<Rightarrow> nat nres" where
  "get_le b at n =
    (case checked_add at n of
      None \<Rightarrow> Panic
    | Some e \<Rightarrow> (case get_range b at e of None \<Rightarrow> Panic | Some s \<Rightarrow> Ok (fold_le s)))"

definition g16 :: "bytes \<Rightarrow> nat \<Rightarrow> nat nres" where
  "g16 b at = get_le b at 2"

definition get_at :: "bytes \<Rightarrow> nat \<Rightarrow> layout \<Rightarrow> string \<Rightarrow> nat nres" where
  "get_at b at L f = rbind (add64 at (offset_of L f)) (\<lambda>off. get_le b off (field_size L f))"

definition get_f :: "bytes \<Rightarrow> layout \<Rightarrow> string \<Rightarrow> nat nres" where
  "get_f b L f = get_at b 0 L f"

section \<open>The boot sector\<close>

definition cluster_sectors :: "nat \<Rightarrow> nat nres" where
  \<comment> \<open>sectors per cluster from its byte: the value, or \<open>2^(256 - raw)\<close>\<close>
  "cluster_sectors raw =
    (if raw \<le> NTFS_BS_NEGATIVE then Ok raw
     else rbind (sub64 256 raw) (\<lambda>sh.
       if sh \<le> NTFS_BS_MAX_CLUSTER_SHIFT then Ok (2 ^ sh) else Ok 0))"

definition record_size :: "nat \<Rightarrow> nat \<Rightarrow> nat nres" where
  \<comment> \<open>clusters per record if positive, else \<open>2^-raw\<close> bytes\<close>
  "record_size raw cbytes =
    (if raw < NTFS_BS_NEGATIVE then mul64 raw cbytes
     else rbind (sub64 256 raw) (\<lambda>sh.
       if sh \<le> NTFS_BS_MAX_RECORD_SHIFT then Ok (2 ^ sh) else Ok 0))"

definition boot_geometry :: "bytes \<Rightarrow> nat \<Rightarrow> volume nres" where
  "boot_geometry b bps =
    rbind (get_f b ntfs_boot_sector ''sectors_per_cluster'') (\<lambda>raw.
    rbind (cluster_sectors raw) (\<lambda>spc.
    rbind (mul64 bps spc) (\<lambda>cbytes.
    if spc = 0 \<or> \<not> is_power_of_two spc \<or> cbytes > MAX_CLUSTER then Err ClusterSize else
    rbind (get_f b ntfs_boot_sector ''total_sectors'') (\<lambda>tot.
    rbind (ok_or (checked_mul tot bps) VolumeSize) (\<lambda>nbytes.
    let ncl = nbytes div cbytes in
    if ncl = 0 then Err VolumeSize else
    rbind (get_f b ntfs_boot_sector ''clusters_per_mft_record'') (\<lambda>raw.
    rbind (record_size raw cbytes) (\<lambda>rbytes.
    if \<not> (1024 \<le> rbytes \<and> rbytes \<le> MAX_RECORD) \<or> \<not> is_power_of_two rbytes then Err RecordSize else
    rbind (get_f b ntfs_boot_sector ''mft_lcn'') (\<lambda>lcn.
    if lcn \<ge> ncl then Err MftLcn else
    rbind (sub64 ncl lcn) (\<lambda>room.
    if room < div_ceil rbytes cbytes then Err MftLcn else
    rbind (mul64 ncl (cbytes div NTFS_SECTOR)) (\<lambda>secs.
    Ok \<lparr>vsectors = secs, vclusters = ncl, cluster_bytes = cbytes, record_bytes = rbytes,
        mft_lcn = lcn\<rparr>))))))))))"

definition parse_boot :: "bytes \<Rightarrow> volume nres" where
  "parse_boot b =
    rbind (get_f b ntfs_boot_sector ''signature'') (\<lambda>sig.
    if sig \<noteq> NTFS_BOOT_SIGNATURE then Err BootSignature else
    let oem = offset_of ntfs_boot_sector ''oem_id'' in
    if get_range b oem (oem + field_size ntfs_boot_sector ''oem_id'') \<noteq> Some NTFS_OEM_ID
      then Err OemId else
    rbind (get_f b ntfs_boot_sector ''bytes_per_sector'') (\<lambda>bps.
    if bps \<noteq> 512 \<and> bps \<noteq> 4096 then Err SectorSize else boot_geometry b bps))"

section \<open>Mapped reads\<close>

fun sector_loop :: "volume \<Rightarrow> nat \<Rightarrow> nat \<Rightarrow> run list \<Rightarrow> nat option nres" where
  "sector_loop vol off vcn [] = Ok None"
| "sector_loop vol off vcn (r # rs) =
    (if vcn < run_count r then
       rbind (add64 (run_lcn r) vcn) (\<lambda>c.
       rbind (mul64 c (cluster_bytes vol)) (\<lambda>m.
       rbind (add64 m (off mod cluster_bytes vol)) (\<lambda>byte.
       Ok (Some (byte div NTFS_SECTOR)))))
     else rbind (sub64 vcn (run_count r)) (\<lambda>vcn. sector_loop vol off vcn rs))"

definition sector_of :: "volume \<Rightarrow> run list \<Rightarrow> nat \<Rightarrow> nat option nres" where
  "sector_of vol runs off =
    (if cluster_bytes vol = 0 then Panic
     else sector_loop vol off (off div cluster_bytes vol) runs)"

definition disk_read :: "'s disk \<Rightarrow> nat \<Rightarrow> ('s, bytes) nio" where
  "disk_read rd sector = (\<lambda>s. case rd s sector of (r, s') \<Rightarrow> (ok_or r Io, s'))"

text \<open>The loop that fills a buffer sector by sector; \<open>e\<close> is its error for an unmapped offset.\<close>

fun read_chunks :: "'s disk \<Rightarrow> volume \<Rightarrow> run list \<Rightarrow> ntfs_error \<Rightarrow> nat \<Rightarrow> nat \<Rightarrow> ('s, bytes) nio" where
  "read_chunks rd vol runs e 0 off = lift (Ok [])"
| "read_chunks rd vol runs e (Suc k) off =
    ibind (lift (rbind (sector_of vol runs off) (\<lambda>s. ok_or s e))) (\<lambda>s.
    ibind (disk_read rd s) (\<lambda>chunk.
    ibind (lift (add64 off NTFS_SECTOR)) (\<lambda>off.
    ibind (read_chunks rd vol runs e k off) (\<lambda>more_chunks.
    lift (Ok (chunk @ more_chunks))))))"

fun fixup_loop :: "nat \<Rightarrow> nat \<Rightarrow> bytes \<Rightarrow> nat list \<Rightarrow> bytes nres" where
  "fixup_loop usn usa rec [] = Ok rec"
| "fixup_loop usn usa rec (i # is) =
    rbind (mul64 i NTFS_SECTOR) (\<lambda>m. rbind (sub64 m 2) (\<lambda>at.
    rbind (g16 rec at) (\<lambda>v.
    if v \<noteq> usn then Err FixupMismatch else
    rbind (mul64 2 i) (\<lambda>d. rbind (add64 usa d) (\<lambda>src.
    rbind (g16 rec src) (\<lambda>fix.
    let rec' = (if at + 2 \<le> length rec then overwrite rec at (take 2 (le_bytes 8 fix)) else rec) in
    fixup_loop usn usa rec' is))))))"

text \<open>Everything \<open>read_record\<close> does with the record once its sectors are read.\<close>

definition check_record :: "volume \<Rightarrow> nat \<Rightarrow> bytes \<Rightarrow> bytes nres" where
  "check_record vol recno rec =
    (if get_range rec 0 (field_size ntfs_file_record ''magic'') \<noteq> Some NTFS_RECORD_MAGIC
       then Err RecordMagic else
     rbind (get_f rec ntfs_file_record ''usa_count'') (\<lambda>count.
     rbind (get_f rec ntfs_file_record ''usa_offset'') (\<lambda>usa.
     if (usa \<noteq> NTFS_USA_OFFSET_31 \<and> usa \<noteq> NTFS_USA_OFFSET_30)
        \<or> count \<noteq> length rec div NTFS_SECTOR + 1 then Err RecordLayout else
     rbind (g16 rec usa) (\<lambda>usn.
     rbind (fixup_loop usn usa rec [1..<count]) (\<lambda>rec.
     rbind (get_f rec ntfs_file_record ''attrs_offset'') (\<lambda>attrs.
     rbind (get_f rec ntfs_file_record ''bytes_in_use'') (\<lambda>used.
     rbind (get_f rec ntfs_file_record ''bytes_allocated'') (\<lambda>alloc.
     if alloc \<noteq> record_bytes vol \<or> used > record_bytes vol \<or> used mod 8 \<noteq> 0 \<or> attrs mod 8 \<noteq> 0
        \<or> attrs < usa + 2 * count \<or> attrs \<ge> used then Err RecordLayout else
     rbind (if usa = NTFS_USA_OFFSET_31
            then rbind (get_f rec ntfs_file_record ''mft_record_number'') (\<lambda>n. Ok (n \<noteq> recno))
            else Ok False) (\<lambda>wrong.
     if wrong then Err RecordNumber else Ok rec)))))))))"

definition read_record :: "'s disk \<Rightarrow> volume \<Rightarrow> run list \<Rightarrow> nat \<Rightarrow> nat \<Rightarrow> ('s, bytes) nio" where
  "read_record rd vol runs limit recno =
    (let rb = record_bytes vol in
     ibind (lift (ok_or (checked_mul recno rb) NotMapped)) (\<lambda>start.
     ibind (lift (if start > limit then Err NotMapped else
            rbind (sub64 limit start) (\<lambda>room. ensure (rb \<le> room) NotMapped))) (\<lambda>_.
     ibind (lift (ensure (rb \<le> MAX_RECORD) RecordSize)) (\<lambda>_.
     ibind (read_chunks rd vol runs NotMapped (rb div NTFS_SECTOR) start) (\<lambda>rec.
     lift (check_record vol recno rec))))))"

section \<open>Attributes\<close>

definition attr_at :: "bytes \<Rightarrow> nat \<Rightarrow> (nat \<times> nat) option nres" where
  "attr_at rec pos =
    rbind (get_f rec ntfs_file_record ''bytes_in_use'') (\<lambda>used.
    rbind (add64 pos (field_size ntfs_attr ''type'')) (\<lambda>p4.
    if p4 > used then Err AttrBounds else
    rbind (get_at rec pos ntfs_attr ''type'') (\<lambda>ty.
    if ty = NTFS_AT_END then Ok None else
    rbind (add64 pos (size_of ntfs_attr_resident)) (\<lambda>ph.
    if ph > used then Err AttrBounds else
    rbind (get_at rec pos ntfs_attr ''length'') (\<lambda>len.
    rbind (sub64 used pos) (\<lambda>room.
    if len < size_of ntfs_attr_resident \<or> len mod 8 \<noteq> 0 \<or> len > room then Err AttrBounds else
    rbind (get_at rec pos ntfs_attr ''non_resident'') (\<lambda>nonres.
    rbind (get_at rec pos ntfs_attr ''name_length'') (\<lambda>name_len.
    rbind (if nonres > 1 then Ok True
           else if name_len > 0 then
             rbind (get_at rec pos ntfs_attr ''name_offset'') (\<lambda>no.
             rbind (mul64 2 name_len) (\<lambda>nl. rbind (add64 no nl) (\<lambda>e. Ok (e > len))))
           else Ok False) (\<lambda>bad.
    if bad then Err AttrBounds else
    if nonres = 1 \<and> len < size_of ntfs_attr_nonresident then Err AttrBounds else
    rbind (if nonres = 0 then
             rbind (get_at rec pos ntfs_attr_resident ''value_offset'') (\<lambda>vo.
             rbind (get_at rec pos ntfs_attr_resident ''value_length'') (\<lambda>vl.
             rbind (add64 vo vl) (\<lambda>e. Ok (e > len))))
           else Ok False) (\<lambda>bad.
    if bad then Err AttrBounds else Ok (Some (ty, len))))))))))))"

record seg =
  srun :: "run list"
  svcn :: nat
  salloc :: nat
  ssize :: nat
  sinit :: nat

fun check_runs :: "volume \<Rightarrow> run list \<Rightarrow> unit nres" where
  "check_runs vol [] = Ok ()"
| "check_runs vol (r # rs) =
    rbind (add64 (run_lcn r) (run_count r)) (\<lambda>e.
    if e > vclusters vol then Err OutsideVolume else check_runs vol rs)"

definition decode_runs :: "volume \<Rightarrow> bytes \<Rightarrow> nat \<Rightarrow> nat \<Rightarrow> run list nres" where
  "decode_runs vol rec pos cap =
    rbind (get_at rec pos ntfs_attr ''length'') (\<lambda>len.
    rbind (get_at rec pos ntfs_attr_nonresident ''mapping_pairs_offset'') (\<lambda>mp.
    if mp < size_of ntfs_attr_nonresident \<or> mp \<ge> len then Err AttrBounds else
    rbind (add64 pos mp) (\<lambda>a. rbind (add64 pos len) (\<lambda>e.
    rbind (ok_or (get_range rec a e) AttrBounds) (\<lambda>src.
    rbind (map_err Runlist (decode src cap)) (\<lambda>rs.
    rbind (check_runs vol rs) (\<lambda>_. Ok rs)))))))"

fun sum_counts :: "nat \<Rightarrow> run list \<Rightarrow> nat nres" where
  "sum_counts s [] = Ok s"
| "sum_counts s (r # rs) =
    rbind (ok_or (checked_add s (run_count r)) SegmentVcn) (\<lambda>s. sum_counts s rs)"

definition segment :: "volume \<Rightarrow> bytes \<Rightarrow> nat \<Rightarrow> seg \<Rightarrow> nat \<Rightarrow> seg nres" where
  "segment vol rec pos st cap =
    rbind (get_at rec pos ntfs_attr ''non_resident'') (\<lambda>nr.
    if nr = 0 then Err Resident else
    rbind (get_at rec pos ntfs_attr ''flags'') (\<lambda>flags.
    if flags AND NTFS_ATTR_IS_SPARSE \<noteq> 0 then Err Sparse else
    if flags AND NTFS_ATTR_IS_ENCRYPTED \<noteq> 0 then Err Encrypted else
    rbind (get_at rec pos ntfs_attr_nonresident ''lowest_vcn'') (\<lambda>lowest.
    let mask = (if lowest \<noteq> 0 then NTFS_ATTR_IS_COMPRESSED else NTFS_ATTR_COMPRESSION_MASK) in
    rbind (if flags AND mask \<noteq> 0 then Ok True
           else rbind (get_at rec pos ntfs_attr_nonresident ''compression_unit'') (\<lambda>cu. Ok (cu \<noteq> 0)))
      (\<lambda>compressed.
    if compressed then Err Compressed else
    if lowest \<noteq> svcn st then Err Gap else
    rbind (if lowest = 0 then
             rbind (get_at rec pos ntfs_attr_nonresident ''allocated_size'') (\<lambda>a.
             rbind (get_at rec pos ntfs_attr_nonresident ''data_size'') (\<lambda>d.
             rbind (get_at rec pos ntfs_attr_nonresident ''initialized_size'') (\<lambda>i.
             Ok (st\<lparr>salloc := a, ssize := d, sinit := i\<rparr>))))
           else Ok st) (\<lambda>st.
    rbind (decode_runs vol rec pos (cap - length (srun st))) (\<lambda>rs.
    rbind (sum_counts 0 rs) (\<lambda>s.
    rbind (ok_or (checked_add lowest s) SegmentVcn) (\<lambda>nxt.
    if rs = [] then Err SegmentVcn else
    rbind (get_at rec pos ntfs_attr_nonresident ''highest_vcn'') (\<lambda>hi.
    rbind (sub64 nxt 1) (\<lambda>lst.
    if hi \<noteq> lst then Err SegmentVcn else
    Ok (st\<lparr>srun := srun st @ rs, svcn := nxt\<rparr>)))))))))))"

section \<open>Facts about the getters\<close>

text \<open>The value of a field, and when reading it does not panic.\<close>

definition fld :: "bytes \<Rightarrow> nat \<Rightarrow> layout \<Rightarrow> string \<Rightarrow> nat" where
  "fld b at L f = le_val (take (field_size L f) (drop (at + offset_of L f) b))"

lemma fold_le_le_val: "length s \<le> 8 \<Longrightarrow> fold_le s = le_val s"
proof -
  have "fold (\<lambda>x a. (push_bit 8 a mod u64_lim) OR unat x) (rev s) 0 = le_val s" if "length s \<le> 8" for s
    using that
  proof (induction s)
    case (Cons b s)
    have "le_val s < 256 ^ length s" by (rule le_val_bound)
    also have "\<dots> \<le> 256 ^ 7" using Cons.prems by (intro power_increasing) auto
    finally have "256 * le_val s < u64_lim" by simp
    moreover have "push_bit 8 (le_val s) OR unat b = unat b + 256 * le_val s"
      using byte_or_shift [of b "le_val s"] by (simp add: or.commute)
    ultimately show ?case using Cons by (simp add: push_bit_eq_mult mult.commute)
  qed simp
  then show "length s \<le> 8 \<Longrightarrow> fold_le s = le_val s" by (simp add: fold_le_def)
qed

lemma wp_get_le:
  assumes "n \<le> 8"
  shows "wp (get_le b at n) Q \<longleftrightarrow>
    at + n < u64_lim \<and> at + n \<le> length b \<and> Q (le_val (take n (drop at b)))"
  using assms by (auto simp: get_le_def get_range_def fold_le_le_val checked_add_def)

lemma wp_get_at:
  assumes "field_size L f \<le> 8"
  shows "wp (get_at b at L f) Q \<longleftrightarrow> at + offset_of L f + field_size L f < u64_lim
    \<and> at + offset_of L f + field_size L f \<le> length b \<and> Q (fld b at L f)"
  using assms by (auto simp: get_at_def wp_get_le fld_def)

lemma wlp_get_at:
  assumes "field_size L f \<le> 8"
  shows "wlp (get_at b at L f) Q \<longleftrightarrow> (at + offset_of L f + field_size L f < u64_lim
    \<and> at + offset_of L f + field_size L f \<le> length b \<longrightarrow> Q (fld b at L f))"
proof (cases "get_at b at L f = Panic")
  case True
  then have "\<not> wp (get_at b at L f) (\<lambda>_. True)" by simp
  then have "\<not> (at + offset_of L f + field_size L f < u64_lim
      \<and> at + offset_of L f + field_size L f \<le> length b)"
    unfolding wp_get_at [OF assms] by simp
  with True show ?thesis by auto
next
  case False
  then have ok: "wp (get_at b at L f) (\<lambda>_. True)" by (simp add: wp_True)
  then have "wp (get_at b at L f) (\<lambda>x. x = fld b at L f)" by (simp add: wp_get_at [OF assms])
  moreover have "get_at b at L f \<noteq> Err e" for e
    by (simp add: get_at_def get_le_def add64_def split: option.split)
  ultimately have "get_at b at L f = Ok (fld b at L f)" by (cases "get_at b at L f") auto
  with ok [unfolded wp_get_at [OF assms]] show ?thesis by simp
qed

lemma fld_bound: "fld b at L f < 256 ^ field_size L f"
proof -
  have "fld b at L f < 256 ^ length (take (field_size L f) (drop (at + offset_of L f) b))"
    unfolding fld_def by (rule le_val_bound)
  also have "\<dots> \<le> 256 ^ field_size L f" by (intro power_increasing) auto
  finally show ?thesis .
qed

text \<open>An attribute accepted by \<open>attr_at\<close> has at least the resident header and ends in the record.\<close>

abbreviation used_of :: "bytes \<Rightarrow> nat" where
  "used_of rec \<equiv> fld rec 0 ntfs_file_record ''bytes_in_use''"

definition attr_ok :: "bytes \<Rightarrow> nat \<Rightarrow> nat \<Rightarrow> nat \<Rightarrow> bool" where
  "attr_ok rec pos ty len \<longleftrightarrow>
     len = fld rec pos ntfs_attr ''length'' \<and> ty = fld rec pos ntfs_attr ''type''
   \<and> 24 \<le> len \<and> pos + len \<le> used_of rec \<and> fld rec pos ntfs_attr ''non_resident'' \<le> 1
   \<and> (fld rec pos ntfs_attr ''non_resident'' = 1 \<longrightarrow> 64 \<le> len)
   \<and> (fld rec pos ntfs_attr ''non_resident'' = 0 \<longrightarrow>
        fld rec pos ntfs_attr_resident ''value_offset'' + fld rec pos ntfs_attr_resident ''value_length'' \<le> len)"

lemma attr_at_wlp: "wlp (attr_at rec pos) (\<lambda>r. \<forall>ty len. r = Some (ty, len) \<longrightarrow> attr_ok rec pos ty len)"
  unfolding attr_at_def get_f_def
  by (simp add: wlp_get_at layout_simps attr_ok_def not_less) linarith

lemma attr_at_SomeD: "attr_at rec pos = Ok (Some (ty, len)) \<Longrightarrow> attr_ok rec pos ty len"
  using wlp_OkD [OF attr_at_wlp] by blast

lemma attr_at_progress:
  "attr_at rec pos = Ok (Some (ty, len)) \<Longrightarrow> used_of rec - (pos + len) < used_of rec - pos"
  by (drule attr_at_SomeD) (auto simp: attr_ok_def)

section \<open>The attribute list\<close>

definition load_list ::
  "'s disk \<Rightarrow> volume \<Rightarrow> bytes \<Rightarrow> nat \<Rightarrow> bytes \<Rightarrow> nat \<Rightarrow> ('s, nat \<times> bytes) nio" where
  "load_list rd vol rec pos alist cap =
    ibind (lift (get_at rec pos ntfs_attr ''non_resident'')) (\<lambda>nr.
    if nr = 0 then
      lift (rbind (get_at rec pos ntfs_attr_resident ''value_length'') (\<lambda>size.
        rbind (get_at rec pos ntfs_attr_resident ''value_offset'') (\<lambda>vo.
        rbind (add64 pos vo) (\<lambda>voff. rbind (add64 voff size) (\<lambda>e.
        rbind (ok_or (get_range rec voff e) AttrBounds) (\<lambda>src.
        if size > length alist then Err AttrListSize
        else Ok (size, src @ drop size alist)))))))
    else
      ibind (lift (get_at rec pos ntfs_attr ''flags'')) (\<lambda>flags.
      ibind (lift (if flags \<noteq> 0 then Err AttrList
             else rbind (get_at rec pos ntfs_attr_nonresident ''lowest_vcn'') (\<lambda>l. ensure (l = 0) AttrList)))
        (\<lambda>_.
      ibind (lift (get_at rec pos ntfs_attr_nonresident ''data_size'')) (\<lambda>size.
      ibind (lift (ensure (size \<le> MAX_ALIST) AttrListSize)) (\<lambda>_.
      ibind (lift (get_at rec pos ntfs_attr_nonresident ''initialized_size'')) (\<lambda>ini.
      ibind (lift (ensure (ini = size) AttrList)) (\<lambda>_.
      ibind (lift (decode_runs vol rec pos cap)) (\<lambda>runs.
      ibind (lift (mul64 (div_ceil size NTFS_SECTOR) NTFS_SECTOR)) (\<lambda>whole.
      ibind (read_chunks rd vol runs AttrList
               (if whole \<le> length alist then whole div NTFS_SECTOR else 0) 0) (\<lambda>dat.
      lift (Ok (size, dat @ drop (length dat) alist))))))))))))"

function find_segment_from :: "bytes \<Rightarrow> nat \<Rightarrow> nat \<Rightarrow> nat option nres" where
  "find_segment_from rec inst pos =
    rbind (attr_at rec pos) (\<lambda>a.
    case a of None \<Rightarrow> Ok None
    | Some (ty, len) \<Rightarrow>
        rbind (if ty = ATTR_DATA then
                 rbind (get_at rec pos ntfs_attr ''name_length'') (\<lambda>nl.
                 if nl = 0 then rbind (get_at rec pos ntfs_attr ''instance'') (\<lambda>i. Ok (i = inst))
                 else Ok False)
               else Ok False) (\<lambda>hit.
        if hit then Ok (Some pos)
        else rbind (add64 pos len) (\<lambda>p. find_segment_from rec inst p)))"
  by pat_completeness auto
termination
  by (relation "measure (\<lambda>(rec, inst, pos). used_of rec - pos)") (auto dest: attr_at_progress)

definition find_segment :: "bytes \<Rightarrow> nat \<Rightarrow> nat option nres" where
  "find_segment rec inst =
    rbind (get_f rec ntfs_file_record ''attrs_offset'') (\<lambda>pos. find_segment_from rec inst pos)"

section \<open>Walking a file\<close>

text \<open>The pass over the base record: the attribute list, the first unnamed \<open>$DATA\<close>, their number.\<close>

function base_pass :: "bytes \<Rightarrow> nat \<Rightarrow> nat option \<Rightarrow> nat \<Rightarrow> nat \<Rightarrow> (nat option \<times> nat \<times> nat) nres" where
  "base_pass rec pos lst dat ndata =
    rbind (attr_at rec pos) (\<lambda>a.
    case a of None \<Rightarrow> Ok (lst, dat, ndata)
    | Some (ty, len) \<Rightarrow>
        rbind (if ty = ATTR_LIST then (if lst \<noteq> None then Err AttrList else Ok (Some pos))
               else Ok lst) (\<lambda>lst.
        rbind (if ty = ATTR_DATA then
                 rbind (get_at rec pos ntfs_attr ''name_length'') (\<lambda>nl. Ok (nl = 0))
               else Ok False) (\<lambda>unnamed.
        rbind (if unnamed then
                 rbind (add32 ndata 1) (\<lambda>n. Ok (if ndata = 0 then pos else dat, n))
               else Ok (dat, ndata)) (\<lambda>(dat, ndata).
        rbind (add64 pos len) (\<lambda>p. base_pass rec p lst dat ndata)))))"
  by pat_completeness auto
termination
  by (relation "measure (\<lambda>(rec, pos, lst, dat, ndata). used_of rec - pos)")
    (auto dest: attr_at_progress)

text \<open>The record an entry names is in use, of the named sequence, and belongs to the file.\<close>

definition entry_segment ::
  "volume \<Rightarrow> bytes \<Rightarrow> nat \<Rightarrow> nat \<Rightarrow> bytes \<Rightarrow> nat \<Rightarrow> seg \<Rightarrow> nat \<Rightarrow> seg nres" where
  "entry_segment vol rec rseq base_ref alist p st cap =
    rbind (get_f rec ntfs_file_record ''flags'') (\<lambda>fl.
    if fl AND NTFS_RECORD_IN_USE = 0 then Err NotInUse else
    rbind (get_f rec ntfs_file_record ''sequence_number'') (\<lambda>sq.
    if sq \<noteq> rseq then Err Sequence else
    rbind (get_f rec ntfs_file_record ''base_mft_record'') (\<lambda>base.
    if base \<noteq> base_ref then Err ExtensionBase else
    rbind (get_at alist p ntfs_attr_list_entry ''instance'') (\<lambda>inst.
    rbind (find_segment rec inst) (\<lambda>at.
    rbind (ok_or at MissingSegment) (\<lambda>at. segment vol rec at st cap))))))"

text \<open>One entry of the attribute list: an unnamed \<open>$DATA\<close> segment is found and appended.\<close>

definition list_entry ::
  "'s disk \<Rightarrow> volume \<Rightarrow> run list \<Rightarrow> nat \<Rightarrow> nat \<Rightarrow> nat \<Rightarrow> bytes \<Rightarrow> nat \<Rightarrow> nat \<Rightarrow> nat \<Rightarrow> seg
     \<Rightarrow> ('s, nat \<times> seg) nio" where
  "list_entry rd vol runs limit recno base_ref alist cap p ext st =
    ibind (lift (get_at alist p ntfs_attr_list_entry ''type'')) (\<lambda>ty.
    ibind (lift (get_at alist p ntfs_attr_list_entry ''name_length'')) (\<lambda>nl.
    if ty = ATTR_DATA \<and> nl = 0 then
      ibind (lift (get_at alist p ntfs_attr_list_entry ''lowest_vcn'')) (\<lambda>lv.
      if lv \<noteq> svcn st then lift (Err Gap) else
      ibind (lift (get_at alist p ntfs_attr_list_entry ''mft_reference'')) (\<lambda>mref.
      let r = mref AND NTFS_MFT_REF_RECORD_MASK; rseq = drop_bit NTFS_MFT_REF_SEQ_SHIFT mref in
      ibind (lift (if r \<noteq> recno then
                     rbind (add32 ext 1) (\<lambda>ext.
                     if ext > MAX_EXTENSIONS then Err TooManyExtensions else Ok ext)
                   else Ok ext)) (\<lambda>ext.
      ibind (read_record rd vol runs limit r) (\<lambda>rec.
      ibind (lift (entry_segment vol rec rseq (if r = recno then 0 else base_ref) alist p st cap)) (\<lambda>st.
      lift (Ok (ext, st)))))))
    else lift (Ok (ext, st))))"

function list_loop ::
  "'s disk \<Rightarrow> volume \<Rightarrow> run list \<Rightarrow> nat \<Rightarrow> nat \<Rightarrow> nat \<Rightarrow> bytes \<Rightarrow> nat \<Rightarrow> nat \<Rightarrow> nat \<Rightarrow> nat \<Rightarrow> seg
     \<Rightarrow> ('s, seg) nio" where
  "list_loop rd vol runs limit recno base_ref alist lsize cap p ext st s =
    (if p < lsize then
       ibind (lift (rbind (add64 p (size_of ntfs_attr_list_entry)) (\<lambda>e. ensure (e \<le> lsize) AttrList)))
         (\<lambda>_.
       ibind (lift (get_at alist p ntfs_attr_list_entry ''length'')) (\<lambda>elen.
       ibind (lift (rbind (sub64 lsize p) (\<lambda>room.
          ensure (size_of ntfs_attr_list_entry \<le> elen \<and> elen \<le> room) AttrList))) (\<lambda>_.
       ibind (list_entry rd vol runs limit recno base_ref alist cap p ext st) (\<lambda>es.
       ibind (lift (add64 p elen)) (\<lambda>p.
       list_loop rd vol runs limit recno base_ref alist lsize cap p (fst es) (snd es)))))) s
     else (Ok st, s))"
  by pat_completeness auto
termination
  by (relation "measure (\<lambda>(rd, vol, runs, limit, recno, base_ref, alist, lsize, cap, p, ext, st, s).
        lsize - p)")
    (auto simp: lift_def layout_simps rbind_eq_Ok)

definition walk_base ::
  "bytes \<Rightarrow> nat \<Rightarrow> (nat \<times> nat option \<times> nat \<times> nat) nres" where
  "walk_base rec seq =
    rbind (get_f rec ntfs_file_record ''flags'') (\<lambda>flags.
    if flags AND NTFS_RECORD_IN_USE = 0 then Err NotInUse else
    if flags AND NTFS_RECORD_IS_DIRECTORY \<noteq> 0 then Err Directory else
    rbind (get_f rec ntfs_file_record ''sequence_number'') (\<lambda>own_seq.
    if seq \<noteq> 0 \<and> own_seq \<noteq> seq then Err Sequence else
    rbind (get_f rec ntfs_file_record ''base_mft_record'') (\<lambda>base.
    if base \<noteq> 0 then Err NotBase else
    rbind (get_f rec ntfs_file_record ''attrs_offset'') (\<lambda>pos.
    rbind (base_pass rec pos None 0 0) (\<lambda>(lst, dat, ndata).
    Ok (own_seq, lst, dat, ndata))))))"

definition walk_end :: "volume \<Rightarrow> seg \<Rightarrow> file_map nres" where
  "walk_end vol st =
    (if checked_mul (svcn st) (cluster_bytes vol) \<noteq> Some (salloc st) \<or> ssize st > salloc st
       then Err AllocatedSize else
     if sinit st \<noteq> ssize st then Err NotInitialized else
     if ssize st mod NTFS_SECTOR \<noteq> 0 then Err Unaligned else
     Ok \<lparr>fruns = srun st, data_size = ssize st\<rparr>)"

definition seg0 :: seg where
  "seg0 = \<lparr>srun = [], svcn = 0, salloc = 0, ssize = 0, sinit = 0\<rparr>"

text \<open>The \<open>match list\<close>: one data attribute in the base record, or the attribute list's entries.\<close>

definition walk_segments ::
  "'s disk \<Rightarrow> volume \<Rightarrow> run list \<Rightarrow> nat \<Rightarrow> nat \<Rightarrow> bool \<Rightarrow> bytes \<Rightarrow> nat \<Rightarrow> bytes \<Rightarrow> nat \<Rightarrow> nat option
     \<Rightarrow> nat \<Rightarrow> nat \<Rightarrow> ('s, seg) nio" where
  "walk_segments rd vol runs limit recno allow_list alist cap rec own_seq lst dat ndata =
    (case lst of
      None \<Rightarrow> lift (if ndata = 0 then Err NoData else if ndata > 1 then Err DuplicateData
                   else segment vol rec dat seg0 cap)
    | Some lp \<Rightarrow>
        if \<not> allow_list then lift (Err MftAttrList) else
        ibind (load_list rd vol rec lp alist cap) (\<lambda>(lsize, alist).
        let base_ref = recno OR (push_bit NTFS_MFT_REF_SEQ_SHIFT own_seq mod u64_lim) in
        ibind (list_loop rd vol runs limit recno base_ref alist lsize cap 0 0 seg0) (\<lambda>st.
        lift (if srun st = [] then Err NoData else Ok st))))"

definition walk ::
  "'s disk \<Rightarrow> volume \<Rightarrow> run list \<Rightarrow> nat \<Rightarrow> nat \<Rightarrow> nat \<Rightarrow> bool \<Rightarrow> bytes \<Rightarrow> nat \<Rightarrow> ('s, file_map) nio" where
  "walk rd vol runs limit recno seq allow_list alist cap =
    ibind (read_record rd vol runs limit recno) (\<lambda>rec.
    ibind (lift (walk_base rec seq)) (\<lambda>(own_seq, lst, dat, ndata).
    ibind (walk_segments rd vol runs limit recno allow_list alist cap rec own_seq lst dat ndata) (\<lambda>st.
    lift (walk_end vol st))))"

definition ntfs_open :: "'s disk \<Rightarrow> bytes \<Rightarrow> nat \<Rightarrow> ('s, mft) nio" where
  "ntfs_open rd alist cap =
    ibind (disk_read rd 0) (\<lambda>boot.
    ibind (lift (parse_boot boot)) (\<lambda>vol.
    ibind (lift (if cluster_bytes vol = 0 then Panic
                 else Ok [mk_run (mft_lcn vol) (div_ceil (record_bytes vol) (cluster_bytes vol))]))
      (\<lambda>boot_map.
    ibind (walk rd vol boot_map (record_bytes vol) 0 0 False alist cap) (\<lambda>m.
    lift (Ok \<lparr>mvol = vol, mruns = fruns m, mbytes = data_size m\<rparr>)))))"

definition ntfs_file :: "'s disk \<Rightarrow> mft \<Rightarrow> nat \<Rightarrow> nat \<Rightarrow> bytes \<Rightarrow> nat \<Rightarrow> ('s, file_map) nio" where
  "ntfs_file rd m recno seq alist cap =
    (if \<not> (FIRST_USER_RECORD \<le> recno \<and> recno \<le> MAX_RECORD_NUMBER) \<or> seq = 0
     then lift (Err BadIdentity)
     else walk rd (mvol m) (mruns m) (mbytes m) recno seq True alist cap)"

function volume_info :: "bytes \<Rightarrow> nat \<Rightarrow> nat nres" where
  "volume_info rec pos =
    rbind (attr_at rec pos) (\<lambda>a.
    case a of None \<Rightarrow> Err NoVolumeInfo
    | Some (ty, len) \<Rightarrow>
        rbind (if ty = NTFS_AT_VOLUME_INFORMATION then
                 rbind (get_at rec pos ntfs_attr ''non_resident'') (\<lambda>nr. Ok (nr = 0))
               else Ok False) (\<lambda>hit.
        if hit then
          rbind (get_at rec pos ntfs_attr_resident ''value_length'') (\<lambda>vl.
          if vl < size_of ntfs_volume_information then Err NoVolumeInfo else
          rbind (get_at rec pos ntfs_attr_resident ''value_offset'') (\<lambda>vo.
          rbind (add64 pos vo) (\<lambda>v.
          rbind (get_at rec v ntfs_volume_information ''flags'') (\<lambda>fl.
          Ok (if fl < u16_lim then fl else u16_lim - 1)))))
        else rbind (add64 pos len) (\<lambda>p. volume_info rec p)))"
  by pat_completeness auto
termination
  by (relation "measure (\<lambda>(rec, pos). used_of rec - pos)") (auto dest: attr_at_progress)

definition volume_flags :: "'s disk \<Rightarrow> mft \<Rightarrow> ('s, nat) nio" where
  "volume_flags rd m =
    ibind (read_record rd (mvol m) (mruns m) (mbytes m) NTFS_MFT_RECORD_VOLUME) (\<lambda>rec.
    lift (
    rbind (get_f rec ntfs_file_record ''flags'') (\<lambda>fl.
    if fl AND NTFS_RECORD_IN_USE = 0 then Err NotInUse else
    rbind (get_f rec ntfs_file_record ''base_mft_record'') (\<lambda>base.
    if base \<noteq> 0 then Err NotBase else
    rbind (get_f rec ntfs_file_record ''attrs_offset'') (\<lambda>pos. volume_info rec pos)))))"

end
