(* ===== verification/NtfsCorrect.thy ===== *)
theory NtfsCorrect
  imports Ntfs
begin

text \<open>
  Safety of the NTFS parser on any disk: no read is out of bounds, no arithmetic overflows, no
  debug assertion fails, and what it returns is well formed.  The invariants are \<open>vol_ok\<close> for the
  geometry, \<open>runs_ok\<close> for a map, \<open>rec_ok\<close> for a checked record, \<open>seg_ok\<close> for the progress of a
  walk, \<open>mft_ok\<close> and \<open>file_ok\<close> for the results.
\<close>

section \<open>Powers of two\<close>

lemma is_power_of_twoD: "is_power_of_two n \<Longrightarrow> \<exists>k. n = 2 ^ k"
proof (induction n rule: less_induct)
  case (less n)
  then have n: "n \<noteq> 0" "n AND (n - 1) = 0" by (simp_all add: is_power_of_two_def)
  define m where "m = n div 2"
  have step: "n AND (n - 1) = of_bool (odd n \<and> odd (n - 1)) + 2 * (m AND ((n - 1) div 2))"
    unfolding m_def by (rule and_rec)
  show ?case
  proof (cases "even n")
    case True
    then have nm: "n = 2 * m" by (simp add: m_def)
    with n have "0 < m" "(n - 1) div 2 = m - 1" by auto
    with step n True have "is_power_of_two m" by (simp add: is_power_of_two_def)
    moreover have "m < n" using nm \<open>0 < m\<close> by simp
    ultimately obtain k where "m = 2 ^ k" using less.IH by blast
    then have "n = 2 ^ Suc k" using nm by simp
    then show ?thesis by blast
  next
    case False
    then have "(n - 1) div 2 = m" "even (n - 1)" unfolding m_def by presburger+
    with step n have "m = 0" by simp
    with False have "n = 1" unfolding m_def by presburger
    then show ?thesis by (intro exI [of _ 0]) simp
  qed
qed

lemma record_sizes:
  assumes "is_power_of_two n" "1024 \<le> n" "n \<le> 4096"
  shows "n = 1024 \<or> n = 2048 \<or> n = 4096"
proof -
  from assms(1) obtain k where k: "n = 2 ^ k" using is_power_of_twoD by blast
  have "(2 :: nat) ^ 10 \<le> 2 ^ k" "(2 :: nat) ^ k \<le> 2 ^ 12" using assms k by simp_all
  then have "10 \<le> k" "k \<le> 12" by (simp_all only: power_increasing_iff one_less_numeral_iff semiring_norm)
  then have "k = 10 \<or> k = 11 \<or> k = 12" by auto
  with k show ?thesis by auto
qed

section \<open>Invariants\<close>

definition vol_ok :: "volume \<Rightarrow> bool" where
  "vol_ok v \<longleftrightarrow> 0 < cluster_bytes v \<and> 512 dvd cluster_bytes v
     \<and> (record_bytes v = 1024 \<or> record_bytes v = 2048 \<or> record_bytes v = 4096)
     \<and> vclusters v * cluster_bytes v < u64_lim
     \<and> vsectors v = vclusters v * (cluster_bytes v div 512)
     \<and> mft_lcn v + div_ceil (record_bytes v) (cluster_bytes v) \<le> vclusters v
     \<and> mft_lcn v < vclusters v"

text \<open>\<open>span rs\<close>: the clusters a map covers.\<close>

definition span :: "run list \<Rightarrow> nat" where
  "span rs = sum_list (map run_count rs)"

definition run_in :: "volume \<Rightarrow> run \<Rightarrow> bool" where
  "run_in v r \<longleftrightarrow> 0 < run_count r \<and> run_lcn r + run_count r \<le> vclusters v"

definition runs_ok :: "volume \<Rightarrow> run list \<Rightarrow> bool" where
  "runs_ok v rs \<longleftrightarrow> (\<forall>r\<in>set rs. run_in v r)"

lemma span_simps [simp]: "span [] = 0" "span (r # rs) = run_count r + span rs"
  "span (rs @ rs') = span rs + span rs'"
  by (simp_all add: span_def)

lemma runs_ok_simps [simp]: "runs_ok v []" "runs_ok v (r # rs) \<longleftrightarrow> run_in v r \<and> runs_ok v rs"
  "runs_ok v (rs @ rs') \<longleftrightarrow> runs_ok v rs \<and> runs_ok v rs'"
  by (auto simp: runs_ok_def)

definition mft_ok :: "mft \<Rightarrow> bool" where
  "mft_ok m \<longleftrightarrow> vol_ok (mvol m) \<and> runs_ok (mvol m) (mruns m)
     \<and> mbytes m \<le> span (mruns m) * cluster_bytes (mvol m) \<and> mbytes m < u64_lim"

definition file_ok :: "volume \<Rightarrow> nat \<Rightarrow> file_map \<Rightarrow> bool" where
  "file_ok v cap f \<longleftrightarrow> runs_ok v (fruns f) \<and> length (fruns f) \<le> cap \<and> fruns f \<noteq> []
     \<and> data_size f \<le> span (fruns f) * cluster_bytes v
     \<and> span (fruns f) * cluster_bytes v < u64_lim \<and> 512 dvd data_size f"

section \<open>The boot sector\<close>

lemma fld_bounds:
  "field_size L f = 1 \<Longrightarrow> fld b at L f < u8_lim" "field_size L f = 2 \<Longrightarrow> fld b at L f < u16_lim"
  "field_size L f = 4 \<Longrightarrow> fld b at L f < u32_lim" "field_size L f = 8 \<Longrightarrow> fld b at L f < u64_lim"
  using fld_bound [of b at L f] by simp_all

lemma cluster_size_bounds:
  assumes "bps = 512 \<or> bps = 4096" "spc \<le> 2 ^ 20"
  shows "bps * spc < u64_lim" "512 dvd bps * spc"
proof -
  have "bps * spc \<le> 4096 * 2 ^ 20" using assms by (intro mult_le_mono) auto
  then show "bps * spc < u64_lim" by simp
  show "512 dvd bps * spc" using assms(1) by (auto intro: dvd_mult2)
qed

lemma volume_ok:
  assumes c: "512 dvd cb" "0 < cb" and n: "nbytes < u64_lim" "ncl = nbytes div cb"
    and r: "rb = 1024 \<or> rb = 2048 \<or> rb = 4096" and l: "l < ncl" "div_ceil rb cb \<le> ncl - l"
  shows "ncl * (cb div 512) < u64_lim
    \<and> vol_ok \<lparr>vsectors = ncl * (cb div 512), vclusters = ncl, cluster_bytes = cb, record_bytes = rb, mft_lcn = l\<rparr>"
proof -
  have "ncl * cb \<le> nbytes" using n(2) by simp
  then have m: "ncl * cb < u64_lim" using n(1) by simp
  have "ncl * (cb div 512) \<le> ncl * cb" by (intro mult_le_mono2) simp
  then have "ncl * (cb div 512) < u64_lim" using m by (rule le_less_trans)
  with m show ?thesis using c r l by (auto simp: vol_ok_def)
qed

lemma ntfs_consts:
  "NTFS_SECTOR = 512" "MAX_RECORD = 4096" "MAX_ALIST = 65536" "MAX_CLUSTER = 2097152"
  "NTFS_BS_NEGATIVE = 128" "NTFS_BS_MAX_CLUSTER_SHIFT = 20" "NTFS_BS_MAX_RECORD_SHIFT = 12"
  "NTFS_USA_OFFSET_31 = 48" "NTFS_USA_OFFSET_30 = 42"
  by (simp_all add: NTFS_SECTOR_def MAX_RECORD_def MAX_ALIST_def MAX_CLUSTER_def
      NTFS_BS_NEGATIVE_def NTFS_BS_MAX_CLUSTER_SHIFT_def NTFS_BS_MAX_RECORD_SHIFT_def
      NTFS_USA_OFFSET_31_def NTFS_USA_OFFSET_30_def)

text \<open>The byte that encodes a count, or minus the exponent of a power of two.\<close>

lemma cluster_sectors_wp: "raw < u8_lim \<Longrightarrow> wp (cluster_sectors raw) (\<lambda>spc. spc \<le> 2 ^ 20)"
proof -
  have "2 ^ sh \<le> (2 :: nat) ^ 20" if "sh \<le> 20" for sh using that by (rule power_increasing) simp
  then show "raw < u8_lim \<Longrightarrow> wp (cluster_sectors raw) (\<lambda>spc. spc \<le> 2 ^ 20)"
    by (auto simp: ntfs_consts cluster_sectors_def)
qed

lemma record_size_wp:
  assumes "raw < u8_lim" "cb \<le> MAX_CLUSTER"
  shows "wp (record_size raw cb) (\<lambda>_. True)"
proof -
  have "raw * cb < u64_lim" if "raw < 128"
  proof -
    have "raw * cb \<le> 128 * 2097152" using that assms(2) by (intro mult_le_mono) (auto simp: ntfs_consts)
    then show ?thesis by simp
  qed
  with assms show ?thesis by (auto simp: ntfs_consts record_size_def)
qed

lemma boot_geometry_wp:
  assumes l: "length b = 512" and bps: "bps = 512 \<or> bps = 4096"
  shows "wp (boot_geometry b bps) vol_ok"
proof -
  let ?f = "fld b 0 ntfs_boot_sector"
  have s: "wp (cluster_sectors (?f ''sectors_per_cluster'')) (\<lambda>spc. spc \<le> 2 ^ 20)"
    by (intro cluster_sectors_wp fld_bounds) (simp add: layout_simps)
  have r: "wp (record_size (?f ''clusters_per_mft_record'') cb) (\<lambda>_. True)"
    if "\<not> MAX_CLUSTER < cb" for cb
    using that by (intro record_size_wp fld_bounds) (simp_all add: layout_simps)
  note c = cluster_size_bounds [OF bps]
  have fin: "t div x * (bps * x div NTFS_SECTOR) < u64_lim \<and> vol_ok \<lparr>vsectors = t div x * (bps * x div NTFS_SECTOR),
      vclusters = t div x, cluster_bytes = bps * x, record_bytes = rb, mft_lcn = m\<rparr>"
    if "x \<le> 2 ^ 20" "0 < x" "t * bps < u64_lim" "1024 \<le> rb \<and> rb \<le> MAX_RECORD \<and> is_power_of_two rb"
      "\<not> t div x \<le> m" "\<not> t div x - m < div_ceil rb (bps * x)" for t x rb m
    unfolding ntfs_consts
  proof (rule volume_ok [where nbytes = "t * bps"])
    show "t div x = t * bps div (bps * x)" using bps by auto
    show "rb = 1024 \<or> rb = 2048 \<or> rb = 4096" using that record_sizes by (simp add: ntfs_consts)
  qed (use that bps c in auto)
  show ?thesis
    unfolding boot_geometry_def get_f_def Let_def
    using l
    by (simp add: wp_get_at layout_simps) (intro wp_conseq [OF s], simp add: c, intro impI wp_conseq [OF r] fin, auto)
qed

lemma parse_boot_wp:
  assumes "length b = 512"
  shows "wp (parse_boot b) vol_ok"
  unfolding parse_boot_def get_f_def Let_def
  using assms boot_geometry_wp [OF assms] by (simp add: wp_get_at layout_simps)

section \<open>Mapped reads\<close>

text \<open>
  The cluster that holds virtual cluster \<open>vcn\<close> of a map: what \<open>sector_of\<close> looks up.
\<close>

fun cluster_at :: "run list \<Rightarrow> nat \<Rightarrow> nat option" where
  "cluster_at [] vcn = None"
| "cluster_at (r # rs) vcn =
    (if vcn < run_count r then Some (run_lcn r + vcn) else cluster_at rs (vcn - run_count r))"

lemma cluster_at_Some: "vcn < span rs \<Longrightarrow> \<exists>c. cluster_at rs vcn = Some c"
  by (induction rs vcn rule: cluster_at.induct) auto

lemma cluster_at_in: "runs_ok v rs \<Longrightarrow> cluster_at rs vcn = Some c \<Longrightarrow> c < vclusters v"
  by (induction rs vcn rule: cluster_at.induct) (auto simp: run_in_def split: if_splits)

lemma sector_arith:
  assumes "vol_ok v" "c < vclusters v" "q < cluster_bytes v"
  shows "c < u64_lim" "c * cluster_bytes v < u64_lim" "c * cluster_bytes v + q < u64_lim"
    and "(c * cluster_bytes v + q) div 512 < vsectors v"
proof -
  from assms(2) have "(c + 1) * cluster_bytes v \<le> vclusters v * cluster_bytes v"
    by (intro mult_le_mono1) simp
  then have le: "c * cluster_bytes v + q < vclusters v * cluster_bytes v" using assms(3) by simp
  with assms(1) show b: "c * cluster_bytes v + q < u64_lim" "c * cluster_bytes v < u64_lim"
    by (auto simp: vol_ok_def)
  have "c \<le> c * cluster_bytes v" using assms(3) by (cases "cluster_bytes v") auto
  with b show "c < u64_lim" by linarith
  from assms(1) have "vclusters v * cluster_bytes v = vsectors v * 512"
    by (auto simp: vol_ok_def elim!: dvdE)
  with le show "(c * cluster_bytes v + q) div 512 < vsectors v"
    by (simp add: less_mult_imp_div_less)
qed

lemma sector_loop_eq:
  assumes v: "vol_ok v"
  shows "runs_ok v rs \<Longrightarrow> sector_loop v off vcn rs = Ok (map_option
    (\<lambda>c. (c * cluster_bytes v + off mod cluster_bytes v) div 512) (cluster_at rs vcn))"
proof (induction rs arbitrary: vcn)
  case (Cons r rs)
  have q: "off mod cluster_bytes v < cluster_bytes v" using v by (simp add: vol_ok_def)
  show ?case
  proof (cases "vcn < run_count r")
    case True
    with Cons.prems have "run_lcn r + vcn < vclusters v" by (auto simp: run_in_def)
    from sector_arith [OF v this q] True show ?thesis
      by (simp add: add64_def mul64_def ntfs_consts)
  next
    case False
    with Cons show ?thesis by (simp add: sub64_def)
  qed
qed simp

lemma sector_of_eq:
  assumes "vol_ok v" "runs_ok v rs"
  shows "sector_of v rs off = Ok (map_option
    (\<lambda>c. (c * cluster_bytes v + off mod cluster_bytes v) div 512) (cluster_at rs (off div cluster_bytes v)))"
  using assms by (simp add: sector_of_def sector_loop_eq) (simp add: vol_ok_def)

lemma sector_of_in:
  assumes "vol_ok v" "runs_ok v rs" "sector_of v rs off = Ok (Some s)"
  shows "s < vsectors v"
proof -
  have "off mod cluster_bytes v < cluster_bytes v" using assms(1) by (simp add: vol_ok_def)
  with assms show ?thesis
    by (auto simp: sector_of_eq dest: cluster_at_in intro: sector_arith(4))
qed

locale sector_disk =
  fixes rd :: "'s disk"
  assumes read_len: "rd s n = (Some b, s') \<Longrightarrow> length b = 512"
begin

lemma disk_read_wpi: "wpi (disk_read rd n) s (\<lambda>b s'. length b = 512)"
  by (auto simp: wpi_def disk_read_def read_len split: prod.split)

lemma read_chunks_wpi:
  assumes v: "vol_ok v" "runs_ok v rs"
  shows "off + k * 512 < u64_lim \<Longrightarrow> wpi (read_chunks rd v rs e k off) s (\<lambda>b s'. length b = k * 512)"
proof (induction k arbitrary: off s)
  case (Suc k)
  have "wpi (read_chunks rd v rs e k (off + 512)) s' (\<lambda>b s'. length b = k * 512)" for s'
    using Suc by simp
  with Suc.prems show ?case
    by (auto simp: sector_of_eq [OF v] ntfs_consts intro!: wpi_conseq [OF disk_read_wpi]
        elim!: wpi_conseq)
qed simp

end

section \<open>Records\<close>

definition rec_ok :: "volume \<Rightarrow> bytes \<Rightarrow> bool" where
  "rec_ok v rec \<longleftrightarrow> length rec = record_bytes v \<and> 1024 \<le> length rec \<and> length rec \<le> 4096
     \<and> used_of rec \<le> length rec
     \<and> fld rec 0 ntfs_file_record ''attrs_offset'' < used_of rec"

lemma fixup_loop_wp:
  assumes "usa \<le> 48" "length rec \<le> 4096" "\<forall>i\<in>set is. 1 \<le> i \<and> i * 512 \<le> length rec"
  shows "wp (fixup_loop usn usa rec is) (\<lambda>r. length r = length rec)"
  using assms
proof (induction "is" arbitrary: rec)
  case (Cons i "is")
  have i: "1 \<le> i" "i * 512 \<le> length rec" "i \<le> 8" using Cons.prems by auto
  then have r: "2 \<le> i * 512" "i * 512 - 2 + 2 \<le> length rec" "usa + 2 * i + 2 \<le> length rec"
    using Cons.prems(1) by auto
  let ?rec' = "\<lambda>f. overwrite rec (i * 512 - 2) (take 2 (le_bytes 8 f))"
  have l: "length (?rec' f) = length rec" for f using r by (simp add: overwrite_def)
  have "wp (fixup_loop usn usa (?rec' f) is) (\<lambda>r. length r = length rec)" for f
    using Cons.IH [of "?rec' f"] Cons.prems l by simp
  with i r Cons.prems show ?case by (simp add: Let_def g16_def wp_get_le ntfs_consts)
qed simp

lemma check_record_wp:
  assumes "vol_ok v" "length rec = record_bytes v"
  shows "wp (check_record v recno rec) (rec_ok v)"
proof -
  from assms have l: "1024 \<le> length rec" "length rec \<le> 4096" by (auto simp: vol_ok_def)
  have fx: "wp (fixup_loop usn usa rec [Suc 0..<c]) (\<lambda>r. length r = length rec)"
    if "c = Suc (length rec div 512)" "usa = 48 \<or> usa = 42" for usn usa c
  proof (rule fixup_loop_wp)
    have "length rec div 512 * 512 \<le> length rec" by simp
    then show "\<forall>i\<in>set [Suc 0..<c]. 1 \<le> i \<and> i * 512 \<le> length rec"
      using that(1) by (auto simp: less_Suc_eq_le)
  qed (use l that in auto)
  show ?thesis
    unfolding check_record_def get_f_def g16_def
    using l
    by (simp add: wp_get_at wp_get_le layout_simps ntfs_consts del: upt_Suc)
      (auto simp: rec_ok_def assms(2) [symmetric] wp_get_at layout_simps
        simp del: upt_Suc intro!: wp_conseq [OF fx])
qed

context sector_disk
begin

lemma read_record_wpi:
  assumes "vol_ok v" "runs_ok v rs" "limit < u64_lim"
  shows "wpi (read_record rd v rs limit recno) s (\<lambda>rec s'. rec_ok v rec)"
proof -
  from assms(1) have rb: "record_bytes v div 512 * 512 = record_bytes v" by (auto simp: vol_ok_def)
  have chunks: "wpi (read_chunks rd v rs NotMapped (record_bytes v div 512) start) s' (\<lambda>b s'. length b = record_bytes v)"
    if "start \<le> limit" "record_bytes v \<le> limit - start" for start s'
  proof -
    have "start + record_bytes v div 512 * 512 < u64_lim" unfolding rb using that assms(3) by linarith
    from read_chunks_wpi [OF assms(1,2) this] show ?thesis by (simp only: rb)
  qed
  show ?thesis
    by (auto simp: read_record_def Let_def ntfs_consts not_less
        intro!: wpi_conseq [OF chunks] check_record_wp [OF assms(1)])
qed

end

section \<open>Attributes\<close>

lemma attr_at_wp:
  assumes "rec_ok v rec" "pos \<le> length rec"
  shows "wp (attr_at rec pos) (\<lambda>r. \<forall>ty len. r = Some (ty, len) \<longrightarrow> attr_ok rec pos ty len)"
proof -
  have "attr_at rec pos \<noteq> Panic"
  proof -
    let ?u = "used_of rec"
    have u: "?u \<le> length rec" "length rec \<le> 4096" "1024 \<le> length rec" using assms by (auto simp: rec_ok_def)
    have b: "fld rec pos ntfs_attr ''name_length'' < u8_lim" "fld rec pos ntfs_attr ''name_offset'' < u16_lim"
      "fld rec pos ntfs_attr_resident ''value_offset'' < u16_lim"
      "fld rec pos ntfs_attr_resident ''value_length'' < u32_lim"
      by (simp_all add: fld_bounds layout_simps)
    have "wp (attr_at rec pos) (\<lambda>_. True)"
      unfolding attr_at_def get_f_def
      using u assms(2) b by (simp add: wp_get_at layout_simps)
    then show ?thesis by (simp add: wp_True)
  qed
  then show ?thesis using attr_at_SomeD by (auto intro: wpI)
qed

lemma attr_ok_room:
  assumes "rec_ok v rec" "attr_ok rec pos ty len"
  shows "pos + len \<le> length rec" "pos + len \<le> 4096" "24 \<le> len" "pos \<le> length rec" "pos < 4096"
  using assms by (auto simp: rec_ok_def attr_ok_def)

declare find_segment_from.simps [simp del] base_pass.simps [simp del] volume_info.simps [simp del]
  list_loop.simps [simp del]

text \<open>
  Induction along the attributes of a checked record: to prove a property of the loop at \<open>pos\<close>, it
  may be assumed after every attribute that starts there.
\<close>

lemma attr_induct:
  assumes r: "rec_ok v rec" and p: "pos \<le> length rec"
    and step: "\<And>pos. pos \<le> length rec \<Longrightarrow>
      (\<And>ty len. attr_ok rec pos ty len \<Longrightarrow> pos + len \<le> length rec \<and> pos + len < u64_lim \<and> P (pos + len))
      \<Longrightarrow> P pos"
  shows "P pos"
  using p
proof (induction "length rec - pos" arbitrary: pos rule: less_induct)
  case less
  show ?case
  proof (rule step [OF less.prems])
    fix ty len
    assume "attr_ok rec pos ty len"
    from attr_ok_room [OF r this] less.hyps [of "pos + len"]
    show "pos + len \<le> length rec \<and> pos + len < u64_lim \<and> P (pos + len)" by simp
  qed
qed

text \<open>Reading a field of an attribute's header stays inside the record.\<close>

lemma attr_field_wp:
  assumes "rec_ok v rec" "attr_ok rec pos ty len" "field_size L f \<le> 8"
    and "offset_of L f + field_size L f \<le> len"
  shows "wp (get_at rec pos L f) Q \<longleftrightarrow> Q (fld rec pos L f)"
  using attr_ok_room [OF assms(1,2)] assms(3,4) by (simp add: wp_get_at)

lemma find_segment_from_wp:
  assumes r: "rec_ok v rec" and "pos \<le> length rec"
  shows "wp (find_segment_from rec inst pos)
    (\<lambda>r. \<forall>p. r = Some p \<longrightarrow> (\<exists>ty len. attr_ok rec p ty len))"
  using assms
proof (rule attr_induct)
  fix pos
  assume p: "pos \<le> length rec"
    and IH: "\<And>ty len. attr_ok rec pos ty len \<Longrightarrow> pos + len \<le> length rec \<and> pos + len < u64_lim
      \<and> wp (find_segment_from rec inst (pos + len))
         (\<lambda>r. \<forall>p. r = Some p \<longrightarrow> (\<exists>ty len. attr_ok rec p ty len))"
  show "wp (find_segment_from rec inst pos) (\<lambda>r. \<forall>p. r = Some p \<longrightarrow> (\<exists>ty len. attr_ok rec p ty len))"
    unfolding find_segment_from.simps [of rec inst pos] wp_rbind
  proof (rule wp_conseq [OF attr_at_wp [OF r p]])
    fix x
    assume x: "\<forall>ty len. x = Some (ty, len) \<longrightarrow> attr_ok rec pos ty len"
    show "wp (case x of None \<Rightarrow> Ok None | Some (ty, len) \<Rightarrow>
        rbind (if ty = ATTR_DATA then
                 rbind (get_at rec pos ntfs_attr ''name_length'') (\<lambda>nl.
                 if nl = 0 then rbind (get_at rec pos ntfs_attr ''instance'') (\<lambda>i. Ok (i = inst))
                 else Ok False)
               else Ok False) (\<lambda>hit.
        if hit then Ok (Some pos)
        else rbind (add64 pos len) (\<lambda>p. find_segment_from rec inst p)))
       (\<lambda>r. \<forall>p. r = Some p \<longrightarrow> (\<exists>ty len. attr_ok rec p ty len))"
    proof (cases x)
      case (Some a)
      then obtain ty len where a: "x = Some (ty, len)" by (cases a) simp
      with x have ok: "attr_ok rec pos ty len" by simp
      show ?thesis using IH [OF ok] ok attr_ok_room [OF r ok]
        by (auto simp: a attr_field_wp [OF r ok] layout_simps)
    qed simp
  qed
qed

lemma find_segment_wp:
  assumes "rec_ok v rec"
  shows "wp (find_segment rec inst) (\<lambda>r. \<forall>p. r = Some p \<longrightarrow> (\<exists>ty len. attr_ok rec p ty len))"
  using assms by (auto simp: find_segment_def get_f_def wp_get_at layout_simps rec_ok_def
      intro!: find_segment_from_wp)

text \<open>
  The pass over the base record: the attribute list and the data attribute it returns are
  attributes of the record.
\<close>

definition base_result :: "bytes \<Rightarrow> nat option \<Rightarrow> nat \<Rightarrow> nat \<Rightarrow> bool" where
  "base_result rec lst dat n \<longleftrightarrow>
     (\<forall>lp. lst = Some lp \<longrightarrow> (\<exists>ty len. attr_ok rec lp ty len))
   \<and> (0 < n \<longrightarrow> (\<exists>ty len. attr_ok rec dat ty len))"

lemma base_result_list: "base_result rec lst dat n \<Longrightarrow> attr_ok rec pos ty len \<Longrightarrow> base_result rec (Some pos) dat n"
  by (auto simp: base_result_def)

lemma base_result_data:
  "base_result rec lst dat n \<Longrightarrow> attr_ok rec pos ty len \<Longrightarrow> base_result rec lst pos (Suc 0)"
  "base_result rec lst dat n \<Longrightarrow> 0 < n \<Longrightarrow> base_result rec lst dat (Suc n)"
  by (auto simp: base_result_def)

lemma base_pass_wp:
  assumes r: "rec_ok v rec" and "pos \<le> length rec"
  shows "\<forall>lst dat n. base_result rec lst dat n \<longrightarrow> n \<le> pos \<longrightarrow>
    wp (base_pass rec pos lst dat n) (\<lambda>(lst, dat, n). base_result rec lst dat n)"
  using assms
proof (rule attr_induct)
  fix pos
  assume p: "pos \<le> length rec"
    and IH: "\<And>ty len. attr_ok rec pos ty len \<Longrightarrow> pos + len \<le> length rec \<and> pos + len < u64_lim
      \<and> (\<forall>lst dat n. base_result rec lst dat n \<longrightarrow> n \<le> pos + len \<longrightarrow>
        wp (base_pass rec (pos + len) lst dat n) (\<lambda>(lst, dat, n). base_result rec lst dat n))"
  show "\<forall>lst dat n. base_result rec lst dat n \<longrightarrow> n \<le> pos \<longrightarrow>
    wp (base_pass rec pos lst dat n) (\<lambda>(lst, dat, n). base_result rec lst dat n)"
  proof (intro allI impI)
    fix lst dat n
    assume b: "base_result rec lst dat n" "n \<le> pos"
    show "wp (base_pass rec pos lst dat n) (\<lambda>(lst, dat, n). base_result rec lst dat n)"
      unfolding base_pass.simps [of rec pos] wp_rbind
    proof (rule wp_conseq [OF attr_at_wp [OF r p]])
      fix x
      assume x: "\<forall>ty len. x = Some (ty, len) \<longrightarrow> attr_ok rec pos ty len"
      show "wp (case x of None \<Rightarrow> Ok (lst, dat, n)
        | Some (ty, len) \<Rightarrow>
            rbind (if ty = ATTR_LIST then (if lst \<noteq> None then Err AttrList else Ok (Some pos))
                   else Ok lst) (\<lambda>lst.
            rbind (if ty = ATTR_DATA then
                     rbind (get_at rec pos ntfs_attr ''name_length'') (\<lambda>nl. Ok (nl = 0))
                   else Ok False) (\<lambda>unnamed.
            rbind (if unnamed then
                     rbind (add32 n 1) (\<lambda>m. Ok (if n = 0 then pos else dat, m))
                   else Ok (dat, n)) (\<lambda>(dat, ndata).
            rbind (add64 pos len) (\<lambda>p. base_pass rec p lst dat ndata)))))
          (\<lambda>(lst, dat, n). base_result rec lst dat n)"
      proof (cases x)
        case None
        with b show ?thesis by simp
      next
        case (Some a)
        then obtain ty len where a: "x = Some (ty, len)" by (cases a) simp
        with x have ok: "attr_ok rec pos ty len" by simp
        from IH [OF ok] have go: "base_result rec l d m \<Longrightarrow> m \<le> pos + len \<Longrightarrow>
            wp (base_pass rec (pos + len) l d m) (\<lambda>(lst, dat, n). base_result rec lst dat n)" for l d m
          by blast
        show ?thesis using ok attr_ok_room [OF r ok] b IH [OF ok, THEN conjunct2, THEN conjunct1]
          by (auto simp: a attr_field_wp [OF r ok] layout_simps
              intro!: go intro: base_result_list base_result_data)
      qed
    qed
  qed
qed

lemma walk_base_wp:
  assumes r: "rec_ok v rec"
  shows "wp (walk_base rec seq) (\<lambda>(own, lst, dat, n). own < u16_lim \<and> base_result rec lst dat n)"
proof -
  have l: "1024 \<le> length rec" "length rec \<le> 4096"
    and a: "fld rec 0 ntfs_file_record ''attrs_offset'' \<le> length rec" using r by (auto simp: rec_ok_def)
  have b: "wp (base_pass rec (fld rec 0 ntfs_file_record ''attrs_offset'') None 0 0)
      (\<lambda>(lst, dat, n). base_result rec lst dat n)"
    using base_pass_wp [OF r a] by (simp add: base_result_def)
  show ?thesis
    unfolding walk_base_def get_f_def
    using l fld_bounds(2) [of ntfs_file_record "''sequence_number''" rec 0]
    by (auto simp: wp_get_at layout_simps intro!: wp_conseq [OF b])
qed

lemma volume_info_wp:
  assumes r: "rec_ok v rec" and "pos \<le> length rec"
  shows "wp (volume_info rec pos) (\<lambda>f. f < u16_lim)"
  using assms
proof (rule attr_induct)
  fix pos
  assume p: "pos \<le> length rec"
    and IH: "\<And>ty len. attr_ok rec pos ty len \<Longrightarrow> pos + len \<le> length rec \<and> pos + len < u64_lim
      \<and> wp (volume_info rec (pos + len)) (\<lambda>f. f < u16_lim)"
  show "wp (volume_info rec pos) (\<lambda>f. f < u16_lim)"
    unfolding volume_info.simps [of rec pos] wp_rbind
  proof (rule wp_conseq [OF attr_at_wp [OF r p]])
    fix x
    assume x: "\<forall>ty len. x = Some (ty, len) \<longrightarrow> attr_ok rec pos ty len"
    show "wp (case x of None \<Rightarrow> Err NoVolumeInfo
    | Some (ty, len) \<Rightarrow>
        rbind (if ty = NTFS_AT_VOLUME_INFORMATION then
                 rbind (get_at rec pos ntfs_attr ''non_resident'') (\<lambda>nr. Ok (nr = 0))
               else Ok False) (\<lambda>hit.
        if hit then
          rbind (get_at rec pos ntfs_attr_resident ''value_length'') (\<lambda>vl.
          if vl < size_of ntfs_volume_information then Err NoVolumeInfo else
          rbind (get_at rec pos ntfs_attr_resident ''value_offset'') (\<lambda>vo.
          rbind (add64 pos vo) (\<lambda>v.
          rbind (get_at rec v ntfs_volume_information ''flags'') (\<lambda>fl.
          Ok (if fl < u16_lim then fl else u16_lim - 1)))))
        else rbind (add64 pos len) (\<lambda>p. volume_info rec p))) (\<lambda>f. f < u16_lim)"
    proof (cases x)
      case (Some a)
      then obtain ty len where a: "x = Some (ty, len)" by (cases a) simp
      with x have ok: "attr_ok rec pos ty len" by simp
      show ?thesis using IH [OF ok] ok attr_ok_room [OF r ok]
        by (auto simp: a attr_field_wp [OF r ok] layout_simps attr_ok_def wp_get_at)
    qed simp
  qed
qed

section \<open>Segments\<close>

lemma check_runs_wp: "\<forall>r\<in>set rs. run_ok r \<Longrightarrow> wp (check_runs v rs) (\<lambda>_. runs_ok v rs)"
  by (induction rs) (auto simp: run_ok_def run_in_def elim!: wp_conseq)

lemma decode_runs_wp:
  assumes r: "rec_ok v rec" and ok: "attr_ok rec pos ty len" and nr: "fld rec pos ntfs_attr ''non_resident'' \<noteq> 0"
  shows "wp (decode_runs v rec pos cap) (\<lambda>rs. runs_ok v rs \<and> length rs \<le> cap)"
proof -
  from ok nr have "64 \<le> len" by (auto simp: attr_ok_def)
  note room = attr_ok_room [OF r ok] this
  have len: "fld rec pos ntfs_attr ''length'' = len" using ok by (simp add: attr_ok_def)
  have d: "wp (decode src cap) (\<lambda>rs. (\<forall>r\<in>set rs. run_ok r) \<and> length rs \<le> cap)" if "length src \<le> 4096" for src
    using decode_not_Panic [of src cap] decode_runs_ok [of src cap] that by (intro wpI) auto
  show ?thesis
    unfolding decode_runs_def using room
    by (auto simp: attr_field_wp [OF r ok] layout_simps len get_range_Some_iff
        intro!: wp_conseq [OF d] wp_conseq [OF check_runs_wp])
qed

lemma sum_counts_wp: "wp (sum_counts s rs) (\<lambda>t. t = s + span rs \<and> (s < u64_lim \<longrightarrow> t < u64_lim))"
proof (induction rs arbitrary: s)
  case (Cons r rs)
  show ?case by (auto simp: add.assoc intro!: wp_conseq [OF Cons.IH])
qed simp

text \<open>
  Progress of a walk: the runs so far are inside the volume, fit the output, and map exactly the
  virtual clusters below \<open>svcn\<close>, without a gap.
\<close>

definition seg_ok :: "volume \<Rightarrow> nat \<Rightarrow> seg \<Rightarrow> bool" where
  "seg_ok v cap st \<longleftrightarrow> runs_ok v (srun st) \<and> svcn st = span (srun st) \<and> length (srun st) \<le> cap
     \<and> svcn st < u64_lim"

lemma span_pos: "runs_ok v rs \<Longrightarrow> rs \<noteq> [] \<Longrightarrow> 0 < span rs"
  by (cases rs) (auto simp: run_in_def)

lemma segment_wp:
  assumes r: "rec_ok v rec" and ok: "attr_ok rec pos ty len" and st: "seg_ok v cap st"
  shows "wp (segment v rec pos st cap) (\<lambda>st'. seg_ok v cap st' \<and> srun st' \<noteq> [])"
proof (cases "fld rec pos ntfs_attr ''non_resident'' = 0")
  case True
  with ok attr_ok_room [OF r ok] show ?thesis
    by (simp add: segment_def attr_field_wp [OF r ok] layout_simps)
next
  case False
  from ok False have "64 \<le> len" by (auto simp: attr_ok_def)
  note room = attr_ok_room [OF r ok] this
  note dec = decode_runs_wp [OF r ok False, of "cap - length (srun st)"]
  have fin: "seg_ok v cap (st'\<lparr>srun := srun st @ rs, svcn := n\<rparr>)"
    if "runs_ok v rs" "length rs \<le> cap - length (srun st)" "n = svcn st + span rs" "n < u64_lim" for rs st' n
    using st that by (auto simp: seg_ok_def)
  show ?thesis
    unfolding segment_def Let_def
    using room
    by (auto simp: attr_field_wp [OF r ok] layout_simps False Suc_le_eq
        intro!: wp_conseq [OF dec] wp_conseq [OF sum_counts_wp] fin dest: span_pos)
qed

lemma segment_wp_ex:
  assumes "rec_ok v rec" "\<exists>ty len. attr_ok rec pos ty len" "seg_ok v cap st"
  shows "wp (segment v rec pos st cap) (\<lambda>st'. seg_ok v cap st' \<and> srun st' \<noteq> [])"
  using assms segment_wp by blast

section \<open>The attribute list and the walk\<close>

lemma alist_field_wp:
  assumes "length alist = MAX_ALIST" "p + 26 \<le> n" "n \<le> MAX_ALIST" "field_size L f \<le> 8"
    and "offset_of L f + field_size L f \<le> 26"
  shows "wp (get_at alist p L f) Q \<longleftrightarrow> Q (fld alist p L f)"
  using assms by (simp add: wp_get_at ntfs_consts)

lemma walk_end_wp:
  assumes "vol_ok v" "seg_ok v cap st" "srun st \<noteq> []"
  shows "wp (walk_end v st) (file_ok v cap)"
  using assms by (auto simp: walk_end_def file_ok_def seg_ok_def ntfs_consts)

context sector_disk
begin

lemma load_list_wpi:
  assumes v: "vol_ok v" and r: "rec_ok v rec" and ok: "attr_ok rec pos ty len"
    and al: "length alist = MAX_ALIST"
  shows "wpi (load_list rd v rec pos alist cap) s
    (\<lambda>(n, alist') s'. length alist' = MAX_ALIST \<and> n \<le> MAX_ALIST)"
proof (cases "fld rec pos ntfs_attr ''non_resident'' = 0")
  case True
  with ok al attr_ok_room [OF r ok] show ?thesis
    by (auto simp: load_list_def attr_field_wp [OF r ok] layout_simps attr_ok_def get_range_Some_iff)
next
  case False
  from ok False have "64 \<le> len" by (auto simp: attr_ok_def)
  note room = attr_ok_room [OF r ok] this
  note dec = decode_runs_wp [OF r ok False, of cap]
  have whole: "div_ceil n 512 * 512 \<le> 65536" if "n \<le> 65536" for n
    using div_ceil_le [of 512 n 128] that by simp
  have chunks: "wpi (read_chunks rd v rs AttrList (div_ceil n 512) 0) s' (\<lambda>b s'. length b \<le> MAX_ALIST)"
    if "runs_ok v rs" "n \<le> 65536" for rs n s'
    using whole [OF that(2)]
    by (intro wpi_conseq [OF read_chunks_wpi [OF v that(1)]]) (simp_all add: ntfs_consts)
  show ?thesis
    using room al whole [of "fld rec pos ntfs_attr_nonresident ''data_size''"]
    by (auto simp: load_list_def attr_field_wp [OF r ok] layout_simps False ntfs_consts
        intro!: wp_conseq [OF dec] wpi_conseq [OF chunks])
qed

lemma list_entry_wpi:
  assumes v: "vol_ok v" "runs_ok v rs" "limit < u64_lim" and al: "length alist = MAX_ALIST"
    and p: "p + 26 \<le> n" "n \<le> MAX_ALIST" and st: "seg_ok v cap st" and e: "ext \<le> 64"
  shows "wpi (list_entry rd v rs limit recno base_ref alist cap p ext st) s
    (\<lambda>(ext, st') s'. ext \<le> 64 \<and> seg_ok v cap st')"
proof -
  note F = alist_field_wp [OF al p] layout_simps
  have rest: "wp (entry_segment v rec rseq b alist p st cap) (seg_ok v cap)" if r: "rec_ok v rec" for rec rseq b
  proof -
    have l: "1024 \<le> length rec" using r by (simp add: rec_ok_def)
    show ?thesis
      using l al p by (auto simp: entry_segment_def get_f_def wp_get_at F ntfs_consts
          intro!: wp_conseq [OF find_segment_wp [OF r]] wp_conseq [OF segment_wp_ex [OF r _ st]])
  qed
  show ?thesis
    using e st
    by (auto simp: list_entry_def Let_def F MAX_EXTENSIONS_def
        intro!: wpi_conseq [OF read_record_wpi [OF v]] wp_conseq [OF rest])
qed

lemma list_loop_wpi:
  assumes v: "vol_ok v" "runs_ok v rs" "limit < u64_lim" and al: "length alist = MAX_ALIST"
    and n: "n \<le> MAX_ALIST"
  shows "seg_ok v cap st \<Longrightarrow> ext \<le> 64 \<Longrightarrow> p \<le> n \<Longrightarrow>
    wpi (list_loop rd v rs limit recno base_ref alist n cap p ext st) s (\<lambda>st' s'. seg_ok v cap st')"
proof (induction "n - p" arbitrary: p ext st s rule: less_induct)
  case less
  show ?case
  proof (cases "p < n")
    case False
    with less.prems show ?thesis by (simp add: wpi_def list_loop.simps)
  next
    case True
    let ?m = "ibind (lift (rbind (add64 p (size_of ntfs_attr_list_entry)) (\<lambda>e. ensure (e \<le> n) AttrList))) (\<lambda>_.
       ibind (lift (get_at alist p ntfs_attr_list_entry ''length'')) (\<lambda>elen.
       ibind (lift (rbind (sub64 n p) (\<lambda>room.
          ensure (size_of ntfs_attr_list_entry \<le> elen \<and> elen \<le> room) AttrList))) (\<lambda>_.
       ibind (list_entry rd v rs limit recno base_ref alist cap p ext st) (\<lambda>es.
       ibind (lift (add64 p elen)) (\<lambda>p.
       list_loop rd v rs limit recno base_ref alist n cap p (fst es) (snd es))))))"
    have eq: "list_loop rd v rs limit recno base_ref alist n cap p ext st s = ?m s"
      using True by (subst list_loop.simps) simp
    have IH: "wpi (list_loop rd v rs limit recno base_ref alist n cap (p + e) ext' st') s' (\<lambda>st' s'. seg_ok v cap st')"
      if "0 < e" "p + e \<le> n" "seg_ok v cap st'" "ext' \<le> 64" for e ext' st' s'
      using less.hyps [of "p + e"] that True by simp
    have "wpi ?m s (\<lambda>st' s'. seg_ok v cap st')"
      using n True less.prems al
      by (auto simp: layout_simps ntfs_consts wp_get_at
          intro!: wpi_conseq [OF list_entry_wpi [OF v al _ n]] IH)
    then show ?thesis by (simp add: wpi_def eq)
  qed
qed

lemma walk_segments_wpi:
  assumes v: "vol_ok v" "runs_ok v rs" "limit < u64_lim" and al: "length alist = MAX_ALIST"
    and r: "rec_ok v rec" and b: "base_result rec lst dat n"
  shows "wpi (walk_segments rd v rs limit recno allow_list alist cap rec own_seq lst dat n) s
    (\<lambda>st s'. seg_ok v cap st \<and> srun st \<noteq> [])"
proof -
  have s0: "seg_ok v cap seg0" by (simp add: seg_ok_def seg0_def)
  show ?thesis
  proof (cases lst)
    case None
    with b r show ?thesis
      by (auto simp: walk_segments_def base_result_def intro!: segment_wp_ex [OF _ _ s0])
  next
    case (Some lp)
    with b obtain ty len where ok: "attr_ok rec lp ty len" by (auto simp: base_result_def)
    show ?thesis
      by (auto simp: walk_segments_def Some Let_def intro!: wpi_conseq [OF load_list_wpi [OF v(1) r ok al]]
          wpi_conseq [OF list_loop_wpi [OF v]] s0)
  qed
qed

lemma walk_wpi:
  assumes v: "vol_ok v" "runs_ok v rs" "limit < u64_lim" and al: "length alist = MAX_ALIST"
  shows "wpi (walk rd v rs limit recno seq allow_list alist cap) s (\<lambda>f s'. file_ok v cap f)"
  by (auto simp: walk_def intro!: wpi_conseq [OF read_record_wpi [OF v]] wp_conseq [OF walk_base_wp]
      wpi_conseq [OF walk_segments_wpi [OF v al]] walk_end_wp [OF v(1)])

lemma ntfs_open_wpi:
  assumes "length alist = MAX_ALIST"
  shows "wpi (ntfs_open rd alist cap) s (\<lambda>m s'. mft_ok m)"
proof -
  have map_ok: "runs_ok v [mk_run (mft_lcn v) (div_ceil (record_bytes v) (cluster_bytes v))]"
    "0 < cluster_bytes v" "record_bytes v < u64_lim" if "vol_ok v" for v
  proof -
    have "record_bytes v \<le> div_ceil (record_bytes v) (cluster_bytes v) * cluster_bytes v"
      using that by (intro div_ceil_ge) (simp add: vol_ok_def)
    then have "0 < div_ceil (record_bytes v) (cluster_bytes v)"
      using that by (auto simp: vol_ok_def intro: Nat.gr0I)
    with that show "runs_ok v [mk_run (mft_lcn v) (div_ceil (record_bytes v) (cluster_bytes v))]"
      "0 < cluster_bytes v" "record_bytes v < u64_lim"
      by (auto simp: vol_ok_def run_in_def mk_run_def)
  qed
  show ?thesis
    unfolding ntfs_open_def
    by (auto simp: mft_ok_def file_ok_def dest: map_ok(2)
        intro!: wpi_conseq [OF disk_read_wpi] wp_conseq [OF parse_boot_wp] wpi_conseq [OF walk_wpi]
        map_ok assms)
qed

lemma ntfs_file_wpi:
  assumes "mft_ok m" "length alist = MAX_ALIST"
  shows "wpi (ntfs_file rd m recno seq alist cap) s (\<lambda>f s'. file_ok (mvol m) cap f)"
  using assms by (auto simp: ntfs_file_def mft_ok_def intro!: walk_wpi)

lemma volume_flags_wpi:
  assumes "mft_ok m"
  shows "wpi (volume_flags rd m) s (\<lambda>f s'. f < u16_lim)"
proof -
  have m: "vol_ok (mvol m)" "runs_ok (mvol m) (mruns m)" "mbytes m < u64_lim" using assms by (auto simp: mft_ok_def)
  show ?thesis
    by (auto simp: volume_flags_def get_f_def wp_get_at layout_simps
        intro!: wpi_conseq [OF read_record_wpi [OF m]] volume_info_wp) (auto simp: rec_ok_def)
qed

lemma open_file_wpi:
  assumes "length alist = MAX_ALIST"
  shows "wpi (ibind (ntfs_open rd alist mcap) (\<lambda>m.
      ibind (ntfs_file rd m recno seq alist cap) (\<lambda>f. lift (Ok (m, f))))) s
    (\<lambda>(m, f) s'. mft_ok m \<and> file_ok (mvol m) cap f)"
  using assms by (auto intro!: wpi_conseq [OF ntfs_open_wpi] wpi_conseq [OF ntfs_file_wpi])

end

section \<open>The in-memory disk of the harness\<close>

definition slice_read :: "bytes disk" where
  "slice_read img sector =
    ((case checked_mul sector 512 of
       None \<Rightarrow> None
     | Some off \<Rightarrow> (case checked_add off 512 of None \<Rightarrow> None | Some e \<Rightarrow> get_range img off e)), img)"

interpretation sl: sector_disk slice_read
  by unfold_locales (auto simp: slice_read_def get_range_Some_iff split: option.splits)

section \<open>Properties\<close>

text \<open>
  C17.  On any disk, failing, lying or changing under the reader, opening the volume and mapping a
  file panics nowhere (no overflow, no out-of-bounds field read, no failed debug assertion); when
  both succeed, every run of \<open>$MFT\<close> and of the file lies inside the volume and is not empty, the
  runs fit the caller's buffer, and they hold at least the file's data, a whole number of sectors.
\<close>

theorem ntfs_open_file_safe:
  assumes "sector_disk rd" and "length alist = MAX_ALIST"
  shows "wpi (ibind (ntfs_open rd alist mcap) (\<lambda>m.
      ibind (ntfs_file rd m recno seq alist cap) (\<lambda>f. lift (Ok (m, f))))) s
    (\<lambda>(m, f) s'. mft_ok m \<and> file_ok (mvol m) cap f)"
  by (rule sector_disk.open_file_wpi [OF assms])

theorem ntfs_open_file_safe_witness:
  "wpi (ibind (ntfs_open slice_read (replicate MAX_ALIST 0) 64) (\<lambda>m.
      ibind (ntfs_file slice_read m 24 1 (replicate MAX_ALIST 0) 64) (\<lambda>f. lift (Ok (m, f)))))
      (replicate 4096 0xff)
    (\<lambda>(m, f) s'. mft_ok m \<and> file_ok (mvol m) 64 f)"
  by (rule ntfs_open_file_safe) (simp_all add: sl.sector_disk_axioms)

text \<open>
  In a map as \<open>ntfs_file\<close> returns it (\<open>file_ok\<close>), every byte of the data lies in a sector of the
  volume, found without overflow.
\<close>

theorem file_has_no_gap:
  assumes "vol_ok v" and "file_ok v cap f" and "off < data_size f"
  shows "\<exists>sec. sector_of v (fruns f) off = Ok (Some sec) \<and> sec < vsectors v"
proof -
  have "off < span (fruns f) * cluster_bytes v" using assms(2,3) by (simp add: file_ok_def)
  then have "off div cluster_bytes v < span (fruns f)" by (rule less_mult_imp_div_less)
  then obtain c where "cluster_at (fruns f) (off div cluster_bytes v) = Some c"
    using cluster_at_Some by blast
  moreover have r: "runs_ok v (fruns f)" using assms(2) by (simp add: file_ok_def)
  ultimately obtain sec where "sector_of v (fruns f) off = Ok (Some sec)"
    using assms(1) by (auto simp: sector_of_eq)
  with sector_of_in [OF assms(1) r] show ?thesis by blast
qed

text \<open>A volume of 64 clusters of 512 bytes and a file of two runs on it.\<close>

theorem file_has_no_gap_witness:
  "\<exists>sec. sector_of \<lparr>vsectors = 64, vclusters = 64, cluster_bytes = 512, record_bytes = 1024, mft_lcn = 4\<rparr>
      (fruns \<lparr>fruns = [mk_run 10 2, mk_run 20 1], data_size = 1536\<rparr>) 1100 = Ok (Some sec) \<and> sec < 64"
  using file_has_no_gap [of
      "\<lparr>vsectors = 64, vclusters = 64, cluster_bytes = 512, record_bytes = 1024, mft_lcn = 4\<rparr>" 8
      "\<lparr>fruns = [mk_run 10 2, mk_run 20 1], data_size = 1536\<rparr>" 1100]
  by (simp add: vol_ok_def file_ok_def run_in_def mk_run_def div_ceil_def)

text \<open>The codes of the errors, read backwards.\<close>

definition code_table :: "(int \<times> ntfs_error) list" where
  "code_table = map (\<lambda>e. (ntfs_code e, e))
    ([Io, BootSignature, OemId, SectorSize, ClusterSize, VolumeSize, RecordSize, MftLcn, BadIdentity,
      NotMapped, RecordMagic, RecordLayout, FixupMismatch, RecordNumber, NotInUse, Directory,
      Sequence, NotBase, AttrBounds, NoData, DuplicateData, Resident, Compressed, Encrypted, Sparse,
      Gap, SegmentVcn, OutsideVolume, AttrList, AttrListSize, TooManyExtensions, MissingSegment,
      ExtensionBase, MftAttrList, AllocatedSize, NotInitialized, Unaligned, TooManyExtents,
      NoVolumeInfo, SelfOverlap, PayloadGpt, PayloadNoKnownPartition, PayloadNotFat, PayloadGptCrc,
      PayloadGptBackup, PayloadExt4, PayloadIso, PayloadUnknown]
     @ map Runlist [runlist_error.Truncated, FieldTooWide, runlist_error.Sparse, ZeroLength,
        NegativeLcn, Overflow, TooManyRuns, Unterminated])"

lemma code_table_inverse: "map_of code_table (ntfs_code e) = Some e"
proof (cases e)
  case (Runlist r)
  then show ?thesis by (cases r) (simp_all add: code_table_def)
qed (simp_all add: code_table_def)

text \<open>
  The numeric codes shared with the kernel module identify the error: no two errors have the
  same code, and none has code 0, which there means success.
\<close>

theorem ntfs_code_identifies: "inj ntfs_code \<and> 0 \<notin> range ntfs_code"
proof
  show "inj ntfs_code" by (rule injI) (metis code_table_inverse option.inject)
  have "ntfs_code e \<noteq> 0" for e
  proof (cases e)
    case (Runlist r)
    then show ?thesis by (cases r) simp_all
  qed simp_all
  then show "0 \<notin> range ntfs_code" by auto
qed

end
