(* ===== verification/Claims.thy ===== *)
theory Claims
  imports NtfsCorrect "HOL-Library.Sublist" "HOL-Library.Multiset"
begin

text \<open>
  Claims on a file's extents, the second half of \<open>crates/paguro-core/src/ntfs.rs\<close>: conversion of
  runs to sector extents (\<open>extents\<close>), the sorted copy for the range test (\<open>normalise\<close>), and the
  comparisons of claims (\<open>intersects\<close>, \<open>grows\<close>, \<open>coalesce\<close>, \<open>truncate\<close>, \<open>gather\<close>).

  An in-place buffer with a count is the list of its first entries; the writes of a loop never
  reach an entry that is still to be read.  The specification is the flat list of the sectors of a
  file in logical order: what the file is, whatever its extents look like.
\<close>

section \<open>Operations\<close>

fun extents_loop :: "volume \<Rightarrow> nat \<Rightarrow> nat \<Rightarrow> run list \<Rightarrow> extent list \<Rightarrow> extent list nres" where
  "extents_loop vol spc cap [] acc = Ok acc"
| "extents_loop vol spc cap (r # rs) acc =
    rbind (ok_or (checked_mul (run_lcn r) spc) OutsideVolume) (\<lambda>start.
    rbind (ok_or (Option.bind (checked_add (run_lcn r) (run_count r)) (\<lambda>e. checked_mul e spc))
             OutsideVolume) (\<lambda>e.
    if e > vsectors vol then Err OutsideVolume
    else if acc \<noteq> [] \<and> eend (last acc) = start
      then extents_loop vol spc cap rs (butlast acc @ [mk_extent (estart (last acc)) e])
    else if length acc < cap then extents_loop vol spc cap rs (acc @ [mk_extent start e])
    else Err TooManyExtents))"

definition extents :: "volume \<Rightarrow> run list \<Rightarrow> nat \<Rightarrow> extent list nres" where
  "extents vol runs cap = extents_loop vol (cluster_bytes vol div NTFS_SECTOR) cap runs []"

text \<open>
  \<open>normalise\<close> sorts by start; extents with equal starts are refused whatever their order, so the
  unstable sort of the source is the stable one here.
\<close>

definition normalise_step :: "extent list \<Rightarrow> extent \<Rightarrow> extent list nres" where
  "normalise_step acc e =
    (if estart e \<ge> eend e then Err SelfOverlap
     else if acc \<noteq> [] \<and> estart e < eend (last acc) then Err SelfOverlap
     else if acc \<noteq> [] \<and> estart e = eend (last acc)
       then Ok (butlast acc @ [mk_extent (estart (last acc)) (eend e)])
     else Ok (acc @ [e]))"

definition normalise :: "extent list \<Rightarrow> nat \<Rightarrow> extent list nres" where
  "normalise file cap =
    (if length file > cap then Err TooManyExtents
     else try_fold normalise_step [] (sort_key estart file))"

fun intersects :: "extent list \<Rightarrow> extent list \<Rightarrow> bool" where
  "intersects (x # a) (y # b) =
    (if extent_intersects x y then True
     else if eend x \<le> eend y then intersects a (y # b) else intersects (x # a) b)"
| "intersects a b = False"

definition grows :: "extent list \<Rightarrow> extent list \<Rightarrow> bool" where
  "grows old new =
    (if old = [] then False
     else
       (let lst = last old; head = butlast old in
        case (get_range new 0 (length head), nth_opt new (length head)) of
          (Some new_head, Some new_last) \<Rightarrow>
            new_head = head \<and> estart new_last = estart lst \<and> eend new_last \<ge> eend lst
        | _ \<Rightarrow> False))"

fun coalesce_loop :: "extent list \<Rightarrow> extent list \<Rightarrow> extent list option" where
  "coalesce_loop acc [] = Some acc"
| "coalesce_loop acc (x # xs) =
    (if estart x \<ge> eend x then None
     else if acc \<noteq> [] \<and> eend (last acc) = estart x
       then coalesce_loop (butlast acc @ [mk_extent (estart (last acc)) (eend x)]) xs
     else coalesce_loop (acc @ [x]) xs)"

definition coalesce :: "extent list \<Rightarrow> extent list option" where
  "coalesce e = coalesce_loop [] e"

fun truncate_loop :: "nat \<Rightarrow> extent list \<Rightarrow> extent list \<Rightarrow> extent list option" where
  "truncate_loop left acc [] = None"
| "truncate_loop left acc (x # xs) =
    (if left = 0 then None
     else if estart x \<ge> eend x then None
     else
       (let len = eend x - estart x in
        if len \<ge> left then Some (acc @ [mk_extent (estart x) (estart x + left)])
        else truncate_loop (left - len) (acc @ [x]) xs))"

definition truncate_ext :: "extent list \<Rightarrow> nat \<Rightarrow> extent list option" where
  "truncate_ext e sectors = truncate_loop sectors [] e"

fun gather_loop :: "nat \<Rightarrow> nat \<Rightarrow> extent list \<Rightarrow> (nat \<times> nat) option" where
  "gather_loop lsec base [] = None"
| "gather_loop lsec base (e # es) =
    (let len = wrapping_sub (eend e) (estart e); into = wrapping_sub lsec base in
     if into < len then Some (wrapping_add (estart e) into, len - into)
     else gather_loop lsec (wrapping_add base len) es)"

definition gather :: "extent list \<Rightarrow> nat \<Rightarrow> (nat \<times> nat) option" where
  "gather file lsec = gather_loop lsec 0 file"

section \<open>The flat view of a file\<close>

definition flat :: "extent list \<Rightarrow> nat list" where
  "flat es = concat (map (\<lambda>e. [estart e..<eend e]) es)"

lemma flat_simps [simp]: "flat [] = []" "flat (e # es) = [estart e..<eend e] @ flat es"
  "flat (es @ es') = flat es @ flat es'"
  by (simp_all add: flat_def)

lemma set_flat: "set (flat es) = covered es"
  by (induction es) (auto simp: sectors_of_def)

definition wf_extents :: "extent list \<Rightarrow> bool" where
  "wf_extents es \<longleftrightarrow> (\<forall>e\<in>set es. wf_extent e)"

text \<open>Coalesced: no extent is empty, none continues the one before it.\<close>

fun coalesced :: "extent list \<Rightarrow> bool" where
  "coalesced (x # y # es) \<longleftrightarrow> wf_extent x \<and> eend x \<noteq> estart y \<and> coalesced (y # es)"
| "coalesced [x] \<longleftrightarrow> wf_extent x"
| "coalesced [] \<longleftrightarrow> True"

lemma wf_extents_simps [simp]: "wf_extents []" "wf_extents (e # es) \<longleftrightarrow> wf_extent e \<and> wf_extents es"
  "wf_extents (es @ es') \<longleftrightarrow> wf_extents es \<and> wf_extents es'"
  by (auto simp: wf_extents_def)

lemma coalesced_wf: "coalesced es \<Longrightarrow> wf_extents es"
  by (induction es rule: coalesced.induct) auto

lemma coalesced_snoc:
  "coalesced (es @ [x]) \<longleftrightarrow> coalesced es \<and> wf_extent x \<and> (es \<noteq> [] \<longrightarrow> eend (last es) \<noteq> estart x)"
  by (induction es rule: coalesced.induct) auto

text \<open>Extending the last extent, as three of the loops do.\<close>

lemma flat_extend:
  assumes "es \<noteq> []" "eend (last es) = s" "s < t" "wf_extents es"
  shows "flat (butlast es @ [mk_extent (estart (last es)) t]) = flat es @ [s..<t]"
proof -
  have w: "estart (last es) < s" using assms by (auto simp: wf_extents_def wf_extent_def)
  have "flat es = flat (butlast es) @ [estart (last es)..<eend (last es)]"
    using append_butlast_last_id [OF assms(1)] by (metis append_Nil2 flat_simps)
  moreover have "[estart (last es)..<t] = [estart (last es)..<s] @ [s..<t]"
    using upt_add_eq_append [of "estart (last es)" s "t - s"] w assms(3) by simp
  ultimately show ?thesis using assms(2) by simp
qed

lemma coalesced_extend:
  assumes "es \<noteq> []" "coalesced es" "eend (last es) < t" "t < u64_lim"
  shows "coalesced (butlast es @ [mk_extent (estart (last es)) t])"
proof -
  have "coalesced (butlast es @ [last es])" using assms by simp
  then show ?thesis using assms unfolding coalesced_snoc by (auto simp: wf_extent_def)
qed

section \<open>Coalescing and truncating keep the file\<close>

lemma coalesce_loop_Some:
  assumes "coalesced acc" "\<forall>x\<in>set xs. eend x < u64_lim" "coalesce_loop acc xs = Some r"
  shows "coalesced r \<and> flat r = flat acc @ flat xs"
  using assms
proof (induction acc xs rule: coalesce_loop.induct)
  case (2 acc x xs)
  let ?ext = "butlast acc @ [mk_extent (estart (last acc)) (eend x)]"
  from "2.prems" have x: "estart x < eend x" "wf_extent x" by (auto simp: wf_extent_def split: if_splits)
  show ?case
  proof (cases "acc \<noteq> [] \<and> eend (last acc) = estart x")
    case True
    have "coalesced ?ext" using True x "2.prems" by (intro coalesced_extend) auto
    moreover have "flat ?ext = flat acc @ [estart x..<eend x]"
      using True x coalesced_wf [OF "2.prems"(1)] by (intro flat_extend) auto
    ultimately show ?thesis using True x "2.prems" "2.IH"(1) by auto
  next
    case False
    then have "coalesced (acc @ [x])" using "2.prems" x by (auto simp: coalesced_snoc)
    with False x "2.prems" "2.IH"(2) show ?thesis by auto
  qed
qed simp

lemma coalesce_loop_None:
  "coalesce_loop acc xs = None \<longleftrightarrow> (\<exists>x\<in>set xs. eend x \<le> estart x)"
  by (induction acc xs rule: coalesce_loop.induct) auto

lemma truncate_loop_Some:
  "wf_extents xs \<Longrightarrow> truncate_loop left acc xs = Some r \<Longrightarrow>
    flat r = flat acc @ take left (flat xs) \<and> left \<le> length (flat xs) \<and> 0 < left"
proof (induction left acc xs rule: truncate_loop.induct)
  case (2 left acc x xs)
  let ?len = "eend x - estart x"
  from "2.prems" have x: "estart x < eend x" by (simp add: wf_extent_def)
  show ?case
  proof (cases "left \<le> ?len")
    case True
    with "2.prems" x show ?thesis by (auto simp: Let_def take_upt split: if_splits)
  next
    case False
    with "2.prems" x have "truncate_loop (left - ?len) (acc @ [x]) xs = Some r"
      by (simp add: Let_def split: if_splits)
    with "2.IH" "2.prems" x False show ?thesis by (auto simp: Let_def split: if_splits)
  qed
qed simp

lemma truncate_loop_None:
  "wf_extents xs \<Longrightarrow> truncate_loop left acc xs = None \<longleftrightarrow> left = 0 \<or> length (flat xs) < left"
proof (induction left acc xs rule: truncate_loop.induct)
  case (2 left acc x xs)
  then show ?case by (cases "left \<le> eend x - estart x") (auto simp: Let_def wf_extent_def)
qed auto

text \<open>
  Merging adjacent extents and cutting a file at a sector count do not change which sector
  holds which part of it: \<open>coalesce\<close> returns a coalesced list with the same sectors in the same
  order, unless an extent is empty, and \<open>truncate\<close> the first \<open>n\<close> of them, unless there are fewer
  or \<open>n\<close> is 0.
\<close>

theorem coalesce_truncate_keep_file:
  assumes "wf_extents es"
  shows "\<exists>r. coalesce es = Some r \<and> coalesced r \<and> flat r = flat es
    \<and> (if 0 < n \<and> n \<le> length (flat es)
       then \<exists>t. truncate_ext es n = Some t \<and> flat t = take n (flat es)
       else truncate_ext es n = None)"
proof -
  have "coalesce es \<noteq> None"
    using assms by (auto simp: coalesce_def coalesce_loop_None wf_extents_def wf_extent_def)
  then obtain r where r: "coalesce es = Some r" by auto
  moreover have "coalesced r \<and> flat r = flat es"
    using coalesce_loop_Some [of "[]" es r] r assms
    by (auto simp: coalesce_def wf_extents_def wf_extent_def)
  moreover have "\<exists>t. truncate_ext es n = Some t \<and> flat t = take n (flat es)"
    if "0 < n \<and> n \<le> length (flat es)"
    using truncate_loop_None [OF assms, of n "[]"] truncate_loop_Some [OF assms, of n "[]"] that
    by (cases "truncate_ext es n") (auto simp: truncate_ext_def)
  moreover have "truncate_ext es n = None" if "\<not> (0 < n \<and> n \<le> length (flat es))"
    using truncate_loop_None [OF assms, of n "[]"] that by (auto simp: truncate_ext_def)
  ultimately show ?thesis by auto
qed

theorem coalesce_truncate_keep_file_witness:
  "\<exists>r. coalesce [mk_extent 8 10, mk_extent 10 12, mk_extent 4 6] = Some r \<and> coalesced r
    \<and> flat r = flat [mk_extent 8 10, mk_extent 10 12, mk_extent 4 6]
    \<and> (if 0 < (5 :: nat) \<and> 5 \<le> length (flat [mk_extent 8 10, mk_extent 10 12, mk_extent 4 6])
       then \<exists>t. truncate_ext [mk_extent 8 10, mk_extent 10 12, mk_extent 4 6] 5 = Some t
              \<and> flat t = take 5 (flat [mk_extent 8 10, mk_extent 10 12, mk_extent 4 6])
       else truncate_ext [mk_extent 8 10, mk_extent 10 12, mk_extent 4 6] 5 = None)"
  by (rule coalesce_truncate_keep_file) (simp add: wf_extent_def)

section \<open>Translation\<close>

text \<open>Files of fewer than \<open>2^64\<close> sectors, as every file is whose extents are disjoint.\<close>

definition gather_ok :: "extent list \<Rightarrow> bool" where
  "gather_ok es \<longleftrightarrow> wf_extents es \<and> length (flat es) < u64_lim"

lemma gather_loop_flat:
  assumes "wf_extents es" "base + length (flat es) < u64_lim" "base \<le> lsec" "lsec < u64_lim"
  shows "map_option fst (gather_loop lsec base es)
    = (if lsec - base < length (flat es) then Some (flat es ! (lsec - base)) else None)"
  using assms
proof (induction es arbitrary: base)
  case (Cons e es)
  let ?len = "eend e - estart e"
  from Cons.prems have e: "estart e < eend e" "eend e < u64_lim" by (auto simp: wf_extent_def)
  show ?case
  proof (cases "lsec - base < ?len")
    case True
    then have "estart e + (lsec - base) < u64_lim" using e by linarith
    with True Cons.prems e show ?thesis by (simp add: Let_def nth_append)
  next
    case False
    with Cons.prems e have "base + ?len < u64_lim" "base + ?len \<le> lsec" by auto
    moreover from this Cons.prems False have "map_option fst (gather_loop lsec (base + ?len) es) =
        (if lsec - (base + ?len) < length (flat es) then Some (flat es ! (lsec - (base + ?len))) else None)"
      by (intro Cons.IH) simp_all
    ultimately show ?thesis using Cons.prems e False by (auto simp: Let_def nth_append)
  qed
qed simp

lemma gather_flat:
  assumes "gather_ok es" "lsec < u64_lim"
  shows "map_option fst (gather es lsec) = nth_opt (flat es) lsec"
  using assms gather_loop_flat [of es 0 lsec]
  by (simp add: gather_def gather_ok_def nth_opt_def)

section \<open>From runs to extents\<close>

definition run_sectors :: "volume \<Rightarrow> run \<Rightarrow> nat list" where
  "run_sectors v r = (let spc = cluster_bytes v div 512 in [run_lcn r * spc..<(run_lcn r + run_count r) * spc])"

definition runs_flat :: "volume \<Rightarrow> run list \<Rightarrow> nat list" where
  "runs_flat v rs = concat (map (run_sectors v) rs)"

lemma run_extent_bounds:
  assumes v: "vol_ok v" and r: "run_in v r"
  defines "spc \<equiv> cluster_bytes v div 512"
  shows "run_lcn r * spc < (run_lcn r + run_count r) * spc" "(run_lcn r + run_count r) * spc \<le> vsectors v"
    "vsectors v < u64_lim" "run_lcn r + run_count r < u64_lim"
proof -
  from v have spc: "0 < spc" "cluster_bytes v = spc * 512"
    by (auto simp: vol_ok_def spc_def elim!: dvdE)
  with r show "run_lcn r * spc < (run_lcn r + run_count r) * spc" by (simp add: run_in_def)
  show le: "(run_lcn r + run_count r) * spc \<le> vsectors v"
    using v r by (auto simp: vol_ok_def run_in_def spc_def intro: mult_le_mono1)
  have "vsectors v * 512 = vclusters v * cluster_bytes v"
    using v spc by (simp add: vol_ok_def spc_def [symmetric])
  then have "vsectors v * 512 < u64_lim" using v by (simp only: vol_ok_def)
  then show vs: "vsectors v < u64_lim" by linarith
  have "run_lcn r + run_count r \<le> (run_lcn r + run_count r) * spc" using spc by simp
  with le vs show "run_lcn r + run_count r < u64_lim" by linarith
qed

lemma extents_loop_wp:
  assumes v: "vol_ok v" and "runs_ok v rs" "coalesced acc"
  shows "wp (extents_loop v (cluster_bytes v div 512) cap rs acc)
    (\<lambda>es. coalesced es \<and> flat es = flat acc @ runs_flat v rs)"
  using assms(2,3)
proof (induction rs arbitrary: acc)
  case (Cons r rs)
  let ?spc = "cluster_bytes v div 512"
  let ?s = "run_lcn r * ?spc" and ?e = "(run_lcn r + run_count r) * ?spc"
  from Cons.prems have r: "run_in v r" and rs: "runs_ok v rs" by simp_all
  note b = run_extent_bounds [OF v r]
  let ?ext = "butlast acc @ [mk_extent (estart (last acc)) ?e]"
  have sec: "run_sectors v r = [?s..<?e]" by (simp add: run_sectors_def Let_def)
  have 1: "wp (extents_loop v ?spc cap rs ?ext) (\<lambda>es. coalesced es \<and> flat es = flat acc @ runs_flat v (r # rs))"
    if "acc \<noteq> [] \<and> eend (last acc) = ?s"
  proof -
    have "coalesced ?ext" using that b Cons.prems(2) by (intro coalesced_extend) auto
    moreover have "flat ?ext = flat acc @ [?s..<?e]"
      using that b coalesced_wf [OF Cons.prems(2)] by (intro flat_extend) auto
    ultimately show ?thesis using Cons.IH [OF rs, of ?ext] by (simp add: runs_flat_def sec)
  qed
  have 2: "wp (extents_loop v ?spc cap rs (acc @ [mk_extent ?s ?e]))
      (\<lambda>es. coalesced es \<and> flat es = flat acc @ runs_flat v (r # rs))"
    if "\<not> (acc \<noteq> [] \<and> eend (last acc) = ?s)"
  proof -
    have "coalesced (acc @ [mk_extent ?s ?e])"
      using that b Cons.prems(2) by (auto simp: coalesced_snoc wf_extent_def)
    then show ?thesis using Cons.IH [OF rs, of "acc @ [mk_extent ?s ?e]"] by (simp add: runs_flat_def sec)
  qed
  from b 1 2 show ?case by (auto simp: checked_add_def checked_mul_def)
qed (simp add: runs_flat_def)

text \<open>The sector of a map at a logical sector: the flat list and \<open>sector_of\<close> agree.\<close>

lemma runs_flat_nth:
  assumes spc: "0 < spc" "spc = cluster_bytes v div 512"
  shows "nth_opt (runs_flat v rs) k = map_option (\<lambda>c. c * spc + k mod spc) (cluster_at rs (k div spc))"
proof (induction rs arbitrary: k)
  case (Cons r rs)
  let ?n = "run_count r * spc"
  have sec: "run_sectors v r = [run_lcn r * spc..<run_lcn r * spc + ?n]"
    by (simp add: run_sectors_def Let_def spc(2) add_mult_distrib)
  have flat: "runs_flat v (r # rs) = [run_lcn r * spc..<run_lcn r * spc + ?n] @ runs_flat v rs"
    by (simp add: runs_flat_def sec)
  show ?case
  proof (cases "k < ?n")
    case True
    then have "k div spc < run_count r" by (rule less_mult_imp_div_less)
    moreover have "run_lcn r * spc + k = (run_lcn r + k div spc) * spc + k mod spc"
      by (simp add: add_mult_distrib)
    ultimately show ?thesis using True by (simp add: flat nth_opt_def nth_append)
  next
    case False
    then have d: "\<not> k div spc < run_count r"
      using spc(1) by (simp add: not_less less_eq_div_iff_mult_less_eq)
    have k: "k = (k - ?n) + run_count r * spc" using False by simp
    have "k div spc = run_count r + (k - ?n) div spc" "k mod spc = (k - ?n) mod spc"
      using spc(1) by (subst k, simp)+
    moreover have "nth_opt (runs_flat v (r # rs)) k = nth_opt (runs_flat v rs) (k - ?n)"
      using False by (auto simp: flat nth_opt_def nth_append)
    ultimately show ?thesis using Cons.IH [of "k - ?n"] d by (simp add: not_less)
  qed
qed (simp add: runs_flat_def nth_opt_def)

lemma sector_of_sectors:
  assumes v: "vol_ok v" and rs: "runs_ok v rs"
  shows "sector_of v rs (512 * k) = Ok (nth_opt (runs_flat v rs) k)"
proof -
  define spc where "spc = cluster_bytes v div 512"
  from v have spc: "0 < spc" "cluster_bytes v = 512 * spc"
    by (auto simp: vol_ok_def spc_def elim!: dvdE)
  have "(c * (512 * spc) + 512 * k mod (512 * spc)) div 512 = c * spc + k mod spc" for c
  proof -
    have "c * (512 * spc) + 512 * k mod (512 * spc) = (c * spc + k mod spc) * 512"
      by (simp add: mod_mult_mult1 add_mult_distrib)
    then show ?thesis by simp
  qed
  then show ?thesis
    using runs_flat_nth [OF spc(1) spc_def, of rs k]
    by (simp add: sector_of_eq [OF v rs] spc(2))
qed

lemma length_runs_flat: "length (runs_flat v rs) = span rs * (cluster_bytes v div 512)"
  by (induction rs) (auto simp: runs_flat_def run_sectors_def Let_def add_mult_distrib)

text \<open>
  C18.  The extents of a checked map translate as the map does: \<open>extents\<close> does not panic, its
  result is coalesced (so that it is canonical for \<open>grows\<close>), and view A's translation \<open>gather\<close>
  finds for every logical sector the sector \<open>sector_of\<close> finds through the runs, or nothing where
  the map ends.
\<close>

theorem extents_translate:
  assumes v: "vol_ok v" and rs: "runs_ok v rs" and n: "span rs * cluster_bytes v < u64_lim"
  shows "wp (extents v rs cap) (\<lambda>es. coalesced es \<and>
      (\<forall>k<u64_lim. sector_of v rs (512 * k) = Ok (map_option fst (gather es k))))"
proof (rule wp_conseq)
  show "wp (extents v rs cap) (\<lambda>es. coalesced es \<and> flat es = runs_flat v rs)"
    using extents_loop_wp [OF v rs, of "[]" cap] by (simp add: extents_def ntfs_consts)
  fix es assume es: "coalesced es \<and> flat es = runs_flat v rs"
  have "span rs * (cluster_bytes v div 512) \<le> span rs * cluster_bytes v" by (intro mult_le_mono2) simp
  then have "span rs * (cluster_bytes v div 512) < u64_lim" using n by (rule le_less_trans)
  then have "gather_ok es" using es coalesced_wf by (simp add: gather_ok_def length_runs_flat)
  then show "coalesced es \<and> (\<forall>k<u64_lim. sector_of v rs (512 * k) = Ok (map_option fst (gather es k)))"
    using es by (simp add: gather_flat sector_of_sectors [OF v rs])
qed

definition sample_volume :: volume where
  "sample_volume = \<lparr>vsectors = 80000, vclusters = 10000, cluster_bytes = 4096, record_bytes = 1024,
     mft_lcn = 4\<rparr>"

theorem extents_translate_witness:
  "wp (extents sample_volume [mk_run 100 2, mk_run 102 3, mk_run 50 1] 4) (\<lambda>es. coalesced es \<and>
     (\<forall>k<u64_lim. sector_of sample_volume [mk_run 100 2, mk_run 102 3, mk_run 50 1] (512 * k)
        = Ok (map_option fst (gather es k))))
   \<and> extents sample_volume [mk_run 100 2, mk_run 102 3, mk_run 50 1] 4
        = Ok [mk_extent 800 840, mk_extent 400 408]"
proof
  show "extents sample_volume [mk_run 100 2, mk_run 102 3, mk_run 50 1] 4
        = Ok [mk_extent 800 840, mk_extent 400 408]"
    by (simp add: extents_def sample_volume_def mk_run_def ntfs_consts checked_mul_def checked_add_def)
qed (rule extents_translate, simp_all add: vol_ok_def sample_volume_def run_in_def mk_run_def div_ceil_def)

section \<open>Comparing claims\<close>

lemma prefix_upt_shorter:
  assumes "s < a" "a < b" "prefix ([s..<a] @ us) ([s..<b] @ ws)" "us \<noteq> []"
  shows "hd us = a"
proof -
  have "[s..<b] = [s..<a] @ [a..<b]" using upt_add_eq_append [of s a "b - a"] assms by simp
  with assms have "prefix us ([a..<b] @ ws)" by simp
  with assms show ?thesis by (cases us) (auto simp: upt_conv_Cons)
qed

lemma prefix_upt_longer:
  assumes "s < b" "b < a" "prefix ([s..<a] @ us) ([s..<b] @ ws)"
  shows "ws \<noteq> [] \<and> hd ws = b"
proof -
  have "[s..<a] = [s..<b] @ [b..<a]" using upt_add_eq_append [of s b "a - b"] assms by simp
  with assms have "prefix ([b..<a] @ us) ws" by simp
  with assms show ?thesis by (cases ws) (auto simp: upt_conv_Cons)
qed

lemma flat_hd: "coalesced (x # xs) \<Longrightarrow> flat (x # xs) \<noteq> [] \<and> hd (flat (x # xs)) = estart x"
  by (cases xs) (auto simp: wf_extent_def)

lemma coalesced_Cons: "coalesced (x # xs) \<longleftrightarrow> wf_extent x \<and> coalesced xs \<and> (xs \<noteq> [] \<longrightarrow> eend x \<noteq> estart (hd xs))"
  by (cases xs) auto

lemma flat_next: "coalesced (x # xs) \<Longrightarrow> flat xs \<noteq> [] \<Longrightarrow> hd (flat xs) \<noteq> eend x"
  using flat_hd [of "hd xs" "tl xs"] by (cases xs) (auto simp: coalesced_Cons)

lemma grows_rec:
  "grows [x] (y # ys) \<longleftrightarrow> estart y = estart x \<and> eend x \<le> eend y"
  "grows (x # x' # xs) (y # ys) \<longleftrightarrow> y = x \<and> grows (x' # xs) ys"
  "\<not> grows xs []"
  by (auto simp: grows_def get_range_def nth_opt_def Let_def)

lemma prefix_heads:
  assumes "coalesced (x # xs)" "coalesced (y # ys)" "prefix (flat (x # xs)) (flat (y # ys))"
  shows "estart y = estart x \<and> eend x \<le> eend y \<and> (xs \<noteq> [] \<longrightarrow> eend x = eend y)"
proof -
  have w: "estart x < eend x" "estart y < eend y" using assms by (auto simp: coalesced_Cons wf_extent_def)
  have s: "estart y = estart x"
    using assms(3) w by (auto simp: upt_conv_Cons)
  have le: "eend x \<le> eend y"
  proof (rule ccontr)
    assume "\<not> eend x \<le> eend y"
    then have "flat ys \<noteq> [] \<and> hd (flat ys) = eend y"
      using prefix_upt_longer [of "estart y" "eend y" "eend x" "flat xs" "flat ys"] w s assms(3) by simp
    with flat_next [OF assms(2)] show False by simp
  qed
  have "eend x = eend y" if "xs \<noteq> []"
  proof (rule ccontr)
    assume "eend x \<noteq> eend y"
    moreover have "flat xs \<noteq> []" using that assms(1) by (cases xs) (auto simp: wf_extent_def coalesced_Cons)
    ultimately have "hd (flat xs) = eend x"
      using prefix_upt_shorter [of "estart x" "eend x" "eend y" "flat xs" "flat ys"] w s le assms(3) by simp
    with flat_next [OF assms(1) \<open>flat xs \<noteq> []\<close>] show False by simp
  qed
  with s le show ?thesis by simp
qed

text \<open>
  Where both lists have extents, growth is a prefix of the sectors.
\<close>

lemma grows_nonempty:
  assumes "coalesced old" "coalesced new" "old \<noteq> []"
  shows "grows old new \<longleftrightarrow> prefix (flat old) (flat new)"
  using assms
proof (induction old arbitrary: new)
  case (Cons x xs)
  show ?case
  proof (cases new)
    case Nil
    with Cons.prems flat_hd [of x xs] show ?thesis by (auto simp: grows_rec)
  next
    case (Cons y ys)
    note new = this
    note heads = prefix_heads [of x xs y ys]
    show ?thesis
    proof (cases xs)
      case Nil
      have "prefix [estart x..<eend x] ([estart y..<eend y] @ flat ys)"
        if "estart y = estart x" "eend x \<le> eend y"
        using that Cons.prems upt_add_eq_append [of "estart x" "eend x" "eend y - eend x"]
        by (auto simp: coalesced_Cons new Nil wf_extent_def prefix_def)
      with heads Cons.prems new Nil show ?thesis by (auto simp: grows_rec)
    next
      case (Cons x' xs')
      have "grows xs ys \<longleftrightarrow> prefix (flat xs) (flat ys)"
        using Cons.IH [of ys] Cons.prems new Cons by (auto simp: coalesced_Cons)
      moreover have "y = x" if "prefix (flat (x # xs)) (flat (y # ys))"
        using heads that Cons.prems new Cons by (auto intro: extent.equality)
      ultimately show ?thesis using new Cons by (auto simp: grows_rec)
    qed
  qed
qed simp

text \<open>
  C19.  Append-only growth is what it means: for coalesced extents, \<open>grows old new\<close> holds exactly
  when the old file has an extent and every logical sector of it is mapped by the new one, to the same
  sector.  A file without extents never counts as grown, whatever the new one is.
\<close>

theorem grows_prefix:
  assumes "coalesced old" "coalesced new"
  shows "grows old new \<longleftrightarrow> old \<noteq> [] \<and> prefix (flat old) (flat new)"
proof (cases "old = []")
  case True
  then show ?thesis by (cases new) (simp_all add: grows_def)
next
  case False
  with grows_nonempty [OF assms] show ?thesis by simp
qed

theorem grows_prefix_witness:
  "grows [mk_extent 8 16, mk_extent 40 48] [mk_extent 8 16, mk_extent 40 56, mk_extent 0 8] \<longleftrightarrow>
   [mk_extent 8 16, mk_extent 40 48] \<noteq> [] \<and> prefix (flat [mk_extent 8 16, mk_extent 40 48])
     (flat [mk_extent 8 16, mk_extent 40 56, mk_extent 0 8])"
  by (rule grows_prefix) (simp_all add: wf_extent_def)

lemma intersects_Nil [simp]: "\<not> intersects a []"
  by (cases a) auto

text \<open>
  C20.  Two normalised claims intersect, by one pass over both lists, exactly when they share a
  sector.
\<close>

theorem intersects_iff:
  "canon a \<Longrightarrow> canon b \<Longrightarrow> intersects a b \<longleftrightarrow> covered a \<inter> covered b \<noteq> {}"
proof (induction a b rule: intersects.induct)
  case (1 x a y b)
  have w: "estart x < eend x" "estart y < eend y" using "1.prems" by (auto simp: wf_extent_def)
  have e: "extent_intersects x y \<longleftrightarrow> sectors_of x \<inter> sectors_of y \<noteq> {}"
    using w by (auto simp: extent_intersects_def sectors_of_def)
  have left: "sectors_of x \<inter> covered b = {}" if "eend x \<le> eend y"
    using "1.prems" that by (fastforce simp: covered_def sectors_of_def)
  have right: "covered a \<inter> sectors_of y = {}" if "\<not> eend x \<le> eend y"
    using "1.prems" that by (fastforce simp: covered_def sectors_of_def)
  from "1.IH" "1.prems" e left right show ?case by auto
qed simp_all

theorem intersects_iff_witness:
  "intersects [mk_extent 0 8, mk_extent 16 24] [mk_extent 8 16, mk_extent 20 21] \<longleftrightarrow>
   covered [mk_extent 0 8, mk_extent 16 24] \<inter> covered [mk_extent 8 16, mk_extent 20 21] \<noteq> {}"
  by (rule intersects_iff) (simp_all add: wf_extent_def)

section \<open>Normalising\<close>

lemma canon_distinct: "canon es \<Longrightarrow> distinct (flat es)"
proof (induction es)
  case (Cons e es)
  have "x < y" if "x < eend e" "y \<in> covered es" for x y
    using Cons.prems that by (fastforce simp: covered_def sectors_of_def)
  then have "{estart e..<eend e} \<inter> covered es = {}" by fastforce
  with Cons show ?case by (simp add: set_flat)
qed simp

lemma canon_snoc:
  "canon (es @ [x]) \<longleftrightarrow> canon es \<and> wf_extent x \<and> (\<forall>e\<in>set es. eend e < estart x)"
  by (auto simp: canon_append)

lemma canon_extend:
  assumes "es \<noteq> []" "canon es" "eend (last es) < t" "t < u64_lim"
  shows "canon (butlast es @ [mk_extent (estart (last es)) t])"
proof -
  have "canon (butlast es @ [last es])" using assms by simp
  then show ?thesis using assms unfolding canon_snoc by (auto simp: wf_extent_def)
qed

lemma canon_last:
  assumes "es \<noteq> []" "canon es" "e \<in> set es"
  shows "eend e \<le> eend (last es)"
proof -
  have "canon (butlast es @ [last es])" using assms by simp
  moreover have "e \<in> set (butlast es) \<or> e = last es"
    using assms by (metis append_butlast_last_id in_set_conv_decomp rotate1.simps(2) set_ConsD set_rotate1)
  ultimately show ?thesis unfolding canon_snoc by (auto simp: wf_extent_def)
qed

text \<open>One step appends the extent's sectors, unless it is empty or starts inside the last one.\<close>

lemma normalise_step_Ok:
  assumes "canon acc" "wf_extent x" "acc \<noteq> [] \<Longrightarrow> estart (last acc) \<le> estart x"
    and "acc = [] \<or> eend (last acc) \<le> estart x"
  shows "\<exists>acc'. normalise_step acc x = Ok acc' \<and> canon acc' \<and> acc' \<noteq> []
    \<and> estart (last acc') \<le> estart x \<and> flat acc' = flat acc @ [estart x..<eend x]"
proof -
  have x: "estart x < eend x" "eend x < u64_lim" using assms(2) by (simp_all add: wf_extent_def)
  have wfa: "wf_extents acc" using assms(1) by (auto simp: canon_def wf_extents_def)
  show ?thesis
  proof (cases "acc \<noteq> [] \<and> estart x = eend (last acc)")
    case True
    then have "flat (butlast acc @ [mk_extent (estart (last acc)) (eend x)]) = flat acc @ [estart x..<eend x]"
      using x wfa by (intro flat_extend) auto
    moreover have "canon (butlast acc @ [mk_extent (estart (last acc)) (eend x)])"
      using True assms(1) x by (intro canon_extend) auto
    ultimately show ?thesis using True x assms(3) by (simp add: normalise_step_def del: flat_simps(3))
  next
    case False
    then have "canon (acc @ [x])"
      using assms x canon_last [of acc] by (fastforce simp: canon_snoc)
    with False x assms(4) show ?thesis by (auto simp: normalise_step_def)
  qed
qed

text \<open>The loop on extents sorted by start, and what its refusal means.\<close>

lemma normalise_fold:
  assumes "canon acc" "sorted (map estart xs)" "\<forall>x\<in>set xs. eend x < u64_lim"
    and "acc \<noteq> [] \<longrightarrow> (\<forall>x\<in>set xs. estart (last acc) \<le> estart x)"
  shows "case try_fold normalise_step acc xs of
      Ok r \<Rightarrow> canon r \<and> set (flat r) = set (flat (acc @ xs)) \<and> wf_extents xs \<and> distinct (flat (acc @ xs))
    | Err e \<Rightarrow> e = SelfOverlap \<and> \<not> (wf_extents xs \<and> distinct (flat (acc @ xs)))
    | Panic \<Rightarrow> False"
  using assms
proof (induction xs arbitrary: acc)
  case Nil
  then show ?case by (simp add: canon_distinct)
next
  case (Cons x xs)
  consider (empty) "\<not> estart x < eend x" | (over) "estart x < eend x" "acc \<noteq> []" "estart x < eend (last acc)"
    | (fits) "wf_extent x" "acc = [] \<or> eend (last acc) \<le> estart x"
    using Cons.prems(3) by (fastforce simp: wf_extent_def)
  then show ?case
  proof cases
    case empty
    then show ?thesis by (simp add: normalise_step_def wf_extent_def)
  next
    case over
    with Cons.prems have "estart x \<in> set (flat acc)"
      unfolding set_flat covered_def by (intro UN_I [of "last acc"]) (auto simp: sectors_of_def)
    with over show ?thesis by (auto simp: normalise_step_def)
  next
    case fits
    obtain acc' where acc': "normalise_step acc x = Ok acc'" "canon acc'" "acc' \<noteq> []"
      "estart (last acc') \<le> estart x" "flat acc' = flat acc @ [estart x..<eend x]"
      using normalise_step_Ok [of acc x] Cons.prems fits by auto
    have "\<forall>y\<in>set xs. estart (last acc') \<le> estart y"
      using acc'(4) Cons.prems(2) by fastforce
    with Cons.IH [of acc'] Cons.prems acc' fits show ?thesis by (auto split: res.splits)
  qed
qed

lemma flat_sort: "distinct (flat (sort_key f es)) \<longleftrightarrow> distinct (flat es)"
proof -
  have "mset (flat es) = (\<Sum>e\<in>#mset es. mset [estart e..<eend e])" for es
    by (induction es) auto
  then have "mset (flat (sort_key f es)) = mset (flat es)" by (metis mset_sort)
  then show ?thesis by (rule mset_eq_imp_distinct_iff)
qed

text \<open>
  C21.  \<open>normalise\<close> is exact: within its capacity it succeeds if and only if no extent is empty and
  no sector is named twice; the result is sorted and merged and covers the sectors of the file,
  and each refusal says why.
\<close>

theorem normalise_exact:
  assumes "\<forall>e\<in>set es. eend e < u64_lim"
  shows "case normalise es cap of
      Ok r \<Rightarrow> canon r \<and> covered r = covered es \<and> wf_extents es \<and> distinct (flat es) \<and> length es \<le> cap
    | Err e \<Rightarrow> e = TooManyExtents \<and> cap < length es
        \<or> e = SelfOverlap \<and> \<not> (wf_extents es \<and> distinct (flat es))
    | Panic \<Rightarrow> False"
proof -
  let ?xs = "sort_key estart es"
  have "covered ?xs = covered es" "wf_extents ?xs = wf_extents es"
    by (simp_all add: covered_def wf_extents_def)
  then show ?thesis
    using normalise_fold [of "[]" ?xs] assms
    by (auto simp: normalise_def flat_sort set_flat split: res.splits)
qed

theorem normalise_exact_witness:
  "normalise [mk_extent 40 48, mk_extent 8 16, mk_extent 16 24] 3 = Ok [mk_extent 8 24, mk_extent 40 48]
   \<and> covered [mk_extent 8 24, mk_extent 40 48] = covered [mk_extent 40 48, mk_extent 8 16, mk_extent 16 24]"
proof -
  have "normalise [mk_extent 40 48, mk_extent 8 16, mk_extent 16 24] 3 = Ok [mk_extent 8 24, mk_extent 40 48]"
    by (simp add: normalise_def normalise_step_def)
  then show ?thesis
    using normalise_exact [of "[mk_extent 40 48, mk_extent 8 16, mk_extent 16 24]" 3] by simp
qed

end
