(* ===== verification/Payload.thy ===== *)
theory Payload
  imports NtfsCorrect Gpt
begin

text \<open>
  The structural assertion over a gathered image, \<open>check_payload\<close> of
  \<open>crates/paguro-core/src/ntfs.rs\<close>: a GPT whose two headers and entry arrays agree and whose
  partitions are known, a bare ext4 whose backup superblock agrees, or an ISO 9660 volume.  The
  image is an arbitrary disk, read by sector; the buffer \<open>b\<close> the functions share is passed on.
  A chain of \<open>||\<close> over fields is a sequence of reads and tests with the same error.
\<close>

section \<open>Helpers\<close>

definition ISO_PVD :: nat where "ISO_PVD = ISO_PVD_OFFSET div NTFS_SECTOR"
definition EXT4_SB_SECTOR :: nat where "EXT4_SB_SECTOR = EXT4_SUPERBLOCK_OFFSET div NTFS_SECTOR"

definition header_crc :: "bytes \<Rightarrow> nat \<Rightarrow> nat" where
  "header_crc b n =
    (let at = offset_of gpt_header_struct ''header_crc32'';
         after = at + field_size gpt_header_struct ''header_crc32'';
         part = (\<lambda>i j. case get_range b i j of Some s \<Rightarrow> s | None \<Rightarrow> []);
         c = crc32_update 0 (part 0 at);
         c = crc32_update c (replicate 4 0)
     in unat (crc32_update c (part after n)))"

definition crc_chunk :: "32 word \<Rightarrow> nat \<Rightarrow> bytes \<Rightarrow> 32 word" where
  "crc_chunk c n b = crc32_update c (case get_range b 0 n of Some d \<Rightarrow> d | None \<Rightarrow> [])"

function array_crc_loop :: "'s disk \<Rightarrow> 32 word \<Rightarrow> nat \<Rightarrow> nat \<Rightarrow> bytes \<Rightarrow> ('s, 32 word \<times> bytes) nio" where
  "array_crc_loop rd c left sec b s =
    (if left > 0 then
       ibind (disk_read rd sec) (\<lambda>b.
       ibind (lift (sub64 left (min left NTFS_SECTOR))) (\<lambda>left'.
       ibind (lift (add64 sec 1)) (\<lambda>sec'.
       array_crc_loop rd (crc_chunk c (min left NTFS_SECTOR) b) left' sec' b))) s
     else (Ok (c, b), s))"
  by pat_completeness auto
termination
  by (relation "measure (\<lambda>(rd, c, left, sec, b, s). left)") (auto simp: NTFS_SECTOR_def lift_def)

definition array_crc :: "'s disk \<Rightarrow> nat \<Rightarrow> nat \<Rightarrow> bytes \<Rightarrow> ('s, nat \<times> bytes) nio" where
  "array_crc rd at cnt b =
    ibind (lift (mul64 cnt (size_of gpt_entry_struct))) (\<lambda>left.
    ibind (array_crc_loop rd 0 left at b) (\<lambda>(c, b). lift (Ok (unat c, b))))"

section \<open>ext4\<close>

definition ext4_blocks :: "bool \<Rightarrow> bytes \<Rightarrow> nat nres" where
  "ext4_blocks wide b =
    rbind (get_f b ext4_super_block ''s_blocks_count_lo'') (\<lambda>lo.
    if wide then
      rbind (get_f b ext4_super_block ''s_blocks_count_hi'') (\<lambda>hi.
      Ok (lo OR (push_bit 32 hi mod u64_lim)))
    else Ok lo)"

definition ext4_root_sizes :: "bytes \<Rightarrow> nat \<Rightarrow> bool \<Rightarrow> bool \<Rightarrow> nat nres" where
  \<comment> \<open>the checked inode size\<close>
  "ext4_root_sizes b bs wide dynamic =
    rbind (if dynamic then get_f b ext4_super_block ''s_inode_size''
           else Ok EXT4_GOOD_OLD_INODE_SIZE) (\<lambda>isz.
    rbind (if wide then get_f b ext4_super_block ''s_desc_size'' else Ok EXT4_MIN_DESC_SIZE) (\<lambda>dsz.
    if \<not> is_power_of_two isz \<or> isz < EXT4_GOOD_OLD_INODE_SIZE \<or> isz > bs \<or> \<not> is_power_of_two dsz
       \<or> \<not> (EXT4_MIN_DESC_SIZE \<le> dsz \<and> dsz \<le> EXT4_MAX_DESC_SIZE)
       \<or> wide \<and> dsz < EXT4_MIN_DESC_SIZE_64BIT then Err PayloadExt4 else
    rbind (get_f b ext4_super_block ''s_inodes_per_group'') (\<lambda>ipg.
    if ipg < EXT4_ROOT_INO then Err PayloadExt4 else Ok isz)))"

definition ext4_inode_table :: "bool \<Rightarrow> bytes \<Rightarrow> nat nres" where
  "ext4_inode_table wide b =
    rbind (get_f b ext4_group_desc ''bg_inode_table_lo'') (\<lambda>lo.
    if wide then
      rbind (get_f b ext4_group_desc ''bg_inode_table_hi'') (\<lambda>hi.
      Ok (lo OR (push_bit 32 hi mod u64_lim)))
    else Ok lo)"

definition ext4_root_inode :: "bytes \<Rightarrow> nat \<Rightarrow> unit nres" where
  "ext4_root_inode b o' =
    rbind (get_at b o' ext4_inode ''i_mode'') (\<lambda>mode.
    if mode AND EXT4_S_IFMT \<noteq> EXT4_S_IFDIR then Err PayloadExt4 else
    rbind (add64 o' (offset_of ext4_inode ''i_block'')) (\<lambda>at.
    rbind (get_at b at ext4_extent_header ''eh_magic'') (\<lambda>m.
    ensure (m = EXT4_EXT_MAGIC) PayloadExt4)))"

definition payload_ext4_root ::
  "'s disk \<Rightarrow> nat \<Rightarrow> nat \<Rightarrow> nat \<Rightarrow> nat \<Rightarrow> bool \<Rightarrow> bool \<Rightarrow> bytes \<Rightarrow> ('s, bytes) nio" where
  "payload_ext4_root rd base first cnt lg wide dynamic b =
    (let bs = push_bit lg 1024 mod u64_lim; per_block = push_bit lg 2 mod u64_lim in
     ibind (lift (ext4_root_sizes b bs wide dynamic)) (\<lambda>isz.
     ibind (lift (add64 first 1)) (\<lambda>gdt.
     ibind (lift (ensure (gdt < cnt) PayloadExt4)) (\<lambda>_.
     ibind (lift (rbind (mul64 gdt per_block) (add64 base))) (\<lambda>at.
     ibind (disk_read rd at) (\<lambda>b.
     ibind (lift (ext4_inode_table wide b)) (\<lambda>table.
     ibind (lift (ensure (table \<noteq> 0 \<and> table < cnt) PayloadExt4)) (\<lambda>_.
     ibind (lift (rbind (mul64 table per_block) (\<lambda>t.
             rbind (mul64 isz (EXT4_ROOT_INO - 1)) (\<lambda>i. add64 t (i div NTFS_SECTOR))))) (\<lambda>sector.
     ibind (lift (mul64 cnt per_block)) (\<lambda>room.
     ibind (lift (ensure (sector < room) PayloadExt4)) (\<lambda>_.
     ibind (lift (add64 base sector)) (\<lambda>at.
     ibind (disk_read rd at) (\<lambda>b.
     ibind (lift (ext4_root_inode b (isz * (EXT4_ROOT_INO - 1) mod NTFS_SECTOR))) (\<lambda>_.
     lift (Ok b)))))))))))))))"

record ext4_geometry =
  e4_log :: nat
  e4_first :: nat
  e4_per_group :: nat
  e4_dynamic :: bool
  e4_compat :: nat
  e4_wide :: bool
  e4_count :: nat

text \<open>The superblock's geometry, with the checks that need no further read.\<close>

definition ext4_super :: "nat \<Rightarrow> bytes \<Rightarrow> ext4_geometry nres" where
  "ext4_super len b =
    rbind (get_f b ext4_super_block ''s_log_block_size'') (\<lambda>lg.
    rbind (get_f b ext4_super_block ''s_first_data_block'') (\<lambda>first.
    rbind (get_f b ext4_super_block ''s_blocks_per_group'') (\<lambda>per_group.
    rbind (get_f b ext4_super_block ''s_rev_level'') (\<lambda>rev.
    let dynamic = rev \<ge> EXT4_DYNAMIC_REV in
    rbind (if dynamic then get_f b ext4_super_block ''s_feature_compat'' else Ok 0) (\<lambda>compat.
    rbind (if dynamic then get_f b ext4_super_block ''s_feature_incompat'' else Ok 0) (\<lambda>incompat.
    let wide = (incompat AND EXT4_FEATURE_INCOMPAT_64BIT \<noteq> 0) in
    rbind (ext4_blocks wide b) (\<lambda>cnt.
    if len < EXT4_SB_SECTOR + size_of ext4_super_block div NTFS_SECTOR
       \<or> lg > EXT4_MAX_LOG_BLOCK_SIZE \<or> per_group = 0 \<or> first > 1 \<or> lg > 0 \<and> first \<noteq> 0
      then Err PayloadExt4 else
    rbind (get_f b ext4_super_block ''s_block_group_nr'') (\<lambda>nr.
    if nr \<noteq> 0 then Err PayloadExt4 else
    if cnt = 0 \<or> cnt > len div (push_bit lg 2 mod u64_lim) then Err PayloadExt4 else
    Ok \<lparr>e4_log = lg, e4_first = first, e4_per_group = per_group, e4_dynamic = dynamic,
        e4_compat = compat, e4_wide = wide, e4_count = cnt\<rparr>))))))))"

definition ext4_backup_ok :: "ext4_geometry \<Rightarrow> bytes \<Rightarrow> nat \<Rightarrow> bytes \<Rightarrow> unit nres" where
  "ext4_backup_ok g uuid grp b =
    rbind (get_f b ext4_super_block ''s_magic'') (\<lambda>magic.
    if magic \<noteq> EXT4_SUPER_MAGIC then Err PayloadExt4 else
    let u = offset_of ext4_super_block ''s_uuid'' in
    if get_range b u (u + length uuid) \<noteq> Some uuid then Err PayloadExt4 else
    rbind (ext4_blocks (e4_wide g) b) (\<lambda>cnt.
    if cnt \<noteq> e4_count g then Err PayloadExt4 else
    rbind (get_f b ext4_super_block ''s_block_group_nr'') (\<lambda>nr.
    ensure (nr = grp AND 0xffff) PayloadExt4)))"

definition payload_ext4 :: "'s disk \<Rightarrow> nat \<Rightarrow> nat \<Rightarrow> bytes \<Rightarrow> ('s, bytes) nio" where
  "payload_ext4 rd base len b =
    ibind (lift (ext4_super len b)) (\<lambda>g.
    let per_block = push_bit (e4_log g) 2 mod u64_lim in
    ibind (lift (sub64 (e4_count g) (e4_first g))) (\<lambda>rest.
    if rest \<le> e4_per_group g then
      payload_ext4_root rd base (e4_first g) (e4_count g) (e4_log g) (e4_wide g) (e4_dynamic g) b
    else
      let u = offset_of ext4_super_block ''s_uuid'';
          uuid = (case get_range b u (u + field_size ext4_super_block ''s_uuid'') of
                    Some d \<Rightarrow> d | None \<Rightarrow> replicate 16 0) in
      ibind (if e4_compat g AND EXT4_FEATURE_COMPAT_SPARSE_SUPER2 \<noteq> 0 then
               ibind (lift (rbind (add64 base EXT4_SB_SECTOR) (\<lambda>a. add64 a 1))) (\<lambda>at.
               ibind (disk_read rd at) (\<lambda>b.
               lift (rbind (sub64 (offset_of ext4_super_block ''s_backup_bgs'') NTFS_SECTOR) (\<lambda>o'.
                     get_le b o' 4))))
             else lift (Ok 1)) (\<lambda>grp.
      ibind (lift (rbind (mul64 (e4_per_group g) grp) (add64 (e4_first g)))) (\<lambda>block.
      ibind (lift (ensure (grp \<noteq> 0 \<and> block < e4_count g) PayloadExt4)) (\<lambda>_.
      ibind (lift (rbind (mul64 block per_block) (add64 base))) (\<lambda>at.
      ibind (disk_read rd at) (\<lambda>b.
      ibind (lift (ext4_backup_ok g uuid grp b)) (\<lambda>_.
      lift (Ok b)))))))))"

section \<open>FAT\<close>

definition is_fat :: "bytes \<Rightarrow> nat \<Rightarrow> bool nres" where
  "is_fat b len =
    (let t16 = offset_of fat16_boot_sector ''fs_type''; t32 = offset_of fat32_boot_sector ''fs_type'';
         name = (get_range b t16 (t16 + length FAT_FS_TYPE) = Some FAT_FS_TYPE
               \<or> get_range b t32 (t32 + length FAT32_FS_TYPE) = Some FAT32_FS_TYPE) in
     rbind (get_f b fat16_boot_sector ''bytes_per_sector'') (\<lambda>bps.
     rbind (get_f b fat16_boot_sector ''sectors_per_cluster'') (\<lambda>spc.
     rbind (get_f b fat16_boot_sector ''total_sectors_16'') (\<lambda>t.
     rbind (if t = 0 then get_f b fat16_boot_sector ''total_sectors_32'' else Ok t) (\<lambda>tot.
     rbind (get_f b fat16_boot_sector ''signature'') (\<lambda>sig.
     if \<not> (sig = NTFS_BOOT_SIGNATURE \<and> name \<and> bps \<in> {512, 1024, 2048, 4096}
            \<and> is_power_of_two spc \<and> tot \<noteq> 0) then Ok False
     else rbind (mul64 tot (bps div NTFS_SECTOR)) (\<lambda>n. Ok (n \<le> len))))))))"

section \<open>ISO 9660\<close>

definition be_at :: "bytes \<Rightarrow> nat \<Rightarrow> nat \<Rightarrow> nat nres" where
  "be_at b at n = rbind (add64 at n) (\<lambda>e.
     Ok (case get_range b at e of Some s \<Rightarrow> fold (\<lambda>x a. (push_bit 8 a mod u64_lim) OR unat x) s 0 | None \<Rightarrow> 0))"

definition iso_descriptor :: "nat \<Rightarrow> bytes \<Rightarrow> (nat \<times> nat) nres" where
  \<comment> \<open>the root directory's block and the block size\<close>
  "iso_descriptor sectors b =
    (let P = iso_primary_volume_descriptor; R = iso_directory_record;
         rdr = offset_of P ''root_directory_record'' in
     rbind (get_f b P ''volume_space_size_le'') (\<lambda>sz.
     rbind (get_f b P ''logical_block_size_le'') (\<lambda>bs.
     rbind (get_f b P ''version'') (\<lambda>ver.
     if ver \<noteq> ISO_VD_VERSION then Err PayloadIso else
     rbind (be_at b (offset_of P ''volume_space_size_be'') (field_size P ''volume_space_size_be'')) (\<lambda>x.
     if x \<noteq> sz then Err PayloadIso else
     rbind (be_at b (offset_of P ''logical_block_size_be'') (field_size P ''logical_block_size_be'')) (\<lambda>x.
     if x \<noteq> bs then Err PayloadIso else
     if bs \<notin> {512, 1024, 2048} then Err PayloadIso else
     rbind (mul64 sz (bs div NTFS_SECTOR)) (\<lambda>n.
     if n \<noteq> sectors then Err PayloadIso else
     rbind (get_at b rdr R ''extent_le'') (\<lambda>root.
     rbind (get_at b rdr R ''length'') (\<lambda>l.
     if l \<noteq> size_of R then Err PayloadIso else
     rbind (add64 rdr (offset_of R ''extent_be'')) (\<lambda>at.
     rbind (be_at b at (field_size R ''extent_be'')) (\<lambda>x.
     if x \<noteq> root then Err PayloadIso else
     rbind (get_at b rdr R ''file_flags'') (\<lambda>fl.
     if fl AND ISO_FLAG_DIRECTORY = 0 \<or> root = 0 \<or> root \<ge> sz then Err PayloadIso
     else Ok (root, bs)))))))))))))"

definition iso_root_ok :: "nat \<Rightarrow> bytes \<Rightarrow> unit nres" where
  "iso_root_ok root b =
    (let R = iso_directory_record in
     rbind (get_f b R ''length'') (\<lambda>l.
     if l < size_of R then Err PayloadIso else
     rbind (get_f b R ''extent_le'') (\<lambda>x.
     if x \<noteq> root then Err PayloadIso else
     rbind (get_f b R ''file_flags'') (\<lambda>fl.
     if fl AND ISO_FLAG_DIRECTORY = 0 then Err PayloadIso else
     rbind (get_f b R ''name_length'') (\<lambda>nl.
     if nl \<noteq> 1 then Err PayloadIso else
     rbind (get_f b R ''name'') (\<lambda>n. ensure (n = 0) PayloadIso))))))"

definition payload_iso :: "'s disk \<Rightarrow> nat \<Rightarrow> bytes \<Rightarrow> ('s, unit) nio" where
  "payload_iso rd sectors b =
    ibind (lift (iso_descriptor sectors b)) (\<lambda>(root, bs).
    ibind (lift (mul64 root (bs div NTFS_SECTOR))) (\<lambda>at.
    ibind (disk_read rd at) (\<lambda>b. lift (iso_root_ok root b))))"

section \<open>GPT\<close>

record gpt_view =
  pg_hsize :: nat
  pg_alt :: nat
  pg_first :: nat
  pg_last :: nat
  pg_guid :: bytes
  pg_lba :: nat
  pg_count :: nat
  pg_esize :: nat
  pg_acrc :: nat
  pg_asec :: nat

text \<open>The primary header: its checks, up to the reading of the entry array.\<close>

definition gpt_primary :: "nat \<Rightarrow> nat \<Rightarrow> bytes \<Rightarrow> gpt_view nres" where
  "gpt_primary lbas k b =
    (let H = gpt_header_struct; ent = size_of gpt_entry_struct in
     rbind (get_f b H ''header_size'') (\<lambda>hsize.
     if \<not> (size_of H \<le> hsize \<and> hsize \<le> GPT_MAX_HEADER_SIZE) then Err PayloadGpt else
     rbind (get_f b H ''my_lba'') (\<lambda>my.
     if my \<noteq> 1 then Err PayloadGpt else
     rbind (get_f b H ''header_crc32'') (\<lambda>crc.
     if header_crc b hsize \<noteq> crc then Err PayloadGptCrc else
     rbind (get_f b H ''alternate_lba'') (\<lambda>alt.
     rbind (get_f b H ''first_usable_lba'') (\<lambda>first.
     rbind (get_f b H ''last_usable_lba'') (\<lambda>lst.
     let g = offset_of H ''disk_guid'';
         guid = (case get_range b g (g + field_size H ''disk_guid'') of
                   Some d \<Rightarrow> d | None \<Rightarrow> replicate 16 0) in
     rbind (get_f b H ''partition_entry_lba'') (\<lambda>lba.
     rbind (get_f b H ''number_of_partition_entries'') (\<lambda>cnt.
     rbind (get_f b H ''size_of_partition_entry'') (\<lambda>esize.
     rbind (get_f b H ''partition_entry_array_crc32'') (\<lambda>acrc.
     if esize \<noteq> ent \<or> cnt = 0 \<or> cnt > GPT_MAX_ENTRIES then Err PayloadGpt else
     rbind (mul64 cnt ent) (\<lambda>abytes.
     rbind (mul64 k NTFS_SECTOR) (\<lambda>unit.
     let asec = div_ceil abytes unit in
     if alt \<ge> lbas \<or> lst \<ge> alt \<or> first > lst \<or> lba < 2 \<or> lba > first then Err PayloadGpt else
     rbind (sub64 first lba) (\<lambda>room.
     if room < asec then Err PayloadGpt else
     Ok \<lparr>pg_hsize = hsize, pg_alt = alt, pg_first = first, pg_last = lst, pg_guid = guid,
         pg_lba = lba, pg_count = cnt, pg_esize = esize, pg_acrc = acrc,
         pg_asec = asec\<rparr>))))))))))))))"

definition gpt_same :: "bytes \<Rightarrow> string \<Rightarrow> nat \<Rightarrow> unit nres" where
  "gpt_same b f v = rbind (get_f b gpt_header_struct f) (\<lambda>x. ensure (x = v) PayloadGptBackup)"

text \<open>The backup header against the primary's values; the result is its entry array's LBA.\<close>

definition gpt_backup :: "gpt_view \<Rightarrow> bytes \<Rightarrow> nat nres" where
  "gpt_backup v b =
    (let H = gpt_header_struct in
     if get_range b 0 (field_size H ''signature'') \<noteq> Some GPT_SIGNATURE then Err PayloadGptBackup else
     rbind (gpt_same b ''header_size'' (pg_hsize v)) (\<lambda>_.
     rbind (gpt_same b ''header_crc32'' (header_crc b (pg_hsize v))) (\<lambda>_.
     rbind (gpt_same b ''my_lba'' (pg_alt v)) (\<lambda>_.
     rbind (gpt_same b ''alternate_lba'' 1) (\<lambda>_.
     rbind (gpt_same b ''first_usable_lba'' (pg_first v)) (\<lambda>_.
     rbind (gpt_same b ''last_usable_lba'' (pg_last v)) (\<lambda>_.
     if get_range b (offset_of H ''disk_guid'') (offset_of H ''disk_guid'' + length (pg_guid v))
        \<noteq> Some (pg_guid v) then Err PayloadGptBackup else
     rbind (gpt_same b ''number_of_partition_entries'' (pg_count v)) (\<lambda>_.
     rbind (gpt_same b ''size_of_partition_entry'' (pg_esize v)) (\<lambda>_.
     rbind (gpt_same b ''partition_entry_array_crc32'' (pg_acrc v)) (\<lambda>_.
     rbind (get_f b H ''partition_entry_lba'') (\<lambda>blba.
     if blba \<le> pg_last v \<or> blba \<ge> pg_alt v then Err PayloadGptBackup else
     rbind (sub64 (pg_alt v) blba) (\<lambda>room.
     if room < pg_asec v then Err PayloadGptBackup else Ok blba))))))))))))"

text \<open>
  One partition entry at byte \<open>e\<close> of the buffer: none, or whether it is an ESP, its first sector
  and its length in sectors.
\<close>

definition gpt_slot :: "gpt_view \<Rightarrow> nat \<Rightarrow> bytes \<Rightarrow> nat \<Rightarrow> (bool \<times> nat \<times> nat) option nres" where
  "gpt_slot v k b e =
    rbind (add64 e (offset_of gpt_entry_struct ''partition_type_guid'')) (\<lambda>t.
    rbind (add64 t (length GPT_ESP_TYPE)) (\<lambda>t'.
    let ty = (case get_range b t t' of Some d \<Rightarrow> d | None \<Rightarrow> []) in
    if list_all (\<lambda>x. x = 0) ty then Ok None else
    rbind (get_at b e gpt_entry_struct ''starting_lba'') (\<lambda>first.
    rbind (get_at b e gpt_entry_struct ''ending_lba'') (\<lambda>lst.
    if first < pg_first v \<or> lst > pg_last v \<or> first > lst then Err PayloadGpt else
    rbind (mul64 first k) (\<lambda>fs.
    rbind (rbind (sub64 lst first) (\<lambda>d. rbind (add64 d 1) (\<lambda>n. mul64 n k))) (\<lambda>len.
    Ok (Some (ty = GPT_ESP_TYPE, fs, len))))))))"

text \<open>The content of a partition: a FAT boot sector on an ESP, an ext4 elsewhere if it shows one.\<close>

definition gpt_content :: "'s disk \<Rightarrow> bool \<Rightarrow> nat \<Rightarrow> nat \<Rightarrow> nat \<Rightarrow> bytes \<Rightarrow> ('s, nat \<times> bytes) nio" where
  "gpt_content rd esp first len verified b =
    (if esp then
       ibind (disk_read rd first) (\<lambda>b.
       ibind (lift (is_fat b len)) (\<lambda>fat.
       ibind (lift (ensure fat PayloadNotFat)) (\<lambda>_.
       ibind (lift (add32 verified 1)) (\<lambda>verified. lift (Ok (verified, b))))))
     else if len > EXT4_SB_SECTOR then
       ibind (lift (add64 first EXT4_SB_SECTOR)) (\<lambda>at.
       ibind (disk_read rd at) (\<lambda>b.
       ibind (lift (get_f b ext4_super_block ''s_magic'')) (\<lambda>magic.
       if magic = EXT4_SUPER_MAGIC then
         ibind (payload_ext4 rd first len b) (\<lambda>b.
         ibind (lift (add32 verified 1)) (\<lambda>verified. lift (Ok (verified, b))))
       else lift (Ok (verified, b)))))
     else lift (Ok (verified, b)))"

definition gpt_step ::
  "'s disk \<Rightarrow> gpt_view \<Rightarrow> nat \<Rightarrow> nat \<Rightarrow> bytes \<times> nat \<times> bool \<Rightarrow> ('s, bytes \<times> nat \<times> bool) nio" where
  "gpt_step rd v k i = (\<lambda>(b, verified, stale).
    let ent = size_of gpt_entry_struct; per_sector = NTFS_SECTOR div ent in
    ibind (if i mod per_sector = 0 \<or> stale then
             ibind (lift (rbind (mul64 (pg_lba v) k) (\<lambda>a. add64 a (i div per_sector)))) (\<lambda>at.
             ibind (disk_read rd at) (\<lambda>b. lift (Ok (b, False))))
           else lift (Ok (b, stale))) (\<lambda>(b, stale).
    ibind (lift (rbind (mul64 (i mod per_sector) ent) (gpt_slot v k b))) (\<lambda>slot.
    case slot of None \<Rightarrow> lift (Ok (b, verified, stale))
    | Some (esp, first, len) \<Rightarrow>
        ibind (gpt_content rd esp first len verified b) (\<lambda>(verified, b).
        lift (Ok (b, verified, True))))))"

fun gpt_loop ::
  "'s disk \<Rightarrow> gpt_view \<Rightarrow> nat \<Rightarrow> nat list \<Rightarrow> bytes \<times> nat \<times> bool \<Rightarrow> ('s, bytes \<times> nat \<times> bool) nio" where
  "gpt_loop rd v k [] st = lift (Ok st)"
| "gpt_loop rd v k (i # is) st = ibind (gpt_step rd v k i st) (gpt_loop rd v k is)"

definition payload_gpt :: "'s disk \<Rightarrow> nat \<Rightarrow> nat \<Rightarrow> bytes \<Rightarrow> ('s, unit) nio" where
  "payload_gpt rd sectors k b =
    ibind (lift (gpt_primary (sectors div k) k b)) (\<lambda>v.
    ibind (lift (mul64 (pg_lba v) k)) (\<lambda>at.
    ibind (array_crc rd at (pg_count v) b) (\<lambda>(crc, b).
    ibind (lift (ensure (crc = pg_acrc v) PayloadGptCrc)) (\<lambda>_.
    ibind (lift (mul64 (pg_alt v) k)) (\<lambda>at.
    ibind (disk_read rd at) (\<lambda>b.
    ibind (lift (gpt_backup v b)) (\<lambda>blba.
    ibind (lift (mul64 blba k)) (\<lambda>at.
    ibind (array_crc rd at (pg_count v) b) (\<lambda>(crc, b).
    ibind (lift (ensure (crc = pg_acrc v) PayloadGptBackup)) (\<lambda>_.
    ibind (gpt_loop rd v k [0..<pg_count v] (b, 0, True)) (\<lambda>(b, verified, stale).
    lift (ensure (verified \<noteq> 0) PayloadNoKnownPartition))))))))))))"

section \<open>The assertion\<close>

definition payload_rest :: "'s disk \<Rightarrow> nat \<Rightarrow> ('s, unit) nio" where
  \<comment> \<open>not a GPT: a bare ext4, or an ISO 9660 volume\<close>
  "payload_rest rd sectors =
    ibind (if sectors > EXT4_SB_SECTOR then
             ibind (disk_read rd EXT4_SB_SECTOR) (\<lambda>b.
             ibind (lift (get_f b ext4_super_block ''s_magic'')) (\<lambda>m.
             lift (Ok (if m = EXT4_SUPER_MAGIC then Some b else None))))
           else lift (Ok None)) (\<lambda>ext4.
    case ext4 of Some b \<Rightarrow> ibind (payload_ext4 rd 0 sectors b) (\<lambda>_. lift (Ok ()))
    | None \<Rightarrow>
    ibind (if sectors > ISO_PVD then
             ibind (disk_read rd ISO_PVD) (\<lambda>b.
             let i = offset_of iso_primary_volume_descriptor ''id'' in
             ibind (lift (get_f b iso_primary_volume_descriptor ''type'')) (\<lambda>ty.
             lift (Ok (if ty = ISO_VD_PRIMARY
                \<and> get_range b i (i + field_size iso_primary_volume_descriptor ''id'') = Some ISO_STANDARD_ID
               then Some b else None))))
           else lift (Ok None)) (\<lambda>iso.
    case iso of Some b \<Rightarrow> payload_iso rd sectors b
    | None \<Rightarrow> lift (Err PayloadUnknown)))"

definition check_payload :: "'s disk \<Rightarrow> nat \<Rightarrow> nat \<Rightarrow> ('s, unit) nio" where
  "check_payload rd sectors lbs =
    (if (lbs \<noteq> 512 \<and> lbs \<noteq> 4096) \<or> sectors < 2 then lift (Err PayloadUnknown) else
     let k = lbs div 512 in
     ibind (if sectors > k then
              ibind (disk_read rd k) (\<lambda>b.
              lift (Ok (if get_range b 0 (field_size gpt_header_struct ''signature'') = Some GPT_SIGNATURE
                        then Some b else None)))
            else lift (Ok None)) (\<lambda>gpt.
     case gpt of Some b \<Rightarrow> payload_gpt rd sectors k b | None \<Rightarrow> payload_rest rd sectors))"

section \<open>The pure checks do not panic\<close>

lemma payload_consts:
  "ISO_PVD = 64" "EXT4_SB_SECTOR = 2" "EXT4_MAX_LOG_BLOCK_SIZE = 6" "EXT4_ROOT_INO = 2"
  "EXT4_GOOD_OLD_INODE_SIZE = 128" "GPT_MAX_HEADER_SIZE = 512" "GPT_MAX_ENTRIES = 1024"
  "length GPT_ESP_TYPE = 16"
  by (simp_all add: ISO_PVD_def EXT4_SB_SECTOR_def ISO_PVD_OFFSET_def EXT4_SUPERBLOCK_OFFSET_def
      NTFS_SECTOR_def EXT4_MAX_LOG_BLOCK_SIZE_def EXT4_ROOT_INO_def EXT4_GOOD_OLD_INODE_SIZE_def
      GPT_MAX_HEADER_SIZE_def GPT_MAX_ENTRIES_def GPT_ESP_TYPE_def)

lemma wp_get_f512:
  assumes "length b = 512" "field_size L f \<le> 8" "offset_of L f + field_size L f \<le> 512"
  shows "wp (get_f b L f) Q \<longleftrightarrow> Q (fld b 0 L f)"
  using assms by (simp add: get_f_def wp_get_at)

definition ext4_geometry_ok :: "nat \<Rightarrow> ext4_geometry \<Rightarrow> bool" where
  "ext4_geometry_ok len g \<longleftrightarrow> e4_log g \<le> 6 \<and> e4_first g \<le> 1 \<and> e4_per_group g < u32_lim
     \<and> 0 < e4_count g \<and> e4_count g * (2 * 2 ^ e4_log g) \<le> len \<and> 4 \<le> len"

lemma block_sectors:
  assumes "lg \<le> 6"
  shows "push_bit lg 2 mod u64_lim = 2 * 2 ^ lg" "push_bit lg 1024 mod u64_lim = 1024 * 2 ^ lg"
    "(2::nat) ^ lg \<le> 64"
proof -
  show p: "(2::nat) ^ lg \<le> 64" using power_increasing [OF assms, of "2::nat"] by simp
  then show "push_bit lg 2 mod u64_lim = 2 * 2 ^ lg" "push_bit lg 1024 mod u64_lim = 1024 * 2 ^ lg"
    by (simp_all add: push_bit_eq_mult)
qed

lemma ext4_blocks_wp: "length b = 512 \<Longrightarrow> wp (ext4_blocks wide b) (\<lambda>_. True)"
  by (simp add: ext4_blocks_def wp_get_f512 layout_simps)

lemma ext4_super_wp:
  assumes "length b = 512"
  shows "wp (ext4_super len b) (ext4_geometry_ok len)"
proof -
  have pg: "fld b 0 ext4_super_block ''s_blocks_per_group'' < u32_lim"
    by (rule fld_bounds) (simp add: layout_simps)
  have *: "c * (2 * 2 ^ lg) \<le> len" if "\<not> len div (push_bit lg 2 mod u64_lim) < c" "lg \<le> 6" for c lg
    using that by (simp add: block_sectors not_less less_eq_div_iff_mult_less_eq)
  show ?thesis
    using assms pg
    by (auto simp: ext4_super_def Let_def wp_get_f512 layout_simps ntfs_consts payload_consts
        ext4_geometry_ok_def intro!: wp_conseq [OF ext4_blocks_wp [OF assms]] *)
qed

text \<open>The second inode of a table lies within its sector.\<close>

lemma inode_offset:
  assumes "is_power_of_two isz" "128 \<le> isz"
  shows "isz mod 512 \<le> 256"
proof -
  obtain k where k: "isz = 2 ^ k" using is_power_of_twoD [OF assms(1)] by auto
  show ?thesis
  proof (cases "k < 9")
    case True
    then have "isz \<le> 2 ^ 8" unfolding k by (intro power_increasing) auto
    then show ?thesis by simp
  next
    case False
    then have "2 ^ 9 dvd isz" unfolding k by (intro le_imp_power_dvd) simp
    then have "isz mod 512 = 0" by (intro dvd_imp_mod_0) simp
    then show ?thesis by simp
  qed
qed

lemma ext4_root_sizes_wp:
  assumes "length b = 512"
  shows "wp (ext4_root_sizes b bs wide dyn) (\<lambda>isz. is_power_of_two isz \<and> 128 \<le> isz \<and> isz \<le> bs)"
  using assms by (auto simp: ext4_root_sizes_def wp_get_f512 layout_simps payload_consts)

lemma ext4_inode_table_wp: "length b = 512 \<Longrightarrow> wp (ext4_inode_table wide b) (\<lambda>_. True)"
  by (simp add: ext4_inode_table_def wp_get_f512 layout_simps)

lemma ext4_root_inode_wp:
  "length b = 512 \<Longrightarrow> o' \<le> 256 \<Longrightarrow> wp (ext4_root_inode b o') (\<lambda>_. True)"
  by (auto simp: ext4_root_inode_def wp_get_at layout_simps)

lemma ext4_backup_ok_wp: "length b = 512 \<Longrightarrow> wp (ext4_backup_ok g uuid grp b) (\<lambda>_. True)"
  by (auto simp: ext4_backup_ok_def Let_def wp_get_f512 layout_simps intro!: wp_conseq [OF ext4_blocks_wp])

lemma is_fat_wp: "length b = 512 \<Longrightarrow> wp (is_fat b len) (\<lambda>_. True)"
proof -
  assume b: "length b = 512"
  have t: "fld b 0 fat16_boot_sector f * (n div 512) < u64_lim" if "n \<in> {512, 1024, 2048, 4096}"
      "field_size fat16_boot_sector f = 2 \<or> field_size fat16_boot_sector f = 4" for f n
  proof -
    have "fld b 0 fat16_boot_sector f < u32_lim"
      using that(2) fld_bounds(2,3) [of fat16_boot_sector f b 0] by auto
    then show ?thesis using that(1) by auto
  qed
  show ?thesis using b
    by (auto simp: is_fat_def Let_def wp_get_f512 layout_simps ntfs_consts simp del: insert_iff intro: t)
qed

lemma be_at_wp: "at + n < u64_lim \<Longrightarrow> wp (be_at b at n) (\<lambda>_. True)"
  by (simp add: be_at_def)

lemma iso_descriptor_wp:
  assumes b: "length b = 512"
  shows "wp (iso_descriptor sectors b) (\<lambda>(root, bs). root * (bs div 512) < sectors \<and> sectors < u64_lim)"
proof -
  have n: "fld b 0 iso_primary_volume_descriptor ''volume_space_size_le'' * (bs div 512) < u64_lim"
    if "bs \<in> {512, 1024, 2048}" for bs
    using that fld_bounds(3) [of iso_primary_volume_descriptor "''volume_space_size_le''" b 0]
    by (auto simp: layout_simps)
  have r: "root * (bs div 512) < sz * (bs div 512)" if "root < sz" "bs \<in> {512, 1024, 2048}" for root sz bs :: nat
    using that by auto
  show ?thesis using b
    by (auto simp: iso_descriptor_def Let_def wp_get_f512 wp_get_at layout_simps ntfs_consts not_le
        simp del: insert_iff intro!: wp_conseq [OF be_at_wp] r n)
qed

lemma iso_root_ok_wp: "length b = 512 \<Longrightarrow> wp (iso_root_ok root b) (\<lambda>_. True)"
  by (auto simp: iso_root_ok_def Let_def wp_get_f512 layout_simps)

text \<open>An accepted header places its array, the partitions and the backup below \<open>lbas\<close>, in order.\<close>

definition gpt_view_ok :: "nat \<Rightarrow> nat \<Rightarrow> gpt_view \<Rightarrow> bool" where
  "gpt_view_ok lbas k v \<longleftrightarrow> pg_alt v < lbas \<and> pg_last v < pg_alt v \<and> pg_first v \<le> pg_last v
     \<and> pg_lba v + pg_asec v \<le> pg_first v \<and> pg_count v \<le> 1024
     \<and> pg_asec v = div_ceil (pg_count v * 128) (k * 512)"

lemma gpt_primary_wp:
  assumes "length b = 512" "k \<le> 8"
  shows "wp (gpt_primary lbas k b) (gpt_view_ok lbas k)"
  using assms
  by (auto simp: gpt_primary_def Let_def wp_get_f512 layout_simps ntfs_consts payload_consts
      gpt_view_ok_def)

lemma gpt_same_wp:
  assumes "length b = 512" "field_size gpt_header_struct f \<le> 8"
    "offset_of gpt_header_struct f + field_size gpt_header_struct f \<le> 512"
  shows "wp (gpt_same b f x) Q \<longleftrightarrow> (fld b 0 gpt_header_struct f = x \<longrightarrow> Q ())"
  using assms by (auto simp: gpt_same_def wp_get_f512)

lemma gpt_backup_wp:
  assumes "length b = 512"
  shows "wp (gpt_backup v b) (\<lambda>blba. pg_last v < blba \<and> blba + pg_asec v \<le> pg_alt v)"
  using assms by (auto simp: gpt_backup_def Let_def gpt_same_wp wp_get_f512 layout_simps)

lemma scaled_less:
  assumes "lba < sectors div k"
  shows "lba * k < (sectors :: nat)" "lba * k + k \<le> sectors"
proof -
  have "(lba + 1) * k \<le> sectors div k * k" using assms by (intro mult_le_mono1) simp
  also have "\<dots> \<le> sectors" by simp
  finally show "lba * k + k \<le> sectors" by simp
  then show "lba * k < sectors" using assms by (cases k) auto
qed

lemma scaled_le: "e \<le> sectors div k \<Longrightarrow> e * k \<le> (sectors :: nat)"
  by (metis div_times_less_eq_dividend le_trans mult_le_mono1)

lemma gpt_slot_wp:
  assumes b: "length b = 512" "e \<le> 384" and v: "gpt_view_ok (sectors div k) k v" "sectors < u64_lim"
  shows "wp (gpt_slot v k b e)
    (\<lambda>slot. \<forall>esp first len. slot = Some (esp, first, len) \<longrightarrow> first + len \<le> sectors \<and> (0 < k \<longrightarrow> 0 < len))"
proof -
  have arith: "f * k < u64_lim \<and> Suc (l - f) < u64_lim \<and> Suc (l - f) * k < u64_lim
      \<and> f * k + Suc (l - f) * k \<le> sectors" if "f \<le> l" "l \<le> pg_last v" for f l
  proof -
    have "l < sectors div k" using that v by (auto simp: gpt_view_ok_def)
    from scaled_less [OF this] have s: "l * k + k \<le> sectors" by simp
    have "(f + Suc (l - f)) * k = l * k + k" using that by simp
    then have "f * k + Suc (l - f) * k \<le> sectors" using s by (simp only: add_mult_distrib)
    moreover have "sectors div k \<le> sectors" by simp
    ultimately show ?thesis using v(2) that \<open>l < sectors div k\<close> by linarith
  qed
  show ?thesis using b arith
    by (auto simp: gpt_slot_def Let_def wp_get_at layout_simps payload_consts not_less)
qed

lemma div_ceil_le_iff:
  assumes "0 < m"
  shows "div_ceil a m \<le> q \<longleftrightarrow> a \<le> q * m"
proof -
  have a: "a = a div m * m + a mod m" by simp
  have lt: "a mod m < m" using assms by simp
  show ?thesis
  proof (cases "a mod m = 0")
    case True
    then have "a = a div m * m" using a by simp
    with True assms show ?thesis by (metis div_ceil_def mult_le_cancel2)
  next
    case False
    have "a \<le> q * m \<longleftrightarrow> a div m < q"
      using assms False by (metis a div_less_iff_less_mult le_neq_implies_less mod_mult_self2_is_0
          mult.commute order_less_imp_le)
    with False show ?thesis by (auto simp: div_ceil_def)
  qed
qed

lemma array_sectors:
  assumes "e + div_ceil a (k * 512) \<le> sectors div k" "0 < k"
  shows "e * k + div_ceil a 512 \<le> sectors"
proof -
  have "a \<le> div_ceil a (k * 512) * (k * 512)" using assms(2) div_ceil_le_iff [of "k * 512" a "div_ceil a (k * 512)"] by simp
  then have "div_ceil a 512 \<le> div_ceil a (k * 512) * k" by (simp add: div_ceil_le_iff mult.assoc)
  moreover have "(e + div_ceil a (k * 512)) * k \<le> sectors" using assms(1) by (rule scaled_le)
  ultimately show ?thesis by (simp add: add_mult_distrib)
qed

text \<open>
  A disk with an invariant \<open>P\<close> of its state that reads below sector \<open>n\<close> keep.
\<close>

locale image_disk = sector_disk rd for rd :: "'s disk" +
  fixes P :: "'s \<Rightarrow> bool" and n :: nat
  assumes read_keeps: "P s \<Longrightarrow> sec < n \<Longrightarrow> rd s sec = (r, s') \<Longrightarrow> P s'"
    and size_bound: "n < u64_lim"
begin

lemma disk_read_wpx:
  assumes "P s" "sec < n" "\<And>b s'. length b = 512 \<Longrightarrow> P s' \<Longrightarrow> Q b s'"
  shows "wpx P (disk_read rd sec) s Q"
proof -
  obtain r s' where rd: "rd s sec = (r, s')" by (cases "rd s sec") auto
  with read_keeps [OF assms(1,2) rd] read_len assms(3) show ?thesis
    by (cases r) (auto simp: wpx_def disk_read_def)
qed

lemma payload_ext4_root_wpx:
  assumes "P s" "length b = 512" "lg \<le> 6" "base + cnt * (2 * 2 ^ lg) \<le> n" "first \<le> 1"
  shows "wpx P (payload_ext4_root rd base first cnt lg wide dyn b) s (\<lambda>b s'. length b = 512 \<and> P s')"
proof -
  define pb :: nat where "pb = 2 * 2 ^ lg"
  note bs = block_sectors(1,2) [OF assms(3), folded pb_def]
  have pb: "0 < pb" "1024 * 2 ^ lg = 512 * pb" "pb \<le> 128" "base + cnt * pb \<le> n"
    using block_sectors(3) [OF assms(3)] assms(4) by (simp_all add: pb_def)
  have blk: "k * pb < u64_lim \<and> base + k * pb < n \<and> base + k * pb < u64_lim \<and> k * pb + pb < u64_lim" if "k < cnt" for k
  proof -
    have "(k + 1) * pb \<le> cnt * pb" using that by (intro mult_le_mono1) simp
    then have "k * pb + pb \<le> cnt * pb" by simp
    then show ?thesis using pb size_bound by linarith
  qed
  have room: "cnt * pb < u64_lim" "k < cnt * pb \<Longrightarrow> base + k < n \<and> base + k < u64_lim" for k
    using pb size_bound by linarith+
  have isz: "k * pb + i div 512 < u64_lim" "i < u64_lim" if "i \<le> 512 * pb" "k < cnt" for i k :: nat
  proof -
    have "i div 512 \<le> pb" using div_le_mono [OF that(1), of 512] by simp
    then show "k * pb + i div 512 < u64_lim" using blk [OF that(2)] by linarith
    show "i < u64_lim" using that(1) pb by linarith
  qed
  show ?thesis
    using assms(1,2,5) room
    by (auto simp: payload_ext4_root_def Let_def bs pb(2) payload_consts ntfs_consts blk isz inode_offset
        simp del: mult_Suc
        intro!: wp_conseq [OF ext4_root_sizes_wp] disk_read_wpx wp_conseq [OF ext4_inode_table_wp]
          wp_conseq [OF ext4_root_inode_wp])
qed

lemma payload_ext4_wpx:
  assumes "P s" "length b = 512" "base + len \<le> n"
  shows "wpx P (payload_ext4 rd base len b) s (\<lambda>b s'. length b = 512 \<and> P s')"
proof -
  have root: "wpx P (payload_ext4_root rd base (e4_first g) (e4_count g) (e4_log g) wide dyn b) s
      (\<lambda>b s'. length b = 512 \<and> P s')" if "ext4_geometry_ok len g" for g wide dyn
    using that assms by (intro payload_ext4_root_wpx) (auto simp: ext4_geometry_ok_def)
  have blk: "grp < u32_lim \<Longrightarrow> e4_per_group g * grp < u64_lim \<and> e4_first g + e4_per_group g * grp < u64_lim"
    "k < e4_count g \<Longrightarrow> k * (push_bit (e4_log g) 2 mod u64_lim) < u64_lim
      \<and> base + k * (push_bit (e4_log g) 2 mod u64_lim) < u64_lim \<and> base + k * (push_bit (e4_log g) 2 mod u64_lim) < n"
    "e4_first g \<le> e4_count g" "4 \<le> len" "e4_per_group g < u64_lim" "e4_first g + e4_per_group g < u64_lim"
    if g: "ext4_geometry_ok len g" for g grp k
  proof -
    let ?pb = "2 * 2 ^ e4_log g :: nat"
    from g have g': "e4_log g \<le> 6" "e4_first g \<le> 1" "e4_count g * ?pb \<le> len"
      by (simp_all add: ext4_geometry_ok_def)
    show "e4_per_group g * grp < u64_lim \<and> e4_first g + e4_per_group g * grp < u64_lim" if "grp < u32_lim"
    proof -
      have "e4_per_group g * grp \<le> (u32_lim - 1) * (u32_lim - 1)"
        using that g by (intro mult_le_mono) (auto simp: ext4_geometry_ok_def)
      then show ?thesis using g' by simp
    qed
    show "k * (push_bit (e4_log g) 2 mod u64_lim) < u64_lim
      \<and> base + k * (push_bit (e4_log g) 2 mod u64_lim) < u64_lim \<and> base + k * (push_bit (e4_log g) 2 mod u64_lim) < n"
      if "k < e4_count g"
    proof -
      have "k * ?pb < e4_count g * ?pb" using that by (intro mult_strict_right_mono) auto
      then show ?thesis unfolding block_sectors(1) [OF g'(1)] using g' assms(3) size_bound by linarith
    qed
    show "e4_first g \<le> e4_count g" "4 \<le> len" "e4_per_group g < u64_lim" "e4_first g + e4_per_group g < u64_lim"
      using g by (auto simp: ext4_geometry_ok_def)
  qed
  have grp: "le_val (take 4 (drop a c)) < u32_lim" for a c
    using le_val_bound [of "take 4 (drop a c)"] power_increasing [of "length (take 4 (drop a c))" 4 "256::nat"] by simp
  show ?thesis
    using assms size_bound
    by (auto simp: payload_ext4_def Let_def payload_consts ntfs_consts layout_simps wp_get_le blk grp
        intro!: wp_conseq [OF ext4_super_wp] root disk_read_wpx wp_conseq [OF ext4_backup_ok_wp]
        dest: blk(4))
qed

lemma payload_iso_wpx:
  assumes "P s" "length b = 512"
  shows "wpx P (payload_iso rd n b) s (\<lambda>_. P)"
  using assms
  by (auto simp: payload_iso_def ntfs_consts
      intro!: wp_conseq [OF iso_descriptor_wp] disk_read_wpx wp_conseq [OF iso_root_ok_wp])

lemma array_crc_loop_wpx:
  assumes "P s" "sec + div_ceil left 512 \<le> n" "length b = 512"
  shows "wpx P (array_crc_loop rd c left sec b) s (\<lambda>(c, b) s'. length b = 512 \<and> P s')"
  using assms
proof (induction left arbitrary: c sec b s rule: less_induct)
  case (less left)
  show ?case
  proof (cases "left = 0")
    case True
    with less.prems show ?thesis by (simp add: wpx_def array_crc_loop.simps)
  next
    case False
    let ?m = "min left 512"
    let ?k = "ibind (disk_read rd sec) (\<lambda>b.
       ibind (lift (sub64 left (min left NTFS_SECTOR))) (\<lambda>left'.
       ibind (lift (add64 sec 1)) (\<lambda>sec'.
       array_crc_loop rd (crc_chunk c (min left NTFS_SECTOR) b) left' sec' b)))"
    have "array_crc_loop rd c left sec b s = ?k s"
      using False by (subst array_crc_loop.simps) simp
    then have eq: "wpx P (array_crc_loop rd c left sec b) s Q = wpx P ?k s Q" for Q
      by (rule wpx_step)
    have d: "div_ceil left 512 = Suc (div_ceil (left - ?m) 512)"
    proof (cases "left < 512")
      case True
      with False show ?thesis by (simp add: div_ceil_def)
    next
      case False
      then show ?thesis by (simp add: div_ceil_def le_div_geq le_mod_geq)
    qed
    have lt: "left - ?m < left" using False by simp
    show ?thesis
      unfolding eq using less.prems d size_bound
      by (auto simp: ntfs_consts intro!: disk_read_wpx less.IH [OF lt])
  qed
qed

lemma array_crc_wpx:
  assumes "P s" "cnt \<le> 1024" "at + div_ceil (cnt * 128) 512 \<le> n" "length b = 512"
  shows "wpx P (array_crc rd at cnt b) s (\<lambda>(c, b) s'. length b = 512 \<and> P s')"
  using assms
  by (auto simp: array_crc_def layout_simps intro!: wpx_conseq [OF array_crc_loop_wpx])

lemma gpt_content_wpx:
  assumes "P s" "length b = 512" "first + len \<le> n" "0 < len" "verified < 4096"
  shows "wpx P (gpt_content rd esp first len verified b) s
    (\<lambda>(v, b) s'. v \<le> Suc verified \<and> length b = 512 \<and> P s')"
  using assms size_bound
  by (auto simp: gpt_content_def payload_consts wp_get_f512 layout_simps
      intro!: disk_read_wpx wp_conseq [OF is_fat_wp] wpx_conseq [OF payload_ext4_wpx])

lemma gpt_step_wpx:
  assumes s: "P s" and b: "length b = 512" and k: "0 < k"
    and v: "gpt_view_ok (n div k) k v" and i: "i < pg_count v" "verified \<le> i"
  shows "wpx P (gpt_step rd v k i (b, verified, stale)) s
    (\<lambda>(b, ver, stale) s'. ver \<le> Suc i \<and> length b = 512 \<and> P s')"
proof -
  have arr: "pg_lba v * k + div_ceil (pg_count v * 128) 512 \<le> n"
    using v k by (intro array_sectors) (auto simp: gpt_view_ok_def)
  have "Suc (i div 4) \<le> div_ceil (pg_count v * 128) 512"
  proof (rule ccontr)
    assume "\<not> Suc (i div 4) \<le> div_ceil (pg_count v * 128) 512"
    then have "pg_count v * 128 \<le> i div 4 * 512" by (simp add: div_ceil_le_iff [symmetric] not_less_eq_eq)
    with i show False by linarith
  qed
  with arr size_bound have at: "pg_lba v * k < u64_lim" "pg_lba v * k + i div 4 < u64_lim" "pg_lba v * k + i div 4 < n"
    by linarith+
  have cnt: "pg_count v \<le> 1024" using v by (simp add: gpt_view_ok_def)
  have slot: "wpx P (ibind (lift (gpt_slot v k b (i mod 4 * 128))) (\<lambda>slot.
      case slot of None \<Rightarrow> lift (Ok (b, verified, stale))
      | Some (esp, first, len) \<Rightarrow>
        ibind (gpt_content rd esp first len verified b) (\<lambda>(verified, b). lift (Ok (b, verified, True))))) s
    (\<lambda>(b, ver, stale) s'. ver \<le> Suc i \<and> length b = 512 \<and> P s')"
    if "P s" "length b = 512" for s b stale
  proof -
    have "i mod 4 * 128 \<le> 384" by (simp add: mod_less_divisor [of 4 i, simplified] flip: less_Suc_eq_le)
    note sl = gpt_slot_wp [OF that(2) this v size_bound]
    show ?thesis
      using that i cnt k
      by (auto intro!: wp_conseq [OF sl] wpx_conseq [OF gpt_content_wpx])
  qed
  have m: "i mod 4 * 128 < u64_lim" by (simp add: less_trans [OF mod_less_divisor [of 4 i]])
  show ?thesis
    using s b at m slot
    by (auto simp: gpt_step_def Let_def layout_simps ntfs_consts intro!: disk_read_wpx)
qed

lemma gpt_loop_wpx:
  assumes k: "0 < k" and v: "gpt_view_ok (n div k) k v"
  shows "P s \<Longrightarrow> length b = 512 \<Longrightarrow> i \<le> pg_count v \<Longrightarrow> verified \<le> i \<Longrightarrow>
    wpx P (gpt_loop rd v k [i..<pg_count v] (b, verified, stale)) s (\<lambda>_. P)"
proof (induction "pg_count v - i" arbitrary: i b verified stale s)
  case (Suc d)
  then have lt: "i < pg_count v" by simp
  then have "[i..<pg_count v] = i # [Suc i..<pg_count v]" by (simp add: upt_conv_Cons)
  moreover have "wpx P (gpt_loop rd v k [Suc i..<pg_count v] (b', ver', stale')) s' (\<lambda>_. P)"
    if "P s'" "length b' = 512" "ver' \<le> Suc i" for b' ver' stale' s'
    using Suc.hyps(1) [of "Suc i"] Suc.hyps(2) that lt by simp
  ultimately show ?case
    using Suc.prems lt by (auto intro!: wpx_conseq [OF gpt_step_wpx [OF _ _ k v]])
qed simp

lemma payload_gpt_wpx:
  assumes "P s" "length b = 512" "0 < k" "k \<le> 8"
  shows "wpx P (payload_gpt rd n k b) s (\<lambda>_. P)"
proof -
  have 1: "pg_lba v * k < u64_lim" "pg_lba v * k + div_ceil (pg_count v * 128) 512 \<le> n"
    "pg_count v \<le> 1024" "pg_alt v * k < u64_lim" "pg_alt v * k < n"
    if v: "gpt_view_ok (n div k) k v" for v
  proof -
    show "pg_lba v * k + div_ceil (pg_count v * 128) 512 \<le> n"
      using v assms(3) by (intro array_sectors) (auto simp: gpt_view_ok_def)
    then show "pg_lba v * k < u64_lim" using size_bound by linarith
    show "pg_count v \<le> 1024" using v by (simp add: gpt_view_ok_def)
    show "pg_alt v * k < n" using v by (intro scaled_less) (simp add: gpt_view_ok_def)
    then show "pg_alt v * k < u64_lim" using size_bound by linarith
  qed
  have 2: "blba * k < u64_lim" "blba * k + div_ceil (pg_count v * 128) 512 \<le> n"
    if v: "gpt_view_ok (n div k) k v" and bl: "blba + pg_asec v \<le> pg_alt v" for v blba
  proof -
    show "blba * k + div_ceil (pg_count v * 128) 512 \<le> n"
      using v bl assms(3) by (intro array_sectors) (auto simp: gpt_view_ok_def)
    then show "blba * k < u64_lim" using size_bound by linarith
  qed
  show ?thesis
    using assms
    by (auto simp: payload_gpt_def 1 2 simp del: upt_Suc intro!: wp_conseq [OF gpt_primary_wp]
        wpx_conseq [OF array_crc_wpx] disk_read_wpx wp_conseq [OF gpt_backup_wp]
        wpx_conseq [OF gpt_loop_wpx])
qed

lemma check_payload_wpx:
  assumes "P s"
  shows "wpx P (check_payload rd n lbs) s (\<lambda>_. P)"
proof -
  have rest: "wpx P (payload_rest rd n) s (\<lambda>_. P)" if "P s" for s
    using that size_bound
    by (auto simp: payload_rest_def Let_def payload_consts wp_get_f512 layout_simps
        intro!: disk_read_wpx wpx_conseq [OF payload_ext4_wpx] payload_iso_wpx)
  show ?thesis
    using assms
    by (auto simp: check_payload_def Let_def layout_simps intro!: disk_read_wpx payload_gpt_wpx rest)
qed

end

text \<open>A disk that records which sectors were read, on top of any other.\<close>

definition logged :: "'s disk \<Rightarrow> ('s \<times> nat list) disk" where
  "logged rd = (\<lambda>(s, log) sec. case rd s sec of (r, s') \<Rightarrow> (r, (s', log @ [sec])))"

interpretation lg: image_disk "logged slice_read" "\<lambda>(s, log). \<forall>x\<in>set log. x < n" "min n (u64_lim - 1)"
  for n
  by unfold_locales (auto simp: logged_def split: prod.splits dest: sl.read_len)

text \<open>
  C22.  The structural assertion stays inside the image.  On any disk that returns whole sectors,
  whatever they hold and even if they change between reads, \<open>check_payload\<close> never panics, and
  every sector it reads, also on the way to a refusal, is one of the image's.
\<close>

theorem check_payload_inside:
  assumes "sector_disk rd" "sectors < u64_lim"
    and "check_payload (logged rd) sectors lbs (s, []) = (r, (s', log))"
  shows "r \<noteq> Panic \<and> list_all (\<lambda>x. x < sectors) log"
proof -
  let ?P = "\<lambda>(s :: 'a, log). list_all (\<lambda>x. x < sectors) log"
  have "image_disk (logged rd) ?P sectors"
    using assms(1,2) by unfold_locales
      (auto simp: logged_def sector_disk_def split: prod.splits)
  from image_disk.check_payload_wpx [OF this, of "(s, [])" lbs] assms(3)
  show ?thesis by (auto simp: wpx_def split: res.splits)
qed

text \<open>A disk of zeros: sectors 1 and 2 of three are read, nothing is recognised.\<close>

definition zero_disk :: "unit disk" where
  "zero_disk s sec = (Some (replicate 512 0), s)"

lemma zero_disk_read: "disk_read (logged zero_disk) sec (s, log) = (Ok (replicate 512 0), (s, log @ [sec]))"
  by (simp add: disk_read_def logged_def zero_disk_def)

lemma get_f_zero:
  "field_size L f \<le> 8 \<Longrightarrow> offset_of L f + field_size L f \<le> 512 \<Longrightarrow> get_f (replicate 512 0) L f = Ok 0"
  by (simp add: get_f_def get_at_def get_le_def get_range_def checked_add_def add64_def
      fold_le_le_val le_val_zeros)

theorem check_payload_inside_witness:
  "check_payload (logged zero_disk) 3 512 ((), []) = (Err PayloadUnknown, ((), [1, 2]))
   \<and> (Err PayloadUnknown :: (ntfs_error, unit) res) \<noteq> Panic \<and> list_all (\<lambda>x. x < 3) [1, 2 :: nat]"
proof -
  have "replicate 8 (0 :: byte) \<noteq> GPT_SIGNATURE"
    by (auto simp: GPT_SIGNATURE_def dest: arg_cong [where f = hd])
  then have 1: "check_payload (logged zero_disk) 3 512 ((), []) = (Err PayloadUnknown, ((), [1, 2]))"
    by (simp add: check_payload_def payload_rest_def ibind_def lift_def zero_disk_read get_f_zero
        layout_simps payload_consts get_range_def EXT4_SUPER_MAGIC_def)
  have "sector_disk zero_disk" by unfold_locales (simp add: zero_disk_def)
  from check_payload_inside [OF this _ 1] 1 show ?thesis by simp
qed

end
