(* ===== verification/Machine.thy ===== *)
theory Machine
  imports Volume
begin

text \<open>
  The stage machine, \<open>crates/paguro-boot/src/machine.rs\<close>, one definition per method.  The caller's
  buffers are fields of the machine's memory; a method that takes some of them as arguments reads and
  writes these fields.  \<open>Step::Done\<close> leaves the machine through \<open>done'\<close>, an error through \<open>fail\<close>.
  Loops that end when the user decides take fuel.  Wiping of local copies has no counterpart; wiping
  of the caller's buffers has.
\<close>

section \<open>Constants\<close>

definition PCR12 :: nat where "PCR12 = 12"
definition RECORDED_PCR_LIST :: "nat list" where "RECORDED_PCR_LIST = [0, 2, 4, 7]"
definition RECORDED_PCRS :: nat where
  "RECORDED_PCRS = push_bit 0 1 OR push_bit 2 1 OR push_bit 4 1 OR push_bit 7 1"
definition DIGEST_LEN :: nat where "DIGEST_LEN = SHA256_LEN"
definition SECRET_VAR_LEN :: nat where "SECRET_VAR_LEN = DIGEST_LEN"
definition SECRET_VAR_BUF :: nat where "SECRET_VAR_BUF = SECRET_VAR_LEN + 1"
definition UNINSTALL_VAR_LEN :: nat where "UNINSTALL_VAR_LEN = 1"
definition TPM_BROKEN_VALUE :: bytes where "TPM_BROKEN_VALUE = [1]"
definition VAR_BOOT_CURRENT :: str where "VAR_BOOT_CURRENT = ascii ''BootCurrent''"
definition VAR_BOOT_ORDER :: str where "VAR_BOOT_ORDER = ascii ''BootOrder''"
definition VAR_BOOT_NEXT :: str where "VAR_BOOT_NEXT = ascii ''BootNext''"
definition BOOT_OPTION_LEN :: nat where "BOOT_OPTION_LEN = 2"
definition BOOT_VAR_PREFIX :: bytes where "BOOT_VAR_PREFIX = text_bytes ''Boot''"
definition BOOT_VAR_DIGITS :: nat where "BOOT_VAR_DIGITS = 4"
definition BOOT_ORDER_MAX_ONE_SHOT :: nat where "BOOT_ORDER_MAX_ONE_SHOT = 512"
definition BOOT_ORDER_MAX_WINDOWS :: nat where "BOOT_ORDER_MAX_WINDOWS = 256"
definition PCR12_EVENT_MAX :: nat where "PCR12_EVENT_MAX = 64"
definition PCR12_EVENT_TAG_LEN :: nat where "PCR12_EVENT_TAG_LEN = length PCR12_EVENT_TAG"
definition PROVISION_D_LEN :: nat where "PROVISION_D_LEN = 32"
definition PROVISION_RANDOM_LEN :: nat where "PROVISION_RANDOM_LEN = PROVISION_D_LEN + SALT_LEN"
definition PAGURO_DIR :: str where "PAGURO_DIR = 0x5c # ascii ''paguro''"
definition RECOVERY_ENTRY_NAME :: str where "RECOVERY_ENTRY_NAME = ascii ''recovery''"
definition H_SECTOR :: nat where "H_SECTOR = 512"

fun kind_index :: "seal_kind \<Rightarrow> nat" where
  "kind_index Tpm = 0" | "kind_index SetupTpm = 1" | "kind_index Passphrase = 2" | "kind_index PinBypass = 3"

definition seal_of :: "seal option list \<Rightarrow> seal_kind \<Rightarrow> seal option" where
  "seal_of parsed k = (case nth_opt parsed (kind_index k) of Some x \<Rightarrow> x | None \<Rightarrow> None)"

definition boot_var_name :: "nat \<Rightarrow> bytes" where
  "boot_var_name n = BOOT_VAR_PREFIX @ map (\<lambda>i.
     let nib = drop_bit (4 * (BOOT_VAR_DIGITS - 1 - i)) n AND 0xf in
     (case nth_opt (text_bytes ''0123456789ABCDEF'') nib of Some c \<Rightarrow> c | None \<Rightarrow> 0x30)) [0..<BOOT_VAR_DIGITS]"

definition ascii_text :: "bytes \<Rightarrow> str" where
  "ascii_text b = (case from_utf8 b of Some s \<Rightarrow> s | None \<Rightarrow> [])"

definition zeros :: "bytes \<Rightarrow> bytes" where "zeros b = replicate (length b) 0"

section \<open>Start Windows\<close>

text \<open>Reading a variable into the caller's \<open>var\<close> buffer.\<close>

definition get_var_buf :: "'s env \<Rightarrow> str \<Rightarrow> guid \<Rightarrow> ('s, (platform_error + nat option) \<times> bytes) mm" where
  "get_var_buf E name vendor =
    ibind (buf bf_var) (\<lambda>b.
    ibind (get_var E name vendor b) (\<lambda>(r, b').
    ibind (set_buf (\<lambda>x. x\<lparr>bf_var := b'\<rparr>)) (\<lambda>_. ret (r, b'))))"

text \<open>The first entry of \<open>BootOrder\<close> that is Windows Boot Manager.\<close>

fun windows_loop :: "'s env \<Rightarrow> nat list \<Rightarrow> ('s, nat option) mm" where
  "windows_loop E [] = ret None"
| "windows_loop E (i # is) =
    ibind (get_var_buf E (ascii_text (boot_var_name i)) EFI_GLOBAL_VARIABLE) (\<lambda>(r, b).
    case r of Inl _ \<Rightarrow> windows_loop E is | Inr x \<Rightarrow> case x of None \<Rightarrow> windows_loop E is | Some n \<Rightarrow>
    ibind (attempt (parse_load_option (upto b n))) (\<lambda>lo. case lo of None \<Rightarrow> windows_loop E is | Some lo \<Rightarrow>
    if is_windows_boot_manager lo then ret (Some i) else windows_loop E is))"

definition start_windows :: "'s env \<Rightarrow> ('s, outcome) mm" where
  "start_windows E =
    ibind (get_var E VAR_BOOT_ORDER EFI_GLOBAL_VARIABLE (replicate BOOT_ORDER_MAX_WINDOWS 0)) (\<lambda>(r, order).
    let n = (case r of Inr (Some n) \<Rightarrow> n | _ \<Rightarrow> 0) in
    ibind (windows_loop E (map le_val (chunks_exact BOOT_OPTION_LEN (upto order n)))) (\<lambda>target.
    case target of None \<Rightarrow> ret (Halted BNoWindowsEntry) | Some i \<Rightarrow>
    ibind (set_var E VAR_BOOT_NEXT EFI_GLOBAL_VARIABLE NV_BS_RT (le_bytes 2 i)) (\<lambda>r.
    case r of Inl e \<Rightarrow> ret (Halted (BPlatform e)) | Inr _ \<Rightarrow>
    ibind (reset E) (\<lambda>_. ret StartWindows))))"

text \<open>\<open>return Ok(Step::Done(self.start_windows(..)))\<close>.\<close>

definition leave_to_windows :: "'s env \<Rightarrow> ('s, 'a) mm" where
  "leave_to_windows E = ibind (start_windows E) done'"

definition start_windows_no_var :: "'s env \<Rightarrow> ('s, 'a) mm" where
  \<comment> \<open>with a fresh buffer; the caller's \<open>var\<close> keeps its contents\<close>
  "start_windows_no_var E =
    ibind (buf bf_var) (\<lambda>b.
    ibind (set_buf (\<lambda>x. x\<lparr>bf_var := replicate MAX_LOAD_OPTION 0\<rparr>)) (\<lambda>_.
    ibind (start_windows E) (\<lambda>o'.
    ibind (set_buf (\<lambda>x. x\<lparr>bf_var := b\<rparr>)) (\<lambda>_. done' o'))))"

section \<open>Stage 0\<close>

definition delete_one_shot_entry :: "'s env \<Rightarrow> ('s, unit) mm" where
  "delete_one_shot_entry E =
    ibind (get_var E VAR_BOOT_CURRENT EFI_GLOBAL_VARIABLE (replicate BOOT_OPTION_LEN 0)) (\<lambda>(r, cur).
    if r \<noteq> Inr (Some BOOT_OPTION_LEN) then ret () else
    let i = le_val cur; name = ascii_text (boot_var_name i) in
    ibind (get_var E VAR_BOOT_ORDER EFI_GLOBAL_VARIABLE (replicate BOOT_ORDER_MAX_ONE_SHOT 0)) (\<lambda>(r, order).
    let in_order = (case r of Inl _ \<Rightarrow> True | Inr x \<Rightarrow> case x of None \<Rightarrow> False
      | Some n \<Rightarrow> list_ex (\<lambda>c. c = le_bytes 2 i) (chunks_exact BOOT_OPTION_LEN (upto order n))) in
    if in_order then ret () else
    ibind (get_var_buf E name EFI_GLOBAL_VARIABLE) (\<lambda>(r, b).
    case r of Inl _ \<Rightarrow> ret () | Inr x \<Rightarrow> case x of None \<Rightarrow> ret () | Some n \<Rightarrow>
    ibind (attempt (parse_load_option (upto b n))) (\<lambda>lo.
    ibind (set_buf (\<lambda>x. x\<lparr>bf_var := zeros b\<rparr>)) (\<lambda>_.
    case lo of None \<Rightarrow> ret () | Some lo \<Rightarrow>
    if \<not> is_paguro lo then ret () else
    ibind (delete_var E name EFI_GLOBAL_VARIABLE) (\<lambda>_. ret ()))))))"

definition take_payload :: "nat option \<Rightarrow> bytes \<Rightarrow> ('s, unit) mm" where
  "take_payload n payload =
    (case Option.bind n (get_range payload 0) of None \<Rightarrow> ret () | Some d \<Rightarrow>
     ibind (attempt (parse_payload d)) (\<lambda>p. case p of None \<Rightarrow> ret () | Some bs \<Rightarrow>
     set_st (\<lambda>s. s\<lparr>ms_bootstrap := Some bs\<rparr>)))"

definition take_bootstrap :: "'s env \<Rightarrow> ('s, unit) mm" where
  "take_bootstrap E =
    ibind (get_var E BST_VAR_NAME PAGURO_VENDOR (replicate (BST_MAX_VAR + 1) 0)) (\<lambda>(got, payload).
    if got = Inr None then ret () else
    let n = (case got of Inr x \<Rightarrow> x | Inl _ \<Rightarrow> None) in
    ibind (delete_var E BST_VAR_NAME PAGURO_VENDOR) (\<lambda>_.
    ibind (take_payload n payload) (\<lambda>_.
    delete_one_shot_entry E)))"

definition uninstall_requested :: "'s env \<Rightarrow> ('s, bool) mm" where
  "uninstall_requested E =
    ibind (get_var E VAR_UNINSTALL PAGURO_VENDOR (replicate (UNINSTALL_VAR_LEN + 1) 0)) (\<lambda>(r, _).
    ret (r = Inr (Some UNINSTALL_VAR_LEN)))"

fun uninstall_loop :: "'s env \<Rightarrow> str list \<Rightarrow> ('s, unit) mm" where
  "uninstall_loop E [] = ret ()"
| "uninstall_loop E (name # names) =
    ibind (get_var E name PAGURO_VENDOR [0]) (\<lambda>(r, _).
    if r = Inr None then uninstall_loop E names
    else ibind (delete_var E name PAGURO_VENDOR) (\<lambda>_. uninstall_loop E names))"

definition UNINSTALL_VARS :: "str list" where
  "UNINSTALL_VARS = [VAR_B, VAR_CONFIG_HASH, VAR_SETUP, VAR_TPM_BROKEN, BST_VAR_NAME, VAR_UNINSTALL]"

definition uninstall :: "'s env \<Rightarrow> ('s, outcome) mm" where
  "uninstall E = ibind (uninstall_loop E UNINSTALL_VARS) (\<lambda>_. start_windows E)"

section \<open>PCR 12\<close>

definition pcr12_is_zero :: "'s env \<Rightarrow> ('s, bool) mm" where
  "pcr12_is_zero E =
    ibind (st ms_tpm) (\<lambda>t. if \<not> t then ret False else
    ibind (tpm_pcr_read E (push_bit PCR12 1)) (\<lambda>r. case r of
      Inl _ \<Rightarrow> ret False | Inr v \<Rightarrow> ret (pcr_get v PCR12 = Some (replicate DIGEST_LEN 0))))"

definition extend12 :: "'s env \<Rightarrow> bytes \<Rightarrow> bytes \<Rightarrow> ('s, unit) mm" where
  "extend12 E d label =
    (let n = PCR12_EVENT_TAG_LEN + length label in
     if PCR12_EVENT_MAX < n then fail BDisk else
     ibind (hash_log_extend E PCR12 d (PCR12_EVENT_TAG @ label)) (try' (\<lambda>e. BTpm (TfPlatform e))))"

definition log_pcr12 :: "'s env \<Rightarrow> ('s, unit) mm" where
  "log_pcr12 E = ibind (tpm_pcr_read E (push_bit PCR12 1)) (\<lambda>_. ret ())"

definition cap :: "'s env \<Rightarrow> ('s, unit) mm" where
  "cap E =
    ibind (st (\<lambda>s. \<not> ms_tpm s \<or> ms_capped s)) (\<lambda>skip. if skip then ret () else
    ibind (extend12 E BOOT_TAINT BOOT_TAINT) (\<lambda>_.
    ibind (set_st (\<lambda>s. s\<lparr>ms_capped := True\<rparr>)) (\<lambda>_. log_pcr12 E)))"

definition enter_recovery :: "'s env \<Rightarrow> recovery_reason \<Rightarrow> ('s, unit) mm" where
  "enter_recovery E reason =
    ibind (set_st (\<lambda>s. s\<lparr>ms_mode := Recovery reason,
      ms_flags := ms_flags s OR (RECOVERY_PATH OR CONFIG_UNVERIFIED), ms_tpm_grey := Some RecoveryMode\<rparr>)) (\<lambda>_.
    ibind (st ms_ui_from_ini) (\<lambda>u.
    ibind (set_st (\<lambda>s. s\<lparr>ms_ui_from_ini := False\<rparr>)) (\<lambda>_.
    ibind (if u then ui_prefs E UI_DEFAULT else ret ()) (\<lambda>_.
    ibind (st (\<lambda>s. ms_tpm s \<and> \<not> ms_capped s)) (\<lambda>c. if c then cap E else ret ())))))"

section \<open>Stages 1 and 2\<close>

definition set_mode :: "boot_mode \<Rightarrow> ('s, unit) mm" where
  "set_mode md = set_st (\<lambda>s. s\<lparr>ms_mode := md\<rparr>)"

text \<open>What follows the reading of a configuration of at most 64 KiB: hash and compare.\<close>

definition verify_config :: "'s env \<Rightarrow> nat \<Rightarrow> bytes \<Rightarrow> ('s, nat option) mm" where
  "verify_config E n ini =
    (let hash = sha256 (e_crypto E) (upto ini n) in
     ibind (set_st (\<lambda>s. s\<lparr>ms_ini_hash := Some hash\<rparr>)) (\<lambda>_.
     ibind (secure_boot E) (\<lambda>sb.
     if \<not> sb then ibind (set_st (\<lambda>s. s\<lparr>ms_flags := ms_flags s OR CONFIG_UNVERIFIED\<rparr>)) (\<lambda>_. ret (Some n)) else
     ibind (get_var E VAR_CONFIG_HASH PAGURO_VENDOR (replicate SECRET_VAR_BUF 0)) (\<lambda>(r, stored).
     if r \<noteq> Inr (Some SECRET_VAR_LEN) then ibind (set_mode (Recovery HashMissing)) (\<lambda>_. ret None) else
     if \<not> ct_eq (upto stored SECRET_VAR_LEN) hash then
       ibind (prompt E ScConfigInvalid) (\<lambda>i.
       if i = InRecover then ibind (set_mode (Recovery HashMismatch)) (\<lambda>_. ret None)
       else leave_to_windows E)
     else ret (Some n)))))"

definition stage1 :: "'s env \<Rightarrow> ('s, nat option) mm" where
  "stage1 E =
    ibind (buf bf_ini) (\<lambda>b.
    ibind (read_esp_file E F_INI b) (\<lambda>(r, ini).
    ibind (set_buf (\<lambda>x. x\<lparr>bf_ini := ini\<rparr>)) (\<lambda>_.
    case r of
      Inl _ \<Rightarrow> ibind (set_mode (Recovery ConfigUnreadable)) (\<lambda>_. ret None)
    | Inr x \<Rightarrow> case x of
        None \<Rightarrow> ibind (st ms_bootstrap) (\<lambda>bs.
          ibind (set_mode (if bs \<noteq> None then FirstBoot else Recovery NoConfig)) (\<lambda>_. ret None))
      | Some n \<Rightarrow> if n \<le> INI_MAX_LEN then verify_config E n ini
          else ibind (set_mode (Recovery ConfigUnreadable)) (\<lambda>_. ret None))))"

definition load_config :: "'s env \<Rightarrow> bytes \<Rightarrow> ('s, config option) mm" where
  "load_config E ini =
    ibind (attempt (config_parse ini)) (\<lambda>c. case c of
      None \<Rightarrow> ibind (prompt E ScConfigInvalid) (\<lambda>i.
        if i = InRecover then ibind (enter_recovery E ConfigInvalid) (\<lambda>_. ret None)
        else start_windows_no_var E)
    | Some cfg \<Rightarrow>
        if cfg_ui cfg \<noteq> UI_DEFAULT then
          ibind (ui_prefs E (cfg_ui cfg)) (\<lambda>_.
          ibind (set_st (\<lambda>s. s\<lparr>ms_ui_from_ini := True\<rparr>)) (\<lambda>_. ret (Some cfg)))
        else ret (Some cfg))"

definition stage2 :: "'s env \<Rightarrow> bytes \<Rightarrow> ('s, config option) mm" where
  "stage2 E ini =
    ibind (st ms_mode) (\<lambda>md. case md of
      Recovery reason \<Rightarrow> ibind (enter_recovery E reason) (\<lambda>_. ret None)
    | FirstBoot \<Rightarrow>
        ibind (set_st (\<lambda>s. s\<lparr>ms_flags := ms_flags s OR CONFIG_UNVERIFIED\<rparr>)) (\<lambda>_.
        ibind (pcr12_is_zero E) (\<lambda>z.
        ibind (set_st (\<lambda>s. s\<lparr>ms_pcr12_was_zero := z\<rparr>)) (\<lambda>_.
        ibind (cap E) (\<lambda>_. ret None))))
    | Normal \<Rightarrow> load_config E ini)"

definition ratchet :: "'s env \<Rightarrow> bytes \<Rightarrow> bool \<Rightarrow> ('s, unit) mm" where
  "ratchet E ini tpm_seal_present =
    ibind (st ms_tpm) (\<lambda>t. if \<not> t then ret () else
    ibind (pcr12_is_zero E) (\<lambda>z. if \<not> z then
      ibind (prompt E (ScNotice NPcr12NotZero)) (\<lambda>i.
      if i = InRecover then enter_recovery E Pcr12NotZero else start_windows_no_var E)
    else
      ibind (set_st (\<lambda>s. s\<lparr>ms_pcr12_was_zero := True\<rparr>)) (\<lambda>_.
      if tpm_seal_present then ibind (extend12 E ini LOAD_TAINT_EVENT) (\<lambda>_. log_pcr12 E)
      else cap E)))"

text \<open>The seal files of a volume, in the order of \<open>Kind::ALL\<close>: their lengths.\<close>

fun seals_loop :: "'s env \<Rightarrow> guid \<Rightarrow> seal_kind list \<Rightarrow> bytes list \<Rightarrow> ('s, nat option list \<times> bytes list) mm" where
  "seals_loop E v (k # ks) (b # bs) =
    ibind (read_esp_file E (seal_path v k) b) (\<lambda>(r, b').
    ibind (seals_loop E v ks bs) (\<lambda>(ns, bs').
    ret ((case r of Inr n \<Rightarrow> n | Inl _ \<Rightarrow> None) # ns, b' # bs')))"
| "seals_loop E v _ bs = ret ([], bs)"

definition read_seals :: "'s env \<Rightarrow> guid \<Rightarrow> ('s, nat option list) mm" where
  "read_seals E v =
    ibind (buf bf_seals) (\<lambda>bs.
    ibind (seals_loop E v KIND_ALL bs) (\<lambda>(ns, bs').
    ibind (set_buf (\<lambda>x. x\<lparr>bf_seals := bs'\<rparr>)) (\<lambda>_. ret ns)))"

definition seal_len_of :: "nat option list \<Rightarrow> seal_kind \<Rightarrow> nat option" where
  "seal_len_of lens k = (case nth_opt lens (kind_index k) of Some n \<Rightarrow> n | None \<Rightarrow> None)"

fun parse_seals :: "seal_kind list \<Rightarrow> bytes list \<Rightarrow> nat option list \<Rightarrow> ('s, seal option list) mm" where
  "parse_seals (k # ks) (b # bs) (n # ns) =
    ibind (case n of None \<Rightarrow> ret None | Some n \<Rightarrow> attempt (seal_read k (upto b n))) (\<lambda>s.
    ibind (parse_seals ks bs ns) (\<lambda>ss. ret (s # ss)))"
| "parse_seals _ _ _ = ret []"

section \<open>Stage 3: secrets and the volume\<close>

definition load_b :: "'s env \<Rightarrow> ('s, unit) mm" where
  "load_b E =
    ibind (get_var E VAR_B PAGURO_VENDOR (replicate SECRET_VAR_BUF 0)) (\<lambda>(r, b).
    if r = Inr (Some SECRET_VAR_LEN) then
      set_st (\<lambda>s. s\<lparr>ms_b := (case get_range b 0 SECRET_VAR_LEN of Some x \<Rightarrow> x
        | None \<Rightarrow> replicate SECRET_VAR_LEN 0)\<rparr>)
    else
      ibind (st ms_b) (\<lambda>old.
      ibind (random E old) (\<lambda>(r, new).
      ibind (set_st (\<lambda>s. s\<lparr>ms_b := new\<rparr>)) (\<lambda>_.
      ibind (try' (\<lambda>_. BRng) r) (\<lambda>_.
      ibind (set_var E VAR_B PAGURO_VENDOR NV_BS new) (\<lambda>_. ret ()))))))"

definition load_s :: "'s env \<Rightarrow> ('s, unit) mm" where
  "load_s E =
    ibind (get_var E VAR_SETUP PAGURO_VENDOR (replicate SECRET_VAR_BUF 0)) (\<lambda>(r, b).
    if r = Inr (Some SECRET_VAR_LEN) then
      set_st (\<lambda>s. s\<lparr>ms_s := Some (case get_range b 0 SECRET_VAR_LEN of Some x \<Rightarrow> x
        | None \<Rightarrow> replicate SECRET_VAR_LEN 0)\<rparr>)
    else ret ())"

definition record_pcrs :: "pcr_values \<Rightarrow> bytes list \<Rightarrow> bytes list" where
  "record_pcrs v old = map2 (\<lambda>o' pcr. case pcr_get v pcr of Some d \<Rightarrow> d | None \<Rightarrow> o') old RECORDED_PCR_LIST"

definition load_secrets :: "'s env \<Rightarrow> ('s, unit) mm" where
  "load_secrets E =
    ibind (load_b E) (\<lambda>_.
    ibind (load_s E) (\<lambda>_.
    ibind (st ms_tpm) (\<lambda>t. if \<not> t then ret () else
    ibind (tpm_pcr_read E RECORDED_PCRS) (\<lambda>r. case r of
      Inl _ \<Rightarrow> ret () | Inr v \<Rightarrow> set_st (\<lambda>s. s\<lparr>ms_pcrs := record_pcrs v (ms_pcrs s)\<rparr>)))))"

definition choice_of :: "candidate \<Rightarrow> volume_choice" where
  "choice_of c = \<lparr>vc_disk = min (pt_disk (cd_part c)) (u8_lim - 1), vc_partition = pt_index (cd_part c),
     vc_bytes = min (pt_sectors (cd_part c) * pt_block_size (cd_part c)) (u64_lim - 1),
     vc_format = (if cd_kind c = VkBitLocker then VfBitLocker else VfNtfs), vc_name = cd_name c\<rparr>"

definition pick_candidate :: "'s env \<Rightarrow> candidate list \<Rightarrow> ('s, nat) mm" where
  "pick_candidate E cands =
    (if length cands = 0 then
       ibind (prompt E ScNoInstallation) (\<lambda>i.
       if i = InStartWindows then leave_to_windows E else fail BNoVolume)
     else if length cands = 1 then ret 0
     else
       ibind (prompt E (ScSelectVolume (fold (\<lambda>c l. volume_list_push l (choice_of c)) cands []))) (\<lambda>i. case i of
         InChoose k \<Rightarrow> if k < length cands then ret k else fail BNoVolume
       | InStartWindows \<Rightarrow> leave_to_windows E
       | _ \<Rightarrow> fail BNoVolume))"

definition enumerate_volume :: "'s env \<Rightarrow> ('s, partition \<times> volume_kind) mm" where
  "enumerate_volume E =
    ibind (enumerate_candidates E) (\<lambda>cands.
    ibind (pick_candidate E cands) (\<lambda>k.
    case nth_opt cands k of None \<Rightarrow> fail BNoVolume | Some c \<Rightarrow> ret (cd_part c, cd_kind c)))"

definition probe_found :: "'s env \<Rightarrow> partition \<Rightarrow> ('s, partition \<times> volume_kind) mm" where
  "probe_found E part =
    ibind (buf bf_block) (\<lambda>b.
    ibind (probe E part b) (\<lambda>(kind, b').
    ibind (set_buf (\<lambda>x. x\<lparr>bf_block := b'\<rparr>)) (\<lambda>_. ret (part, kind))))"

definition select_volume :: "'s env \<Rightarrow> guid option \<Rightarrow> ('s, partition \<times> volume_kind) mm" where
  "select_volume E target =
    ibind (st ms_mode) (\<lambda>md.
    case (if md = Normal \<or> md = FirstBoot then target else None) of
      None \<Rightarrow> enumerate_volume E
    | Some g \<Rightarrow>
        ibind (find_partition E g) (\<lambda>found. case found of
          Some part \<Rightarrow> probe_found E part
        | None \<Rightarrow>
            ibind (prompt E (ScNotice NVolumeMissing)) (\<lambda>i.
            if i = InRecover then ibind (enter_recovery E VolumeMissing) (\<lambda>_. enumerate_volume E)
            else leave_to_windows E)))"

section \<open>Recovery: what to boot\<close>

definition typed_path :: "'s env \<Rightarrow> level \<Rightarrow> str \<Rightarrow> ('s, str option) mm" where
  \<comment> \<open>the path the caller has, and the typed one when it is accepted\<close>
  "typed_path E lv old =
    ibind (buf bf_path) (\<lambda>b.
    ibind (prompt_buf E (ScEnterPath lv) b) (\<lambda>(i, b').
    ibind (set_buf (\<lambda>x. x\<lparr>bf_path := zeros b'\<rparr>)) (\<lambda>_.
    case (case i of InSecret n \<Rightarrow> Option.bind (get_range b' 0 n) from_utf8 | _ \<Rightarrow> None) of
      None \<Rightarrow> ret None
    | Some typed \<Rightarrow>
        case (case normalize_path typed (MAX_PATH_BYTES + 1) of None \<Rightarrow> None
              | Some (t, _) \<Rightarrow> if path_ok t \<and> fst (path_set old t) then Some t else None) of
          Some t \<Rightarrow> ret (Some t)
        | None \<Rightarrow> ibind (prompt E ScPathRefused) (\<lambda>_. ret None))))"

record chosen =
  ch_efi :: str
  ch_kind :: entry_kind
  ch_fat :: str
  ch_root :: str

definition chosen_new :: chosen where
  "chosen_new = \<lparr>ch_efi = [], ch_kind = KDisk, ch_fat = [], ch_root = []\<rparr>"

definition root_is_efi :: "chosen \<Rightarrow> chosen" where "root_is_efi c = c\<lparr>ch_root := ch_efi c\<rparr>"

definition efi_name :: "chosen \<Rightarrow> str" where "efi_name c = last_component (ch_efi c)"

text \<open>
  The entry's name is read back from the buffer \<open>entry_name\<close> fills, at the length of what it returned:
  the two differ when it returns its fallback.
\<close>

definition chosen_name :: "chosen \<Rightarrow> str" where
  "chosen_name c =
    (let n = str_len (entry_name (ch_efi c) RECOVERY_ENTRY_NAME);
         b = fill (replicate MAX_NAME 0) (as_bytes (entry_name (ch_efi c) [])) in
     case from_utf8 (upto b n) of Some s \<Rightarrow> s | None \<Rightarrow> RECOVERY_ENTRY_NAME)"

definition chosen_entry :: "chosen \<Rightarrow> guid \<Rightarrow> cfg_entry" where
  "chosen_entry c v =
    \<lparr>ce_name = chosen_name c, ce_volume = v, ce_root = path_get (ch_root c),
     ce_efi = (if ch_kind c = KEfi then EfiFile (ch_efi c)
       else EfiDisk (ch_efi c) (case path_get (ch_fat c) of Some p \<Rightarrow> p | None \<Rightarrow> DEFAULT_EFI))\<rparr>"

text \<open>Listing a directory of the volume into \<open>dir\<close>, sorted.\<close>

definition list_dir :: "'s env \<Rightarrow> level \<Rightarrow> str \<Rightarrow> ('s, dir_listing) mm" where
  "list_dir E lv path =
    ibind (buf bf_dir) (\<lambda>d.
    ibind (vol_list_dir E path) (\<lambda>r.
    ibind (try' id r) (\<lambda>items.
    let d' = listing_sort (e_lower E) (push_all items (listing_clear lv d)) in
    ibind (set_buf (\<lambda>x. x\<lparr>bf_dir := d'\<rparr>)) (\<lambda>_. ret d'))))"

definition selected_in :: "dir_listing \<Rightarrow> str \<Rightarrow> nat" where
  "selected_in d came_from =
    (case Option.bind (path_get came_from) (\<lambda>n. listing_find d (last_component n)) of Some i \<Rightarrow> i | None \<Rightarrow> 0)"

definition browse :: "'s env \<Rightarrow> level \<Rightarrow> str \<Rightarrow> str \<Rightarrow> dir_listing \<Rightarrow> ('s, input) mm" where
  "browse E lv cwd came_from d =
    prompt_browse E (ScBrowse lv) \<lparr>dv_path = cwd, dv_listing = d, dv_selected = selected_in d came_from, dv_level = lv\<rparr>"

text \<open>Going up: the new directory, and where the cursor came from.\<close>

definition go_up :: "str \<Rightarrow> str \<times> str" where
  "go_up cwd = (case path_pop cwd of (ok, p) \<Rightarrow> (p, if ok then cwd else []))"

definition refuse :: "'s env \<Rightarrow> bool \<Rightarrow> ('s, unit) mm" where
  "refuse E ok = (if ok then ret () else ibind (prompt E ScPathRefused) (\<lambda>_. ret ()))"

fun browse_root :: "nat \<Rightarrow> 's env \<Rightarrow> str \<Rightarrow> str \<Rightarrow> chosen \<Rightarrow> ('s, bool \<times> chosen) mm" where
  "browse_root 0 E cwd came_from out = lift (Err OutOfFuel)"
| "browse_root (Suc fuel) E cwd came_from out =
    ibind (list_dir E LRoot cwd) (\<lambda>d.
    ibind (browse E LRoot cwd came_from d) (\<lambda>i. case i of
      InEntry k \<Rightarrow> (case listing_item d k of None \<Rightarrow> browse_root fuel E cwd [] out | Some e \<Rightarrow>
        if it_kind e = KDir then
          (case path_push cwd (it_name e) of (ok, cwd') \<Rightarrow>
           ibind (refuse E ok) (\<lambda>_. browse_root fuel E cwd' [] out))
        else (case path_join (ch_root out) cwd (it_name e) of (ok, p) \<Rightarrow>
          if ok then ret (True, out\<lparr>ch_root := p\<rparr>)
          else ibind (refuse E False) (\<lambda>_. browse_root fuel E cwd [] out)))
    | InParent \<Rightarrow> (case go_up cwd of (cwd', from) \<Rightarrow> browse_root fuel E cwd' from out)
    | InTypePath \<Rightarrow> ibind (typed_path E LRoot (ch_root out)) (\<lambda>t. case t of
        Some p \<Rightarrow> ret (True, out\<lparr>ch_root := p\<rparr>) | None \<Rightarrow> browse_root fuel E cwd [] out)
    | InNoRoot \<Rightarrow> ret (True, out\<lparr>ch_root := []\<rparr>)
    | _ \<Rightarrow> ret (False, out)))"

definition list_efi_dir :: "'s env \<Rightarrow> str \<Rightarrow> str \<Rightarrow> ('s, dir_listing option) mm" where
  "list_efi_dir E disk path =
    ibind (buf bf_dir) (\<lambda>d.
    ibind (vol_list_efi_dir E disk path) (\<lambda>r.
    ibind (try' id r) (\<lambda>x. case x of
      None \<Rightarrow> ibind (set_buf (\<lambda>x. x\<lparr>bf_dir := listing_clear LEfiPartition d\<rparr>)) (\<lambda>_. ret None)
    | Some items \<Rightarrow>
        let d' = listing_sort (e_lower E) (push_all items (listing_clear LEfiPartition d)) in
        ibind (set_buf (\<lambda>x. x\<lparr>bf_dir := d'\<rparr>)) (\<lambda>_. ret (Some d')))))"

fun browse_efi_partition :: "nat \<Rightarrow> 's env \<Rightarrow> str \<Rightarrow> str \<Rightarrow> chosen \<Rightarrow> ('s, bool \<times> chosen) mm" where
  "browse_efi_partition 0 E cwd came_from out = lift (Err OutOfFuel)"
| "browse_efi_partition (Suc fuel) E cwd came_from out =
    ibind (list_efi_dir E (ch_efi out) cwd) (\<lambda>x. case x of
      None \<Rightarrow> ibind (prompt E ScNoEfiPartition) (\<lambda>_. ret (False, out))
    | Some d \<Rightarrow>
      ibind (browse E LEfiPartition cwd came_from d) (\<lambda>i. case i of
        InEntry k \<Rightarrow> (case listing_item d k of None \<Rightarrow> browse_efi_partition fuel E cwd [] out | Some e \<Rightarrow>
          if it_kind e = KDir then
            (case path_push cwd (it_name e) of (ok, cwd') \<Rightarrow>
             ibind (refuse E ok) (\<lambda>_. browse_efi_partition fuel E cwd' [] out))
          else (case path_join (ch_fat out) cwd (it_name e) of (ok, p) \<Rightarrow>
            if ok then ret (True, out\<lparr>ch_fat := p\<rparr>)
            else ibind (refuse E False) (\<lambda>_. browse_efi_partition fuel E cwd [] out)))
      | InParent \<Rightarrow> (case go_up cwd of (cwd', from) \<Rightarrow> browse_efi_partition fuel E cwd' from out)
      | InTypePath \<Rightarrow> ibind (typed_path E LEfiPartition (ch_fat out)) (\<lambda>t. case t of
          Some p \<Rightarrow> ret (True, out\<lparr>ch_fat := p\<rparr>) | None \<Rightarrow> browse_efi_partition fuel E cwd [] out)
      | _ \<Rightarrow> ret (False, out)))"

fun disk_start :: "nat \<Rightarrow> 's env \<Rightarrow> chosen \<Rightarrow> ('s, bool \<times> chosen) mm" where
  "disk_start 0 E out = lift (Err OutOfFuel)"
| "disk_start (Suc fuel) E out =
    ibind (prompt E (ScDiskStart (label_truncated (efi_name out)))) (\<lambda>i. case i of
      InUseDefault \<Rightarrow> ret (True, out\<lparr>ch_fat := []\<rparr>)
    | InTypePath \<Rightarrow> ibind (typed_path E LEfiPartition (ch_fat out)) (\<lambda>t. case t of
        Some p \<Rightarrow> ret (True, out\<lparr>ch_fat := p\<rparr>) | None \<Rightarrow> disk_start fuel E out)
    | InBrowseDisk \<Rightarrow> ibind (browse_efi_partition fuel E [0x5c] [] out) (\<lambda>(ok, out).
        if ok then ret (True, out) else disk_start fuel E out)
    | _ \<Rightarrow> ret (False, out))"

text \<open>What one round of the first browser ends in: the choice, another round, or a file of a kind.\<close>

datatype picked = PDone chosen | PAgain str str chosen | PKind entry_kind str chosen

definition pick_auto :: "dir_listing \<Rightarrow> str \<Rightarrow> chosen \<Rightarrow> ('s, picked) mm" where
  "pick_auto d cwd out =
    (case listing_item d 0 of None \<Rightarrow> fail BNoVolume | Some e \<Rightarrow>
     case path_join (ch_efi out) PAGURO_DIR (it_name e) of (ok, p) \<Rightarrow>
     if \<not> ok then fail BNoVolume
     else if it_kind e = KDisk then ret (PDone (root_is_efi (out\<lparr>ch_efi := p, ch_fat := [], ch_kind := KDisk\<rparr>)))
     else ret (PKind KEfi cwd (out\<lparr>ch_efi := p\<rparr>)))"

definition pick_target :: "'s env \<Rightarrow> str \<Rightarrow> str \<Rightarrow> chosen \<Rightarrow> ('s, picked) mm" where
  "pick_target E cwd came_from out =
    ibind (list_dir E LVolume cwd) (\<lambda>d.
    ibind (browse E LVolume cwd came_from d) (\<lambda>i. case i of
      InEntry k \<Rightarrow> (case listing_item d k of None \<Rightarrow> ret (PAgain cwd [] out) | Some e \<Rightarrow>
        if it_kind e = KDir then
          (case path_push cwd (it_name e) of (ok, cwd') \<Rightarrow>
           ibind (refuse E ok) (\<lambda>_. ret (PAgain cwd' [] out)))
        else (case path_join (ch_efi out) cwd (it_name e) of (ok, p) \<Rightarrow>
          if ok then ret (PKind (it_kind e) cwd (out\<lparr>ch_efi := p\<rparr>))
          else ibind (refuse E False) (\<lambda>_. ret (PAgain cwd [] out))))
    | InParent \<Rightarrow> (case go_up cwd of (cwd', from) \<Rightarrow> ret (PAgain cwd' from out))
    | InTypePath \<Rightarrow> ibind (typed_path E LVolume (ch_efi out)) (\<lambda>t. case t of
        None \<Rightarrow> ret (PAgain cwd [] out)
      | Some p \<Rightarrow> ret (PKind (classify_path p) cwd (out\<lparr>ch_efi := p\<rparr>)))
    | InStartWindows \<Rightarrow> leave_to_windows E
    | _ \<Rightarrow> fail BUserAbort))"

fun choose_loop ::
  "nat \<Rightarrow> 's env \<Rightarrow> dir_listing \<Rightarrow> nat \<Rightarrow> str \<Rightarrow> bool \<Rightarrow> str \<Rightarrow> str \<Rightarrow> chosen \<Rightarrow> ('s, chosen) mm" where
  "choose_loop 0 E d disks only auto cwd came_from out = lift (Err OutOfFuel)"
| "choose_loop (Suc fuel) E d disks only auto cwd came_from out =
    ibind (if auto then pick_auto d cwd out else pick_target E cwd came_from out) (\<lambda>p. case p of
      PDone c \<Rightarrow> ret c
    | PAgain cwd from out \<Rightarrow> choose_loop fuel E d disks only False cwd from out
    | PKind k cwd out \<Rightarrow>
        let out = out\<lparr>ch_kind := k, ch_fat := [], ch_root := []\<rparr>; from = ch_efi out in
        if k = KDisk then
          ibind (disk_start fuel E out) (\<lambda>(ok, out).
          if ok then ret (root_is_efi out) else choose_loop fuel E d disks only False cwd from out)
        else if disks = 0 then ret out
        else if disks = 1 then ret (out\<lparr>ch_root := only\<rparr>)
        else
          ibind (browse_root fuel E PAGURO_DIR [] out) (\<lambda>(ok, out).
          if ok then ret out else choose_loop fuel E d disks only False cwd from out))"

definition choose_target :: "nat \<Rightarrow> 's env \<Rightarrow> ('s, chosen) mm" where
  "choose_target fuel E =
    ibind (list_dir E LVolume PAGURO_DIR) (\<lambda>d.
    let ds = filter (\<lambda>e. it_kind e = KDisk) (dl_items d);
        only = (case ds of [] \<Rightarrow> [] | e # _ \<Rightarrow>
          (case path_join [] PAGURO_DIR (it_name e) of (ok, p) \<Rightarrow> if ok then p else []));
        auto = (length (dl_items d) = 1 \<and> (case listing_item d 0 of Some e \<Rightarrow> it_kind e \<noteq> KDir | None \<Rightarrow> False)) in
    choose_loop fuel E d (length ds) only auto PAGURO_DIR [] chosen_new)"

section \<open>Stage 3: the rungs\<close>

definition blob :: "'s env \<Rightarrow> ('s, bytes) mm" where
  "blob E =
    ibind (st ms_blob_len) (\<lambda>k.
    ibind (case k of Some n \<Rightarrow> ret n
      | None \<Rightarrow>
          ibind (buf bf_fvek_blob) (\<lambda>b.
          ibind (vol_fvek_blob E b) (\<lambda>(r, b').
          ibind (set_buf (\<lambda>x. x\<lparr>bf_fvek_blob := b'\<rparr>)) (\<lambda>_.
          ibind (try' id r) (\<lambda>n.
          ibind (set_st (\<lambda>s. s\<lparr>ms_blob_len := Some n\<rparr>)) (\<lambda>_. ret n)))))) (\<lambda>n.
    ibind (buf bf_fvek_blob) (\<lambda>b.
    case get_range b 0 n of None \<Rightarrow> fail BDisk | Some x \<Rightarrow> ret x)))"

definition accept :: "'s env \<Rightarrow> bytes \<Rightarrow> ('s, bool) mm" where
  "accept E vmk =
    ibind (vol_try_vmk E vmk) (\<lambda>r.
    ibind (try' id r) (\<lambda>ok.
    if ok then ibind (set_st (\<lambda>s. s\<lparr>ms_vmk := Some vmk\<rparr>)) (\<lambda>_. ret True) else ret False))"

definition clear_tpm_broken :: "'s env \<Rightarrow> ('s, unit) mm" where
  "clear_tpm_broken E =
    ibind (get_var E VAR_TPM_BROKEN PAGURO_VENDOR [0]) (\<lambda>(r, _). case r of
      Inl _ \<Rightarrow> ret () | Inr x \<Rightarrow> case x of None \<Rightarrow> ret ()
    | Some _ \<Rightarrow> ibind (delete_var E VAR_TPM_BROKEN PAGURO_VENDOR) (\<lambda>_. ret ()))"

definition is_some_and :: "('a \<Rightarrow> bool) \<Rightarrow> 'a option \<Rightarrow> bool" where
  "is_some_and P x = (case x of Some y \<Rightarrow> P y | None \<Rightarrow> False)"

definition tpm_usable :: "config option \<Rightarrow> seal option list \<Rightarrow> mstate \<Rightarrow> bool" where
  "tpm_usable cfg parsed s \<longleftrightarrow> ms_tpm s \<and> ms_mode s = Normal \<and> ms_tpm_grey s = None
     \<and> seal_of parsed Tpm \<noteq> None \<and> is_some_and cfg_tpm cfg"

definition setup_usable :: "config option \<Rightarrow> seal option list \<Rightarrow> mstate \<Rightarrow> bool" where
  "setup_usable cfg parsed s \<longleftrightarrow> ms_s s \<noteq> None \<and> ms_ini_hash s \<noteq> None \<and> seal_of parsed SetupTpm \<noteq> None
     \<and> (ms_mode s \<noteq> Normal \<or> is_some_and cfg_setup_tpm cfg)"

definition passphrase_usable :: "config option \<Rightarrow> seal option list \<Rightarrow> mstate \<Rightarrow> bool" where
  "passphrase_usable cfg parsed s \<longleftrightarrow> seal_of parsed Passphrase \<noteq> None
     \<and> (ms_mode s \<noteq> Normal \<or> is_some_and cfg_passphrase cfg)"

text \<open>\<open>Ok(self.accept(vmk)?.then_some(rung))\<close>.\<close>

definition accept_as :: "'s env \<Rightarrow> rung \<Rightarrow> bytes \<Rightarrow> ('s, rung option) mm" where
  "accept_as E rg vmk = ibind (accept E vmk) (\<lambda>ok. ret (if ok then Some rg else None))"

definition try_pin_bypass :: "'s env \<Rightarrow> config option \<Rightarrow> seal option list \<Rightarrow> ('s, rung option) mm" where
  "try_pin_bypass E cfg parsed =
    (case seal_of parsed PinBypass of None \<Rightarrow> ret None | Some sl \<Rightarrow>
     ibind (st (\<lambda>s. \<not> ms_tpm s \<or> ms_mode s \<noteq> Normal)) (\<lambda>no.
     if no \<or> \<not> is_some_and cfg_tpm cfg then ret None else
     case (sealed_obj sl, spcrs sl, sdeadline sl) of
       (Some sealed, Some pcrs, Some deadline) \<Rightarrow>
         ibind (tpm_read_clock E) (\<lambda>r. case r of
           Inl _ \<Rightarrow> ret None
         | Inr c \<Rightarrow>
             if \<not> ti_safe c then ret None
             else if ti_clock c \<ge> deadline then ret None
             else
               ibind (tpm_unseal E (s_private sealed) (s_public sealed) (pcr_mask pcrs) (Some deadline) []) (\<lambda>r.
               case r of Inl _ \<Rightarrow> ret None
               | Inr d \<Rightarrow> accept_as E RPinBypass (xor32 d (wrapped_vmk sl))))
     | _ \<Rightarrow> ret None))"

definition try_recovery_key :: "'s env \<Rightarrow> bytes \<Rightarrow> ('s, rung option) mm" where
  "try_recovery_key E digits =
    ibind (attempt (parse_recovery_password digits)) (\<lambda>k. case k of None \<Rightarrow> ret None | Some key \<Rightarrow>
    ibind (vol_recovery_key E key) (\<lambda>r.
    ibind (try' id r) (\<lambda>v. case v of None \<Rightarrow> ret None | Some vmk \<Rightarrow> accept_as E RRecoveryKey vmk)))"

definition stretch :: "'s env \<Rightarrow> bytes \<Rightarrow> bytes \<Rightarrow> bytes" where
  "stretch E user salt = bitlocker_stretch (e_crypto E) user salt (e_iterations E)"

definition tpm_failed :: "'s env \<Rightarrow> rc_class \<Rightarrow> ('s, unit) mm" where
  "tpm_failed E c = (case c of
      RcAuthFail \<Rightarrow> set_st (\<lambda>s. s\<lparr>ms_tpm_attempts := map_option (\<lambda>a. saturating_sub a 1) (ms_tpm_attempts s)\<rparr>)
    | RcLockout \<Rightarrow> set_st (\<lambda>s. s\<lparr>ms_tpm_grey := Some Locked\<rparr>)
    | RcPolicyFail \<Rightarrow>
        ibind (set_st (\<lambda>s. s\<lparr>ms_tpm_grey := Some Unavailable\<rparr>)) (\<lambda>_.
        ibind (set_var E VAR_TPM_BROKEN PAGURO_VENDOR NV_BS_RT TPM_BROKEN_VALUE) (\<lambda>_. ret ()))
    | _ \<Rightarrow> set_st (\<lambda>s. s\<lparr>ms_tpm_grey := Some Unavailable\<rparr>))"

definition try_tpm :: "'s env \<Rightarrow> bytes \<Rightarrow> seal \<Rightarrow> ('s, rung option) mm" where
  "try_tpm E user sl =
    (case (sealed_obj sl, spcrs sl) of
       (Some sealed, Some pcrs) \<Rightarrow>
         let ph = stretch E user (ssalt sl); auth = tpm_auth (e_crypto E) ph in
         ibind (tpm_unseal E (s_private sealed) (s_public sealed) (pcr_mask pcrs) None auth) (\<lambda>r. case r of
           Inr d \<Rightarrow>
             ibind (st ms_b) (\<lambda>b.
             ibind (blob E) (\<lambda>bl.
             ibind (accept E (derive_vmk (e_crypto E) (env_tpm (e_crypto E) b d) (ssalt sl) bl ph (wrapped_vmk sl))) (\<lambda>ok.
             if ok then ibind (clear_tpm_broken E) (\<lambda>_. ret (Some RTpm)) else ret None)))
         | Inl e \<Rightarrow> ibind (tpm_failed E (tpm_fail_class e)) (\<lambda>_. ret None))
     | _ \<Rightarrow> ret None)"

text \<open>The rungs one after the other: a result, or the next.\<close>

definition or_else :: "('s, rung option) mm \<Rightarrow> ('s, rung option) mm \<Rightarrow> ('s, rung option) mm" where
  "or_else a b = ibind a (\<lambda>r. case r of None \<Rightarrow> b | Some rg \<Rightarrow> ret (Some rg))"

definition try_setup :: "'s env \<Rightarrow> bytes \<Rightarrow> bool \<Rightarrow> config option \<Rightarrow> seal option list \<Rightarrow> ('s, rung option) mm" where
  "try_setup E user include_tpm cfg parsed =
    ibind (st (\<lambda>s. if include_tpm \<and> setup_usable cfg parsed s then (ms_s s, ms_ini_hash s) else (None, None))) (\<lambda>x.
    case (seal_of parsed SetupTpm, x) of
      (Some sl, Some sv, Some h) \<Rightarrow>
        ibind (blob E) (\<lambda>bl.
        accept_as E RSetupTpm (derive_vmk (e_crypto E) (env_setup (e_crypto E) sv h) (ssalt sl) bl
          (stretch E user (ssalt sl)) (wrapped_vmk sl)))
    | _ \<Rightarrow> ret None)"

definition try_passphrase :: "'s env \<Rightarrow> bytes \<Rightarrow> config option \<Rightarrow> seal option list \<Rightarrow> ('s, rung option) mm" where
  "try_passphrase E user cfg parsed =
    ibind (st (passphrase_usable cfg parsed)) (\<lambda>u.
    case (if u then seal_of parsed Passphrase else None) of None \<Rightarrow> ret None | Some sl \<Rightarrow>
    ibind (blob E) (\<lambda>bl.
    accept_as E RPassphrase (derive_vmk (e_crypto E) (env_passphrase (e_crypto E)) (ssalt sl) bl
      (stretch E user (ssalt sl)) (wrapped_vmk sl))))"

definition try_bootstrap :: "'s env \<Rightarrow> bytes \<Rightarrow> bool \<Rightarrow> ('s, rung option) mm" where
  "try_bootstrap E user include_tpm =
    ibind (st ms_bootstrap) (\<lambda>bs.
    case (if include_tpm then bs else None) of None \<Rightarrow> ret None | Some bs \<Rightarrow>
    accept_as E RBootstrap (xor32 (bootstrap_key (e_crypto E) (stretch E user (bs_salt bs)) (bs_salt bs)) (bs_wrapped bs)))"

definition try_volume_password :: "'s env \<Rightarrow> bytes \<Rightarrow> ('s, rung option) mm" where
  "try_volume_password E user =
    ibind (vol_bitlocker_password E user) (\<lambda>r.
    ibind (try' id r) (\<lambda>v. case v of None \<Rightarrow> ret None | Some vmk \<Rightarrow> accept_as E RBitLockerPassword vmk))"

definition try_tpm_last :: "'s env \<Rightarrow> bytes \<Rightarrow> bool \<Rightarrow> config option \<Rightarrow> seal option list \<Rightarrow> ('s, rung option) mm" where
  "try_tpm_last E user include_tpm cfg parsed =
    ibind (st (tpm_usable cfg parsed)) (\<lambda>u.
    case (if include_tpm \<and> u then seal_of parsed Tpm else None) of None \<Rightarrow> ret None | Some sl \<Rightarrow> try_tpm E user sl)"

definition try_password_hash ::
  "'s env \<Rightarrow> bytes \<Rightarrow> bool \<Rightarrow> config option \<Rightarrow> seal option list \<Rightarrow> ('s, rung option) mm" where
  "try_password_hash E user include_tpm cfg parsed =
    or_else (try_setup E user include_tpm cfg parsed)
    (or_else (try_passphrase E user cfg parsed)
    (or_else (try_bootstrap E user include_tpm)
    (or_else (try_volume_password E user)
    (try_tpm_last E user include_tpm cfg parsed))))"

definition try_password ::
  "'s env \<Rightarrow> bytes \<Rightarrow> bool \<Rightarrow> config option \<Rightarrow> seal option list \<Rightarrow> ('s, rung option) mm" where
  "try_password E pw include_tpm cfg parsed =
    (case from_utf8 pw of None \<Rightarrow> ret None | Some pw \<Rightarrow>
     let user = user_password_hash (e_crypto E) pw in
     ibind (try_password_hash E user include_tpm cfg parsed) (\<lambda>r.
     if r \<noteq> None then ibind (set_st (\<lambda>s. s\<lparr>ms_user_hash := Some user\<rparr>)) (\<lambda>_. ret r) else ret r))"

definition unlock_menu_of :: "bool \<Rightarrow> config option \<Rightarrow> seal option list \<Rightarrow> mstate \<Rightarrow> unlock_menu" where
  "unlock_menu_of volume_password cfg parsed s =
    (let tpm_row = tpm_usable cfg parsed s;
         free_pw = setup_usable cfg parsed s \<or> passphrase_usable cfg parsed s \<or> ms_bootstrap s \<noteq> None
           \<or> volume_password in
     \<lparr>um_password_or_pin = (tpm_row \<or> free_pw), um_recovery_passphrase = passphrase_usable cfg parsed s,
      um_recovery_key = True,
      um_tpm = (if tpm_row then Inr (ms_tpm_attempts s)
        else Inl (case ms_tpm_grey s of Some g \<Rightarrow> g | None \<Rightarrow> Unavailable)),
      um_unattested = (ms_flags s AND CONFIG_UNVERIFIED \<noteq> 0), um_first_boot = (ms_mode s = FirstBoot)\<rparr>)"

text \<open>The row the user chose, or nothing when the menu is to be shown again.\<close>

definition choose_row :: "'s env \<Rightarrow> unlock_menu \<Rightarrow> input \<Rightarrow> ('s, row option) mm" where
  "choose_row E menu i =
    ibind (st ms_mode) (\<lambda>md.
    if i = InSelect PasswordOrPin \<and> um_password_or_pin menu then ret (Some PasswordOrPin)
    else if i = InSelect RecoveryPassphrase \<and> um_recovery_passphrase menu then ret (Some RecoveryPassphrase)
    else if i = InSelect RecoveryKeyRow then ret (Some RecoveryKeyRow)
    else if i = InStartWindows then leave_to_windows E
    else if i = InRecover \<and> md = Normal then ibind (enter_recovery E Voluntary) (\<lambda>_. ret None)
    else
      ibind (prompt E ScCannotUnlock) (\<lambda>i.
      if i = InSelect RecoveryKeyRow then ret (Some RecoveryKeyRow)
      else if i = InStartWindows \<or> i = InContinue then leave_to_windows E
      else fail BUserAbort))"

text \<open>The secret typed for a row; the buffer is wiped once it has been read.\<close>

definition enter_secret :: "'s env \<Rightarrow> row \<Rightarrow> bool \<Rightarrow> ('s, bytes option) mm" where
  "enter_secret E rw unattested =
    ibind (buf bf_secret) (\<lambda>b.
    ibind (prompt_buf E (ScEnterSecret rw unattested) b) (\<lambda>(i, b').
    case (case i of InSecret n \<Rightarrow> if n \<le> length b' then Some n else None | _ \<Rightarrow> None) of
      None \<Rightarrow> ibind (set_buf (\<lambda>x. x\<lparr>bf_secret := b'\<rparr>)) (\<lambda>_. ret None)
    | Some n \<Rightarrow> ibind (set_buf (\<lambda>x. x\<lparr>bf_secret := zeros b'\<rparr>)) (\<lambda>_. ret (Some (take n b')))))"

definition try_row :: "'s env \<Rightarrow> row \<Rightarrow> bytes \<Rightarrow> config option \<Rightarrow> seal option list \<Rightarrow> ('s, rung option) mm" where
  "try_row E rw pw cfg parsed = (case rw of
      RecoveryKeyRow \<Rightarrow> try_recovery_key E pw
    | PasswordOrPin \<Rightarrow> try_password E pw True cfg parsed
    | RecoveryPassphrase \<Rightarrow> try_password E pw False cfg parsed)"

fun unlock_loop :: "nat \<Rightarrow> 's env \<Rightarrow> config option \<Rightarrow> seal option list \<Rightarrow> ('s, rung) mm" where
  "unlock_loop 0 E cfg parsed = lift (Err OutOfFuel)"
| "unlock_loop (Suc fuel) E cfg0 parsed =
    ibind (st ms_mode) (\<lambda>md.
    let cfg = (if md = Normal then cfg0 else None) in
    ibind (peek (\<lambda>m. unlock_menu_of (v_has_bitlocker_password (e_vol E) (m_world m)) cfg parsed (m_st m))) (\<lambda>menu.
    ibind (prompt E (ScUnlock menu)) (\<lambda>i.
    ibind (choose_row E menu i) (\<lambda>rw. case rw of None \<Rightarrow> unlock_loop fuel E cfg0 parsed | Some rw \<Rightarrow>
    ibind (enter_secret E rw (um_unattested menu)) (\<lambda>pw. case pw of None \<Rightarrow> unlock_loop fuel E cfg0 parsed | Some pw \<Rightarrow>
    ibind (try_row E rw pw cfg parsed) (\<lambda>got. case got of Some rg \<Rightarrow> ret rg | None \<Rightarrow>
    ibind (st ms_tpm_grey) (\<lambda>g.
    ibind (prompt E (if g = Some Locked then ScTpmLocked else ScIncorrect)) (\<lambda>_.
    unlock_loop fuel E cfg0 parsed))))))))"

definition query_lockout :: "'s env \<Rightarrow> config option \<Rightarrow> seal option list \<Rightarrow> ('s, unit) mm" where
  "query_lockout E cfg parsed =
    ibind (st (tpm_usable cfg parsed)) (\<lambda>u. if \<not> u then ret () else
    ibind (tpm_lockout E) (\<lambda>r. case r of
      Inl _ \<Rightarrow> ret ()
    | Inr l \<Rightarrow> if lk_in_lockout l then set_st (\<lambda>s. s\<lparr>ms_tpm_grey := Some Locked\<rparr>)
        else set_st (\<lambda>s. s\<lparr>ms_tpm_attempts := Some (attempts_left l)\<rparr>)))"

definition try_clear_key :: "'s env \<Rightarrow> ('s, rung option) mm" where
  "try_clear_key E =
    ibind (vol_clear_key E) (\<lambda>r.
    ibind (try' id r) (\<lambda>v. case v of None \<Rightarrow> ret None | Some vmk \<Rightarrow> accept_as E RClearKey vmk))"

definition unlock :: "nat \<Rightarrow> 's env \<Rightarrow> config option \<Rightarrow> seal option list \<Rightarrow> ('s, rung) mm" where
  "unlock fuel E cfg parsed =
    ibind (or_else (try_pin_bypass E cfg parsed) (try_clear_key E)) (\<lambda>r. case r of Some rg \<Rightarrow> ret rg | None \<Rightarrow>
    ibind (query_lockout E cfg parsed) (\<lambda>_.
    unlock_loop fuel E cfg parsed))"

section \<open>Stage 4\<close>

text \<open>The errors a caller handles itself; leaving the machine is not one of them.\<close>

definition catch :: "('s, 'a) mm \<Rightarrow> ('s, boot_error + 'a) mm" where
  "catch f m = (case f m of
     (Ok x, m') \<Rightarrow> (Ok (Inr x), m')
   | (Err e, m') \<Rightarrow> ((case e of Failed b \<Rightarrow> Ok (Inl b) | _ \<Rightarrow> Err e), m')
   | (Panic, m') \<Rightarrow> (Panic, m'))"

record provision_rec =
  po_ok :: bool
  po_salt :: bytes
  po_wrapped :: bytes

definition provision_new :: provision_rec where
  "provision_new = \<lparr>po_ok = False, po_salt = replicate SALT_LEN 0, po_wrapped = replicate VMK_LEN 0\<rparr>"

definition authored_config :: "guid \<Rightarrow> located \<Rightarrow> config" where
  "authored_config v l =
    \<lparr>cfg_default = 0,
     cfg_entries = [\<lparr>ce_name = located_name l, ce_volume = v, ce_root = root_path l,
       ce_efi = (case efi_file_path l of Some f \<Rightarrow> EfiFile f
         | None \<Rightarrow> EfiDisk (case efi_disk_path l of Some d \<Rightarrow> d | None \<Rightarrow> []) DEFAULT_EFI)\<rparr>],
     cfg_tpm = True, cfg_setup_tpm = True, cfg_passphrase = False, cfg_ui = UI_DEFAULT\<rparr>"

text \<open>The seal of a fresh \<open>D\<close>, once the configuration is authored.\<close>

definition provision_seal :: "'s env \<Rightarrow> bytes \<Rightarrow> bytes \<Rightarrow> bytes \<Rightarrow> ('s, provision_rec) mm" where
  "provision_seal E user vmk ini =
    (let C = e_crypto E; pcr12 = pcr12_after_load_taint C ini in
     ibind (st (\<lambda>s. policy_digest C PCR_MASK_V1 (ms_pcrs s @ [pcr12]) None)) (\<lambda>policy.
     ibind (random E (replicate PROVISION_RANDOM_LEN 0)) (\<lambda>(r, rnd). case r of Inl _ \<Rightarrow> ret provision_new | Inr _ \<Rightarrow>
     let d = take PROVISION_D_LEN rnd; salt = drop PROVISION_D_LEN rnd; ph = stretch E user salt in
     ibind (buf bf_created) (\<lambda>c.
     ibind (tpm_create_sealed E (tpm_auth C ph) d policy c) (\<lambda>(r, c').
     ibind (set_buf (\<lambda>x. x\<lparr>bf_created := c'\<rparr>)) (\<lambda>_.
     ibind (catch (blob E)) (\<lambda>bl.
     ibind (st ms_b) (\<lambda>b. case (r, bl) of
       (Inr _, Inr bl) \<Rightarrow> ret \<lparr>po_ok = True, po_salt = salt,
         po_wrapped = xor32 (final_key C (root_gate C (env_tpm C b d) salt bl) ph) vmk\<rparr>
     | _ \<Rightarrow> ret (provision_new\<lparr>po_salt := salt\<rparr>)))))))))"

definition provision :: "'s env \<Rightarrow> partition \<Rightarrow> located \<Rightarrow> ('s, nat option \<times> provision_rec) mm" where
  \<comment> \<open>when the configuration does not fit, what was written of it is not looked at again\<close>
  "provision E part l =
    ibind (buf bf_gen_ini) (\<lambda>g.
    ibind (attempt (config_write (authored_config (pt_guid part) l) g)) (\<lambda>w. case w of
      None \<Rightarrow> ret (None, provision_new)
    | Some (n, g') \<Rightarrow>
        ibind (set_buf (\<lambda>x. x\<lparr>bf_gen_ini := g'\<rparr>)) (\<lambda>_.
        ibind (st (\<lambda>s. if ms_tpm s \<and> ms_pcr12_was_zero s then (ms_user_hash s, ms_vmk s) else (None, None))) (\<lambda>k.
        case k of
          (Some user, Some vmk) \<Rightarrow> ibind (provision_seal E user vmk (upto g' n)) (\<lambda>pv. ret (Some n, pv))
        | _ \<Rightarrow> ret (Some n, provision_new)))))"

definition handoff_provision :: "provision_rec \<Rightarrow> created_object \<Rightarrow> seal option" where
  "handoff_provision pv c = (if po_ok pv then Some \<lparr>skind = Tpm, sdeadline = None, spcrs = Some PCRS_V1,
     wrapped_vmk = po_wrapped pv, ssalt = po_salt pv,
     sealed_obj = Some \<lparr>s_public = created_public c, s_private = created_private c\<rparr>\<rparr> else None)"

definition is_other :: "image_id option \<Rightarrow> file_id \<Rightarrow> bool" where
  "is_other root f = (case root of None \<Rightarrow> True | Some r \<Rightarrow> im_record r \<noteq> fi_record f)"

definition opt_filter :: "('a \<Rightarrow> bool) \<Rightarrow> 'a option \<Rightarrow> 'a option" where
  "opt_filter P x = (case x of Some y \<Rightarrow> if P y then Some y else None | None \<Rightarrow> None)"

text \<open>The record the machine hands over, from its state, what the volume holds and what was located.\<close>

definition handoff_of ::
  "partition \<Rightarrow> rung \<Rightarrow> located \<Rightarrow> bytes option \<Rightarrow> created_object \<Rightarrow> provision_rec \<Rightarrow> (nat \<times> bytes) option
    \<Rightarrow> fve_layout option \<Rightarrow> mstate \<Rightarrow> handoff" where
  "handoff_of part rg l cfgb c pv fk lay s =
    (let per = pt_block_size part div H_SECTOR;
         name = located_name l;
         idn = (\<lambda>f. \<lparr>im_name = name, im_record = fi_record f, im_seq = fi_seq f\<rparr>);
         root = map_option idn (lc_root l) in
     \<lparr>h_vol = \<lparr>hv_partition = pt_guid part, hv_first_lba = saturating_mul (pt_first_lba part) per,
        hv_sectors = saturating_mul (pt_sectors part) per\<rparr>,
      h_vmk = ms_vmk s,
      h_fvek = map_option (\<lambda>(cipher, key). \<lparr>fk_cipher = cipher, fk_key = key\<rparr>) fk,
      h_fve_layout = lay,
      h_b = ms_b s,
      h_pcr = \<lparr>hp_mask = RECORDED_PCRS, hp_values = concat (ms_pcrs s)\<rparr>,
      h_config = cfgb,
      h_root = root,
      h_efi_disk = map_option idn (opt_filter (is_other root)
        (opt_filter (\<lambda>_. root \<noteq> None \<and> lc_efi_file l = None) (lc_efi_disk l))),
      h_efi_file = map_option idn (opt_filter (is_other root) (lc_efi_file l)),
      h_state = ms_flags s,
      h_rung = rg,
      h_provision = handoff_provision pv c\<rparr>)"

definition build_handoff ::
  "'s env \<Rightarrow> partition \<Rightarrow> rung \<Rightarrow> located \<Rightarrow> bytes option \<Rightarrow> provision_rec \<Rightarrow> ('s, nat) mm" where
  "build_handoff E part rg l cfgb pv =
    ibind (peek (\<lambda>m. handoff_of part rg l cfgb (bf_created (m_bufs m)) pv
      (v_fvek (e_vol E) (m_world m)) (v_layout (e_vol E) (m_world m)) (m_st m))) (\<lambda>h.
    ibind (buf bf_handoff) (\<lambda>out.
    ibind (lift (map_err (\<lambda>e. Failed (BHandoff e)) (handoff_encode h out))) (\<lambda>(n, out').
    ibind (set_buf (\<lambda>x. x\<lparr>bf_handoff := out'\<rparr>)) (\<lambda>_. ret n))))"

section \<open>The stages in order\<close>

text \<open>Opening the volume and gaining its key, stage 3.\<close>

definition gain :: "nat \<Rightarrow> 's env \<Rightarrow> partition \<Rightarrow> volume_kind \<Rightarrow> bool \<Rightarrow> config option \<Rightarrow> seal option list
    \<Rightarrow> ('s, rung) mm" where
  "gain fuel E part kind tpm_seal_present cfg parsed =
    ibind (vol_open E part kind) (\<lambda>r.
    ibind (try' id r) (\<lambda>_. case kind of
      VkBitLocker \<Rightarrow> unlock fuel E cfg parsed
    | VkNtfs \<Rightarrow>
        if tpm_seal_present then ibind (prompt E (ScNotice NSealOverPlaintext)) (\<lambda>_. fail BSealOverPlaintext)
        else ret RUnencrypted
    | VkOther \<Rightarrow> fail BNotAVolume))"

definition is_recovery :: "boot_mode \<Rightarrow> bool" where
  "is_recovery md = (case md of Recovery _ \<Rightarrow> True | _ \<Rightarrow> False)"

text \<open>Stage 4: what to boot.\<close>

definition locate_target :: "nat \<Rightarrow> 's env \<Rightarrow> partition \<Rightarrow> cfg_entry option \<Rightarrow> ('s, located) mm" where
  "locate_target fuel E part entry =
    ibind (st ms_mode) (\<lambda>md.
    ibind (if is_recovery md
      then ibind (choose_target fuel E) (\<lambda>c. ret (Some (chosen_entry c (pt_guid part))))
      else ret entry) (\<lambda>e.
    ibind (vol_locate E e located_new) (\<lambda>(r, l).
    ibind (set_buf (\<lambda>x. x\<lparr>bf_located := l\<rparr>)) (\<lambda>_.
    ibind (try' id r) (\<lambda>_.
    if \<not> bootable l then ibind (prompt E ScNoInstallation) (\<lambda>_. fail BNoVolume) else ret l)))))"

fun degrade_gates :: "'s env \<Rightarrow> located \<Rightarrow> (nat \<times> notice) list \<Rightarrow> ('s, unit) mm" where
  "degrade_gates E l [] = ret ()"
| "degrade_gates E l ((flag, nt) # gs) =
    (if lc_flags l AND flag = 0 then degrade_gates E l gs else
     ibind (prompt E (ScNotice nt)) (\<lambda>i.
     if i = InStartWindows then leave_to_windows E else
     ibind (set_st (\<lambda>s. s\<lparr>ms_flags := ms_flags s OR flag\<rparr>)) (\<lambda>_. degrade_gates E l gs)))"

definition GATES :: "(nat \<times> notice) list" where
  "GATES = [(HIBERNATED, NHibernated), (DIRTY, NDirty)]"

definition delete_setup :: "'s env \<Rightarrow> ('s, unit) mm" where
  "delete_setup E =
    ibind (st ms_s) (\<lambda>sv. if sv = None then ret () else
    ibind (delete_var E VAR_SETUP PAGURO_VENDOR) (\<lambda>_. ret ()))"

definition start_image :: "'s env \<Rightarrow> located \<Rightarrow> ('s, unit) mm" where
  "start_image E l =
    ibind (if lc_efi_file l \<noteq> None
      then ibind (vol_efi_image E) (\<lambda>r. ibind (try' id r) (load_start_image_buffer E))
      else load_start_image E (located_chain l)) (\<lambda>r. case r of
      Inl e \<Rightarrow> ibind (prompt E (ScNotice NStartFailed)) (\<lambda>_. fail (BPlatform e))
    | Inr _ \<Rightarrow> ret ())"

text \<open>Publishing the handoff and starting the image.\<close>

definition hand_over ::
  "'s env \<Rightarrow> partition \<Rightarrow> rung \<Rightarrow> located \<Rightarrow> bytes option \<Rightarrow> provision_rec \<Rightarrow> ('s, outcome) mm" where
  "hand_over E part rg l cfgb pv =
    ibind (build_handoff E part rg l cfgb pv) (\<lambda>n.
    ibind (buf bf_handoff) (\<lambda>b.
    ibind (publish_handoff E (upto b n)) (\<lambda>r.
    ibind (try' BPlatform r) (\<lambda>_.
    ibind (set_buf (\<lambda>x. x\<lparr>bf_handoff := zeros b\<rparr>)) (\<lambda>_.
    ibind (start_image E l) (\<lambda>_. ret (Started rg)))))))"

definition stage4 ::
  "nat \<Rightarrow> 's env \<Rightarrow> bytes \<Rightarrow> partition \<Rightarrow> rung \<Rightarrow> cfg_entry option \<Rightarrow> ('s, outcome) mm" where
  "stage4 fuel E ini part rg entry =
    ibind (locate_target fuel E part entry) (\<lambda>l.
    ibind (degrade_gates E l GATES) (\<lambda>_.
    ibind (st ms_mode) (\<lambda>md.
    ibind (if rg = RBootstrap \<and> md = FirstBoot then provision E part l else ret (None, provision_new)) (\<lambda>(gen_len, pv).
    ibind (delete_setup E) (\<lambda>_.
    ibind (buf bf_gen_ini) (\<lambda>g.
    hand_over E part rg l (case md of Normal \<Rightarrow> Some ini
      | FirstBoot \<Rightarrow> Option.bind gen_len (get_range g 0) | Recovery _ \<Rightarrow> None) pv))))))"

text \<open>Stages 2 and 3, up to the boot taint: the volume, the rung that opened it, and the entry to boot.\<close>

definition target_of :: "mstate \<Rightarrow> cfg_entry option \<Rightarrow> guid option" where
  "target_of s entry = (case ms_mode s of
      Normal \<Rightarrow> map_option ce_volume entry
    | FirstBoot \<Rightarrow> map_option bs_volume (ms_bootstrap s)
    | Recovery _ \<Rightarrow> None)"

definition normal_only :: "'a option \<Rightarrow> ('s, 'a option) mm" where
  "normal_only cfg = ibind (st ms_mode) (\<lambda>md. ret (if md = Normal then cfg else None))"

definition open_volume ::
  "nat \<Rightarrow> 's env \<Rightarrow> config option \<Rightarrow> guid option \<Rightarrow> nat option list \<Rightarrow> partition \<Rightarrow> volume_kind
    \<Rightarrow> ('s, partition \<times> rung \<times> cfg_entry option) mm" where
  "open_volume fuel E cfg target lens part kind =
    ibind (normal_only cfg) (\<lambda>cfg'.
    ibind (if target \<noteq> Some (pt_guid part) then read_seals E (pt_guid part) else ret lens) (\<lambda>lens.
    ibind (buf bf_seals) (\<lambda>bs.
    ibind (parse_seals KIND_ALL bs lens) (\<lambda>parsed.
    ibind (gain fuel E part kind (seal_len_of lens Tpm \<noteq> None) cfg' parsed) (\<lambda>rg.
    ibind (normal_only cfg') (\<lambda>cfg'.
    ibind (cap E) (\<lambda>_.
    ret (part, rg, if cfg' = None then None else Option.bind cfg default_entry))))))))"

definition stage3 ::
  "nat \<Rightarrow> 's env \<Rightarrow> bytes \<Rightarrow> config option \<Rightarrow> ('s, partition \<times> rung \<times> cfg_entry option) mm" where
  "stage3 fuel E ini cfg =
    ibind (st (\<lambda>s. target_of s (Option.bind cfg default_entry))) (\<lambda>target.
    ibind (case target of None \<Rightarrow> ret (replicate SEAL_KINDS None) | Some g \<Rightarrow> read_seals E g) (\<lambda>lens.
    ibind (st ms_mode) (\<lambda>md.
    ibind (if md = Normal then ratchet E ini (seal_len_of lens Tpm \<noteq> None) else ret ()) (\<lambda>_.
    ibind (load_secrets E) (\<lambda>_.
    ibind (select_volume E target) (\<lambda>(part, kind).
    open_volume fuel E cfg target lens part kind))))))"

definition go :: "nat \<Rightarrow> 's env \<Rightarrow> ('s, outcome) mm" where
  "go fuel E =
    ibind (take_bootstrap E) (\<lambda>_.
    ibind (uninstall_requested E) (\<lambda>u.
    if u then ibind (uninstall E) done' else
    ibind (stage1 E) (\<lambda>ini_len.
    ibind (buf bf_ini) (\<lambda>b.
    let ini = (case Option.bind ini_len (get_range b 0) of Some x \<Rightarrow> x | None \<Rightarrow> []) in
    ibind (tpm_present E) (\<lambda>t.
    ibind (set_st (\<lambda>s. s\<lparr>ms_tpm := t\<rparr>)) (\<lambda>_.
    ibind (stage2 E ini) (\<lambda>cfg.
    ibind (stage3 fuel E ini cfg) (\<lambda>(part, rg, entry).
    stage4 fuel E ini part rg entry))))))))"

definition initial_state :: mstate where
  "initial_state = \<lparr>ms_mode = Normal, ms_flags = 0, ms_tpm = False, ms_capped = False,
     ms_pcr12_was_zero = False, ms_ini_hash = None, ms_b = replicate DIGEST_LEN 0, ms_s = None,
     ms_bootstrap = None, ms_pcrs = replicate (length RECORDED_PCR_LIST) (replicate DIGEST_LEN 0),
     ms_vmk = None, ms_user_hash = None, ms_blob_len = None, ms_tpm_grey = None, ms_tpm_attempts = None,
     ms_ui_from_ini = False\<rparr>"

definition halted :: "'s env \<Rightarrow> boot_error \<Rightarrow> ('s, outcome) mm" where
  "halted E e =
    ibind (if e = BNotImplemented then ibind (prompt E (ScNotice NNotImplemented)) (\<lambda>_. ret ())
      else if e = BStage4 then ibind (prompt E (ScNotice NStartFailed)) (\<lambda>_. ret ())
      else ret ()) (\<lambda>_. ret (Halted e))"

definition wipe :: "('s, unit) mm" where
  "wipe = set_buf (\<lambda>x. x\<lparr>bf_secret := zeros (bf_secret x), bf_handoff := zeros (bf_handoff x),
     bf_fvek_blob := zeros (bf_fvek_blob x)\<rparr>)"

definition outcome_of :: "'s env \<Rightarrow> ('s, outcome) mm \<Rightarrow> ('s, outcome) mm" where
  "outcome_of E f m = (case f m of
     (Err (Failed e), m') \<Rightarrow> halted E e m'
   | (Err (Finished o'), m') \<Rightarrow> (Ok o', m')
   | (r, m') \<Rightarrow> (r, m'))"

definition start :: "buffers \<Rightarrow> 's \<Rightarrow> 's mach" where
  "start bufs w = \<lparr>m_st = initial_state, m_bufs = bufs, m_world = w, m_trace = []\<rparr>"

definition run :: "nat \<Rightarrow> 's env \<Rightarrow> buffers \<Rightarrow> 's \<Rightarrow> (exit, outcome) res \<times> 's mach" where
  "run fuel E bufs w =
    ibind (outcome_of E (go fuel E)) (\<lambda>o'. ibind wipe (\<lambda>_. ret o')) (start bufs w)"

end
