(* ===== verification/MachineCorrect.thy ===== *)
theory MachineCorrect
  imports Machine
begin

text \<open>
  What the stage machine does, for every platform, volume and TPM client: rules that each call obeys,
  given the calls made before it, and the ways a boot can end.

  The rules are one predicate \<open>allowed\<close> on a call and the trace before it.  Every stage keeps an
  invariant that connects the machine's state to the trace; the locale \<open>stage\<close> is what the methods
  rely on of such an invariant, and it is interpreted on the invariants before the ratchet, while
  unlocking and after the boot taint.
\<close>

section \<open>The rules\<close>

text \<open>Every call of a trace satisfies \<open>A\<close> with the calls before it.\<close>

primrec policed :: "(event list \<Rightarrow> event \<Rightarrow> bool) \<Rightarrow> event list \<Rightarrow> bool" where
  "policed A [] = True"
| "policed A (e # tr) = (A tr e \<and> policed A tr)"

lemma policed_mono: "policed A tr \<Longrightarrow> (\<And>tr e. A tr e \<Longrightarrow> B tr e) \<Longrightarrow> policed B tr"
  by (induction tr) auto

definition uninstall_asked :: "event list \<Rightarrow> bool" where
  "uninstall_asked tr \<longleftrightarrow> (\<exists>b. EGetVar VAR_UNINSTALL PAGURO_VENDOR (Inr (Some UNINSTALL_VAR_LEN)) b \<in> set tr)"

definition boot_taint :: event where
  "boot_taint = EExtend PCR12 BOOT_TAINT (PCR12_EVENT_TAG @ BOOT_TAINT) (Inr ())"

text \<open>PCR 12 no longer has a value that releases a key, or there is no TPM.\<close>

definition tainted :: "event list \<Rightarrow> bool" where
  "tainted tr \<longleftrightarrow> ETpmPresent False \<in> set tr \<or> boot_taint \<in> set tr"

text \<open>
  What is known of PCR 12 from a trace: nothing until it has been read as zero, then the data
  extended into it since, oldest first; nothing again after an extension that failed.
\<close>

fun pcr12_known :: "event list \<Rightarrow> bytes list option" where
  "pcr12_known [] = None"
| "pcr12_known (EPcrRead msk (Inr v) # tr) =
    (if pcr12_known tr = None \<and> msk = push_bit PCR12 1 \<and> pcr_get v PCR12 = Some (replicate DIGEST_LEN 0)
     then Some [] else pcr12_known tr)"
| "pcr12_known (EExtend p d ev r # tr) =
    (if p = PCR12 then (if isl r then None else map_option (\<lambda>ds. ds @ [d]) (pcr12_known tr)) else pcr12_known tr)"
| "pcr12_known (_ # tr) = pcr12_known tr"

text \<open>The configuration was read from the system partition; its hash was checked under Secure Boot.\<close>

definition config_read :: "event list \<Rightarrow> bytes \<Rightarrow> bool" where
  "config_read tr ini \<longleftrightarrow> (\<exists>n b. EReadFile F_INI (Inr (Some n)) b \<in> set tr \<and> ini = upto b n)"

definition config_verified :: "crypto \<Rightarrow> event list \<Rightarrow> bytes \<Rightarrow> bool" where
  "config_verified C tr ini \<longleftrightarrow> config_read tr ini \<and> ESecureBoot True \<in> set tr
     \<and> (\<exists>stored. EGetVar VAR_CONFIG_HASH PAGURO_VENDOR (Inr (Some SECRET_VAR_LEN)) stored \<in> set tr
          \<and> upto stored SECRET_VAR_LEN = sha256 C ini)"

definition unseal_allowed :: "crypto \<Rightarrow> event list \<Rightarrow> bool" where
  "unseal_allowed C tr \<longleftrightarrow>
    (\<exists>ini. (pcr12_known tr = Some [ini] \<or> pcr12_known tr = Some [BOOT_TAINT])
       \<and> (config_verified C tr ini \<or> config_read tr ini \<and> ESecureBoot False \<in> set tr))"

definition windows_entry :: "event list \<Rightarrow> nat \<Rightarrow> bool" where
  "windows_entry tr i \<longleftrightarrow> (\<exists>b n lo. EGetVar (ascii_text (boot_var_name i)) EFI_GLOBAL_VARIABLE (Inr (Some n)) b \<in> set tr
     \<and> parse_load_option (upto b n) = Ok lo \<and> is_windows_boot_manager lo)"

definition one_shot_entry :: "event list \<Rightarrow> str \<Rightarrow> bool" where
  "one_shot_entry tr name \<longleftrightarrow> (\<exists>i b n lo r order. name = ascii_text (boot_var_name i)
     \<and> EGetVar name EFI_GLOBAL_VARIABLE (Inr (Some n)) b \<in> set tr
     \<and> parse_load_option (upto b n) = Ok lo \<and> is_paguro lo
     \<and> EGetVar VAR_BOOT_ORDER EFI_GLOBAL_VARIABLE (Inr r) order \<in> set tr
     \<and> (case r of None \<Rightarrow> True | Some k \<Rightarrow> le_bytes 2 i \<notin> set (chunks_exact BOOT_OPTION_LEN (upto order k))))"

definition handed_over :: "crypto \<Rightarrow> event list \<Rightarrow> handoff \<Rightarrow> bool" where
  "handed_over C tr h \<longleftrightarrow>
     (case h_vmk h of None \<Rightarrow> h_rung h = RUnencrypted | Some k \<Rightarrow> ETryVmk k (Inr True) \<in> set tr)
   \<and> (h_state h AND CONFIG_UNVERIFIED \<noteq> 0
      \<or> (case h_config h of None \<Rightarrow> False | Some ini \<Rightarrow> config_verified C tr ini))
   \<and> (case h_provision h of None \<Rightarrow> True | Some _ \<Rightarrow>
       (\<exists>ini pcrs. h_config h = Some ini \<and> hp_values (h_pcr h) = concat pcrs
          \<and> ECreateSealed (policy_digest C PCR_MASK_V1 (pcrs @ [pcr12_after_load_taint C ini]) None) \<in> set tr))"

definition publish_allowed :: "crypto \<Rightarrow> event list \<Rightarrow> bytes \<Rightarrow> bool" where
  "publish_allowed C tr b \<longleftrightarrow> (\<exists>h out n out'. handoff_encode h out = Ok (n, out') \<and> b = upto out' n \<and> handed_over C tr h)"

definition set_allowed :: "event list \<Rightarrow> str \<Rightarrow> guid \<Rightarrow> nat \<Rightarrow> bytes \<Rightarrow> bool" where
  "set_allowed tr name vendor attrs d \<longleftrightarrow>
     vendor = PAGURO_VENDOR \<and> \<not> uninstall_asked tr
       \<and> (name = VAR_B \<and> attrs = NV_BS \<or> name = VAR_TPM_BROKEN \<and> d = TPM_BROKEN_VALUE)
   \<or> vendor = EFI_GLOBAL_VARIABLE \<and> name = VAR_BOOT_NEXT \<and> (\<exists>i. d = le_bytes 2 i \<and> windows_entry tr i)"

definition delete_allowed :: "event list \<Rightarrow> str \<Rightarrow> guid \<Rightarrow> bool" where
  "delete_allowed tr name vendor \<longleftrightarrow>
     vendor = PAGURO_VENDOR \<and> name \<in> set UNINSTALL_VARS
   \<or> vendor = EFI_GLOBAL_VARIABLE \<and> \<not> uninstall_asked tr \<and> one_shot_entry tr name"

fun volume_event :: "event \<Rightarrow> bool" where
  "volume_event (ELocate _ _) = True"
| "volume_event (EEfiImage _) = True"
| "volume_event (EListDir _) = True"
| "volume_event (EListEfiDir _ _) = True"
| "volume_event (ELoadPath _ _) = True"
| "volume_event (ELoadBuffer _ _) = True"
| "volume_event (ECreateSealed _) = True"
| "volume_event _ = False"

fun allowed :: "crypto \<Rightarrow> event list \<Rightarrow> event \<Rightarrow> bool" where
  "allowed C tr (EGetVar _ _ _ _) = True"
| "allowed C tr (EPrompt _ _) = True"
| "allowed C tr (ESetVar name vendor attrs d _) = set_allowed tr name vendor attrs d"
| "allowed C tr (EDelVar name vendor _) = delete_allowed tr name vendor"
| "allowed C tr EReset = (\<exists>d. ESetVar VAR_BOOT_NEXT EFI_GLOBAL_VARIABLE NV_BS_RT d (Inr ()) \<in> set tr)"
| "allowed C tr (EUnseal _ _ _ _ _) = (\<not> uninstall_asked tr \<and> unseal_allowed C tr)"
| "allowed C tr (EOpen p _ _) = (\<not> uninstall_asked tr \<and> on_disk tr p)"
| "allowed C tr (EPublish b _) = (\<not> uninstall_asked tr \<and> tainted tr \<and> publish_allowed C tr b)"
| "allowed C tr e = (\<not> uninstall_asked tr \<and> (volume_event e \<longrightarrow> tainted tr))"

section \<open>Traces\<close>

lemma mono_trace:
  assumes "set tr \<subseteq> set tr'"
  shows "tainted tr \<Longrightarrow> tainted tr'" "config_read tr ini \<Longrightarrow> config_read tr' ini"
    "config_verified C tr ini \<Longrightarrow> config_verified C tr' ini" "windows_entry tr i \<Longrightarrow> windows_entry tr' i"
  using assms unfolding tainted_def config_read_def config_verified_def windows_entry_def by blast+

lemmas mono_Cons [simp] = mono_trace [OF set_subset_Cons]

text \<open>Calls that change nothing of what is known, other than by being recorded.\<close>

fun neutral :: "event \<Rightarrow> bool" where
  "neutral (EExtend _ _ _ _) = False"
| "neutral (EGetVar name vendor _ _) = (name \<noteq> VAR_UNINSTALL \<or> vendor \<noteq> PAGURO_VENDOR)"
| "neutral _ = True"

lemma neutral_uninstall: "neutral e \<Longrightarrow> uninstall_asked (e # tr) = uninstall_asked tr"
  by (cases e) (auto simp: uninstall_asked_def)

lemma neutral_pcr12: "neutral e \<Longrightarrow> pcr12_known tr = Some ds \<Longrightarrow> pcr12_known (e # tr) = Some ds"
  by (induction "e # tr" rule: pcr12_known.induct) auto

lemma neutral_unknown:
  "neutral e \<Longrightarrow> pcr12_known tr = None \<Longrightarrow> pcr12_known (e # tr) = None \<or> pcr12_known (e # tr) = Some []"
  by (induction "e # tr" rule: pcr12_known.induct) auto

text \<open>
  \<open>safe base s\<close>: the trace of \<open>s\<close> obeys the rules, and continues \<open>base\<close>.
\<close>

definition safe :: "crypto \<Rightarrow> event list \<Rightarrow> 's mach \<Rightarrow> bool" where
  "safe C base s \<longleftrightarrow> policed (allowed C) (m_trace s) \<and> (\<exists>es. m_trace s = es @ base)"

lemma safe_step [simp]:
  "safe C base s \<Longrightarrow> allowed C (m_trace s) e \<Longrightarrow> safe C base (s\<lparr>m_world := w, m_trace := e # m_trace s\<rparr>)"
  by (auto simp: safe_def)

lemma safe_same [simp]:
  "safe C base (s\<lparr>m_bufs := b\<rparr>) = safe C base s" "safe C base (s\<lparr>m_st := x\<rparr>) = safe C base s"
  by (simp_all add: safe_def)

section \<open>Leaving for Windows\<close>

lemma parse_load_option_Ok: "attempt (parse_load_option v) s = (Ok (Some lo), s') \<Longrightarrow> parse_load_option v = Ok lo"
  by (auto simp: attempt_def ret_def lift_def split: res.splits)

lemma wpx_load_option:
  "(\<And>lo. parse_load_option v = Ok lo \<Longrightarrow> Q (Some lo) s) \<Longrightarrow> Q None s \<Longrightarrow> wpx T (attempt (parse_load_option v)) s Q"
  by (intro wpx_attemptI wp_conseq [OF parse_load_option_wp])

lemma windows_loop_safe:
  "safe C base s \<Longrightarrow> wpx (safe C base) (windows_loop E is) s
     (\<lambda>x s'. safe C base s' \<and> (case x of None \<Rightarrow> True | Some i \<Rightarrow> windows_entry (m_trace s') i))"
proof (induction "is" arbitrary: s)
  case (Cons i "is")
  show ?case
    unfolding windows_loop.simps get_var_buf_def get_var_def
    by (intro vcg wpx_callI wpx_load_option) (use Cons in \<open>auto simp: mwp windows_entry_def\<close>)
qed (simp add: mwp)

lemma boot_next_allowed:
  "windows_entry tr i \<Longrightarrow> set_allowed tr VAR_BOOT_NEXT EFI_GLOBAL_VARIABLE a (le_bytes 2 i)"
  unfolding set_allowed_def by blast

lemma start_windows_safe:
  "safe C base s \<Longrightarrow> wpx (safe C base) (start_windows E) s (\<lambda>_. safe C base)"
  unfolding start_windows_def get_var_def set_var_def reset_def
  by (intro vcg wpx_callI wpx_conseq [OF windows_loop_safe])
    (auto simp: boot_next_allowed safe_def)

section \<open>Stages\<close>

text \<open>The part of the machine's state that the invariants speak of.\<close>

definition same_core :: "mstate \<Rightarrow> mstate \<Rightarrow> bool" where
  "same_core x y \<longleftrightarrow> ms_mode x = ms_mode y \<and> ms_flags x = ms_flags y \<and> ms_tpm x = ms_tpm y
     \<and> ms_capped x = ms_capped y \<and> ms_vmk x = ms_vmk y"

text \<open>The names the machine reads are not the uninstall request's.\<close>

lemma not_uninstall [simp]:
  "VAR_B \<noteq> VAR_UNINSTALL" "VAR_SETUP \<noteq> VAR_UNINSTALL" "VAR_CONFIG_HASH \<noteq> VAR_UNINSTALL"
  "VAR_TPM_BROKEN \<noteq> VAR_UNINSTALL" "BST_VAR_NAME \<noteq> VAR_UNINSTALL" "EFI_GLOBAL_VARIABLE \<noteq> PAGURO_VENDOR"
  by code_simp+

lemmas not_uninstall_sym [simp] = not_uninstall [symmetric]

lemma vendor_allowed [simp]:
  "\<not> uninstall_asked tr \<Longrightarrow> set_allowed tr VAR_B PAGURO_VENDOR NV_BS d"
  "\<not> uninstall_asked tr \<Longrightarrow> set_allowed tr VAR_TPM_BROKEN PAGURO_VENDOR a TPM_BROKEN_VALUE"
  "delete_allowed tr VAR_SETUP PAGURO_VENDOR" "delete_allowed tr VAR_TPM_BROKEN PAGURO_VENDOR"
  "delete_allowed tr BST_VAR_NAME PAGURO_VENDOR"
  by (simp_all add: set_allowed_def delete_allowed_def UNINSTALL_VARS_def)

lemma wpx_peek [mwp]: "wpx T (peek f) s Q = Q (f s) s"
  by (simp add: peek_def wpx_def)

text \<open>
  An invariant \<open>J\<close> of a stage: it implies the rules, and the calls and updates that all stages make
  keep it.  A computation keeps \<open>J\<close> when it does so whenever it returns, and obeys the rules when it
  leaves the machine; it never panics.
\<close>

named_theorems keep

locale stage =
  fixes C :: crypto and base :: "event list" and J :: "'s mach \<Rightarrow> bool"
  assumes J_safe: "J s \<Longrightarrow> safe C base s"
    and J_uninstall: "J s \<Longrightarrow> \<not> uninstall_asked (m_trace s)"
    and J_step: "J s \<Longrightarrow> neutral e \<Longrightarrow> allowed C (m_trace s) e \<Longrightarrow> J (s\<lparr>m_world := w, m_trace := e # m_trace s\<rparr>)"
    and J_world: "J s \<Longrightarrow> J (s\<lparr>m_bufs := b, m_world := w\<rparr>)"
    and J_core: "J s \<Longrightarrow> same_core (m_st s) x \<Longrightarrow> J (s\<lparr>m_st := x\<rparr>)"
begin

lemma J_bufs: "J s \<Longrightarrow> J (s\<lparr>m_bufs := b\<rparr>)"
  using J_world [where b = b and w = "m_world s"] by fastforce

lemma J_steps:
  "J s \<Longrightarrow> neutral e \<Longrightarrow> allowed C (m_trace s) e \<Longrightarrow> neutral e' \<Longrightarrow> allowed C (e # m_trace s) e'
    \<Longrightarrow> J (s\<lparr>m_world := w, m_trace := e' # e # m_trace s\<rparr>)"
  using J_step [OF J_step] by fastforce

definition keeps :: "('s, 'a) mm \<Rightarrow> bool" where
  "keeps m \<longleftrightarrow> (\<forall>s. J s \<longrightarrow> wpx (safe C base) m s (\<lambda>_. J))"

lemma keepsD: "keeps m \<Longrightarrow> J s \<Longrightarrow> (\<And>x s'. J s' \<Longrightarrow> Q x s') \<Longrightarrow> wpx (safe C base) m s Q"
  by (auto simp: keeps_def elim!: wpx_conseq)

lemma keepsI: "(\<And>s. J s \<Longrightarrow> wpx (safe C base) m s (\<lambda>_. J)) \<Longrightarrow> keeps m"
  by (simp add: keeps_def)

lemma keeps_prims [keep]:
  "keeps (ret x)" "keeps (fail e)" "keeps (done' o')" "keeps (try' f r)" "keeps (st g)" "keeps (buf g')"
  "keeps (peek h)" "keeps (set_buf u)" "keeps (lift (Err ex))"
  by (auto simp: keeps_def mwp J_safe J_bufs split: sum.split)

lemma keeps_set_st: "(\<And>x. same_core x (f x)) \<Longrightarrow> keeps (set_st f)"
  by (auto simp: keeps_def mwp intro: J_core)

lemma keeps_fields [keep]:
  "keeps (set_st (\<lambda>s. s\<lparr>ms_ini_hash := a s\<rparr>))" "keeps (set_st (\<lambda>s. s\<lparr>ms_b := b\<rparr>))"
  "keeps (set_st (\<lambda>s. s\<lparr>ms_s := c\<rparr>))" "keeps (set_st (\<lambda>s. s\<lparr>ms_bootstrap := d\<rparr>))"
  "keeps (set_st (\<lambda>s. s\<lparr>ms_pcrs := e s\<rparr>))" "keeps (set_st (\<lambda>s. s\<lparr>ms_user_hash := f\<rparr>))"
  "keeps (set_st (\<lambda>s. s\<lparr>ms_blob_len := g\<rparr>))" "keeps (set_st (\<lambda>s. s\<lparr>ms_tpm_grey := h\<rparr>))"
  "keeps (set_st (\<lambda>s. s\<lparr>ms_tpm_attempts := i s\<rparr>))" "keeps (set_st (\<lambda>s. s\<lparr>ms_ui_from_ini := j\<rparr>))"
  "keeps (set_st (\<lambda>s. s\<lparr>ms_pcr12_was_zero := k\<rparr>))"
  by (rule keeps_set_st, simp add: same_core_def)+

lemma keeps_ibind [keep]: "keeps m \<Longrightarrow> (\<And>x. keeps (k x)) \<Longrightarrow> keeps (ibind m k)"
  by (auto simp: keeps_def elim!: wpx_conseq)

lemma keeps_cases [keep]:
  "(c \<Longrightarrow> keeps a) \<Longrightarrow> (\<not> c \<Longrightarrow> keeps b) \<Longrightarrow> keeps (if c then a else b)"
  "(x = None \<Longrightarrow> keeps a) \<Longrightarrow> (\<And>y. x = Some y \<Longrightarrow> keeps (f y)) \<Longrightarrow> keeps (case x of None \<Rightarrow> a | Some y \<Rightarrow> f y)"
  "(\<And>y z. p = (y, z) \<Longrightarrow> keeps (g y z)) \<Longrightarrow> keeps (case p of (y, z) \<Rightarrow> g y z)"
  "(\<And>e. r = Inl e \<Longrightarrow> keeps (h e)) \<Longrightarrow> (\<And>y. r = Inr y \<Longrightarrow> keeps (f' y))
    \<Longrightarrow> keeps (case r of Inl e \<Rightarrow> h e | Inr y \<Rightarrow> f' y)"
  "keeps (l v) \<Longrightarrow> keeps (Let v l)"
  by (auto split: option.split prod.split sum.split)

lemma keeps_input [keep]:
  assumes "\<And>x. keeps (f1 x)" "\<And>x. keeps (f2 x)" "\<And>x. keeps (f3 x)" "\<And>x. keeps (f4 x)" "keeps f5" "keeps f6" "keeps f7"
    "keeps f8" "keeps f9" "keeps f10" "keeps f11" "keeps f12" "keeps f13"
  shows "keeps (case_input f1 f2 f3 f4 f5 f6 f7 f8 f9 f10 f11 f12 f13 i)"
  using assms by (cases i) auto

lemma keeps_attempt [keep]: "wp r (\<lambda>_. True) \<Longrightarrow> keeps (attempt r)"
  by (auto simp: keeps_def intro!: wpx_attemptI elim: wp_conseq)

lemma keeps_call:
  "(\<And>r tr. \<not> uninstall_asked tr \<Longrightarrow> allowed C tr (ev r)) \<Longrightarrow> (\<And>r. neutral (ev r)) \<Longrightarrow> keeps (call f ev)"
  unfolding keeps_def using J_step J_uninstall by (auto intro!: wpx_callI)

lemma keeps_calls [keep]:
  "keeps (read_esp_file E name b)" "keeps (secure_boot E)" "keeps (disk_count E)" "keeps (disk_info_of E d)"
  "keeps (read_blocks E d lba b)" "keeps (random E b)" "keeps (prompt_buf E sc b)" "keeps (prompt_browse E sc' v)"
  "keeps (ui_prefs E u)" "keeps (vol_fvek_blob E b)" "keeps (vol_clear_key E)" "keeps (vol_try_vmk E k)"
  "keeps (vol_recovery_key E k)" "keeps (vol_bitlocker_password E u')" "keeps (tpm_pcr_read E msk)"
  "keeps (tpm_read_clock E)" "keeps (tpm_lockout E)"
  unfolding calls by (rule keeps_call; auto split: prod.split)+

lemma keeps_vars [keep]:
  "name \<noteq> VAR_UNINSTALL \<or> vendor \<noteq> PAGURO_VENDOR \<Longrightarrow> keeps (get_var E name vendor b)"
  "keeps (set_var E VAR_B PAGURO_VENDOR NV_BS d)" "keeps (set_var E VAR_TPM_BROKEN PAGURO_VENDOR a TPM_BROKEN_VALUE)"
  "keeps (delete_var E VAR_SETUP PAGURO_VENDOR)" "keeps (delete_var E VAR_TPM_BROKEN PAGURO_VENDOR)"
  unfolding calls by (rule keeps_call; auto split: prod.split)+

lemma keeps_prompt [keep]: "keeps (prompt E sc)"
  unfolding prompt_def by (intro keep)

lemma leave_never:
  "J s \<Longrightarrow> wpx (safe C base) (leave_to_windows E) s Q" "J s \<Longrightarrow> wpx (safe C base) (start_windows_no_var E) s Q"
  unfolding leave_to_windows_def start_windows_no_var_def
  by (intro vcg wpx_conseq [OF start_windows_safe]; simp add: J_safe mwp)+

lemma keeps_leave [keep]: "keeps (leave_to_windows E)" "keeps (start_windows_no_var E)"
  by (rule keepsI, erule leave_never)+

lemma keeps_seals [keep]: "keeps (read_seals E v)"
proof -
  have "keeps (seals_loop E v ks bs)" for ks bs
    by (induction ks bs rule: seals_loop.induct [of _ E v]) (auto intro!: keep)
  then show ?thesis unfolding read_seals_def by (intro keep)
qed

lemma keeps_parse_seals [keep]: "keeps (parse_seals ks bs ns)"
  by (induction ks bs ns rule: parse_seals.induct) (auto intro!: keep simp: wp_True seal_read_not_Panic)

lemma keeps_log_pcr12 [keep]: "keeps (log_pcr12 E)" "keeps (pcr12_is_zero E)"
  unfolding log_pcr12_def pcr12_is_zero_def by (intro keep)+

lemma keeps_load_secrets [keep]: "keeps (load_secrets E)"
  unfolding load_secrets_def load_b_def load_s_def by (intro keep) simp_all

lemma keeps_probe [keep]: "keeps (probe E part b)" "keeps (probe_found E part)"
  unfolding probe_def probe_found_def by (intro keep)+

lemma keeps_pick [keep]: "keeps (pick_candidate E cs)"
  unfolding pick_candidate_def by (intro keep)

lemma keeps_blob [keep]: "keeps (blob E)"
  unfolding blob_def by (intro keep)

lemma keeps_clear_broken [keep]: "keeps (clear_tpm_broken E)" "keeps (delete_setup E)"
  unfolding clear_tpm_broken_def delete_setup_def by (intro keep; simp)+

lemma keeps_typed_path [keep]: "keeps (typed_path E lv old)"
  unfolding typed_path_def by (intro keep)

lemma keeps_enter_secret [keep]: "keeps (enter_secret E rw u)" "keeps (query_lockout E cfg parsed)"
  unfolding enter_secret_def query_lockout_def by (intro keep)+

lemma keeps_normal_only [keep]: "keeps (normal_only x)"
  unfolding normal_only_def by (intro keep)

text \<open>The walks over the partitions.\<close>

lemma J_disk_reads:
  assumes "J s" "disk_reads s s'"
  shows "J s'"
proof -
  have step: "J (t\<lparr>m_trace := es @ m_trace t\<rparr>)" if "J t" "list_all disk_event es" for es t
    using that
  proof (induction es)
    case (Cons e es)
    then have IH: "J (t\<lparr>m_trace := es @ m_trace t\<rparr>)" by simp
    from Cons.prems J_uninstall [OF IH] have "neutral e" "allowed C (es @ m_trace t) e"
      by (cases e; simp)+
    then show ?case using J_step [OF IH, of e "m_world t"] by simp
  qed simp
  from assms(2) obtain es where es: "m_trace s' = es @ m_trace s" "list_all disk_event es" "m_st s' = m_st s"
    by (auto simp: disk_reads_def)
  have "J (s\<lparr>m_bufs := m_bufs s', m_world := m_world s', m_trace := es @ m_trace s\<rparr>)"
    using step [OF J_world [OF assms(1)] es(2)] by simp
  also have "s\<lparr>m_bufs := m_bufs s', m_world := m_world s', m_trace := es @ m_trace s\<rparr> = s'"
    using es by (cases s; cases s') simp
  finally show ?thesis .
qed

lemma find_partition_keeps:
  assumes "J s"
  shows "wpx (safe C base) (find_partition E g) s
    (\<lambda>x s'. J s' \<and> (case x of None \<Rightarrow> True | Some p \<Rightarrow> on_disk (m_trace s') p))"
  unfolding find_partition_def
  by (rule for_each_wpx [where I = "\<lambda>x s'. J s' \<and> (case x of None \<Rightarrow> True | Some p \<Rightarrow> on_disk (m_trace s') p)"])
    (use assms in \<open>auto simp: mwp elim: J_disk_reads on_disk_mono dest: disk_reads_mono split: option.splits\<close>)

lemma enumerate_visit_keeps:
  assumes "J s" "\<forall>c\<in>set (fst v). on_disk (m_trace s) (cd_part c)" "on_disk (m_trace s) part"
  shows "wpx (safe C base) (enumerate_visit E e part v) s (\<lambda>x s'. (J s' \<and>
    (\<forall>c\<in>set (fst (snd x)). on_disk (m_trace s') (cd_part c))) \<and> set (m_trace s) \<subseteq> set (m_trace s'))"
proof -
  have later: "J (s\<lparr>m_world := w, m_trace := EReadBlocks d a n # m_trace s\<rparr>)" for w d a n
    using assms(1) J_step J_uninstall by simp
  have more: "on_disk (e # m_trace s) p" if "on_disk (m_trace s) p" for e p
    by (rule on_disk_mono [OF that set_subset_Cons])
  show ?thesis
    unfolding enumerate_visit_def probe_def
    by (intro vcg wpx_read_blocksI) (use assms later more J_safe in auto)
qed

lemma enumerate_keeps:
  assumes "J s"
  shows "wpx (safe C base) (enumerate_candidates E) s (\<lambda>cs s'. J s' \<and> (\<forall>c\<in>set cs. on_disk (m_trace s') (cd_part c)))"
proof -
  let ?I = "\<lambda>x s'. J s' \<and> (\<forall>c\<in>set (fst x). on_disk (m_trace s') (cd_part c))"
  have frame: "?I v s'" if "?I v s" "disk_reads s s'" for v :: "candidate list \<times> bytes" and s s'
    using that J_disk_reads on_disk_mono [OF _ disk_reads_mono [OF that(2)]] by blast
  have "wpx (safe C base) (for_each_partition E (enumerate_visit E) ([], replicate MAX_BLOCK 0)) s ?I"
  proof (rule for_each_wpx [where I = ?I])
    show "?I v s'" if "?I v s" "disk_reads s s'" for v :: "candidate list \<times> bytes" and s s'
      by (rule frame [OF that])
  qed (use assms enumerate_visit_keeps in simp_all)
  then show ?thesis
    unfolding enumerate_candidates_def by (intro wpx_intros(1)) (auto simp: mwp split_def elim: wpx_conseq)
qed

end

text \<open>A stage in which a lasting condition on that part of the state and the trace holds is a stage.\<close>

lemma stage_and:
  assumes s: "stage C base J" and R: "\<And>x y tr. same_core x y \<Longrightarrow> R x tr \<Longrightarrow> R y tr"
    and tr: "\<And>x e tr. R x tr \<Longrightarrow> neutral e \<Longrightarrow> R x (e # tr)"
  shows "stage C base (\<lambda>s. J s \<and> R (m_st s) (m_trace s))"
  by unfold_locales
    (auto intro: stage.J_safe [OF s] stage.J_step [OF s] stage.J_world [OF s] stage.J_core [OF s] R tr
      dest: stage.J_uninstall [OF s])

text \<open>Stages from which the machine may enter recovery: the mode changes, and PCR 12 is capped.\<close>

definition recovering_state :: "recovery_reason \<Rightarrow> mstate \<Rightarrow> mstate" where
  "recovering_state r x = x\<lparr>ms_mode := Recovery r, ms_flags := ms_flags x OR (RECOVERY_PATH OR CONFIG_UNVERIFIED),
     ms_tpm_grey := Some RecoveryMode\<rparr>"

definition capped :: "'s \<Rightarrow> 's mach \<Rightarrow> 's mach" where
  "capped w s = s\<lparr>m_world := w, m_trace := boot_taint # m_trace s, m_st := (m_st s)\<lparr>ms_capped := True\<rparr>\<rparr>"

lemma extend12_wpx:
  assumes "length d \<le> 48"
    and "\<And>w. Q () (s\<lparr>m_world := w, m_trace := EExtend PCR12 x (PCR12_EVENT_TAG @ d) (Inr ()) # m_trace s\<rparr>)"
    and "\<And>w e. T (s\<lparr>m_world := w, m_trace := EExtend PCR12 x (PCR12_EVENT_TAG @ d) (Inl e) # m_trace s\<rparr>)"
  shows "wpx T (extend12 E x d) s Q"
  unfolding extend12_def hash_log_extend_def
  by (intro vcg wpx_callI) (use assms in \<open>auto simp: mwp PCR12_EVENT_TAG_LEN_def PCR12_EVENT_MAX_def PCR12_EVENT_TAG_def\<close>)

locale recovering = stage +
  assumes J_recover: "J s \<Longrightarrow> J (s\<lparr>m_st := recovering_state r (m_st s)\<rparr>)"
    and J_cap: "J s \<Longrightarrow> ms_mode (m_st s) \<noteq> Normal \<Longrightarrow> J (capped w s)"
begin

lemma cap_keeps:
  assumes "J s" "\<And>w. ms_tpm (m_st s) \<Longrightarrow> J (capped w s)"
  shows "wpx (safe C base) (cap E) s (\<lambda>_. J)"
  unfolding cap_def
  by (intro vcg extend12_wpx keepsD [OF keeps_log_pcr12(1)])
    (use assms J_safe J_uninstall in \<open>auto simp: capped_def boot_taint_def BOOT_TAINT_def text_bytes_def\<close>)

end

sublocale recovering \<subseteq> rec: stage C base "\<lambda>s. J s \<and> ms_mode (m_st s) \<noteq> Normal"
  by (rule stage_and [OF stage_axioms, where R = "\<lambda>x tr. ms_mode x \<noteq> Normal"]) (simp_all add: same_core_def)

context recovering
begin

lemma rec_cap: "rec.keeps (cap E)"
  by (intro rec.keepsI, unfold cap_def, intro vcg extend12_wpx rec.keepsD [OF rec.keeps_log_pcr12(1)])
    (use J_cap J_safe J_uninstall in \<open>auto simp: capped_def boot_taint_def BOOT_TAINT_def text_bytes_def\<close>)

lemma enter_recovery_from:
  "J (s\<lparr>m_st := recovering_state r (m_st s)\<rparr>)
    \<Longrightarrow> wpx (safe C base) (enter_recovery E r) s (\<lambda>_ s'. J s' \<and> ms_mode (m_st s') \<noteq> Normal)"
  unfolding enter_recovery_def
  by (rule wpx_intros(1), rule wpx_intros(13), rule rec.keepsD, intro keep rec_cap)
    (auto simp: recovering_state_def)

lemma enter_recovery_rec: "J s \<Longrightarrow> wpx (safe C base) (enter_recovery E r) s (\<lambda>_ s'. J s' \<and> ms_mode (m_st s') \<noteq> Normal)"
  by (rule enter_recovery_from [OF J_recover])

lemma keeps_enter_recovery [keep]: "keeps (enter_recovery E r)"
  by (rule keepsI, rule wpx_conseq [OF enter_recovery_rec]) auto

text \<open>The volume that is chosen lies on its disk.\<close>

lemma enumerate_volume_keeps:
  "J s \<Longrightarrow> wpx (safe C base) (enumerate_volume E) s (\<lambda>x s'. J s' \<and> on_disk (m_trace s') (fst x))"
  unfolding enumerate_volume_def
proof (intro wpx_intros(1), rule wpx_conseq [OF enumerate_keeps], assumption, rule wpx_intros(1), goal_cases)
  case (1 cs s')
  have st: "stage C base (\<lambda>s. J s \<and> (\<forall>c\<in>set cs. on_disk (m_trace s) (cd_part c)))"
    by (rule stage_and [OF stage_axioms, where R = "\<lambda>x tr. \<forall>c\<in>set cs. on_disk tr (cd_part c)"])
      (auto intro: on_disk_mono)
  show ?case
    by (rule stage.keepsD [OF st stage.keeps_pick [OF st] 1(2)])
      (auto simp: mwp J_safe split: option.split)
qed

lemma select_volume_keeps:
  "J s \<Longrightarrow> wpx (safe C base) (select_volume E target) s (\<lambda>x s'. J s' \<and> on_disk (m_trace s') (fst x))"
  unfolding select_volume_def probe_found_def probe_def
  by (intro vcg wpx_conseq [OF find_partition_keeps] enumerate_volume_keeps wpx_conseq [OF enter_recovery_rec]
      keepsD [OF keeps_prompt] leave_never wpx_read_blocksI)
    (auto simp: mwp J_safe J_step J_uninstall J_bufs intro: on_disk_mono)

lemma keeps_choose_row [keep]: "keeps (choose_row E menu i)"
  unfolding choose_row_def by (intro keep)

end

text \<open>The stage in which the volume is unlocked.\<close>

definition confirmed :: "bytes \<Rightarrow> 's \<Rightarrow> 's mach \<Rightarrow> 's mach" where
  "confirmed k w s = s\<lparr>m_world := w, m_trace := ETryVmk k (Inr True) # m_trace s, m_st := (m_st s)\<lparr>ms_vmk := Some k\<rparr>\<rparr>"

locale unlocking = recovering +
  assumes J_vmk: "J s \<Longrightarrow> J (confirmed k w s)"
    and J_unseal: "J s \<Longrightarrow> ms_mode (m_st s) = Normal \<Longrightarrow> ms_tpm (m_st s) \<Longrightarrow> unseal_allowed C (m_trace s)"

sublocale unlocking \<subseteq> opened: stage C base "\<lambda>s. J s \<and> ms_vmk (m_st s) \<noteq> None"
  by (rule stage_and [OF stage_axioms, where R = "\<lambda>x tr. ms_vmk x \<noteq> None"]) (auto simp: same_core_def)

sublocale unlocking \<subseteq> attested: stage C base "\<lambda>s. J s \<and> ms_mode (m_st s) = Normal \<and> ms_tpm (m_st s)"
  by (rule stage_and [OF stage_axioms, where R = "\<lambda>x tr. ms_mode x = Normal \<and> ms_tpm x"]) (auto simp: same_core_def)

context unlocking
begin

text \<open>A computation gains the key: when it returns a rung, the key was confirmed.\<close>

definition gains :: "('a, rung option) mm \<Rightarrow> bool" where
  "gains m \<longleftrightarrow> (\<forall>s. J s \<longrightarrow> wpx (safe C base) m s (\<lambda>r s'. J s' \<and> (r = None \<or> ms_vmk (m_st s') \<noteq> None)))"

lemma gainsI:
  "(\<And>s. J s \<Longrightarrow> wpx (safe C base) m s (\<lambda>r s'. J s' \<and> (r = None \<or> ms_vmk (m_st s') \<noteq> None))) \<Longrightarrow> gains m"
  by (simp add: gains_def)

lemma gainsD:
  "gains m \<Longrightarrow> J s \<Longrightarrow> (\<And>r s'. J s' \<Longrightarrow> r = None \<or> ms_vmk (m_st s') \<noteq> None \<Longrightarrow> Q r s')
    \<Longrightarrow> wpx (safe C base) m s Q"
  by (auto simp: gains_def elim!: wpx_conseq)

lemma gains_none [keep]: "gains (ret None)"
  by (simp add: gains_def mwp)

lemma gains_ibind [keep]: "keeps m \<Longrightarrow> (\<And>x. gains (k x)) \<Longrightarrow> gains (ibind m k)"
  by (auto simp: gains_def intro!: wpx_intros(1) elim!: keepsD)

lemma gains_cases [keep]:
  "(c \<Longrightarrow> gains a) \<Longrightarrow> (\<not> c \<Longrightarrow> gains b) \<Longrightarrow> gains (if c then a else b)"
  "(x = None \<Longrightarrow> gains a) \<Longrightarrow> (\<And>y. x = Some y \<Longrightarrow> gains (f y)) \<Longrightarrow> gains (case x of None \<Rightarrow> a | Some y \<Rightarrow> f y)"
  "(\<And>y z. p = (y, z) \<Longrightarrow> gains (g y z)) \<Longrightarrow> gains (case p of (y, z) \<Rightarrow> g y z)"
  "(\<And>e. r = Inl e \<Longrightarrow> gains (h e)) \<Longrightarrow> (\<And>y. r = Inr y \<Longrightarrow> gains (f' y))
    \<Longrightarrow> gains (case r of Inl e \<Rightarrow> h e | Inr y \<Rightarrow> f' y)"
  "gains (l v) \<Longrightarrow> gains (Let v l)"
  by (auto split: option.split prod.split sum.split)

lemma gains_or_else [keep]: "gains a \<Longrightarrow> gains b \<Longrightarrow> gains (or_else a b)"
  unfolding or_else_def
  by (rule gainsI, intro vcg, erule gainsD, assumption) (auto simp: mwp gains_def split: option.split)

lemma accept_wpx:
  "J s \<Longrightarrow> wpx (safe C base) (accept E k) s (\<lambda>ok s'. J s' \<and> (\<not> ok \<or> ms_vmk (m_st s') \<noteq> None))"
  unfolding accept_def vol_try_vmk_def
  by (intro vcg wpx_callI)
    (use J_vmk [unfolded confirmed_def] J_step J_safe J_uninstall in \<open>auto simp: mwp\<close>)

lemma gains_accept_as [keep]: "gains (accept_as E rg k)"
  unfolding accept_as_def by (rule gainsI, intro vcg, rule wpx_conseq [OF accept_wpx]) (auto simp: mwp)

lemma tpm_unseal_wpx:
  "J s \<Longrightarrow> ms_mode (m_st s) = Normal \<Longrightarrow> ms_tpm (m_st s) \<Longrightarrow> (\<And>r s'. J s' \<Longrightarrow> Q r s')
    \<Longrightarrow> wpx (safe C base) (tpm_unseal E priv pub msk dl auth) s Q"
  unfolding tpm_unseal_def by (rule wpx_callI) (use J_step J_unseal J_uninstall in simp)

lemma gains_pin_bypass [keep]: "gains (try_pin_bypass E cfg parsed)"
  unfolding try_pin_bypass_def
  by (rule gainsI, intro vcg attested.keepsD [OF attested.keeps_calls(16)] tpm_unseal_wpx gainsD [OF gains_accept_as])
    (auto simp: mwp)

lemma keeps_tpm_failed [keep]: "keeps (tpm_failed E c)"
  unfolding tpm_failed_def by (cases c) (auto intro!: keep)

lemma try_tpm_wpx:
  "J s \<Longrightarrow> ms_mode (m_st s) = Normal \<Longrightarrow> ms_tpm (m_st s)
    \<Longrightarrow> wpx (safe C base) (try_tpm E user sl) s (\<lambda>r s'. J s' \<and> (r = None \<or> ms_vmk (m_st s') \<noteq> None))"
  unfolding try_tpm_def
  by (intro vcg tpm_unseal_wpx keepsD [OF keeps_blob] keepsD [OF keeps_tpm_failed] wpx_conseq [OF accept_wpx]
      opened.keepsD [OF opened.keeps_clear_broken(1)])
    (auto simp: mwp)

lemma gains_tpm_last [keep]: "gains (try_tpm_last E user i cfg parsed)"
  unfolding try_tpm_last_def
  by (rule gainsI, intro vcg try_tpm_wpx) (auto simp: mwp tpm_usable_def split: if_splits)

lemma gains_password_hash [keep]: "gains (try_password_hash E user i cfg parsed)"
  unfolding try_password_hash_def try_setup_def try_passphrase_def try_bootstrap_def try_volume_password_def
  by (intro keep)

lemma gains_password [keep]: "gains (try_password E pw i cfg parsed)"
  unfolding try_password_def
  by (rule gainsI, intro vcg gainsD [OF gains_password_hash])
    (auto simp: mwp J_core same_core_def)

lemma gains_row [keep]: "gains (try_row E rw pw cfg parsed)"
  unfolding try_row_def try_recovery_key_def
  by (cases rw) (auto intro!: keep parse_recovery_password_wp)

lemma gains_clear_key [keep]: "gains (try_clear_key E)"
  unfolding try_clear_key_def by (intro keep)

text \<open>The rung that opened the volume, with its key.\<close>

definition opens :: "('a, rung) mm \<Rightarrow> bool" where
  "opens m \<longleftrightarrow> (\<forall>s. J s \<longrightarrow> wpx (safe C base) m s (\<lambda>_ s'. J s' \<and> ms_vmk (m_st s') \<noteq> None))"

lemma opensD:
  "opens m \<Longrightarrow> J s \<Longrightarrow> (\<And>r s'. J s' \<Longrightarrow> ms_vmk (m_st s') \<noteq> None \<Longrightarrow> Q r s') \<Longrightarrow> wpx (safe C base) m s Q"
  by (auto simp: opens_def elim!: wpx_conseq)

lemma opens_ibind: "keeps m \<Longrightarrow> (\<And>x. opens (k x)) \<Longrightarrow> opens (ibind m k)"
  by (auto simp: opens_def intro!: wpx_intros(1) elim!: keepsD)

lemma opens_gains:
  "gains m \<Longrightarrow> opens b \<Longrightarrow> opens (ibind m (\<lambda>r. case r of None \<Rightarrow> b | Some rg \<Rightarrow> ret rg))"
  unfolding opens_def by (auto intro!: wpx_intros(1) elim!: gainsD simp: mwp split: option.split)

lemma opens_option: "opens a \<Longrightarrow> (\<And>y. opens (f y)) \<Longrightarrow> opens (case x of None \<Rightarrow> a | Some y \<Rightarrow> f y)"
  by (cases x) auto

lemma opens_unlock_loop: "opens (unlock_loop fuel E cfg parsed)"
proof (induction fuel)
  case 0
  then show ?case by (simp add: opens_def J_safe)
next
  case (Suc fuel)
  show ?case
    unfolding unlock_loop.simps Let_def
    by (intro opens_ibind opens_option opens_gains Suc keep)
qed

lemma opens_unlock: "opens (unlock fuel E cfg parsed)"
  unfolding unlock_def by (intro opens_gains opens_ibind opens_unlock_loop keep)

end

text \<open>The stage after the boot taint: the contents of the volume may be used.\<close>

lemma volume_allowed: "volume_event e \<Longrightarrow> \<not> uninstall_asked tr \<Longrightarrow> tainted tr \<Longrightarrow> allowed C tr e"
  by (cases e) auto

lemma volume_neutral: "volume_event e \<Longrightarrow> neutral e"
  by (cases e) auto

lemma wpx_catchI:
  "wpx F m s (\<lambda>_. F) \<Longrightarrow> (\<And>s'. F s' \<Longrightarrow> T s') \<Longrightarrow> (\<And>r s'. F s' \<Longrightarrow> Q r s') \<Longrightarrow> wpx T (catch m) s Q"
  by (auto simp: wpx_def catch_def split: prod.splits res.splits exit.splits)

lemma config_write_wp: "wp (config_write c out) (\<lambda>(n, out'). n \<le> length out')"
proof -
  have "wpos w' \<le> length (wbuf w')" if "opt_fold wput w xs = Some w'" "wpos w \<le> length (wbuf w)" for w xs w'
    using that
  proof (induction xs arbitrary: w)
    case (Cons x xs)
    then show ?case
      by (auto simp: wput_def checked_add_def split: option.splits if_splits)
  qed simp
  then show ?thesis by (auto simp: config_write_def wlen_def writer_new_def)
qed

locale tainted_stage = stage +
  assumes J_tainted: "J s \<Longrightarrow> tainted (m_trace s)"
begin

lemma keeps_volume: "(\<And>r. volume_event (ev r)) \<Longrightarrow> keeps (call f ev)"
  by (auto simp: keeps_def volume_allowed volume_neutral J_uninstall J_tainted intro!: wpx_callI J_step)

lemma keeps_volume_calls [keep]:
  "keeps (vol_list_dir E p)" "keeps (vol_list_efi_dir E d p)" "keeps (vol_locate E e l)" "keeps (vol_efi_image E)"
  "keeps (load_start_image E b)" "keeps (load_start_image_buffer E b)" "keeps (tpm_create_sealed E a d' pol c)"
  unfolding calls by (rule keeps_volume; auto split: prod.split)+

lemma keeps_browsing [keep]:
  "keeps (list_dir E lv p)" "keeps (list_efi_dir E d p)" "keeps (browse E lv cwd from dl)" "keeps (refuse E ok)"
  unfolding list_dir_def list_efi_dir_def browse_def refuse_def by (intro keep)+

lemma keeps_browse_root [keep]: "keeps (browse_root fuel E cwd from out)"
  by (induction fuel arbitrary: cwd "from" out) (auto intro!: keep)

lemma keeps_browse_efi [keep]: "keeps (browse_efi_partition fuel E cwd from out)"
  by (induction fuel arbitrary: cwd "from" out) (auto intro!: keep)

lemma keeps_disk_start [keep]: "keeps (disk_start fuel E out)"
  by (induction fuel arbitrary: out) (auto intro!: keep)

lemma keeps_picks [keep]: "keeps (pick_auto d cwd out)" "keeps (pick_target E cwd from out)"
  unfolding pick_auto_def pick_target_def by (intro keep)+

lemma keeps_picked [keep]:
  "(\<And>c. keeps (f c)) \<Longrightarrow> (\<And>a b c. keeps (g a b c)) \<Longrightarrow> (\<And>a b c. keeps (h a b c)) \<Longrightarrow> keeps (case_picked f g h p)"
  by (cases p) auto

lemma keeps_choose_loop [keep]: "keeps (choose_loop fuel E d disks only auto cwd from out)"
  by (induction fuel arbitrary: auto cwd "from" out) (auto intro!: keep)

lemma keeps_choose [keep]: "keeps (choose_target fuel E)"
  unfolding choose_target_def by (intro keep)

lemma keeps_locate [keep]: "keeps (locate_target fuel E part entry)"
  unfolding locate_target_def by (intro keep)

lemma keeps_start_image [keep]: "keeps (start_image E l)"
  unfolding start_image_def by (intro keep)

text \<open>
  Provisioning: a seal that was made is for the PCR values recorded and the one PCR 12 will have
  once the configuration authored has been measured.
\<close>

definition seal_made :: "mstate \<Rightarrow> bytes \<Rightarrow> event list \<Rightarrow> bool" where
  "seal_made x ini tr \<longleftrightarrow>
    ECreateSealed (policy_digest C PCR_MASK_V1 (ms_pcrs x @ [pcr12_after_load_taint C ini]) None) \<in> set tr"

definition provision_frame :: "'a mach \<Rightarrow> 'a mach \<Rightarrow> bool" where
  "provision_frame s s' \<longleftrightarrow> J s' \<and> ms_pcrs (m_st s') = ms_pcrs (m_st s)
     \<and> bf_gen_ini (m_bufs s') = bf_gen_ini (m_bufs s) \<and> set (m_trace s) \<subseteq> set (m_trace s')"

lemma blob_wpx: "J s \<Longrightarrow> wpx (provision_frame s) (blob E) s (\<lambda>_. provision_frame s)"
  unfolding blob_def vol_fvek_blob_def
  by (intro vcg wpx_callI) (auto simp: provision_frame_def mwp J_step J_uninstall J_bufs J_core same_core_def)

lemma provision_seal_wpx:
  assumes "J s" "e_crypto E = C"
  shows "wpx (safe C base) (provision_seal E user vmk ini) s
    (\<lambda>pv s'. provision_frame s s' \<and> (po_ok pv \<longrightarrow> seal_made (m_st s') ini (m_trace s')))"
  unfolding provision_seal_def random_def tpm_create_sealed_def
  by (intro vcg wpx_callI wpx_catchI [OF blob_wpx])
    (use assms in \<open>auto simp: provision_frame_def provision_new_def seal_made_def mwp J_step J_steps J_uninstall neutral_uninstall J_bufs J_tainted volume_allowed J_safe\<close>)

lemma provision_wpx:
  assumes "J s" "e_crypto E = C"
  shows "wpx (safe C base) (provision E part l) s (\<lambda>(n, pv) s'. J s' \<and> (po_ok pv \<longrightarrow>
    (\<exists>ini. Option.bind n (get_range (bf_gen_ini (m_bufs s')) 0) = Some ini \<and> seal_made (m_st s') ini (m_trace s'))))"
  unfolding provision_def
  by (intro vcg wpx_attemptI wp_conseq [OF config_write_wp] wpx_conseq [OF provision_seal_wpx])
    (use assms in \<open>auto simp: mwp provision_new_def provision_frame_def J_bufs upto_def get_range_def\<close>)

end

section \<open>The invariants of the stages\<close>

abbreviation unverified :: "mstate \<Rightarrow> bool" where
  "unverified x \<equiv> ms_flags x AND CONFIG_UNVERIFIED \<noteq> 0"

text \<open>
  What the state says about the calls so far: \<open>ini\<close> is the configuration in use, and in normal mode
  on a machine with a TPM, \<open>P\<close> holds of what is known of PCR 12 and whether it was capped.
\<close>

definition state_inv :: "crypto \<Rightarrow> bytes \<Rightarrow> (bool \<Rightarrow> bytes list option \<Rightarrow> bool) \<Rightarrow> mstate \<Rightarrow> event list \<Rightarrow> bool" where
  "state_inv C ini P x tr \<longleftrightarrow>
     (ms_tpm x \<or> ETpmPresent False \<in> set tr) \<and> (ms_capped x \<longrightarrow> boot_taint \<in> set tr)
   \<and> (case ms_vmk x of None \<Rightarrow> True | Some k \<Rightarrow> ETryVmk k (Inr True) \<in> set tr)
   \<and> (ms_mode x = Normal \<and> ms_tpm x \<longrightarrow> P (ms_capped x) (pcr12_known tr))
   \<and> (if ms_mode x = Normal
      then config_verified C tr ini \<or> unverified x \<and> config_read tr ini \<and> ESecureBoot False \<in> set tr
      else unverified x)"

definition stage_inv :: "crypto \<Rightarrow> event list \<Rightarrow> bytes \<Rightarrow> (bool \<Rightarrow> bytes list option \<Rightarrow> bool) \<Rightarrow> 's mach \<Rightarrow> bool" where
  "stage_inv C base ini P s \<longleftrightarrow>
     safe C base s \<and> \<not> uninstall_asked (m_trace s) \<and> state_inv C ini P (m_st s) (m_trace s)"

definition measured :: "bytes \<Rightarrow> bool \<Rightarrow> bytes list option \<Rightarrow> bool" where
  "measured ini c k \<longleftrightarrow> k = Some [ini] \<or> k = Some [BOOT_TAINT]"

definition untouched :: "bool \<Rightarrow> bytes list option \<Rightarrow> bool" where
  "untouched c k \<longleftrightarrow> \<not> c \<and> (k = None \<or> k = Some [])"

lemma untouched_step: "untouched c (pcr12_known tr) \<Longrightarrow> neutral e \<Longrightarrow> untouched c (pcr12_known (e # tr))"
  using neutral_unknown [of e tr] neutral_pcr12 [of e tr] by (auto simp: untouched_def)

abbreviation anything :: "bool \<Rightarrow> bytes list option \<Rightarrow> bool" where
  "anything \<equiv> \<lambda>_ _. True"

lemma flag_or: "x AND c \<noteq> 0 \<Longrightarrow> (x OR y) AND c \<noteq> (0 :: nat)"
proof
  assume a: "x AND c \<noteq> 0" "(x OR y) AND c = 0"
  have "\<not> bit (x AND c) n" for n
    using arg_cong [OF a(2), of "\<lambda>z. bit z n"] by (auto simp: bit_simps)
  then have "x AND c = 0" by (intro bit_eqI) simp
  with a(1) show False ..
qed

lemma flag_or_pos [simp]: "0 < x AND c \<Longrightarrow> 0 < (x OR y) AND (c :: nat)"
  using flag_or [of x c y] by simp

lemma state_inv_step:
  assumes "state_inv C ini P x tr" "\<And>c. P c None \<Longrightarrow> P c (Some [])" "neutral e"
  shows "state_inv C ini P x (e # tr)"
proof -
  have "P c (pcr12_known (e # tr))" if "P c (pcr12_known tr)" for c
  proof (cases "pcr12_known tr")
    case None
    then show ?thesis using that assms(2) neutral_unknown [OF assms(3) None] by auto
  next
    case (Some ds)
    then show ?thesis using that neutral_pcr12 [OF assms(3) Some] by simp
  qed
  with assms(1) show ?thesis by (auto simp: state_inv_def split: option.splits if_splits)
qed

lemma state_inv_same: "same_core x y \<Longrightarrow> state_inv C ini P x tr \<Longrightarrow> state_inv C ini P y tr"
  by (auto simp: state_inv_def same_core_def split: if_splits)

lemma stage_inv_stage:
  assumes "\<And>c. P c None \<Longrightarrow> P c (Some [])"
  shows "stage C base (stage_inv C base ini P)"
proof (unfold_locales, goal_cases)
  case (3 s e w)
  then show ?case
    using state_inv_step [of C ini P "m_st s" "m_trace s" e] assms by (auto simp: stage_inv_def neutral_uninstall)
qed (auto simp: stage_inv_def safe_def intro: state_inv_same)

lemma recovery_flags [simp]: "(x OR (RECOVERY_PATH OR CONFIG_UNVERIFIED)) AND CONFIG_UNVERIFIED \<noteq> 0"
  "(x OR CONFIG_UNVERIFIED) AND CONFIG_UNVERIFIED \<noteq> 0"
  using flag_or [of "RECOVERY_PATH OR CONFIG_UNVERIFIED" CONFIG_UNVERIFIED x] flag_or [of CONFIG_UNVERIFIED CONFIG_UNVERIFIED x]
  by (simp_all add: or.commute [of _ x] CONFIG_UNVERIFIED_def RECOVERY_PATH_def)

lemma taint_uninstall [simp]: "uninstall_asked (EExtend p d ev r # tr) = uninstall_asked tr"
  by (simp add: uninstall_asked_def)

lemma stage_inv_capped:
  assumes "stage_inv C base ini P s" "ms_mode (m_st s) = Normal \<and> ms_tpm (m_st s) \<Longrightarrow> P True (pcr12_known (boot_taint # m_trace s))"
  shows "stage_inv C base ini P (capped w s)"
  using assms by (auto simp: stage_inv_def capped_def safe_def boot_taint_def state_inv_def split: if_splits option.splits)

lemma stage_inv_recovering:
  assumes "\<And>c. P c None \<Longrightarrow> P c (Some [])"
  shows "recovering C base (stage_inv C base ini P)"
proof (intro recovering.intro stage_inv_stage assms, assumption, unfold_locales, goal_cases)
  case (1 s r)
  then show ?case by (auto simp: stage_inv_def state_inv_def recovering_state_def)
next
  case (2 s w)
  then show ?case by (intro stage_inv_capped) auto
qed

interpretation early: recovering C base "stage_inv C base ini untouched" for C base ini
  by (rule stage_inv_recovering) (simp add: untouched_def)

interpretation mid: unlocking C base "stage_inv C base ini (measured ini)" for C base ini
proof (intro unlocking.intro stage_inv_recovering, simp add: measured_def, unfold_locales, goal_cases)
  case (1 s k w)
  then show ?case
    by (auto simp: stage_inv_def confirmed_def safe_def uninstall_asked_def state_inv_def split: if_splits)
next
  case (2 s)
  then show ?case by (auto simp: stage_inv_def state_inv_def unseal_allowed_def measured_def)
qed

definition late_inv :: "crypto \<Rightarrow> event list \<Rightarrow> bytes \<Rightarrow> 's mach \<Rightarrow> bool" where
  "late_inv C base ini s \<longleftrightarrow> stage_inv C base ini anything s \<and> tainted (m_trace s)"

lemma late_and:
  assumes "\<And>x y tr. same_core x y \<Longrightarrow> R x tr \<Longrightarrow> R y tr" "\<And>x e tr. R x tr \<Longrightarrow> neutral e \<Longrightarrow> R x (e # tr)"
  shows "tainted_stage C base (\<lambda>s. late_inv C base ini s \<and> R (m_st s) (m_trace s))"
proof (intro tainted_stage.intro)
  have "stage C base (\<lambda>s. stage_inv C base ini anything s \<and> (tainted (m_trace s) \<and> R (m_st s) (m_trace s)))"
    by (rule stage_and [OF stage_inv_stage, where R = "\<lambda>x tr. tainted tr \<and> R x tr"]) (use assms in auto)
  then show "stage C base (\<lambda>s. late_inv C base ini s \<and> R (m_st s) (m_trace s))"
    by (simp add: late_inv_def)
qed (unfold_locales, simp add: late_inv_def)

interpretation late: tainted_stage C base "late_inv C base ini" for C base ini
  using late_and [of "\<lambda>_ _. True" C base ini] by simp

section \<open>Stages 0 and 1\<close>

lemma wpx_weaken:
  "wpx P m s R \<Longrightarrow> (\<And>s'. P s' \<Longrightarrow> P' s') \<Longrightarrow> (\<And>x s'. R x s' \<Longrightarrow> R' x s') \<Longrightarrow> wpx P' m s R'"
  by (auto simp: wpx_def split: res.splits)

text \<open>Before the mode is known: PCR 12 has not been extended.\<close>

definition base_inv :: "crypto \<Rightarrow> event list \<Rightarrow> 's mach \<Rightarrow> bool" where
  "base_inv C base s \<longleftrightarrow> safe C base s \<and> \<not> uninstall_asked (m_trace s)"

lemma base_stage: "stage C base (base_inv C base)"
  by unfold_locales (auto simp: base_inv_def neutral_uninstall safe_def)

definition fresh :: "mstate \<Rightarrow> event list \<Rightarrow> bool" where
  "fresh x tr \<longleftrightarrow> \<not> ms_tpm x \<and> \<not> ms_capped x \<and> ms_vmk x = None \<and> untouched False (pcr12_known tr)"

definition zero_inv :: "crypto \<Rightarrow> event list \<Rightarrow> 's mach \<Rightarrow> bool" where
  "zero_inv C base s \<longleftrightarrow> base_inv C base s \<and> ms_mode (m_st s) = Normal \<and> fresh (m_st s) (m_trace s)"

interpretation zero: stage C base "zero_inv C base" for C base
  unfolding zero_inv_def
  by (rule stage_and [OF base_stage, where R = "\<lambda>x tr. ms_mode x = Normal \<and> fresh x tr"])
    (auto simp: fresh_def same_core_def untouched_step)

lemma keeps_take_payload: "zero.keeps C base (take_payload n p)"
  unfolding take_payload_def by (intro keep) (simp_all add: wp_True parse_payload_not_Panic)

lemma one_shot_entryI:
  assumes "EGetVar (ascii_text (boot_var_name i)) EFI_GLOBAL_VARIABLE (Inr (Some n)) b \<in> set tr"
    "parse_load_option (upto b n) = Ok lo" "is_paguro lo" "EGetVar VAR_BOOT_ORDER EFI_GLOBAL_VARIABLE r order \<in> set tr"
    "\<not> (case r of Inl _ \<Rightarrow> True | Inr x \<Rightarrow> case x of None \<Rightarrow> False
      | Some n \<Rightarrow> list_ex (\<lambda>c. c = le_bytes 2 i) (chunks_exact BOOT_OPTION_LEN (upto order n)))"
  shows "one_shot_entry tr (ascii_text (boot_var_name i))"
proof -
  from assms(5) obtain x where r: "r = Inr x"
    "case x of None \<Rightarrow> True | Some k \<Rightarrow> le_bytes 2 i \<notin> set (chunks_exact BOOT_OPTION_LEN (upto order k))"
    by (auto simp: list_ex_iff split: sum.splits option.splits)
  show ?thesis unfolding one_shot_entry_def using assms(1-4) r by blast
qed

lemma keeps_one_shot: "zero.keeps C base (delete_one_shot_entry E)"
  unfolding delete_one_shot_entry_def get_var_buf_def get_var_def delete_var_def
  by (rule zero.keepsI, intro vcg wpx_callI wpx_load_option)
    (auto simp: zero_inv_def base_inv_def safe_def fresh_def neutral_uninstall delete_allowed_def
      intro!: one_shot_entryI)

text \<open>The uninstall boot.\<close>

lemma uninstall_loop_safe:
  "set names \<subseteq> set UNINSTALL_VARS \<Longrightarrow> safe C base s
    \<Longrightarrow> wpx (safe C base) (uninstall_loop E names) s (\<lambda>_. safe C base)"
proof (induction names arbitrary: s)
  case (Cons n names)
  then have "delete_allowed tr n PAGURO_VENDOR" for tr by (simp add: delete_allowed_def)
  with Cons show ?case
    unfolding uninstall_loop.simps get_var_def delete_var_def
    by (intro vcg wpx_callI Cons.IH) (auto simp: safe_def split: prod.split)
qed (simp add: mwp)

lemma uninstall_safe: "safe C base s \<Longrightarrow> wpx (safe C base) (uninstall E) s (\<lambda>_. safe C base)"
  unfolding uninstall_def by (intro wpx_intros(1) wpx_conseq [OF uninstall_loop_safe] start_windows_safe) auto

text \<open>The constant-time comparison is equality.\<close>

lemma ct_eq_iff: "ct_eq a b \<longleftrightarrow> a = b"
proof -
  have x: "p XOR q = 0 \<longleftrightarrow> p = q" for p q :: byte
    by (metis bit.xor_self bit.xor_left_self xor.right_neutral)
  have "fold (\<lambda>(x, y) acc. acc OR (x XOR y)) zs acc = 0 \<longleftrightarrow> acc = 0 \<and> (\<forall>(p, q)\<in>set zs. p = q)"
    for zs and acc :: byte
    by (induction zs arbitrary: acc) (auto simp: or_eq_0_iff x)
  then show ?thesis
    by (auto simp: ct_eq_def list_eq_iff_zip_eq)
qed

definition config_inv :: "crypto \<Rightarrow> bytes \<Rightarrow> mstate \<Rightarrow> event list \<Rightarrow> bool" where
  "config_inv C ini x tr \<longleftrightarrow>
    config_verified C tr ini \<or> unverified x \<and> config_read tr ini \<and> ESecureBoot False \<in> set tr"

definition ini_of :: "nat option \<Rightarrow> bytes \<Rightarrow> bytes" where
  "ini_of n b = (case Option.bind n (get_range b 0) of Some x \<Rightarrow> x | None \<Rightarrow> [])"

lemma ini_of_Some [simp]: "ini_of (Some n) b = upto b n"
  by (simp add: ini_of_def upto_def get_range_def)

definition one_inv :: "crypto \<Rightarrow> event list \<Rightarrow> nat option \<Rightarrow> 's mach \<Rightarrow> bool" where
  "one_inv C base n s \<longleftrightarrow> base_inv C base s \<and> fresh (m_st s) (m_trace s)
     \<and> (ms_mode (m_st s) = Normal \<longrightarrow> config_inv C (ini_of n (bf_ini (m_bufs s))) (m_st s) (m_trace s))"

lemma stage1_inv:
  assumes "zero_inv C base s" "e_crypto E = C"
  shows "wpx (safe C base) (stage1 E) s (one_inv C base)"
  unfolding stage1_def verify_config_def read_esp_file_def secure_boot_def get_var_def prompt_def prompt_buf_def set_mode_def
  by (intro vcg wpx_callI stage.leave_never(1) [OF base_stage])
    (use assms in \<open>auto simp: one_inv_def zero_inv_def base_inv_def safe_def fresh_def neutral_uninstall config_inv_def
      config_verified_def config_read_def ct_eq_iff\<close>)

section \<open>Stages 2 and 3\<close>

text \<open>With the TPM known, before the configuration is parsed.\<close>

definition two_inv :: "crypto \<Rightarrow> event list \<Rightarrow> bytes \<Rightarrow> 's mach \<Rightarrow> bool" where
  "two_inv C base ini s \<longleftrightarrow> base_inv C base s \<and> \<not> ms_capped (m_st s) \<and> ms_vmk (m_st s) = None
     \<and> untouched False (pcr12_known (m_trace s)) \<and> (ms_tpm (m_st s) \<or> ETpmPresent False \<in> set (m_trace s))
     \<and> (ms_mode (m_st s) = Normal \<longrightarrow> config_inv C ini (m_st s) (m_trace s))"

lemma two_inv_normal: "two_inv C base ini s \<Longrightarrow> ms_mode (m_st s) = Normal \<Longrightarrow> stage_inv C base ini untouched s"
  by (auto simp: two_inv_def stage_inv_def base_inv_def state_inv_def config_inv_def)

lemma two_inv_flagged:
  assumes "two_inv C base ini s" "ms_mode x \<noteq> Normal" "unverified x"
    "ms_tpm x = ms_tpm (m_st s)" "ms_capped x = ms_capped (m_st s)" "ms_vmk x = ms_vmk (m_st s)"
  shows "stage_inv C base ini untouched (s\<lparr>m_st := x\<rparr>)"
  using assms by (auto simp: two_inv_def stage_inv_def base_inv_def state_inv_def)

lemma keeps_load_config: "early.keeps C base ini (load_config E i)"
  unfolding load_config_def by (intro keep wp_conseq [OF config_parse_wp] TrueI)

lemma stage2_inv:
  assumes "two_inv C base ini s"
  shows "wpx (safe C base) (stage2 E ini) s (\<lambda>_. stage_inv C base ini untouched)"
proof (cases "ms_mode (m_st s)")
  case Normal
  then show ?thesis
    unfolding stage2_def
    by (intro vcg) (simp, erule early.keepsD [OF keeps_load_config two_inv_normal [OF assms]])
next
  case (Recovery r)
  have "stage_inv C base ini untouched (s\<lparr>m_st := recovering_state r (m_st s)\<rparr>)"
    by (rule two_inv_flagged [OF assms]) (simp_all add: recovering_state_def)
  from early.enter_recovery_from [OF this, of E] show ?thesis
    unfolding stage2_def by (intro vcg) (auto simp: Recovery mwp elim!: wpx_conseq)
next
  case FirstBoot
  let ?s = "s\<lparr>m_st := (m_st s)\<lparr>ms_flags := ms_flags (m_st s) OR CONFIG_UNVERIFIED\<rparr>\<rparr>"
  let ?k = "ibind (pcr12_is_zero E) (\<lambda>z. ibind (set_st (\<lambda>s. s\<lparr>ms_pcr12_was_zero := z\<rparr>)) (\<lambda>_.
    ibind (cap E) (\<lambda>_. ret None))) :: ('a, config option) mm"
  have J: "stage_inv C base ini untouched ?s"
    by (rule two_inv_flagged [OF assms]) (simp_all add: FirstBoot)
  have "early.rec.keeps C base ini ?k"
    by (intro keep early.rec_cap)
  then have "wpx (safe C base) ?k ?s (\<lambda>_. stage_inv C base ini untouched)"
    by (rule early.rec.keepsD) (simp_all add: J FirstBoot)
  then show ?thesis
    unfolding stage2_def by (simp add: FirstBoot mwp)
qed

lemma pcr12_zero_wpx:
  assumes "stage_inv C base ini untouched s" "ms_mode (m_st s) = Normal"
  shows "wpx (safe C base) (pcr12_is_zero E) s
    (\<lambda>z s'. stage_inv C base ini untouched s' \<and> m_st s' = m_st s \<and> (z \<longrightarrow> pcr12_known (m_trace s') = Some []))"
proof -
  have J: "stage_inv C base ini untouched (s\<lparr>m_world := w, m_trace := EPcrRead m r # m_trace s\<rparr>)" for w m r
    using assms(1) by (intro early.J_step) (auto dest: early.J_uninstall)
  show ?thesis
    unfolding pcr12_is_zero_def tpm_pcr_read_def
    by (intro vcg wpx_callI) (use assms J in \<open>auto simp: stage_inv_def state_inv_def untouched_def\<close>)
qed

lemma length_taints [simp]: "length BOOT_TAINT = 20" "length LOAD_TAINT_EVENT = 20"
  by code_simp+

lemma ratchet_inv:
  assumes "stage_inv C base ini untouched s" "ms_mode (m_st s) = Normal"
  shows "wpx (safe C base) (ratchet E ini p) s (\<lambda>_. stage_inv C base ini (measured ini))"
proof -
  have notcapped: "\<not> ms_capped (m_st s)" if "ms_tpm (m_st s)"
    using assms that by (auto simp: stage_inv_def state_inv_def untouched_def)
  show ?thesis
    unfolding ratchet_def cap_def
    by (intro vcg wpx_conseq [OF pcr12_zero_wpx] early.leave_never(2) wpx_conseq [OF early.enter_recovery_rec]
        early.keepsD [OF early.keeps_prompt] extend12_wpx mid.keepsD [OF mid.keeps_log_pcr12(1)])
      (use assms notcapped in \<open>auto simp: stage_inv_def safe_def state_inv_def measured_def boot_taint_def
        split: if_splits option.splits\<close>)
qed

text \<open>While the volume to open is known, and once a rung has opened it.\<close>

interpretation found: stage C base "\<lambda>s. stage_inv C base ini (measured ini) s \<and> on_disk (m_trace s) part" for C base ini part
  by (rule stage_and [OF stage_inv_stage, where R = "\<lambda>x tr. on_disk tr part"])
    (auto simp: measured_def intro: on_disk_mono)

definition held :: "rung \<Rightarrow> mstate \<Rightarrow> bool" where
  "held rg x \<longleftrightarrow> rg = RUnencrypted \<or> ms_vmk x \<noteq> None"

lemma held_Unencrypted [simp]: "held RUnencrypted x"
  by (simp add: held_def)

interpretation won: stage C base "\<lambda>s. stage_inv C base ini (measured ini) s \<and> held rg (m_st s)" for C base ini rg
  by (rule stage_and [OF stage_inv_stage, where R = "\<lambda>x tr. held rg x"])
    (auto simp: measured_def held_def same_core_def)

interpretation holding: tainted_stage C base "\<lambda>s. late_inv C base ini s \<and> held rg (m_st s)" for C base ini rg
  by (rule late_and [where R = "\<lambda>x tr. held rg x"]) (auto simp: held_def same_core_def)

lemma gain_inv:
  assumes "stage_inv C base ini (measured ini) s" "on_disk (m_trace s) part"
  shows "wpx (safe C base) (gain fuel E part kind p cfg parsed) s
    (\<lambda>rg s'. stage_inv C base ini (measured ini) s' \<and> held rg (m_st s'))"
proof -
  have opened: "stage_inv C base ini (measured ini) (s\<lparr>m_world := w, m_trace := EOpen part kind r # m_trace s\<rparr>)" for w r
    using assms by (intro mid.J_step) (auto dest: mid.J_uninstall)
  have unl: "wpx (safe C base) (unlock fuel E cfg parsed) s
      (\<lambda>rg s'. stage_inv C base ini (measured ini) s' \<and> held rg (m_st s'))"
    if "stage_inv C base ini (measured ini) s" for s :: "'a mach"
    by (rule mid.opensD [OF mid.opens_unlock that]) (simp add: held_def)
  have "wpx (safe C base) (case kind of VkBitLocker \<Rightarrow> unlock fuel E cfg parsed
      | VkNtfs \<Rightarrow> if p then ibind (prompt E (ScNotice NSealOverPlaintext)) (\<lambda>_. fail BSealOverPlaintext) else ret RUnencrypted
      | VkOther \<Rightarrow> fail BNotAVolume) s (\<lambda>rg s'. stage_inv C base ini (measured ini) s' \<and> held rg (m_st s'))"
    if "stage_inv C base ini (measured ini) s" for s :: "'a mach"
    using that mid.J_safe [OF that]
    by (cases kind) (auto simp: unl mwp intro!: mid.keepsD [OF mid.keeps_prompt that] mid.J_safe)
  then show ?thesis
    unfolding gain_def vol_open_def
    by (intro vcg wpx_callI) (use opened mid.J_safe [OF opened] in auto)
qed

lemma cap_late:
  assumes "stage_inv C base ini (measured ini) s" "held rg (m_st s)"
  shows "wpx (safe C base) (cap E) s (\<lambda>_ s'. late_inv C base ini s' \<and> held rg (m_st s'))"
  unfolding cap_def
  by (intro vcg extend12_wpx holding.keepsD [OF holding.keeps_log_pcr12(1)])
    (use assms in \<open>auto simp: late_inv_def stage_inv_def safe_def state_inv_def boot_taint_def tainted_def held_def
        split: if_splits option.splits\<close>)

lemma open_volume_inv:
  assumes "stage_inv C base ini (measured ini) s" "on_disk (m_trace s) part"
  shows "wpx (safe C base) (open_volume fuel E cfg target lens part kind) s
    (\<lambda>(part, rg, entry) s'. late_inv C base ini s' \<and> held rg (m_st s'))"
  unfolding open_volume_def
  by (rule wpx_intros(1), rule found.keepsD [OF found.keeps_normal_only], use assms in simp,
      intro wpx_intros(1,2,7,12) found.keepsD [OF found.keeps_seals] found.keepsD [OF found.keeps_parse_seals]
        wpx_conseq [OF gain_inv] won.keepsD [OF won.keeps_normal_only] wpx_conseq [OF cap_late])
    auto

lemma stage3_inv:
  assumes "stage_inv C base ini untouched s"
  shows "wpx (safe C base) (stage3 fuel E ini cfg) s (\<lambda>(part, rg, entry) s'. late_inv C base ini s' \<and> held rg (m_st s'))"
proof -
  have moved: "stage_inv C base ini (measured ini) s'"
    if "stage_inv C base ini untouched s'" "ms_mode (m_st s') \<noteq> Normal" for s' :: "'a mach"
    using that by (auto simp: stage_inv_def state_inv_def)
  show ?thesis
    unfolding stage3_def
    by (intro vcg early.keepsD [OF early.keeps_seals] wpx_conseq [OF ratchet_inv]
        mid.keepsD [OF mid.keeps_load_secrets] wpx_conseq [OF mid.select_volume_keeps] open_volume_inv)
      (use assms moved in auto)
qed

section \<open>Stage 4\<close>

lemma late_flags:
  "late_inv C base ini s \<Longrightarrow> late_inv C base ini (s\<lparr>m_st := (m_st s)\<lparr>ms_flags := ms_flags (m_st s) OR f\<rparr>\<rparr>)"
  by (auto simp: late_inv_def stage_inv_def state_inv_def split: if_splits)

lemma keeps_degrade_gates: "holding.keeps C base ini rg (degrade_gates E l gs)"
proof (induction gs rule: degrade_gates.induct [of _ E l])
  case (2 E l flag nt gs)
  have "holding.keeps C base ini rg (set_st (\<lambda>s. s\<lparr>ms_flags := ms_flags s OR flag\<rparr>))"
    by (rule holding.keepsI) (auto simp: mwp late_flags held_def)
  then show ?case unfolding degrade_gates.simps by (intro keep 2)
qed (simp add: keep)

definition config_of :: "boot_mode \<Rightarrow> bytes \<Rightarrow> bytes option \<Rightarrow> bytes option" where
  "config_of md ini gen = (case md of Normal \<Rightarrow> Some ini | FirstBoot \<Rightarrow> gen | Recovery _ \<Rightarrow> None)"

lemma handoff_of_handed_over:
  assumes "late_inv C base ini s" "held rg (m_st s)" "cfgb = config_of (ms_mode (m_st s)) ini gen"
    and "po_ok pv \<Longrightarrow> \<exists>i. cfgb = Some i \<and> late.seal_made C (m_st s) i (m_trace s)"
  shows "handed_over C (m_trace s) (handoff_of part rg l cfgb c pv fk lay (m_st s))"
proof -
  let ?x = "m_st s" and ?tr = "m_trace s"
  have inv: "state_inv C ini anything ?x ?tr" using assms(1) by (simp add: late_inv_def stage_inv_def)
  show ?thesis
    unfolding handed_over_def handoff_of_def Let_def
  proof (intro conjI, simp_all only: handoff.simps h_pcrs.simps, goal_cases)
    case 1
    show ?case using inv assms(2) by (auto simp: state_inv_def held_def split: option.splits)
  next
    case 2
    show ?case using inv assms(3) by (auto simp: state_inv_def config_of_def split: boot_mode.splits if_splits)
  next
    case 3
    show ?case using assms(4) by (auto simp: handoff_provision_def late.seal_made_def)
  qed
qed

lemma hand_over_inv:
  assumes "late_inv C base ini s" "held rg (m_st s)" "cfgb = config_of (ms_mode (m_st s)) ini gen"
    and "po_ok pv \<Longrightarrow> \<exists>i. cfgb = Some i \<and> late.seal_made C (m_st s) i (m_trace s)"
  shows "wpx (safe C base) (hand_over E part rg l cfgb pv) s (\<lambda>_. late_inv C base ini)"
proof -
  let ?h = "handoff_of part rg l cfgb (bf_created (m_bufs s)) pv (v_fvek (e_vol E) (m_world s))
    (v_layout (e_vol E) (m_world s)) (m_st s)"
  have J: "late_inv C base ini (s\<lparr>m_bufs := b, m_world := w, m_trace := EPublish (upto out' n) r # m_trace s\<rparr>)"
    if "handoff_encode ?h out = Ok (n, out')" for b w n out out' r
  proof -
    have "publish_allowed C (m_trace s) (upto out' n)"
      unfolding publish_allowed_def using handoff_of_handed_over [OF assms] that by blast
    then show ?thesis
      using late.J_step [OF late.J_bufs [OF assms(1)], of "EPublish (upto out' n) r" b w]
        late.J_uninstall [OF assms(1)] late.J_tainted [OF assms(1)] by simp
  qed
  have enc: "handoff_encode h out \<noteq> Panic" for h out
    by (simp add: handoff_encode_def Let_def ok_or_def split: option.split)
  have lifted: "wpx T (lift (map_err f (handoff_encode h out))) s' Q"
    if "T s'" "\<And>n out'. handoff_encode h out = Ok (n, out') \<Longrightarrow> Q (n, out') s'" for T f h out s' Q
    using that enc [of h out] by (cases "handoff_encode h out") (auto simp: wpx_def lift_def)
  have again: "late_inv C base ini (s\<lparr>m_bufs := b, m_world := w, m_trace := EPublish (upto out' n) r # m_trace s, m_bufs := b'\<rparr>)"
    if "handoff_encode ?h out = Ok (n, out')" for b b' w n out out' r
    using late.J_bufs [OF J [OF that]] by simp
  show ?thesis
    unfolding hand_over_def build_handoff_def publish_handoff_def
    by (intro vcg, simp only: wpx_peek, intro vcg lifted wpx_callI late.keepsD [OF late.keeps_start_image])
      (use J again late.J_safe [OF J] late.J_safe [OF assms(1)] in auto)
qed

interpretation sure: tainted_stage C base "\<lambda>s. late_inv C base ini s \<and> held rg (m_st s) \<and> ms_mode (m_st s) = md"
  for C base ini rg md
  using late_and [where R = "\<lambda>x tr. held rg x \<and> ms_mode x = md"] by (auto simp: held_def same_core_def)

text \<open>The end of stage 4, once the mode is read for the last time.\<close>

definition conclude where
  "conclude E ini part rg l md = ibind
    (if rg = RBootstrap \<and> md = FirstBoot then provision E part l else ret (None, provision_new)) (\<lambda>(gen_len, pv).
    ibind (delete_setup E) (\<lambda>_.
    ibind (buf bf_gen_ini) (\<lambda>g.
    hand_over E part rg l (config_of md ini (Option.bind gen_len (get_range g 0))) pv)))"

lemma conclude_inv:
  assumes "late_inv C base ini s" "held rg (m_st s)" "ms_mode (m_st s) = md" "e_crypto E = C"
  shows "wpx (safe C base) (conclude E ini part rg l md) s (\<lambda>_. late_inv C base ini)"
proof -
  let ?made = "\<lambda>n pv s'. po_ok pv \<longrightarrow> md = FirstBoot \<and> (\<exists>i. Option.bind n (get_range (bf_gen_ini (m_bufs s')) 0) = Some i
      \<and> late.seal_made C (m_st s') i (m_trace s'))"
  let ?J = "\<lambda>s'. late_inv C base ini s' \<and> held rg (m_st s') \<and> ms_mode (m_st s') = md"
  have del: "?J (s'\<lparr>m_world := w, m_trace := EDelVar VAR_SETUP PAGURO_VENDOR r # m_trace s'\<rparr>)
      \<and> ?made n pv (s'\<lparr>m_world := w, m_trace := EDelVar VAR_SETUP PAGURO_VENDOR r # m_trace s'\<rparr>)"
    if "?J s' \<and> ?made n pv s'" for s' :: "'a mach" and w r n pv
    using that sure.J_step [of C base ini s' rg md "EDelVar VAR_SETUP PAGURO_VENDOR r" w] by (auto simp: late.seal_made_def)
  have tail: "wpx (safe C base) (ibind (delete_setup E) (\<lambda>_. ibind (buf bf_gen_ini) (\<lambda>g.
      hand_over E part rg l (config_of md ini (Option.bind n (get_range g 0))) pv))) s' (\<lambda>_. late_inv C base ini)"
    if "?J s' \<and> ?made n pv s'" for s' :: "'a mach" and n pv
    unfolding delete_setup_def delete_var_def
    by (intro vcg wpx_callI hand_over_inv) (use that del [OF that] in \<open>auto simp: config_of_def\<close>)
  show ?thesis
    unfolding conclude_def
    by (rule wpx_intros(1), intro wpx_intros(2,7) wpx_conseq [OF sure.provision_wpx] wpx_intros(4) tail)
      (use assms in \<open>auto simp: provision_new_def\<close>)
qed

lemma stage4_inv:
  assumes "late_inv C base ini s" "held rg (m_st s)" "e_crypto E = C"
  shows "wpx (safe C base) (stage4 fuel E ini part rg entry) s (\<lambda>_. late_inv C base ini)"
proof -
  have "stage4 fuel E ini part rg entry = ibind (locate_target fuel E part entry) (\<lambda>l.
      ibind (degrade_gates E l GATES) (\<lambda>_. ibind (st ms_mode) (conclude E ini part rg l)))"
    unfolding stage4_def conclude_def config_of_def ..
  then show ?thesis
    by (simp only:) (intro wpx_intros(1,11) holding.keepsD [OF holding.keeps_locate]
        holding.keepsD [OF keeps_degrade_gates] conclude_inv; use assms in auto)
qed

section \<open>The whole machine\<close>

text \<open>The first calls of every boot: the installer's payload is read, and deleted when there is one.\<close>

definition bootstrap_first :: "event list \<Rightarrow> bool" where
  "bootstrap_first tr \<longleftrightarrow> (\<exists>r b d. tr = [EGetVar BST_VAR_NAME PAGURO_VENDOR (Inr None) b]
     \<or> tr = [EDelVar BST_VAR_NAME PAGURO_VENDOR d, EGetVar BST_VAR_NAME PAGURO_VENDOR r b])"

definition finished :: "crypto \<Rightarrow> 's mach \<Rightarrow> bool" where
  "finished C s \<longleftrightarrow> (\<exists>base. bootstrap_first base \<and> safe C base s)"

lemma zero_start:
  assumes "bootstrap_first base" "m_trace s = base" "m_st s = initial_state"
  shows "zero_inv C base s"
  using assms by (auto simp: bootstrap_first_def zero_inv_def base_inv_def safe_def uninstall_asked_def fresh_def
      untouched_def initial_state_def)

lemma take_bootstrap_inv:
  "wpx (finished C) (take_bootstrap E) (start bufs w) (\<lambda>_ s'. \<exists>base. bootstrap_first base \<and> zero_inv C base s')"
proof -
  have tail: "wpx (finished C) (ibind (take_payload n p) (\<lambda>_. delete_one_shot_entry E)) s
      (\<lambda>_ s'. \<exists>base. bootstrap_first base \<and> zero_inv C base s')"
    if "bootstrap_first (m_trace s)" "m_st s = initial_state" for n p and s :: "'a mach"
  proof -
    have "zero.keeps C (m_trace s) (ibind (take_payload n p) (\<lambda>_. delete_one_shot_entry E))"
      by (intro keep keeps_take_payload keeps_one_shot)
    from zero.keepsD [OF this zero_start [OF that(1) refl that(2)], where Q = "\<lambda>_. zero_inv C (m_trace s)"] show ?thesis
      by (rule wpx_weaken) (use that(1) in \<open>auto simp: finished_def\<close>)
  qed
  have "zero_inv C [EGetVar BST_VAR_NAME PAGURO_VENDOR (Inr None) b]
      ((start bufs w)\<lparr>m_world := w', m_trace := [EGetVar BST_VAR_NAME PAGURO_VENDOR (Inr None) b]\<rparr>)" for b w'
    by (rule zero_start) (auto simp: bootstrap_first_def start_def)
  then show ?thesis
    unfolding take_bootstrap_def get_var_def delete_var_def
    by (intro wpx_intros(1) wpx_callI wpx_intros(2,4,6,7) tail)
      (auto simp: bootstrap_first_def start_def)
qed

definition after_bootstrap where
  "after_bootstrap fuel E =
    ibind (uninstall_requested E) (\<lambda>u.
    if u then ibind (uninstall E) done' else
    ibind (stage1 E) (\<lambda>ini_len.
    ibind (buf bf_ini) (\<lambda>b.
    ibind (tpm_present E) (\<lambda>t.
    ibind (set_st (\<lambda>s. s\<lparr>ms_tpm := t\<rparr>)) (\<lambda>_.
    ibind (stage2 E (ini_of ini_len b)) (\<lambda>cfg.
    ibind (stage3 fuel E (ini_of ini_len b) cfg) (\<lambda>(part, rg, entry).
    stage4 fuel E (ini_of ini_len b) part rg entry)))))))"

lemma go_eq: "go fuel E = ibind (take_bootstrap E) (\<lambda>_. after_bootstrap fuel E)"
  unfolding go_def after_bootstrap_def ini_of_def Let_def ..

lemma one_two:
  assumes "one_inv C base n s"
  shows "two_inv C base (ini_of n (bf_ini (m_bufs s)))
    (s\<lparr>m_world := w, m_trace := ETpmPresent t # m_trace s, m_st := (m_st s)\<lparr>ms_tpm := t\<rparr>\<rparr>)"
  using assms by (auto simp: one_inv_def two_inv_def base_inv_def safe_def neutral_uninstall fresh_def config_inv_def)

lemma after_bootstrap_inv:
  assumes "zero_inv C base s" "e_crypto E = C"
  shows "wpx (safe C base) (after_bootstrap fuel E) s (\<lambda>_. safe C base)"
proof -
  have asked: "zero_inv C base (s\<lparr>m_world := w, m_trace := EGetVar VAR_UNINSTALL PAGURO_VENDOR r b # m_trace s\<rparr>)"
    if "r \<noteq> Inr (Some UNINSTALL_VAR_LEN)" for w r b
    using assms(1) that by (auto simp: zero_inv_def base_inv_def safe_def uninstall_asked_def fresh_def)
  have "safe C base (s\<lparr>m_world := w, m_trace := EGetVar n v r b # m_trace s\<rparr>)" for w n v r b
    using assms(1) by (simp add: zero.J_safe)
  then show ?thesis
    unfolding after_bootstrap_def uninstall_requested_def get_var_def tpm_present_def
    by (intro vcg wpx_callI wpx_conseq [OF uninstall_safe] wpx_conseq [OF stage1_inv] wpx_conseq [OF stage2_inv]
        wpx_conseq [OF stage3_inv] wpx_conseq [OF stage4_inv])
      (use assms(2) asked in \<open>auto simp: one_two late.J_safe\<close>)
qed

lemma go_inv:
  assumes "e_crypto E = C"
  shows "wpx (finished C) (go fuel E) (start bufs w) (\<lambda>_. finished C)"
  unfolding go_eq
proof (intro wpx_intros(1), rule wpx_conseq [OF take_bootstrap_inv], elim exE conjE, goal_cases)
  case (1 x s' base)
  show ?case
    by (rule wpx_weaken [OF after_bootstrap_inv [OF 1(2) assms]]) (use 1 in \<open>auto simp: finished_def\<close>)
qed

lemma finished_prompt:
  "finished C s \<Longrightarrow> wpx (finished C) (prompt E sc) s (\<lambda>_. finished C)"
  unfolding prompt_def prompt_buf_def
  by (intro vcg wpx_callI) (auto simp: finished_def split: prod.split)

lemma halted_inv: "finished C s \<Longrightarrow> wpx (finished C) (halted E e) s (\<lambda>_. finished C)"
  unfolding halted_def by (intro vcg wpx_conseq [OF finished_prompt]) auto

lemma outcome_inv:
  "wpx (finished C) m s (\<lambda>_. finished C) \<Longrightarrow> wpx (finished C) (outcome_of E m) s (\<lambda>_. finished C)"
proof -
  assume m: "wpx (finished C) m s (\<lambda>_. finished C)"
  have failed: "wpx (finished C) (outcome_of E m) s (\<lambda>_. finished C)" if "m s = (Err (Failed e), s')" for e s'
  proof -
    have "finished C s'" using m that by (simp add: wpx_def)
    then have h: "wpx (finished C) (halted E e) s' (\<lambda>_. finished C)" by (rule halted_inv)
    have eq: "outcome_of E m s = halted E e s'" by (simp add: outcome_of_def that)
    show ?thesis using h unfolding wpx_def eq .
  qed
  show ?thesis
  proof (cases "\<exists>e s'. m s = (Err (Failed e), s')")
    case True
    then show ?thesis using failed by blast
  next
    case False
    then show ?thesis using m
      by (auto simp: wpx_def outcome_of_def split: prod.splits res.splits exit.splits)
  qed
qed

lemma run_inv: "finished (e_crypto E) (snd (run fuel E bufs w))" "fst (run fuel E bufs w) \<noteq> Panic"
proof -
  have w: "wpx (finished C) wipe s (\<lambda>_. finished C)" if "finished C s" for C and s :: "'a mach"
    using that by (simp add: wipe_def mwp finished_def)
  have "wpx (finished (e_crypto E)) (ibind (outcome_of E (go fuel E)) (\<lambda>o'. ibind wipe (\<lambda>_. ret o')))
      (start bufs w) (\<lambda>_. finished (e_crypto E))"
    by (intro wpx_intros(1) wpx_conseq [OF outcome_inv [OF go_inv]] wpx_conseq [OF w] wpx_intros(7)) auto
  then show "finished (e_crypto E) (snd (run fuel E bufs w))" "fst (run fuel E bufs w) \<noteq> Panic"
    by (auto simp: wpx_def run_def split: res.splits)
qed

section \<open>Properties\<close>

lemma run_policed: "policed (allowed (e_crypto E)) (m_trace (snd (run fuel E bufs w)))"
  using run_inv(1) [of E fuel bufs w] by (auto simp: finished_def safe_def)

definition unseal_rule :: "crypto \<Rightarrow> event list \<Rightarrow> event \<Rightarrow> bool" where
  "unseal_rule C tr e = (case e of EUnseal _ _ _ _ _ \<Rightarrow> unseal_allowed C tr | _ \<Rightarrow> True)"

definition volume_rule :: "event list \<Rightarrow> event \<Rightarrow> bool" where
  "volume_rule tr e = (case e of
      EOpen p _ _ \<Rightarrow> on_disk tr p
    | EPublish _ _ \<Rightarrow> tainted tr
    | _ \<Rightarrow> if volume_event e then tainted tr else True)"

definition handoff_rule :: "crypto \<Rightarrow> event list \<Rightarrow> event \<Rightarrow> bool" where
  "handoff_rule C tr e = (case e of EPublish b _ \<Rightarrow> publish_allowed C tr b | _ \<Rightarrow> True)"

definition firmware_rule :: "event list \<Rightarrow> event \<Rightarrow> bool" where
  "firmware_rule tr e = (case e of
      ESetVar name vendor attrs d _ \<Rightarrow> set_allowed tr name vendor attrs d
    | EDelVar name vendor _ \<Rightarrow> delete_allowed tr name vendor
    | EReset \<Rightarrow> (\<exists>d. ESetVar VAR_BOOT_NEXT EFI_GLOBAL_VARIABLE NV_BS_RT d (Inr ()) \<in> set tr)
    | EGetVar _ _ _ _ \<Rightarrow> True
    | EPrompt _ _ \<Rightarrow> True
    | _ \<Rightarrow> \<not> uninstall_asked tr)"

text \<open>
  C1.  The TPM is asked to release a key only in a state that the configuration determines: whatever
  the firmware, the disks, the TPM and the user do, at every unseal PCR 12 has been read as zero and
  then extended exactly once, with the configuration in use or with the boot taint; and that
  configuration is the file read from the system partition, whose hash matched the stored one under
  Secure Boot unless Secure Boot is off.
\<close>

theorem unseal_only_measured:
  "policed (unseal_rule (e_crypto E)) (m_trace (snd (run fuel E bufs w)))"
  by (rule policed_mono [OF run_policed]) (auto simp: unseal_rule_def split: event.split)

text \<open>
  C2.  On a machine with a TPM the contents of a volume are used only after the boot taint: before a
  directory is listed, a file located, an image read or started, a new seal made or the handoff
  published, the taint has been extended into PCR 12, so that nothing on the volume can have the key
  released again.  The volume that is opened is a partition inside a disk, as the firmware described it.
\<close>

theorem boot_taint_before_use:
  "policed volume_rule (m_trace (snd (run fuel E bufs w)))"
  by (rule policed_mono [OF run_policed]) (auto simp: volume_rule_def split: event.split)

text \<open>
  C3.  What is published is the encoding of a handoff in which the volume key is one the volume
  confirmed (or there is none and the volume is not encrypted); in which the configuration is the
  verified one unless the handoff says that it is unverified; and in which a seal was made for the
  recorded PCR values and the PCR 12 that measuring the configuration handed over will give.
\<close>

theorem handoff_trustworthy:
  "policed (handoff_rule (e_crypto E)) (m_trace (snd (run fuel E bufs w)))"
  by (rule policed_mono [OF run_policed]) (auto simp: handoff_rule_def split: event.split)

text \<open>
  C4.  What a boot does to the firmware's variables.  The first call reads the installer's payload,
  and when there is one the next deletes it.  Only \<open>PaguroB\<close> (not visible to the operating system) and
  \<open>PaguroTpmBroken\<close> are written, and \<open>BootNext\<close>, with the number of an entry that was read and is
  Windows Boot Manager's; only paguro's variables are deleted, and a boot entry of paguro's that is
  not in \<open>BootOrder\<close>; a reset follows a \<open>BootNext\<close> that was set.  Once an uninstall request has been
  read, nothing else is done at all: no disk, volume or TPM is touched.
\<close>

theorem firmware_writes_confined:
  "policed firmware_rule (m_trace (snd (run fuel E bufs w)))
   \<and> (\<exists>first later. m_trace (snd (run fuel E bufs w)) = later @ first \<and> bootstrap_first first)"
proof
  show "policed firmware_rule (m_trace (snd (run fuel E bufs w)))"
    by (rule policed_mono [OF run_policed]) (auto simp: firmware_rule_def split: event.split)
  show "\<exists>first later. m_trace (snd (run fuel E bufs w)) = later @ first \<and> bootstrap_first first"
    using run_inv(1) [of E fuel bufs w] by (auto simp: finished_def safe_def)
qed

end
