(* ===== verification/MachineEnds.thy ===== *)
theory MachineEnds
  imports MachineCorrect
begin

text \<open>
  How a boot ends.  The loops of the machine all wait for the user, and every round of each asks at
  least once: running out of fuel means that the user was asked at least that often.  When the
  machine ends, the caller's buffers of secrets hold zeros.
\<close>

section \<open>Fuel and questions\<close>

fun is_question :: "event \<Rightarrow> bool" where
  "is_question (EPrompt _ _) = True"
| "is_question (EBrowse _ _) = True"
| "is_question _ = False"

definition asked :: "event list \<Rightarrow> nat" where
  "asked tr = length (filter is_question tr)"

lemma asked_Cons [simp]: "asked (e # tr) = (if is_question e then Suc (asked tr) else asked tr)"
  by (simp add: asked_def)

text \<open>
  \<open>asking f m\<close>: \<open>m\<close> never takes a question back, and runs out of fuel only after \<open>f\<close> more of them;
  \<open>asks m\<close>: it does not run out of fuel, and returns only after a question.
\<close>

definition asking :: "nat \<Rightarrow> ('s, 'a) mm \<Rightarrow> bool" where
  "asking f m \<longleftrightarrow> (\<forall>s. (fst (m s) \<noteq> Panic \<longrightarrow> asked (m_trace s) \<le> asked (m_trace (snd (m s))))
     \<and> (fst (m s) = Err OutOfFuel \<longrightarrow> asked (m_trace s) + f \<le> asked (m_trace (snd (m s)))))"

definition asks :: "('s, 'a) mm \<Rightarrow> bool" where
  "asks m \<longleftrightarrow> (\<forall>s x. fst (m s) \<noteq> Err OutOfFuel \<and> (fst (m s) \<noteq> Panic \<longrightarrow> asked (m_trace s) \<le> asked (m_trace (snd (m s))))
     \<and> (fst (m s) = Ok x \<longrightarrow> asked (m_trace s) < asked (m_trace (snd (m s)))))"

named_theorems ask

lemma map_err_Failed [simp]: "map_err (\<lambda>e. Failed (er e)) r \<noteq> Err OutOfFuel"
  by (cases r) simp_all

lemma asking_prims [ask]:
  "asking f (ret x)" "asking f (fail e)" "asking f (done' o')" "asking f (try' g r)" "asking f (st h)" "asking f (buf h')"
  "asking f (peek p)" "asking f (set_st u)" "asking f (set_buf u')" "asking f (call c ev)" "asking f (attempt r')"
  "asking f (plain r'')" "asking f (lift (map_err (\<lambda>e. Failed (er e)) r3))" "asking 0 (lift (Err ex))"
  by (auto simp: asking_def ret_def fail_def done'_def try'_def st_def buf_def peek_def set_st_def set_buf_def call_def
      attempt_def plain_def lift_def split: sum.split prod.split res.split option.split)

lemma asking_weaken: "asking f m \<Longrightarrow> f' \<le> f \<Longrightarrow> asking f' m"
  unfolding asking_def by (meson add_le_mono le_refl le_trans)

lemma ibind_eq:
  "fst (m s) = Ok x \<Longrightarrow> ibind m k s = k x (snd (m s))" "fst (m s) = Err e \<Longrightarrow> ibind m k s = (Err e, snd (m s))"
  "fst (m s) = Panic \<Longrightarrow> ibind m k s = (Panic, snd (m s))"
  by (auto simp: ibind_def split: prod.split)

lemma asking_ibind [ask]:
  assumes m: "asking f m" and k: "\<And>x. asking f (k x)"
  shows "asking f (ibind m k)"
  unfolding asking_def
proof
  fix s
  from m have "fst (m s) \<noteq> Panic \<Longrightarrow> asked (m_trace s) \<le> asked (m_trace (snd (m s)))"
    "fst (m s) = Err OutOfFuel \<Longrightarrow> asked (m_trace s) + f \<le> asked (m_trace (snd (m s)))" by (auto simp: asking_def)
  with k show "(fst (ibind m k s) \<noteq> Panic \<longrightarrow> asked (m_trace s) \<le> asked (m_trace (snd (ibind m k s))))
     \<and> (fst (ibind m k s) = Err OutOfFuel \<longrightarrow> asked (m_trace s) + f \<le> asked (m_trace (snd (ibind m k s))))"
    by (cases "fst (m s)") (auto simp: ibind_eq asking_def intro: le_trans order.trans [OF add_le_mono1])
qed

lemma asking_asks:
  assumes m: "asks m" and k: "\<And>x. asking f (k x)"
  shows "asking (Suc f) (ibind m k)"
  unfolding asking_def
proof
  fix s
  from m have "fst (m s) \<noteq> Err OutOfFuel" "fst (m s) \<noteq> Panic \<Longrightarrow> asked (m_trace s) \<le> asked (m_trace (snd (m s)))"
    "\<And>x. fst (m s) = Ok x \<Longrightarrow> Suc (asked (m_trace s)) \<le> asked (m_trace (snd (m s)))"
    by (auto simp: asks_def Suc_le_eq)
  moreover have "fst (k x s') \<noteq> Panic \<longrightarrow> asked (m_trace s') \<le> asked (m_trace (snd (k x s')))"
    "fst (k x s') = Err OutOfFuel \<longrightarrow> asked (m_trace s') + f \<le> asked (m_trace (snd (k x s')))" for x s'
    using k [of x] by (auto simp: asking_def)
  ultimately show "(fst (ibind m k s) \<noteq> Panic \<longrightarrow> asked (m_trace s) \<le> asked (m_trace (snd (ibind m k s))))
     \<and> (fst (ibind m k s) = Err OutOfFuel \<longrightarrow> asked (m_trace s) + Suc f \<le> asked (m_trace (snd (ibind m k s))))"
    by (cases "fst (m s)") (fastforce simp: ibind_eq)+
qed

lemma asks_asking: "asks m \<Longrightarrow> asking f m"
  by (auto simp: asking_def asks_def)

lemma asking_never:
  assumes "\<And>f. asking f m"
  shows "fst (m s) \<noteq> Err OutOfFuel" "fst (m s) \<noteq> Panic \<Longrightarrow> asked (m_trace s) \<le> asked (m_trace (snd (m s)))"
  using assms [of "Suc (asked (m_trace (snd (m s))))"] by (auto simp: asking_def)

lemma asks_ibind:
  "asks m \<Longrightarrow> (\<And>x f. asking f (k x)) \<Longrightarrow> asks (ibind m k)"
  "(\<And>f. asking f m) \<Longrightarrow> (\<And>x. asks (k' x)) \<Longrightarrow> asks (ibind m k')"
proof -
  show "asks (ibind m k)" if m: "asks m" and k: "\<And>x f. asking f (k x)"
    unfolding asks_def
  proof (intro allI, goal_cases)
    case (1 s y)
    have "fst (k x s') \<noteq> Err OutOfFuel" "fst (k x s') \<noteq> Panic \<Longrightarrow> asked (m_trace s') \<le> asked (m_trace (snd (k x s')))" for x s'
      using asking_never [OF k] by blast+
    moreover have "fst (m s) \<noteq> Err OutOfFuel" "fst (m s) \<noteq> Panic \<Longrightarrow> asked (m_trace s) \<le> asked (m_trace (snd (m s)))"
      "\<And>x. fst (m s) = Ok x \<Longrightarrow> asked (m_trace s) < asked (m_trace (snd (m s)))"
      using m by (auto simp: asks_def)
    ultimately show ?case
      by (cases "fst (m s)") (auto simp: ibind_eq intro: le_trans less_le_trans le_trans [OF less_imp_le])
  qed
  show "asks (ibind m k')" if m: "\<And>f. asking f m" and k: "\<And>x. asks (k' x)"
    unfolding asks_def
  proof (intro allI, goal_cases)
    case (1 s y)
    have "fst (m s) \<noteq> Err OutOfFuel" "fst (m s) \<noteq> Panic \<Longrightarrow> asked (m_trace s) \<le> asked (m_trace (snd (m s)))"
      using asking_never [OF m] by blast+
    moreover have "fst (k' x s') \<noteq> Err OutOfFuel" "fst (k' x s') \<noteq> Panic \<Longrightarrow> asked (m_trace s') \<le> asked (m_trace (snd (k' x s')))"
      "\<And>y. fst (k' x s') = Ok y \<Longrightarrow> asked (m_trace s') < asked (m_trace (snd (k' x s')))" for x s'
      using k [of x] by (auto simp: asks_def)
    ultimately show ?case
      by (cases "fst (m s)") (auto simp: ibind_eq intro: le_trans le_less_trans le_trans [OF _ less_imp_le])
  qed
qed

lemma asking_cases [ask]:
  "asking f a \<Longrightarrow> asking f b \<Longrightarrow> asking f (if c then a else b)"
  "asking f a \<Longrightarrow> (\<And>y. asking f (g y)) \<Longrightarrow> asking f (case x of None \<Rightarrow> a | Some y \<Rightarrow> g y)"
  "(\<And>y z. asking f (h y z)) \<Longrightarrow> asking f (case p of (y, z) \<Rightarrow> h y z)"
  "(\<And>e. asking f (h1 e)) \<Longrightarrow> (\<And>y. asking f (h2 y)) \<Longrightarrow> asking f (case r of Inl e \<Rightarrow> h1 e | Inr y \<Rightarrow> h2 y)"
  "asking f (l v) \<Longrightarrow> asking f (Let v l)"
  by (auto split: option.split prod.split sum.split)

lemma asking_data [ask]:
  assumes "\<And>x. asking f (f1 x)" "\<And>x. asking f (f2 x)" "\<And>x. asking f (f3 x)" "\<And>x. asking f (f4 x)" "asking f f5" "asking f f6"
    "asking f f7" "asking f f8" "asking f f9" "asking f f10" "asking f f11" "asking f f12" "asking f f13"
  shows "asking f (case_input f1 f2 f3 f4 f5 f6 f7 f8 f9 f10 f11 f12 f13 i)"
  using assms by (cases i) auto

lemma asking_kinds [ask]:
  "asking f a \<Longrightarrow> asking f b \<Longrightarrow> asking f c \<Longrightarrow> asking f (case_volume_kind a b c k)"
  "asking f a \<Longrightarrow> asking f b \<Longrightarrow> asking f c \<Longrightarrow> asking f (case_row a b c rw)"
  "asking f a \<Longrightarrow> (\<And>r. asking f (g r)) \<Longrightarrow> asking f c \<Longrightarrow> asking f (case_boot_mode a g c md)"
  "(\<And>x. asking f (g1 x)) \<Longrightarrow> (\<And>x y z. asking f (g2 x y z)) \<Longrightarrow> (\<And>x y z. asking f (g3 x y z)) \<Longrightarrow> asking f (case_picked g1 g2 g3 p)"
  by (auto split: volume_kind.split row.split boot_mode.split picked.split)

lemma asking_calls [ask]:
  "asking f (read_esp_file E name b)" "asking f (secure_boot E)" "asking f (disk_count E)" "asking f (disk_info_of E d)"
  "asking f (read_blocks E d lba b)" "asking f (random E b)" "asking f (prompt_buf E sc b)" "asking f (prompt_browse E sc' v)"
  "asking f (ui_prefs E u)" "asking f (vol_fvek_blob E b)" "asking f (vol_clear_key E)" "asking f (vol_try_vmk E k)"
  "asking f (vol_recovery_key E k)" "asking f (vol_bitlocker_password E u')" "asking f (tpm_pcr_read E msk)"
  "asking f (tpm_read_clock E)" "asking f (tpm_lockout E)" "asking f (get_var E name vendor b)"
  "asking f (set_var E name vendor a b)" "asking f (delete_var E name vendor)" "asking f (tpm_present E)"
  "asking f (hash_log_extend E pcr b ev)" "asking f (publish_handoff E b)" "asking f (load_start_image E b)"
  "asking f (load_start_image_buffer E b)" "asking f (reset E)" "asking f (vol_open E part vk)"
  "asking f (vol_locate E e l)" "asking f (vol_efi_image E)" "asking f (vol_list_dir E pth)"
  "asking f (vol_list_efi_dir E pth pth')" "asking f (tpm_unseal E x1 x2 x3 x4 x5)" "asking f (tpm_create_sealed E x1 x2 x5 x6)"
  unfolding calls by (rule asking_prims)+

lemma asks_prompts:
  "asks (prompt E sc)" "asks (prompt_browse E sc v)" "asks (browse E lv cwd from d)"
  by (auto simp: asks_def prompt_def prompt_buf_def prompt_browse_def browse_def call_def ibind_def ret_def lift_def
      split: prod.split)

lemmas asking_prompts [ask] = asks_prompts [THEN asks_asking]

text \<open>Everything without a loop of its own, and the loops over lists.\<close>

lemma asking_windows [ask]:
  "asking f (start_windows E)" "asking f (leave_to_windows E)" "asking f (start_windows_no_var E)"
proof -
  have loop: "asking f (windows_loop E is)" for "is"
    by (induction "is") (auto simp: get_var_buf_def intro!: ask)
  show sw: "asking f (start_windows E)"
    unfolding start_windows_def by (intro ask loop)
  show "asking f (leave_to_windows E)" "asking f (start_windows_no_var E)"
    unfolding leave_to_windows_def start_windows_no_var_def by (intro ask sw)+
qed

lemma asking_stage0 [ask]: "asking f (take_bootstrap E)" "asking f (uninstall_requested E)" "asking f (uninstall E)"
proof -
  have loop: "asking f (uninstall_loop E ns)" for ns
    by (induction ns) (auto intro!: ask)
  show "asking f (take_bootstrap E)" "asking f (uninstall_requested E)" "asking f (uninstall E)"
    unfolding take_bootstrap_def take_payload_def delete_one_shot_entry_def uninstall_requested_def uninstall_def
      get_var_buf_def
    by (intro ask loop)+
qed

lemma asking_pcr12 [ask]: "asking f (pcr12_is_zero E)" "asking f (cap E)" "asking f (enter_recovery E r)" "asking f (ratchet E i p)"
  unfolding pcr12_is_zero_def cap_def enter_recovery_def ratchet_def extend12_def log_pcr12_def by (intro ask)+

lemma asking_stage12 [ask]: "asking f (stage1 E)" "asking f (stage2 E i)"
  unfolding stage1_def verify_config_def set_mode_def stage2_def load_config_def by (intro ask)+

lemma asking_seals [ask]: "asking f (read_seals E v)" "asking f (parse_seals ks bs ns)"
proof -
  have loop: "asking f (seals_loop E v ks bs)" for ks bs
    by (induction ks bs rule: seals_loop.induct [of _ E v]) (auto intro!: ask)
  show "asking f (read_seals E v)" unfolding read_seals_def by (intro ask loop)
  show "asking f (parse_seals ks bs ns)"
    by (induction ks bs ns rule: parse_seals.induct) (auto intro!: ask)
qed

lemma asking_for_each:
  assumes visit: "\<And>e p v. asking f (visit e p v)"
  shows "asking f (for_each_partition E visit v)"
proof -
  have entries: "asking f (entry_loop visit es disk info is v)" for es disk info "is" v
    by (induction "is" arbitrary: v) (auto intro!: ask visit)
  have table: "asking f (read_table E disk info)" for disk info
    unfolding read_table_def set_front_def by (intro ask)
  have disks: "asking f (disk_loop E visit ds v)" for ds v
    by (induction ds arbitrary: v) (auto simp: disk_step_def intro!: ask entries table)
  show ?thesis unfolding for_each_partition_def by (intro ask disks)
qed

lemma asking_volume [ask]: "asking f (select_volume E target)" "asking f (load_secrets E)"
  unfolding select_volume_def find_partition_def probe_found_def probe_def enumerate_volume_def
    enumerate_candidates_def enumerate_visit_def pick_candidate_def load_secrets_def load_b_def load_s_def
  by (intro ask asking_for_each)+

lemma asking_keys [ask]: "asking f (blob E)" "asking f (accept E k)" "asking f (clear_tpm_broken E)" "asking f (tpm_failed E c)"
  unfolding blob_def accept_def clear_tpm_broken_def tpm_failed_def by (intro ask)+ (cases c; simp add: ask)

lemma asking_rungs [ask]:
  "asking f (try_pin_bypass E cfg parsed)" "asking f (try_clear_key E)" "asking f (query_lockout E cfg parsed)"
  "asking f (try_row E rw pw cfg parsed)"
  unfolding try_pin_bypass_def try_clear_key_def query_lockout_def try_row_def try_recovery_key_def try_password_def
    try_password_hash_def or_else_def try_setup_def try_passphrase_def try_bootstrap_def try_volume_password_def
    try_tpm_last_def try_tpm_def accept_as_def
  by (intro ask)+

lemma asking_typed_path [ask]: "asking f (typed_path E lv old)" "asking f (list_dir E lv p)" "asking f (list_efi_dir E d p)"
  "asking f (refuse E ok)"
  unfolding typed_path_def list_dir_def list_efi_dir_def refuse_def by (intro ask)+

section \<open>The loops\<close>

lemma asking_choice [ask]: "asking f (choose_row E menu i)" "asking f (enter_secret E rw u)"
  unfolding choose_row_def enter_secret_def by (intro ask)+

lemma asking_unlock_loop: "asking fuel (unlock_loop fuel E cfg parsed)"
proof (induction fuel)
  case (Suc fuel)
  show ?case
    unfolding unlock_loop.simps Let_def
    by (rule asking_ibind, rule ask, rule asking_ibind, rule ask, rule asking_asks [OF asks_prompts(1)]) (intro ask Suc)
qed (simp add: ask)

lemma asking_unlock: "asking fuel (unlock fuel E cfg parsed)"
  unfolding unlock_def or_else_def by (intro ask asking_unlock_loop)

lemma asking_browse_root: "asking fuel (browse_root fuel E cwd from out)"
proof (induction fuel arbitrary: cwd "from" out)
  case (Suc fuel)
  show ?case
    unfolding browse_root.simps
    by (rule asking_ibind, rule ask, rule asking_asks [OF asks_prompts(3)]) (intro ask Suc)
qed (simp add: ask)

lemma asking_browse_efi: "asking fuel (browse_efi_partition fuel E cwd from out)"
proof (induction fuel arbitrary: cwd "from" out)
  case (Suc fuel)
  show ?case
    unfolding browse_efi_partition.simps
    by (rule asking_ibind [OF asking_typed_path(3)], rule asking_cases(2),
        rule asking_ibind [OF asking_prompts(1)], rule ask, rule asking_asks [OF asks_prompts(3)])
      (intro ask Suc)
qed (simp add: ask)

lemma asking_disk_start: "asking fuel (disk_start fuel E out)"
proof (induction fuel arbitrary: out)
  case (Suc fuel)
  show ?case
    unfolding disk_start.simps
    by (rule asking_asks [OF asks_prompts(1)]) (intro ask Suc asking_browse_efi)
qed (simp add: ask)

lemma asks_pick_target: "asks (pick_target E cwd from out)"
  unfolding pick_target_def
  by (rule asks_ibind(2) [OF asking_typed_path(2)], rule asks_ibind(1) [OF asks_prompts(3)]) (intro ask)

lemma asking_pick_auto [ask]: "asking f (pick_auto d cwd out)"
  unfolding pick_auto_def by (intro ask)

lemma asking_choose_loop:
  "asking (if auto then fuel - 1 else fuel) (choose_loop fuel E d disks only auto cwd from out)"
proof (induction fuel arbitrary: auto cwd "from" out)
  case (Suc fuel)
  have IH: "asking fuel (choose_loop fuel E d disks only False cwd from out)" for cwd "from" out
    using Suc [of False] by simp
  show ?case
  proof (cases auto)
    case True
    then show ?thesis
      unfolding choose_loop.simps by (simp only: if_True diff_Suc_1)
        (rule asking_ibind [OF asking_pick_auto], intro ask IH asking_disk_start asking_browse_root)
  next
    case False
    then show ?thesis
      unfolding choose_loop.simps by (simp only: if_False)
        (rule asking_asks [OF asks_pick_target], intro ask IH asking_disk_start asking_browse_root)
  qed
qed (simp add: ask)

lemma asking_choose_target: "asking (fuel - 1) (choose_target fuel E)"
  unfolding choose_target_def Let_def
  by (rule asking_ibind [OF asking_typed_path(2)], rule asking_weaken [OF asking_choose_loop]) simp

text \<open>
  The name of the entry that recovery authors: were the path of the image empty, the fallback's
  length would be applied to the buffer \<open>entry_name\<close> left at zeros, and the name would be eight NULs
  and not \<open>recovery\<close>.  The paths chosen on screen are never empty.
\<close>

lemma recovery_name_fallback: "chosen_name chosen_new = replicate 8 0 \<and> \<not> check_name (chosen_name chosen_new)"
  by code_simp

section \<open>The whole boot\<close>

lemma asking_catch [ask]: "asking f m \<Longrightarrow> asking f (catch m)"
proof -
  assume m: "asking f m"
  have "asked (m_trace s) \<le> asked (m_trace (snd (catch m s)))" if "fst (catch m s) \<noteq> Panic" for s
    using m [unfolded asking_def, rule_format, of s] that
    by (cases "m s") (auto simp: catch_def split: res.splits exit.splits)
  moreover have "asked (m_trace s) + f \<le> asked (m_trace (snd (catch m s)))" if "fst (catch m s) = Err OutOfFuel" for s
    using m [unfolded asking_def, rule_format, of s] that
    by (cases "m s") (auto simp: catch_def split: res.splits exit.splits)
  ultimately show ?thesis by (simp add: asking_def)
qed

lemma asking_gates [ask]: "asking f (degrade_gates E l gs)"
  by (induction gs rule: degrade_gates.induct [of _ E l]) (auto intro!: ask)

lemma asking_stage3: "asking fuel (stage3 fuel E i cfg)"
  unfolding stage3_def open_volume_def normal_only_def gain_def by (intro ask asking_unlock)

lemma asking_stage4: "asking (fuel - 1) (stage4 fuel E i part rg entry)"
  unfolding stage4_def locate_target_def provision_def provision_seal_def delete_setup_def hand_over_def
    build_handoff_def start_image_def
  by (intro ask asking_choose_target)

lemma asking_go: "asking (fuel - 1) (go fuel E)"
  unfolding go_def
  by (intro ask asking_stage4 asking_weaken [OF asking_stage3]) simp

lemma asking_halted: "asking f (halted E e)"
  unfolding halted_def by (intro ask)

lemma outcome_cases:
  "outcome_of E m s = (case fst (m s) of Err (Failed e) \<Rightarrow> halted E e (snd (m s)) | Err (Finished o') \<Rightarrow> (Ok o', snd (m s)) | _ \<Rightarrow> m s)"
  by (cases "m s") (auto simp: outcome_of_def split: res.split exit.split)

lemma asking_outcome:
  assumes "asking f m"
  shows "asking f (outcome_of E m)"
  unfolding asking_def
proof
  fix s
  from assms have m: "fst (m s) \<noteq> Panic \<Longrightarrow> asked (m_trace s) \<le> asked (m_trace (snd (m s)))"
    "fst (m s) = Err OutOfFuel \<Longrightarrow> asked (m_trace s) + f \<le> asked (m_trace (snd (m s)))"
    by (auto simp: asking_def)
  have h: "fst (halted E e s') \<noteq> Err OutOfFuel"
    "fst (halted E e s') \<noteq> Panic \<Longrightarrow> asked (m_trace s') \<le> asked (m_trace (snd (halted E e s')))" for e s'
    using asking_never [OF asking_halted] by blast+
  show "(fst (outcome_of E m s) \<noteq> Panic \<longrightarrow> asked (m_trace s) \<le> asked (m_trace (snd (outcome_of E m s))))
     \<and> (fst (outcome_of E m s) = Err OutOfFuel \<longrightarrow> asked (m_trace s) + f \<le> asked (m_trace (snd (outcome_of E m s))))"
    unfolding outcome_cases using m h by (auto split: res.split exit.split intro: le_trans)
qed

text \<open>An error never comes out of the machine.\<close>

lemma halted_Ok: "fst (halted E e s) = Ok (Halted e)"
  by (simp add: halted_def prompt_def prompt_buf_def call_def ibind_def ret_def lift_def split: prod.split)

lemma outcome_Err: "fst (outcome_of E m s) = Err e \<Longrightarrow> e = OutOfFuel"
  unfolding outcome_cases by (auto simp: halted_Ok split: res.splits exit.splits)

definition wiped :: "buffers \<Rightarrow> bool" where
  "wiped b \<longleftrightarrow> (\<forall>x\<in>set (bf_secret b) \<union> set (bf_handoff b) \<union> set (bf_fvek_blob b). x = 0)"

lemma run_eq:
  "run fuel E bufs w = (case outcome_of E (go fuel E) (start bufs w) of
     (Ok o', s) \<Rightarrow> (Ok o', snd (wipe s)) | (Err e, s) \<Rightarrow> (Err e, s) | (Panic, s) \<Rightarrow> (Panic, s))"
  by (simp add: run_def ibind_def wipe_def set_buf_def ret_def lift_def split: prod.split res.split)

text \<open>
  C5.  A boot ends, unless the user keeps being asked: it never panics, whatever the firmware, the
  disks, the TPM and the user do; it runs out of fuel only when the user has been asked at least
  \<open>fuel - 1\<close> times; and when it ends, with any outcome, the caller's buffers of the typed secret, the
  handoff and the encrypted volume key hold only zeros.
\<close>

theorem boot_ends:
  "case run fuel E bufs w of
     (Ok o', s) \<Rightarrow> wiped (m_bufs s)
   | (Err e, s) \<Rightarrow> e = OutOfFuel \<and> fuel \<le> Suc (asked (m_trace s))
   | (Panic, s) \<Rightarrow> False"
proof -
  let ?o = "outcome_of E (go fuel E) (start bufs w)"
  have "fuel \<le> Suc (asked (m_trace (snd ?o)))" if "fst ?o = Err OutOfFuel"
    using asking_outcome [OF asking_go, of fuel E E] that by (auto simp: asking_def)
  moreover have "fst ?o \<noteq> Panic"
    using run_inv(2) [of fuel E bufs w] by (auto simp: run_eq split: prod.splits res.splits)
  ultimately show ?thesis
    unfolding run_eq using outcome_Err [of E "go fuel E" "start bufs w"]
    by (auto simp: wiped_def wipe_def set_buf_def zeros_def split: prod.split res.split)
qed

end
