(* ===== verification/Spec2Isabelle.thy ===== *)
theory Spec2Isabelle
  imports FatCorrect FatImageCorrect BdeVolume Claims Payload Seal Config MachineEnds
begin

text \<open>
  A verification development for paguro, which boots Linux from a disk image inside the NTFS (and
  BitLocker) volume of a Windows machine.  The repository's Rust crates under \<open>src/crates\<close> share one
  crate of pure logic, \<open>paguro-core\<close>: parsers and writers over byte slices and the range test that
  decides which sectors may be written.  The UEFI loader, \<open>paguro-boot\<close>, is a stage machine over three
  interfaces (the firmware, an open volume, a TPM); it verifies \<open>paguro.ini\<close>, ratchets PCR 12, gains
  the volume key through one of several rungs, and hands the key and the image's location to the
  initrd in one blob.  This development models that core crate in large part, and the whole machine.

  \<^bold>\<open>Conventions\<close> (theory Prelude).  A result is \<open>Ok x\<close>, \<open>Err e\<close> or \<open>Panic\<close>: the last is an arithmetic
  overflow or an index out of range, which Rust checks, so that a theorem that excludes \<open>Panic\<close> says
  that the code does neither.  \<open>rbind\<close> is the operator \<open>?\<close>.  Computations with effects are functions
  from a state to a result and a state (\<open>io\<close>); \<open>wp\<close>, \<open>wpi\<close> and \<open>wpx\<close> are their weakest preconditions, the
  last with a condition for early exits.  Integers are \<open>nat\<close> with the bounds of their types written out
  (\<open>add64\<close>, \<open>checked_add\<close>, \<open>saturating_mul\<close>, ...), bytes are 8-bit words, strings are lists of scalar
  values with the UTF-8 encoding of theory Utf8.  Fixed arrays with a length field are lists.

  \<^bold>\<open>Parts of the program and their theories.\<close>

  \<^item> \<open>bytes.rs\<close> (Bytes): the bounded reader and writer.  The locale \<open>codec\<close> states what a format
    promises, that a decoder accepts exactly the encodings of well-formed values; the formats below
    interpret it.  \<open>layout.rs\<close> (Layout): offsets and sizes of packed structures from field lists.
  \<^item> \<open>range.rs\<close> (Range): the set of protected sectors, sorted and merged, and the test on a write,
    against the harness's brute-force oracle.  \<open>runlist.rs\<close> (Runlist): NTFS mapping pairs.
  \<^item> \<open>guid.rs\<close> (Guid), \<open>gpt.rs\<close> (Gpt: CRC-32, header, entries, builder), \<open>vhd.rs\<close> (Vhd), \<open>disk.rs\<close>
    (Disk: image formats, FAT32 boot sectors, choice of the EFI file system), \<open>fat.rs\<close> (Fat, FatCorrect:
    FAT32 directories) and \<open>paguro-vm/src/fat.rs\<close> (FatImage, FatImageCorrect: the image writer, against that
    reader).
  \<^item> \<open>ntfs/layout.rs\<close> (NtfsLayout), \<open>ntfs.rs\<close>: reading a file's mapping (Ntfs, NtfsCorrect), claims on
    sectors (Claims), the structural assertion on an image's payload (Payload).
  \<^item> \<open>seal.rs\<close> (Seal), \<open>ini.rs\<close> and \<open>config.rs\<close> (Ini, Config), \<open>handoff.rs\<close> (Handoff), \<open>bootstrap.rs\<close>
    (Bootstrap: the installer's payload, UEFI load options and device paths), \<open>fve.rs\<close> (Fve),
    \<open>tpm.rs\<close> (TpmCodec: commands, responses, PCR selections, policy digests).
  \<^item> \<open>paguro-crypto\<close>: the key derivation chain (Crypto, from \<open>lib.rs\<close>) and XTS and the CCM key wrap (Xts, from
    \<open>bitlocker.rs\<close>), over the primitives of third-party crates, which are parameters.
  \<^item> BitLocker: \<open>bde.rs\<close> of \<open>paguro-core\<close> (Bde: volume header, metadata blocks and their cross-check, entries and
    protectors, startup keys, the layout and its sector map; BdeParse and BdeCorrect for the proofs) and \<open>bde.rs\<close> of
    \<open>paguro-boot\<close> (BdeBoot: from a protector to the volume key, the decrypting reader with its one-unit cache, the
    volume object; BdeBootCorrect and BdeVolume for the proofs).
  \<^item> \<open>paguro-boot\<close>: the data exchanged with firmware and user (Platform, from \<open>platform.rs\<close>, \<open>ui.rs\<close> and
    \<open>machine.rs\<close>), the frame of the machine (Boot, from \<open>lib.rs\<close>, \<open>volume.rs\<close>, \<open>tpm.rs\<close>), the search for
    the volume and the recovery password (Volume, from \<open>volume.rs\<close>), and the machine itself (Machine,
    from \<open>machine.rs\<close>, one definition per method).

  \<^bold>\<open>The machine.\<close>  The traits \<open>Platform\<close> and \<open>Volume\<close> and the TPM client are records of functions over a
  world; every theorem holds for all of them.  Each call is recorded with its result in a trace.
  Theory MachineCorrect states rules that a call must obey given the calls before it, and proves that
  every boot obeys them: what PCR 12 holds when a key is released, that the volume's contents are used
  only after the boot taint, what a published handoff contains, which firmware variables are written
  and deleted.  Each stage has an invariant that ties the machine's state to the trace; the locale
  \<open>stage\<close> and its extensions \<open>recovering\<close>, \<open>unlocking\<close> and \<open>tainted_stage\<close> are what the methods need of
  it, so each method is proved once and the locales are interpreted on the invariants before the
  ratchet, while unlocking and after the taint.  Theory MachineEnds shows how a boot ends.

  \<^bold>\<open>The BitLocker volume.\<close>  \<open>unit_source\<close> says where one unit of the decrypted view comes from, \<open>view_unit\<close> and
  \<open>view_sector\<close> what its bytes are.  The runs of \<open>Layout::map\<close> follow \<open>unit_source\<close>; the units read from the disk are
  distinct and never BitLocker's own; a file outside the reserved ranges is where it seems to be; and the reader returns
  \<open>view_sector\<close> from the blocks of the partition, for every block and sector size, or the disk's failure.  The volume
  object is a state machine (\<open>vol_step\<close>, \<open>vol_reach\<close>): whatever is opened and tried, raw sectors are those of the partition last
  opened as NTFS, and a partition opened as BitLocker is served only decrypted, with its own layout and an authenticated key.

  \<^bold>\<open>What the lemmas show\<close>, besides: parsers never panic on any input; formats are decoded exactly
  (Runlist, Seal, Bootstrap, Fve, TpmCodec) or round-trip (Guid, Gpt, Handoff, load options, recovery
  passwords); what parses is well formed (Config, Handoff); reads stay inside the volume or the image
  (Ntfs, Payload, Disk, Fat) and file maps translate every sector (NtfsCorrect, Claims); optimised routines
  agree with their reference (Range, CRC-32, claims).  Where the code deviates from what it means to do, the deviation is
  a theorem: \<open>long_name_underflow\<close> (FatCorrect), a subtraction below zero in the long names of a FAT directory, and
  \<open>encode_misses_sector_size\<close> (Handoff).

  \<^bold>\<open>Fuel.\<close>  Recursions in the core terminate by measures.  The loops of the sector reader and of the comparison of the
  metadata copies take as fuel the number of sectors and of bytes, at least one of which every pass serves; out of
  fuel they would panic, which the theorems exclude for the reader.  The machine's loops that wait for the user
  take fuel; the rules hold for every fuel, hence for runs that never end, and fuel runs out only
  after \<open>fuel - 1\<close> questions to the user, so any bound on the number of answers is enough fuel.

  \<^bold>\<open>Not modelled.\<close>  Diagnostics; wiping of local copies (that of the caller's buffers is).  For the machine the
  methods of \<open>Volume\<close> stay parameters: \<open>bde.rs\<close> implements them, but its search for files is \<open>stage4.rs\<close>, which is
  not modelled, nor are the TPM client's sessions (\<open>tpm.rs\<close> of \<open>paguro-boot\<close> and of \<open>paguro-crypto\<close>).  Also not:
  \<open>paguro-core\<close>'s host-inventory parsers (\<open>edid.rs\<close>, \<open>smbios.rs\<close>, \<open>hwid.rs\<close>, \<open>efisig.rs\<close>, \<open>recorded.rs\<close>,
  \<open>tcglog.rs\<close>), \<open>tpm_auth.rs\<close> and \<open>ntfs/dir.rs\<close>; drawing and themes (\<open>paguro-ui\<close>, \<open>paguro-theme\<close>,
  \<open>paguro-ui-preview\<close>, \<open>vt100.rs\<close>, keymaps); the UEFI, Windows, Linux, initrd and virtual-machine front ends, which
  call operating systems; the C kernel modules and the Windows filter driver, which are not Rust.
\<close>

end
